(* ===== verification/Pty_Prelude.thy ===== *)
theory Pty_Prelude
  imports Main "HOL-Library.Word"
begin

text \<open>
  Shared vocabulary of the development: the machine types of the native code, C strings,
  the facts about lists and words that several components use, and the two contracts that
  more than one component states or relies on.

  The native code is built for 64-bit macOS (LP64): \<open>size_t\<close> and \<open>uint64_t\<close> have 64 bits,
  \<open>int\<close> and \<open>pid_t\<close> have 32. Counters, sequence numbers, generations and handles, whose
  wrap-around is visible, are words of their width. A \<open>size_t\<close> that only ever counts bytes
  of bounded queues is a \<open>nat\<close>; the bound that keeps it from wrapping is proved with the
  invariant of the component that owns it.
\<close>

unbundle bit_operations_syntax

section \<open>Machine types\<close>

type_synonym byte = "8 word"
type_synonym u16 = "16 word"
type_synonym u32 = "32 word"
type_synonym u64 = "64 word"
type_synonym pid = int
type_synonym fd = int

text \<open>
  A \<open>const char*\<close> is \<open>None\<close> for the null pointer, and otherwise the bytes before its
  terminating NUL.
\<close>

type_synonym cstring = "byte list option"

named_theorems frame_simps \<open>which fields a step leaves alone\<close>
named_theorems preserve_intros \<open>one operation keeps an invariant\<close>

section \<open>C strings\<close>

text \<open>\<open>strnlen(s, n)\<close>: the number of bytes before the first NUL, at most \<open>n\<close>.\<close>

definition strnlen :: "byte list \<Rightarrow> nat \<Rightarrow> nat" where
  "strnlen s n = length (takeWhile (\<lambda>b. b \<noteq> 0) (take n s))"

lemma strnlen_le: "strnlen s n \<le> n"
  unfolding strnlen_def by (metis length_take length_takeWhile_le min.bounded_iff)

lemma strnlen_le_length: "strnlen s n \<le> length s"
  unfolding strnlen_def by (metis length_take length_takeWhile_le min.bounded_iff)

lemma strnlen_no_nul: "0 \<notin> set s \<Longrightarrow> strnlen s n = min n (length s)"
proof -
  assume "0 \<notin> set s"
  then have "\<forall>b \<in> set (take n s). b \<noteq> 0" by (auto dest: in_set_takeD)
  then show ?thesis unfolding strnlen_def by (simp add: takeWhile_eq_all_conv [THEN iffD2] min.commute)
qed

lemma strnlen_nul: "0 \<notin> set s \<Longrightarrow> length s < n \<Longrightarrow> strnlen (s @ 0 # t) n = length s"
proof -
  assume a: "0 \<notin> set s" "length s < n"
  then obtain k where "n - length s = Suc k" by (metis Suc_diff_Suc)
  then have "take n (s @ 0 # t) = s @ 0 # take k t" by (simp add: a)
  with a show ?thesis unfolding strnlen_def by (auto simp: takeWhile_append)
qed

lemma take_strnlen: "take (strnlen s n) s = takeWhile (\<lambda>b. b \<noteq> 0) (take n s)"
proof -
  have "take (strnlen s n) (take n s) = takeWhile (\<lambda>b. b \<noteq> 0) (take n s)"
    unfolding strnlen_def by (metis takeWhile_eq_take)
  then show ?thesis using strnlen_le [of s n] by (simp add: min_def)
qed

lemma strnlen_take_nonzero: "b \<in> set (take (strnlen s n) s) \<Longrightarrow> b \<noteq> 0"
  by (auto simp: take_strnlen dest: set_takeWhileD)

lemma strnlen_stops_at_nul: "strnlen s n < min n (length s) \<Longrightarrow> s ! strnlen s n = 0"
proof -
  assume a: "strnlen s n < min n (length s)"
  have "\<not> (take n s ! length (takeWhile (\<lambda>b. b \<noteq> 0) (take n s)) \<noteq> 0)"
    by (rule nth_length_takeWhile) (use a in \<open>simp add: strnlen_def min.commute\<close>)
  then show ?thesis using a by (simp add: strnlen_def)
qed

section \<open>Lists and options\<close>

definition sum_len :: "'a list list \<Rightarrow> nat" where
  "sum_len xss = sum_list (map length xss)"

lemma sum_len_simps [simp]:
  "sum_len [] = 0"
  "sum_len (x # xs) = length x + sum_len xs"
  "sum_len (xs @ ys) = sum_len xs + sum_len ys"
  by (simp_all add: sum_len_def)

lemma length_concat_sum_len: "length (concat xss) = sum_len xss"
  by (induction xss) auto

lemma sum_len_pos: "x \<in> set xs \<Longrightarrow> length x \<le> sum_len xs"
  by (induction xs) auto

lemma butlast_last: "xs \<noteq> [] \<Longrightarrow> set xs = insert (last xs) (set (butlast xs))"
  by (metis append_butlast_last_id insert_is_Un list.set(1) list.set(2) set_append sup_commute)

section \<open>Words\<close>

lemma unat_plus1: "x \<noteq> - 1 \<Longrightarrow> unat (x + 1 :: 'a::len word) = Suc (unat x)"
  by (metis add.inverse_inverse add_eq_0_iff2 add.commute plus_1_eq_Suc unatSuc)

lemma unat_bound: "unat (x :: 'a::len word) < 2 ^ LENGTH('a)"
  by (rule unsigned_less)

lemma unat_neg_1: "unat (- 1 :: 'a::len word) = 2 ^ LENGTH('a) - 1"
  by (simp add: unsigned_minus_1_eq_mask mask_eq_exp_minus_1)

lemma unat_less_max: "unat (i :: 'a::len word) < 2 ^ LENGTH('a) - 1 \<Longrightarrow> i \<noteq> - 1"
  by (auto simp: unat_neg_1)

lemma unat_ucast_u32: "unat (ucast (i :: u32) :: u64) = unat i"
proof -
  have "unat i < 2 ^ 32" using unat_bound [of i] by simp
  then have "unat i < 2 ^ 64" by simp
  then show ?thesis by (simp add: unsigned_ucast_eq take_bit_nat_eq_self)
qed

lemma ucast_plus1: "i \<noteq> - 1 \<Longrightarrow> ucast i + (1 :: u64) = ucast (i + 1 :: u32)"
proof -
  assume "i \<noteq> - 1"
  then have "unat (i + 1) = Suc (unat i)" by (rule unat_plus1)
  moreover have "unat (i + 1) < 2 ^ 32" using unat_bound [of "i + 1"] by simp
  ultimately show ?thesis
    by (intro word_unat_eq_iff [THEN iffD2]) (simp add: unat_word_ariths unat_ucast_u32)
qed

section \<open>A bounded byte queue\<close>

text \<open>
  Several components keep a first-in-first-out queue of byte strings with a running byte
  count and a limit: the pending writes of a session, its unacknowledged output, the text
  input packets of a view. The contract: an accepted element goes to the end, the count is
  the number of queued bytes, and the limit is never passed.
\<close>

locale byte_queue =
  fixes items :: "'q \<Rightarrow> byte list list"
    and used :: "'q \<Rightarrow> nat"
    and limit :: "'q \<Rightarrow> nat"
    and good :: "'q \<Rightarrow> bool"
    and push :: "byte list \<Rightarrow> 'q \<Rightarrow> 'q option"
  assumes good_used: "good q \<Longrightarrow> used q = sum_len (items q)"
    and good_limit: "good q \<Longrightarrow> used q \<le> limit q"
    and push_good: "good q \<Longrightarrow> push b q = Some q' \<Longrightarrow> good q'"
    and push_items: "good q \<Longrightarrow> push b q = Some q' \<Longrightarrow> items q' = items q @ [b]"
    and push_limit: "good q \<Longrightarrow> push b q = Some q' \<Longrightarrow> limit q' = limit q"
begin

fun push_all :: "byte list list \<Rightarrow> 'q \<Rightarrow> 'q option" where
  "push_all [] q = Some q"
| "push_all (b # bs) q = (case push b q of None \<Rightarrow> None | Some q' \<Rightarrow> push_all bs q')"

lemma push_used: "good q \<Longrightarrow> push b q = Some q' \<Longrightarrow> used q' = used q + length b"
  by (simp add: good_used push_good push_items)

lemma push_all_good: "good q \<Longrightarrow> push_all bs q = Some q' \<Longrightarrow> good q'"
  by (induction bs arbitrary: q) (auto split: option.splits dest: push_good)

lemma push_all_items: "good q \<Longrightarrow> push_all bs q = Some q' \<Longrightarrow> items q' = items q @ bs"
proof (induction bs arbitrary: q)
  case (Cons b bs)
  then obtain q1 where q1: "push b q = Some q1" "push_all bs q1 = Some q'"
    by (auto split: option.splits)
  with Cons.prems have "items q' = items q1 @ bs" by (blast intro: Cons.IH push_good)
  with q1 Cons.prems show ?case by (simp add: push_items)
qed simp

lemma push_too_big: "good q \<Longrightarrow> limit q < used q + length b \<Longrightarrow> push b q = None"
proof (rule ccontr)
  assume a: "good q" "limit q < used q + length b" "push b q \<noteq> None"
  then obtain q' where q': "push b q = Some q'" by blast
  with a have "used q' \<le> limit q'" by (auto intro: good_limit push_good)
  with a q' show False by (simp add: push_used push_limit)
qed

end

text \<open>A queue whose only limit is that of its bytes accepts whatever fits.\<close>

locale bounded_queue = byte_queue +
  assumes push_fits: "good q \<Longrightarrow> b \<noteq> [] \<Longrightarrow> used q + length b \<le> limit q \<Longrightarrow> push b q \<noteq> None"
begin

lemma push_iff: "good q \<Longrightarrow> b \<noteq> [] \<Longrightarrow> (push b q \<noteq> None) = (used q + length b \<le> limit q)"
  by (metis push_fits push_too_big not_le)

lemma push_all_fits:
  "good q \<Longrightarrow> [] \<notin> set bs \<Longrightarrow> used q + sum_len bs \<le> limit q \<Longrightarrow> push_all bs q \<noteq> None"
proof (induction bs arbitrary: q)
  case (Cons b bs)
  then obtain q1 where q1: "push b q = Some q1" using push_fits [of q b] by fastforce
  moreover have "push_all bs q1 \<noteq> None"
  proof (rule Cons.IH)
    from Cons.prems q1 show "good q1" by (blast intro: push_good)
    from Cons.prems show "[] \<notin> set bs" by simp
    from Cons.prems q1 show "used q1 + sum_len bs \<le> limit q1"
      by (simp add: push_used push_limit)
  qed
  ultimately show ?case by simp
qed simp

end

section \<open>Shared state under a lock\<close>

text \<open>
  The state of a component that one thread works on while other threads call its
  operations, each under the component's lock. The contract of the other threads' calls:
  each keeps the invariant, and changes the state only as \<open>rely\<close> allows. Then the same
  holds for any number of calls between two critical sections of the working thread.
\<close>

locale shared_state =
  fixes call :: "'c \<Rightarrow> 's \<Rightarrow> 's"
    and rely :: "'s \<Rightarrow> 's \<Rightarrow> bool"
    and inv :: "'s \<Rightarrow> bool"
  assumes rely_refl: "rely s s"
    and rely_trans: "rely s t \<Longrightarrow> rely t u \<Longrightarrow> rely s u"
    and call_rely: "inv s \<Longrightarrow> rely s (call c s)"
    and call_inv: "inv s \<Longrightarrow> inv (call c s)"
begin

lemma fold_inv: "inv s \<Longrightarrow> inv (fold call cs s)"
  by (induction cs arbitrary: s) (auto intro: call_inv)

lemma fold_rely: "inv s \<Longrightarrow> rely s (fold call cs s)"
proof (induction cs arbitrary: s)
  case Nil
  show ?case by (simp add: rely_refl)
next
  case (Cons c cs)
  from Cons.prems have "rely s (call c s)" by (rule call_rely)
  moreover have "rely (call c s) (fold call cs (call c s))"
    using Cons.prems by (intro Cons.IH call_inv)
  ultimately show ?case by (auto intro: rely_trans)
qed

lemma fold_stable:
  assumes "inv s" "\<And>t u. P t \<Longrightarrow> rely t u \<Longrightarrow> P u" "P s"
  shows "P (fold call cs s)"
  using assms fold_rely by blast

end

end
