(* ===== verification/Pty_Abi.thy ===== *)
theory Pty_Abi
  imports Pty_Prelude
begin

text \<open>
  The C interface of the PTY package, \<^verbatim>\<open>packages/dart_pty_macos/native/dart_pty_macos.h\<close>:
  its enumerations with their numeric codes, its limits, the layout of the versioned
  configuration structure, the error record, and the event a session hands to its
  callback. The numbers of \<open>errno\<close> and of the signals are those of the macOS headers.
\<close>

section \<open>Enumerations\<close>

datatype DptyStatus =
    DPTY_STATUS_OK
  | DPTY_STATUS_INVALID_ARGUMENT
  | DPTY_STATUS_INVALID_HANDLE
  | DPTY_STATUS_WRONG_STATE
  | DPTY_STATUS_BACKPRESSURED
  | DPTY_STATUS_SYSTEM_ERROR
  | DPTY_STATUS_TIMED_OUT

primrec status_code :: "DptyStatus \<Rightarrow> int" where
  "status_code DPTY_STATUS_OK = 0"
| "status_code DPTY_STATUS_INVALID_ARGUMENT = 1"
| "status_code DPTY_STATUS_INVALID_HANDLE = 2"
| "status_code DPTY_STATUS_WRONG_STATE = 3"
| "status_code DPTY_STATUS_BACKPRESSURED = 4"
| "status_code DPTY_STATUS_SYSTEM_ERROR = 5"
| "status_code DPTY_STATUS_TIMED_OUT = 6"

datatype DptyEventType =
    DPTY_EVENT_STARTED
  | DPTY_EVENT_OUTPUT
  | DPTY_EVENT_EXIT
  | DPTY_EVENT_ERROR
  | DPTY_EVENT_WRITE_ENQUEUED
  | DPTY_EVENT_WRITE_DEQUEUED
  | DPTY_EVENT_WRITE_COMPLETED
  | DPTY_EVENT_WRITE_ERROR
  | DPTY_EVENT_FORCE_CLOSE_DEQUEUED
  | DPTY_EVENT_SIGNAL_DELIVERY
  | DPTY_EVENT_WAITPID_RESULT
  | DPTY_EVENT_EXIT_PUBLISHED
  | DPTY_EVENT_STATE_SNAPSHOT
  | DPTY_EVENT_TERMIOS_SNAPSHOT
  | DPTY_EVENT_PROCESS_EXIT_READY
  | DPTY_EVENT_EXTERNAL_REAP_OBSERVED

primrec event_code :: "DptyEventType \<Rightarrow> u32" where
  "event_code DPTY_EVENT_STARTED = 1"
| "event_code DPTY_EVENT_OUTPUT = 2"
| "event_code DPTY_EVENT_EXIT = 3"
| "event_code DPTY_EVENT_ERROR = 4"
| "event_code DPTY_EVENT_WRITE_ENQUEUED = 5"
| "event_code DPTY_EVENT_WRITE_DEQUEUED = 6"
| "event_code DPTY_EVENT_WRITE_COMPLETED = 7"
| "event_code DPTY_EVENT_WRITE_ERROR = 8"
| "event_code DPTY_EVENT_FORCE_CLOSE_DEQUEUED = 9"
| "event_code DPTY_EVENT_SIGNAL_DELIVERY = 10"
| "event_code DPTY_EVENT_WAITPID_RESULT = 11"
| "event_code DPTY_EVENT_EXIT_PUBLISHED = 12"
| "event_code DPTY_EVENT_STATE_SNAPSHOT = 13"
| "event_code DPTY_EVENT_TERMIOS_SNAPSHOT = 14"
| "event_code DPTY_EVENT_PROCESS_EXIT_READY = 15"
| "event_code DPTY_EVENT_EXTERNAL_REAP_OBSERVED = 16"

datatype DptySessionStateFlag =
    DPTY_SESSION_STATE_CLOSING
  | DPTY_SESSION_STATE_CLOSE_STARTED
  | DPTY_SESSION_STATE_CHILD_REAPED
  | DPTY_SESSION_STATE_MASTER_EOF
  | DPTY_SESSION_STATE_READ_PAUSED
  | DPTY_SESSION_STATE_READ_ENABLED
  | DPTY_SESSION_STATE_WRITE_ENABLED
  | DPTY_SESSION_STATE_CHILD_EXIT_OBSERVED
  | DPTY_SESSION_STATE_CHILD_EXTERNALLY_REAPED

primrec flag_bit :: "DptySessionStateFlag \<Rightarrow> nat" where
  "flag_bit DPTY_SESSION_STATE_CLOSING = 0"
| "flag_bit DPTY_SESSION_STATE_CLOSE_STARTED = 1"
| "flag_bit DPTY_SESSION_STATE_CHILD_REAPED = 2"
| "flag_bit DPTY_SESSION_STATE_MASTER_EOF = 3"
| "flag_bit DPTY_SESSION_STATE_READ_PAUSED = 4"
| "flag_bit DPTY_SESSION_STATE_READ_ENABLED = 5"
| "flag_bit DPTY_SESSION_STATE_WRITE_ENABLED = 6"
| "flag_bit DPTY_SESSION_STATE_CHILD_EXIT_OBSERVED = 7"
| "flag_bit DPTY_SESSION_STATE_CHILD_EXTERNALLY_REAPED = 8"

text \<open>The enumerator's value, \<open>1u << n\<close>.\<close>

definition flag_code :: "DptySessionStateFlag \<Rightarrow> u64" where
  "flag_code f = push_bit (flag_bit f) 1"

lemma flag_bit_inject: "flag_bit f = flag_bit g \<longleftrightarrow> f = g"
  by (cases f; cases g) simp_all

lemma flag_bit_less: "flag_bit f < 64"
  by (cases f) simp_all

lemma bit_flag_code: "bit (flag_code f) n \<longleftrightarrow> n = flag_bit f"
  using flag_bit_less [of f]
  by (auto simp: flag_code_def bit_exp_iff)

section \<open>Signals and error numbers\<close>

abbreviation "SIGHUP \<equiv> (1::int)"
abbreviation "SIGINT \<equiv> (2::int)"
abbreviation "SIGQUIT \<equiv> (3::int)"
abbreviation "SIGKILL \<equiv> (9::int)"
abbreviation "SIGTERM \<equiv> (15::int)"
abbreviation "SIGTSTP \<equiv> (18::int)"

abbreviation "EPERM \<equiv> (1::int)"
abbreviation "ENOENT \<equiv> (2::int)"
abbreviation "ESRCH \<equiv> (3::int)"
abbreviation "EINTR \<equiv> (4::int)"
abbreviation "EIO \<equiv> (5::int)"
abbreviation "ENXIO \<equiv> (6::int)"
abbreviation "E2BIG \<equiv> (7::int)"
abbreviation "ECHILD \<equiv> (10::int)"
abbreviation "ENOMEM \<equiv> (12::int)"
abbreviation "EINVAL \<equiv> (22::int)"
abbreviation "ENOTTY \<equiv> (25::int)"
abbreviation "ERANGE \<equiv> (34::int)"
abbreviation "EAGAIN \<equiv> (35::int)"
abbreviation "ETIMEDOUT \<equiv> (60::int)"
abbreviation "ENAMETOOLONG \<equiv> (63::int)"
abbreviation "ESTALE \<equiv> (70::int)"
abbreviation "EOVERFLOW \<equiv> (84::int)"

section \<open>Limits\<close>

abbreviation "DPTY_ABI_VERSION \<equiv> (8::u32)"
abbreviation "DPTY_WORKING_DIRECTORY_CAPACITY \<equiv> (4096::nat)"
abbreviation "DPTY_FOREGROUND_PROCESS_LIMIT \<equiv> (32::nat)"
abbreviation "DPTY_FOREGROUND_PROCESS_NAME_CAPACITY \<equiv> (257::nat)"
abbreviation "DPTY_FOREGROUND_EXECUTABLE_PATH_CAPACITY \<equiv> (16385::nat)"
abbreviation "DPTY_FOREGROUND_ARGUMENT_LIMIT \<equiv> (128::nat)"
abbreviation "DPTY_FOREGROUND_ARGUMENT_BYTES_CAPACITY \<equiv> (65536::nat)"
abbreviation "DPTY_FOREGROUND_SINGLE_ARGUMENT_LIMIT \<equiv> (16384::nat)"

text \<open>The constants at the head of \<^verbatim>\<open>PtySession.cc\<close>.\<close>

abbreviation "kMaximumStringBytes \<equiv> (1048576::nat)"
abbreviation "kMaximumVectorEntries \<equiv> (16384::nat)"
abbreviation "kMaximumQueueBytes \<equiv> (67108864::nat)"
abbreviation "kDefaultReadBatchBytes \<equiv> (65536::nat)"
abbreviation "kMaximumReadBatchesPerTurn \<equiv> (8::nat)"
abbreviation "kMaximumWriteBatchesPerTurn \<equiv> (8::nat)"
abbreviation "kMaximumWriteBytesPerTurn \<equiv> (524288::nat)"
abbreviation "kMaximumCloseGraceMillis \<equiv> (60000::nat)"
abbreviation "kMaximumForegroundProcessScan \<equiv> (65536::nat)"

lemma limits_are_products:
  "kMaximumStringBytes = 1024 * 1024" "kMaximumVectorEntries = 16 * 1024"
  "kMaximumQueueBytes = 64 * 1024 * 1024" "kDefaultReadBatchBytes = 64 * 1024"
  "kMaximumWriteBytesPerTurn = 512 * 1024" "kMaximumCloseGraceMillis = 60 * 1000"
  "kMaximumForegroundProcessScan = 64 * 1024"
  by simp_all

section \<open>Structure layout\<close>

text \<open>
  The natural layout of a C structure on LP64: every member is placed at the next multiple
  of its alignment (here its size), and the whole is padded to the largest alignment. The
  code compares \<open>struct_size\<close> with the offsets of the members that later versions added.
\<close>

definition align_up :: "nat \<Rightarrow> nat \<Rightarrow> nat" where
  "align_up a n = ((n + a - 1) div a) * a"

fun member_offsets :: "nat list \<Rightarrow> nat \<Rightarrow> nat list" where
  "member_offsets [] n = []"
| "member_offsets (w # ws) n = align_up w n # member_offsets ws (align_up w n + w)"

definition struct_sizeof :: "nat list \<Rightarrow> nat" where
  "struct_sizeof ws =
     (case ws of [] \<Rightarrow> 0
      | _ \<Rightarrow> align_up (Max (set ws)) (last (member_offsets ws 0) + last ws))"

text \<open>The member widths of \<open>DptySessionConfigV1\<close>, in declaration order.\<close>

definition config_layout :: "nat list" where
  "config_layout = [8, 4, 8, 8, 8, 8, 8, 8, 2, 2, 8, 8, 8, 8, 8, 4, 8, 4]"

definition kMinimumConfigSize :: nat where
  "kMinimumConfigSize = member_offsets config_layout 0 ! 16"

definition kReadBatchConfigSize :: nat where
  "kReadBatchConfigSize = member_offsets config_layout 0 ! 17"

definition sizeof_config :: nat where
  "sizeof_config = struct_sizeof config_layout"

lemma config_sizes [simp]:
  "kMinimumConfigSize = 120" "kReadBatchConfigSize = 128" "sizeof_config = 136"
  by (simp_all add: kMinimumConfigSize_def kReadBatchConfigSize_def sizeof_config_def
      struct_sizeof_def config_layout_def align_up_def)

section \<open>Errors\<close>

text \<open>
  The thread's last error, \<open>DptyError\<close>: a status, an \<open>errno\<close> value and a message; the
  message pointer is null exactly when the message is empty. A fallible operation returns
  \<open>Inl e\<close> where the source calls \<open>SetError\<close> and returns the status.
\<close>

record DptyError =
  e_status :: DptyStatus
  e_system_error :: int
  e_message :: string

definition SetError :: "DptyStatus \<Rightarrow> int \<Rightarrow> string \<Rightarrow> DptyError" where
  "SetError st err msg = \<lparr>e_status = st, e_system_error = err, e_message = msg\<rparr>"

definition ClearError :: DptyError where
  "ClearError = SetError DPTY_STATUS_OK 0 ''''"

lemma SetError_simps [simp]:
  "e_status (SetError st err msg) = st"
  "e_system_error (SetError st err msg) = err"
  "e_message (SetError st err msg) = msg"
  by (simp_all add: SetError_def)

definition status_of :: "DptyError + 'a \<Rightarrow> DptyStatus" where
  "status_of r = (case r of Inl e \<Rightarrow> e_status e | Inr _ \<Rightarrow> DPTY_STATUS_OK)"

lemma status_of_simps [simp]:
  "status_of (Inl e) = e_status e" "status_of (Inr x) = DPTY_STATUS_OK"
  by (simp_all add: status_of_def)

section \<open>Events\<close>

text \<open>The arguments of \<open>dpty_event_callback_v1\<close>, without the context pointer.\<close>

record pty_event =
  ev_session :: u64
  ev_type :: DptyEventType
  ev_sequence :: u64
  ev_data :: "byte list option"
  ev_length :: nat
  ev_value1 :: int
  ev_value2 :: int
  ev_system_error :: int

end
