(* ===== verification/Pty_Config.thy ===== *)
theory Pty_Config
  imports Pty_Abi
begin

text \<open>
  The session configuration, \<open>CopyString\<close> and \<open>CopyConfig\<close> of \<^verbatim>\<open>PtySession.cc\<close>: what the
  caller passes is validated and copied into an \<open>OwnedConfig\<close>. The lemmas say exactly
  which configurations are accepted and what the copy then guarantees; every later bound
  of a session rests on \<open>config_wf\<close>.
\<close>

section \<open>The caller's structure and the copy\<close>

text \<open>
  A vector of C strings is \<open>None\<close> for the null pointer. The caller promises
  \<open>argument_count\<close> readable entries; the model reads entry \<open>i\<close> of the list, and an entry
  past its end is read as a null pointer.
\<close>

record DptySessionConfigV1 =
  cf_struct_size :: nat
  cf_abi_version :: u32
  cf_executable :: cstring
  cf_arguments :: "cstring list option"
  cf_argument_count :: nat
  cf_environment :: "cstring list option"
  cf_environment_count :: nat
  cf_working_directory :: cstring
  cf_initial_rows :: u16
  cf_initial_columns :: u16
  cf_read_high_water_bytes :: nat
  cf_read_low_water_bytes :: nat
  cf_write_capacity_bytes :: nat
  cf_callback :: "nat option"
  cf_diagnostics_enabled :: u32
  cf_read_batch_bytes :: nat
  cf_read_batches_per_event_loop_turn :: nat

record OwnedConfig =
  executable :: "byte list"
  arguments :: "byte list list"
  environment :: "byte list list"
  working_directory :: "byte list option"
  rows :: u16
  columns :: u16
  read_high_water :: nat
  read_low_water :: nat
  read_batch :: nat
  read_batches_per_event_loop_turn :: nat
  write_capacity :: nat
  callback :: "nat option"
  diagnostics_enabled :: bool

abbreviation "SLASH \<equiv> (47 :: byte)"
abbreviation "EQUALS \<equiv> (61 :: byte)"

definition entry :: "cstring list option \<Rightarrow> nat \<Rightarrow> cstring" where
  "entry v i = (case v of None \<Rightarrow> None | Some xs \<Rightarrow> (if i < length xs then xs ! i else None))"

section \<open>CopyString\<close>

definition CopyString :: "cstring \<Rightarrow> string \<Rightarrow> bool \<Rightarrow> DptyError + byte list" where
  "CopyString source field allow_empty =
     (case source of
        None \<Rightarrow> Inl (SetError DPTY_STATUS_INVALID_ARGUMENT EINVAL field)
      | Some s \<Rightarrow>
          (let len = strnlen s (kMaximumStringBytes + 1) in
           if (\<not> allow_empty \<and> len = 0) \<or> kMaximumStringBytes < len
           then Inl (SetError DPTY_STATUS_INVALID_ARGUMENT EINVAL field)
           else Inr (take len s)))"

lemma CopyString_InrD:
  assumes "CopyString source field allow_empty = Inr t"
  shows "\<exists>s. source = Some s \<and> t = take (strnlen s (kMaximumStringBytes + 1)) s \<and>
           strnlen s (kMaximumStringBytes + 1) \<le> kMaximumStringBytes \<and>
           (allow_empty \<or> strnlen s (kMaximumStringBytes + 1) \<noteq> 0)"
  using assms unfolding CopyString_def Let_def
  by (cases source; simp split: if_split_asm; linarith?)

lemma CopyString_Inr:
  assumes "CopyString source field allow_empty = Inr t"
  shows "length t \<le> kMaximumStringBytes" "0 \<notin> set t" "\<not> allow_empty \<Longrightarrow> t \<noteq> []"
proof -
  obtain s where s: "t = take (strnlen s (kMaximumStringBytes + 1)) s"
    "strnlen s (kMaximumStringBytes + 1) \<le> kMaximumStringBytes"
    "allow_empty \<or> strnlen s (kMaximumStringBytes + 1) \<noteq> 0"
    using CopyString_InrD [OF assms] by blast
  have len: "length t = strnlen s (kMaximumStringBytes + 1)"
    unfolding s(1) using strnlen_le_length [of s "kMaximumStringBytes + 1"]
    by (simp only: length_take min_absorb2)
  show "length t \<le> kMaximumStringBytes" unfolding len by (rule s(2))
  show "0 \<notin> set t" unfolding s(1) using strnlen_take_nonzero by blast
  show "\<not> allow_empty \<Longrightarrow> t \<noteq> []" using len s(3) by fastforce
qed

lemma CopyString_Some:
  assumes "0 \<notin> set s" "length s \<le> kMaximumStringBytes" "allow_empty \<or> s \<noteq> []"
  shows "CopyString (Some s) field allow_empty = Inr s"
  using assms by (auto simp: CopyString_def strnlen_no_nul)

section \<open>CopyConfig\<close>

fun copy_arguments :: "cstring list \<Rightarrow> DptyError + byte list list" where
  "copy_arguments [] = Inr []"
| "copy_arguments (a # as) =
     (case CopyString a ''PTY argument is invalid'' True of
        Inl e \<Rightarrow> Inl e
      | Inr v \<Rightarrow> (case copy_arguments as of Inl e \<Rightarrow> Inl e | Inr vs \<Rightarrow> Inr (v # vs)))"

fun copy_environment :: "cstring list \<Rightarrow> DptyError + byte list list" where
  "copy_environment [] = Inr []"
| "copy_environment (a # as) =
     (case CopyString a ''PTY environment entry is invalid'' False of
        Inl e \<Rightarrow> Inl (SetError DPTY_STATUS_INVALID_ARGUMENT EINVAL
                        ''PTY environment entry must be KEY=value'')
      | Inr v \<Rightarrow>
          (if hd v = EQUALS \<or> EQUALS \<notin> set v
           then Inl (SetError DPTY_STATUS_INVALID_ARGUMENT EINVAL
                       ''PTY environment entry must be KEY=value'')
           else (case copy_environment as of Inl e \<Rightarrow> Inl e | Inr vs \<Rightarrow> Inr (v # vs))))"

definition copy_absolute :: "cstring \<Rightarrow> string \<Rightarrow> string \<Rightarrow> DptyError + byte list" where
  "copy_absolute source field message =
     (case CopyString source field False of
        Inl e \<Rightarrow> Inl (SetError DPTY_STATUS_INVALID_ARGUMENT EINVAL message)
      | Inr v \<Rightarrow> (if hd v \<noteq> SLASH
                 then Inl (SetError DPTY_STATUS_INVALID_ARGUMENT EINVAL message)
                 else Inr v))"

definition has_read_batch :: "DptySessionConfigV1 \<Rightarrow> bool" where
  "has_read_batch c \<longleftrightarrow> kReadBatchConfigSize \<le> cf_struct_size c"

definition has_read_turn_limit :: "DptySessionConfigV1 \<Rightarrow> bool" where
  "has_read_turn_limit c \<longleftrightarrow> sizeof_config \<le> cf_struct_size c"

definition config_rejected :: "DptySessionConfigV1 \<Rightarrow> bool" where
  "config_rejected c \<longleftrightarrow>
     cf_struct_size c < kMinimumConfigSize \<or>
     cf_abi_version c \<noteq> DPTY_ABI_VERSION \<or> cf_callback c = None \<or>
     cf_arguments c = None \<or> cf_argument_count c = 0 \<or>
     kMaximumVectorEntries < cf_argument_count c \<or>
     kMaximumVectorEntries < cf_environment_count c \<or>
     (cf_environment_count c \<noteq> 0 \<and> cf_environment c = None) \<or>
     cf_initial_rows c = 0 \<or> cf_initial_columns c = 0 \<or>
     cf_read_high_water_bytes c = 0 \<or>
     cf_read_high_water_bytes c \<le> cf_read_low_water_bytes c \<or>
     kMaximumQueueBytes < cf_read_high_water_bytes c \<or>
     cf_write_capacity_bytes c = 0 \<or>
     kMaximumQueueBytes < cf_write_capacity_bytes c \<or>
     1 < cf_diagnostics_enabled c \<or>
     (has_read_batch c \<and> kDefaultReadBatchBytes < cf_read_batch_bytes c) \<or>
     (has_read_turn_limit c \<and>
      kMaximumReadBatchesPerTurn < cf_read_batches_per_event_loop_turn c)"

definition CopyConfig :: "DptySessionConfigV1 option \<Rightarrow> DptyError + OwnedConfig" where
  "CopyConfig source =
     (case source of
        None \<Rightarrow> Inl (SetError DPTY_STATUS_INVALID_ARGUMENT EINVAL
                       ''PTY session configuration is invalid'')
      | Some c \<Rightarrow>
     (if config_rejected c
      then Inl (SetError DPTY_STATUS_INVALID_ARGUMENT EINVAL
                  ''PTY session configuration is invalid'')
      else
     (case copy_absolute (cf_executable c) ''PTY executable is invalid''
             ''PTY executable must be an absolute path'' of
        Inl e \<Rightarrow> Inl e
      | Inr exe \<Rightarrow>
     (case copy_arguments (map (entry (cf_arguments c)) [0..<cf_argument_count c]) of
        Inl e \<Rightarrow> Inl e
      | Inr args \<Rightarrow>
     (case copy_environment (map (entry (cf_environment c)) [0..<cf_environment_count c]) of
        Inl e \<Rightarrow> Inl e
      | Inr env \<Rightarrow>
     (case (case cf_working_directory c of
              None \<Rightarrow> Inr None
            | Some d \<Rightarrow>
                (case copy_absolute (Some d) ''PTY working directory is invalid''
                        ''PTY working directory must be an absolute path'' of
                   Inl e \<Rightarrow> Inl e
                 | Inr v \<Rightarrow> Inr (Some v))) of
        Inl e \<Rightarrow> Inl e
      | Inr dir \<Rightarrow>
          Inr \<lparr>executable = exe, arguments = args, environment = env,
               working_directory = dir,
               rows = cf_initial_rows c, columns = cf_initial_columns c,
               read_high_water = cf_read_high_water_bytes c,
               read_low_water = cf_read_low_water_bytes c,
               read_batch = (if has_read_batch c \<and> cf_read_batch_bytes c \<noteq> 0
                             then cf_read_batch_bytes c else kDefaultReadBatchBytes),
               read_batches_per_event_loop_turn =
                 (if has_read_turn_limit c then cf_read_batches_per_event_loop_turn c else 0),
               write_capacity = cf_write_capacity_bytes c,
               callback = cf_callback c,
               diagnostics_enabled = (cf_diagnostics_enabled c \<noteq> 0)\<rparr>))))))"

section \<open>What an accepted configuration guarantees\<close>

definition owned_string :: "byte list \<Rightarrow> bool" where
  "owned_string s \<longleftrightarrow> length s \<le> kMaximumStringBytes \<and> 0 \<notin> set s"

definition absolute_path :: "byte list \<Rightarrow> bool" where
  "absolute_path s \<longleftrightarrow> owned_string s \<and> s \<noteq> [] \<and> hd s = SLASH"

definition environment_entry :: "byte list \<Rightarrow> bool" where
  "environment_entry s \<longleftrightarrow> owned_string s \<and>
     (\<exists>k v. s = k @ EQUALS # v \<and> k \<noteq> [] \<and> EQUALS \<notin> set k)"

definition config_wf :: "OwnedConfig \<Rightarrow> bool" where
  "config_wf c \<longleftrightarrow>
     absolute_path (executable c) \<and>
     list_all owned_string (arguments c) \<and>
     0 < length (arguments c) \<and> length (arguments c) \<le> kMaximumVectorEntries \<and>
     list_all environment_entry (environment c) \<and>
     length (environment c) \<le> kMaximumVectorEntries \<and>
     pred_option absolute_path (working_directory c) \<and>
     rows c \<noteq> 0 \<and> columns c \<noteq> 0 \<and>
     read_low_water c < read_high_water c \<and> read_high_water c \<le> kMaximumQueueBytes \<and>
     0 < read_batch c \<and> read_batch c \<le> kDefaultReadBatchBytes \<and>
     read_batches_per_event_loop_turn c \<le> kMaximumReadBatchesPerTurn \<and>
     0 < write_capacity c \<and> write_capacity c \<le> kMaximumQueueBytes \<and>
     callback c \<noteq> None"

lemma copy_arguments_Inr:
  "copy_arguments as = Inr vs \<Longrightarrow> length vs = length as \<and> list_all owned_string vs"
proof (induction as arbitrary: vs)
  case (Cons a as)
  then show ?case
    by (auto simp: owned_string_def split: sum.splits dest: CopyString_Inr(1,2))
qed simp

lemma split_at_equals:
  assumes "v \<noteq> []" "hd v \<noteq> EQUALS" "EQUALS \<in> set v"
  shows "\<exists>k u. v = k @ EQUALS # u \<and> k \<noteq> [] \<and> EQUALS \<notin> set k"
proof -
  from assms(3) obtain k u where ku: "v = k @ EQUALS # u" "EQUALS \<notin> set k"
    by (meson split_list_first)
  with assms have "k \<noteq> []" by (cases k) auto
  with ku show ?thesis by blast
qed

lemma copy_environment_Inr:
  "copy_environment as = Inr vs \<Longrightarrow> length vs = length as \<and> list_all environment_entry vs"
proof (induction as arbitrary: vs)
  case (Cons a as)
  then obtain v us where v: "CopyString a ''PTY environment entry is invalid'' False = Inr v"
    "hd v \<noteq> EQUALS" "EQUALS \<in> set v" "copy_environment as = Inr us" "vs = v # us"
    by (auto split: sum.splits if_splits)
  then have "environment_entry v"
    using CopyString_Inr [OF v(1)] split_at_equals
    by (simp add: environment_entry_def owned_string_def)
  with Cons.IH [OF v(4)] v show ?case by simp
qed simp

lemma copy_absolute_Inr: "copy_absolute s f m = Inr v \<Longrightarrow> absolute_path v"
  by (auto simp: copy_absolute_def absolute_path_def owned_string_def
      split: sum.splits if_splits dest: CopyString_Inr)

lemma CopyConfig_InrE:
  assumes "CopyConfig source = Inr c"
  obtains cf where "source = Some cf" "\<not> config_rejected cf"
    "copy_absolute (cf_executable cf) ''PTY executable is invalid''
       ''PTY executable must be an absolute path'' = Inr (executable c)"
    "copy_arguments (map (entry (cf_arguments cf)) [0..<cf_argument_count cf])
       = Inr (arguments c)"
    "copy_environment (map (entry (cf_environment cf)) [0..<cf_environment_count cf])
       = Inr (environment c)"
    "(cf_working_directory cf = None \<and> working_directory c = None) \<or>
     (\<exists>d v. cf_working_directory cf = Some d \<and> working_directory c = Some v \<and>
        copy_absolute (Some d) ''PTY working directory is invalid''
          ''PTY working directory must be an absolute path'' = Inr v)"
    "rows c = cf_initial_rows cf" "columns c = cf_initial_columns cf"
    "read_high_water c = cf_read_high_water_bytes cf"
    "read_low_water c = cf_read_low_water_bytes cf"
    "read_batch c = (if has_read_batch cf \<and> cf_read_batch_bytes cf \<noteq> 0
       then cf_read_batch_bytes cf else kDefaultReadBatchBytes)"
    "read_batches_per_event_loop_turn c =
       (if has_read_turn_limit cf then cf_read_batches_per_event_loop_turn cf else 0)"
    "write_capacity c = cf_write_capacity_bytes cf"
    "callback c = cf_callback cf"
    "diagnostics_enabled c = (cf_diagnostics_enabled cf \<noteq> 0)"
proof -
  from assms obtain cf where cf: "source = Some cf"
    by (cases source) (simp_all add: CopyConfig_def)
  with assms have nr: "\<not> config_rejected cf"
    by (auto simp: CopyConfig_def)
  show thesis
    by (rule that [OF cf nr]; use assms cf nr in
      \<open>simp add: CopyConfig_def split: sum.split_asm option.split_asm\<close>; fastforce)
qed

lemma accepted_limits:
  assumes "\<not> config_rejected cf"
  shows "cf_callback cf \<noteq> None" "0 < cf_argument_count cf"
    "cf_argument_count cf \<le> kMaximumVectorEntries"
    "cf_environment_count cf \<le> kMaximumVectorEntries"
    "cf_initial_rows cf \<noteq> 0" "cf_initial_columns cf \<noteq> 0"
    "cf_read_low_water_bytes cf < cf_read_high_water_bytes cf"
    "cf_read_high_water_bytes cf \<le> kMaximumQueueBytes"
    "0 < cf_write_capacity_bytes cf" "cf_write_capacity_bytes cf \<le> kMaximumQueueBytes"
    "has_read_batch cf \<Longrightarrow> cf_read_batch_bytes cf \<le> kDefaultReadBatchBytes"
    "has_read_turn_limit cf \<Longrightarrow>
       cf_read_batches_per_event_loop_turn cf \<le> kMaximumReadBatchesPerTurn"
  using assms unfolding config_rejected_def by linarith+

lemma CopyConfig_wf:
  assumes "CopyConfig source = Inr c"
  shows "config_wf c"
proof -
  from assms obtain cf where cf: "\<not> config_rejected cf"
    and exe: "absolute_path (executable c)"
    and args: "length (arguments c) = cf_argument_count cf" "list_all owned_string (arguments c)"
    and env: "length (environment c) = cf_environment_count cf"
      "list_all environment_entry (environment c)"
    and dir: "pred_option absolute_path (working_directory c)"
    and rest: "rows c = cf_initial_rows cf" "columns c = cf_initial_columns cf"
      "read_high_water c = cf_read_high_water_bytes cf"
      "read_low_water c = cf_read_low_water_bytes cf"
      "read_batch c = (if has_read_batch cf \<and> cf_read_batch_bytes cf \<noteq> 0
         then cf_read_batch_bytes cf else kDefaultReadBatchBytes)"
      "read_batches_per_event_loop_turn c =
         (if has_read_turn_limit cf then cf_read_batches_per_event_loop_turn cf else 0)"
      "write_capacity c = cf_write_capacity_bytes cf" "callback c = cf_callback cf"
    by (elim CopyConfig_InrE)
      (use copy_arguments_Inr copy_environment_Inr copy_absolute_Inr in fastforce)
  show ?thesis unfolding config_wf_def rest
    using exe args env dir accepted_limits [OF cf] by simp
qed

text \<open>
  Completeness: a configuration that passes the checks of its numbers, with well-formed
  strings, is accepted, and the copy holds exactly these strings.
\<close>

lemma copy_arguments_Some:
  "list_all owned_string as \<Longrightarrow> copy_arguments (map Some as) = Inr as"
  by (induction as) (auto simp: owned_string_def CopyString_Some)

lemma copy_environment_Some:
  "list_all environment_entry es \<Longrightarrow> copy_environment (map Some es) = Inr es"
proof (induction es)
  case (Cons e es)
  from Cons.prems have "environment_entry e" by simp
  then have "CopyString (Some e) ''PTY environment entry is invalid'' False = Inr e"
    "hd e \<noteq> EQUALS" "EQUALS \<in> set e"
    by (auto simp: environment_entry_def owned_string_def hd_append intro!: CopyString_Some)
      (metis list.set_sel(1))
  with Cons show ?case by simp
qed simp

lemma copy_absolute_Some: "absolute_path s \<Longrightarrow> copy_absolute (Some s) f m = Inr s"
  by (simp add: copy_absolute_def absolute_path_def owned_string_def CopyString_Some)

lemma map_entry: "map (entry (Some (map Some xs))) [0..<length xs] = map Some xs"
  by (rule nth_equalityI) (simp_all add: entry_def)

lemma CopyConfig_Some:
  assumes "\<not> config_rejected cf" "cf_executable cf = Some exe" "absolute_path exe"
    "cf_arguments cf = Some (map Some args)" "cf_argument_count cf = length args"
    "list_all owned_string args"
    "cf_environment cf = Some (map Some env)" "cf_environment_count cf = length env"
    "list_all environment_entry env"
    "pred_option absolute_path (cf_working_directory cf)"
  shows "CopyConfig (Some cf) = Inr
    \<lparr>executable = exe, arguments = args, environment = env,
     working_directory = cf_working_directory cf,
     rows = cf_initial_rows cf, columns = cf_initial_columns cf,
     read_high_water = cf_read_high_water_bytes cf, read_low_water = cf_read_low_water_bytes cf,
     read_batch = (if has_read_batch cf \<and> cf_read_batch_bytes cf \<noteq> 0
                   then cf_read_batch_bytes cf else kDefaultReadBatchBytes),
     read_batches_per_event_loop_turn =
       (if has_read_turn_limit cf then cf_read_batches_per_event_loop_turn cf else 0),
     write_capacity = cf_write_capacity_bytes cf, callback = cf_callback cf,
     diagnostics_enabled = (cf_diagnostics_enabled cf \<noteq> 0)\<rparr>"
  using assms(10)
  by (cases "cf_working_directory cf")
    (simp_all add: CopyConfig_def assms(1-9) map_entry copy_absolute_Some copy_arguments_Some
      copy_environment_Some)

end
