(* ===== verification/Pty_Session.thy ===== *)
theory Pty_Session
  imports Pty_Config
begin

text \<open>
  The class \<open>Session\<close> of \<^verbatim>\<open>PtySession.cc\<close>: its members as one record and the operations that
  callers run on their own threads under the session's mutex: \<open>Start\<close>, \<open>Write\<close>,
  \<open>WriteTracked\<close>, \<open>Acknowledge\<close>, \<open>Resize\<close>, \<open>SendSignal\<close>, \<open>Close\<close>, \<open>ForceClose\<close> and
  \<open>CanDestroy\<close>. A member \<open>x_\<close> of the class is the field \<open>s_x\<close>.

  An operation returns its result, the new state and its visible effects in order: the
  callbacks it makes and the wake-ups it sends to the reactor.
\<close>

section \<open>State\<close>

datatype session_state = kCreated | kRunning | kFinished

text \<open>The lifecycle is the enumeration's own order; no operation moves it backwards.\<close>

instantiation session_state :: linorder
begin

primrec state_rank :: "session_state \<Rightarrow> nat" where
  "state_rank kCreated = 0"
| "state_rank kRunning = 1"
| "state_rank kFinished = 2"

definition less_eq_session_state :: "session_state \<Rightarrow> session_state \<Rightarrow> bool" where
  "less_eq_session_state a b \<longleftrightarrow> state_rank a \<le> state_rank b"

definition less_session_state :: "session_state \<Rightarrow> session_state \<Rightarrow> bool" where
  "less_session_state a b \<longleftrightarrow> state_rank a < state_rank b"

instance
proof
  fix a b :: session_state
  show "a \<le> b \<Longrightarrow> b \<le> a \<Longrightarrow> a = b"
    by (cases a; cases b) (simp_all add: less_eq_session_state_def)
qed (auto simp: less_eq_session_state_def less_session_state_def)

end

lemma session_state_order [simp]:
  "kCreated \<le> st" "st \<le> kFinished" "kRunning \<le> st \<longleftrightarrow> st \<noteq> kCreated"
  by (cases st; simp add: less_eq_session_state_def)+

record OutputBatch =
  sequence :: u64
  batch_bytes :: "byte list"

record PendingResize =
  resize_rows :: u16
  resize_columns :: u16

record PendingWrite =
  request_id :: u64
  diagnostic :: bool
  dequeue_observed :: bool
  write_bytes :: "byte list"

record session =
  s_config :: OwnedConfig
  s_handle :: u64
  s_state :: session_state
  s_kqueue_fd :: fd
  s_master_fd :: fd
  s_exec_error_fd :: fd
  s_child_pid :: pid
  s_child_completed :: bool
  s_child_reaped_by_session :: bool
  s_child_externally_reaped :: bool
  s_child_status :: int
  s_master_eof :: bool
  s_finished_reaping :: bool
  s_read_retry_requested :: bool
  s_read_enabled :: bool
  s_write_enabled :: bool
  s_next_sequence :: u64
  s_outstanding :: "OutputBatch list"
  s_read_in_flight_bytes :: nat
  s_read_paused :: bool
  s_writes :: "PendingWrite list"
  s_write_offset :: nat
  s_write_queued_bytes :: nat
  s_next_write_request_id :: u64
  s_pending_resize :: "PendingResize option"
  s_pending_signals :: "int list"
  s_closing :: bool
  s_close_started :: bool
  s_force_close_requested :: bool
  s_emit_waitpid_pending :: bool
  s_waitpid_error_observed :: bool
  s_process_exit_ready_observed :: bool
  s_process_exit_status_valid :: bool
  s_process_exit_status :: int
  s_close_grace_millis :: nat
  s_close_kill_deadline :: "int option"
  s_bytes_read :: u64
  s_bytes_written :: u64
  s_read_batches :: u64
  s_write_backpressure_rejections :: u64
  s_max_read_in_flight_bytes :: nat
  s_max_write_queued_bytes :: nat
  s_read_pause_count :: u64

text \<open>
  The constructor: every member at its declared initializer. A kill deadline of
  \<open>time_point::max()\<close>, which the clock never reaches, is \<open>None\<close>.
\<close>

definition new_session :: "OwnedConfig \<Rightarrow> session" where
  "new_session config =
     \<lparr>s_config = config, s_handle = 0, s_state = kCreated,
      s_kqueue_fd = - 1, s_master_fd = - 1, s_exec_error_fd = - 1, s_child_pid = - 1,
      s_child_completed = False, s_child_reaped_by_session = False,
      s_child_externally_reaped = False, s_child_status = 0,
      s_master_eof = False, s_finished_reaping = False, s_read_retry_requested = False,
      s_read_enabled = True, s_write_enabled = False,
      s_next_sequence = 0, s_outstanding = [], s_read_in_flight_bytes = 0,
      s_read_paused = False,
      s_writes = [], s_write_offset = 0, s_write_queued_bytes = 0,
      s_next_write_request_id = 1,
      s_pending_resize = None, s_pending_signals = [],
      s_closing = False, s_close_started = False, s_force_close_requested = False,
      s_emit_waitpid_pending = False, s_waitpid_error_observed = False,
      s_process_exit_ready_observed = False, s_process_exit_status_valid = False,
      s_process_exit_status = 0,
      s_close_grace_millis = 0, s_close_kill_deadline = None,
      s_bytes_read = 0, s_bytes_written = 0, s_read_batches = 0,
      s_write_backpressure_rejections = 0,
      s_max_read_in_flight_bytes = 0, s_max_write_queued_bytes = 0,
      s_read_pause_count = 0\<rparr>"

definition SetHandle :: "u64 \<Rightarrow> session \<Rightarrow> session" where
  "SetHandle h s = s\<lparr>s_handle := h\<rparr>"

section \<open>Effects\<close>

text \<open>
  The calls that other threads make on a session. A byte pointer is \<open>None\<close> when null; the
  flag of \<open>CallStart\<close> says whether the reactor's thread could be created, the flag of
  \<open>CallWriteTracked\<close> whether the output pointer is non-null.
\<close>

datatype api_call =
    CallStart bool
  | CallWrite "byte list option"
  | CallWriteTracked bool "byte list option"
  | CallAcknowledge u64 nat
  | CallResize u16 u16
  | CallSendSignal u32
  | CallClose nat
  | CallForceClose

datatype kfilter = EVFILT_READ | EVFILT_WRITE

text \<open>What a session does that the rest of the system can see, one entry per call.\<close>

datatype effect =
    Callback pty_event
  | KqueueWake fd
  | KqueueEnable kfilter bool
  | SysRead "byte list"
  | SysWrite "byte list"
  | SysKill pid int bool
  | SysResize u16 u16
  | SysFork pid
  | SysReap pid
  | SysOpen fd
  | SysClose fd
  | ApiCall api_call DptyStatus

definition Emit :: "session \<Rightarrow> DptyEventType \<Rightarrow> u64 \<Rightarrow> byte list option \<Rightarrow> nat \<Rightarrow> int \<Rightarrow> int \<Rightarrow> int \<Rightarrow> effect list" where
  "Emit s type sq data len v1 v2 err =
     [Callback \<lparr>ev_session = s_handle s, ev_type = type, ev_sequence = sq, ev_data = data,
        ev_length = len, ev_value1 = v1, ev_value2 = v2, ev_system_error = err\<rparr>]"

definition EmitDiagnostic :: "session \<Rightarrow> DptyEventType \<Rightarrow> u64 \<Rightarrow> nat \<Rightarrow> int \<Rightarrow> int \<Rightarrow> int \<Rightarrow> effect list" where
  "EmitDiagnostic s type sq len v1 v2 err =
     (if \<not> diagnostics_enabled (s_config s) then []
      else Emit s type sq None len v1 v2 err)"

definition Wake :: "session \<Rightarrow> effect list" where
  "Wake s = (if s_kqueue_fd s < 0 then [] else [KqueueWake (s_kqueue_fd s)])"

section \<open>Operations of the callers\<close>

type_synonym 'a operation = "session \<Rightarrow> (DptyError + 'a) \<times> session \<times> effect list"

definition Start :: "bool \<Rightarrow> unit operation" where
  "Start thread_created s =
     (if s_state s \<noteq> kCreated
      then (Inl (SetError DPTY_STATUS_WRONG_STATE 0 ''PTY session has already been started''), s, [])
      else if \<not> thread_created
      then (Inl (SetError DPTY_STATUS_SYSTEM_ERROR EAGAIN ''could not create PTY reactor thread''),
            s\<lparr>s_state := kFinished\<rparr>, [])
      else (Inr (), s\<lparr>s_state := kRunning\<rparr>, []))"

definition next_request_id :: "u64 \<Rightarrow> u64" where
  "next_request_id n = (if n + 1 = 0 then 1 else n + 1)"

definition write_accepted :: "session \<Rightarrow> nat \<Rightarrow> bool" where
  "write_accepted s len \<longleftrightarrow>
     \<not> (write_capacity (s_config s) < len \<or>
        write_capacity (s_config s) - len < s_write_queued_bytes s)"

definition push_write :: "byte list \<Rightarrow> bool \<Rightarrow> session \<Rightarrow> session" where
  "push_write bs tracked s =
     (let req = (if tracked then s_next_write_request_id s else 0);
          write = \<lparr>request_id = req, diagnostic = tracked, dequeue_observed = False,
                   write_bytes = bs\<rparr>;
          queued = s_write_queued_bytes s + length bs
      in s\<lparr>s_next_write_request_id :=
             (if tracked then next_request_id (s_next_write_request_id s)
              else s_next_write_request_id s),
           s_writes := s_writes s @ [write],
           s_write_queued_bytes := queued,
           s_max_write_queued_bytes := max (s_max_write_queued_bytes s) queued,
           s_emit_waitpid_pending := (s_emit_waitpid_pending s \<or> tracked)\<rparr>)"

definition EnqueueWrite :: "byte list option \<Rightarrow> bool \<Rightarrow> u64 operation" where
  "EnqueueWrite bytes tracked s =
     (case bytes of
        None \<Rightarrow> (Inl (SetError DPTY_STATUS_INVALID_ARGUMENT EINVAL
                   ''PTY write requires non-empty bytes''), s, [])
      | Some bs \<Rightarrow>
     (if bs = []
      then (Inl (SetError DPTY_STATUS_INVALID_ARGUMENT EINVAL
              ''PTY write requires non-empty bytes''), s, [])
      else if s_state s \<noteq> kRunning \<or> s_closing s \<or> s_child_completed s
      then (Inl (SetError DPTY_STATUS_WRONG_STATE 0 ''PTY session does not accept writes''), s, [])
      else if \<not> write_accepted s (length bs)
      then (Inl (SetError DPTY_STATUS_BACKPRESSURED 0 ''PTY write queue is full''),
            s\<lparr>s_write_backpressure_rejections := s_write_backpressure_rejections s + 1\<rparr>, [])
      else
        (let req = (if tracked then s_next_write_request_id s else 0);
             s' = push_write bs tracked s
         in (Inr req, s',
             (if tracked
              then EmitDiagnostic s' DPTY_EVENT_WRITE_ENQUEUED req (length bs)
                     (int (s_write_queued_bytes s')) 0 0
              else []) @ Wake s'))))"

definition Write :: "byte list option \<Rightarrow> u64 operation" where
  "Write bytes = EnqueueWrite bytes False"

definition WriteTracked :: "bool \<Rightarrow> byte list option \<Rightarrow> u64 operation" where
  "WriteTracked out_request_id bytes s =
     (if \<not> out_request_id
      then (Inl (SetError DPTY_STATUS_INVALID_ARGUMENT EINVAL
              ''tracked PTY write requires an output request ID''), s, [])
      else EnqueueWrite bytes True s)"

definition Acknowledge :: "u64 \<Rightarrow> nat \<Rightarrow> unit operation" where
  "Acknowledge sq len s =
     (case s_outstanding s of
        [] \<Rightarrow> (Inl (SetError DPTY_STATUS_INVALID_ARGUMENT EINVAL
                 ''PTY output acknowledgement is out of order''), s, [])
      | b # bs \<Rightarrow>
     (if sequence b \<noteq> sq \<or> length (batch_bytes b) \<noteq> len
      then (Inl (SetError DPTY_STATUS_INVALID_ARGUMENT EINVAL
              ''PTY output acknowledgement is out of order''), s, [])
      else
        (let s' = s\<lparr>s_read_in_flight_bytes := s_read_in_flight_bytes s - length (batch_bytes b),
                    s_outstanding := bs\<rparr>;
             should_wake = (s_read_paused s' \<and>
               s_read_in_flight_bytes s' \<le> read_low_water (s_config s'))
         in (Inr (), s', if should_wake then Wake s' else []))))"

definition Resize :: "u16 \<Rightarrow> u16 \<Rightarrow> unit operation" where
  "Resize nrows ncolumns s =
     (if nrows = 0 \<or> ncolumns = 0
      then (Inl (SetError DPTY_STATUS_INVALID_ARGUMENT EINVAL ''PTY size must be nonzero''), s, [])
      else if s_state s \<noteq> kRunning \<or> s_closing s \<or> s_child_completed s
      then (Inl (SetError DPTY_STATUS_WRONG_STATE 0 ''PTY session cannot be resized''), s, [])
      else (let s' = s\<lparr>s_pending_resize :=
                         Some \<lparr>resize_rows = nrows, resize_columns = ncolumns\<rparr>\<rparr>
            in (Inr (), s', Wake s')))"

definition NativeSignal :: "u32 \<Rightarrow> int" where
  "NativeSignal sig =
     (if sig = 1 then SIGINT else if sig = 2 then SIGTSTP else if sig = 3 then SIGQUIT
      else if sig = 4 then SIGHUP else if sig = 5 then SIGTERM else if sig = 6 then SIGKILL
      else 0)"

definition SendSignal :: "u32 \<Rightarrow> unit operation" where
  "SendSignal sig s =
     (if NativeSignal sig = 0
      then (Inl (SetError DPTY_STATUS_INVALID_ARGUMENT EINVAL ''PTY signal is invalid''), s, [])
      else if s_state s \<noteq> kRunning \<or> s_closing s \<or> s_child_completed s
      then (Inl (SetError DPTY_STATUS_WRONG_STATE 0 ''PTY session cannot receive a signal''), s, [])
      else (let s' = s\<lparr>s_pending_signals := s_pending_signals s @ [NativeSignal sig]\<rparr>
            in (Inr (), s', Wake s')))"

definition Close :: "nat \<Rightarrow> unit operation" where
  "Close grace_period_millis s =
     (if kMaximumCloseGraceMillis < grace_period_millis
      then (Inl (SetError DPTY_STATUS_INVALID_ARGUMENT EINVAL
              ''PTY close grace period exceeds 60 seconds''), s, [])
      else if s_state s = kFinished then (Inr (), s, [])
      else if s_state s \<noteq> kRunning
      then (Inl (SetError DPTY_STATUS_WRONG_STATE 0 ''PTY session has not started''), s, [])
      else (let s' = (if \<not> s_closing s
                      then s\<lparr>s_closing := True, s_close_grace_millis := grace_period_millis\<rparr>
                      else s)
            in (Inr (), s', Wake s')))"

definition ForceClose :: "unit operation" where
  "ForceClose s =
     (if s_state s = kFinished then (Inr (), s, [])
      else if s_state s \<noteq> kRunning
      then (Inl (SetError DPTY_STATUS_WRONG_STATE 0 ''PTY session has not started''), s, [])
      else (let s' = s\<lparr>s_closing := True, s_force_close_requested := True\<rparr>
            in (Inr (), s', Wake s')))"

definition CanDestroy :: "session \<Rightarrow> bool" where
  "CanDestroy s \<longleftrightarrow> s_state s = kFinished \<and> s_outstanding s = []"

primrec run_call :: "api_call \<Rightarrow> session \<Rightarrow> DptyStatus \<times> session \<times> effect list" where
  "run_call (CallStart ok) s = apfst status_of (Start ok s)"
| "run_call (CallWrite b) s = apfst status_of (Write b s)"
| "run_call (CallWriteTracked p b) s = apfst status_of (WriteTracked p b s)"
| "run_call (CallAcknowledge sq n) s = apfst status_of (Acknowledge sq n s)"
| "run_call (CallResize r c) s = apfst status_of (Resize r c s)"
| "run_call (CallSendSignal sig) s = apfst status_of (SendSignal sig s)"
| "run_call (CallClose g) s = apfst status_of (Close g s)"
| "run_call CallForceClose s = apfst status_of (ForceClose s)"

definition call_state :: "api_call \<Rightarrow> session \<Rightarrow> session" where
  "call_state c s = fst (snd (run_call c s))"

end
