(* ===== verification/Pty_Session_Inv.thy ===== *)
theory Pty_Session_Inv
  imports Pty_Session
begin

text \<open>
  The invariant of a session, its preservation by every operation of the callers, what a
  caller may change while the reactor is between two critical sections (\<open>rely\<close>), and the
  contracts these facts give: the write queue and the output window as bounded queues, the
  session as shared state under its mutex.
\<close>

section \<open>The invariant\<close>

text \<open>
  \<open>run_of a n\<close>: the \<open>n\<close> consecutive sequence numbers from \<open>a\<close>, wrapping as \<open>uint64_t\<close> does.
\<close>

definition run_of :: "u64 \<Rightarrow> nat \<Rightarrow> u64 list" where
  "run_of a n = map (\<lambda>i. a + of_nat i) [0..<n]"

lemma run_of_0 [simp]: "run_of a 0 = []"
  by (simp add: run_of_def)

lemma run_of_Suc: "run_of a (Suc n) = a # run_of (a + 1) n"
proof -
  have "map (\<lambda>i. a + of_nat i) [0..<Suc n] = a # map (\<lambda>i. a + of_nat (Suc i)) [0..<n]"
    by (simp only: upt_conv_Cons [OF zero_less_Suc] map_Suc_upt [symmetric] list.map map_map
        comp_def) simp
  then show ?thesis by (simp add: run_of_def add.assoc)
qed

lemma run_of_back: "run_of (x - of_nat (Suc n)) (Suc n) = (x - of_nat (Suc n)) # run_of (x - of_nat n) n"
  by (simp add: run_of_Suc)

lemma run_of_snoc: "run_of a (Suc n) = run_of a n @ [a + of_nat n]"
  by (simp add: run_of_def)

definition output_inv :: "session \<Rightarrow> bool" where
  "output_inv s \<longleftrightarrow>
     s_read_in_flight_bytes s = sum_len (map batch_bytes (s_outstanding s)) \<and>
     s_read_in_flight_bytes s \<le> s_max_read_in_flight_bytes s \<and>
     s_max_read_in_flight_bytes s \<le> read_high_water (s_config s) \<and>
     list_all (\<lambda>b. batch_bytes b \<noteq> []) (s_outstanding s) \<and>
     map sequence (s_outstanding s) =
       run_of (s_next_sequence s - of_nat (length (s_outstanding s))) (length (s_outstanding s))"

definition offset_ok :: "PendingWrite list \<Rightarrow> nat \<Rightarrow> bool" where
  "offset_ok ws off = (case ws of [] \<Rightarrow> off = 0 | w # _ \<Rightarrow> off < length (write_bytes w))"

definition write_inv :: "session \<Rightarrow> bool" where
  "write_inv s \<longleftrightarrow>
     s_write_queued_bytes s + s_write_offset s = sum_len (map write_bytes (s_writes s)) \<and>
     offset_ok (s_writes s) (s_write_offset s) \<and>
     s_write_queued_bytes s \<le> s_max_write_queued_bytes s \<and>
     s_max_write_queued_bytes s \<le> write_capacity (s_config s) \<and>
     list_all (\<lambda>w. write_bytes w \<noteq> [] \<and> (diagnostic w \<longleftrightarrow> request_id w \<noteq> 0)) (s_writes s) \<and>
     s_next_write_request_id s \<noteq> 0"

definition life_inv :: "session \<Rightarrow> bool" where
  "life_inv s \<longleftrightarrow>
     (s_child_completed s \<longrightarrow> s_writes s = []) \<and>
     (s_child_completed s \<longleftrightarrow> s_child_reaped_by_session s \<or> s_child_externally_reaped s) \<and>
     \<not> (s_child_reaped_by_session s \<and> s_child_externally_reaped s) \<and>
     (s_close_started s \<longrightarrow> s_closing s) \<and>
     (s_force_close_requested s \<longrightarrow> s_closing s) \<and>
     (s_closing s \<longrightarrow> s_state s \<noteq> kCreated) \<and>
     (s_finished_reaping s \<longrightarrow> s_state s = kFinished) \<and>
     s_close_grace_millis s \<le> kMaximumCloseGraceMillis \<and>
     list_all (\<lambda>sig. sig \<in> {SIGHUP, SIGINT, SIGQUIT, SIGKILL, SIGTERM, SIGTSTP}) (s_pending_signals s) \<and>
     pred_option (\<lambda>r. resize_rows r \<noteq> 0 \<and> resize_columns r \<noteq> 0) (s_pending_resize s)"

definition session_inv :: "session \<Rightarrow> bool" where
  "session_inv s \<longleftrightarrow> config_wf (s_config s) \<and> output_inv s \<and> write_inv s \<and> life_inv s"

lemmas session_inv_defs = session_inv_def output_inv_def write_inv_def life_inv_def

lemma session_inv_new: "config_wf c \<Longrightarrow> session_inv (new_session c)"
  by (simp add: session_inv_defs new_session_def offset_ok_def)

lemma session_inv_SetHandle: "session_inv s \<Longrightarrow> session_inv (SetHandle h s)"
  by (simp add: session_inv_defs SetHandle_def)

section \<open>Every call keeps the invariant\<close>

lemma session_inv_frame [simp]:
  "session_inv (s\<lparr>s_write_backpressure_rejections := n\<rparr>) = session_inv s"
  "session_inv (s\<lparr>s_emit_waitpid_pending := b\<rparr>) = session_inv s"
  by (simp_all add: session_inv_defs)

lemma offset_ok_snoc:
  "offset_ok ws off \<Longrightarrow> write_bytes w \<noteq> [] \<Longrightarrow> offset_ok (ws @ [w]) off"
  by (cases ws) (auto simp: offset_ok_def)

lemma Start_inv [preserve_intros]: "session_inv s \<Longrightarrow> session_inv (fst (snd (Start ok s)))"
  by (auto simp: Start_def session_inv_defs)

lemma write_accepted_iff:
  "0 < len \<Longrightarrow> write_accepted s len \<longleftrightarrow> s_write_queued_bytes s + len \<le> write_capacity (s_config s)"
  unfolding write_accepted_def by linarith

text \<open>The three ways a write can end.\<close>

lemma EnqueueWrite_cases:
  obtains (refused) e where "EnqueueWrite b tracked s = (Inl e, s, [])"
      "e_status e \<in> {DPTY_STATUS_INVALID_ARGUMENT, DPTY_STATUS_WRONG_STATE}"
  | (full) bs where "b = Some bs" "EnqueueWrite b tracked s =
      (Inl (SetError DPTY_STATUS_BACKPRESSURED 0 ''PTY write queue is full''),
       s\<lparr>s_write_backpressure_rejections := s_write_backpressure_rejections s + 1\<rparr>, [])"
      "bs \<noteq> []" "s_state s = kRunning" "\<not> s_closing s" "\<not> s_child_completed s"
      "write_capacity (s_config s) < s_write_queued_bytes s + length bs"
  | (accepted) bs where "b = Some bs" "bs \<noteq> []" "s_state s = kRunning" "\<not> s_closing s"
      "\<not> s_child_completed s"
      "s_write_queued_bytes s + length bs \<le> write_capacity (s_config s)"
      "fst (EnqueueWrite b tracked s) =
         Inr (if tracked then s_next_write_request_id s else 0)"
      "fst (snd (EnqueueWrite b tracked s)) = push_write bs tracked s"
proof (cases b)
  case None
  then show thesis using refused by (simp add: EnqueueWrite_def)
next
  case (Some bs)
  show thesis
  proof (cases "bs = [] \<or> s_state s \<noteq> kRunning \<or> s_closing s \<or> s_child_completed s")
    case True
    show thesis
    proof (rule refused)
      show "EnqueueWrite b tracked s =
        (Inl (if bs = []
              then SetError DPTY_STATUS_INVALID_ARGUMENT EINVAL ''PTY write requires non-empty bytes''
              else SetError DPTY_STATUS_WRONG_STATE 0 ''PTY session does not accept writes''),
         s, [])"
        using True Some by (cases "bs = []") (simp_all add: EnqueueWrite_def)
    qed simp
  next
    case False
    show thesis
    proof (cases "write_accepted s (length bs)")
      case True
      with False Some show thesis
        by (intro accepted [of bs]) (simp_all add: EnqueueWrite_def Let_def write_accepted_iff)
    next
      case a: False
      have "write_capacity (s_config s) < s_write_queued_bytes s + length bs"
        using a write_accepted_iff [of "length bs" s] False by auto
      with a False Some show thesis
        by (intro full [of bs]) (simp_all add: EnqueueWrite_def)
    qed
  qed
qed

lemma next_request_id_nonzero: "next_request_id n \<noteq> 0"
  by (simp add: next_request_id_def)

lemma push_write_inv:
  assumes "session_inv s" "bs \<noteq> []" "\<not> s_child_completed s"
    "s_write_queued_bytes s + length bs \<le> write_capacity (s_config s)"
  shows "session_inv (push_write bs tracked s)"
proof -
  have "write_inv (push_write bs tracked s)"
    using assms by (simp add: push_write_def session_inv_def write_inv_def Let_def offset_ok_snoc
        next_request_id_nonzero)
  moreover have "config_wf (s_config (push_write bs tracked s))"
      "output_inv (push_write bs tracked s)" "life_inv (push_write bs tracked s)"
    using assms by (simp_all add: push_write_def session_inv_def output_inv_def life_inv_def Let_def)
  ultimately show ?thesis by (simp add: session_inv_def)
qed

lemma EnqueueWrite_inv [preserve_intros]:
  assumes "session_inv s"
  shows "session_inv (fst (snd (EnqueueWrite b tracked s)))"
  using assms by (cases rule: EnqueueWrite_cases [of b tracked s]) (simp_all add: push_write_inv)

lemma Acknowledge_Some:
  assumes "s_outstanding s = b # bs" "sequence b = sq" "length (batch_bytes b) = len"
  shows "fst (snd (Acknowledge sq len s)) =
    s\<lparr>s_read_in_flight_bytes := s_read_in_flight_bytes s - length (batch_bytes b),
      s_outstanding := bs\<rparr>"
  using assms by (simp add: Acknowledge_def Let_def)

lemma Acknowledge_other:
  assumes "\<nexists>b bs. s_outstanding s = b # bs \<and> sequence b = sq \<and> length (batch_bytes b) = len"
  shows "fst (snd (Acknowledge sq len s)) = s"
  using assms by (auto simp: Acknowledge_def split: list.split)

lemma Acknowledge_inv [preserve_intros]:
  assumes inv: "session_inv s"
  shows "session_inv (fst (snd (Acknowledge sq len s)))"
proof (cases "\<exists>b bs. s_outstanding s = b # bs \<and> sequence b = sq \<and> length (batch_bytes b) = len")
  case True
  then obtain b bs where b: "s_outstanding s = b # bs" "sequence b = sq" "length (batch_bytes b) = len"
    by blast
  have o: "output_inv s" using inv by (simp add: session_inv_def)
  then have "map sequence bs = run_of (s_next_sequence s - of_nat (length bs)) (length bs)"
    unfolding output_inv_def b(1) length_Cons run_of_back list.map(2) by blast
  with o inv show ?thesis
    unfolding Acknowledge_Some [OF b]
    by (simp add: session_inv_def output_inv_def write_inv_def life_inv_def b(1))
next
  case False
  then show ?thesis using inv by (simp add: Acknowledge_other)
qed

lemma Resize_inv [preserve_intros]: "session_inv s \<Longrightarrow> session_inv (fst (snd (Resize r c s)))"
  by (auto simp: Resize_def session_inv_defs Let_def)

lemma NativeSignal_range:
  "NativeSignal sig \<noteq> 0 \<Longrightarrow>
   NativeSignal sig \<in> {SIGHUP, SIGINT, SIGQUIT, SIGKILL, SIGTERM, SIGTSTP}"
  by (auto simp: NativeSignal_def split: if_splits)

lemma SendSignal_inv [preserve_intros]: "session_inv s \<Longrightarrow> session_inv (fst (snd (SendSignal sig s)))"
  using NativeSignal_range [of sig] by (auto simp: SendSignal_def session_inv_defs Let_def)

lemma Close_inv [preserve_intros]: "session_inv s \<Longrightarrow> session_inv (fst (snd (Close g s)))"
  by (auto simp: Close_def session_inv_defs Let_def)

lemma ForceClose_inv [preserve_intros]: "session_inv s \<Longrightarrow> session_inv (fst (snd (ForceClose s)))"
  by (auto simp: ForceClose_def session_inv_defs Let_def)

lemma fst_snd_apfst [simp]: "fst (snd (apfst f x)) = fst (snd x)"
  by (cases x) simp

lemma call_state_simps:
  "call_state (CallStart ok) s = fst (snd (Start ok s))"
  "call_state (CallWrite b) s = fst (snd (Write b s))"
  "call_state (CallWriteTracked p b) s = fst (snd (WriteTracked p b s))"
  "call_state (CallAcknowledge sq n) s = fst (snd (Acknowledge sq n s))"
  "call_state (CallResize r c) s = fst (snd (Resize r c s))"
  "call_state (CallSendSignal sig) s = fst (snd (SendSignal sig s))"
  "call_state (CallClose g) s = fst (snd (Close g s))"
  "call_state CallForceClose s = fst (snd (ForceClose s))"
  by (simp_all add: call_state_def)

lemma WriteTracked_state:
  "fst (snd (WriteTracked p b s)) = (if p then fst (snd (EnqueueWrite b True s)) else s)"
  by (simp add: WriteTracked_def)

lemma call_keeps_inv: "session_inv s \<Longrightarrow> session_inv (call_state c s)"
  by (cases c) (auto simp: call_state_simps Write_def WriteTracked_state intro: preserve_intros)

section \<open>What the callers may change\<close>

text \<open>
  Everything the callers never write, as one value: the state with the members they do
  write blanked out.
\<close>

definition reactor_view :: "session \<Rightarrow> session" where
  "reactor_view s = s\<lparr>s_outstanding := [], s_read_in_flight_bytes := 0, s_writes := [],
     s_write_queued_bytes := 0, s_next_write_request_id := 0, s_pending_resize := None,
     s_pending_signals := [], s_closing := False, s_force_close_requested := False,
     s_emit_waitpid_pending := False, s_close_grace_millis := 0,
     s_write_backpressure_rejections := 0, s_max_write_queued_bytes := 0\<rparr>"

definition rely :: "session \<Rightarrow> session \<Rightarrow> bool" where
  "rely s t \<longleftrightarrow>
     reactor_view t = reactor_view s \<and>
     (\<exists>acked. s_outstanding s = acked @ s_outstanding t) \<and>
     s_read_in_flight_bytes t \<le> s_read_in_flight_bytes s \<and>
     (\<exists>ws. s_writes t = s_writes s @ ws \<and> (s_child_completed s \<longrightarrow> ws = [])) \<and>
     s_write_queued_bytes s \<le> s_write_queued_bytes t \<and>
     (s_closing s \<longrightarrow> s_closing t) \<and> (s_force_close_requested s \<longrightarrow> s_force_close_requested t)"

lemma reactor_view_eq:
  assumes "reactor_view t = reactor_view s"
  shows "s_config t = s_config s" "s_handle t = s_handle s" "s_state t = s_state s"
    "s_kqueue_fd t = s_kqueue_fd s" "s_master_fd t = s_master_fd s"
    "s_exec_error_fd t = s_exec_error_fd s" "s_child_pid t = s_child_pid s"
    "s_child_completed t = s_child_completed s"
    "s_child_reaped_by_session t = s_child_reaped_by_session s"
    "s_child_externally_reaped t = s_child_externally_reaped s"
    "s_child_status t = s_child_status s" "s_master_eof t = s_master_eof s"
    "s_finished_reaping t = s_finished_reaping s"
    "s_read_retry_requested t = s_read_retry_requested s"
    "s_read_enabled t = s_read_enabled s" "s_write_enabled t = s_write_enabled s"
    "s_next_sequence t = s_next_sequence s" "s_read_paused t = s_read_paused s"
    "s_write_offset t = s_write_offset s" "s_close_started t = s_close_started s"
    "s_close_kill_deadline t = s_close_kill_deadline s"
    "s_bytes_read t = s_bytes_read s" "s_bytes_written t = s_bytes_written s"
    "s_process_exit_status_valid t = s_process_exit_status_valid s"
    "s_process_exit_status t = s_process_exit_status s"
    "s_process_exit_ready_observed t = s_process_exit_ready_observed s"
  using arg_cong [OF assms, of s_config] arg_cong [OF assms, of s_handle]
    arg_cong [OF assms, of s_state] arg_cong [OF assms, of s_kqueue_fd]
    arg_cong [OF assms, of s_master_fd] arg_cong [OF assms, of s_exec_error_fd]
    arg_cong [OF assms, of s_child_pid] arg_cong [OF assms, of s_child_completed]
    arg_cong [OF assms, of s_child_reaped_by_session]
    arg_cong [OF assms, of s_child_externally_reaped] arg_cong [OF assms, of s_child_status]
    arg_cong [OF assms, of s_master_eof] arg_cong [OF assms, of s_finished_reaping]
    arg_cong [OF assms, of s_read_retry_requested] arg_cong [OF assms, of s_read_enabled]
    arg_cong [OF assms, of s_write_enabled] arg_cong [OF assms, of s_next_sequence]
    arg_cong [OF assms, of s_read_paused] arg_cong [OF assms, of s_write_offset]
    arg_cong [OF assms, of s_close_started] arg_cong [OF assms, of s_close_kill_deadline]
    arg_cong [OF assms, of s_bytes_read] arg_cong [OF assms, of s_bytes_written]
    arg_cong [OF assms, of s_process_exit_status_valid]
    arg_cong [OF assms, of s_process_exit_status]
    arg_cong [OF assms, of s_process_exit_ready_observed]
  by (simp_all add: reactor_view_def)

lemmas rely_eq = reactor_view_eq [OF conjunct1 [OF rely_def [THEN iffD1]]]

lemma rely_refl: "rely s s"
  by (simp add: rely_def)

lemma rely_trans: "rely s t \<Longrightarrow> rely t u \<Longrightarrow> rely s u"
proof -
  assume st: "rely s t" and tu: "rely t u"
  from st have "s_child_completed t = s_child_completed s" by (rule rely_eq)
  with st tu show ?thesis by (fastforce simp: rely_def)
qed

lemma push_write_rely:
  "\<not> s_child_completed s \<Longrightarrow> rely s (push_write bs tracked s)"
  by (simp add: rely_def reactor_view_def push_write_def Let_def)

lemma frame_rely:
  "rely s (s\<lparr>s_write_backpressure_rejections := n\<rparr>)"
  "rely s (s\<lparr>s_pending_resize := r\<rparr>)" "rely s (s\<lparr>s_pending_signals := sigs\<rparr>)"
  "rely s (s\<lparr>s_closing := True, s_force_close_requested := True\<rparr>)"
  "rely s (s\<lparr>s_closing := True, s_close_grace_millis := g\<rparr>)"
  by (simp_all add: rely_def reactor_view_def)

lemma Start_rely: "s_state s \<noteq> kCreated \<Longrightarrow> rely s (fst (snd (Start ok s)))"
  by (simp add: Start_def rely_refl)

lemma EnqueueWrite_rely: "rely s (fst (snd (EnqueueWrite b tracked s)))"
  by (cases rule: EnqueueWrite_cases [of b tracked s])
    (simp_all add: rely_refl frame_rely push_write_rely)

lemma Acknowledge_rely: "rely s (fst (snd (Acknowledge sq len s)))"
proof (cases "\<exists>b bs. s_outstanding s = b # bs \<and> sequence b = sq \<and> length (batch_bytes b) = len")
  case True
  then obtain b bs where b: "s_outstanding s = b # bs" "sequence b = sq" "length (batch_bytes b) = len"
    by blast
  show ?thesis unfolding Acknowledge_Some [OF b] by (simp add: rely_def reactor_view_def b(1))
qed (simp add: Acknowledge_other rely_refl)

lemma Resize_rely: "rely s (fst (snd (Resize r c s)))"
  by (simp add: Resize_def rely_refl frame_rely Let_def)

lemma SendSignal_rely: "rely s (fst (snd (SendSignal sig s)))"
  by (simp add: SendSignal_def rely_refl frame_rely Let_def)

lemma Close_rely: "rely s (fst (snd (Close g s)))"
  by (simp add: Close_def rely_refl frame_rely Let_def)

lemma ForceClose_rely: "rely s (fst (snd (ForceClose s)))"
  by (simp add: ForceClose_def rely_refl frame_rely Let_def)

lemma call_rely: "s_state s \<noteq> kCreated \<Longrightarrow> rely s (call_state c s)"
  by (cases c) (simp_all add: call_state_simps Write_def WriteTracked_state Start_rely
      EnqueueWrite_rely Acknowledge_rely Resize_rely SendSignal_rely Close_rely ForceClose_rely
      rely_refl)

text \<open>The invariant while the reactor runs: the session has left its initial state.\<close>

definition live_inv :: "session \<Rightarrow> bool" where
  "live_inv s \<longleftrightarrow> session_inv s \<and> s_state s \<noteq> kCreated"

interpretation sess: shared_state call_state rely live_inv
proof unfold_locales
  fix s t u c
  show "rely s s" by (rule rely_refl)
  show "rely s t \<Longrightarrow> rely t u \<Longrightarrow> rely s u" by (rule rely_trans)
  show "live_inv s \<Longrightarrow> rely s (call_state c s)" by (simp add: live_inv_def call_rely)
  assume l: "live_inv s"
  then have "rely s (call_state c s)" by (simp add: live_inv_def call_rely)
  then have "s_state (call_state c s) = s_state s" by (rule rely_eq)
  with l show "live_inv (call_state c s)" by (simp add: live_inv_def call_keeps_inv)
qed

section \<open>The lifecycle only moves forward\<close>

lemma call_state_mono: "s_state s \<le> s_state (call_state c s)"
proof (cases "s_state s = kCreated")
  case False
  then show ?thesis using rely_eq(3) [OF call_rely] by simp
qed simp

section \<open>The write queue as a bounded queue\<close>

definition pending_chunks :: "session \<Rightarrow> byte list list" where
  "pending_chunks s =
     (case s_writes s of
        [] \<Rightarrow> []
      | w # ws \<Rightarrow> drop (s_write_offset s) (write_bytes w) # map write_bytes ws)"

definition accepting :: "session \<Rightarrow> bool" where
  "accepting s \<longleftrightarrow> session_inv s \<and> s_state s = kRunning \<and> \<not> s_closing s \<and> \<not> s_child_completed s"

definition offer_write :: "byte list \<Rightarrow> session \<Rightarrow> session option" where
  "offer_write b s = (case Write (Some b) s of (Inl e, _) \<Rightarrow> None | (Inr _, s', _) \<Rightarrow> Some s')"

lemma pending_chunks_sum:
  "write_inv s \<Longrightarrow> sum_len (pending_chunks s) = s_write_queued_bytes s"
  by (auto simp: write_inv_def pending_chunks_def offset_ok_def split: list.splits)

lemma pending_chunks_push:
  "write_inv s \<Longrightarrow> pending_chunks (push_write bs tracked s) = pending_chunks s @ [bs]"
  by (auto simp: pending_chunks_def push_write_def write_inv_def offset_ok_def Let_def
      split: list.splits)

lemma offer_write_Some:
  assumes "offer_write b s = Some s'"
  shows "s' = push_write b False s" "b \<noteq> []" "s_state s = kRunning" "\<not> s_closing s"
    "\<not> s_child_completed s" "s_write_queued_bytes s + length b \<le> write_capacity (s_config s)"
  using assms
  by (cases rule: EnqueueWrite_cases [of "Some b" False s];
      auto simp: offer_write_def Write_def split: prod.splits sum.splits)+

lemma offer_write_fits:
  assumes "accepting s" "b \<noteq> []" "s_write_queued_bytes s + length b \<le> write_capacity (s_config s)"
  shows "offer_write b s \<noteq> None"
proof -
  have "write_accepted s (length b)" using assms by (simp add: write_accepted_iff)
  then show ?thesis using assms
    by (simp add: offer_write_def Write_def EnqueueWrite_def accepting_def Let_def)
qed

lemma push_write_accepting:
  "accepting s \<Longrightarrow> b \<noteq> [] \<Longrightarrow> s_write_queued_bytes s + length b \<le> write_capacity (s_config s) \<Longrightarrow>
   accepting (push_write b tracked s)"
  by (simp add: accepting_def push_write_inv) (simp add: push_write_def Let_def)

interpretation wq: bounded_queue pending_chunks s_write_queued_bytes
    "\<lambda>s. write_capacity (s_config s)" accepting offer_write
proof unfold_locales
  fix s s' b
  assume good: "accepting s"
  then have w: "write_inv s" by (simp add: accepting_def session_inv_def)
  show "s_write_queued_bytes s = sum_len (pending_chunks s)"
    using w by (simp add: pending_chunks_sum)
  show "s_write_queued_bytes s \<le> write_capacity (s_config s)"
    using w by (simp add: write_inv_def)
  show "b \<noteq> [] \<Longrightarrow> s_write_queued_bytes s + length b \<le> write_capacity (s_config s) \<Longrightarrow>
      offer_write b s \<noteq> None"
    using good by (rule offer_write_fits)
  assume o: "offer_write b s = Some s'"
  note os = offer_write_Some [OF o]
  show "accepting s'" unfolding os(1) using good os by (simp add: push_write_accepting)
  show "pending_chunks s' = pending_chunks s @ [b]"
    unfolding os(1) using w by (rule pending_chunks_push)
  show "write_capacity (s_config s') = write_capacity (s_config s)"
    unfolding os(1) by (simp add: push_write_def Let_def)
qed

end
