(* ===== verification/Pty_Snapshot.thy ===== *)
theory Pty_Snapshot
  imports Pty_Session_Inv "HOL-Library.State_Monad"
begin

text \<open>
  The observations a caller can make of a session: \<open>GetStats\<close>, \<open>GetProcessSnapshot\<close> and
  \<open>GetWorkingDirectorySnapshot\<close> of \<^verbatim>\<open>PtySession.cc\<close>. Each fills a versioned structure of the
  caller; a buffer that is null, too short or of another ABI version is refused and left
  alone. The kernel's answers come from a record \<open>'w probe\<close> of parameters, which the
  foreground job's snapshot uses too.
\<close>

section \<open>Queries of the kernel\<close>

text \<open>
  A query answers \<open>Ok v\<close>, or fails and leaves \<open>errno\<close>, which can be zero: the code then
  reports a default of its own.
\<close>

datatype 'a answer = Got 'a | Failed int

record bsdinfo =
  pbi_pgid :: u32
  pbi_start_tvsec :: u64
  pbi_start_tvusec :: u64
  pbi_name :: "byte list"
  pbi_comm :: "byte list"

record 'w probe =
  pr_getpgid :: "pid \<Rightarrow> 'w \<Rightarrow> int answer \<times> 'w"
  pr_tcgetpgrp :: "fd \<Rightarrow> 'w \<Rightarrow> int answer \<times> 'w"
  pr_tcgetattr :: "fd \<Rightarrow> 'w \<Rightarrow> u64 answer \<times> 'w"
  pr_vnodepath :: "pid \<Rightarrow> 'w \<Rightarrow> byte list answer \<times> 'w"
  pr_alloc :: "nat \<Rightarrow> 'w \<Rightarrow> bool \<times> 'w"
  pr_group_size :: "pid \<Rightarrow> 'w \<Rightarrow> nat answer \<times> 'w"
  pr_group_pids :: "pid \<Rightarrow> nat \<Rightarrow> 'w \<Rightarrow> pid list answer \<times> 'w"
  pr_bsdinfo :: "pid \<Rightarrow> 'w \<Rightarrow> bsdinfo answer \<times> 'w"
  pr_start_abstime :: "pid \<Rightarrow> 'w \<Rightarrow> u64 answer \<times> 'w"
  pr_pidpath :: "pid \<Rightarrow> 'w \<Rightarrow> byte list answer \<times> 'w"
  pr_procargs_size :: "pid \<Rightarrow> 'w \<Rightarrow> nat answer \<times> 'w"
  pr_procargs :: "pid \<Rightarrow> nat \<Rightarrow> 'w \<Rightarrow> byte list answer \<times> 'w"
  pr_absolute_time :: "'w \<Rightarrow> u64 \<times> 'w"
  pr_timebase :: "(u32 \<times> u32) option"

definition errno_or :: "int \<Rightarrow> 'a answer \<Rightarrow> int" where
  "errno_or fallback x = (case x of Got _ \<Rightarrow> fallback | Failed e \<Rightarrow> (if e = 0 then fallback else e))"

lemma errno_or_nonzero: "fallback \<noteq> 0 \<Longrightarrow> errno_or fallback x \<noteq> 0"
  by (simp add: errno_or_def split: answer.split)

text \<open>A versioned buffer: the size and the version that the caller wrote into it.\<close>

definition compatible :: "nat \<Rightarrow> (nat \<times> u32) option \<Rightarrow> bool" where
  "compatible needed buffer \<longleftrightarrow>
     (case buffer of None \<Rightarrow> False | Some (struct_size, abi) \<Rightarrow> needed \<le> struct_size \<and> abi = DPTY_ABI_VERSION)"

section \<open>Statistics\<close>

record DptySessionStatsV1 =
  st_bytes_read :: u64
  st_bytes_written :: u64
  st_read_batches :: u64
  st_write_backpressure_rejections :: u64
  st_max_read_in_flight_bytes :: u64
  st_max_write_queued_bytes :: u64
  st_read_pause_count :: u64
  st_child_pid :: int
  st_has_exited :: int

definition stats_layout :: "nat list" where
  "stats_layout = [8, 4, 8, 8, 8, 8, 8, 8, 8, 8, 4]"

definition GetStats :: "(nat \<times> u32) option \<Rightarrow> session \<Rightarrow> DptyError + DptySessionStatsV1" where
  "GetStats buffer s =
     (if \<not> compatible (struct_sizeof stats_layout) buffer
      then Inl (SetError DPTY_STATUS_INVALID_ARGUMENT EINVAL ''PTY stats buffer is incompatible'')
      else Inr \<lparr>st_bytes_read = s_bytes_read s, st_bytes_written = s_bytes_written s,
        st_read_batches = s_read_batches s,
        st_write_backpressure_rejections = s_write_backpressure_rejections s,
        st_max_read_in_flight_bytes = of_nat (s_max_read_in_flight_bytes s),
        st_max_write_queued_bytes = of_nat (s_max_write_queued_bytes s),
        st_read_pause_count = s_read_pause_count s, st_child_pid = s_child_pid s,
        st_has_exited = (if s_state s = kFinished then 1 else 0)\<rparr>)"

section \<open>The processes of the session\<close>

record DptyProcessSnapshotV1 =
  ps_child_pid :: int
  ps_child_process_group :: int
  ps_foreground_process_group :: int
  ps_child_process_group_error :: int
  ps_foreground_process_group_error :: int
  ps_has_exited :: int
  ps_terminal_echo_enabled :: int
  ps_terminal_attributes_error :: int

definition process_layout :: "nat list" where
  "process_layout = [8, 4, 8, 8, 8, 4, 4, 4, 4, 4]"

abbreviation "ECHO \<equiv> (8 :: u64)"

text \<open>A process group is known when the query answers with a positive number.\<close>

definition known :: "int answer \<Rightarrow> bool" where
  "known x = (case x of Got g \<Rightarrow> 0 < g | Failed _ \<Rightarrow> False)"

definition group_or_zero :: "int answer \<Rightarrow> int" where
  "group_or_zero x = (case x of Got g \<Rightarrow> (if 0 < g then g else 0) | Failed _ \<Rightarrow> 0)"

definition process_report :: "pid \<Rightarrow> int answer \<Rightarrow> int answer \<Rightarrow> u64 answer \<Rightarrow> DptyProcessSnapshotV1" where
  "process_report child child_group foreground terminal =
     \<lparr>ps_child_pid = child,
      ps_child_process_group = group_or_zero child_group,
      ps_foreground_process_group = group_or_zero foreground,
      ps_child_process_group_error = (if known child_group then 0 else errno_or ESRCH child_group),
      ps_foreground_process_group_error = (if known foreground then 0 else errno_or ENOTTY foreground),
      ps_has_exited = 0,
      ps_terminal_echo_enabled =
        (case terminal of Got lflag \<Rightarrow> (if lflag AND ECHO \<noteq> 0 then 1 else 0) | Failed _ \<Rightarrow> 0),
      ps_terminal_attributes_error =
        (case terminal of Got _ \<Rightarrow> 0 | Failed _ \<Rightarrow> errno_or ENOTTY terminal)\<rparr>"

definition GetProcessSnapshot ::
    "'w probe \<Rightarrow> (nat \<times> u32) option \<Rightarrow> session \<Rightarrow> ('w, DptyError + DptyProcessSnapshotV1) state" where
  "GetProcessSnapshot pr buffer s =
     (if \<not> compatible (struct_sizeof process_layout) buffer
      then State_Monad.return (Inl (SetError DPTY_STATUS_INVALID_ARGUMENT EINVAL
             ''PTY process snapshot buffer is incompatible''))
      else if s_child_pid s \<le> 0 \<or> s_master_fd s < 0 \<or> s_state s \<noteq> kRunning
      then State_Monad.return (Inr
             \<lparr>ps_child_pid = (if 0 < s_child_pid s then s_child_pid s else 0),
              ps_child_process_group = 0, ps_foreground_process_group = 0,
              ps_child_process_group_error = ENXIO, ps_foreground_process_group_error = ENXIO,
              ps_has_exited = (if s_state s = kFinished then 1 else 0),
              ps_terminal_echo_enabled = 0, ps_terminal_attributes_error = ENXIO\<rparr>)
      else do {
        child_group \<leftarrow> State (pr_getpgid pr (s_child_pid s));
        foreground \<leftarrow> State (pr_tcgetpgrp pr (s_master_fd s));
        terminal \<leftarrow> State (pr_tcgetattr pr (s_master_fd s));
        State_Monad.return (Inr (process_report (s_child_pid s) child_group foreground terminal))
      })"

text \<open>
  In every snapshot each group is either reported or has an error, never both and never
  neither.
\<close>

definition process_fields_ok :: "DptyProcessSnapshotV1 \<Rightarrow> bool" where
  "process_fields_ok p \<longleftrightarrow>
     ((0 < ps_child_process_group p) \<noteq> (ps_child_process_group_error p \<noteq> 0)) \<and>
     ((0 < ps_foreground_process_group p) \<noteq> (ps_foreground_process_group_error p \<noteq> 0)) \<and>
     (ps_terminal_echo_enabled p \<noteq> 0 \<longrightarrow> ps_terminal_attributes_error p = 0)"

lemma group_field:
  "fallback \<noteq> 0 \<Longrightarrow>
   (0 < group_or_zero x) \<noteq> ((if known x then 0 else errno_or fallback x) \<noteq> 0)"
  by (cases x) (simp_all add: group_or_zero_def known_def errno_or_def)

lemma process_report_ok: "process_fields_ok (process_report child g f t)"
  using group_field [of ESRCH g] group_field [of ENOTTY f]
  by (cases t) (simp_all add: process_report_def process_fields_ok_def)

lemma process_snapshot_fields:
  assumes "run_state (GetProcessSnapshot pr buffer s) w = (Inr p, w')"
  shows "process_fields_ok p" "ps_has_exited p = 1 \<longleftrightarrow> s_state s = kFinished"
proof -
  show "process_fields_ok p"
    using assms process_report_ok
    by (auto simp: GetProcessSnapshot_def split_beta split: if_split_asm)
      (simp_all add: process_fields_ok_def)
  show "ps_has_exited p = 1 \<longleftrightarrow> s_state s = kFinished"
    using assms
    by (auto simp: GetProcessSnapshot_def split_beta process_report_def split: if_split_asm)
qed

section \<open>The working directory\<close>

record DptyWorkingDirectorySnapshotV1 =
  wd_child_pid :: int
  wd_system_error :: int
  wd_has_exited :: int
  wd_path :: "byte list"

definition cwd_layout :: "nat list" where
  "cwd_layout = [8, 4, 8, 8, 4, 4] @ replicate DPTY_WORKING_DIRECTORY_CAPACITY 1"

abbreviation "MAXPATHLEN \<equiv> (1024 :: nat)"

text \<open>
  What is made of the kernel's answer: an error number and the path. The kernel's \<open>vip_path\<close>
  is an array of \<open>MAXPATHLEN\<close> bytes.
\<close>

definition cwd_result :: "byte list answer \<Rightarrow> int \<times> byte list" where
  "cwd_result info =
     (case info of
        Failed _ \<Rightarrow> (errno_or EIO info, [])
      | Got vip_path \<Rightarrow>
          (let len = strnlen vip_path MAXPATHLEN in
           if len = 0 then (ENOENT, [])
           else if MAXPATHLEN \<le> len \<or> DPTY_WORKING_DIRECTORY_CAPACITY \<le> len then (ENAMETOOLONG, [])
           else (0, take len vip_path)))"

text \<open>
  The first \<open>path_length\<close> bytes of the structure's \<open>path\<close> are \<open>wd_path\<close>; the rest of the
  array is zero.
\<close>

definition GetWorkingDirectorySnapshot ::
    "'w probe \<Rightarrow> (nat \<times> u32) option \<Rightarrow> session \<Rightarrow>
     ('w, DptyError + DptyWorkingDirectorySnapshotV1) state" where
  "GetWorkingDirectorySnapshot pr buffer s =
     (if \<not> compatible (struct_sizeof cwd_layout) buffer
      then State_Monad.return (Inl (SetError DPTY_STATUS_INVALID_ARGUMENT EINVAL
             ''PTY working directory snapshot buffer is incompatible''))
      else do {
        (e, p) \<leftarrow> (if s_child_pid s \<le> 0 \<or> s_state s \<noteq> kRunning
                   then State_Monad.return (ENXIO, [])
                   else do {
                     info \<leftarrow> State (pr_vnodepath pr (s_child_pid s));
                     State_Monad.return (cwd_result info)
                   });
        State_Monad.return (Inr
          \<lparr>wd_child_pid = (if 0 < s_child_pid s then s_child_pid s else 0), wd_system_error = e,
           wd_has_exited = (if s_state s = kFinished then 1 else 0), wd_path = p\<rparr>)
      })"

definition cwd_ok :: "int \<times> byte list \<Rightarrow> bool" where
  "cwd_ok x \<longleftrightarrow> (snd x = [] \<longleftrightarrow> fst x \<noteq> 0) \<and> 0 \<notin> set (snd x) \<and> length (snd x) < MAXPATHLEN"

lemma cwd_result_ok: "cwd_ok (cwd_result info)"
proof (cases info)
  case (Got v)
  let ?n = "strnlen v MAXPATHLEN"
  have "0 \<notin> set (take ?n v)" using strnlen_take_nonzero by blast
  moreover have "length (take ?n v) = ?n" using strnlen_le_length [of v MAXPATHLEN] by simp
  ultimately show ?thesis using Got by (auto simp: cwd_ok_def cwd_result_def Let_def)
qed (simp add: cwd_ok_def cwd_result_def errno_or_def)

lemma working_directory_fields:
  assumes "run_state (GetWorkingDirectorySnapshot pr buffer s) w = (Inr p, w')"
  shows "cwd_ok (wd_system_error p, wd_path p)"
  using assms cwd_result_ok
  by (auto simp: GetWorkingDirectorySnapshot_def split_beta split: if_splits)
    (simp_all add: cwd_ok_def)

end
