(* ===== verification/Pty_Os.thy ===== *)
theory Pty_Os
  imports Pty_Session_Inv "HOL-Library.State_Monad"
begin

text \<open>
  The reactor's side of a session: the interface to the operating system, the state the
  reactor's thread runs on, its primitives in the state monad, and a small Hoare logic for
  them.

  The system calls are code outside the repository: they are the fields of a record
  \<open>'w os\<close>, functions of an unspecified world \<open>'w\<close>, and a parameter of every definition
  that uses them. What the code relies on is stated as the named hypotheses \<open>os_bounded\<close>
  and \<open>os_patient\<close>. The field \<open>os_others\<close> is the scheduler: at every acquisition of the
  session's mutex it says which calls of other threads got the mutex since the last one,
  so a theorem for every \<open>os\<close> holds for every interleaving of the callers with the
  reactor's critical sections.
\<close>

section \<open>System calls\<close>

text \<open>A call succeeds with a value, or returns \<open>-1\<close> and leaves its error number in \<open>errno\<close>.\<close>

datatype 'a sysret = Ok 'a | Fail int

datatype kevent =
    KReadReady
  | KWriteReady
  | KProcExit pid int bool
  | KUser

record 'w os =
  os_others :: "'w \<Rightarrow> api_call list \<times> 'w"
  os_read :: "fd \<Rightarrow> nat \<Rightarrow> 'w \<Rightarrow> byte list sysret \<times> 'w"
  os_write :: "fd \<Rightarrow> byte list \<Rightarrow> 'w \<Rightarrow> nat sysret \<times> 'w"
  os_tcgetpgrp :: "fd \<Rightarrow> 'w \<Rightarrow> int sysret \<times> 'w"
  os_tcgetattr :: "fd \<Rightarrow> 'w \<Rightarrow> (nat \<times> int) sysret \<times> 'w"
  os_tiocswinsz :: "fd \<Rightarrow> u16 \<Rightarrow> u16 \<Rightarrow> 'w \<Rightarrow> unit sysret \<times> 'w"
  os_getpgid :: "pid \<Rightarrow> 'w \<Rightarrow> int sysret \<times> 'w"
  os_kill :: "pid \<Rightarrow> int \<Rightarrow> 'w \<Rightarrow> unit sysret \<times> 'w"
  os_waitpid_nohang :: "pid \<Rightarrow> 'w \<Rightarrow> (pid \<times> int) sysret \<times> 'w"
  os_waitpid :: "pid \<Rightarrow> 'w \<Rightarrow> (pid \<times> int) sysret \<times> 'w"
  os_now :: "'w \<Rightarrow> int \<times> 'w"
  os_kqueue :: "'w \<Rightarrow> fd sysret \<times> 'w"
  os_kevent_register :: "fd \<Rightarrow> fd \<Rightarrow> pid \<Rightarrow> 'w \<Rightarrow> unit sysret \<times> 'w"
  os_kevent_wait :: "fd \<Rightarrow> 'w \<Rightarrow> kevent list sysret \<times> 'w"
  os_poll :: "fd \<Rightarrow> nat \<Rightarrow> 'w \<Rightarrow> nat sysret \<times> 'w"
  os_pipe :: "'w \<Rightarrow> (fd \<times> fd) sysret \<times> 'w"
  os_getfd :: "fd \<Rightarrow> 'w \<Rightarrow> int sysret \<times> 'w"
  os_setfd :: "fd \<Rightarrow> int \<Rightarrow> 'w \<Rightarrow> unit sysret \<times> 'w"
  os_getfl :: "fd \<Rightarrow> 'w \<Rightarrow> int sysret \<times> 'w"
  os_setfl :: "fd \<Rightarrow> int \<Rightarrow> 'w \<Rightarrow> unit sysret \<times> 'w"
  os_dupfd_cloexec :: "fd \<Rightarrow> fd \<Rightarrow> 'w \<Rightarrow> fd sysret \<times> 'w"
  os_forkpty :: "u16 \<Rightarrow> u16 \<Rightarrow> 'w \<Rightarrow> (pid \<times> fd) sysret \<times> 'w"

text \<open>\<open>read(2)\<close> returns at most the bytes asked for, \<open>write(2)\<close> at most the bytes given.\<close>

definition os_bounded :: "'w os \<Rightarrow> bool" where
  "os_bounded os \<longleftrightarrow>
     (\<forall>d n w bs w'. os_read os d n w = (Ok bs, w') \<longrightarrow> length bs \<le> n) \<and>
     (\<forall>d bs w c w'. os_write os d bs w = (Ok c, w') \<longrightarrow> c \<le> length bs)"

text \<open>
  A signal handler interrupts a call only finitely often: some budget of interruptions is
  left in every world, an interrupted \<open>read\<close>, \<open>write\<close>, \<open>poll\<close> or \<open>waitpid\<close> uses some of it,
  and nothing the system does adds to it.
\<close>

definition calm :: "('w \<Rightarrow> nat) \<Rightarrow> ('w \<Rightarrow> 'a \<times> 'w) \<Rightarrow> bool" where
  "calm budget c \<longleftrightarrow> (\<forall>w x w'. c w = (x, w') \<longrightarrow> budget w' \<le> budget w)"

definition interruptible :: "('w \<Rightarrow> nat) \<Rightarrow> ('w \<Rightarrow> 'a sysret \<times> 'w) \<Rightarrow> bool" where
  "interruptible budget c \<longleftrightarrow>
     (\<forall>w x w'. c w = (x, w') \<longrightarrow> budget w' + (if x = Fail EINTR then 1 else 0) \<le> budget w)"

definition os_patient :: "('w \<Rightarrow> nat) \<Rightarrow> 'w os \<Rightarrow> bool" where
  "os_patient budget os \<longleftrightarrow>
     (\<forall>d n. interruptible budget (os_read os d n)) \<and>
     (\<forall>d bs. interruptible budget (os_write os d bs)) \<and>
     (\<forall>d n. interruptible budget (os_poll os d n)) \<and>
     (\<forall>p. interruptible budget (os_waitpid os p)) \<and>
     calm budget (os_others os) \<and> calm budget (os_now os) \<and>
     (\<forall>d. calm budget (os_tcgetpgrp os d)) \<and> (\<forall>d. calm budget (os_tcgetattr os d)) \<and>
     (\<forall>d r c. calm budget (os_tiocswinsz os d r c)) \<and> (\<forall>p. calm budget (os_getpgid os p)) \<and>
     (\<forall>p sig. calm budget (os_kill os p sig)) \<and> (\<forall>p. calm budget (os_waitpid_nohang os p)) \<and>
     calm budget (os_kqueue os) \<and> (\<forall>d m p. calm budget (os_kevent_register os d m p)) \<and>
     (\<forall>d. calm budget (os_kevent_wait os d)) \<and> calm budget (os_pipe os) \<and>
     (\<forall>d. calm budget (os_getfd os d)) \<and> (\<forall>d f. calm budget (os_setfd os d f)) \<and>
     (\<forall>d. calm budget (os_getfl os d)) \<and> (\<forall>d f. calm budget (os_setfl os d f)) \<and>
     (\<forall>d n. calm budget (os_dupfd_cloexec os d n)) \<and>
     (\<forall>r c. calm budget (os_forkpty os r c))"

section \<open>The reactor's thread\<close>

text \<open>
  The session, the world, the thread's \<open>errno\<close>, the effects so far, and \<open>r_hung\<close>, which a
  loop sets when it is still running after the number of iterations the model gives it.
\<close>

record 'w reactor =
  r_session :: session
  r_world :: 'w
  r_errno :: int
  r_trace :: "effect list"
  r_hung :: bool

type_synonym ('w, 'a) thread = "('w reactor, 'a) state"

definition ask :: "(session \<Rightarrow> 'a) \<Rightarrow> ('w, 'a) thread" where
  "ask f = State (\<lambda>r. (f (r_session r), r))"

definition upd :: "(session \<Rightarrow> session) \<Rightarrow> ('w, unit) thread" where
  "upd f = State (\<lambda>r. ((), r\<lparr>r_session := f (r_session r)\<rparr>))"

definition emits :: "(session \<Rightarrow> effect list) \<Rightarrow> ('w, unit) thread" where
  "emits f = State (\<lambda>r. ((), r\<lparr>r_trace := r_trace r @ f (r_session r)\<rparr>))"

definition hang :: "('w, unit) thread" where
  "hang = State (\<lambda>r. ((), r\<lparr>r_hung := True\<rparr>))"

definition get_errno :: "('w, int) thread" where
  "get_errno = State (\<lambda>r. (r_errno r, r))"

definition set_errno :: "int \<Rightarrow> ('w, unit) thread" where
  "set_errno e = State (\<lambda>r. ((), r\<lparr>r_errno := e\<rparr>))"

definition sys :: "('w \<Rightarrow> 'a sysret \<times> 'w) \<Rightarrow> ('w, 'a sysret) thread" where
  "sys c = State (\<lambda>r. case c (r_world r) of (x, w) \<Rightarrow>
     (x, r\<lparr>r_world := w, r_errno := (case x of Ok _ \<Rightarrow> r_errno r | Fail e \<Rightarrow> e)\<rparr>))"

definition now :: "'w os \<Rightarrow> ('w, int) thread" where
  "now os = State (\<lambda>r. case os_now os (r_world r) of (t, w) \<Rightarrow> (t, r\<lparr>r_world := w\<rparr>))"

text \<open>One call of another thread, and taking the mutex after any number of them.\<close>

definition other_call :: "api_call \<Rightarrow> 'w reactor \<Rightarrow> 'w reactor" where
  "other_call c r =
     (case run_call c (r_session r) of (st, s, es) \<Rightarrow>
        r\<lparr>r_session := s, r_trace := r_trace r @ ApiCall c st # es\<rparr>)"

definition lock :: "'w os \<Rightarrow> ('w, unit) thread" where
  "lock os = State (\<lambda>r. case os_others os (r_world r) of (cs, w) \<Rightarrow>
     ((), fold other_call cs (r\<lparr>r_world := w\<rparr>)))"

text \<open>A statement under a condition.\<close>

definition do_if :: "bool \<Rightarrow> ('w, unit) thread \<Rightarrow> ('w, unit) thread" where
  "do_if b m = (if b then m else State_Monad.return ())"

text \<open>Close a descriptor that is open.\<close>

definition close_fd :: "fd \<Rightarrow> ('w, unit) thread" where
  "close_fd d = emits (\<lambda>_. [SysClose d])"

section \<open>A Hoare logic\<close>

definition valid :: "('s \<Rightarrow> bool) \<Rightarrow> ('s, 'a) state \<Rightarrow> ('a \<Rightarrow> 's \<Rightarrow> bool) \<Rightarrow> bool" where
  "valid P m Q \<longleftrightarrow> (\<forall>s. P s \<longrightarrow> (case run_state m s of (x, s') \<Rightarrow> Q x s'))"

abbreviation keeps :: "('s \<Rightarrow> bool) \<Rightarrow> ('s, 'a) state \<Rightarrow> bool" where
  "keeps P m \<equiv> valid P m (\<lambda>_. P)"

named_theorems vcg \<open>rules of the Hoare logic\<close>

lemma validI: "(\<And>s x s'. P s \<Longrightarrow> run_state m s = (x, s') \<Longrightarrow> Q x s') \<Longrightarrow> valid P m Q"
  by (auto simp: valid_def)

lemma validD: "valid P m Q \<Longrightarrow> P s \<Longrightarrow> run_state m s = (x, s') \<Longrightarrow> Q x s'"
  by (auto simp: valid_def)

lemma valid_conseq:
  "valid P m Q \<Longrightarrow> (\<And>s. P' s \<Longrightarrow> P s) \<Longrightarrow> (\<And>x s. Q x s \<Longrightarrow> Q' x s) \<Longrightarrow> valid P' m Q'"
  by (fastforce simp: valid_def)

lemma valid_pre: "valid P m Q \<Longrightarrow> (\<And>s. P' s \<Longrightarrow> P s) \<Longrightarrow> valid P' m Q"
  by (rule valid_conseq)

lemma valid_post: "valid P m Q \<Longrightarrow> (\<And>x s. Q x s \<Longrightarrow> Q' x s) \<Longrightarrow> valid P m Q'"
  by (rule valid_conseq)

lemma valid_return [vcg]: "(\<And>s. P s \<Longrightarrow> Q x s) \<Longrightarrow> valid P (State_Monad.return x) Q"
  by (simp add: valid_def)

lemma valid_bind:
  "valid P m R \<Longrightarrow> (\<And>x. valid (R x) (f x) Q) \<Longrightarrow> valid P (State_Monad.bind m f) Q"
  by (fastforce simp: valid_def split: prod.splits)

lemma keeps_bind [vcg]:
  "keeps P m \<Longrightarrow> (\<And>x. valid P (f x) Q) \<Longrightarrow> valid P (State_Monad.bind m f) Q"
  by (rule valid_bind)

lemma valid_if [vcg]:
  "(b \<Longrightarrow> valid P m Q) \<Longrightarrow> (\<not> b \<Longrightarrow> valid P n Q) \<Longrightarrow> valid P (if b then m else n) Q"
  by simp

lemma valid_do_if [vcg]:
  "(b \<Longrightarrow> valid P m Q) \<Longrightarrow> (\<And>s. \<not> b \<Longrightarrow> P s \<Longrightarrow> Q () s) \<Longrightarrow> valid P (do_if b m) Q"
  by (simp add: do_if_def valid_return)

lemma valid_sysret [vcg]:
  "(\<And>v. x = Ok v \<Longrightarrow> valid P (f v) Q) \<Longrightarrow> (\<And>e. x = Fail e \<Longrightarrow> valid P (g e) Q) \<Longrightarrow>
   valid P (case x of Ok v \<Rightarrow> f v | Fail e \<Rightarrow> g e) Q"
  by (cases x) simp_all

lemma valid_option [vcg]:
  "(x = None \<Longrightarrow> valid P m Q) \<Longrightarrow> (\<And>v. x = Some v \<Longrightarrow> valid P (f v) Q) \<Longrightarrow>
   valid P (case x of None \<Rightarrow> m | Some v \<Rightarrow> f v) Q"
  by (cases x) simp_all

lemma valid_prod [vcg]:
  "(\<And>a b. p = (a, b) \<Longrightarrow> valid P (f a b) Q) \<Longrightarrow> valid P (case p of (a, b) \<Rightarrow> f a b) Q"
  by (cases p) simp

lemma valid_ask: "(\<And>r. P r \<Longrightarrow> Q (f (r_session r)) r) \<Longrightarrow> valid P (ask f) Q"
  by (simp add: valid_def ask_def)

lemma keeps_ask [vcg]: "keeps P (ask f)"
  by (rule valid_ask)

text \<open>A member read without the mutex is remembered in the precondition of what follows.\<close>

lemma valid_ask_bind:
  "(\<And>x. valid (\<lambda>r. P r \<and> f (r_session r) = x) (g x) Q) \<Longrightarrow> valid P (State_Monad.bind (ask f) g) Q"
  by (fastforce simp: valid_def ask_def)

lemma valid_upd:
  "(\<And>r. P r \<Longrightarrow> Q () (r\<lparr>r_session := f (r_session r)\<rparr>)) \<Longrightarrow> valid P (upd f) Q"
  by (simp add: valid_def upd_def)

lemma valid_emits:
  "(\<And>r. P r \<Longrightarrow> Q () (r\<lparr>r_trace := r_trace r @ f (r_session r)\<rparr>)) \<Longrightarrow> valid P (emits f) Q"
  by (simp add: valid_def emits_def)

lemma valid_hang: "(\<And>r. P r \<Longrightarrow> Q () (r\<lparr>r_hung := True\<rparr>)) \<Longrightarrow> valid P hang Q"
  by (simp add: valid_def hang_def)

lemma valid_get_errno: "(\<And>r. P r \<Longrightarrow> Q (r_errno r) r) \<Longrightarrow> valid P get_errno Q"
  by (simp add: valid_def get_errno_def)

lemma keeps_get_errno [vcg]: "keeps P get_errno"
  by (rule valid_get_errno)

lemma valid_set_errno:
  "(\<And>r. P r \<Longrightarrow> Q () (r\<lparr>r_errno := e\<rparr>)) \<Longrightarrow> valid P (set_errno e) Q"
  by (simp add: valid_def set_errno_def)

lemma valid_sys:
  "(\<And>r x w. P r \<Longrightarrow> c (r_world r) = (x, w) \<Longrightarrow>
     Q x (r\<lparr>r_world := w, r_errno := (case x of Ok _ \<Rightarrow> r_errno r | Fail e \<Rightarrow> e)\<rparr>)) \<Longrightarrow>
   valid P (sys c) Q"
  by (auto simp: valid_def sys_def split: prod.splits)

text \<open>The two outcomes of a call, with what it promises of the value it returned.\<close>

lemma valid_sys_bind:
  assumes "\<And>v. A v \<Longrightarrow> valid P (f (Ok v)) Q" "\<And>e. valid P (f (Fail e)) Q"
    "\<And>w v w'. c w = (Ok v, w') \<Longrightarrow> A v"
    "\<And>r w e. P r \<Longrightarrow> P (r\<lparr>r_world := w, r_errno := e\<rparr>)"
  shows "valid P (State_Monad.bind (sys c) f) Q"
proof (rule validI)
  fix r y r'
  assume p: "P r" and run: "run_state (State_Monad.bind (sys c) f) r = (y, r')"
  obtain x w where c: "c (r_world r) = (x, w)" by (cases "c (r_world r)")
  let ?r = "r\<lparr>r_world := w, r_errno := (case x of Ok _ \<Rightarrow> r_errno r | Fail e \<Rightarrow> e)\<rparr>"
  have "run_state (f x) ?r = (y, r')" using run by (simp add: sys_def c)
  moreover have "P ?r" using p by (rule assms(4))
  moreover have "valid P (f x) Q" using assms(1-3) c by (cases x) auto
  ultimately show "Q y r'" by (meson validD)
qed

lemma valid_fact: "(A \<Longrightarrow> valid P m Q) \<Longrightarrow> valid (\<lambda>r. P r \<and> A) m Q"
  by (auto simp: valid_def)

lemma valid_now:
  "(\<And>r t w. P r \<Longrightarrow> os_now os (r_world r) = (t, w) \<Longrightarrow> Q t (r\<lparr>r_world := w\<rparr>)) \<Longrightarrow>
   valid P (now os) Q"
  by (auto simp: valid_def now_def split: prod.splits)

lemma valid_lock:
  assumes "\<And>r w. P r \<Longrightarrow> P (r\<lparr>r_world := w\<rparr>)" "\<And>r c. P r \<Longrightarrow> P (other_call c r)"
  shows "keeps P (lock os)"
proof -
  have "P (fold other_call cs r)" if "P r" for cs r
    using that by (induction cs arbitrary: r) (auto intro: assms(2))
  then show ?thesis by (auto simp: valid_def lock_def assms(1) split: prod.splits)
qed

end
