(* ===== verification/Pty_Reactor.thy ===== *)
theory Pty_Reactor
  imports Pty_Os
begin

text \<open>
  The private methods of \<open>Session\<close> that the reactor's thread runs: reading the master side
  into acknowledged batches, flushing queued writes, delivering signals, reaping the child,
  and \<open>ProcessControl\<close>, which carries out what the callers asked for. Each is the source's
  method statement by statement; \<open>lock os\<close> stands where the source takes the mutex, and the
  accesses that follow it up to the next system call are its critical section.
\<close>

section \<open>Event filters\<close>

definition SetReadEnabled :: "'w os \<Rightarrow> bool \<Rightarrow> ('w, unit) thread" where
  "SetReadEnabled os enabled = do {
     descriptor \<leftarrow> ask s_kqueue_fd;
     master \<leftarrow> ask s_master_fd;
     if descriptor < 0 \<or> master < 0 then State_Monad.return ()
     else do {
       lock os;
       current \<leftarrow> ask s_read_enabled;
       if current = enabled then State_Monad.return ()
       else do {
         upd (\<lambda>s. s\<lparr>s_read_enabled := enabled,
                    s_read_paused := (if enabled then False else s_read_paused s)\<rparr>);
         emits (\<lambda>_. [KqueueEnable EVFILT_READ enabled])
       }
     }
   }"

definition SetWriteEnabled :: "'w os \<Rightarrow> bool \<Rightarrow> ('w, unit) thread" where
  "SetWriteEnabled os enabled = do {
     descriptor \<leftarrow> ask s_kqueue_fd;
     master \<leftarrow> ask s_master_fd;
     current \<leftarrow> ask s_write_enabled;
     if descriptor < 0 \<or> master < 0 \<or> current = enabled then State_Monad.return ()
     else do {
       upd (\<lambda>s. s\<lparr>s_write_enabled := enabled\<rparr>);
       emits (\<lambda>_. [KqueueEnable EVFILT_WRITE enabled])
     }
   }"

section \<open>Snapshots for diagnostics\<close>

definition flag_if :: "bool \<Rightarrow> DptySessionStateFlag \<Rightarrow> u64" where
  "flag_if b f = (if b then flag_code f else 0)"

definition state_flags :: "session \<Rightarrow> u64" where
  "state_flags s =
     flag_if (s_closing s) DPTY_SESSION_STATE_CLOSING OR
     flag_if (s_close_started s) DPTY_SESSION_STATE_CLOSE_STARTED OR
     flag_if (s_child_reaped_by_session s) DPTY_SESSION_STATE_CHILD_REAPED OR
     flag_if (s_master_eof s) DPTY_SESSION_STATE_MASTER_EOF OR
     flag_if (s_read_paused s) DPTY_SESSION_STATE_READ_PAUSED OR
     flag_if (s_read_enabled s) DPTY_SESSION_STATE_READ_ENABLED OR
     flag_if (s_write_enabled s) DPTY_SESSION_STATE_WRITE_ENABLED OR
     flag_if (s_child_completed s) DPTY_SESSION_STATE_CHILD_EXIT_OBSERVED OR
     flag_if (s_child_externally_reaped s) DPTY_SESSION_STATE_CHILD_EXTERNALLY_REAPED"

definition fd_tcgetpgrp :: "'w os \<Rightarrow> fd \<Rightarrow> ('w, int) thread" where
  "fd_tcgetpgrp os master =
     (if master < 0 then State_Monad.return (- 1)
      else do {
        x \<leftarrow> sys (os_tcgetpgrp os master);
        State_Monad.return (case x of Ok g \<Rightarrow> g | Fail _ \<Rightarrow> - 1)
      })"

definition EmitStateSnapshot :: "'w os \<Rightarrow> u64 \<Rightarrow> ('w, unit) thread" where
  "EmitStateSnapshot os related = do {
     set_errno 0;
     master \<leftarrow> ask s_master_fd;
     foreground \<leftarrow> fd_tcgetpgrp os master;
     e1 \<leftarrow> get_errno;
     let foreground_error = (if foreground < 0 then e1 else 0);
     set_errno 0;
     terminal \<leftarrow> (if master < 0 then State_Monad.return (Fail 0) else sys (os_tcgetattr os master));
     e2 \<leftarrow> get_errno;
     let terminal_error = (case terminal of Ok _ \<Rightarrow> 0 | Fail _ \<Rightarrow> e2);
     lock os;
     queued \<leftarrow> ask s_write_queued_bytes;
     flags \<leftarrow> ask state_flags;
     emits (\<lambda>s. EmitDiagnostic s DPTY_EVENT_STATE_SNAPSHOT related queued foreground
              (uint flags) foreground_error);
     emits (\<lambda>s. EmitDiagnostic s DPTY_EVENT_TERMIOS_SNAPSHOT related
              (case terminal of Ok (veof, _) \<Rightarrow> veof | Fail _ \<Rightarrow> 0)
              (case terminal of Ok (_, lflag) \<Rightarrow> lflag | Fail _ \<Rightarrow> 0)
              (case terminal of Ok _ \<Rightarrow> 1 | Fail _ \<Rightarrow> 0) terminal_error)
   }"

section \<open>Reading the master side\<close>

text \<open>
  The inner loop of \<open>ReadAvailable\<close>: it fills one batch, and returns the bytes collected and
  whether the last read was terminal (end of file or an error).
\<close>

fun collect :: "'w os \<Rightarrow> nat \<Rightarrow> nat \<Rightarrow> byte list \<Rightarrow> nat \<Rightarrow> ('w, byte list \<times> bool) thread" where
  "collect os 0 capacity collected attempts = do { hang; State_Monad.return (collected, False) }"
| "collect os (Suc n) capacity collected attempts = do {
     master \<leftarrow> ask s_master_fd;
     x \<leftarrow> sys (os_read os master (capacity - length collected));
     turn \<leftarrow> ask (\<lambda>s. read_batches_per_event_loop_turn (s_config s));
     case x of
       Ok bs \<Rightarrow>
         if bs = [] then State_Monad.return (collected, True)
         else do {
           emits (\<lambda>_. [SysRead bs]);
           if turn = 0 \<or> length (collected @ bs) = capacity \<or> kMaximumReadBatchesPerTurn \<le> attempts + 1
           then State_Monad.return (collected @ bs, False)
           else collect os n capacity (collected @ bs) (attempts + 1)
         }
     | Fail e \<Rightarrow>
         if e = EIO then State_Monad.return (collected, True)
         else if e = EINTR then collect os n capacity collected attempts
         else if e = EAGAIN then State_Monad.return (collected, False)
         else State_Monad.return (collected, True)
   }"

text \<open>The critical section that publishes a batch of output.\<close>

definition push_output :: "byte list \<Rightarrow> session \<Rightarrow> session" where
  "push_output bs s =
     (let in_flight = s_read_in_flight_bytes s + length bs;
          yielding = (read_batches_per_event_loop_turn (s_config s) \<noteq> 0)
      in s\<lparr>s_next_sequence := s_next_sequence s + 1,
           s_outstanding := s_outstanding s @ [\<lparr>sequence = s_next_sequence s, batch_bytes = bs\<rparr>],
           s_read_in_flight_bytes := in_flight,
           s_bytes_read := s_bytes_read s + of_nat (length bs),
           s_read_batches := s_read_batches s + 1,
           s_max_read_in_flight_bytes := max (s_max_read_in_flight_bytes s) in_flight,
           s_read_paused := (yielding \<or> s_read_paused s),
           s_read_pause_count := (if yielding then s_read_pause_count s + 1
                                  else s_read_pause_count s)\<rparr>)"

text \<open>The outer loop; \<open>fuel\<close> bounds the attempts of each batch, \<open>k\<close> the batches left in this turn.\<close>

fun read_batches :: "'w os \<Rightarrow> nat \<Rightarrow> nat \<Rightarrow> ('w, unit) thread" where
  "read_batches os fuel 0 = do { upd (\<lambda>s. s\<lparr>s_read_retry_requested := True\<rparr>); emits Wake }"
| "read_batches os fuel (Suc k) = do {
     lock os;
     full \<leftarrow> ask (\<lambda>s. read_high_water (s_config s) \<le> s_read_in_flight_bytes s);
     if full then do {
       upd (\<lambda>s. if s_read_paused s then s
                else s\<lparr>s_read_paused := True, s_read_pause_count := s_read_pause_count s + 1\<rparr>);
       SetReadEnabled os False
     }
     else do {
       available \<leftarrow> ask (\<lambda>s. min (read_batch (s_config s))
                               (read_high_water (s_config s) - s_read_in_flight_bytes s));
       (bytes, terminal) \<leftarrow> collect os fuel available [] 0;
       do_if terminal (do {
         upd (\<lambda>s. s\<lparr>s_master_eof := True\<rparr>);
         SetReadEnabled os False
       });
       if bytes = [] then State_Monad.return ()
       else do {
         lock os;
         sq \<leftarrow> ask s_next_sequence;
         yielding \<leftarrow> ask (\<lambda>s. read_batches_per_event_loop_turn (s_config s) \<noteq> 0);
         upd (push_output bytes);
         do_if yielding (SetReadEnabled os False);
         emits (\<lambda>s. Emit s DPTY_EVENT_OUTPUT sq (Some bytes) (length bytes) 0 0 0);
         if yielding \<or> terminal then State_Monad.return ()
         else read_batches os fuel k
       }
     }
   }"

definition ReadAvailable :: "'w os \<Rightarrow> nat \<Rightarrow> ('w, unit) thread" where
  "ReadAvailable os fuel = do {
     blocked \<leftarrow> ask (\<lambda>s. s_master_fd s < 0 \<or> s_master_eof s);
     upd (\<lambda>s. s\<lparr>s_read_retry_requested := False\<rparr>);
     if blocked then State_Monad.return ()
     else read_batches os fuel kMaximumReadBatchesPerTurn
   }"

section \<open>Flushing queued writes\<close>

definition observe_dequeue :: "session \<Rightarrow> session" where
  "observe_dequeue s =
     (case s_writes s of
        [] \<Rightarrow> s
      | w # ws \<Rightarrow> s\<lparr>s_writes := w\<lparr>dequeue_observed := True\<rparr> # ws\<rparr>)"

text \<open>The critical section after \<open>write(2)\<close> took \<open>consumed\<close> bytes of the front request.\<close>

definition front_finished :: "nat \<Rightarrow> session \<Rightarrow> bool" where
  "front_finished consumed s =
     (case s_writes s of
        [] \<Rightarrow> False
      | w # _ \<Rightarrow> s_write_offset s + consumed = length (write_bytes w))"

definition consume_write :: "nat \<Rightarrow> session \<Rightarrow> session" where
  "consume_write consumed s =
     (let s' = s\<lparr>s_write_offset := s_write_offset s + consumed,
                 s_write_queued_bytes := s_write_queued_bytes s - consumed,
                 s_bytes_written := s_bytes_written s + of_nat consumed\<rparr>
      in if front_finished consumed s
         then s'\<lparr>s_writes := tl (s_writes s), s_write_offset := 0\<rparr>
         else s')"

fun flush_loop :: "'w os \<Rightarrow> nat \<Rightarrow> nat \<Rightarrow> nat \<Rightarrow> ('w, unit) thread" where
  "flush_loop os 0 batches written = hang"
| "flush_loop os (Suc n) batches written = do {
     lock os;
     ws \<leftarrow> ask s_writes;
     case ws of
       [] \<Rightarrow> SetWriteEnabled os False
     | w # _ \<Rightarrow> do {
         offset \<leftarrow> ask s_write_offset;
         queued \<leftarrow> ask s_write_queued_bytes;
         let bytes = drop offset (write_bytes w);
         do_if (diagnostic w \<and> \<not> dequeue_observed w) (do {
           upd observe_dequeue;
           emits (\<lambda>s. EmitDiagnostic s DPTY_EVENT_WRITE_DEQUEUED (request_id w) (length bytes)
                    (int queued) 0 0);
           EmitStateSnapshot os (request_id w)
         });
         master \<leftarrow> ask s_master_fd;
         x \<leftarrow> sys (os_write os master bytes);
         case x of
           Ok consumed \<Rightarrow>
             if consumed = 0 then State_Monad.return ()
             else do {
               emits (\<lambda>_. [SysWrite (take consumed bytes)]);
               lock os;
               finished \<leftarrow> ask (front_finished consumed);
               upd (consume_write consumed);
               remaining \<leftarrow> ask s_write_queued_bytes;
               do_if (finished \<and> diagnostic w) (emits (\<lambda>s. EmitDiagnostic s DPTY_EVENT_WRITE_COMPLETED (request_id w)
                             (length (write_bytes w)) (int remaining) 0 0));
               if kMaximumWriteBatchesPerTurn \<le> batches + 1 \<or>
                  kMaximumWriteBytesPerTurn \<le> written + consumed
               then emits Wake
               else flush_loop os n (batches + 1) (written + consumed)
             }
         | Fail e \<Rightarrow>
             if e = EINTR then flush_loop os n batches written
             else if e = EAGAIN then SetWriteEnabled os True
             else do_if (diagnostic w) (emits (\<lambda>s. EmitDiagnostic s DPTY_EVENT_WRITE_ERROR (request_id w) (length bytes)
                           (int queued) 0 e))
       }
   }"

definition FlushWrites :: "'w os \<Rightarrow> nat \<Rightarrow> ('w, unit) thread" where
  "FlushWrites os fuel = do {
     blocked \<leftarrow> ask (\<lambda>s. s_master_fd s < 0 \<or> s_child_completed s);
     if blocked then State_Monad.return () else flush_loop os fuel 0 0
   }"

section \<open>Signals\<close>

definition DeliverSignal :: "'w os \<Rightarrow> pid \<Rightarrow> int \<Rightarrow> ('w, bool) thread" where
  "DeliverSignal os target signal = do {
     set_errno 0;
     x \<leftarrow> sys (os_kill os target signal);
     let ok = (case x of Ok _ \<Rightarrow> True | Fail _ \<Rightarrow> False);
     let system_error = (case x of Ok _ \<Rightarrow> 0 | Fail e \<Rightarrow> e);
     emits (\<lambda>_. [SysKill target signal ok]);
     emits (\<lambda>s. EmitDiagnostic s DPTY_EVENT_SIGNAL_DELIVERY 0 (nat signal) target
              (if ok then 0 else - 1) system_error);
     State_Monad.return ok
   }"

definition SendToForeground :: "'w os \<Rightarrow> int \<Rightarrow> ('w, unit) thread" where
  "SendToForeground os signal = do {
     set_errno 0;
     master \<leftarrow> ask s_master_fd;
     foreground \<leftarrow> fd_tcgetpgrp os master;
     delivered \<leftarrow> (if 0 < foreground then DeliverSignal os (- foreground) signal
                   else State_Monad.return False);
     if delivered then State_Monad.return ()
     else do {
       lock os;
       child \<leftarrow> ask s_child_pid;
       if 0 < child then do { _ \<leftarrow> DeliverSignal os child signal; State_Monad.return () }
       else do_if (foreground \<le> 0) (do {
         e \<leftarrow> get_errno;
         emits (\<lambda>s. EmitDiagnostic s DPTY_EVENT_SIGNAL_DELIVERY 0 (nat signal) 0 (- 1)
                  (if e = 0 then ESRCH else e))
       })
     }
   }"

definition SendToProcessGroups :: "'w os \<Rightarrow> int \<Rightarrow> ('w, unit) thread" where
  "SendToProcessGroups os signal = do {
     lock os;
     child \<leftarrow> ask s_child_pid;
     master \<leftarrow> ask s_master_fd;
     foreground \<leftarrow> fd_tcgetpgrp os master;
     child_group \<leftarrow> (if 0 < child
       then do { x \<leftarrow> sys (os_getpgid os child);
                 State_Monad.return (case x of Ok g \<Rightarrow> g | Fail _ \<Rightarrow> - 1) }
       else State_Monad.return (- 1));
     signaled1 \<leftarrow> (if 0 < foreground
       then do { ok \<leftarrow> DeliverSignal os (- foreground) signal;
                 State_Monad.return (ok \<and> child_group = foreground) }
       else State_Monad.return False);
     signaled2 \<leftarrow> (if 0 < child_group \<and> child_group \<noteq> foreground
       then DeliverSignal os (- child_group) signal
       else State_Monad.return signaled1);
     do_if (0 < child \<and> \<not> signaled2) (do { _ \<leftarrow> DeliverSignal os child signal; State_Monad.return () });
     do_if (foreground \<le> 0 \<and> child \<le> 0) (emits (\<lambda>s. EmitDiagnostic s DPTY_EVENT_SIGNAL_DELIVERY 0 (nat signal) 0 (- 1) ESRCH))
   }"

fun deliver_all :: "'w os \<Rightarrow> int list \<Rightarrow> ('w, unit) thread" where
  "deliver_all os [] = State_Monad.return ()"
| "deliver_all os (sig # sigs) = do { SendToForeground os sig; deliver_all os sigs }"

section \<open>Reaping the child\<close>

definition ObserveProcessExitReady :: "pid \<Rightarrow> int \<Rightarrow> bool \<Rightarrow> ('w, unit) thread" where
  "ObserveProcessExitReady child status_hint status_valid = do {
     do_if status_valid (upd (\<lambda>s. s\<lparr>s_process_exit_status := status_hint, s_process_exit_status_valid := True\<rparr>));
     observed \<leftarrow> ask s_process_exit_ready_observed;
     if observed then State_Monad.return ()
     else do {
       upd (\<lambda>s. s\<lparr>s_process_exit_ready_observed := True\<rparr>);
       emits (\<lambda>s. EmitDiagnostic s DPTY_EVENT_PROCESS_EXIT_READY 0 (if status_valid then 1 else 0)
                child status_hint 0)
     }
   }"

text \<open>The critical sections of \<open>ReapChild\<close>: the child is gone, by our wait or another's.\<close>

definition drop_writes :: "session \<Rightarrow> session" where
  "drop_writes s = s\<lparr>s_writes := [], s_write_offset := 0, s_write_queued_bytes := 0\<rparr>"

definition complete_reaped :: "int \<Rightarrow> session \<Rightarrow> session" where
  "complete_reaped status s = drop_writes (s\<lparr>s_child_completed := True,
     s_child_reaped_by_session := True, s_child_status := status,
     s_emit_waitpid_pending := False\<rparr>)"

definition complete_external :: "session \<Rightarrow> session" where
  "complete_external s = drop_writes (s\<lparr>s_child_completed := True,
     s_child_externally_reaped := True, s_child_status := s_process_exit_status s,
     s_emit_waitpid_pending := False\<rparr>)"

definition ReapChild :: "'w os \<Rightarrow> ('w, unit) thread" where
  "ReapChild os = do {
     completed \<leftarrow> ask s_child_completed;
     if completed then State_Monad.return ()
     else do {
       lock os;
       child \<leftarrow> ask s_child_pid;
       if child \<le> 0 then State_Monad.return ()
       else do {
         set_errno 0;
         x \<leftarrow> sys (os_waitpid_nohang os child);
         wait_errno \<leftarrow> get_errno;
         let (waited, status) = (case x of Ok p \<Rightarrow> p | Fail _ \<Rightarrow> (- 1, 0));
         if waited = child then do {
           ObserveProcessExitReady waited status True;
           lock os;
           emits (\<lambda>_. [SysReap child]);
           upd (complete_reaped status);
           emits (\<lambda>s. EmitDiagnostic s DPTY_EVENT_WAITPID_RESULT 0 0 waited status 0)
         }
         else if waited = 0 then do {
           lock os;
           emit_pending \<leftarrow> ask s_emit_waitpid_pending;
           upd (\<lambda>s. s\<lparr>s_emit_waitpid_pending := False\<rparr>);
           do_if emit_pending (emits (\<lambda>s. EmitDiagnostic s DPTY_EVENT_WAITPID_RESULT 0 0 0 0 0))
         }
         else do_if (wait_errno \<noteq> EINTR) (do {
           lock os;
           emit_error \<leftarrow> ask (\<lambda>s. \<not> s_waitpid_error_observed s);
           upd (\<lambda>s. s\<lparr>s_waitpid_error_observed := True\<rparr>);
           external_reap \<leftarrow> ask (\<lambda>s. wait_errno = ECHILD \<and> s_process_exit_ready_observed s \<and>
                                       s_process_exit_status_valid s);
           do_if external_reap (upd complete_external);
           do_if emit_error (emits (\<lambda>s. EmitDiagnostic s DPTY_EVENT_WAITPID_RESULT 0 0 (- 1) 0 wait_errno));
           do_if external_reap (emits (\<lambda>s. EmitDiagnostic s DPTY_EVENT_EXTERNAL_REAP_OBSERVED 0 0 child
                         (s_child_status s) wait_errno))
         })
       }
     }
   }"

section \<open>Carrying out the callers' requests\<close>

text \<open>
  The first critical section of \<open>ProcessControl\<close> takes the pending requests out of the
  session; what it took is a record of its own.
\<close>

record control =
  ctl_resize :: "PendingResize option"
  ctl_signals :: "int list"
  ctl_begin_close :: bool
  ctl_force_close :: bool
  ctl_grace_millis :: nat
  ctl_resume_read :: bool

definition take_control :: "session \<Rightarrow> control" where
  "take_control s =
     \<lparr>ctl_resize = s_pending_resize s,
      ctl_signals = s_pending_signals s,
      ctl_begin_close =
        (\<not> s_force_close_requested s \<and> s_closing s \<and> \<not> s_close_started s),
      ctl_force_close = s_force_close_requested s,
      ctl_grace_millis =
        (if \<not> s_force_close_requested s \<and> s_closing s \<and> \<not> s_close_started s
         then s_close_grace_millis s else 0),
      ctl_resume_read =
        (s_read_paused s \<and> s_read_in_flight_bytes s \<le> read_low_water (s_config s))\<rparr>"

definition clear_control :: "session \<Rightarrow> session" where
  "clear_control s = s\<lparr>s_pending_resize := None, s_pending_signals := [],
     s_force_close_requested := False,
     s_close_started := (s_close_started s \<or> s_force_close_requested s \<or> s_closing s)\<rparr>"

abbreviation "nanos_per_milli \<equiv> (1000000::int)"

definition ProcessControl :: "'w os \<Rightarrow> nat \<Rightarrow> ('w, unit) thread" where
  "ProcessControl os fuel = do {
     lock os;
     c \<leftarrow> ask take_control;
     upd clear_control;
     master \<leftarrow> ask s_master_fd;
     (case ctl_resize c of
        None \<Rightarrow> State_Monad.return ()
      | Some z \<Rightarrow>
          if master < 0 then State_Monad.return ()
          else do {
            _ \<leftarrow> sys (os_tiocswinsz os master (resize_rows z) (resize_columns z));
            emits (\<lambda>_. [SysResize (resize_rows z) (resize_columns z)])
          });
     deliver_all os (ctl_signals c);
     completed \<leftarrow> ask s_child_completed;
     (if ctl_force_close c \<and> \<not> completed then do {
       lock os;
       queued \<leftarrow> ask s_write_queued_bytes;
       upd (\<lambda>s. s\<lparr>s_emit_waitpid_pending := True\<rparr>);
       emits (\<lambda>s. EmitDiagnostic s DPTY_EVENT_FORCE_CLOSE_DEQUEUED 0 0 (int queued) 0 0);
       EmitStateSnapshot os 0;
       SendToProcessGroups os SIGKILL;
       upd (\<lambda>s. s\<lparr>s_close_kill_deadline := None\<rparr>)
     }
     else do_if (ctl_begin_close c) (do {
       lock os;
       upd (\<lambda>s. s\<lparr>s_emit_waitpid_pending := True\<rparr>);
       EmitStateSnapshot os 0;
       SendToProcessGroups os SIGHUP;
       t \<leftarrow> now os;
       upd (\<lambda>s. s\<lparr>s_close_kill_deadline :=
                  Some (t + int (ctl_grace_millis c) * nanos_per_milli)\<rparr>)
     }));
     started \<leftarrow> ask s_close_started;
     completed2 \<leftarrow> ask s_child_completed;
     deadline \<leftarrow> ask s_close_kill_deadline;
     do_if (started \<and> \<not> completed2) (do {
       t \<leftarrow> now os;
       do_if ((case deadline of None \<Rightarrow> False | Some d \<Rightarrow> d \<le> t)) (do {
         SendToProcessGroups os SIGKILL;
         upd (\<lambda>s. s\<lparr>s_close_kill_deadline := None\<rparr>)
       })
     });
     do_if (ctl_resume_read c) (do {
       SetReadEnabled os True;
       ReadAvailable os fuel
     });
     FlushWrites os fuel
   }"

section \<open>The end of a session\<close>

text \<open>The wait-status macros of the macOS headers.\<close>

definition wstatus :: "int \<Rightarrow> int" where
  "wstatus st = st AND 127"

definition WIFEXITED :: "int \<Rightarrow> bool" where
  "WIFEXITED st \<longleftrightarrow> wstatus st = 0"

definition WEXITSTATUS :: "int \<Rightarrow> int" where
  "WEXITSTATUS st = drop_bit 8 st AND 255"

definition WIFSIGNALED :: "int \<Rightarrow> bool" where
  "WIFSIGNALED st \<longleftrightarrow> wstatus st \<noteq> 127 \<and> wstatus st \<noteq> 0"

definition WTERMSIG :: "int \<Rightarrow> int" where
  "WTERMSIG st = wstatus st"

definition exit_report :: "int \<Rightarrow> int \<times> int" where
  "exit_report status =
     (if WIFEXITED status then (WEXITSTATUS status, 0)
      else if WIFSIGNALED status then (128 + WTERMSIG status, WTERMSIG status)
      else (0, 0))"

definition FinishExit :: "'w os \<Rightarrow> ('w, unit) thread" where
  "FinishExit os = do {
     status \<leftarrow> ask s_child_status;
     let (exit_code, signal) = exit_report status;
     lock os;
     upd (\<lambda>s. s\<lparr>s_state := kFinished\<rparr>);
     upd (\<lambda>s. s\<lparr>s_finished_reaping := True\<rparr>);
     emits (\<lambda>s. EmitDiagnostic s DPTY_EVENT_EXIT_PUBLISHED 0 0 exit_code signal 0);
     emits (\<lambda>s. Emit s DPTY_EVENT_EXIT 0 None 0 exit_code signal 0)
   }"

definition FinishError :: "'w os \<Rightarrow> DptyStatus \<Rightarrow> int \<Rightarrow> ('w, unit) thread" where
  "FinishError os status system_error = do {
     lock os;
     upd (\<lambda>s. s\<lparr>s_state := kFinished, s_child_pid := - 1\<rparr>);
     emits (\<lambda>s. Emit s DPTY_EVENT_ERROR 0 None 0 (status_code status) 0 system_error)
   }"

fun wait_child :: "'w os \<Rightarrow> nat \<Rightarrow> pid \<Rightarrow> ('w, unit) thread" where
  "wait_child os 0 child = hang"
| "wait_child os (Suc n) child = do {
     x \<leftarrow> sys (os_waitpid os child);
     if x = Fail EINTR then wait_child os n child
     else do_if ((case x of Ok _ \<Rightarrow> True | Fail _ \<Rightarrow> False)) (emits (\<lambda>_. [SysReap child]))
   }"

definition TerminateAndReap :: "'w os \<Rightarrow> nat \<Rightarrow> int \<Rightarrow> ('w, unit) thread" where
  "TerminateAndReap os fuel signal = do {
     SendToProcessGroups os signal;
     lock os;
     child \<leftarrow> ask s_child_pid;
     do_if (0 < child) (wait_child os fuel child)
   }"

definition CloseDescriptors :: "'w os \<Rightarrow> ('w, unit) thread" where
  "CloseDescriptors os = do {
     descriptor \<leftarrow> ask s_kqueue_fd;
     upd (\<lambda>s. s\<lparr>s_kqueue_fd := - 1\<rparr>);
     do_if (0 \<le> descriptor) (close_fd descriptor);
     exec_error \<leftarrow> ask s_exec_error_fd;
     do_if (0 \<le> exec_error) (do {
       close_fd exec_error;
       upd (\<lambda>s. s\<lparr>s_exec_error_fd := - 1\<rparr>)
     });
     lock os;
     master \<leftarrow> ask s_master_fd;
     upd (\<lambda>s. s\<lparr>s_master_fd := - 1\<rparr>);
     do_if (0 \<le> master) (close_fd master)
   }"

section \<open>The event loop\<close>

definition dispatch :: "'w os \<Rightarrow> nat \<Rightarrow> kevent \<Rightarrow> ('w, unit) thread" where
  "dispatch os fuel ev =
     (case ev of
        KReadReady \<Rightarrow> ReadAvailable os fuel
      | KWriteReady \<Rightarrow> FlushWrites os fuel
      | KProcExit ident hint valid_hint \<Rightarrow> do {
          ObserveProcessExitReady ident hint valid_hint;
          ReapChild os
        }
      | KUser \<Rightarrow> State_Monad.return ())"

fun dispatch_all :: "'w os \<Rightarrow> nat \<Rightarrow> kevent list \<Rightarrow> ('w, unit) thread" where
  "dispatch_all os fuel [] = State_Monad.return ()"
| "dispatch_all os fuel (ev # evs) = do { dispatch os fuel ev; dispatch_all os fuel evs }"

text \<open>One turn of \<open>EventLoop\<close>; the result says whether the loop goes on.\<close>

definition event_turn :: "'w os \<Rightarrow> nat \<Rightarrow> ('w, bool) thread" where
  "event_turn os fuel = do {
     descriptor \<leftarrow> ask s_kqueue_fd;
     x \<leftarrow> sys (os_kevent_wait os descriptor);
     e \<leftarrow> get_errno;
     if (case x of Ok _ \<Rightarrow> False | Fail _ \<Rightarrow> e \<noteq> EINTR) then do {
       TerminateAndReap os fuel SIGKILL;
       e2 \<leftarrow> get_errno;
       FinishError os DPTY_STATUS_SYSTEM_ERROR e2;
       State_Monad.return False
     }
     else do {
       dispatch_all os fuel (case x of Ok evs \<Rightarrow> evs | Fail _ \<Rightarrow> []);
       ProcessControl os fuel;
       retry \<leftarrow> ask s_read_retry_requested;
       do_if retry (ReadAvailable os fuel);
       ReapChild os;
       completed \<leftarrow> ask s_child_completed;
       do_if completed (do {
         ReadAvailable os fuel;
         lock os;
         outstanding_capacity \<leftarrow>
           ask (\<lambda>s. s_read_in_flight_bytes s < read_high_water (s_config s));
         outstanding_empty \<leftarrow> ask (\<lambda>s. s_outstanding s = []);
         eof \<leftarrow> ask s_master_eof;
         do_if ((eof \<or> \<not> outstanding_capacity) \<and> outstanding_empty) (FinishExit os)
       });
       State_Monad.return True
     }
   }"

fun EventLoop :: "'w os \<Rightarrow> nat \<Rightarrow> nat \<Rightarrow> ('w, unit) thread" where
  "EventLoop os fuel 0 = State_Monad.return ()"
| "EventLoop os fuel (Suc turns) = do {
     finished \<leftarrow> ask s_finished_reaping;
     if finished then State_Monad.return ()
     else do {
       continue \<leftarrow> event_turn os fuel;
       do_if continue (EventLoop os fuel turns)
     }
   }"

end
