(* ===== verification/Pty_Spawn.thy ===== *)
theory Pty_Spawn
  imports Pty_Reactor
begin

text \<open>
  Starting the child: \<^verbatim>\<open>PtySpawn.c\<close> (the pipe that reports a failed exec, the
  pseudo-terminal, the fork), \<^verbatim>\<open>PtyExecChild.c\<close> (what the child does up to its exec), and the
  part of \<^verbatim>\<open>PtySession.cc\<close> that runs the reactor's thread from the spawn to its end:
  \<open>CheckExec\<close>, \<open>ConfigureKqueue\<close> and \<open>Run\<close>.
\<close>

section \<open>Descriptors\<close>

abbreviation "FD_CLOEXEC \<equiv> (1::int)"
abbreviation "O_NONBLOCK \<equiv> (4::int)"
abbreviation "STDERR_FILENO \<equiv> (2::int)"

definition succeeded :: "'a sysret \<Rightarrow> bool" where
  "succeeded x = (case x of Ok _ \<Rightarrow> True | Fail _ \<Rightarrow> False)"

definition set_close_on_exec :: "'w os \<Rightarrow> fd \<Rightarrow> ('w, bool) thread" where
  "set_close_on_exec os d = do {
     x \<leftarrow> sys (os_getfd os d);
     case x of
       Fail _ \<Rightarrow> State_Monad.return False
     | Ok flags \<Rightarrow> do {
         y \<leftarrow> sys (os_setfd os d (flags OR FD_CLOEXEC));
         State_Monad.return (succeeded y)
       }
   }"

text \<open>The result is the descriptor to use from now on, and whether the call succeeded.\<close>

definition move_above_standard_descriptors :: "'w os \<Rightarrow> fd \<Rightarrow> ('w, fd \<times> bool) thread" where
  "move_above_standard_descriptors os d =
     (if STDERR_FILENO < d then State_Monad.return (d, True)
      else do {
        x \<leftarrow> sys (os_dupfd_cloexec os d (STDERR_FILENO + 1));
        case x of
          Fail _ \<Rightarrow> State_Monad.return (d, False)
        | Ok moved \<Rightarrow> do {
            emits (\<lambda>_. [SysOpen moved]);
            close_fd d;
            State_Monad.return (moved, True)
          }
      })"

section \<open>The spawn\<close>

record DptyPreparedSpawnConfig =
  sp_executable :: cstring
  sp_argv :: "byte list list option"
  sp_envp :: "byte list list option"
  sp_working_directory :: cstring
  sp_ws_row :: u16
  sp_ws_col :: u16

record DptyPreparedSpawnResult =
  sp_child_pid :: pid
  sp_master_fd :: fd
  sp_exec_error_fd :: fd

definition no_spawn :: DptyPreparedSpawnResult where
  "no_spawn = \<lparr>sp_child_pid = - 1, sp_master_fd = - 1, sp_exec_error_fd = - 1\<rparr>"

text \<open>The chain of four calls that prepares the two ends of the exec-error pipe.\<close>

definition prepare_pipe :: "'w os \<Rightarrow> fd \<Rightarrow> fd \<Rightarrow> ('w, fd \<times> fd \<times> bool) thread" where
  "prepare_pipe os p0 p1 = do {
     (q0, ok0) \<leftarrow> move_above_standard_descriptors os p0;
     if \<not> ok0 then State_Monad.return (q0, p1, False)
     else do {
       (q1, ok1) \<leftarrow> move_above_standard_descriptors os p1;
       if \<not> ok1 then State_Monad.return (q0, q1, False)
       else do {
         ok2 \<leftarrow> set_close_on_exec os q0;
         if \<not> ok2 then State_Monad.return (q0, q1, False)
         else do {
           ok3 \<leftarrow> set_close_on_exec os q1;
           State_Monad.return (q0, q1, ok3)
         }
       }
     }
   }"

definition prepare_master :: "'w os \<Rightarrow> fd \<Rightarrow> ('w, bool) thread" where
  "prepare_master os master = do {
     current \<leftarrow> sys (os_getfl os master);
     ok1 \<leftarrow> set_close_on_exec os master;
     if \<not> ok1 then State_Monad.return False
     else case current of
       Fail _ \<Rightarrow> State_Monad.return False
     | Ok flags \<Rightarrow> do {
         y \<leftarrow> sys (os_setfl os master (flags OR O_NONBLOCK));
         State_Monad.return (succeeded y)
       }
   }"

definition spawn_config_invalid :: "DptyPreparedSpawnConfig \<Rightarrow> bool" where
  "spawn_config_invalid c \<longleftrightarrow> sp_executable c = None \<or> sp_argv c = None \<or> sp_envp c = None \<or>
     sp_ws_row c = 0 \<or> sp_ws_col c = 0"

text \<open>The parent's side; the result is the status, the spawn result and the error number.\<close>

definition dpty_spawn_prepared ::
    "'w os \<Rightarrow> nat \<Rightarrow> DptyPreparedSpawnConfig \<Rightarrow>
     ('w, DptyStatus \<times> DptyPreparedSpawnResult \<times> int) thread" where
  "dpty_spawn_prepared os fuel config =
     (if spawn_config_invalid config
      then State_Monad.return (DPTY_STATUS_INVALID_ARGUMENT, no_spawn, EINVAL)
      else do {
     pipes \<leftarrow> sys (os_pipe os);
     case pipes of
       Fail e \<Rightarrow> State_Monad.return (DPTY_STATUS_SYSTEM_ERROR, no_spawn, e)
     | Ok (a, b) \<Rightarrow> do {
         emits (\<lambda>_. [SysOpen a, SysOpen b]);
         (p0, p1, ok) \<leftarrow> prepare_pipe os a b;
         if \<not> ok then do {
           saved_errno \<leftarrow> get_errno;
           do_if (0 \<le> p0) (close_fd p0);
           do_if (0 \<le> p1) (close_fd p1);
           State_Monad.return (DPTY_STATUS_SYSTEM_ERROR, no_spawn, saved_errno)
         }
         else do {
           forked \<leftarrow> sys (os_forkpty os (sp_ws_row config) (sp_ws_col config));
           case forked of
             Fail saved_errno \<Rightarrow> do {
               close_fd p0;
               close_fd p1;
               State_Monad.return (DPTY_STATUS_SYSTEM_ERROR, no_spawn, saved_errno)
             }
           | Ok (child, master) \<Rightarrow> do {
               emits (\<lambda>_. [SysFork child, SysOpen master]);
               close_fd p1;
               ready \<leftarrow> prepare_master os master;
               if \<not> ready then do {
                 saved_errno \<leftarrow> get_errno;
                 k \<leftarrow> sys (os_kill os child SIGKILL);
                 emits (\<lambda>_. [SysKill child SIGKILL (succeeded k)]);
                 wait_child os fuel child;
                 close_fd master;
                 close_fd p0;
                 State_Monad.return (DPTY_STATUS_SYSTEM_ERROR, no_spawn, saved_errno)
               }
               else State_Monad.return (DPTY_STATUS_OK,
                      \<lparr>sp_child_pid = child, sp_master_fd = master, sp_exec_error_fd = p0\<rparr>, 0)
             }
         }
       }
   })"

section \<open>The child\<close>

text \<open>
  What the child does after the fork: it either becomes the program, or writes its error
  number to the pipe, as the four bytes of an \<open>int\<close>, and exits.
\<close>

datatype child_outcome =
    Execed
  | ChildExit "byte list" int

definition int_bytes :: "int \<Rightarrow> byte list" where
  "int_bytes e = map (\<lambda>i. ucast (drop_bit (8 * i) (word_of_int e :: u32))) [0..<4]"

definition bytes_int :: "byte list \<Rightarrow> int" where
  "bytes_int bs = sint (foldr (\<lambda>b acc. ucast b OR push_bit 8 acc) bs (0 :: u32))"

definition dpty_exec_child ::
    "(byte list \<Rightarrow> unit sysret) \<Rightarrow> (byte list \<Rightarrow> byte list list \<Rightarrow> byte list list \<Rightarrow> int option) \<Rightarrow>
     byte list \<Rightarrow> byte list list \<Rightarrow> byte list list \<Rightarrow> cstring \<Rightarrow> child_outcome" where
  "dpty_exec_child chdir execve exe argv envp directory =
     (case (case directory of None \<Rightarrow> Ok () | Some d \<Rightarrow> chdir d) of
        Fail saved_errno \<Rightarrow> ChildExit (int_bytes saved_errno) 126
      | Ok _ \<Rightarrow>
          (case execve exe argv envp of
             None \<Rightarrow> Execed
           | Some saved_errno \<Rightarrow> ChildExit (int_bytes saved_errno) 127))"

section \<open>Waiting for the exec\<close>

fun poll_exec :: "'w os \<Rightarrow> nat \<Rightarrow> fd \<Rightarrow> ('w, nat sysret) thread" where
  "poll_exec os 0 d = do { hang; State_Monad.return (Fail EINTR) }"
| "poll_exec os (Suc n) d = do {
     x \<leftarrow> sys (os_poll os d 5000);
     if x = Fail EINTR then poll_exec os n d else State_Monad.return x
   }"

fun read_exec :: "'w os \<Rightarrow> nat \<Rightarrow> fd \<Rightarrow> ('w, byte list sysret) thread" where
  "read_exec os 0 d = do { hang; State_Monad.return (Fail EINTR) }"
| "read_exec os (Suc n) d = do {
     x \<leftarrow> sys (os_read os d 4);
     if x = Fail EINTR then read_exec os n d else State_Monad.return x
   }"

text \<open>\<open>None\<close> when the program was executed, and otherwise the error number.\<close>

definition CheckExec :: "'w os \<Rightarrow> nat \<Rightarrow> ('w, int option) thread" where
  "CheckExec os fuel = do {
     d \<leftarrow> ask s_exec_error_fd;
     polled \<leftarrow> poll_exec os fuel d;
     case polled of
       Fail e \<Rightarrow> State_Monad.return (Some e)
     | Ok n \<Rightarrow>
         if n = 0 then State_Monad.return (Some ETIMEDOUT)
         else do {
           x \<leftarrow> read_exec os fuel d;
           close_fd d;
           upd (\<lambda>s. s\<lparr>s_exec_error_fd := - 1\<rparr>);
           State_Monad.return
             (case x of
                Ok bs \<Rightarrow> (if length bs = 4 then Some (bytes_int bs) else None)
              | Fail e \<Rightarrow> Some e)
         }
   }"

definition ConfigureKqueue :: "'w os \<Rightarrow> ('w, int option) thread" where
  "ConfigureKqueue os = do {
     x \<leftarrow> sys (os_kqueue os);
     case x of
       Fail e \<Rightarrow> State_Monad.return (Some e)
     | Ok descriptor \<Rightarrow> do {
         emits (\<lambda>_. [SysOpen descriptor]);
         master \<leftarrow> ask s_master_fd;
         child \<leftarrow> ask s_child_pid;
         y \<leftarrow> sys (os_kevent_register os descriptor master child);
         case y of
           Fail e \<Rightarrow> do { close_fd descriptor; State_Monad.return (Some e) }
         | Ok _ \<Rightarrow> do {
             upd (\<lambda>s. s\<lparr>s_kqueue_fd := descriptor\<rparr>);
             State_Monad.return None
           }
       }
   }"

section \<open>The reactor's thread\<close>

definition spawn_config :: "OwnedConfig \<Rightarrow> DptyPreparedSpawnConfig" where
  "spawn_config c = \<lparr>sp_executable = Some (executable c), sp_argv = Some (arguments c),
     sp_envp = Some (environment c), sp_working_directory = working_directory c,
     sp_ws_row = rows c, sp_ws_col = columns c\<rparr>"

definition abandon :: "'w os \<Rightarrow> nat \<Rightarrow> int \<Rightarrow> ('w, unit) thread" where
  "abandon os fuel system_error = do {
     TerminateAndReap os fuel SIGKILL;
     CloseDescriptors os;
     FinishError os DPTY_STATUS_SYSTEM_ERROR system_error
   }"

definition Run :: "'w os \<Rightarrow> nat \<Rightarrow> nat \<Rightarrow> ('w, unit) thread" where
  "Run os fuel turns = do {
     config \<leftarrow> ask (\<lambda>s. spawn_config (s_config s));
     (status, result, system_error) \<leftarrow> dpty_spawn_prepared os fuel config;
     if status \<noteq> DPTY_STATUS_OK then FinishError os status system_error
     else do {
       lock os;
       upd (\<lambda>s. s\<lparr>s_master_fd := sp_master_fd result, s_child_pid := sp_child_pid result\<rparr>);
       upd (\<lambda>s. s\<lparr>s_exec_error_fd := sp_exec_error_fd result\<rparr>);
       exec_error \<leftarrow> CheckExec os fuel;
       case exec_error of
         Some e \<Rightarrow> abandon os fuel e
       | None \<Rightarrow> do {
           kqueue_error \<leftarrow> ConfigureKqueue os;
           case kqueue_error of
             Some e \<Rightarrow> abandon os fuel e
           | None \<Rightarrow> do {
               emits (\<lambda>s. Emit s DPTY_EVENT_STARTED 0 None 0 (sp_child_pid result) 0 0);
               ProcessControl os fuel;
               EventLoop os fuel turns;
               CloseDescriptors os
             }
         }
     }
   }"

end
