(* ===== verification/Pty_Arguments.thy ===== *)
theory Pty_Arguments
  imports Pty_Snapshot Pty_Spawn
begin

text \<open>
  Two helpers of the foreground job's snapshot: \<open>AbsoluteDeltaMicroseconds\<close>, which converts a
  span of Mach time, and \<open>ReadProcessArguments\<close>, which parses the argument block that the
  kernel keeps of a process. The parser is checked against an encoder of such blocks.
\<close>

section \<open>Spans of Mach time\<close>

text \<open>\<open>None\<close> when the span is not available.\<close>

definition AbsoluteDeltaMicroseconds :: "(u32 \<times> u32) option \<Rightarrow> u64 \<Rightarrow> u64 \<Rightarrow> u64 option" where
  "AbsoluteDeltaMicroseconds timebase from_time to_time =
     (if from_time = 0 \<or> to_time < from_time then None
      else case timebase of
        None \<Rightarrow> None
      | Some (numer, denom) \<Rightarrow>
          if numer = 0 \<or> denom = 0 then None
          else
            (let delta = to_time - from_time;
                 whole = delta div ucast denom;
                 remainder = delta mod ucast denom
             in if (- 1) div ucast numer < whole then None
                else Some ((whole * ucast numer + (remainder * ucast numer) div ucast denom) div 1000)))"

lemma div_split: "0 < d \<Longrightarrow> (D div d) * n + ((D mod d) * n) div d = (D * n) div (d :: nat)"
proof -
  assume d: "0 < d"
  have "D * n = ((D div d) * d + D mod d) * n" by simp
  also have "\<dots> = (D mod d) * n + ((D div d) * n) * d" by (simp only: algebra_simps)
  finally have "(D * n) div d = ((D mod d) * n + ((D div d) * n) * d) div d" by simp
  also have "\<dots> = (D div d) * n + ((D mod d) * n) div d" using d by simp
  finally show ?thesis by simp
qed

lemma unat_ucast_32: "unat (ucast (x :: u32) :: u64) = unat x"
  by (simp add: unat_ucast_u32)

text \<open>The 64-bit computation, on natural numbers: only the last sum can wrap.\<close>

lemma delta_unat:
  assumes "AbsoluteDeltaMicroseconds (Some (numer, denom)) a b = Some r"
  shows "unat r = (unat (b - a) * unat numer div unat denom) mod 2 ^ 64 div 1000"
proof -
  let ?D = "unat (b - a)" let ?n = "unat numer" let ?d = "unat denom"
  let ?w = "(b - a) div ucast denom" let ?m = "(b - a) mod ucast denom"
  from assms have d: "0 < ?d" and n: "0 < ?n" and g: "\<not> (- 1) div ucast numer < ?w"
    and r: "r = (?w * ucast numer + (?m * ucast numer) div ucast denom) div 1000"
    by (auto simp: AbsoluteDeltaMicroseconds_def Let_def unat_gt_0 split: if_splits)
  have w: "unat ?w = ?D div ?d" and m: "unat ?m = ?D mod ?d"
    by (simp_all add: unat_div unat_mod unat_ucast_32)
  have "?D div ?d \<le> (2 ^ 64 - 1) div ?n"
    using g by (simp add: word_less_nat_alt unat_div unat_ucast_32 w unat_neg_1)
  then have "(?D div ?d) * ?n \<le> 2 ^ 64 - 1"
    using n by (metis less_eq_div_iff_mult_less_eq)
  moreover have "?D div ?d < 2 ^ 64"
    using unat_bound [of "b - a"] by (simp add: le_less_trans [OF div_le_dividend])
  ultimately have p: "unat (?w * ucast numer) = (?D div ?d) * ?n"
    by (simp add: unat_word_ariths w unat_ucast_32)
  have "(?D mod ?d) * ?n < 2 ^ 32 * 2 ^ 32"
    using d unat_bound [of denom] unat_bound [of numer]
    by (intro mult_strict_mono) (auto intro: less_trans [OF mod_less_divisor])
  moreover have "?D mod ?d < 2 ^ 64"
    using unat_bound [of "b - a"] by (simp add: le_less_trans [OF mod_less_eq_dividend])
  ultimately have q: "unat ((?m * ucast numer) div ucast denom) = ((?D mod ?d) * ?n) div ?d"
    by (simp add: unat_div unat_word_ariths m unat_ucast_32)
  have sum: "unat (x + y) = (unat x + unat y) mod 2 ^ 64" for x y :: u64
    by (simp add: unat_word_ariths)
  have "unat (?w * ucast numer + (?m * ucast numer) div ucast denom) =
      (?D * ?n div ?d) mod 2 ^ 64"
    unfolding sum p q div_split [OF d] ..
  then show ?thesis by (simp add: r unat_div)
qed

text \<open>
  On the time bases of the Mac (one tick is one nanosecond, or 125/3 of one) the guard keeps
  the sum in range, so the span is exact: the true number of nanoseconds, in microseconds.
\<close>

lemma delta_guard:
  assumes "AbsoluteDeltaMicroseconds (Some (numer, denom)) a b = Some r"
  shows "unat (b - a) div unat denom \<le> (2 ^ 64 - 1) div unat numer"
  using assms
  by (auto simp: AbsoluteDeltaMicroseconds_def Let_def word_less_nat_alt unat_div unat_ucast_32
      unat_neg_1 split: if_splits)

lemma delta_exact:
  assumes tb: "(numer, denom) \<in> {(1, 1), (125, 3)}"
    and r: "AbsoluteDeltaMicroseconds (Some (numer, denom)) a b = Some r"
  shows "unat r = unat (b - a) * unat numer div unat denom div 1000"
proof -
  have "unat (b - a) * unat numer div unat denom < 2 ^ 64"
    using tb delta_guard [OF r] unat_bound [of "b - a"] by (auto simp: div_less_iff_less_mult)
  then show ?thesis using delta_unat [OF r] by simp
qed

text \<open>On another time base the last sum can wrap although the guard let the span through.\<close>

lemma delta_wraps:
  "AbsoluteDeltaMicroseconds (Some (1000000000, 33333335)) 1 614891499877906790 = Some 290448"
  "(614891499877906789 * 1000000000 div 33333335 div 1000 :: nat) = 18446744073999999"
  by (simp_all add: AbsoluteDeltaMicroseconds_def)

section \<open>The four bytes of an int\<close>

lemma bytes_of_word:
  "foldr (\<lambda>b acc. ucast b OR push_bit 8 acc)
     (map (\<lambda>i. ucast (drop_bit (8 * i) w) :: byte) [0..<4]) 0 = (w :: u32)"
proof (rule bit_eqI)
  fix n
  assume "possible_bit TYPE(u32) n"
  then have "n < 32" by simp
  then show "bit (foldr (\<lambda>b acc. ucast b OR push_bit 8 acc)
      (map (\<lambda>i. ucast (drop_bit (8 * i) w) :: byte) [0..<4]) (0 :: u32)) n = bit w n"
    by (cases "n < 8"; cases "n < 16"; cases "n < 24")
      (simp_all add: upt_rec bit_or_iff bit_push_bit_iff bit_unsigned_iff bit_drop_bit_eq, auto)
qed

lemma bytes_int_int_bytes:
  assumes "- (2 ^ 31) \<le> e" "e < 2 ^ 31"
  shows "bytes_int (int_bytes e) = e"
proof -
  have "bytes_int (int_bytes e) = sint (word_of_int e :: u32)"
    unfolding bytes_int_def int_bytes_def bytes_of_word ..
  also have "\<dots> = e" using assms by (simp add: sint_sbintrunc' signed_take_bit_int_eq_self)
  finally show ?thesis .
qed

lemma length_int_bytes [simp]: "length (int_bytes e) = 4"
  by (simp add: int_bytes_def)

section \<open>The argument block\<close>

text \<open>
  What the parser writes into the snapshot. The first \<open>argument_bytes_length\<close> bytes of the
  array \<open>arguments\<close> are \<open>ar_bytes\<close>.
\<close>

record arguments_part =
  ar_error :: int
  ar_truncated :: bool
  ar_count :: nat
  ar_total :: nat
  ar_omitted :: nat
  ar_bytes :: "byte list"

definition no_arguments :: arguments_part where
  "no_arguments = \<lparr>ar_error = 0, ar_truncated = False, ar_count = 0, ar_total = 0, ar_omitted = 0,
     ar_bytes = []\<rparr>"

text \<open>The loop over the retained arguments; \<open>k\<close> of them are still to be read.\<close>

fun read_arguments :: "nat \<Rightarrow> byte list \<Rightarrow> arguments_part \<Rightarrow> arguments_part" where
  "read_arguments 0 cursor out = out"
| "read_arguments (Suc k) cursor out =
     (if cursor = [] then out\<lparr>ar_error := EIO\<rparr>
      else
        (let available = length cursor;
             len = strnlen cursor available
         in if len = available then out\<lparr>ar_error := EIO\<rparr>
            else
              (let retained = min len DPTY_FOREGROUND_SINGLE_ARGUMENT_LIMIT
               in if DPTY_FOREGROUND_ARGUMENT_BYTES_CAPACITY - retained - 1 < length (ar_bytes out)
                  then out\<lparr>ar_truncated := True\<rparr>
                  else read_arguments k (drop (len + 1) cursor)
                    (out\<lparr>ar_bytes := ar_bytes out @ take retained cursor @ [0],
                         ar_count := ar_count out + 1,
                         ar_truncated := (ar_truncated out \<or> retained \<noteq> len)\<rparr>))))"

definition parse_arguments :: "byte list \<Rightarrow> arguments_part" where
  "parse_arguments block =
     (let argc = bytes_int (take 4 block) in
      if argc < 0 then no_arguments\<lparr>ar_error := EIO\<rparr>
      else
        (let out = no_arguments\<lparr>ar_total := nat argc\<rparr>;
             cursor = drop 4 block;
             executable_length = strnlen cursor (length cursor)
         in if executable_length = length cursor then out\<lparr>ar_error := EIO\<rparr>
            else
              (let cursor' = dropWhile (\<lambda>b. b = 0) (drop (executable_length + 1) cursor);
                   out' = read_arguments (min (nat argc) DPTY_FOREGROUND_ARGUMENT_LIMIT) cursor' out
               in out'\<lparr>ar_omitted := ar_total out' - ar_count out',
                       ar_truncated := (ar_truncated out' \<or> ar_count out' < ar_total out')\<rparr>)))"

definition ReadProcessArguments :: "'w probe \<Rightarrow> pid \<Rightarrow> ('w, arguments_part) state" where
  "ReadProcessArguments pr p = do {
     size \<leftarrow> State (pr_procargs_size pr p);
     case size of
       Failed _ \<Rightarrow> State_Monad.return (no_arguments\<lparr>ar_error := errno_or EIO size\<rparr>)
     | Got required \<Rightarrow>
         if required < 4 then State_Monad.return (no_arguments\<lparr>ar_error := EIO\<rparr>)
         else if DPTY_FOREGROUND_ARGUMENT_BYTES_CAPACITY < required
         then State_Monad.return (no_arguments\<lparr>ar_error := E2BIG, ar_truncated := True\<rparr>)
         else do {
           copied \<leftarrow> State (pr_procargs pr p required);
           State_Monad.return
             (case copied of
                Failed _ \<Rightarrow> no_arguments\<lparr>ar_error := errno_or EIO copied\<rparr>
              | Got block \<Rightarrow>
                  if length block < 4 \<or> DPTY_FOREGROUND_ARGUMENT_BYTES_CAPACITY < length block
                  then no_arguments\<lparr>ar_error := EIO\<rparr>
                  else parse_arguments block)
         }
   }"

section \<open>What the parser returns\<close>

text \<open>
  The bytes are the retained arguments, each without a NUL and at most 16384 bytes, each
  followed by its NUL.
\<close>

definition terminated :: "byte list list \<Rightarrow> byte list" where
  "terminated as = concat (map (\<lambda>a. a @ [0]) as)"

definition argument_ok :: "byte list \<Rightarrow> bool" where
  "argument_ok a \<longleftrightarrow> 0 \<notin> set a \<and> length a \<le> DPTY_FOREGROUND_SINGLE_ARGUMENT_LIMIT"

definition arguments_ok :: "arguments_part \<Rightarrow> bool" where
  "arguments_ok out \<longleftrightarrow> length (ar_bytes out) \<le> DPTY_FOREGROUND_ARGUMENT_BYTES_CAPACITY \<and>
     (\<exists>as. ar_bytes out = terminated as \<and> length as = ar_count out \<and> list_all argument_ok as)"

lemma terminated_simps [simp]:
  "terminated [] = []" "terminated (as @ bs) = terminated as @ terminated bs"
  "terminated [a] = a @ [0]"
  by (simp_all add: terminated_def)

lemma arguments_ok_snoc:
  assumes ok: "arguments_ok out" and a: "argument_ok a"
    and room: "length (ar_bytes out) + length a + 1 \<le> DPTY_FOREGROUND_ARGUMENT_BYTES_CAPACITY"
  shows "arguments_ok (out\<lparr>ar_bytes := ar_bytes out @ a @ [0], ar_count := ar_count out + 1,
    ar_truncated := t\<rparr>)"
proof -
  from ok obtain as where "ar_bytes out = terminated as" "length as = ar_count out"
    "list_all argument_ok as"
    by (auto simp: arguments_ok_def)
  then show ?thesis
    using a room by (auto simp: arguments_ok_def intro!: exI [of _ "as @ [a]"])
qed

lemma read_arguments_ok:
  "arguments_ok out \<Longrightarrow> arguments_ok (read_arguments k cursor out) \<and>
     ar_count (read_arguments k cursor out) \<le> ar_count out + k \<and>
     ar_total (read_arguments k cursor out) = ar_total out"
proof (induction k cursor out rule: read_arguments.induct)
  case (2 k cursor out)
  let ?len = "strnlen cursor (length cursor)"
  let ?ret = "min ?len DPTY_FOREGROUND_SINGLE_ARGUMENT_LIMIT"
  let ?out = "out\<lparr>ar_bytes := ar_bytes out @ take ?ret cursor @ [0], ar_count := ar_count out + 1,
    ar_truncated := (ar_truncated out \<or> ?ret \<noteq> ?len)\<rparr>"
  have frame: "arguments_ok (out\<lparr>ar_error := e\<rparr>)" "arguments_ok (out\<lparr>ar_truncated := t\<rparr>)" for e t
    using 2(2) by (simp_all add: arguments_ok_def)
  show ?case
  proof (cases "cursor = [] \<or> ?len = length cursor \<or>
      DPTY_FOREGROUND_ARGUMENT_BYTES_CAPACITY - ?ret - 1 < length (ar_bytes out)")
    case True
    then show ?thesis using frame by (auto simp: Let_def)
  next
    case False
    have "take ?ret cursor = take ?ret (take ?len cursor)" by simp
    then have "0 \<notin> set (take ?ret cursor)" using strnlen_take_nonzero in_set_takeD by metis
    then have "argument_ok (take ?ret cursor)" by (simp add: argument_ok_def)
    moreover have "length (ar_bytes out) + length (take ?ret cursor) + 1 \<le> DPTY_FOREGROUND_ARGUMENT_BYTES_CAPACITY"
      using False by auto
    ultimately have "arguments_ok ?out" using 2(2) by (intro arguments_ok_snoc)
    then show ?thesis using 2(1) [OF _ refl refl _ refl] False by (auto simp: Let_def)
  qed
qed simp

lemma parse_arguments_ok:
  "arguments_ok (parse_arguments block) \<and>
   ar_count (parse_arguments block) \<le> min (ar_total (parse_arguments block)) DPTY_FOREGROUND_ARGUMENT_LIMIT"
proof -
  have start: "arguments_ok (no_arguments\<lparr>ar_total := n\<rparr>)" "arguments_ok (no_arguments\<lparr>ar_error := e\<rparr>)"
    "arguments_ok (no_arguments\<lparr>ar_total := n, ar_error := e\<rparr>)" for n e
    by (auto simp: arguments_ok_def no_arguments_def)
  note r = read_arguments_ok [OF start(1)]
  show ?thesis
    using r [of "min (nat (bytes_int (take 4 block))) DPTY_FOREGROUND_ARGUMENT_LIMIT"
        "dropWhile (\<lambda>b. b = 0) (drop (strnlen (drop 4 block) (length (drop 4 block)) + 1) (drop 4 block))"
        "nat (bytes_int (take 4 block))"] start
    by (simp add: parse_arguments_def Let_def arguments_ok_def no_arguments_def)
qed

section \<open>Reading back an encoded block\<close>

text \<open>
  The block the kernel hands out: the count, the path of the executable, padding, the
  arguments and then the environment.
\<close>

definition encode_block :: "byte list \<Rightarrow> nat \<Rightarrow> byte list list \<Rightarrow> byte list \<Rightarrow> byte list" where
  "encode_block exe padding as env =
     int_bytes (int (length as)) @ exe @ 0 # replicate padding 0 @ terminated as @ env"

lemma terminated_Cons: "terminated (a # as) @ rest = a @ 0 # (terminated as @ rest)"
  by (simp add: terminated_def)

lemma read_arguments_terminated:
  "list_all argument_ok as \<Longrightarrow>
   length (ar_bytes out) + length (terminated as) \<le> DPTY_FOREGROUND_ARGUMENT_BYTES_CAPACITY \<Longrightarrow>
   read_arguments (length as) (terminated as @ rest) out =
     out\<lparr>ar_bytes := ar_bytes out @ terminated as, ar_count := ar_count out + length as\<rparr>"
proof (induction as arbitrary: out)
  case (Cons a as)
  let ?t = "terminated as @ rest"
  let ?c = "a @ 0 # ?t"
  have a: "0 \<notin> set a" "length a \<le> DPTY_FOREGROUND_SINGLE_ARGUMENT_LIMIT"
    using Cons.prems(1) by (simp_all add: argument_ok_def)
  have len: "strnlen ?c (length ?c) = length a" by (rule strnlen_nul [OF a(1)]) simp
  have room: "length (ar_bytes out) + length a + 1 + length (terminated as) \<le>
      DPTY_FOREGROUND_ARGUMENT_BYTES_CAPACITY"
    using Cons.prems(2) by (simp add: terminated_def)
  have min: "min (length a) DPTY_FOREGROUND_SINGLE_ARGUMENT_LIMIT = length a" using a(2) by simp
  let ?out = "out\<lparr>ar_bytes := ar_bytes out @ a @ [0], ar_count := ar_count out + 1\<rparr>"
  have "read_arguments (Suc (length as)) ?c out = read_arguments (length as) ?t ?out"
    using room by (simp add: Let_def len [simplified] min)
  also have "\<dots> = ?out\<lparr>ar_bytes := ar_bytes ?out @ terminated as, ar_count := ar_count ?out + length as\<rparr>"
    using Cons.prems(1) room by (intro Cons.IH) simp_all
  finally show ?case by (simp add: terminated_Cons) (simp add: terminated_def)
qed simp

lemma dropWhile_padding:
  "as \<noteq> [] \<Longrightarrow> hd as \<noteq> [] \<Longrightarrow> argument_ok (hd as) \<Longrightarrow>
   dropWhile (\<lambda>b. b = 0) (replicate n 0 @ terminated as @ rest) = terminated as @ rest"
proof (induction n)
  case 0
  then obtain a as' where as: "as = a # as'" "a \<noteq> []" "0 \<notin> set a" by (cases as) (auto simp: argument_ok_def)
  then obtain b a' where "a = b # a'" "b \<noteq> 0" by (cases a) auto
  then show ?case by (simp add: as(1) terminated_Cons)
qed simp

lemma parse_encoded:
  assumes exe: "0 \<notin> set exe" and ok: "list_all argument_ok as"
    and limit: "length as \<le> DPTY_FOREGROUND_ARGUMENT_LIMIT"
    and room: "length (terminated as) \<le> DPTY_FOREGROUND_ARGUMENT_BYTES_CAPACITY"
    and first: "as \<noteq> [] \<longrightarrow> hd as \<noteq> []"
  shows "parse_arguments (encode_block exe padding as env) =
    \<lparr>ar_error = 0, ar_truncated = False, ar_count = length as, ar_total = length as,
     ar_omitted = 0, ar_bytes = terminated as\<rparr>"
proof -
  let ?block = "encode_block exe padding as env"
  have argc: "bytes_int (take 4 ?block) = int (length as)"
    using bytes_int_int_bytes [of "int (length as)"] limit by (simp add: encode_block_def)
  have cursor: "drop 4 ?block = exe @ 0 # (replicate padding 0 @ terminated as @ env)"
    by (simp add: encode_block_def)
  have len: "strnlen (drop 4 ?block) (length (drop 4 ?block)) = length exe"
    unfolding cursor by (rule strnlen_nul [OF exe]) simp
  have rest: "drop (length exe + 1) (drop 4 ?block) = replicate padding 0 @ terminated as @ env"
    by (simp add: cursor)
  have read: "read_arguments (length as) (dropWhile (\<lambda>b. b = 0) (replicate padding 0 @ terminated as @ env))
      (no_arguments\<lparr>ar_total := length as\<rparr>) =
    (no_arguments\<lparr>ar_total := length as\<rparr>)\<lparr>ar_bytes := terminated as, ar_count := length as\<rparr>"
  proof (cases as)
    case (Cons a as')
    then have "dropWhile (\<lambda>b. b = 0) (replicate padding 0 @ terminated as @ env) = terminated as @ env"
      using first ok by (intro dropWhile_padding) auto
    then show ?thesis
      using read_arguments_terminated [OF ok, of "no_arguments\<lparr>ar_total := length as\<rparr>" env] room
      by (simp add: no_arguments_def)
  qed (simp add: no_arguments_def)
  have "length exe \<noteq> length (drop 4 ?block)" by (simp add: cursor)
  then show ?thesis
    using limit unfolding parse_arguments_def Let_def argc len rest
    by (simp add: read) (simp add: no_arguments_def)
qed

text \<open>
  An empty first argument is taken for padding, so the block is read one string too far: the
  last "argument" is the first string of the environment.
\<close>

lemma encode_empty_first:
  "encode_block exe padding ([] # as) (terminated [e] @ rest) =
   encode_block exe (Suc padding) (as @ [e]) rest"
  by (simp add: encode_block_def terminated_def replicate_append_same [symmetric])

lemma parse_leaks_environment:
  assumes "0 \<notin> set exe" "list_all argument_ok (as @ [e])"
    "length as < DPTY_FOREGROUND_ARGUMENT_LIMIT"
    "length (terminated (as @ [e])) \<le> DPTY_FOREGROUND_ARGUMENT_BYTES_CAPACITY"
    "hd (as @ [e]) \<noteq> []"
  shows "ar_bytes (parse_arguments (encode_block exe padding ([] # as) (terminated [e] @ rest))) =
    terminated (as @ [e])"
  unfolding encode_empty_first using assms by (subst parse_encoded) simp_all

end
