(* ===== verification/Pty_Foreground.thy ===== *)
theory Pty_Foreground
  imports Pty_Arguments "HOL-Library.Product_Lexorder" "HOL-Library.Multiset"
begin

text \<open>
  \<open>GetForegroundJobSnapshot\<close>: who runs in the foreground of the terminal, when that is not
  the session's own shell. The caller's thread holds the mutex twice, at the start and for
  the check at the end that the answer is not stale; in between, the session is free. So the
  operation takes the session as it is at the two critical sections, which are arbitrary,
  and the kernel's answers from the probe, in the order the code asks for them. The faults
  that test builds inject are left out.
\<close>

section \<open>Data\<close>

datatype DptyForegroundJobDisposition =
    DPTY_FOREGROUND_JOB_AVAILABLE
  | DPTY_FOREGROUND_JOB_NOT_DISTINCT
  | DPTY_FOREGROUND_JOB_UNAVAILABLE
  | DPTY_FOREGROUND_JOB_STALE
  | DPTY_FOREGROUND_JOB_EXITED

primrec disposition_code :: "DptyForegroundJobDisposition \<Rightarrow> u32" where
  "disposition_code DPTY_FOREGROUND_JOB_AVAILABLE = 1"
| "disposition_code DPTY_FOREGROUND_JOB_NOT_DISTINCT = 2"
| "disposition_code DPTY_FOREGROUND_JOB_UNAVAILABLE = 3"
| "disposition_code DPTY_FOREGROUND_JOB_STALE = 4"
| "disposition_code DPTY_FOREGROUND_JOB_EXITED = 5"

record DptyForegroundProcessV1 =
  m_pid :: pid
  m_start_time_seconds :: u64
  m_start_time_microseconds :: u32
  m_start_absolute_time :: u64
  m_elapsed_microseconds :: u64
  m_information_error :: int
  m_resource_usage_error :: int
  m_name :: "byte list"

record DptyForegroundJobSnapshotV1 =
  fj_disposition :: DptyForegroundJobDisposition
  fj_child_pid :: pid
  fj_owning_process_group :: pid
  fj_foreground_process_group :: pid
  fj_sampled_absolute_time :: u64
  fj_job_elapsed_microseconds :: u64
  fj_total_member_count :: nat
  fj_omitted_member_count :: nat
  fj_member_issue_count :: nat
  fj_primary_index :: int
  fj_observation_error :: int
  fj_executable_path_error :: int
  fj_has_exited :: int
  fj_executable_path :: "byte list"
  fj_arguments :: arguments_part
  fj_members :: "DptyForegroundProcessV1 list"

definition foreground_process_layout :: "nat list" where
  "foreground_process_layout =
     [8, 8, 4, 8, 8, 8, 4, 4] @ replicate DPTY_FOREGROUND_PROCESS_NAME_CAPACITY 1"

definition foreground_job_layout :: "nat list" where
  "foreground_job_layout =
     [8, 4, 4, 8, 8, 8, 8, 8, 4, 4, 4, 4, 4, 4, 4, 4, 4, 4, 4, 4, 4, 8, 8] @
     concat (replicate DPTY_FOREGROUND_PROCESS_LIMIT foreground_process_layout) @
     replicate DPTY_FOREGROUND_EXECUTABLE_PATH_CAPACITY 1 @
     replicate DPTY_FOREGROUND_ARGUMENT_BYTES_CAPACITY 1"

definition InitializeForegroundJobSnapshot :: DptyForegroundJobSnapshotV1 where
  "InitializeForegroundJobSnapshot =
     \<lparr>fj_disposition = DPTY_FOREGROUND_JOB_UNAVAILABLE, fj_child_pid = 0,
      fj_owning_process_group = 0, fj_foreground_process_group = 0,
      fj_sampled_absolute_time = 0, fj_job_elapsed_microseconds = 0,
      fj_total_member_count = 0, fj_omitted_member_count = 0, fj_member_issue_count = 0,
      fj_primary_index = - 1, fj_observation_error = 0, fj_executable_path_error = 0,
      fj_has_exited = 0, fj_executable_path = [], fj_arguments = no_arguments,
      fj_members = []\<rparr>"

definition ClearForegroundJobContent :: "DptyForegroundJobSnapshotV1 \<Rightarrow> DptyForegroundJobSnapshotV1" where
  "ClearForegroundJobContent out = out
     \<lparr>fj_members := [], fj_executable_path := [], fj_arguments := no_arguments,
      fj_sampled_absolute_time := 0, fj_job_elapsed_microseconds := 0,
      fj_total_member_count := 0, fj_omitted_member_count := 0, fj_member_issue_count := 0,
      fj_primary_index := - 1, fj_executable_path_error := 0\<rparr>"

section \<open>Collecting the members\<close>

abbreviation "PBI_COMM_SIZE \<equiv> (16 :: nat)"
abbreviation "PBI_NAME_SIZE \<equiv> (32 :: nat)"

definition starts_with_nul :: "byte list \<Rightarrow> bool" where
  "starts_with_nul bs = (case bs of [] \<Rightarrow> True | b # _ \<Rightarrow> b = 0)"

definition member_name :: "bsdinfo \<Rightarrow> byte list" where
  "member_name info =
     (if starts_with_nul (pbi_name info)
      then take (min (strnlen (pbi_comm info) PBI_COMM_SIZE) (DPTY_FOREGROUND_PROCESS_NAME_CAPACITY - 1))
             (pbi_comm info)
      else take (min (strnlen (pbi_name info) PBI_NAME_SIZE) (DPTY_FOREGROUND_PROCESS_NAME_CAPACITY - 1))
             (pbi_name info))"

definition new_member :: "pid \<Rightarrow> bsdinfo \<Rightarrow> u64 answer \<Rightarrow> DptyForegroundProcessV1" where
  "new_member p info usage =
     \<lparr>m_pid = p, m_start_time_seconds = pbi_start_tvsec info,
      m_start_time_microseconds = ucast (pbi_start_tvusec info),
      m_start_absolute_time = (case usage of Got t \<Rightarrow> t | Failed _ \<Rightarrow> 0),
      m_elapsed_microseconds = 0, m_information_error = 0,
      m_resource_usage_error =
        (case usage of Got t \<Rightarrow> (if t \<noteq> 0 then 0 else EIO) | Failed _ \<Rightarrow> errno_or EIO usage),
      m_name = member_name info\<rparr>"

text \<open>The members so far and the number of processes that could not be identified.\<close>

definition append_member ::
    "'w probe \<Rightarrow> pid \<Rightarrow> pid \<Rightarrow> DptyForegroundProcessV1 list \<times> nat \<Rightarrow>
     ('w, DptyForegroundProcessV1 list \<times> nat) state" where
  "append_member pr foreground_group p acc =
     (case acc of (members, issues) \<Rightarrow>
       if p \<le> 0 \<or> DPTY_FOREGROUND_PROCESS_LIMIT \<le> length members \<or> p \<in> m_pid ` set members
       then State_Monad.return (members, issues)
       else do {
         information \<leftarrow> State (pr_bsdinfo pr p);
         case information of
           Failed _ \<Rightarrow> State_Monad.return (members, issues + 1)
         | Got info \<Rightarrow>
             if pbi_pgid info \<noteq> word_of_int foreground_group
             then State_Monad.return (members, issues + 1)
             else do {
               usage \<leftarrow> State (pr_start_abstime pr p);
               State_Monad.return (members @ [new_member p info usage], issues)
             }
       })"

fun append_listed ::
    "'w probe \<Rightarrow> pid \<Rightarrow> pid list \<Rightarrow> DptyForegroundProcessV1 list \<times> nat \<Rightarrow>
     ('w, DptyForegroundProcessV1 list \<times> nat) state" where
  "append_listed pr foreground_group [] acc = State_Monad.return acc"
| "append_listed pr foreground_group (p # ps) acc = do {
     acc' \<leftarrow> (if p \<noteq> foreground_group then append_member pr foreground_group p acc
             else State_Monad.return acc);
     append_listed pr foreground_group ps acc'
   }"

text \<open>The result: the error of the observation, the members, the issues and the listed total.\<close>

definition list_members ::
    "'w probe \<Rightarrow> pid \<Rightarrow> ('w, int \<times> DptyForegroundProcessV1 list \<times> nat \<times> nat) state" where
  "list_members pr foreground_group = do {
     hint \<leftarrow> State (pr_group_size pr foreground_group);
     case hint of
       Failed _ \<Rightarrow> State_Monad.return (errno_or EIO hint, [], 0, 0)
     | Got n \<Rightarrow>
         if kMaximumForegroundProcessScan - DPTY_FOREGROUND_PROCESS_LIMIT < n
         then State_Monad.return (E2BIG, [], 0, 0)
         else do {
           let scan_capacity = max (DPTY_FOREGROUND_PROCESS_LIMIT + 1) (n + DPTY_FOREGROUND_PROCESS_LIMIT);
           allocated \<leftarrow> State (pr_alloc pr scan_capacity);
           if \<not> allocated then State_Monad.return (ENOMEM, [], 0, 0)
           else do {
             listed \<leftarrow> State (pr_group_pids pr foreground_group scan_capacity);
             case listed of
               Failed _ \<Rightarrow> State_Monad.return (errno_or EIO listed, [], 0, 0)
             | Got pids \<Rightarrow>
                 if length pids = scan_capacity then State_Monad.return (EOVERFLOW, [], 0, 0)
                 else do {
                   first \<leftarrow> append_member pr foreground_group foreground_group ([], 0);
                   (members, issues) \<leftarrow> append_listed pr foreground_group pids first;
                   State_Monad.return
                     (if members = [] then ESRCH else 0, members, issues,
                      max (length pids) (length members + issues))
                 }
           }
         }
   }"

section \<open>The primary member and the order of the rest\<close>

definition better :: "DptyForegroundProcessV1 \<Rightarrow> DptyForegroundProcessV1 \<Rightarrow> bool" where
  "better candidate selected \<longleftrightarrow>
     (m_start_absolute_time candidate \<noteq> 0 \<and> m_start_absolute_time selected = 0) \<or>
     (m_start_absolute_time candidate \<noteq> 0 \<and> m_start_absolute_time selected \<noteq> 0 \<and>
      m_start_absolute_time candidate < m_start_absolute_time selected) \<or>
     (m_start_absolute_time candidate = m_start_absolute_time selected \<and>
      m_pid candidate < m_pid selected)"

fun select_primary :: "pid \<Rightarrow> DptyForegroundProcessV1 list \<Rightarrow> nat list \<Rightarrow> nat \<Rightarrow> nat" where
  "select_primary foreground_group members [] primary = primary"
| "select_primary foreground_group members (i # is) primary =
     (if m_pid (members ! i) = foreground_group then i
      else select_primary foreground_group members is
             (if better (members ! i) (members ! primary) then i else primary))"

text \<open>The comparator of the sort, and the key that it compares.\<close>

definition process_before :: "DptyForegroundProcessV1 \<Rightarrow> DptyForegroundProcessV1 \<Rightarrow> bool" where
  "process_before left right =
     (if (m_start_absolute_time left \<noteq> 0) \<noteq> (m_start_absolute_time right \<noteq> 0)
      then m_start_absolute_time left \<noteq> 0
      else if m_start_absolute_time left \<noteq> m_start_absolute_time right
      then m_start_absolute_time left < m_start_absolute_time right
      else m_pid left < m_pid right)"

definition process_key :: "DptyForegroundProcessV1 \<Rightarrow> bool \<times> u64 \<times> int" where
  "process_key m = (m_start_absolute_time m = 0, m_start_absolute_time m, m_pid m)"

lemma process_before_key: "process_before a b \<longleftrightarrow> process_key a < process_key b"
  by (auto simp: process_before_def process_key_def less_prod_def')

lemma better_before: "better a b \<longleftrightarrow> process_before a b"
  by (auto simp: better_def process_before_def)

definition swap_first :: "'a list \<Rightarrow> nat \<Rightarrow> 'a list" where
  "swap_first xs i = (if i = 0 then xs else xs[0 := xs ! i, i := xs ! 0])"

definition arrange :: "pid \<Rightarrow> DptyForegroundProcessV1 list \<Rightarrow> DptyForegroundProcessV1 list" where
  "arrange foreground_group members =
     (case swap_first members (select_primary foreground_group members [0..<length members] 0) of
        [] \<Rightarrow> []
      | primary # rest \<Rightarrow> primary # (if 2 < length members then sort_key process_key rest else rest))"

section \<open>Elapsed times\<close>

definition elapse :: "'w probe \<Rightarrow> u64 \<Rightarrow> DptyForegroundProcessV1 \<Rightarrow> DptyForegroundProcessV1" where
  "elapse pr sampled m =
     (if m_start_absolute_time m = 0 then m
      else case AbsoluteDeltaMicroseconds (pr_timebase pr) (m_start_absolute_time m) sampled of
        None \<Rightarrow> m\<lparr>m_elapsed_microseconds := 0, m_resource_usage_error := ERANGE,
                  m_start_absolute_time := 0\<rparr>
      | Some e \<Rightarrow> m\<lparr>m_elapsed_microseconds := e\<rparr>)"

fun earliest_start :: "DptyForegroundProcessV1 list \<Rightarrow> u64 \<Rightarrow> u64" where
  "earliest_start [] earliest = earliest"
| "earliest_start (m # ms) earliest =
     earliest_start ms
       (if m_start_absolute_time m = 0 then earliest
        else if earliest = 0 \<or> m_start_absolute_time m < earliest
        then m_start_absolute_time m else earliest)"

definition job_elapsed :: "'w probe \<Rightarrow> u64 \<Rightarrow> u64 \<Rightarrow> u64" where
  "job_elapsed pr sampled earliest =
     (if earliest = 0 then 0
      else case AbsoluteDeltaMicroseconds (pr_timebase pr) earliest sampled of
        None \<Rightarrow> 0 | Some e \<Rightarrow> e)"

section \<open>The snapshot\<close>

abbreviation "PROC_PIDPATHINFO_MAXSIZE \<equiv> (4096 :: nat)"

definition path_result :: "byte list answer \<Rightarrow> int \<times> byte list" where
  "path_result path =
     (case path of
        Failed _ \<Rightarrow> (errno_or EIO path, [])
      | Got p \<Rightarrow>
          (let len = strnlen p PROC_PIDPATHINFO_MAXSIZE in
           if len = PROC_PIDPATHINFO_MAXSIZE \<or> DPTY_FOREGROUND_EXECUTABLE_PATH_CAPACITY \<le> len
           then (ENAMETOOLONG, []) else (0, take len p)))"

text \<open>What is known of the primary member.\<close>

definition describe_primary ::
    "'w probe \<Rightarrow> DptyForegroundProcessV1 list \<Rightarrow> ('w, (int \<times> byte list) \<times> arguments_part) state" where
  "describe_primary pr members =
     (case members of
        [] \<Rightarrow> State_Monad.return ((0, []), no_arguments)
      | primary # _ \<Rightarrow> do {
          path \<leftarrow> State (pr_pidpath pr (m_pid primary));
          args \<leftarrow> ReadProcessArguments pr (m_pid primary);
          State_Monad.return (path_result path, args)
        })"

text \<open>The job between the two critical sections.\<close>

definition observe_job ::
    "'w probe \<Rightarrow> pid \<Rightarrow> DptyForegroundJobSnapshotV1 \<Rightarrow> ('w, DptyForegroundJobSnapshotV1) state" where
  "observe_job pr foreground_group out = do {
     (e, listed, issues, n) \<leftarrow> list_members pr foreground_group;
     let members = arrange foreground_group listed;
     (path, args) \<leftarrow> describe_primary pr members;
     sampled \<leftarrow> State (pr_absolute_time pr);
     let members' = map (elapse pr sampled) members;
     State_Monad.return (out
       \<lparr>fj_observation_error := e, fj_members := members',
        fj_member_issue_count := issues, fj_total_member_count := n,
        fj_omitted_member_count := n - length listed,
        fj_primary_index := (if listed = [] then - 1 else 0),
        fj_executable_path_error := fst path, fj_executable_path := snd path,
        fj_arguments := args, fj_sampled_absolute_time := sampled,
        fj_job_elapsed_microseconds := job_elapsed pr sampled (earliest_start members' 0)\<rparr>)
   }"

definition positive :: "int answer \<Rightarrow> int option" where
  "positive x = (case x of Got g \<Rightarrow> (if 0 < g then Some g else None) | Failed _ \<Rightarrow> None)"

definition group_value :: "int answer \<Rightarrow> int" where
  "group_value x = (case x of Got g \<Rightarrow> g | Failed _ \<Rightarrow> - 1)"

text \<open>The check at the end, on the session as it is then.\<close>

definition still_current ::
    "'w probe \<Rightarrow> session \<Rightarrow> pid \<Rightarrow> pid \<Rightarrow> pid \<Rightarrow> ('w, bool) state" where
  "still_current pr s child owning foreground = do {
     current_owning \<leftarrow> (if 0 < s_child_pid s
       then do { x \<leftarrow> State (pr_getpgid pr (s_child_pid s)); State_Monad.return (group_value x) }
       else State_Monad.return (- 1));
     current_foreground \<leftarrow> (if 0 \<le> s_master_fd s
       then do { x \<leftarrow> State (pr_tcgetpgrp pr (s_master_fd s)); State_Monad.return (group_value x) }
       else State_Monad.return (- 1));
     State_Monad.return (s_state s = kRunning \<and> s_child_pid s = child \<and>
       current_owning = owning \<and> current_foreground = foreground)
   }"

definition discard :: "bool \<Rightarrow> DptyForegroundJobSnapshotV1 \<Rightarrow> DptyForegroundJobSnapshotV1" where
  "discard exited out = (ClearForegroundJobContent out)
     \<lparr>fj_has_exited := (if exited then 1 else 0),
      fj_disposition := (if exited then DPTY_FOREGROUND_JOB_EXITED else DPTY_FOREGROUND_JOB_STALE),
      fj_observation_error := (if exited then ENXIO else ESTALE)\<rparr>"

definition conclude :: "bool \<Rightarrow> bool \<Rightarrow> DptyForegroundJobSnapshotV1 \<Rightarrow> DptyForegroundJobSnapshotV1" where
  "conclude current exited out =
     (if \<not> current then discard exited out
      else out\<lparr>fj_disposition :=
        (if fj_members out = [] then DPTY_FOREGROUND_JOB_UNAVAILABLE
         else DPTY_FOREGROUND_JOB_AVAILABLE)\<rparr>)"

definition begin_snapshot :: "session \<Rightarrow> DptyForegroundJobSnapshotV1" where
  "begin_snapshot s = InitializeForegroundJobSnapshot
     \<lparr>fj_has_exited := (if s_state s = kFinished then 1 else 0),
      fj_child_pid := (if 0 < s_child_pid s then s_child_pid s else 0)\<rparr>"

definition GetForegroundJobSnapshot ::
    "'w probe \<Rightarrow> (nat \<times> u32) option \<Rightarrow> session \<Rightarrow> session \<Rightarrow>
     ('w, DptyError + DptyForegroundJobSnapshotV1) state" where
  "GetForegroundJobSnapshot pr buffer s s' =
     (if \<not> compatible (struct_sizeof foreground_job_layout) buffer
      then State_Monad.return (Inl (SetError DPTY_STATUS_INVALID_ARGUMENT EINVAL
             ''PTY foreground job snapshot buffer is incompatible''))
      else if s_state s \<noteq> kRunning \<or> s_child_pid s \<le> 0 \<or> s_master_fd s < 0
      then State_Monad.return (Inr ((begin_snapshot s)
        \<lparr>fj_disposition := (if s_state s = kFinished then DPTY_FOREGROUND_JOB_EXITED
                           else DPTY_FOREGROUND_JOB_UNAVAILABLE),
         fj_observation_error := ENXIO\<rparr>))
      else do {
        owner \<leftarrow> State (pr_getpgid pr (s_child_pid s));
        case positive owner of
          None \<Rightarrow> State_Monad.return (Inr ((begin_snapshot s)
            \<lparr>fj_observation_error := errno_or ESRCH owner\<rparr>))
        | Some owning \<Rightarrow> do {
            front \<leftarrow> State (pr_tcgetpgrp pr (s_master_fd s));
            case positive front of
              None \<Rightarrow> State_Monad.return (Inr ((begin_snapshot s)
                \<lparr>fj_observation_error := errno_or ENOTTY front\<rparr>))
            | Some foreground \<Rightarrow>
                if foreground = owning
                then State_Monad.return (Inr ((begin_snapshot s)
                  \<lparr>fj_owning_process_group := owning, fj_foreground_process_group := foreground,
                   fj_disposition := DPTY_FOREGROUND_JOB_NOT_DISTINCT\<rparr>))
                else do {
                  out \<leftarrow> observe_job pr foreground ((begin_snapshot s)
                    \<lparr>fj_owning_process_group := owning, fj_foreground_process_group := foreground\<rparr>);
                  current \<leftarrow> still_current pr s' (s_child_pid s) owning foreground;
                  State_Monad.return (Inr (conclude current (s_state s' = kFinished) out))
                }
          }
      })"

section \<open>The primary member leads, the rest are in order\<close>

lemma select_primary_ok:
  assumes "primary < length ms" "\<forall>i \<in> set is. i < length ms"
  shows "select_primary g ms is primary < length ms \<and>
    (if \<exists>i \<in> set is. m_pid (ms ! i) = g then m_pid (ms ! select_primary g ms is primary) = g
     else \<forall>i \<in> insert primary (set is).
       process_key (ms ! select_primary g ms is primary) \<le> process_key (ms ! i))"
  using assms
proof (induction "is" arbitrary: primary)
  case (Cons i "is")
  show ?case
  proof (cases "m_pid (ms ! i) = g")
    case False
    let ?p = "if better (ms ! i) (ms ! primary) then i else primary"
    have "?p < length ms" using Cons.prems by simp
    note IH = Cons.IH [OF this]
    have step: "process_key (ms ! ?p) \<le> process_key (ms ! i)"
      "process_key (ms ! ?p) \<le> process_key (ms ! primary)"
      by (auto simp: better_before process_before_key)
    have "select_primary g ms (i # is) primary = select_primary g ms is ?p" using False by simp
    then show ?thesis
      using IH Cons.prems False step by (auto intro: order_trans)
  qed (use Cons.prems in auto)
qed simp

lemma mset_swap_first: "i < length xs \<Longrightarrow> mset (swap_first xs i) = mset xs"
proof -
  assume i: "i < length xs"
  then have "0 < length xs" by linarith
  from mset_swap [OF i this] show ?thesis by (simp only: swap_first_def split: if_split) blast
qed

lemma hd_swap_first: "i < length xs \<Longrightarrow> hd (swap_first xs i) = xs ! i"
  by (cases xs) (simp_all add: swap_first_def split: nat.split)

lemma length_swap_first [simp]: "length (swap_first xs i) = length xs"
  by (simp add: swap_first_def)

text \<open>
  The leader of the group comes first when it is among the members, and otherwise the
  member with the least key; the rest is sorted by the key, and nobody is lost.
\<close>

lemma arrange_ok:
  assumes "ms \<noteq> []"
  shows "mset (arrange g ms) = mset ms"
    "sorted (map process_key (tl (arrange g ms)))"
    "if g \<in> m_pid ` set ms then m_pid (hd (arrange g ms)) = g
     else \<forall>m \<in> set ms. process_key (hd (arrange g ms)) \<le> process_key m"
proof -
  let ?p = "select_primary g ms [0..<length ms] 0"
  have sp: "?p < length ms \<and>
    (if \<exists>i \<in> set [0..<length ms]. m_pid (ms ! i) = g then m_pid (ms ! ?p) = g
     else \<forall>i \<in> insert 0 (set [0..<length ms]). process_key (ms ! ?p) \<le> process_key (ms ! i))"
    by (rule select_primary_ok) (use assms in simp_all)
  then have sel: "?p < length ms" by blast
  have leader: "m_pid (ms ! ?p) = g" if "g \<in> m_pid ` set ms"
  proof -
    from that obtain i where "i < length ms" "m_pid (ms ! i) = g" by (auto simp: in_set_conv_nth)
    then have "\<exists>i \<in> set [0..<length ms]. m_pid (ms ! i) = g" by auto
    with sp show ?thesis by (simp only: if_True)
  qed
  have least: "process_key (ms ! ?p) \<le> process_key m" if outside: "g \<notin> m_pid ` set ms" and mem: "m \<in> set ms" for m
  proof -
    have "\<not> (\<exists>i \<in> set [0..<length ms]. m_pid (ms ! i) = g)"
      using outside nth_mem by fastforce
    with sp have all: "\<forall>i \<in> insert 0 (set [0..<length ms]). process_key (ms ! ?p) \<le> process_key (ms ! i)"
      by (simp only: if_False) blast
    obtain i where i: "i < length ms" "m = ms ! i" using mem by (auto simp: in_set_conv_nth)
    then have "i \<in> insert 0 (set [0..<length ms])" by simp
    with all show ?thesis unfolding i(2) by (rule bspec)
  qed
  have "swap_first ms ?p \<noteq> []" using assms by (simp add: swap_first_def)
  then obtain q rest where sw: "swap_first ms ?p = q # rest" by (cases "swap_first ms ?p") auto
  have arr: "arrange g ms = q # (if 2 < length ms then sort_key process_key rest else rest)"
    by (simp add: arrange_def sw)
  have q: "q = ms ! ?p" using hd_swap_first [OF sel] sw by simp
  have len: "length ms = Suc (length rest)"
    using sw length_swap_first [of ms ?p] by simp
  show "mset (arrange g ms) = mset ms"
    using mset_swap_first [OF sel] by (simp add: arr sw)
  show "sorted (map process_key (tl (arrange g ms)))"
  proof (cases "2 < length ms")
    case False
    then have "length rest \<le> 1" using len by simp
    then have "rest = [] \<or> (\<exists>x. rest = [x])" by (cases rest) auto
    then show ?thesis using False by (auto simp: arr)
  qed (simp add: arr)
  show "if g \<in> m_pid ` set ms then m_pid (hd (arrange g ms)) = g
     else \<forall>m \<in> set ms. process_key (hd (arrange g ms)) \<le> process_key m"
    using leader least by (auto simp: arr q)
qed

lemma arrange_Nil [simp]: "arrange g [] = []"
  by (simp add: arrange_def swap_first_def)

lemma arrange_eq_Nil [simp]: "arrange g ms = [] \<longleftrightarrow> ms = []"
proof
  assume "arrange g ms = []"
  then show "ms = []" using arrange_ok(1) [of ms g] by (cases "ms = []") simp_all
qed simp

section \<open>What a snapshot promises\<close>

definition members_ok :: "DptyForegroundProcessV1 list \<Rightarrow> bool" where
  "members_ok ms \<longleftrightarrow> length ms \<le> DPTY_FOREGROUND_PROCESS_LIMIT \<and> distinct (map m_pid ms) \<and>
     (\<forall>m \<in> set ms. 0 < m_pid m)"

lemma members_ok_mset: "mset ms = mset ns \<Longrightarrow> members_ok ms = members_ok ns"
proof -
  assume m: "mset ms = mset ns"
  then have "mset (map m_pid ms) = mset (map m_pid ns)" by simp
  then have "distinct (map m_pid ms) = distinct (map m_pid ns)" by (rule mset_eq_imp_distinct_iff)
  then show ?thesis
    using mset_eq_length [OF m] mset_eq_setD [OF m] by (simp add: members_ok_def)
qed

lemma m_pid_elapse [simp]: "m_pid (elapse pr t m) = m_pid m"
  by (simp add: elapse_def split: option.split)

lemma members_ok_elapse: "members_ok (map (elapse pr t) ms) = members_ok ms"
  by (simp add: members_ok_def o_def)

text \<open>An operation that only asks questions ends with a result of the stated kind.\<close>

abbreviation yields :: "('w, 'a) state \<Rightarrow> ('a \<Rightarrow> bool) \<Rightarrow> bool" where
  "yields m Q \<equiv> valid (\<lambda>_. True) m (\<lambda>x _. Q x)"

lemma yields_return: "Q x \<Longrightarrow> yields (State_Monad.return x) Q"
  by (rule valid_return)

lemma yields_bind: "yields m R \<Longrightarrow> (\<And>x. R x \<Longrightarrow> yields (f x) Q) \<Longrightarrow> yields (State_Monad.bind m f) Q"
  by (fastforce simp: valid_def split: prod.splits)

lemma yields_query: "(\<And>x. yields (f x) Q) \<Longrightarrow> yields (State_Monad.bind (State c) f) Q"
  by (fastforce simp: valid_def split: prod.splits)

lemma yields_answer:
  "(\<And>v. x = Got v \<Longrightarrow> yields (f v) Q) \<Longrightarrow> (\<And>e. x = Failed e \<Longrightarrow> yields (g e) Q) \<Longrightarrow>
   yields (case x of Got v \<Rightarrow> f v | Failed e \<Rightarrow> g e) Q"
  by (cases x) simp_all

lemma append_member_yields:
  assumes "members_ok (fst acc)"
  shows "yields (append_member pr g p acc) (\<lambda>x. members_ok (fst x))"
proof (cases acc)
  case (Pair ms issues)
  show ?thesis
  proof (cases "p \<le> 0 \<or> DPTY_FOREGROUND_PROCESS_LIMIT \<le> length ms \<or> p \<in> m_pid ` set ms")
    case True
    then show ?thesis using assms Pair by (auto simp: append_member_def intro: yields_return)
  next
    case False
    have "members_ok (ms @ [new_member p info usage])" for info usage
      using False assms Pair by (auto simp: members_ok_def new_member_def)
    then show ?thesis
      using False assms Pair
      by (auto simp: append_member_def intro!: yields_query yields_answer yields_return)
  qed
qed

lemma append_listed_yields:
  "members_ok (fst acc) \<Longrightarrow> yields (append_listed pr g ps acc) (\<lambda>x. members_ok (fst x))"
proof (induction ps arbitrary: acc)
  case (Cons p ps)
  show ?case
    unfolding append_listed.simps
    by (rule yields_bind [where R = "\<lambda>x. members_ok (fst x)"], rule valid_if)
      (auto intro: append_member_yields yields_return Cons)
qed (simp add: yields_return)

definition listing_ok :: "int \<times> DptyForegroundProcessV1 list \<times> nat \<times> nat \<Rightarrow> bool" where
  "listing_ok x \<longleftrightarrow> (case x of (e, ms, issues, n) \<Rightarrow>
     members_ok ms \<and> length ms + issues \<le> n \<and> (e = 0 \<longleftrightarrow> ms \<noteq> []))"

lemma list_members_yields: "yields (list_members pr g) listing_ok"
proof -
  have empty: "listing_ok (e, [], 0, 0)" if "e \<noteq> 0" for e
    using that by (simp add: listing_ok_def members_ok_def)
  show ?thesis
    unfolding list_members_def Let_def
    apply (rule yields_query, rule yields_answer)
     apply (rule valid_if, rule yields_return, rule empty, simp)
     apply (rule yields_query, rule valid_if, rule yields_return, rule empty, simp)
     apply (rule yields_query, rule yields_answer, rule valid_if, rule yields_return, rule empty, simp)
      apply (rule yields_bind, rule append_member_yields, simp add: members_ok_def)
      apply (rule yields_bind, rule append_listed_yields, assumption)
      apply (simp only: split_beta, rule yields_return, simp add: listing_ok_def)
     apply (rule yields_return, rule empty, simp add: errno_or_nonzero)
    by (rule yields_return, rule empty, simp add: errno_or_nonzero)
qed

text \<open>
  The promise of a snapshot, whatever its disposition: only an available one carries
  content, and then the counts add up, the members are distinct processes in the promised
  order, and the strings end where they say.
\<close>

definition content_free :: "DptyForegroundJobSnapshotV1 \<Rightarrow> bool" where
  "content_free out \<longleftrightarrow> fj_members out = [] \<and> fj_executable_path out = [] \<and>
     fj_arguments out = no_arguments \<and> fj_primary_index out = - 1"

definition job_ok :: "DptyForegroundJobSnapshotV1 \<Rightarrow> bool" where
  "job_ok out \<longleftrightarrow>
     members_ok (fj_members out) \<and>
     fj_total_member_count out = length (fj_members out) + fj_omitted_member_count out \<and>
     fj_member_issue_count out \<le> fj_omitted_member_count out \<and>
     arguments_ok (fj_arguments out) \<and> 0 \<notin> set (fj_executable_path out) \<and>
     length (fj_executable_path out) < PROC_PIDPATHINFO_MAXSIZE \<and>
     (fj_observation_error out = 0 \<longleftrightarrow> fj_members out \<noteq> []) \<and>
     (fj_members out = [] \<longrightarrow> content_free out) \<and>
     (fj_members out \<noteq> [] \<longrightarrow> fj_primary_index out = 0)"

lemma no_arguments_ok [simp]: "arguments_ok no_arguments"
  by (simp add: arguments_ok_def no_arguments_def)

lemma ReadProcessArguments_yields: "yields (ReadProcessArguments pr p) arguments_ok"
proof -
  have plain: "arguments_ok (no_arguments\<lparr>ar_error := e\<rparr>)"
    "arguments_ok (no_arguments\<lparr>ar_error := e, ar_truncated := t\<rparr>)" for e t
    by (simp_all add: arguments_ok_def no_arguments_def)
  show ?thesis
    unfolding ReadProcessArguments_def
    by (intro yields_query yields_answer valid_if yields_return)
      (simp_all add: plain parse_arguments_ok split: answer.split)
qed

definition path_ok :: "int \<times> byte list \<Rightarrow> bool" where
  "path_ok x \<longleftrightarrow> 0 \<notin> set (snd x) \<and> length (snd x) < PROC_PIDPATHINFO_MAXSIZE"

lemma path_result_ok: "path_ok (path_result path)"
proof (cases path)
  case (Got p)
  have "strnlen p PROC_PIDPATHINFO_MAXSIZE \<le> PROC_PIDPATHINFO_MAXSIZE" by (rule strnlen_le)
  then show ?thesis
    using Got strnlen_take_nonzero [of 0 p PROC_PIDPATHINFO_MAXSIZE]
    by (auto simp: path_ok_def path_result_def Let_def)
qed (simp add: path_ok_def path_result_def)

lemma describe_primary_yields:
  "yields (describe_primary pr ms)
     (\<lambda>x. path_ok (fst x) \<and> arguments_ok (snd x) \<and> (ms = [] \<longrightarrow> x = ((0, []), no_arguments)))"
  unfolding describe_primary_def
  apply (cases ms, simp_all only: list.case)
   apply (rule yields_return, simp add: path_ok_def)
  apply (rule yields_query, rule yields_bind, rule ReadProcessArguments_yields)
  by (rule yields_return) (simp add: path_result_ok)

lemma observe_job_yields:
  "yields (observe_job pr g out) (\<lambda>o'. job_ok o' \<and> fj_owning_process_group o' = fj_owning_process_group out \<and>
     fj_foreground_process_group o' = fj_foreground_process_group out \<and>
     fj_has_exited o' = fj_has_exited out)"
  unfolding observe_job_def Let_def
  apply (rule yields_bind, rule list_members_yields)
  apply (simp only: split_beta)
  apply (rule yields_bind, rule describe_primary_yields)
  apply (simp only: split_beta, rule yields_query, rule yields_return)
  subgoal for x y t
  proof -
    assume l: "listing_ok x"
      and d: "path_ok (fst y) \<and> arguments_ok (snd y) \<and>
        (arrange g (fst (snd x)) = [] \<longrightarrow> y = ((0, []), no_arguments))"
    have m: "members_ok (map (elapse pr t) (arrange g (fst (snd x))))"
      using l members_ok_mset [OF arrange_ok(1)]
      by (cases "fst (snd x) = []") (auto simp: listing_ok_def split_beta members_ok_elapse)
    have len: "length (arrange g (fst (snd x))) = length (fst (snd x))"
      using mset_eq_length [OF arrange_ok(1)] by (cases "fst (snd x) = []") auto
    show ?thesis
      using l d m len
      by (auto simp: job_ok_def listing_ok_def split_beta path_ok_def content_free_def)
  qed
  done

lemma content_free_discard: "content_free (discard exited out)"
  by (simp add: content_free_def discard_def ClearForegroundJobContent_def)

text \<open>What a caller may conclude from the answer.\<close>

definition snapshot_ok :: "session \<Rightarrow> session \<Rightarrow> DptyForegroundJobSnapshotV1 \<Rightarrow> bool" where
  "snapshot_ok s s' out \<longleftrightarrow>
     (if fj_disposition out = DPTY_FOREGROUND_JOB_AVAILABLE
      then job_ok out \<and> fj_members out \<noteq> [] \<and>
        fj_foreground_process_group out \<noteq> fj_owning_process_group out \<and>
        0 < fj_foreground_process_group out \<and>
        s_state s' = kRunning \<and> s_child_pid s' = s_child_pid s
      else content_free out) \<and>
     (fj_disposition out = DPTY_FOREGROUND_JOB_EXITED \<longleftrightarrow> fj_has_exited out = 1)"

lemma snapshot_plain:
  "content_free out \<Longrightarrow> fj_disposition out \<noteq> DPTY_FOREGROUND_JOB_AVAILABLE \<Longrightarrow>
   (fj_disposition out = DPTY_FOREGROUND_JOB_EXITED \<longleftrightarrow> fj_has_exited out = 1) \<Longrightarrow>
   snapshot_ok s s' out"
  by (simp add: snapshot_ok_def)

lemma begin_snapshot_ok:
  assumes "s_state s = kRunning"
  shows "snapshot_ok s s' ((begin_snapshot s)\<lparr>fj_observation_error := e\<rparr>)"
    "snapshot_ok s s' ((begin_snapshot s)\<lparr>fj_owning_process_group := g,
       fj_foreground_process_group := h, fj_disposition := DPTY_FOREGROUND_JOB_NOT_DISTINCT\<rparr>)"
  using assms
  by (simp_all add: snapshot_ok_def content_free_def begin_snapshot_def
      InitializeForegroundJobSnapshot_def)

lemma ended_snapshot_ok:
  "snapshot_ok s s' ((begin_snapshot s)
     \<lparr>fj_disposition := (if s_state s = kFinished then DPTY_FOREGROUND_JOB_EXITED
                        else DPTY_FOREGROUND_JOB_UNAVAILABLE), fj_observation_error := e\<rparr>)"
  by (simp add: snapshot_ok_def content_free_def begin_snapshot_def
      InitializeForegroundJobSnapshot_def)

lemma conclude_ok:
  assumes "job_ok out" "fj_has_exited out = 0"
    "fj_foreground_process_group out \<noteq> fj_owning_process_group out"
    "0 < fj_foreground_process_group out"
    "current \<longrightarrow> s_state s' = kRunning \<and> s_child_pid s' = s_child_pid s"
  shows "snapshot_ok s s' (conclude current (s_state s' = kFinished) out)"
proof (cases current)
  case True
  with assms show ?thesis
    by (simp add: snapshot_ok_def conclude_def job_ok_def content_free_def)
next
  case False
  have "snapshot_ok s s' (discard e out)" for e
    by (rule snapshot_plain) (simp_all add: content_free_discard, simp_all add: discard_def)
  with False show ?thesis by (simp add: conclude_def)
qed

lemma still_current_yields:
  "yields (still_current pr s child owning foreground)
     (\<lambda>x. x \<longrightarrow> s_state s = kRunning \<and> s_child_pid s = child)"
  unfolding still_current_def
  by (intro valid_bind [where R = "\<lambda>_ _. True"] yields_return) (simp_all add: valid_def split: prod.split)

lemma positive_Some: "positive x = Some g \<Longrightarrow> 0 < g"
  by (auto simp: positive_def split: answer.splits if_splits)

lemma GetForegroundJobSnapshot_yields:
  "yields (GetForegroundJobSnapshot pr buffer s s')
     (\<lambda>x. case x of Inl e \<Rightarrow> True | Inr out \<Rightarrow> snapshot_ok s s' out)"
  unfolding GetForegroundJobSnapshot_def
  apply (rule valid_if, rule yields_return, simp)
  apply (rule valid_if, rule yields_return, simp only: sum.case, rule ended_snapshot_ok)
  apply (rule yields_query, rule valid_option)
   apply (rule yields_return, simp add: begin_snapshot_ok)
  apply (rule yields_query, rule valid_option)
   apply (rule yields_return, simp add: begin_snapshot_ok)
  apply (rule valid_if, rule yields_return, simp add: begin_snapshot_ok)
  apply (rule yields_bind, rule observe_job_yields, rule yields_bind, rule still_current_yields)
  apply (rule yields_return, simp only: sum.case, rule conclude_ok)
      apply (simp_all add: begin_snapshot_def InitializeForegroundJobSnapshot_def positive_Some)
  done

end
