(* ===== verification/Pty_Reactor_Inv.thy ===== *)
theory Pty_Reactor_Inv
  imports Pty_Spawn
begin

text \<open>
  The invariant of the reactor's thread, which ties the session to the trace of everything
  it did, and its preservation by every method. It says that bytes written to the terminal
  are the accepted writes in order, that output events carry the bytes read, in order, under
  consecutive sequence numbers, that acknowledgements retire them in that order, and that a
  session reports its end at most once.
\<close>

section \<open>Reading a trace\<close>

fun accepted_of :: "effect \<Rightarrow> byte list" where
  "accepted_of (ApiCall (CallWrite (Some b)) DPTY_STATUS_OK) = b"
| "accepted_of (ApiCall (CallWriteTracked p (Some b)) DPTY_STATUS_OK) = b"
| "accepted_of _ = []"

fun sent_of :: "effect \<Rightarrow> byte list" where
  "sent_of (SysWrite b) = b"
| "sent_of _ = []"

fun read_of :: "effect \<Rightarrow> byte list" where
  "read_of (SysRead b) = b"
| "read_of _ = []"

definition event_output :: "pty_event \<Rightarrow> OutputBatch list" where
  "event_output e =
     (if ev_type e = DPTY_EVENT_OUTPUT
      then [\<lparr>sequence = ev_sequence e, batch_bytes = (case ev_data e of None \<Rightarrow> [] | Some b \<Rightarrow> b)\<rparr>]
      else [])"

fun output_of :: "effect \<Rightarrow> OutputBatch list" where
  "output_of (Callback e) = event_output e"
| "output_of _ = []"

fun ack_of :: "effect \<Rightarrow> (u64 \<times> nat) list" where
  "ack_of (ApiCall (CallAcknowledge sq n) DPTY_STATUS_OK) = [(sq, n)]"
| "ack_of _ = []"

fun terminal_of :: "effect \<Rightarrow> nat" where
  "terminal_of (Callback e) =
     (if ev_type e = DPTY_EVENT_EXIT \<or> ev_type e = DPTY_EVENT_ERROR then 1 else 0)"
| "terminal_of _ = 0"

definition accepted :: "effect list \<Rightarrow> byte list" where "accepted tr = concat (map accepted_of tr)"
definition sent :: "effect list \<Rightarrow> byte list" where "sent tr = concat (map sent_of tr)"
definition reads :: "effect list \<Rightarrow> byte list" where "reads tr = concat (map read_of tr)"
definition outputs :: "effect list \<Rightarrow> OutputBatch list" where "outputs tr = concat (map output_of tr)"
definition acks :: "effect list \<Rightarrow> (u64 \<times> nat) list" where "acks tr = concat (map ack_of tr)"
definition terminals :: "effect list \<Rightarrow> nat" where "terminals tr = sum_list (map terminal_of tr)"

lemmas trace_defs = accepted_def sent_def reads_def outputs_def acks_def terminals_def

lemma trace_append [simp]:
  "accepted (a @ b) = accepted a @ accepted b" "sent (a @ b) = sent a @ sent b"
  "reads (a @ b) = reads a @ reads b" "outputs (a @ b) = outputs a @ outputs b"
  "acks (a @ b) = acks a @ acks b" "terminals (a @ b) = terminals a + terminals b"
  by (simp_all add: trace_defs)

lemma trace_Nil [simp]:
  "accepted [] = []" "sent [] = []" "reads [] = []" "outputs [] = []" "acks [] = []"
  "terminals [] = 0"
  by (simp_all add: trace_defs)

lemma trace_Cons:
  "accepted (e # b) = accepted_of e @ accepted b" "sent (e # b) = sent_of e @ sent b"
  "reads (e # b) = read_of e @ reads b" "outputs (e # b) = output_of e @ outputs b"
  "acks (e # b) = ack_of e @ acks b" "terminals (e # b) = terminal_of e + terminals b"
  by (simp_all add: trace_defs)

text \<open>Effects that none of these functions see.\<close>

definition silent :: "effect list \<Rightarrow> bool" where
  "silent es \<longleftrightarrow> accepted es = [] \<and> sent es = [] \<and> reads es = [] \<and> outputs es = [] \<and>
     acks es = [] \<and> terminals es = 0"

lemma silent_simps [simp]:
  "silent []" "silent (a @ b) \<longleftrightarrow> silent a \<and> silent b"
  "silent [KqueueWake d]" "silent [KqueueEnable flt en]" "silent [SysKill p sig ok]"
  "silent [SysResize rw cl]" "silent [SysFork p]" "silent [SysReap p]" "silent [SysOpen d]"
  "silent [SysClose d]" "silent [SysOpen d, SysOpen d']" "silent [SysFork p, SysOpen d]"
  by (auto simp: silent_def trace_Cons)

lemma silent_Wake [simp]: "silent (Wake s)"
  by (simp add: Wake_def)

definition quiet_type :: "DptyEventType \<Rightarrow> bool" where
  "quiet_type t \<longleftrightarrow> t \<noteq> DPTY_EVENT_OUTPUT \<and> t \<noteq> DPTY_EVENT_EXIT \<and> t \<noteq> DPTY_EVENT_ERROR"

lemma quiet_type_simps [simp]:
  "quiet_type DPTY_EVENT_STARTED" "quiet_type DPTY_EVENT_WRITE_ENQUEUED"
  "quiet_type DPTY_EVENT_WRITE_DEQUEUED" "quiet_type DPTY_EVENT_WRITE_COMPLETED"
  "quiet_type DPTY_EVENT_WRITE_ERROR" "quiet_type DPTY_EVENT_FORCE_CLOSE_DEQUEUED"
  "quiet_type DPTY_EVENT_SIGNAL_DELIVERY" "quiet_type DPTY_EVENT_WAITPID_RESULT"
  "quiet_type DPTY_EVENT_EXIT_PUBLISHED" "quiet_type DPTY_EVENT_STATE_SNAPSHOT"
  "quiet_type DPTY_EVENT_TERMIOS_SNAPSHOT" "quiet_type DPTY_EVENT_PROCESS_EXIT_READY"
  "quiet_type DPTY_EVENT_EXTERNAL_REAP_OBSERVED"
  by (simp_all add: quiet_type_def)

lemma silent_Emit [simp]: "quiet_type t \<Longrightarrow> silent (Emit s t sq d n v1 v2 err)"
  by (simp add: silent_def Emit_def trace_Cons event_output_def quiet_type_def)

lemma silent_EmitDiagnostic [simp]: "quiet_type t \<Longrightarrow> silent (EmitDiagnostic s t sq n v1 v2 err)"
  by (simp add: EmitDiagnostic_def)

section \<open>The invariant\<close>

text \<open>
  \<open>u\<close>: batches that are published in the session but whose event is not out yet;
  \<open>g\<close>: bytes read that are not in a batch yet; \<open>a\<close>: bytes the terminal took that are not
  consumed from the queue yet. All three are empty between the methods. \<open>st\<close> is the
  lifecycle state, \<open>n\<close> the number of end-of-session events.
\<close>

definition fifo :: "byte list \<Rightarrow> session \<Rightarrow> effect list \<Rightarrow> bool" where
  "fifo a s tr \<longleftrightarrow>
     (\<exists>pre dropped. sent tr = pre @ a \<and>
        accepted tr = pre @ concat (pending_chunks s) @ dropped \<and>
        (\<not> s_child_completed s \<longrightarrow> dropped = []))"

definition batch_key :: "OutputBatch \<Rightarrow> u64 \<times> nat" where
  "batch_key b = (sequence b, length (batch_bytes b))"

definition window :: "OutputBatch list \<Rightarrow> byte list \<Rightarrow> session \<Rightarrow> effect list \<Rightarrow> bool" where
  "window u g s tr \<longleftrightarrow>
     (\<exists>acked. outputs tr @ u = acked @ s_outstanding s \<and> acks tr = map batch_key acked) \<and>
     map sequence (outputs tr @ u) = run_of 0 (length (outputs tr @ u)) \<and>
     s_next_sequence s = of_nat (length (outputs tr @ u)) \<and>
     reads tr = concat (map batch_bytes (outputs tr @ u)) @ g"

definition exit_ready :: "session \<Rightarrow> bool" where
  "exit_ready s \<longleftrightarrow> s_child_completed s \<and> s_master_eof s \<and> s_outstanding s = []"

definition TI :: "OutputBatch list \<Rightarrow> byte list \<Rightarrow> byte list \<Rightarrow> session_state \<Rightarrow> nat \<Rightarrow>
    'w reactor \<Rightarrow> bool" where
  "TI u g a st n r \<longleftrightarrow>
     session_inv (r_session r) \<and> st \<noteq> kCreated \<and> s_state (r_session r) = st \<and>
     fifo a (r_session r) (r_trace r) \<and> window u g (r_session r) (r_trace r) \<and>
     terminals (r_trace r) = n \<and>
     (s_finished_reaping (r_session r) \<longrightarrow> exit_ready (r_session r))"

lemma TI_silent:
  "silent es \<Longrightarrow> TI u g a st n (r\<lparr>r_trace := r_trace r @ es\<rparr>) = TI u g a st n r"
  by (simp add: TI_def fifo_def window_def silent_def)

lemma TI_thread [simp]:
  "TI u g a st n (r\<lparr>r_world := w\<rparr>) = TI u g a st n r"
  "TI u g a st n (r\<lparr>r_errno := e\<rparr>) = TI u g a st n r"
  "TI u g a st n (r\<lparr>r_world := w, r_errno := e\<rparr>) = TI u g a st n r"
  "TI u g a st n (r\<lparr>r_hung := h\<rparr>) = TI u g a st n r"
  by (simp_all add: TI_def)

text \<open>Updates of members that neither the session's invariant nor the trace mentions.\<close>

lemma TI_frame:
  "TI u g a st n (r\<lparr>r_session := s'\<rparr>) = TI u g a st n r"
  if "session_inv s' = session_inv (r_session r)" "s_state s' = s_state (r_session r)"
    "pending_chunks s' = pending_chunks (r_session r)"
    "s_child_completed s' = s_child_completed (r_session r)"
    "s_outstanding s' = s_outstanding (r_session r)"
    "s_next_sequence s' = s_next_sequence (r_session r)"
    "s_finished_reaping s' = s_finished_reaping (r_session r)"
    "s_master_eof s' = s_master_eof (r_session r)"
  using that by (simp add: TI_def fifo_def window_def exit_ready_def)

section \<open>Calls of other threads\<close>

lemma refused_of:
  "st \<noteq> DPTY_STATUS_OK \<Longrightarrow> accepted_of (ApiCall c st) = []"
  "st \<noteq> DPTY_STATUS_OK \<Longrightarrow> ack_of (ApiCall c st) = []"
  by (cases "ApiCall c st" rule: accepted_of.cases; simp)
    (cases "ApiCall c st" rule: ack_of.cases; simp)

lemma ApiCall_of [simp]:
  "sent_of (ApiCall c st) = []" "read_of (ApiCall c st) = []" "output_of (ApiCall c st) = []"
  "terminal_of (ApiCall c st) = 0"
  by simp_all

lemma other_call_eq:
  "run_call c (r_session r) = (st, s', es) \<Longrightarrow>
   other_call c r = r\<lparr>r_session := s', r_trace := r_trace r @ ApiCall c st # es\<rparr>"
  by (simp add: other_call_def)

lemma pending_chunks_cong:
  "s_writes s' = s_writes s \<Longrightarrow> s_write_offset s' = s_write_offset s \<Longrightarrow>
   pending_chunks s' = pending_chunks s"
  by (simp add: pending_chunks_def split: list.split)

text \<open>A call that moves no bytes.\<close>

lemma TI_call_frame:
  assumes "TI u g a st n r" "accepted_of (ApiCall c x) = []" "ack_of (ApiCall c x) = []"
    "silent es" "session_inv s'" "rely (r_session r) s'"
    "pending_chunks s' = pending_chunks (r_session r)"
    "s_outstanding s' = s_outstanding (r_session r)"
  shows "TI u g a st n (r\<lparr>r_session := s', r_trace := r_trace r @ ApiCall c x # es\<rparr>)"
  using assms(1-5,7,8) rely_eq [OF assms(6)]
  by (simp add: TI_def fifo_def window_def exit_ready_def trace_Cons silent_def)

lemma TI_write_call:
  assumes t: "TI u g a st n r" and e: "EnqueueWrite b tracked (r_session r) = (res, s', es)"
    and acc: "\<And>bs. b = Some bs \<Longrightarrow> accepted_of (ApiCall c DPTY_STATUS_OK) = bs"
    and ack: "ack_of (ApiCall c (status_of res)) = []"
  shows "TI u g a st n (r\<lparr>r_session := s', r_trace := r_trace r @ ApiCall c (status_of res) # es\<rparr>)"
proof (cases rule: EnqueueWrite_cases [of b tracked "r_session r"])
  case (refused err)
  then have "status_of res \<noteq> DPTY_STATUS_OK" "s' = r_session r" "es = []" using e by auto
  with t show ?thesis
    by (intro TI_call_frame) (auto simp: refused_of rely_refl TI_def)
next
  case (full bs)
  then have "status_of res \<noteq> DPTY_STATUS_OK" "es = []" and s': "s' = (r_session r)
      \<lparr>s_write_backpressure_rejections := s_write_backpressure_rejections (r_session r) + 1\<rparr>"
    using e by auto
  with t show ?thesis
    by (intro TI_call_frame) (auto simp: refused_of frame_rely TI_def intro!: pending_chunks_cong)
next
  case (accepted bs)
  let ?s = "r_session r"
  from accepted e have ok: "status_of res = DPTY_STATUS_OK" and s': "s' = push_write bs tracked ?s"
    by auto
  have es: "silent es"
    using accepted(1-6) e by (auto simp: EnqueueWrite_def write_accepted_iff Let_def)
  have inv: "session_inv s'" unfolding s'
    using t accepted by (intro push_write_inv) (simp_all add: TI_def)
  have chunks: "pending_chunks s' = pending_chunks ?s @ [bs]"
    unfolding s' using t by (intro pending_chunks_push) (simp add: TI_def session_inv_def)
  have eqs: "s_state s' = s_state ?s" "s_child_completed s' = s_child_completed ?s"
    "s_outstanding s' = s_outstanding ?s" "s_next_sequence s' = s_next_sequence ?s"
    "s_finished_reaping s' = s_finished_reaping ?s" "s_master_eof s' = s_master_eof ?s"
    by (simp_all add: s' push_write_def Let_def)
  from t have f: "fifo a ?s (r_trace r)" and w: "window u g ?s (r_trace r)" by (simp_all add: TI_def)
  have "fifo a s' (r_trace r @ ApiCall c DPTY_STATUS_OK # es)"
    using f es accepted(5) acc [OF accepted(1)]
    by (auto simp: fifo_def chunks eqs trace_Cons silent_def)
  moreover have "window u g s' (r_trace r @ ApiCall c DPTY_STATUS_OK # es)"
    using w es ack by (simp add: window_def eqs trace_Cons silent_def ok)
  ultimately show ?thesis
    using t inv es eqs by (simp add: TI_def ok exit_ready_def trace_Cons silent_def)
qed

lemma TI_ack_call:
  assumes t: "TI u g a st n r" and e: "Acknowledge sq len (r_session r) = (res, s', es)"
  shows "TI u g a st n (r\<lparr>r_session := s',
    r_trace := r_trace r @ ApiCall (CallAcknowledge sq len) (status_of res) # es\<rparr>)"
proof (cases "\<exists>b bs. s_outstanding (r_session r) = b # bs \<and> sequence b = sq \<and>
    length (batch_bytes b) = len")
  case True
  let ?s = "r_session r"
  from True obtain b bs where b: "s_outstanding ?s = b # bs" "sequence b = sq"
    "length (batch_bytes b) = len" by blast
  have s': "s' = ?s\<lparr>s_read_in_flight_bytes := s_read_in_flight_bytes ?s - length (batch_bytes b),
      s_outstanding := bs\<rparr>"
    using Acknowledge_Some [OF b] e by simp
  have ok: "status_of res = DPTY_STATUS_OK" and es: "silent es"
    using e b by (auto simp: Acknowledge_def Let_def split: if_splits)
  have inv: "session_inv s'" using Acknowledge_inv [of ?s sq len] t e by (simp add: TI_def)
  from t have "window u g ?s (r_trace r)" by (simp add: TI_def)
  then obtain acked where out: "outputs (r_trace r) @ u = acked @ b # bs"
    and ak: "acks (r_trace r) = map batch_key acked" and rest:
    "map sequence (outputs (r_trace r) @ u) = run_of 0 (length (outputs (r_trace r) @ u))"
    "s_next_sequence ?s = of_nat (length (outputs (r_trace r) @ u))"
    "reads (r_trace r) = concat (map batch_bytes (outputs (r_trace r) @ u)) @ g"
    unfolding window_def b(1) by blast
  from out have out': "outputs (r_trace r) @ u = (acked @ [b]) @ bs" by simp
  have "window u g s' (r_trace r @ ApiCall (CallAcknowledge sq len) DPTY_STATUS_OK # es)"
    unfolding window_def
  proof (intro conjI exI [of _ "acked @ [b]"])
    show "acks (r_trace r @ ApiCall (CallAcknowledge sq len) DPTY_STATUS_OK # es) =
        map batch_key (acked @ [b])"
      using es ak b by (simp add: trace_Cons silent_def batch_key_def)
  qed (use es out' rest in \<open>simp_all add: trace_Cons silent_def s'\<close>)
  moreover have "fifo a s' (r_trace r @ ApiCall (CallAcknowledge sq len) DPTY_STATUS_OK # es)"
  proof -
    have "pending_chunks s' = pending_chunks ?s" "s_child_completed s' = s_child_completed ?s"
      by (auto intro: pending_chunks_cong simp: s')
    then show ?thesis using t es by (simp add: TI_def fifo_def trace_Cons silent_def)
  qed
  ultimately show ?thesis
    using t inv es by (simp add: TI_def ok trace_Cons silent_def s' exit_ready_def b(1))
next
  case False
  then have s': "s' = r_session r" using Acknowledge_other [of "r_session r" sq len] e by simp
  have "status_of res \<noteq> DPTY_STATUS_OK" "es = []"
    using e False by (auto simp: Acknowledge_def split: list.splits if_splits)
  with t s' show ?thesis by (intro TI_call_frame) (auto simp: refused_of rely_refl TI_def)
qed

lemma silent_call: "silent (snd (snd (run_call c s)))"
  by (cases c) (auto simp: Start_def Write_def WriteTracked_def EnqueueWrite_def Acknowledge_def
      Resize_def SendSignal_def Close_def ForceClose_def Let_def split: option.split list.split)

lemma other_call_TI:
  assumes t: "TI u g a st n r"
  shows "TI u g a st n (other_call c r)"
proof -
  obtain x s' es where rc: "run_call c (r_session r) = (x, s', es)"
    by (cases "run_call c (r_session r)") auto
  have s': "s' = call_state c (r_session r)" by (simp add: call_state_def rc)
  have frame: ?thesis
    if "accepted_of (ApiCall c x) = []" "ack_of (ApiCall c x) = []"
      "pending_chunks s' = pending_chunks (r_session r)"
      "s_outstanding s' = s_outstanding (r_session r)"
    unfolding other_call_eq [OF rc]
  proof (rule TI_call_frame [OF t that(1,2) _ _ _ that(3,4)])
    show "silent es" using silent_call [of c "r_session r"] rc by simp
    show "session_inv s'" unfolding s' using t by (intro call_keeps_inv) (simp add: TI_def)
    show "rely (r_session r) s'" unfolding s' using t by (intro call_rely) (simp add: TI_def)
  qed
  show ?thesis
  proof (cases c)
    case (CallWrite b)
    then obtain res where e: "EnqueueWrite b False (r_session r) = (res, s', es)"
      and x: "x = status_of res"
      using rc by (cases "EnqueueWrite b False (r_session r)") (auto simp: Write_def)
    show ?thesis unfolding other_call_eq [OF rc] x
      by (rule TI_write_call [OF t e]) (simp_all add: CallWrite)
  next
    case (CallWriteTracked p b)
    show ?thesis
    proof (cases p)
      case True
      then obtain res where e: "EnqueueWrite b True (r_session r) = (res, s', es)"
        and x: "x = status_of res"
        using rc CallWriteTracked
        by (cases "EnqueueWrite b True (r_session r)") (auto simp: WriteTracked_def)
      show ?thesis unfolding other_call_eq [OF rc] x
        by (rule TI_write_call [OF t e]) (simp_all add: CallWriteTracked)
    next
      case False
      then have "x \<noteq> DPTY_STATUS_OK" "s' = r_session r"
        using rc CallWriteTracked by (auto simp: WriteTracked_def)
      then show ?thesis by (intro frame) (simp_all add: refused_of)
    qed
  next
    case (CallAcknowledge sq len)
    then obtain res where e: "Acknowledge sq len (r_session r) = (res, s', es)"
      and x: "x = status_of res"
      using rc by (cases "Acknowledge sq len (r_session r)") auto
    show ?thesis unfolding other_call_eq [OF rc] x unfolding CallAcknowledge by (rule TI_ack_call [OF t e])
  next
    case (CallStart ok)
    then have "s' = r_session r" using rc t by (auto simp: Start_def TI_def)
    then show ?thesis by (intro frame) (simp_all add: CallStart)
  next
    case (CallResize nr nc)
    then show ?thesis
      by (intro frame) (auto simp: s' call_state_simps Resize_def Let_def intro!: pending_chunks_cong)
  next
    case (CallSendSignal sig)
    then show ?thesis
      by (intro frame) (auto simp: s' call_state_simps SendSignal_def Let_def intro!: pending_chunks_cong)
  next
    case (CallClose gr)
    then show ?thesis
      by (intro frame) (auto simp: s' call_state_simps Close_def Let_def intro!: pending_chunks_cong)
  next
    case CallForceClose
    then show ?thesis
      by (intro frame) (auto simp: s' call_state_simps ForceClose_def Let_def intro!: pending_chunks_cong)
  qed
qed

end
