(* ===== verification/Pty_Reactor_Keeps.thy ===== *)
theory Pty_Reactor_Keeps
  imports Pty_Reactor_Inv
begin

text \<open>
  Every method of the reactor keeps the thread's invariant, for every behaviour of the
  system calls and every interleaving with the callers. The methods that read a member and
  rely on it later use what \<open>rely\<close> says the callers leave alone.
\<close>

section \<open>Primitives\<close>

named_theorems thread_keeps \<open>methods that keep the invariant\<close>

lemma lock_TI [thread_keeps]: "keeps (TI u g a st n) (lock os)"
  by (rule valid_lock) (simp_all add: other_call_TI)

text \<open>Facts of the session that the callers cannot change survive taking the mutex.\<close>

definition stable :: "(session \<Rightarrow> bool) \<Rightarrow> bool" where
  "stable F \<longleftrightarrow> (\<forall>s t. rely s t \<longrightarrow> F s \<longrightarrow> F t)"

lemma lock_TI_stable:
  assumes "stable F"
  shows "keeps (\<lambda>r. TI u g a st n r \<and> F (r_session r)) (lock os)"
proof (rule valid_lock)
  fix r c
  assume r: "TI u g a st n r \<and> F (r_session r)"
  then have "rely (r_session r) (call_state c (r_session r))"
    by (intro call_rely) (simp add: TI_def)
  moreover have "r_session (other_call c r) = call_state c (r_session r)"
    by (simp add: other_call_def call_state_def split: prod.split)
  ultimately show "TI u g a st n (other_call c r) \<and> F (r_session (other_call c r))"
    using r other_call_TI assms by (metis stable_def)
qed simp

lemma sys_keeps [thread_keeps]: "keeps (TI u g a st n) (sys c)"
  by (rule valid_sys) simp

lemma sys_keeps_and:
  "keeps (\<lambda>r. TI u g a st n r \<and> F (r_session r)) (sys c)"
  by (rule valid_sys) simp

lemma now_keeps [thread_keeps]: "keeps (TI u g a st n) (now os)"
  by (rule valid_now) simp

lemma set_errno_keeps [thread_keeps]: "keeps (TI u g a st n) (set_errno e)"
  by (rule valid_set_errno) simp

lemma hang_keeps [thread_keeps]: "keeps (TI u g a st n) hang"
  by (rule valid_hang) simp

lemma emits_keeps [thread_keeps]:
  "(\<And>s. silent (f s)) \<Longrightarrow> keeps (TI u g a st n) (emits f)"
  by (rule valid_emits) (simp add: TI_silent)

lemma emits_keeps_and:
  "(\<And>s. silent (f s)) \<Longrightarrow> keeps (\<lambda>r. TI u g a st n r \<and> F (r_session r)) (emits f)"
  by (rule valid_emits) (simp add: TI_silent)

lemma close_fd_keeps [thread_keeps]: "keeps (TI u g a st n) (close_fd d)"
  unfolding close_fd_def by (rule emits_keeps) simp

lemma upd_keeps:
  fixes f :: "session \<Rightarrow> session"
  assumes "\<And>r :: 'w reactor. TI u g a st n r \<Longrightarrow> TI u g a st n (r\<lparr>r_session := f (r_session r)\<rparr>)"
  shows "keeps (TI u g a st n) (upd f :: ('w, unit) thread)"
  by (rule valid_upd) (rule assms)

lemma TI_quiet_update:
  assumes "TI u g a st n r" "session_inv s'" "s_state s' = s_state (r_session r)"
    "s_writes s' = s_writes (r_session r)" "s_write_offset s' = s_write_offset (r_session r)"
    "s_child_completed s' = s_child_completed (r_session r)"
    "s_outstanding s' = s_outstanding (r_session r)"
    "s_next_sequence s' = s_next_sequence (r_session r)"
    "s_finished_reaping s' = s_finished_reaping (r_session r)"
    "s_master_eof (r_session r) \<longrightarrow> s_master_eof s'"
  shows "TI u g a st n (r\<lparr>r_session := s'\<rparr>)"
  using assms pending_chunks_cong [OF assms(4,5)]
  by (simp add: TI_def fifo_def window_def exit_ready_def)

text \<open>Updates of members outside the session's invariant.\<close>

lemma session_inv_update [simp]:
  "session_inv (s\<lparr>s_write_enabled := b\<rparr>) = session_inv s"
  "session_inv (s\<lparr>s_read_enabled := b, s_read_paused := c\<rparr>) = session_inv s"
  "session_inv (s\<lparr>s_read_paused := c, s_read_pause_count := k\<rparr>) = session_inv s"
  "session_inv (s\<lparr>s_read_retry_requested := b\<rparr>) = session_inv s"
  "session_inv (s\<lparr>s_master_eof := b\<rparr>) = session_inv s"
  "session_inv (s\<lparr>s_process_exit_status := v, s_process_exit_status_valid := b\<rparr>) = session_inv s"
  "session_inv (s\<lparr>s_process_exit_ready_observed := b\<rparr>) = session_inv s"
  "session_inv (s\<lparr>s_waitpid_error_observed := b\<rparr>) = session_inv s"
  "session_inv (s\<lparr>s_close_kill_deadline := d\<rparr>) = session_inv s"
  "session_inv (s\<lparr>s_kqueue_fd := fd1\<rparr>) = session_inv s"
  "session_inv (s\<lparr>s_exec_error_fd := fd1\<rparr>) = session_inv s"
  "session_inv (s\<lparr>s_master_fd := fd1\<rparr>) = session_inv s"
  "session_inv (s\<lparr>s_master_fd := fd1, s_child_pid := p\<rparr>) = session_inv s"
  by (simp_all add: session_inv_defs)

lemma quiet_upd:
  assumes "\<And>s. session_inv s \<Longrightarrow> session_inv (f s)"
    "\<And>s. s_state (f s) = s_state s" "\<And>s. s_writes (f s) = s_writes s"
    "\<And>s. s_write_offset (f s) = s_write_offset s"
    "\<And>s. s_child_completed (f s) = s_child_completed s"
    "\<And>s. s_outstanding (f s) = s_outstanding s" "\<And>s. s_next_sequence (f s) = s_next_sequence s"
    "\<And>s. s_finished_reaping (f s) = s_finished_reaping s"
    "\<And>s. s_master_eof s \<Longrightarrow> s_master_eof (f s)"
  shows "keeps (TI u g a st n) (upd f)"
proof (rule upd_keeps)
  fix r
  assume t: "TI u g a st n r"
  then have "session_inv (f (r_session r))" by (intro assms(1)) (simp add: TI_def)
  with t show "TI u g a st n (r\<lparr>r_session := f (r_session r)\<rparr>)"
    by (rule TI_quiet_update) (simp_all add: assms)
qed

section \<open>Filters, snapshots and signals\<close>

lemma SetReadEnabled_keeps [thread_keeps]: "keeps (TI u g a st n) (SetReadEnabled os b)"
  unfolding SetReadEnabled_def by (intro vcg thread_keeps quiet_upd) simp_all

lemma SetWriteEnabled_keeps [thread_keeps]: "keeps (TI u g a st n) (SetWriteEnabled os b)"
  unfolding SetWriteEnabled_def by (intro vcg thread_keeps quiet_upd) simp_all

lemma fd_tcgetpgrp_keeps [thread_keeps]: "keeps (TI u g a st n) (fd_tcgetpgrp os d)"
  unfolding fd_tcgetpgrp_def by (intro vcg thread_keeps)

lemma EmitStateSnapshot_keeps [thread_keeps]: "keeps (TI u g a st n) (EmitStateSnapshot os q)"
  unfolding EmitStateSnapshot_def Let_def
  by (intro vcg thread_keeps) simp_all

lemma DeliverSignal_keeps [thread_keeps]: "keeps (TI u g a st n) (DeliverSignal os p sig)"
  unfolding DeliverSignal_def Let_def by (intro vcg thread_keeps) simp_all

lemma SendToForeground_keeps [thread_keeps]: "keeps (TI u g a st n) (SendToForeground os sig)"
  unfolding SendToForeground_def by (intro vcg thread_keeps) simp_all

lemma SendToProcessGroups_keeps [thread_keeps]:
  "keeps (TI u g a st n) (SendToProcessGroups os sig)"
  unfolding SendToProcessGroups_def by (intro vcg thread_keeps) simp_all

lemma deliver_all_keeps [thread_keeps]: "keeps (TI u g a st n) (deliver_all os sigs)"
  by (induction sigs) (auto intro!: vcg thread_keeps)

section \<open>Reading\<close>

text \<open>A filter change leaves every fact that does not mention the filters.\<close>

definition filter_blind :: "(session \<Rightarrow> bool) \<Rightarrow> bool" where
  "filter_blind F \<longleftrightarrow> (\<forall>s b c e. F (s\<lparr>s_read_enabled := b, s_read_paused := c\<rparr>) = F s \<and>
     F (s\<lparr>s_master_eof := e\<rparr>) = F s)"

lemma upd_and:
  fixes f :: "session \<Rightarrow> session"
  assumes "keeps (TI u g a st n) (upd f :: ('w, unit) thread)" "\<And>s. F s \<Longrightarrow> F (f s)"
  shows "keeps (\<lambda>r. TI u g a st n r \<and> F (r_session r)) (upd f :: ('w, unit) thread)"
  using assms by (simp add: valid_def upd_def)

lemma SetReadEnabled_keeps_and:
  assumes "stable F" "filter_blind F"
  shows "keeps (\<lambda>r. TI u g a st n r \<and> F (r_session r)) (SetReadEnabled os b)"
  unfolding SetReadEnabled_def
  by (intro vcg lock_TI_stable upd_and quiet_upd emits_keeps_and)
    (use assms in \<open>simp_all add: filter_blind_def\<close>)

lemma TI_read:
  "TI u g a st n r \<Longrightarrow> TI u (g @ bs) a st n (r\<lparr>r_trace := r_trace r @ [SysRead bs]\<rparr>)"
  by (simp add: TI_def fifo_def window_def trace_Cons)

lemma collect_valid:
  assumes os: "os_bounded os" and "length collected \<le> capacity"
  shows "valid (\<lambda>r. TI u collected a st n r \<and> F (r_session r))
    (collect os k capacity collected attempts)
    (\<lambda>p r. TI u (fst p) a st n r \<and> F (r_session r) \<and> length (fst p) \<le> capacity)"
  using assms(2)
proof (induction k arbitrary: collected attempts)
  case 0
  then show ?case by (simp add: valid_def hang_def)
next
  case (Suc k)
  let ?P = "\<lambda>c r. TI u c a st n r \<and> F (r_session r)"
  have stop: "valid (?P c) (State_Monad.return (c, t))
      (\<lambda>p r. TI u (fst p) a st n r \<and> F (r_session r) \<and> length (fst p) \<le> capacity)"
    if "length c \<le> capacity" for c t
    by (rule valid_return) (simp add: that)
  have read: "valid (?P collected) (emits (\<lambda>_. [SysRead bs])) (\<lambda>_. ?P (collected @ bs))" for bs
    by (rule valid_emits) (simp add: TI_read)
  show ?case
    unfolding collect.simps
  proof (rule keeps_bind, rule keeps_ask, rule valid_sys_bind [where A =
        "\<lambda>bs. length (collected @ bs) \<le> capacity"], unfold sysret.case)
    fix bs
    assume "length (collected @ bs) \<le> capacity"
    then show "valid (?P collected) (State_Monad.bind
        (ask (\<lambda>s. read_batches_per_event_loop_turn (s_config s)))
        (\<lambda>turn. if bs = [] then State_Monad.return (collected, True)
          else State_Monad.bind (emits (\<lambda>_. [SysRead bs]))
            (\<lambda>_. if turn = 0 \<or> length (collected @ bs) = capacity \<or>
                   kMaximumReadBatchesPerTurn \<le> attempts + 1
                 then State_Monad.return (collected @ bs, False)
                 else collect os k capacity (collected @ bs) (attempts + 1))))
        (\<lambda>p r. TI u (fst p) a st n r \<and> F (r_session r) \<and> length (fst p) \<le> capacity)"
      by (intro keeps_bind keeps_ask valid_if stop Suc.IH valid_bind [OF read]) simp_all
  next
    fix e
    show "valid (?P collected) (State_Monad.bind
        (ask (\<lambda>s. read_batches_per_event_loop_turn (s_config s)))
        (\<lambda>turn. if e = EIO then State_Monad.return (collected, True)
          else if e = EINTR then collect os k capacity collected attempts
          else if e = EAGAIN then State_Monad.return (collected, False)
          else State_Monad.return (collected, True)))
        (\<lambda>p r. TI u (fst p) a st n r \<and> F (r_session r) \<and> length (fst p) \<le> capacity)"
      by (intro keeps_bind keeps_ask valid_if stop Suc.IH Suc.prems)
  next
    fix master w v w'
    assume "os_read os master (capacity - length collected) w = (Ok v, w')"
    then have "length v \<le> capacity - length collected" using os unfolding os_bounded_def by blast
    with Suc.prems show "length (collected @ v) \<le> capacity" by simp
  qed simp
qed

text \<open>Publishing what was read opens a batch; the event that carries it closes it.\<close>

lemma push_output_inv:
  assumes inv: "session_inv s" and run: "s_state s = kRunning" and ne: "bs \<noteq> []"
    and fits: "s_read_in_flight_bytes s + length bs \<le> read_high_water (s_config s)"
  shows "session_inv (push_output bs s)"
proof -
  have "map sequence (s_outstanding s) @ [s_next_sequence s] =
    run_of (s_next_sequence s - of_nat (length (s_outstanding s))) (Suc (length (s_outstanding s)))"
    using inv by (simp add: session_inv_defs run_of_snoc)
  then show ?thesis
    using inv run ne fits by (auto simp: session_inv_defs push_output_def Let_def)
qed

definition next_batch :: "byte list \<Rightarrow> session \<Rightarrow> OutputBatch" where
  "next_batch bs s = \<lparr>sequence = s_next_sequence s, batch_bytes = bs\<rparr>"

lemma TI_push_output:
  assumes t: "TI [] bs a kRunning n r" and ne: "bs \<noteq> []"
    and fits: "s_read_in_flight_bytes (r_session r) + length bs \<le>
      read_high_water (s_config (r_session r))"
  shows "TI [next_batch bs (r_session r)] [] a kRunning n
    (r\<lparr>r_session := push_output bs (r_session r)\<rparr>)"
proof -
  let ?s = "r_session r" let ?o = "outputs (r_trace r)"
  from t have inv: "session_inv ?s" and run: "s_state ?s = kRunning"
    and w: "window [] bs ?s (r_trace r)" and f: "fifo a ?s (r_trace r)" by (simp_all add: TI_def)
  have "\<not> s_finished_reaping ?s" using inv run by (simp add: session_inv_defs)
  moreover have "fifo a (push_output bs ?s) (r_trace r)"
    using f pending_chunks_cong [of "push_output bs ?s" ?s]
    by (simp add: fifo_def push_output_def Let_def)
  moreover have "window [next_batch bs ?s] [] (push_output bs ?s) (r_trace r)"
  proof -
    from w have n: "s_next_sequence ?s = of_nat (length ?o)"
      and q: "map sequence ?o = run_of 0 (length ?o)"
      and rd: "reads (r_trace r) = concat (map batch_bytes ?o) @ bs"
      and ex: "\<exists>acked. ?o = acked @ s_outstanding ?s \<and> acks (r_trace r) = map batch_key acked"
      by (simp_all add: window_def)
    from n q have "map sequence (?o @ [next_batch bs ?s]) = run_of 0 (Suc (length ?o))"
      by (simp add: run_of_snoc next_batch_def)
    with ex n rd show ?thesis
      by (auto simp: window_def push_output_def Let_def next_batch_def)
  qed
  ultimately show ?thesis
    using t push_output_inv [OF inv run ne fits] by (simp add: TI_def push_output_def Let_def)
qed

lemma TI_emit_output:
  "TI [b] [] a st n r \<Longrightarrow>
   TI [] [] a st n (r\<lparr>r_trace := r_trace r @ Emit s DPTY_EVENT_OUTPUT (sequence b)
     (Some (batch_bytes b)) len v1 v2 e\<rparr>)"
  by (cases b) (simp add: TI_def fifo_def window_def trace_Cons Emit_def event_output_def)

text \<open>What the read loop knows between its two critical sections: the batch still fits.\<close>

definition room :: "nat \<Rightarrow> session \<Rightarrow> bool" where
  "room k s \<longleftrightarrow> s_read_in_flight_bytes s + k \<le> read_high_water (s_config s)"

lemma stable_room: "stable (room k)"
  unfolding stable_def
proof (intro allI impI)
  fix s t
  assume r: "rely s t" and k: "room k s"
  from r have "s_config t = s_config s" by (rule rely_eq)
  moreover from r have "s_read_in_flight_bytes t \<le> s_read_in_flight_bytes s" by (simp add: rely_def)
  ultimately show "room k t" using k by (simp add: room_def)
qed

lemma filter_blind_room: "filter_blind (room k)"
  by (simp add: filter_blind_def room_def)

lemma room_mono: "room k s \<Longrightarrow> j \<le> k \<Longrightarrow> room j s"
  by (simp add: room_def)

lemma TI_set_eof:
  "TI u g a st n r \<Longrightarrow> TI u g a st n (r\<lparr>r_session := (r_session r)\<lparr>s_master_eof := True\<rparr>\<rparr>)"
  by (rule TI_quiet_update) (simp_all add: TI_def)

lemma set_eof_valid:
  assumes "stable F" "filter_blind F"
  shows "keeps (\<lambda>r. TI u g a st n r \<and> F (r_session r)) (do_if t (do {
      upd (\<lambda>s. s\<lparr>s_master_eof := True\<rparr>);
      SetReadEnabled os False
    }))"
  by (intro vcg SetReadEnabled_keeps_and assms valid_upd)
    (use assms(2) in \<open>auto simp: filter_blind_def intro: TI_set_eof\<close>)

lemma push_valid:
  assumes "bytes \<noteq> []"
  shows "valid (\<lambda>r. (TI [] bytes a kRunning n r \<and> room (length bytes) (r_session r)) \<and>
      s_next_sequence (r_session r) = sq)
    (upd (push_output bytes)) (\<lambda>_. TI [\<lparr>sequence = sq, batch_bytes = bytes\<rparr>] [] a kRunning n)"
proof (rule valid_upd)
  fix r :: "'w reactor"
  assume p: "(TI [] bytes a kRunning n r \<and> room (length bytes) (r_session r)) \<and>
    s_next_sequence (r_session r) = sq"
  then have "next_batch bytes (r_session r) = \<lparr>sequence = sq, batch_bytes = bytes\<rparr>"
    by (simp add: next_batch_def)
  with p show "TI [\<lparr>sequence = sq, batch_bytes = bytes\<rparr>] [] a kRunning n
      (r\<lparr>r_session := push_output bytes (r_session r)\<rparr>)"
    using TI_push_output [of bytes a n r] assms by (simp add: room_def)
qed

lemma emit_output_valid:
  "valid (TI [\<lparr>sequence = sq, batch_bytes = bytes\<rparr>] [] a st n)
    (emits (\<lambda>s. Emit s DPTY_EVENT_OUTPUT sq (Some bytes) len v1 v2 e)) (\<lambda>_. TI [] [] a st n)"
  by (rule valid_emits) (auto dest: TI_emit_output)

text \<open>One batch, once the room for it is known.\<close>

lemma collected_valid:
  assumes "os_bounded os"
  shows "valid (\<lambda>r. TI [] [] a kRunning n r \<and> room available (r_session r))
    (collect os fuel available [] 0)
    (\<lambda>p r. TI [] (fst p) a kRunning n r \<and> room (length (fst p)) (r_session r))"
  by (rule valid_post, rule collect_valid [OF assms]) (auto elim: room_mono)

lemma ask_twice:
  "valid (\<lambda>r. P r \<and> Q (r_session r)) (ask f) (\<lambda>_ r. P r \<and> Q (r_session r))"
  by (rule valid_ask)

lemma read_batches_keeps:
  assumes os: "os_bounded os"
  shows "keeps (TI [] [] a kRunning n) (read_batches os fuel k)"
proof (induction k)
  case 0
  then show ?case by (auto intro!: vcg thread_keeps quiet_upd)
next
  case (Suc k)
  show ?case
    unfolding read_batches.simps
    apply (rule keeps_bind, rule lock_TI, rule valid_ask_bind, rule valid_if)
    subgoal
      by (rule valid_pre [where P = "TI [] [] a kRunning n"], intro vcg thread_keeps quiet_upd) auto
    subgoal for full
      apply (rule valid_ask_bind)
      subgoal for available
        apply (rule valid_pre [where P = "\<lambda>r. TI [] [] a kRunning n r \<and> room available (r_session r)"])
         apply (rule valid_bind, rule collected_valid [OF os])
        subgoal for p
          apply (cases p, simp only: prod.case fst_conv)
          apply (rule keeps_bind, rule set_eof_valid [OF stable_room filter_blind_room])
          apply (rule valid_if, rule valid_return, simp)
          apply (rule keeps_bind, rule lock_TI_stable [OF stable_room])
          apply (rule valid_ask_bind, rule valid_bind, rule ask_twice)
          apply (rule valid_bind, rule push_valid, assumption)
          apply (rule keeps_bind, rule valid_do_if, rule SetReadEnabled_keeps, assumption)
          apply (rule valid_bind, rule emit_output_valid)
          by (rule valid_if, rule valid_return, assumption, rule Suc.IH)
        by (auto simp: room_def)
      done
    done
qed

lemma ReadAvailable_keeps:
  "os_bounded os \<Longrightarrow> keeps (TI [] [] a kRunning n) (ReadAvailable os fuel)"
  unfolding ReadAvailable_def by (intro vcg read_batches_keeps quiet_upd) simp_all

section \<open>Flushing\<close>

text \<open>
  What the write loop knows while the mutex is free: the request it is writing is still at
  the front, at the same offset, because the callers only add at the back.
\<close>

definition front :: "byte list \<Rightarrow> session \<Rightarrow> bool" where
  "front bs s \<longleftrightarrow> \<not> s_child_completed s \<and>
     (\<exists>w ws. s_writes s = w # ws \<and> drop (s_write_offset s) (write_bytes w) = bs)"

lemma stable_front: "stable (front bs)"
  unfolding stable_def
proof (intro allI impI)
  fix s t
  assume r: "rely s t" and f: "front bs s"
  note eq = rely_eq [OF r]
  from r obtain ws where "s_writes t = s_writes s @ ws" by (auto simp: rely_def)
  with f show "front bs t" by (auto simp: front_def eq)
qed

lemma TI_write:
  "TI u g a st n r \<Longrightarrow> TI u g (a @ bs) st n (r\<lparr>r_trace := r_trace r @ [SysWrite bs]\<rparr>)"
  by (auto simp: TI_def fifo_def window_def trace_Cons)

lemma pending_chunks_observe: "pending_chunks (observe_dequeue s) = pending_chunks s"
  by (simp add: observe_dequeue_def pending_chunks_def split: list.split)

lemma observe_dequeue_frame [simp]:
  "s_state (observe_dequeue s) = s_state s"
  "s_child_completed (observe_dequeue s) = s_child_completed s"
  "s_outstanding (observe_dequeue s) = s_outstanding s"
  "s_next_sequence (observe_dequeue s) = s_next_sequence s"
  "s_finished_reaping (observe_dequeue s) = s_finished_reaping s"
  "s_master_eof (observe_dequeue s) = s_master_eof s"
  by (simp_all add: observe_dequeue_def split: list.split)

lemma observe_dequeue_inv: "session_inv s \<Longrightarrow> session_inv (observe_dequeue s)"
  by (cases "s_writes s")
    (auto simp: observe_dequeue_def session_inv_defs offset_ok_def)

lemma TI_observe:
  assumes "TI u g a st n r"
  shows "TI u g a st n (r\<lparr>r_session := observe_dequeue (r_session r)\<rparr>)"
proof -
  have "session_inv (observe_dequeue (r_session r)) = session_inv (r_session r)"
    using assms observe_dequeue_inv by (simp add: TI_def)
  then have "TI u g a st n (r\<lparr>r_session := observe_dequeue (r_session r)\<rparr>) = TI u g a st n r"
    by (rule TI_frame) (simp_all add: pending_chunks_observe)
  with assms show ?thesis by simp
qed

lemma front_observe: "front bs s \<Longrightarrow> front bs (observe_dequeue s)"
  by (auto simp: front_def observe_dequeue_def)

text \<open>What the terminal took leaves the queue.\<close>

lemma sum_len_tl:
  "s_writes s = w # ws \<Longrightarrow> write_inv s \<Longrightarrow>
   s_write_queued_bytes s + s_write_offset s = length (write_bytes w) + sum_len (map write_bytes ws)"
  by (simp add: write_inv_def)

lemma consume_write_inv:
  assumes inv: "session_inv s" and f: "front bs s" and c: "c \<le> length bs"
  shows "session_inv (consume_write c s)"
proof -
  from f obtain w ws where w: "s_writes s = w # ws"
    and bs: "bs = drop (s_write_offset s) (write_bytes w)" by (auto simp: front_def)
  from inv have wi: "write_inv s" by (simp add: session_inv_def)
  with w have off: "s_write_offset s < length (write_bytes w)"
    by (simp add: write_inv_def offset_ok_def)
  note sum = sum_len_tl [OF w wi]
  have "write_inv (consume_write c s)"
  proof (cases "front_finished c s")
    case True
    then have "s_write_offset s + c = length (write_bytes w)" by (simp add: front_finished_def w)
    moreover have "offset_ok ws 0" using wi by (cases ws) (auto simp: write_inv_def offset_ok_def w)
    ultimately show ?thesis
      using wi sum by (auto simp: write_inv_def consume_write_def Let_def True w)
  next
    case False
    then have "s_write_offset s + c < length (write_bytes w)"
      using c off by (simp add: front_finished_def w bs)
    then show ?thesis
      using wi sum c by (auto simp: write_inv_def consume_write_def Let_def False w offset_ok_def bs)
  qed
  then show ?thesis
    using inv f by (simp add: session_inv_def output_inv_def life_inv_def consume_write_def Let_def
        front_def)
qed

lemma pending_consume:
  assumes inv: "session_inv s" and f: "front bs s" and c: "c \<le> length bs"
  shows "concat (pending_chunks s) = take c bs @ concat (pending_chunks (consume_write c s))"
proof -
  from f obtain w ws where w: "s_writes s = w # ws"
    and bs: "bs = drop (s_write_offset s) (write_bytes w)" by (auto simp: front_def)
  show ?thesis
  proof (cases "front_finished c s")
    case True
    then have "take c bs = bs" by (simp add: front_finished_def w bs)
    moreover have "pending_chunks (consume_write c s) = map write_bytes ws"
      by (simp add: pending_chunks_def consume_write_def Let_def True w split: list.split)
    ultimately show ?thesis by (simp add: pending_chunks_def w bs)
  next
    case False
    then have "pending_chunks (consume_write c s) = drop c bs # map write_bytes ws"
      by (simp add: pending_chunks_def consume_write_def Let_def w bs add.commute)
    moreover have "pending_chunks s = bs # map write_bytes ws" by (simp add: pending_chunks_def w bs)
    ultimately show ?thesis by (simp del: append_assoc add: append_assoc [symmetric])
  qed
qed

lemma TI_consume:
  assumes t: "TI u g (take c bs) st n r" and f: "front bs (r_session r)" and c: "c \<le> length bs"
  shows "TI u g [] st n (r\<lparr>r_session := consume_write c (r_session r)\<rparr>)"
proof -
  let ?s = "r_session r"
  from t have inv: "session_inv ?s" by (simp add: TI_def)
  from t have "fifo (take c bs) ?s (r_trace r)" by (simp add: TI_def)
  then have "fifo [] (consume_write c ?s) (r_trace r)"
    using pending_consume [OF inv f c]
    by (auto simp: fifo_def consume_write_def Let_def)
  then show ?thesis
    using t consume_write_inv [OF inv f c]
    by (simp add: TI_def window_def exit_ready_def) (simp add: consume_write_def Let_def)
qed

lemma EmitStateSnapshot_keeps_and:
  assumes "stable F"
  shows "keeps (\<lambda>r. TI u g a st n r \<and> F (r_session r)) (EmitStateSnapshot os q)"
  unfolding EmitStateSnapshot_def fd_tcgetpgrp_def Let_def
  by (intro vcg sys_keeps_and lock_TI_stable assms emits_keeps_and valid_set_errno) simp_all

definition alive :: "session \<Rightarrow> bool" where
  "alive s \<longleftrightarrow> \<not> s_child_completed s"

lemma stable_alive: "stable alive"
  unfolding stable_def alive_def by (auto dest: rely_eq(8))

lemma front_alive: "front bs s \<Longrightarrow> alive s"
  by (simp add: front_def alive_def)

lemma observe_valid:
  "keeps (\<lambda>r. TI u g a st n r \<and> front bs (r_session r)) (upd observe_dequeue)"
  by (rule valid_upd) (simp add: TI_observe front_observe)

lemma consume_valid:
  assumes "c \<le> length bs"
  shows "valid (\<lambda>r. TI u g (take c bs) st n r \<and> front bs (r_session r)) (upd (consume_write c))
    (\<lambda>_ r. TI u g [] st n r \<and> alive (r_session r))"
proof (rule valid_upd)
  fix r :: "'a reactor"
  assume r: "TI u g (take c bs) st n r \<and> front bs (r_session r)"
  then have "\<not> s_child_completed (consume_write c (r_session r))"
    by (simp add: front_def consume_write_def Let_def)
  with r show "TI u g [] st n (r\<lparr>r_session := consume_write c (r_session r)\<rparr>) \<and>
      alive (r_session (r\<lparr>r_session := consume_write c (r_session r)\<rparr>))"
    by (simp add: alive_def TI_consume [OF _ _ assms])
qed

lemma flush_loop_keeps:
  assumes os: "os_bounded os"
  shows "valid (\<lambda>r. TI u g [] st n r \<and> alive (r_session r)) (flush_loop os k batches written)
    (\<lambda>_. TI u g [] st n)"
proof (induction k arbitrary: batches written)
  case 0
  then show ?case by (simp add: valid_def hang_def)
next
  case (Suc k)
  have stop: "valid (\<lambda>r. TI u g [] st n r \<and> F r) (m :: ('a, unit) thread) (\<lambda>_. TI u g [] st n)"
    if "keeps (TI u g [] st n) m" for F m
    using that by (rule valid_pre) simp
  have wr: "valid (\<lambda>r. TI u g [] st n r \<and> F (r_session r)) (emits (\<lambda>_. [SysWrite bs]))
      (\<lambda>_ r. TI u g bs st n r \<and> F (r_session r))" for F and bs :: "byte list"
    by (rule valid_emits) (use TI_write [of u g "[]"] in auto)
  show ?case
    unfolding flush_loop.simps Let_def
    apply (rule keeps_bind, rule lock_TI_stable [OF stable_alive], rule valid_ask_bind)
    subgoal for _ ws
      apply (cases ws, simp_all only: list.case)
       apply (rule valid_pre [OF SetWriteEnabled_keeps], simp)
      subgoal for w ws'
        apply (rule valid_ask_bind)
        subgoal for off
          apply (rule valid_pre [where P = "\<lambda>r. TI u g [] st n r \<and>
              front (drop off (write_bytes w)) (r_session r)"])
           apply (rule keeps_bind, rule keeps_ask, rule keeps_bind)
            apply (rule valid_do_if, rule keeps_bind, rule observe_valid, rule keeps_bind)
              apply (rule emits_keeps_and, simp)
             apply (rule EmitStateSnapshot_keeps_and [OF stable_front], assumption)
           apply (rule keeps_bind, rule keeps_ask)
           apply (rule valid_sys_bind [where A = "\<lambda>c. c \<le> length (drop off (write_bytes w))"])
              apply (simp only: sysret.case)
              apply (rule valid_if, rule valid_return, simp)
              apply (rule valid_bind, rule wr, rule keeps_bind, rule lock_TI_stable [OF stable_front])
              apply (rule keeps_bind, rule keeps_ask, rule valid_bind, rule consume_valid, assumption)
              apply (rule keeps_bind, rule keeps_ask, rule keeps_bind, rule valid_do_if)
                apply (rule emits_keeps_and, simp, assumption)
              apply (rule valid_if, rule stop, rule emits_keeps, simp, rule Suc.IH)
             apply (simp only: sysret.case)
             apply (rule valid_if, rule valid_pre [OF Suc.IH])
              apply (blast intro: front_alive)
             apply (rule valid_if, rule stop, rule SetWriteEnabled_keeps)
             apply (rule stop, rule valid_do_if, rule emits_keeps, simp, assumption)
          using os unfolding os_bounded_def apply blast
           apply simp
          by (auto simp: front_def alive_def)
        done
      done
    done
qed

lemma FlushWrites_keeps:
  assumes "os_bounded os"
  shows "keeps (TI u g [] st n) (FlushWrites os fuel)"
  unfolding FlushWrites_def
  by (rule valid_ask_bind, rule valid_if, rule valid_return, simp,
      rule valid_pre [OF flush_loop_keeps [OF assms]]) (simp add: alive_def)

end
