(* ===== verification/Pty_Lifecycle.thy ===== *)
theory Pty_Lifecycle
  imports Pty_Reactor_Keeps
begin

text \<open>
  The rest of the reactor: reaping, the callers' requests, the end of the session, the event
  loop and \<open>Run\<close>. Its last lemma is the invariant of the whole thread from the spawn on.
\<close>

section \<open>Reaping\<close>

lemma ObserveProcessExitReady_keeps [thread_keeps]:
  "keeps (TI u g a st n) (ObserveProcessExitReady child hint ok)"
  unfolding ObserveProcessExitReady_def by (intro vcg thread_keeps quiet_upd) simp_all

lemma ObserveProcessExitReady_alive:
  "keeps (\<lambda>r. TI u g a st n r \<and> alive (r_session r)) (ObserveProcessExitReady child hint ok)"
  unfolding ObserveProcessExitReady_def
  by (intro vcg upd_and quiet_upd emits_keeps_and) (simp_all add: alive_def)

text \<open>Once the child is gone its queue is dropped: what was pending is never written.\<close>

lemma complete_inv:
  assumes "session_inv s" "alive s"
  shows "session_inv (complete_reaped status s)" "session_inv (complete_external s)"
  using assms
  by (auto simp: session_inv_defs complete_reaped_def complete_external_def drop_writes_def alive_def
      offset_ok_def)

lemma TI_complete:
  assumes t: "TI u g [] st n r" and al: "alive (r_session r)"
    and s': "s' = complete_reaped status (r_session r) \<or> s' = complete_external (r_session r)"
  shows "TI u g [] st n (r\<lparr>r_session := s'\<rparr>)"
proof -
  let ?s = "r_session r"
  have "session_inv ?s" using t by (simp add: TI_def)
  then have inv: "session_inv s'" using s' complete_inv al by auto
  have eq: "s_state s' = s_state ?s" "s_outstanding s' = s_outstanding ?s" "s_child_completed s'"
    "s_next_sequence s' = s_next_sequence ?s" "s_finished_reaping s' = s_finished_reaping ?s"
    "s_master_eof s' = s_master_eof ?s" "pending_chunks s' = []"
    using s' by (auto simp: complete_reaped_def complete_external_def drop_writes_def
        pending_chunks_def)
  have "fifo [] ?s (r_trace r)" using t by (simp add: TI_def)
  then have "fifo [] s' (r_trace r)"
    using al by (auto simp: fifo_def eq alive_def)
  moreover have "exit_ready ?s \<Longrightarrow> exit_ready s'" by (simp add: exit_ready_def eq)
  ultimately show ?thesis using t inv by (simp add: TI_def window_def eq)
qed

lemma complete_valid:
  assumes "\<And>s. f s = complete_reaped status s \<or> f s = complete_external s"
  shows "valid (\<lambda>r. TI u g [] st n r \<and> alive (r_session r)) (upd f) (\<lambda>_. TI u g [] st n)"
  by (rule valid_upd) (rule TI_complete [where status = status], use assms in auto)

lemma ReapChild_keeps [thread_keeps]:
  "keeps (TI u g [] st n) (ReapChild os)"
proof -
  let ?A = "\<lambda>r. TI u g [] st n r \<and> alive (r_session r)"
  have weak: "valid ?A (m :: ('a, unit) thread) (\<lambda>_. TI u g [] st n)" if "keeps (TI u g [] st n) m" for m
    using that by (rule valid_pre) simp
  show ?thesis
    unfolding ReapChild_def Let_def
    apply (rule valid_ask_bind, rule valid_if, rule valid_return, simp)
    apply (rule valid_pre [where P = ?A])
     apply (rule keeps_bind, rule lock_TI_stable [OF stable_alive], rule keeps_bind, rule keeps_ask)
     apply (rule valid_if, rule valid_return, simp)
     apply (rule keeps_bind, rule valid_set_errno, simp, rule keeps_bind, rule sys_keeps_and)
     apply (rule keeps_bind, rule keeps_get_errno)
    subgoal for _ _ child _ x e
      apply (cases "case x of Ok p \<Rightarrow> p | Fail _ \<Rightarrow> (- 1, 0)", simp only: prod.case)
      apply (rule valid_if)
       apply (rule keeps_bind, rule ObserveProcessExitReady_alive, rule keeps_bind)
        apply (rule lock_TI_stable [OF stable_alive], rule keeps_bind, rule emits_keeps_and, simp)
       apply (rule valid_bind, rule complete_valid, rule disjI1, rule refl)
       apply (rule emits_keeps, simp)
      apply (rule valid_if)
       apply (rule weak, intro vcg thread_keeps quiet_upd; simp)
      apply (rule valid_do_if)
       apply (rule keeps_bind, rule lock_TI_stable [OF stable_alive], rule keeps_bind, rule keeps_ask)
       apply (rule keeps_bind, rule upd_and, rule quiet_upd, simp_all add: alive_def)
      apply (fold alive_def)
      apply (rule keeps_bind, rule keeps_ask, rule valid_bind [where R = "\<lambda>_. TI u g [] st n"])
       apply (rule valid_do_if, rule complete_valid [where status = 0], rule disjI2, rule refl, simp)
      by (intro vcg thread_keeps; simp)
    by (simp add: alive_def)
qed

section \<open>The callers' requests\<close>

lemma clear_control_inv: "session_inv s \<Longrightarrow> session_inv (clear_control s)"
  by (auto simp: session_inv_defs clear_control_def)

lemma clear_control_keeps: "keeps (TI u g a st n) (upd clear_control)"
  by (rule quiet_upd) (simp_all add: clear_control_inv, simp_all add: clear_control_def)

lemma ProcessControl_keeps:
  assumes "os_bounded os"
  shows "keeps (TI [] [] [] kRunning n) (ProcessControl os fuel)"
  unfolding ProcessControl_def
  apply (rule keeps_bind, rule lock_TI, rule keeps_bind, rule keeps_ask, rule keeps_bind)
   apply (rule clear_control_keeps, rule keeps_bind, rule keeps_ask, rule keeps_bind)
  subgoal for _ c
    by (cases "ctl_resize c") (auto intro!: vcg thread_keeps)
  by (intro vcg thread_keeps quiet_upd ReadAvailable_keeps FlushWrites_keeps assms; simp)

section \<open>The end of a session\<close>

lemma stable_exit_ready: "stable exit_ready"
  unfolding stable_def
proof (intro allI impI)
  fix s t
  assume r: "rely s t" and e: "exit_ready s"
  note eq = rely_eq [OF r]
  from r e have "s_outstanding t = []" by (auto simp: rely_def exit_ready_def)
  with e show "exit_ready t" by (simp add: exit_ready_def eq)
qed

lemma finished_inv:
  "session_inv s \<Longrightarrow> session_inv (s\<lparr>s_state := kFinished\<rparr>)"
  "session_inv s \<Longrightarrow> session_inv (s\<lparr>s_state := kFinished, s_child_pid := p\<rparr>)"
  "session_inv s \<Longrightarrow> s_state s = kFinished \<Longrightarrow> session_inv (s\<lparr>s_finished_reaping := True\<rparr>)"
  by (simp_all add: session_inv_defs)

lemma pending_chunks_finished [simp]:
  "pending_chunks (s\<lparr>s_state := st\<rparr>) = pending_chunks s"
  "pending_chunks (s\<lparr>s_state := st, s_child_pid := p\<rparr>) = pending_chunks s"
  "pending_chunks (s\<lparr>s_finished_reaping := b\<rparr>) = pending_chunks s"
  by (auto intro!: pending_chunks_cong)

lemma TI_finish:
  assumes "TI u g a st n r"
  shows "TI u g a kFinished n (r\<lparr>r_session := (r_session r)\<lparr>s_state := kFinished\<rparr>\<rparr>)"
    "TI u g a kFinished n (r\<lparr>r_session := (r_session r)\<lparr>s_state := kFinished, s_child_pid := p\<rparr>\<rparr>)"
  using assms by (simp_all add: TI_def fifo_def window_def exit_ready_def finished_inv)

lemma TI_terminal:
  "t = DPTY_EVENT_EXIT \<or> t = DPTY_EVENT_ERROR \<Longrightarrow> TI u g a st n r \<Longrightarrow>
   TI u g a st (Suc n) (r\<lparr>r_trace := r_trace r @ Emit s t sq d len v1 v2 e\<rparr>)"
  by (auto simp: TI_def fifo_def window_def trace_Cons Emit_def event_output_def)

lemma TI_finished_reaping:
  assumes "TI u g a kFinished n r" "exit_ready (r_session r)"
  shows "TI u g a kFinished n (r\<lparr>r_session := (r_session r)\<lparr>s_finished_reaping := True\<rparr>\<rparr>)"
  using assms by (simp add: TI_def fifo_def window_def exit_ready_def finished_inv)

lemma FinishExit_valid:
  "valid (\<lambda>r. TI u g a st n r \<and> exit_ready (r_session r)) (FinishExit os)
     (\<lambda>_ r. TI u g a kFinished (Suc n) r \<and> s_finished_reaping (r_session r))"
proof -
  have fin: "valid (\<lambda>r :: 'a reactor. TI u g a st n r \<and> exit_ready (r_session r))
      (upd (\<lambda>s. s\<lparr>s_state := kFinished\<rparr>)) (\<lambda>_ r. TI u g a kFinished n r \<and> exit_ready (r_session r))"
    by (rule valid_upd) (auto intro: TI_finish(1) simp: exit_ready_def)
  have reap: "valid (\<lambda>r :: 'a reactor. TI u g a kFinished n r \<and> exit_ready (r_session r))
      (upd (\<lambda>s. s\<lparr>s_finished_reaping := True\<rparr>))
      (\<lambda>_ r. TI u g a kFinished n r \<and> s_finished_reaping (r_session r))"
    by (rule valid_upd) (auto intro: TI_finished_reaping)
  show ?thesis
    unfolding FinishExit_def Let_def
    apply (rule keeps_bind, rule keeps_ask)
    subgoal for status
      apply (cases "exit_report status", simp only: prod.case)
      apply (rule keeps_bind, rule lock_TI_stable [OF stable_exit_ready])
      apply (rule valid_bind, rule fin, rule valid_bind, rule reap)
      apply (rule keeps_bind, rule emits_keeps_and, simp)
      by (rule valid_emits) (auto intro: TI_terminal)
    done
qed

lemma FinishError_valid:
  "valid (TI u g a st n) (FinishError os status e) (\<lambda>_. TI u g a kFinished (Suc n))"
  unfolding FinishError_def
  by (rule keeps_bind, rule lock_TI, rule valid_bind, rule valid_upd, rule TI_finish(2), assumption,
      rule valid_emits, rule TI_terminal, simp)

lemma wait_child_keeps [thread_keeps]: "keeps (TI u g a st n) (wait_child os k child)"
  by (induction k) (auto intro!: vcg thread_keeps)

lemma TerminateAndReap_keeps [thread_keeps]: "keeps (TI u g a st n) (TerminateAndReap os k sig)"
  unfolding TerminateAndReap_def by (intro vcg thread_keeps)

lemma CloseDescriptors_keeps [thread_keeps]: "keeps (TI u g a st n) (CloseDescriptors os)"
  unfolding CloseDescriptors_def by (intro vcg thread_keeps quiet_upd; simp)

section \<open>The event loop\<close>

lemma dispatch_all_keeps:
  assumes os: "os_bounded os"
  shows "keeps (TI [] [] [] kRunning n) (dispatch_all os fuel evs)"
proof (induction evs)
  case (Cons ev evs)
  have "keeps (TI [] [] [] kRunning n) (dispatch os fuel ev)"
    by (cases ev) (auto simp: dispatch_def intro!: vcg thread_keeps ReadAvailable_keeps
        FlushWrites_keeps os)
  with Cons show ?case by (auto intro: vcg)
qed (simp add: vcg)

text \<open>Between turns the session runs, or it has reported its end and the loop is over.\<close>

definition loop_inv :: "'w reactor \<Rightarrow> bool" where
  "loop_inv r \<longleftrightarrow> TI [] [] [] kRunning 0 r \<or>
     TI [] [] [] kFinished 1 r \<and> s_finished_reaping (r_session r)"

lemma exit_check_valid:
  "valid (\<lambda>r. TI [] [] [] kRunning 0 r \<and> s_child_completed (r_session r)) (do {
     outstanding_capacity \<leftarrow> ask (\<lambda>s. s_read_in_flight_bytes s < read_high_water (s_config s));
     outstanding_empty \<leftarrow> ask (\<lambda>s. s_outstanding s = []);
     eof \<leftarrow> ask s_master_eof;
     do_if ((eof \<or> \<not> outstanding_capacity) \<and> outstanding_empty) (FinishExit os)
   }) (\<lambda>_. loop_inv)"
  apply (rule valid_ask_bind, rule valid_ask_bind, rule valid_ask_bind, rule valid_do_if)
   apply (rule valid_conseq [OF FinishExit_valid [of "[]" "[]" "[]" kRunning 0]])
    apply (auto simp: loop_inv_def exit_ready_def TI_def session_inv_defs config_wf_def)
  done

text \<open>Reading does not bring a reaped child back.\<close>

definition gone :: "'w reactor \<Rightarrow> bool" where
  "gone r \<longleftrightarrow> s_state (r_session r) \<noteq> kCreated \<and> s_child_completed (r_session r)"

lemma lock_gone: "keeps gone (lock os)"
proof (rule valid_lock)
  fix r :: "'a reactor" and c
  assume g: "gone r"
  then have "rely (r_session r) (call_state c (r_session r))" by (intro call_rely) (simp add: gone_def)
  note eq = rely_eq [OF this]
  have "r_session (other_call c r) = call_state c (r_session r)"
    by (simp add: other_call_def call_state_def split: prod.split)
  with g show "gone (other_call c r)" by (simp add: gone_def eq)
qed (simp add: gone_def)

lemma gone_primitives:
  "(\<And>s. s_state (f s) = s_state s) \<Longrightarrow> (\<And>s. s_child_completed (f s) = s_child_completed s) \<Longrightarrow>
   keeps gone (upd f)"
  "keeps gone (emits h)" "keeps gone (sys c)" "keeps gone hang"
  by (auto intro!: valid_upd valid_emits valid_sys valid_hang simp: gone_def)

lemma ReadAvailable_gone: "keeps gone (ReadAvailable os fuel)"
proof -
  have filter: "keeps gone (SetReadEnabled os b)" for os :: "'a os" and b
    unfolding SetReadEnabled_def by (intro vcg lock_gone gone_primitives) simp_all
  have col: "keeps gone (collect os k c bs t)" for os :: "'a os" and k c bs t
  proof (induction k arbitrary: bs t)
    case (Suc k)
    then show ?case
      by (auto intro!: vcg gone_primitives)
  qed (auto intro!: vcg gone_primitives)
  have "keeps gone (read_batches os fuel k)" for k
  proof (induction k)
    case (Suc k)
    then show ?case
      by (auto intro!: vcg lock_gone gone_primitives filter col simp: push_output_def Let_def
          split: if_splits)
  qed (auto intro!: vcg gone_primitives)
  then show ?thesis
    unfolding ReadAvailable_def by (intro vcg gone_primitives) simp_all
qed

lemma valid_conj: "valid P m Q \<Longrightarrow> valid P' m Q' \<Longrightarrow>
  valid (\<lambda>s. P s \<and> P' s) m (\<lambda>x s. Q x s \<and> Q' x s)"
  by (fastforce simp: valid_def)

lemma exit_turn_valid:
  assumes "os_bounded os"
  shows "valid (\<lambda>r. TI [] [] [] kRunning 0 r \<and> gone r) (do {
     ReadAvailable os fuel;
     lock os;
     outstanding_capacity \<leftarrow> ask (\<lambda>s. s_read_in_flight_bytes s < read_high_water (s_config s));
     outstanding_empty \<leftarrow> ask (\<lambda>s. s_outstanding s = []);
     eof \<leftarrow> ask s_master_eof;
     do_if ((eof \<or> \<not> outstanding_capacity) \<and> outstanding_empty) (FinishExit os)
   }) (\<lambda>_. loop_inv)"
  by (rule keeps_bind, rule valid_conj, rule ReadAvailable_keeps [OF assms], rule ReadAvailable_gone,
      rule keeps_bind, rule valid_conj, rule lock_TI, rule lock_gone,
      rule valid_pre [OF exit_check_valid]) (simp add: gone_def)

lemma event_turn_valid:
  assumes os: "os_bounded os"
  shows "valid (TI [] [] [] kRunning 0) (event_turn os fuel)
    (\<lambda>go r. if go then loop_inv r else TI [] [] [] kFinished 1 r)"
  unfolding event_turn_def
  apply (rule keeps_bind, rule keeps_ask, rule keeps_bind, rule sys_keeps)
  apply (rule keeps_bind, rule keeps_get_errno, rule valid_if)
   apply (rule keeps_bind, rule TerminateAndReap_keeps, rule keeps_bind, rule keeps_get_errno)
   apply (rule valid_bind, rule FinishError_valid, rule valid_return, simp)
  apply (rule keeps_bind, rule dispatch_all_keeps [OF os])
  apply (rule keeps_bind, rule ProcessControl_keeps [OF os], rule keeps_bind, rule keeps_ask)
  apply (rule keeps_bind, rule valid_do_if, rule ReadAvailable_keeps [OF os], assumption)
  apply (rule keeps_bind, rule ReapChild_keeps, rule valid_ask_bind)
  apply (rule valid_bind [where R = "\<lambda>_. loop_inv"], rule valid_do_if)
    apply (rule valid_pre [OF exit_turn_valid [OF os]])
    apply (simp add: gone_def TI_def)
   apply (simp add: loop_inv_def)
  by (rule valid_return) simp

lemma EventLoop_valid:
  assumes os: "os_bounded os"
  shows "valid loop_inv (EventLoop os fuel turns)
    (\<lambda>_ r. TI [] [] [] kRunning 0 r \<or> TI [] [] [] kFinished 1 r)"
proof (induction turns)
  case 0
  then show ?case by (auto intro!: vcg simp: loop_inv_def)
next
  case (Suc turns)
  show ?case
    unfolding EventLoop.simps
    apply (rule valid_ask_bind, rule valid_if)
     apply (rule valid_return, simp add: loop_inv_def, blast)
    apply (rule valid_pre [where P = "TI [] [] [] kRunning 0"])
     apply (rule valid_bind, rule event_turn_valid [OF os])
    subgoal for _ go
      by (cases go) (simp_all only: do_if_def if_True if_False Suc.IH valid_return simp_thms)
    by (auto simp: loop_inv_def)
qed

section \<open>From the spawn to the end\<close>

lemma move_above_keeps [thread_keeps]:
  "keeps (TI u g a st n) (move_above_standard_descriptors os d)"
  unfolding move_above_standard_descriptors_def
  by (intro vcg thread_keeps; simp)

lemma set_close_on_exec_keeps [thread_keeps]: "keeps (TI u g a st n) (set_close_on_exec os d)"
  unfolding set_close_on_exec_def by (intro vcg thread_keeps; simp)

lemma prepare_pipe_keeps [thread_keeps]: "keeps (TI u g a st n) (prepare_pipe os p q)"
  unfolding prepare_pipe_def by (intro vcg thread_keeps; simp)

lemma prepare_master_keeps [thread_keeps]: "keeps (TI u g a st n) (prepare_master os d)"
  unfolding prepare_master_def by (intro vcg thread_keeps; simp)

lemma dpty_spawn_prepared_keeps [thread_keeps]:
  "keeps (TI u g a st n) (dpty_spawn_prepared os fuel c)"
  unfolding dpty_spawn_prepared_def
  by (intro vcg thread_keeps; simp)

lemma poll_exec_keeps [thread_keeps]: "keeps (TI u g a st n) (poll_exec os k d)"
proof (induction k)
  case (Suc k)
  then show ?case unfolding poll_exec.simps by (intro vcg thread_keeps)
qed (unfold poll_exec.simps, intro vcg thread_keeps)

lemma read_exec_keeps [thread_keeps]: "keeps (TI u g a st n) (read_exec os k d)"
proof (induction k)
  case (Suc k)
  then show ?case unfolding read_exec.simps by (intro vcg thread_keeps)
qed (unfold read_exec.simps, intro vcg thread_keeps)

lemma CheckExec_keeps [thread_keeps]: "keeps (TI u g a st n) (CheckExec os fuel)"
  unfolding CheckExec_def by (intro vcg thread_keeps quiet_upd; simp)

lemma ConfigureKqueue_keeps [thread_keeps]: "keeps (TI u g a st n) (ConfigureKqueue os)"
  unfolding ConfigureKqueue_def by (intro vcg thread_keeps quiet_upd; simp)

definition run_post :: "'w reactor \<Rightarrow> bool" where
  "run_post r \<longleftrightarrow> TI [] [] [] kRunning 0 r \<or> TI [] [] [] kFinished 1 r"

lemma abandon_valid: "valid (TI [] [] [] kRunning 0) (abandon os fuel e) (\<lambda>_. run_post)"
  unfolding abandon_def
  by (rule keeps_bind, rule TerminateAndReap_keeps, rule keeps_bind, rule CloseDescriptors_keeps,
      rule valid_post [OF FinishError_valid]) (simp add: run_post_def)

lemma valid_disj: "valid P m Q \<Longrightarrow> valid P' m Q' \<Longrightarrow>
  valid (\<lambda>s. P s \<or> P' s) m (\<lambda>x s. Q x s \<or> Q' x s)"
  by (fastforce simp: valid_def)

lemma CloseDescriptors_post: "keeps run_post (CloseDescriptors os)"
  unfolding run_post_def [abs_def]
  by (rule valid_disj [OF CloseDescriptors_keeps CloseDescriptors_keeps])

lemma adopt_keeps [thread_keeps]:
  "keeps (TI u g a st n) (upd (\<lambda>s. s\<lparr>s_master_fd := m, s_child_pid := p\<rparr>))"
  "keeps (TI u g a st n) (upd (\<lambda>s. s\<lparr>s_exec_error_fd := x\<rparr>))"
  by (rule quiet_upd; simp)+

lemma Run_valid:
  assumes os: "os_bounded os"
  shows "valid (TI [] [] [] kRunning 0) (Run os fuel turns) (\<lambda>_. run_post)"
  unfolding Run_def
  apply (rule keeps_bind, rule keeps_ask, rule keeps_bind, rule dpty_spawn_prepared_keeps)
  apply (rule valid_prod, rule valid_prod, rule valid_if)
   apply (rule valid_post [OF FinishError_valid], simp add: run_post_def)
  apply (rule keeps_bind, rule lock_TI, rule keeps_bind, rule adopt_keeps(1))
  apply (rule keeps_bind, rule adopt_keeps(2), rule keeps_bind, rule CheckExec_keeps)
  apply (rule valid_option, rule keeps_bind, rule ConfigureKqueue_keeps, rule valid_option)
    apply (rule keeps_bind, rule emits_keeps, simp)
    apply (rule keeps_bind, rule ProcessControl_keeps [OF os])
    apply (rule valid_bind [where R = "\<lambda>_. run_post"])
     apply (rule valid_conseq [OF EventLoop_valid [OF os]])
      apply (simp_all only: loop_inv_def run_post_def simp_thms)
  by (rule CloseDescriptors_post abandon_valid)+

text \<open>
  A session that was created from an accepted configuration and started, and its thread run
  for a number of turns of the event loop.
\<close>

definition started :: "u64 \<Rightarrow> OwnedConfig \<Rightarrow> session" where
  "started h c = fst (snd (Start True (SetHandle h (new_session c))))"

definition run_thread :: "'w os \<Rightarrow> nat \<Rightarrow> nat \<Rightarrow> 'w \<Rightarrow> session \<Rightarrow> 'w reactor" where
  "run_thread os fuel turns w s = snd (run_state (Run os fuel turns)
     \<lparr>r_session = s, r_world = w, r_errno = 0, r_trace = [], r_hung = False\<rparr>)"

lemma started_eq: "started h c = (SetHandle h (new_session c))\<lparr>s_state := kRunning\<rparr>"
  by (simp add: started_def Start_def SetHandle_def new_session_def)

lemma started_TI:
  assumes "config_wf c"
  shows "TI [] [] [] kRunning 0
    \<lparr>r_session = started h c, r_world = w, r_errno = 0, r_trace = [], r_hung = False\<rparr>"
proof -
  have "session_inv (started h c)"
    using Start_inv [OF session_inv_SetHandle [OF session_inv_new [OF assms]]]
    by (simp add: started_def)
  then show ?thesis
    by (simp add: TI_def fifo_def window_def pending_chunks_def started_eq SetHandle_def
        new_session_def)
qed

lemma run_thread_post:
  assumes "os_bounded os" "config_wf c"
  shows "run_post (run_thread os fuel turns w (started h c))"
  using validD [OF Run_valid [OF assms(1)] started_TI [OF assms(2)] surjective_pairing]
  by (simp add: run_thread_def)

text \<open>What the invariant says of a finished run, conjunct by conjunct.\<close>

lemma run_post_parts:
  assumes "run_post r"
  shows "session_inv (r_session r)"
    "fifo [] (r_session r) (r_trace r)" "window [] [] (r_session r) (r_trace r)"
    "terminals (r_trace r) = (if s_state (r_session r) = kFinished then 1 else 0)"
    "s_finished_reaping (r_session r) \<Longrightarrow> exit_ready (r_session r)"
    "s_state (r_session r) \<noteq> kCreated"
  using assms by (auto simp: run_post_def TI_def)

end
