(* ===== verification/Pty_Fuel.thy ===== *)
theory Pty_Fuel
  imports Pty_Spawn
begin

text \<open>
  The inner loops of the reactor end. Each of them goes round again only after it moved
  bytes, at most eight times, or after a signal interrupted a call, so on a system that
  interrupts finitely often an amount of fuel just above that budget is never used up: the
  flag \<open>r_hung\<close>, which a loop sets when its fuel is gone, stays false.
\<close>

section \<open>The invariant\<close>

definition calm_thread :: "('w \<Rightarrow> nat) \<Rightarrow> nat \<Rightarrow> 'w reactor \<Rightarrow> bool" where
  "calm_thread budget n r \<longleftrightarrow> \<not> r_hung r \<and> budget (r_world r) \<le> n"

named_theorems calm_keeps \<open>methods that never run out of fuel\<close>

lemma calm_mono: "calm_thread budget n r \<Longrightarrow> n \<le> m \<Longrightarrow> calm_thread budget m r"
  by (simp add: calm_thread_def)

lemma calm_local [calm_keeps]:
  "keeps (calm_thread budget n) (upd f)" "keeps (calm_thread budget n) (emits h)"
  "keeps (calm_thread budget n) (set_errno e)" "keeps (calm_thread budget n) (close_fd d)"
  by (auto intro!: valid_upd valid_emits valid_set_errno simp: close_fd_def calm_thread_def)

lemma calm_sys: "calm budget c \<Longrightarrow> keeps (calm_thread budget n) (sys c)"
  by (rule valid_sys) (auto simp: calm_thread_def calm_def intro: le_trans)

lemma interruptible_calm: "interruptible budget c \<Longrightarrow> calm budget c"
  unfolding interruptible_def calm_def by (meson add_leE)

lemma os_patient_calm:
  assumes "os_patient budget os"
  shows "calm budget (os_others os)" "calm budget (os_now os)"
    "calm budget (os_tcgetpgrp os d)" "calm budget (os_tcgetattr os d)"
    "calm budget (os_tiocswinsz os d nr nc)" "calm budget (os_getpgid os p)"
    "calm budget (os_kill os p sig)" "calm budget (os_waitpid_nohang os p)"
    "calm budget (os_kqueue os)" "calm budget (os_kevent_register os d m p)"
    "calm budget (os_kevent_wait os d)" "calm budget (os_pipe os)"
    "calm budget (os_getfd os d)" "calm budget (os_setfd os d f)"
    "calm budget (os_getfl os d)" "calm budget (os_setfl os d f)"
    "calm budget (os_dupfd_cloexec os d k)" "calm budget (os_forkpty os nr nc)"
  using assms by (simp_all add: os_patient_def)

lemma os_patient_interruptible:
  assumes "os_patient budget os"
  shows "interruptible budget (os_read os d n)" "interruptible budget (os_write os d bs)"
    "interruptible budget (os_poll os d n)" "interruptible budget (os_waitpid os p)"
  using assms by (simp_all add: os_patient_def)

lemma calm_lock: "os_patient budget os \<Longrightarrow> keeps (calm_thread budget n) (lock os)"
proof (rule validI)
  fix r :: "'a reactor" and x r'
  assume p: "os_patient budget os" and c: "calm_thread budget n r"
    and run: "run_state (lock os) r = (x, r')"
  obtain cs w where o: "os_others os (r_world r) = (cs, w)" by (cases "os_others os (r_world r)")
  have b: "budget w \<le> n" using os_patient_calm(1) [OF p] c o
    unfolding calm_def calm_thread_def by (meson le_trans)
  have calls: "calm_thread budget n q \<Longrightarrow> calm_thread budget n (fold other_call cs q)" for cs q
    by (induction cs arbitrary: q)
      (simp_all add: other_call_def calm_thread_def split_beta)
  have "calm_thread budget n (r\<lparr>r_world := w\<rparr>)" using b c by (simp add: calm_thread_def)
  from calls [OF this] show "calm_thread budget n r'"
    using run by (auto simp: lock_def o)
qed

lemma calm_now: "os_patient budget os \<Longrightarrow> keeps (calm_thread budget n) (now os)"
proof (rule valid_now)
  fix r :: "'a reactor" and t w
  assume "os_patient budget os" "calm_thread budget n r" "os_now os (r_world r) = (t, w)"
  then show "calm_thread budget n (r\<lparr>r_world := w\<rparr>)"
    using os_patient_calm(2) unfolding calm_thread_def calm_def by fastforce
qed

text \<open>An interrupted call has used up some of the budget.\<close>

lemma interrupt_bind:
  assumes i: "interruptible budget c" and "\<And>x. x \<noteq> Fail EINTR \<Longrightarrow> valid (calm_thread budget n) (f x) Q"
    and "\<And>m. n = Suc m \<Longrightarrow> valid (calm_thread budget m) (f (Fail EINTR)) Q"
  shows "valid (calm_thread budget n) (State_Monad.bind (sys c) f) Q"
proof (rule validI)
  fix r y r'
  assume p: "calm_thread budget n r" and run: "run_state (State_Monad.bind (sys c) f) r = (y, r')"
  obtain x w where c: "c (r_world r) = (x, w)" by (cases "c (r_world r)")
  let ?r = "r\<lparr>r_world := w, r_errno := (case x of Ok _ \<Rightarrow> r_errno r | Fail e \<Rightarrow> e)\<rparr>"
  have go: "run_state (f x) ?r = (y, r')" using run by (simp add: sys_def c)
  have b: "budget w + (if x = Fail EINTR then 1 else 0) \<le> n"
    using i c p unfolding interruptible_def calm_thread_def by (meson le_trans)
  show "Q y r'"
  proof (cases "x = Fail EINTR")
    case True
    with b obtain m where m: "n = Suc m" by (cases n) auto
    have "calm_thread budget m ?r" using b True m p by (simp add: calm_thread_def)
    with assms(3) [OF m] go True show ?thesis by (meson validD)
  next
    case False
    have "calm_thread budget n ?r" using b False p by (simp add: calm_thread_def)
    with assms(2) [OF False] go show ?thesis by (meson validD)
  qed
qed

section \<open>The loops\<close>

lemma calm_stop: "n \<le> m \<Longrightarrow> valid (calm_thread budget n) (State_Monad.return x) (\<lambda>_. calm_thread budget m)"
  by (rule valid_return) (simp add: calm_thread_def)

lemma calm_weaken:
  "n \<le> m \<Longrightarrow> keeps (calm_thread budget n) c \<Longrightarrow> valid (calm_thread budget n) c (\<lambda>_. calm_thread budget m)"
  by (erule valid_post) (rule calm_mono)

lemma collect_calm:
  assumes p: "os_patient budget os"
  shows "n + (kMaximumReadBatchesPerTurn - attempts) < k \<Longrightarrow>
    attempts < kMaximumReadBatchesPerTurn \<Longrightarrow> n \<le> m \<Longrightarrow>
    valid (calm_thread budget n) (collect os k capacity collected attempts)
      (\<lambda>_. calm_thread budget m)"
proof (induction k arbitrary: n collected attempts)
  case (Suc k)
  show ?case
    unfolding collect.simps
    apply (rule keeps_bind, rule keeps_ask)
    apply (rule interrupt_bind [OF os_patient_interruptible(1) [OF p]])
     apply (intro keeps_bind keeps_ask valid_sysret valid_if calm_stop calm_local Suc.IH)
    using Suc.prems apply (simp_all, arith)
    by (intro keeps_bind keeps_ask Suc.IH) simp_all
qed simp

lemma fd_tcgetpgrp_calm:
  "os_patient budget os \<Longrightarrow> keeps (calm_thread budget n) (fd_tcgetpgrp os d)"
  unfolding fd_tcgetpgrp_def by (intro vcg calm_sys os_patient_calm)

lemma EmitStateSnapshot_calm:
  "os_patient budget os \<Longrightarrow> keeps (calm_thread budget n) (EmitStateSnapshot os q)"
  unfolding EmitStateSnapshot_def Let_def
  by (intro vcg calm_keeps calm_sys os_patient_calm calm_lock fd_tcgetpgrp_calm)

lemma SetReadEnabled_calm:
  "os_patient budget os \<Longrightarrow> keeps (calm_thread budget n) (SetReadEnabled os b)"
  unfolding SetReadEnabled_def by (intro vcg calm_keeps calm_lock)

lemma SetWriteEnabled_calm:
  "keeps (calm_thread budget n) (SetWriteEnabled os b)"
  unfolding SetWriteEnabled_def by (intro vcg calm_keeps)

lemma flush_loop_calm:
  assumes p: "os_patient budget os"
  shows "n + (kMaximumWriteBatchesPerTurn - batches) < k \<Longrightarrow>
    batches < kMaximumWriteBatchesPerTurn \<Longrightarrow> n \<le> m \<Longrightarrow>
    valid (calm_thread budget n) (flush_loop os k batches written) (\<lambda>_. calm_thread budget m)"
proof (induction k arbitrary: n batches written)
  case (Suc k)
  show ?case
    unfolding flush_loop.simps Let_def
    apply (rule keeps_bind, rule calm_lock [OF p], rule keeps_bind, rule keeps_ask)
    subgoal for _ ws
      apply (cases ws, simp_all only: list.case)
       apply (rule calm_weaken [OF Suc.prems(3) SetWriteEnabled_calm])
      apply (rule keeps_bind, rule keeps_ask, rule keeps_bind, rule keeps_ask, rule keeps_bind)
       apply (intro vcg calm_keeps EmitStateSnapshot_calm p, assumption)
      apply (rule keeps_bind, rule keeps_ask)
      apply (rule interrupt_bind [OF os_patient_interruptible(2) [OF p]])
       apply (rule valid_sysret, rule valid_if, rule calm_stop [OF Suc.prems(3)])
        apply (rule keeps_bind, rule calm_keeps, rule keeps_bind, rule calm_lock [OF p])
        apply (rule keeps_bind, rule keeps_ask, rule keeps_bind, rule calm_keeps)
        apply (rule keeps_bind, rule keeps_ask, rule keeps_bind)
         apply (intro vcg calm_keeps, assumption)
        apply (rule valid_if, rule calm_weaken [OF Suc.prems(3)], rule calm_keeps)
        apply (rule Suc.IH)
      using Suc.prems apply (simp_all, arith)
       apply (intro conjI impI calm_weaken [OF Suc.prems(3)] SetWriteEnabled_calm vcg calm_keeps)
       apply assumption
      by (rule Suc.IH) simp_all
    done
qed simp

lemma wait_child_calm:
  assumes p: "os_patient budget os"
  shows "n < k \<Longrightarrow> n \<le> m \<Longrightarrow>
    valid (calm_thread budget n) (wait_child os k child) (\<lambda>_. calm_thread budget m)"
proof (induction k arbitrary: n)
  case (Suc k)
  show ?case
    unfolding wait_child.simps
    apply (rule interrupt_bind [OF os_patient_interruptible(4) [OF p]])
    subgoal for x
      by (cases x; simp) (intro calm_weaken [OF Suc.prems(2)] vcg calm_keeps; simp)+
    using Suc.prems by (simp, intro Suc.IH) simp_all
qed simp

lemma poll_exec_calm:
  assumes p: "os_patient budget os"
  shows "n < k \<Longrightarrow> n \<le> m \<Longrightarrow>
    valid (calm_thread budget n) (poll_exec os k d) (\<lambda>_. calm_thread budget m)"
proof (induction k arbitrary: n)
  case (Suc k)
  show ?case
    unfolding poll_exec.simps
    apply (rule interrupt_bind [OF os_patient_interruptible(3) [OF p]])
     apply (simp add: calm_stop [OF Suc.prems(2)])
    using Suc.prems by (simp, intro Suc.IH) simp_all
qed simp

lemma read_exec_calm:
  assumes p: "os_patient budget os"
  shows "n < k \<Longrightarrow> n \<le> m \<Longrightarrow>
    valid (calm_thread budget n) (read_exec os k d) (\<lambda>_. calm_thread budget m)"
proof (induction k arbitrary: n)
  case (Suc k)
  show ?case
    unfolding read_exec.simps
    apply (rule interrupt_bind [OF os_patient_interruptible(1) [OF p]])
     apply (simp add: calm_stop [OF Suc.prems(2)])
    using Suc.prems by (simp, intro Suc.IH) simp_all
qed simp

section \<open>The methods\<close>

text \<open>Fuel that is above the budget and the eight turns of a loop.\<close>

definition ample :: "nat \<Rightarrow> nat \<Rightarrow> bool" where
  "ample n fuel \<longleftrightarrow> n + 8 < fuel"

lemma ReadAvailable_calm:
  assumes p: "os_patient budget os" and f: "ample n fuel"
  shows "keeps (calm_thread budget n) (ReadAvailable os fuel)"
proof -
  have "keeps (calm_thread budget n) (collect os fuel c [] 0)" for c
    by (rule collect_calm [OF p]) (use f in \<open>simp_all add: ample_def\<close>)
  then have "keeps (calm_thread budget n) (read_batches os fuel k)" for k
    by (induction k) (auto intro!: vcg calm_keeps calm_lock p SetReadEnabled_calm)
  then show ?thesis unfolding ReadAvailable_def by (intro vcg calm_keeps)
qed

lemma FlushWrites_calm:
  assumes p: "os_patient budget os" and f: "ample n fuel"
  shows "keeps (calm_thread budget n) (FlushWrites os fuel)"
  unfolding FlushWrites_def
  by (intro vcg flush_loop_calm [OF p]) (use f in \<open>simp_all add: ample_def\<close>)

lemma DeliverSignal_calm:
  "os_patient budget os \<Longrightarrow> keeps (calm_thread budget n) (DeliverSignal os t sig)"
  unfolding DeliverSignal_def Let_def by (intro vcg calm_keeps calm_sys os_patient_calm)

lemma SendToForeground_calm:
  "os_patient budget os \<Longrightarrow> keeps (calm_thread budget n) (SendToForeground os sig)"
  unfolding SendToForeground_def
  by (intro vcg calm_keeps calm_lock fd_tcgetpgrp_calm DeliverSignal_calm)

lemma SendToProcessGroups_calm:
  "os_patient budget os \<Longrightarrow> keeps (calm_thread budget n) (SendToProcessGroups os sig)"
  unfolding SendToProcessGroups_def
  by (intro vcg calm_keeps calm_lock calm_sys os_patient_calm fd_tcgetpgrp_calm DeliverSignal_calm)

lemma deliver_all_calm:
  "os_patient budget os \<Longrightarrow> keeps (calm_thread budget n) (deliver_all os sigs)"
  by (induction sigs) (auto intro!: vcg SendToForeground_calm)

lemma ObserveProcessExitReady_calm:
  "keeps (calm_thread budget n) (ObserveProcessExitReady c h v)"
  unfolding ObserveProcessExitReady_def by (intro vcg calm_keeps)

lemma ReapChild_calm:
  "os_patient budget os \<Longrightarrow> keeps (calm_thread budget n) (ReapChild os)"
  unfolding ReapChild_def Let_def
  by (intro vcg calm_keeps calm_lock calm_sys os_patient_calm ObserveProcessExitReady_calm)

lemma ProcessControl_calm:
  assumes p: "os_patient budget os" and f: "ample n fuel"
  shows "keeps (calm_thread budget n) (ProcessControl os fuel)"
  unfolding ProcessControl_def
  by (intro vcg calm_keeps calm_lock calm_now calm_sys os_patient_calm EmitStateSnapshot_calm
      SendToProcessGroups_calm deliver_all_calm SetReadEnabled_calm ReadAvailable_calm
      FlushWrites_calm p f)

lemma FinishExit_calm:
  "os_patient budget os \<Longrightarrow> keeps (calm_thread budget n) (FinishExit os)"
  unfolding FinishExit_def Let_def by (intro vcg calm_keeps calm_lock)

lemma FinishError_calm:
  "os_patient budget os \<Longrightarrow> keeps (calm_thread budget n) (FinishError os st e)"
  unfolding FinishError_def by (intro vcg calm_keeps calm_lock)

lemma TerminateAndReap_calm:
  assumes p: "os_patient budget os" and f: "ample n fuel"
  shows "keeps (calm_thread budget n) (TerminateAndReap os fuel sig)"
  unfolding TerminateAndReap_def
  by (intro vcg calm_lock SendToProcessGroups_calm wait_child_calm p)
    (use f in \<open>simp_all add: ample_def\<close>)

lemma CloseDescriptors_calm:
  "os_patient budget os \<Longrightarrow> keeps (calm_thread budget n) (CloseDescriptors os)"
  unfolding CloseDescriptors_def by (intro vcg calm_keeps calm_lock)

lemma dispatch_all_calm:
  assumes p: "os_patient budget os" and f: "ample n fuel"
  shows "keeps (calm_thread budget n) (dispatch_all os fuel evs)"
proof (induction evs)
  case (Cons ev evs)
  have "keeps (calm_thread budget n) (dispatch os fuel ev)"
    by (cases ev) (auto simp: dispatch_def intro!: vcg ReadAvailable_calm FlushWrites_calm
        ObserveProcessExitReady_calm ReapChild_calm p f)
  with Cons show ?case by (auto intro: vcg)
qed (simp add: vcg)

lemma event_turn_calm:
  assumes p: "os_patient budget os" and f: "ample n fuel"
  shows "keeps (calm_thread budget n) (event_turn os fuel)"
  unfolding event_turn_def
  by (intro vcg calm_lock calm_sys os_patient_calm TerminateAndReap_calm FinishError_calm
      dispatch_all_calm ProcessControl_calm ReadAvailable_calm ReapChild_calm FinishExit_calm p f)

lemma EventLoop_calm:
  assumes p: "os_patient budget os" and f: "ample n fuel"
  shows "keeps (calm_thread budget n) (EventLoop os fuel turns)"
  by (induction turns) (auto intro!: vcg event_turn_calm p f)

section \<open>The spawn and the whole thread\<close>

lemma move_above_calm:
  "os_patient budget os \<Longrightarrow> keeps (calm_thread budget n) (move_above_standard_descriptors os d)"
  unfolding move_above_standard_descriptors_def
  by (intro vcg calm_keeps calm_sys os_patient_calm)

lemma set_close_on_exec_calm:
  "os_patient budget os \<Longrightarrow> keeps (calm_thread budget n) (set_close_on_exec os d)"
  unfolding set_close_on_exec_def by (intro vcg calm_sys os_patient_calm)

lemma dpty_spawn_prepared_calm:
  assumes p: "os_patient budget os" and f: "ample n fuel"
  shows "keeps (calm_thread budget n) (dpty_spawn_prepared os fuel c)"
  unfolding dpty_spawn_prepared_def prepare_pipe_def prepare_master_def
  by (intro vcg calm_keeps calm_sys os_patient_calm move_above_calm set_close_on_exec_calm
      wait_child_calm p) (use f in \<open>simp_all add: ample_def\<close>)

lemma CheckExec_calm:
  assumes p: "os_patient budget os" and f: "ample n fuel"
  shows "keeps (calm_thread budget n) (CheckExec os fuel)"
  unfolding CheckExec_def
  by (intro vcg calm_keeps poll_exec_calm read_exec_calm p) (use f in \<open>simp_all add: ample_def\<close>)

lemma ConfigureKqueue_calm:
  "os_patient budget os \<Longrightarrow> keeps (calm_thread budget n) (ConfigureKqueue os)"
  unfolding ConfigureKqueue_def by (intro vcg calm_keeps calm_sys os_patient_calm)

lemma Run_calm:
  assumes p: "os_patient budget os" and f: "ample n fuel"
  shows "keeps (calm_thread budget n) (Run os fuel turns)"
  unfolding Run_def abandon_def
  by (intro vcg calm_keeps calm_lock dpty_spawn_prepared_calm FinishError_calm CheckExec_calm
      TerminateAndReap_calm CloseDescriptors_calm ConfigureKqueue_calm ProcessControl_calm
      EventLoop_calm p f)

end
