(* ===== verification/Pty_Descriptors.thy ===== *)
theory Pty_Descriptors
  imports Pty_Spawn "HOL-Library.Multiset"
begin

text \<open>
  Ownership of descriptors. The trace records every descriptor the reactor's thread opens
  and closes; at each point the open ones are exactly those that the session's members and
  the current method hold. When the thread ends it holds none, whether the spawn failed,
  the exec failed, or the session ran: nothing leaks and nothing is closed twice.
\<close>

section \<open>The ledger\<close>

fun opened_by :: "effect \<Rightarrow> fd multiset" where
  "opened_by (SysOpen d) = {#d#}"
| "opened_by _ = {#}"

fun closed_by :: "effect \<Rightarrow> fd multiset" where
  "closed_by (SysClose d) = {#d#}"
| "closed_by _ = {#}"

definition opened :: "effect list \<Rightarrow> fd multiset" where
  "opened tr = sum_list (map opened_by tr)"

definition closed_fds :: "effect list \<Rightarrow> fd multiset" where
  "closed_fds tr = sum_list (map closed_by tr)"

lemma ledger_simps [simp]:
  "opened [] = {#}" "closed_fds [] = {#}" "opened (a @ b) = opened a + opened b"
  "closed_fds (a @ b) = closed_fds a + closed_fds b" "opened (e # b) = opened_by e + opened b"
  "closed_fds (e # b) = closed_by e + closed_fds b"
  by (simp_all add: opened_def closed_fds_def)

definition no_fd :: "effect list \<Rightarrow> bool" where
  "no_fd es \<longleftrightarrow> opened es = {#} \<and> closed_fds es = {#}"

lemma no_fd_effects [simp]:
  "no_fd (Emit s t sq d n v1 v2 err)" "no_fd (EmitDiagnostic s t sq n v1 v2 err)" "no_fd (Wake s)"
  by (simp_all add: no_fd_def Emit_def EmitDiagnostic_def Wake_def)

lemma no_fd_list [simp]:
  "no_fd []" "no_fd (a @ b) \<longleftrightarrow> no_fd a \<and> no_fd b"
  "no_fd [KqueueEnable flt en]" "no_fd [SysRead bs]" "no_fd [SysWrite bs]" "no_fd [SysKill p sg ok]"
  "no_fd [SysResize rw cl]" "no_fd [SysReap p]"
  by (auto simp: no_fd_def)

lemma no_fd_call: "no_fd (snd (snd (run_call c s)))"
  by (cases c) (auto simp: Start_def Write_def WriteTracked_def EnqueueWrite_def Acknowledge_def
      Resize_def SendSignal_def Close_def ForceClose_def Let_def split: option.split list.split)

text \<open>The session's members that hold descriptors: the kqueue, the master side, the exec pipe.\<close>

definition fds :: "session \<Rightarrow> fd \<times> fd \<times> fd" where
  "fds s = (s_kqueue_fd s, s_master_fd s, s_exec_error_fd s)"

lemma fds_call: "fds (call_state c s) = fds s"
  by (cases c)
    (auto simp: call_state_simps fds_def Start_def Write_def WriteTracked_state EnqueueWrite_def
      push_write_def Acknowledge_def Resize_def SendSignal_def Close_def ForceClose_def Let_def
      split: option.split list.split)

definition holding :: "fd \<times> fd \<times> fd \<Rightarrow> fd multiset \<Rightarrow> 'w reactor \<Rightarrow> bool" where
  "holding m x r \<longleftrightarrow> fds (r_session r) = m \<and> opened (r_trace r) = closed_fds (r_trace r) + x"

named_theorems fd_keeps \<open>methods that open and close nothing\<close>

lemma fd_lock [fd_keeps]: "keeps (holding m x) (lock os)"
proof (rule valid_lock)
  fix r c
  assume h: "holding m x r"
  obtain st s es where rc: "run_call c (r_session r) = (st, s, es)"
    by (cases "run_call c (r_session r)")
  then have "s = call_state c (r_session r)" "no_fd es"
    using no_fd_call [of c "r_session r"] by (simp_all add: call_state_def)
  with h show "holding m x (other_call c r)"
    by (simp add: other_call_def rc holding_def fds_call no_fd_def)
qed (simp add: holding_def)

lemma fd_upd: "(\<And>s. fds (f s) = fds s) \<Longrightarrow> keeps (holding m x) (upd f)"
  by (rule valid_upd) (simp add: holding_def)

lemma fd_emits: "(\<And>s. no_fd (h s)) \<Longrightarrow> keeps (holding m x) (emits h)"
  by (rule valid_emits) (simp add: holding_def no_fd_def)

lemma fd_local [fd_keeps]:
  "keeps (holding m x) (sys c)" "keeps (holding m x) (now os)" "keeps (holding m x) hang"
  "keeps (holding m x) (set_errno e)"
  by (auto intro!: valid_sys valid_now valid_hang valid_set_errno simp: holding_def)

section \<open>Methods that keep the ledger\<close>

lemma fd_frames [simp]:
  "fds (push_output bs s) = fds s" "fds (consume_write n s) = fds s"
  "fds (observe_dequeue s) = fds s" "fds (complete_reaped st s) = fds s"
  "fds (complete_external s) = fds s" "fds (clear_control s) = fds s"
  by (simp_all add: fds_def push_output_def consume_write_def observe_dequeue_def
      complete_reaped_def complete_external_def drop_writes_def clear_control_def Let_def
      split: list.split)

lemma fd_fields [simp]:
  "fds (s\<lparr>s_read_enabled := b, s_read_paused := b'\<rparr>) = fds s"
  "fds (s\<lparr>s_write_enabled := b\<rparr>) = fds s" "fds (s\<lparr>s_master_eof := b\<rparr>) = fds s"
  "fds (s\<lparr>s_read_retry_requested := b\<rparr>) = fds s"
  "fds (s\<lparr>s_read_paused := b, s_read_pause_count := n\<rparr>) = fds s"
  "fds (s\<lparr>s_process_exit_ready_observed := b\<rparr>) = fds s"
  "fds (s\<lparr>s_process_exit_status := v, s_process_exit_status_valid := b\<rparr>) = fds s"
  "fds (s\<lparr>s_emit_waitpid_pending := b\<rparr>) = fds s" "fds (s\<lparr>s_waitpid_error_observed := b\<rparr>) = fds s"
  "fds (s\<lparr>s_close_kill_deadline := d\<rparr>) = fds s" "fds (s\<lparr>s_state := st\<rparr>) = fds s"
  "fds (s\<lparr>s_finished_reaping := b\<rparr>) = fds s" "fds (s\<lparr>s_state := st, s_child_pid := p\<rparr>) = fds s"
  by (simp_all add: fds_def)

lemma SetReadEnabled_fd [fd_keeps]: "keeps (holding m x) (SetReadEnabled os b)"
  unfolding SetReadEnabled_def by (intro vcg fd_keeps fd_upd fd_emits; simp)

lemma SetWriteEnabled_fd [fd_keeps]: "keeps (holding m x) (SetWriteEnabled os b)"
  unfolding SetWriteEnabled_def by (intro vcg fd_keeps fd_upd fd_emits; simp)

lemma fd_tcgetpgrp_fd [fd_keeps]: "keeps (holding m x) (fd_tcgetpgrp os d)"
  unfolding fd_tcgetpgrp_def by (intro vcg fd_keeps)

lemma EmitStateSnapshot_fd [fd_keeps]: "keeps (holding m x) (EmitStateSnapshot os q)"
  unfolding EmitStateSnapshot_def Let_def by (intro vcg fd_keeps fd_emits; simp)

lemma collect_fd [fd_keeps]: "keeps (holding m x) (collect os k cap bs n)"
proof (induction k arbitrary: bs n)
  case (Suc k)
  then show ?case unfolding collect.simps by (intro vcg fd_keeps fd_emits; simp)
qed (simp only: collect.simps, intro vcg fd_keeps)

lemma read_batches_fd [fd_keeps]: "keeps (holding m x) (read_batches os fuel k)"
proof (induction k)
  case (Suc k)
  then show ?case unfolding read_batches.simps by (intro vcg fd_keeps fd_upd fd_emits; simp)
qed (simp only: read_batches.simps, intro vcg fd_keeps fd_upd fd_emits; simp)

lemma ReadAvailable_fd [fd_keeps]: "keeps (holding m x) (ReadAvailable os fuel)"
  unfolding ReadAvailable_def by (intro vcg fd_keeps fd_upd; simp)

lemma flush_loop_fd [fd_keeps]: "keeps (holding m x) (flush_loop os k batches written)"
proof (induction k arbitrary: batches written)
  case (Suc k)
  show ?case
    unfolding flush_loop.simps Let_def
    apply (rule keeps_bind, rule fd_lock, rule keeps_bind, rule keeps_ask)
    subgoal for _ ws
      using Suc by (cases ws; simp only: list.case) (intro vcg fd_keeps fd_upd fd_emits; simp)+
    done
qed (simp only: flush_loop.simps fd_local)

lemma FlushWrites_fd [fd_keeps]: "keeps (holding m x) (FlushWrites os fuel)"
  unfolding FlushWrites_def by (intro vcg fd_keeps)

lemma signals_fd [fd_keeps]:
  "keeps (holding m x) (DeliverSignal os t sg)" "keeps (holding m x) (SendToForeground os sg)"
  "keeps (holding m x) (SendToProcessGroups os sg)"
proof -
  show d: "keeps (holding m x) (DeliverSignal os t sg)" for t
    unfolding DeliverSignal_def Let_def by (intro vcg fd_keeps fd_emits; simp)
  show "keeps (holding m x) (SendToForeground os sg)"
    unfolding SendToForeground_def by (intro vcg fd_keeps fd_emits d; simp)
  show "keeps (holding m x) (SendToProcessGroups os sg)"
    unfolding SendToProcessGroups_def by (intro vcg fd_keeps fd_emits d; simp)
qed

lemma deliver_all_fd [fd_keeps]: "keeps (holding m x) (deliver_all os sgs)"
  by (induction sgs) (auto intro!: vcg fd_keeps)

lemma ObserveProcessExitReady_fd [fd_keeps]:
  "keeps (holding m x) (ObserveProcessExitReady c h v)"
  unfolding ObserveProcessExitReady_def by (intro vcg fd_keeps fd_upd fd_emits; simp)

lemma ReapChild_fd [fd_keeps]: "keeps (holding m x) (ReapChild os)"
  unfolding ReapChild_def Let_def by (intro vcg fd_keeps fd_upd fd_emits; simp)

lemma ProcessControl_fd [fd_keeps]: "keeps (holding m x) (ProcessControl os fuel)"
  unfolding ProcessControl_def by (intro vcg fd_keeps fd_upd fd_emits; simp)

lemma finish_fd [fd_keeps]:
  "keeps (holding m x) (FinishExit os)" "keeps (holding m x) (FinishError os st e)"
  unfolding FinishExit_def FinishError_def Let_def by (intro vcg fd_keeps fd_upd fd_emits; simp)+

lemma wait_child_fd [fd_keeps]: "keeps (holding m x) (wait_child os k c)"
proof (induction k)
  case (Suc k)
  then show ?case unfolding wait_child.simps by (intro vcg fd_keeps fd_emits; simp)
qed (simp only: wait_child.simps fd_local)

lemma TerminateAndReap_fd [fd_keeps]: "keeps (holding m x) (TerminateAndReap os fuel sg)"
  unfolding TerminateAndReap_def by (intro vcg fd_keeps)

lemma dispatch_all_fd [fd_keeps]: "keeps (holding m x) (dispatch_all os fuel evs)"
proof (induction evs)
  case (Cons ev evs)
  have "keeps (holding m x) (dispatch os fuel ev)"
    by (cases ev) (auto simp: dispatch_def intro!: vcg fd_keeps)
  with Cons show ?case by (auto intro: vcg)
qed (simp add: vcg)

lemma event_turn_fd [fd_keeps]: "keeps (holding m x) (event_turn os fuel)"
  unfolding event_turn_def by (intro vcg fd_keeps)

lemma EventLoop_fd [fd_keeps]: "keeps (holding m x) (EventLoop os fuel turns)"
  by (induction turns) (auto intro!: vcg fd_keeps)

section \<open>Opening and closing\<close>

definition own :: "fd \<Rightarrow> fd multiset" where
  "own d = (if 0 \<le> d then {#d#} else {#})"

lemma valid_holding:
  "(\<And>s. fds s = m \<Longrightarrow> fds (f s) = m') \<Longrightarrow> valid (holding m x) (upd f) (\<lambda>_. holding m' x)"
  by (rule valid_upd) (simp add: holding_def)

lemma close_fd_valid: "valid (holding m (add_mset d x)) (close_fd d) (\<lambda>_. holding m x)"
  unfolding close_fd_def by (rule valid_emits) (simp add: holding_def)

lemma close_owned: "valid (holding m (own d + x)) (do_if (0 \<le> d) (close_fd d)) (\<lambda>_. holding m x)"
  using close_fd_valid [of m d x] by (auto simp: own_def do_if_def intro: valid_return)

lemma ask_fds:
  assumes "\<And>s. fds s = m \<Longrightarrow> f s = y" "valid (holding m x) (g y) Q"
  shows "valid (holding m x) (State_Monad.bind (ask f) g) Q"
proof (rule valid_ask_bind)
  fix z
  show "valid (\<lambda>r. holding m x r \<and> f (r_session r) = z) (g z) Q"
    using assms by (auto simp: valid_def holding_def)
qed

lemma drop_exec:
  assumes "0 \<le> e \<or> e = - 1"
  shows "valid (holding (k, m, e) (own e + x))
    (do_if (0 \<le> e) (do { close_fd e; upd (\<lambda>s. s\<lparr>s_exec_error_fd := - 1\<rparr>) }))
    (\<lambda>_. holding (k, m, - 1) x)"
proof (cases "0 \<le> e")
  case True
  have "valid (holding (k, m, e) (add_mset e x))
      (do { close_fd e; upd (\<lambda>s. s\<lparr>s_exec_error_fd := - 1\<rparr>) }) (\<lambda>_. holding (k, m, - 1) x)"
    by (rule valid_bind, rule close_fd_valid, rule valid_holding) (simp add: fds_def)
  with True show ?thesis by (simp add: do_if_def own_def)
next
  case False
  with assms show ?thesis by (auto simp: do_if_def own_def intro: valid_return)
qed

lemma CloseDescriptors_fd:
  assumes e: "0 \<le> e \<or> e = - 1"
  shows "valid (holding (k, m, e) (own k + (own e + (own m + {#})))) (CloseDescriptors os)
     (\<lambda>_. holding (- 1, - 1, - 1) {#})"
  unfolding CloseDescriptors_def
  apply (rule ask_fds [where y = k], simp add: fds_def)
  apply (rule valid_bind, rule valid_holding [where m' = "(- 1, m, e)"], simp add: fds_def)
  apply (rule valid_bind, rule close_owned)
  apply (rule ask_fds [where y = e], simp add: fds_def)
  apply (rule valid_bind, rule drop_exec [OF e], rule keeps_bind, rule fd_lock)
  apply (rule ask_fds [where y = m], simp add: fds_def)
  by (rule valid_bind, rule valid_holding [where m' = "(- 1, - 1, - 1)"], simp add: fds_def,
      rule close_owned)

text \<open>
  What the system promises: the descriptors it hands out are not negative, and duplicating
  one gives a descriptor that is not below the number asked for.
\<close>

definition os_descriptors :: "'w os \<Rightarrow> bool" where
  "os_descriptors os \<longleftrightarrow>
     (\<forall>w a b w'. os_pipe os w = (Ok (a, b), w') \<longrightarrow> 0 \<le> a \<and> 0 \<le> b) \<and>
     (\<forall>d n w e w'. os_dupfd_cloexec os d n w = (Ok e, w') \<longrightarrow> n \<le> e) \<and>
     (\<forall>nr nc w p m w'. os_forkpty os nr nc w = (Ok (p, m), w') \<longrightarrow> 0 \<le> m) \<and>
     (\<forall>w d w'. os_kqueue os w = (Ok d, w') \<longrightarrow> 0 \<le> d)"

lemma open_fd: "valid (holding m x) (emits (\<lambda>_. [SysOpen d])) (\<lambda>_. holding m (add_mset d x))"
  by (rule valid_emits) (simp add: holding_def)

lemma holding_world: "holding m x r \<Longrightarrow> holding m x (r\<lparr>r_world := w, r_errno := e\<rparr>)"
  by (simp add: holding_def)

lemma set_close_on_exec_fd [fd_keeps]: "keeps (holding m x) (set_close_on_exec os d)"
  unfolding set_close_on_exec_def by (intro vcg fd_keeps)

lemma prepare_master_fd [fd_keeps]: "keeps (holding m x) (prepare_master os d)"
  unfolding prepare_master_def by (intro vcg fd_keeps)

lemma move_above_fd:
  assumes os: "os_descriptors os" and d: "0 \<le> d"
  shows "valid (holding m (add_mset d x)) (move_above_standard_descriptors os d)
    (\<lambda>y r. holding m (add_mset (fst y) x) r \<and> 0 \<le> fst y)"
proof -
  have moved: "valid (holding m (add_mset d x))
      (do { emits (\<lambda>_. [SysOpen e]); close_fd d; State_Monad.return (e, True) })
      (\<lambda>y r. holding m (add_mset (fst y) x) r \<and> 0 \<le> fst y)" if "0 \<le> e" for e
    apply (rule valid_bind, rule open_fd, rule valid_bind)
     apply (subst add_mset_commute, rule close_fd_valid)
    by (rule valid_return) (use that in simp)
  show ?thesis
    unfolding move_above_standard_descriptors_def
    apply (rule valid_if, rule valid_return, use d in simp)
    apply (rule valid_sys_bind [where A = "\<lambda>e. 0 \<le> e"])
       apply (simp only: sysret.case, rule moved, assumption)
      apply (simp only: sysret.case, rule valid_return, use d in simp)
    subgoal using os by (simp add: os_descriptors_def) fastforce
    by (rule holding_world)
qed

lemma prepare_pipe_fd:
  assumes os: "os_descriptors os" and ab: "0 \<le> a" "0 \<le> b"
  shows "valid (holding m {#a, b#}) (prepare_pipe os a b)
    (\<lambda>y r. holding m {#fst y, fst (snd y)#} r \<and> 0 \<le> fst y \<and> 0 \<le> fst (snd y))"
proof -
  have step: "valid (holding m {#a', b'#}) (State_Monad.return (a', b', ok))
      (\<lambda>y r. holding m {#fst y, fst (snd y)#} r \<and> 0 \<le> fst y \<and> 0 \<le> fst (snd y))"
    if "0 \<le> a'" "0 \<le> b'" for a' b' ok
    by (rule valid_return) (use that in simp)
  have swap: "holding m {#p, q#} = holding m {#q, p#}" for p q :: fd
    by (simp add: add_mset_commute)
  show ?thesis
    unfolding prepare_pipe_def
    apply (rule valid_bind, rule move_above_fd [OF os ab(1)])
    apply (rule valid_fact, rule valid_prod, simp only: fst_conv)
    apply (rule valid_if, rule step, assumption, rule ab(2))
    apply (subst swap, rule valid_bind, rule move_above_fd [OF os ab(2)])
    apply (rule valid_fact, rule valid_prod, simp only: fst_conv, subst swap)
    apply (rule valid_if, rule step, assumption, assumption)
    apply (rule keeps_bind, rule set_close_on_exec_fd)
    apply (rule valid_if, rule step, assumption, assumption)
    apply (rule keeps_bind, rule set_close_on_exec_fd)
    by (rule step)
qed

definition spawned :: "fd \<times> fd \<times> fd \<Rightarrow> DptyStatus \<times> DptyPreparedSpawnResult \<times> int \<Rightarrow> 'w reactor \<Rightarrow> bool" where
  "spawned m y r \<longleftrightarrow>
     (if fst y = DPTY_STATUS_OK
      then 0 \<le> sp_master_fd (fst (snd y)) \<and> 0 \<le> sp_exec_error_fd (fst (snd y)) \<and>
        holding m {#sp_master_fd (fst (snd y)), sp_exec_error_fd (fst (snd y))#} r
      else holding m {#} r)"

lemma spawn_failed: "st \<noteq> DPTY_STATUS_OK \<Longrightarrow> valid (holding m {#}) (State_Monad.return (st, res, e)) (spawned m)"
  by (rule valid_return) (simp add: spawned_def)

lemma close_two: "valid (holding m {#p, q#}) (do { close_fd p; close_fd q; f }) Q"
  if "valid (holding m {#}) f Q"
  by (rule valid_bind, rule close_fd_valid, rule valid_bind, rule close_fd_valid, rule that)

lemma dpty_spawn_prepared_fd:
  assumes os: "os_descriptors os"
  shows "valid (holding m {#}) (dpty_spawn_prepared os fuel config) (spawned m)"
proof -
  have nok: "DPTY_STATUS_SYSTEM_ERROR \<noteq> DPTY_STATUS_OK" by simp
  have open_pipe: "valid (holding m {#}) (emits (\<lambda>_. [SysOpen a, SysOpen b])) (\<lambda>_. holding m {#a, b#})" for a b
    by (rule valid_emits) (simp add: holding_def)
  have forked: "valid (holding m {#p0, p1#}) (emits (\<lambda>_. [SysFork c, SysOpen q]))
      (\<lambda>_. holding m {#p1, q, p0#})" for p0 p1 c q
    by (rule valid_emits) (simp add: holding_def)
  show ?thesis
    unfolding dpty_spawn_prepared_def
    apply (rule valid_if, rule spawn_failed, simp)
    apply (rule valid_sys_bind [where A = "\<lambda>p. 0 \<le> fst p \<and> 0 \<le> snd p"])
       apply (simp only: sysret.case, rule valid_prod, simp only: fst_conv snd_conv)
       apply (rule valid_bind, rule open_pipe, rule valid_bind, rule prepare_pipe_fd [OF os], simp, simp)
       apply (rule valid_fact, rule valid_prod, rule valid_prod, simp only: fst_conv snd_conv)
       apply (rule valid_if, rule keeps_bind, rule keeps_get_errno)
        apply (simp only: do_if_def if_True simp_thms, rule close_two, rule spawn_failed, rule nok)
       apply (rule valid_sys_bind [where A = "\<lambda>p. 0 \<le> snd p"])
          apply (simp only: sysret.case, rule valid_prod, simp only: snd_conv)
          apply (rule valid_bind, rule forked, rule valid_bind, rule close_fd_valid)
          apply (rule keeps_bind, rule prepare_master_fd, rule valid_if)
           apply (rule keeps_bind, rule keeps_get_errno, rule keeps_bind, rule fd_local)
           apply (rule keeps_bind, rule fd_emits, simp, rule keeps_bind, rule wait_child_fd)
           apply (rule close_two, rule spawn_failed, rule nok)
          apply (rule valid_return, simp add: spawned_def)
         apply (simp only: sysret.case, rule close_two, rule spawn_failed, rule nok)
    subgoal using os by (simp add: os_descriptors_def) (metis prod.collapse)
        apply (rule holding_world, assumption)
       apply (simp only: sysret.case, rule spawn_failed, rule nok)
    subgoal using os by (simp add: os_descriptors_def) (metis prod.collapse)
    by (rule holding_world)
qed

lemma exec_fd [fd_keeps]:
  "keeps (holding m x) (poll_exec os k d)" "keeps (holding m x) (read_exec os k d)"
proof -
  show "keeps (holding m x) (poll_exec os k d)"
  proof (induction k)
    case (Suc k)
    then show ?case unfolding poll_exec.simps by (intro vcg fd_keeps)
  qed (simp only: poll_exec.simps, intro vcg fd_keeps)
  show "keeps (holding m x) (read_exec os k d)"
  proof (induction k)
    case (Suc k)
    then show ?case unfolding read_exec.simps by (intro vcg fd_keeps)
  qed (simp only: read_exec.simps, intro vcg fd_keeps)
qed

text \<open>While the thread waits for the exec it has the master side and the pipe.\<close>

definition exec_wait :: "fd \<Rightarrow> int option \<Rightarrow> 'w reactor \<Rightarrow> bool" where
  "exec_wait m y r \<longleftrightarrow> (\<exists>e. (0 \<le> e \<or> e = - 1) \<and> holding (- 1, m, e) (own e + own m) r \<and> (y = None \<longrightarrow> e = - 1))"

lemma CheckExec_fd:
  assumes "0 \<le> e"
  shows "valid (holding (- 1, m, e) (own e + own m)) (CheckExec os fuel) (exec_wait m)"
proof -
  have early: "valid (holding (- 1, m, e) (own e + own m)) (State_Monad.return (Some v)) (exec_wait m)" for v
    by (rule valid_return) (use assms in \<open>auto simp: exec_wait_def\<close>)
  have own: "own e + own m = add_mset e (own m)" using assms by (simp add: own_def)
  show ?thesis
    unfolding CheckExec_def
    apply (rule ask_fds [where y = e], simp add: fds_def, rule keeps_bind, rule exec_fd)
    apply (rule valid_sysret, rule valid_if, rule early)
     apply (rule keeps_bind, rule exec_fd)
     apply (subst own, rule valid_bind, rule close_fd_valid)
     apply (rule valid_bind, rule valid_holding [where m' = "(- 1, m, - 1)"], simp add: fds_def)
     apply (rule valid_return, unfold exec_wait_def, rule exI [of _ "- 1"], simp add: own_def)
    by (rule early [unfolded exec_wait_def])
qed

lemma ConfigureKqueue_fd:
  assumes os: "os_descriptors os"
  shows "valid (holding (- 1, m, - 1) (own m)) (ConfigureKqueue os)
    (\<lambda>y r. \<exists>k. (0 \<le> k \<or> k = - 1) \<and> holding (k, m, - 1) (own k + own m) r)"
proof -
  have failed: "valid (holding (- 1, m, - 1) (own m)) (State_Monad.return y)
      (\<lambda>y r. \<exists>k. (0 \<le> k \<or> k = - 1) \<and> holding (k, m, - 1) (own k + own m) r)" for y
    by (rule valid_return, rule exI [of _ "- 1"]) (simp add: own_def)
  show ?thesis
    unfolding ConfigureKqueue_def
    apply (rule valid_sys_bind [where A = "\<lambda>d. 0 \<le> d"])
       apply (simp only: sysret.case, rule valid_bind, rule open_fd)
       apply (rule keeps_bind, rule keeps_ask, rule keeps_bind, rule keeps_ask)
       apply (rule keeps_bind, rule fd_local)
       apply (rule valid_sysret)
    subgoal for d
      apply (rule valid_bind, rule valid_holding [where m' = "(d, m, - 1)"], simp add: fds_def)
      by (rule valid_return, rule exI [of _ d]) (simp add: own_def)
       apply (rule valid_bind, rule close_fd_valid, rule failed)
      apply (simp only: sysret.case, rule failed)
    subgoal using os by (simp add: os_descriptors_def) metis
    by (rule holding_world)
qed

section \<open>The whole thread\<close>

abbreviation "no_fds \<equiv> (- 1 :: fd, - 1 :: fd, - 1 :: fd)"

text \<open>Leaving with whatever is held: everything is closed.\<close>

lemma leave:
  assumes "0 \<le> e \<or> e = - 1"
  shows "valid (holding (k, m, e) (own k + own e + own m)) (CloseDescriptors os) (\<lambda>_. holding no_fds {#})"
  using CloseDescriptors_fd [OF assms, of k m os] by (simp add: add.assoc)

lemma abandon_fd:
  assumes "0 \<le> e \<or> e = - 1"
  shows "valid (holding (k, m, e) (own k + own e + own m)) (abandon os fuel v) (\<lambda>_. holding no_fds {#})"
  unfolding abandon_def
  by (rule keeps_bind, rule TerminateAndReap_fd, rule valid_bind, rule leave [OF assms], rule finish_fd)

lemma valid_ex: "(\<And>x. valid (P x) m Q) \<Longrightarrow> valid (\<lambda>r. \<exists>x. P x r) m Q"
  by (fastforce simp: valid_def)

lemma valid_fact': "(A \<Longrightarrow> valid P m Q) \<Longrightarrow> valid (\<lambda>r. A \<and> P r) m Q"
  by (auto simp: valid_def)

lemma exec_failed:
  "valid (exec_wait m (Some v)) (abandon os fuel w) (\<lambda>_. holding no_fds {#})"
  unfolding exec_wait_def
  apply (rule valid_ex, rule valid_fact')
  subgoal for e
    using abandon_fd [of e "- 1" m os fuel w] by (auto simp: own_def intro: valid_pre)
  done

lemma exec_succeeded:
  assumes os: "os_descriptors os"
  shows "valid (exec_wait m None)
    (State_Monad.bind (ConfigureKqueue os) (\<lambda>kqueue_error. case kqueue_error of
        Some e \<Rightarrow> abandon os fuel e
      | None \<Rightarrow> do {
          emits (\<lambda>s. Emit s DPTY_EVENT_STARTED 0 None 0 p 0 0);
          ProcessControl os fuel;
          EventLoop os fuel turns;
          CloseDescriptors os
        })) (\<lambda>_. holding no_fds {#})"
  apply (rule valid_bind, rule valid_pre [OF ConfigureKqueue_fd [OF os, of m]])
   apply (auto simp: exec_wait_def own_def)[1]
  apply (rule valid_ex, rule valid_fact')
  subgoal for y k
    using abandon_fd [of "- 1" k m os fuel] leave [of "- 1" k m os]
    by (cases y; simp only: option.case)
      (intro vcg fd_keeps fd_emits, simp, simp add: own_def, simp add: own_def)
  done

lemma Run_fd:
  assumes os: "os_descriptors os"
  shows "valid (holding no_fds {#}) (Run os fuel turns) (\<lambda>_. holding no_fds {#})"
  unfolding Run_def
  apply (rule keeps_bind, rule keeps_ask, rule valid_bind, rule dpty_spawn_prepared_fd [OF os])
  apply (rule valid_prod, rule valid_prod, simp only: spawned_def [abs_def] fst_conv snd_conv)
  apply (rule valid_if, simp only: if_False, rule finish_fd)
  apply (simp only: simp_thms if_True, rule valid_fact', rule valid_fact')
  subgoal for config y st z res e
    apply (rule keeps_bind, rule fd_lock)
    apply (rule valid_bind, rule valid_holding [where m' = "(- 1, sp_master_fd res, - 1)"], simp add: fds_def)
    apply (rule valid_bind, rule valid_holding [where m' = "(- 1, sp_master_fd res, sp_exec_error_fd res)"],
        simp add: fds_def)
    apply (rule valid_bind, rule valid_pre [OF CheckExec_fd [of "sp_exec_error_fd res" "sp_master_fd res"]],
        assumption)
     apply (simp add: own_def add_mset_commute)
    by (rule valid_option, simp only:, rule exec_succeeded [OF os], simp only:, rule exec_failed)
  done
end
