(* ===== verification/Pty_Script.thy ===== *)
theory Pty_Script
  imports Pty_Lifecycle Pty_Fuel Pty_Descriptors
begin

text \<open>
  A scripted operating system: a world that is a list of answers for each call the tests of
  the model need. It is bounded and patient, so it shows that the hypotheses on the system
  can hold, and runs the model on concrete sessions.
\<close>

record script =
  sc_calls :: "api_call list list"
  sc_reads :: "byte list sysret list"
  sc_writes :: "nat sysret list"
  sc_waits :: "(pid \<times> int) sysret list"
  sc_events :: "kevent list sysret list"
  sc_clock :: int

definition script_world :: script where
  "script_world = \<lparr>sc_calls = [], sc_reads = [], sc_writes = [], sc_waits = [], sc_events = [],
     sc_clock = 0\<rparr>"

fun next_answer :: "'a \<Rightarrow> 'a list \<Rightarrow> 'a \<times> 'a list" where
  "next_answer d [] = (d, [])"
| "next_answer d (x # xs) = (x, xs)"

definition map_ok :: "('a \<Rightarrow> 'b) \<Rightarrow> 'a sysret \<Rightarrow> 'b sysret" where
  "map_ok f x = (case x of Ok v \<Rightarrow> Ok (f v) | Fail e \<Rightarrow> Fail e)"

definition script_os :: "script os" where
  "script_os =
     \<lparr>os_others = (\<lambda>w. case next_answer [] (sc_calls w) of (x, xs) \<Rightarrow> (x, w\<lparr>sc_calls := xs\<rparr>)),
      os_read = (\<lambda>d n w. case next_answer (Fail EAGAIN) (sc_reads w) of (x, xs) \<Rightarrow>
        (map_ok (take n) x, w\<lparr>sc_reads := xs\<rparr>)),
      os_write = (\<lambda>d bs w. case next_answer (Ok (length bs)) (sc_writes w) of (x, xs) \<Rightarrow>
        (map_ok (min (length bs)) x, w\<lparr>sc_writes := xs\<rparr>)),
      os_tcgetpgrp = (\<lambda>d w. (Ok 200, w)),
      os_tcgetattr = (\<lambda>d w. (Ok (4, 0), w)),
      os_tiocswinsz = (\<lambda>d r c w. (Ok (), w)),
      os_getpgid = (\<lambda>p w. (Ok 100, w)),
      os_kill = (\<lambda>p sig w. (Ok (), w)),
      os_waitpid_nohang = (\<lambda>p w. case next_answer (Ok (0, 0)) (sc_waits w) of (x, xs) \<Rightarrow>
        (x, w\<lparr>sc_waits := xs\<rparr>)),
      os_waitpid = (\<lambda>p w. (Ok (p, 9), w)),
      os_now = (\<lambda>w. (sc_clock w, w\<lparr>sc_clock := sc_clock w + nanos_per_milli\<rparr>)),
      os_kqueue = (\<lambda>w. (Ok 7, w)),
      os_kevent_register = (\<lambda>d m p w. (Ok (), w)),
      os_kevent_wait = (\<lambda>d w. case next_answer (Ok []) (sc_events w) of (x, xs) \<Rightarrow>
        (x, w\<lparr>sc_events := xs\<rparr>)),
      os_poll = (\<lambda>d n w. (Ok 1, w)),
      os_pipe = (\<lambda>w. (Ok (4, 5), w)),
      os_getfd = (\<lambda>d w. (Ok 0, w)),
      os_setfd = (\<lambda>d f w. (Ok (), w)),
      os_getfl = (\<lambda>d w. (Ok 2, w)),
      os_setfl = (\<lambda>d f w. (Ok (), w)),
      os_dupfd_cloexec = (\<lambda>d n w. (Ok n, w)),
      os_forkpty = (\<lambda>r c w. (Ok (100, 6), w))\<rparr>"

lemma script_bounded: "os_bounded script_os"
  by (auto simp: os_bounded_def script_os_def map_ok_def split: prod.splits sysret.splits)

text \<open>The script interrupts as often as it says, in \<open>read\<close> and \<open>write\<close> only.\<close>

definition interrupts :: "'a sysret list \<Rightarrow> nat" where
  "interrupts xs = length (filter (\<lambda>x. x = Fail EINTR) xs)"

definition script_budget :: "script \<Rightarrow> nat" where
  "script_budget w = interrupts (sc_reads w) + interrupts (sc_writes w)"

lemma interrupts_next:
  "next_answer d xs = (x, ys) \<Longrightarrow> d \<noteq> Fail EINTR \<Longrightarrow>
   interrupts ys + (if x = Fail EINTR then 1 else 0) = interrupts xs"
  by (cases xs) (auto simp: interrupts_def)

lemma map_ok_interrupted: "map_ok f x = Fail e \<longleftrightarrow> x = Fail e"
  by (cases x) (simp_all add: map_ok_def)

lemma script_read: "interruptible script_budget (os_read script_os d n)"
  unfolding interruptible_def
  using interrupts_next [of "Fail EAGAIN :: byte list sysret"]
  by (fastforce simp: script_os_def script_budget_def map_ok_interrupted split: prod.splits)

lemma script_write: "interruptible script_budget (os_write script_os d bs)"
  unfolding interruptible_def
  using interrupts_next [of "Ok (length bs) :: nat sysret"]
  by (fastforce simp: script_os_def script_budget_def map_ok_interrupted split: prod.splits)

lemma script_patient: "os_patient script_budget script_os"
  unfolding os_patient_def
  by (simp add: script_read script_write)
    (auto simp: script_os_def calm_def interruptible_def script_budget_def split: prod.splits)

lemma script_descriptors: "os_descriptors script_os"
  by (simp add: os_descriptors_def script_os_def)

text \<open>A configuration that is accepted, with one read batch per turn of the event loop.\<close>

definition sample_config :: OwnedConfig where
  "sample_config =
     \<lparr>executable = [SLASH], arguments = [[115]], environment = [[65, EQUALS]],
      working_directory = None, rows = 24, columns = 80,
      read_high_water = 8, read_low_water = 4, read_batch = 4,
      read_batches_per_event_loop_turn = 0, write_capacity = 16,
      callback = Some 1, diagnostics_enabled = False\<rparr>"

text \<open>The configuration it is the copy of.\<close>

definition sample_source :: DptySessionConfigV1 where
  "sample_source =
     \<lparr>cf_struct_size = sizeof_config, cf_abi_version = DPTY_ABI_VERSION,
      cf_executable = Some [SLASH], cf_arguments = Some [Some [115]], cf_argument_count = 1,
      cf_environment = Some [Some [65, EQUALS]], cf_environment_count = 1,
      cf_working_directory = None, cf_initial_rows = 24, cf_initial_columns = 80,
      cf_read_high_water_bytes = 8, cf_read_low_water_bytes = 4, cf_write_capacity_bytes = 16,
      cf_callback = Some 1, cf_diagnostics_enabled = 0, cf_read_batch_bytes = 4,
      cf_read_batches_per_event_loop_turn = 0\<rparr>"

lemma sample_accepted: "CopyConfig (Some sample_source) = Inr sample_config"
proof -
  have env: "environment_entry [65, EQUALS]"
    unfolding environment_entry_def
    by (rule conjI, simp add: owned_string_def, rule exI [of _ "[65]"], simp)
  have ok: "\<not> config_rejected sample_source"
    by (simp add: config_rejected_def sample_source_def has_read_batch_def has_read_turn_limit_def)
  show ?thesis
    using CopyConfig_Some [OF ok, of "[SLASH]" "[[115]]" "[[65, EQUALS]]"] env
    by (simp add: sample_source_def sample_config_def absolute_path_def owned_string_def
        has_read_batch_def)
qed

text \<open>
  A session in which the caller writes two requests while the shell prints \<open>104 105\<close>, the
  caller acknowledges the output, and the shell exits with status 3.
\<close>

definition sample_world :: script where
  "sample_world = script_world
     \<lparr>sc_calls := [[CallWrite (Some [1, 2, 3]), CallWrite (Some [4, 5])], [], [], [], [],
        [], [], [], [], [], [], [], [CallAcknowledge 0 2], [], []],
      sc_reads := [Ok [], Fail EINTR, Ok [104, 105], Fail EIO],
      sc_writes := [Ok 2, Ok 1, Ok 2],
      sc_waits := [Ok (100, 768)],
      sc_events := [Ok [KReadReady]]\<rparr>"

section \<open>Running the model\<close>

text \<open>The primitives and the script's answers as rewrite rules, to evaluate a run.\<close>

lemma run_primitives:
  "run_state (ask f) r = (f (r_session r), r)"
  "run_state (upd g) r = ((), r\<lparr>r_session := g (r_session r)\<rparr>)"
  "run_state (emits h) r = ((), r\<lparr>r_trace := r_trace r @ h (r_session r)\<rparr>)"
  "run_state get_errno r = (r_errno r, r)"
  "run_state (set_errno e) r = ((), r\<lparr>r_errno := e\<rparr>)"
  "run_state (sys c) r = (let (x, w) = c (r_world r) in
     (x, r\<lparr>r_world := w, r_errno := (case x of Ok _ \<Rightarrow> r_errno r | Fail e \<Rightarrow> e)\<rparr>))"
  "run_state (now os) r = (let (t, w) = os_now os (r_world r) in (t, r\<lparr>r_world := w\<rparr>))"
  "run_state (close_fd d) r = ((), r\<lparr>r_trace := r_trace r @ [SysClose d]\<rparr>)"
  "run_state (do_if b m) r = (if b then run_state m r else ((), r))"
  by (simp_all add: ask_def upd_def emits_def get_errno_def set_errno_def sys_def now_def
      close_fd_def do_if_def Let_def split: prod.split)

lemma run_script_lock: "run_state (lock script_os) r =
   (case next_answer [] (sc_calls (r_world r)) of (cs, xs) \<Rightarrow>
      ((), fold other_call cs (r\<lparr>r_world := (r_world r)\<lparr>sc_calls := xs\<rparr>\<rparr>)))"
  by (simp add: lock_def script_os_def split: prod.split)

lemma script_answers: 
  "os_read script_os d n w = (case next_answer (Fail EAGAIN) (sc_reads w) of (x, xs) \<Rightarrow>
        (map_ok (take n) x, w\<lparr>sc_reads := xs\<rparr>))"
  "os_write script_os d bs w = (case next_answer (Ok (length bs)) (sc_writes w) of (x, xs) \<Rightarrow>
        (map_ok (min (length bs)) x, w\<lparr>sc_writes := xs\<rparr>))"
      "os_tcgetpgrp script_os d w = (Ok 200, w)"
      "os_tcgetattr  script_os d w = (Ok (4, 0), w)"
      "os_tiocswinsz script_os d r c w = (Ok (), w)"
      "os_getpgid script_os p w = (Ok 100, w)"
      "os_kill script_os p sig w = (Ok (), w)"
      "os_waitpid_nohang script_os p w = (case next_answer (Ok (0, 0)) (sc_waits w) of (x, xs) \<Rightarrow>
        (x, w\<lparr>sc_waits := xs\<rparr>))"
      "os_waitpid script_os p w = (Ok (p, 9), w)"
      "os_now script_os w = (sc_clock w, w\<lparr>sc_clock := sc_clock w + nanos_per_milli\<rparr>)"
      "os_kqueue script_os w = (Ok 7, w)"
      "os_kevent_register script_os d m p w = (Ok (), w)"
      "os_kevent_wait script_os d w = (case next_answer (Ok []) (sc_events w) of (x, xs) \<Rightarrow>
        (x, w\<lparr>sc_events := xs\<rparr>))"
      "os_poll script_os d n w = (Ok 1, w)"
      "os_pipe script_os w = (Ok (4, 5), w)"
      "os_getfd script_os d w = (Ok 0, w)"
      "os_setfd script_os d f w = (Ok (), w)"
      "os_getfl script_os d w = (Ok 2, w)"
      "os_setfl script_os d f w = (Ok (), w)"
      "os_dupfd_cloexec script_os d i w = (Ok i, w)"
      "os_forkpty script_os r' c w = (Ok (100, 6), w)"
  by (simp_all add: script_os_def)

lemma small_nat:
  "(2::nat) = Suc 1" "(3::nat) = Suc 2" "(4::nat) = Suc 3" "(5::nat) = Suc 4" "(6::nat) = Suc 5"
  "(7::nat) = Suc 6" "(8::nat) = Suc 7" "(9::nat) = Suc 8" "(10::nat) = Suc 9"
  by simp_all

lemma sample_spawn: "\<not> spawn_config_invalid (spawn_config sample_config)"
  by (simp add: spawn_config_invalid_def spawn_config_def sample_config_def)

lemma started_config: "s_config (started h c) = c"
  by (simp add: started_eq SetHandle_def new_session_def)

lemmas spawn_defs = dpty_spawn_prepared_def prepare_pipe_def move_above_standard_descriptors_def
  set_close_on_exec_def succeeded_def prepare_master_def sample_spawn started_config

lemmas loop_defs = dispatch_def event_turn_def ProcessControl_def FlushWrites_def ReapChild_def
  ReadAvailable_def collect.simps read_batches.simps flush_loop.simps SetReadEnabled_def
  SetWriteEnabled_def take_control_def clear_control_def FinishExit_def CloseDescriptors_def
  EmitDiagnostic_def Emit_def ObserveProcessExitReady_def complete_reaped_def drop_writes_def
  exit_report_def WIFEXITED_def wstatus_def WEXITSTATUS_def CheckExec_def ConfigureKqueue_def

lemmas call_defs = other_call_def Write_def EnqueueWrite_def push_write_def Let_def
  Acknowledge_def Wake_def write_accepted_def next_request_id_def push_output_def
  consume_write_def front_finished_def

lemmas signal_defs = SendToProcessGroups_def DeliverSignal_def fd_tcgetpgrp_def

lemmas start_defs = started_eq SetHandle_def new_session_def sample_config_def sample_world_def
  script_world_def

text \<open>
  The run of the sample session: the two writes reach the terminal in three pieces, the
  interrupted read is repeated, its bytes become one output event, the acknowledgement
  retires it, and the exit is reported last.
\<close>

definition sample_run :: "script reactor" where
  "sample_run = run_thread script_os 10 1 sample_world (started 9 sample_config)"

lemma sample_run_facts:
  "r_trace sample_run =
     [SysOpen 4, SysOpen 5, SysFork 100, SysOpen 6, SysClose 5,
      ApiCall (CallWrite (Some [1, 2, 3])) DPTY_STATUS_OK,
      ApiCall (CallWrite (Some [4, 5])) DPTY_STATUS_OK, SysClose 4, SysOpen 7,
      Callback \<lparr>ev_session = 9, ev_type = DPTY_EVENT_STARTED, ev_sequence = 0, ev_data = None,
        ev_length = 0, ev_value1 = 100, ev_value2 = 0, ev_system_error = 0\<rparr>,
      SysWrite [1, 2], SysWrite [3], SysWrite [4, 5], SysRead [104, 105],
      Callback \<lparr>ev_session = 9, ev_type = DPTY_EVENT_OUTPUT, ev_sequence = 0,
        ev_data = Some [104, 105], ev_length = 2, ev_value1 = 0, ev_value2 = 0,
        ev_system_error = 0\<rparr>,
      ApiCall (CallAcknowledge 0 2) DPTY_STATUS_OK, KqueueEnable EVFILT_READ False,
      SysReap 100,
      Callback \<lparr>ev_session = 9, ev_type = DPTY_EVENT_EXIT, ev_sequence = 0, ev_data = None,
        ev_length = 0, ev_value1 = 3, ev_value2 = 0, ev_system_error = 0\<rparr>,
      SysClose 7, SysClose 6]"
  "s_finished_reaping (r_session sample_run)" "s_state (r_session sample_run) = kFinished"
  "s_outstanding (r_session sample_run) = []" "s_writes (r_session sample_run) = []"
  "\<not> r_hung sample_run"
  unfolding sample_run_def run_thread_def Run_def
  by (simp add: run_primitives run_script_lock script_answers spawn_defs,
      simp add: run_primitives run_script_lock script_answers start_defs map_ok_def loop_defs
        small_nat call_defs)+

text \<open>
  The caller closes the session after the child was reaped and before the output is
  acknowledged; another process has the identifier by then.
\<close>

definition late_close_world :: script where
  "late_close_world = script_world
     \<lparr>sc_calls := [[], [], [], [], [], [], [], [], [], [], [], [CallClose 0]],
      sc_reads := [Ok [], Ok [104, 105], Fail EIO],
      sc_waits := [Ok (100, 768)],
      sc_events := [Ok [KReadReady]]\<rparr>"

definition late_close_run :: "script reactor" where
  "late_close_run = run_thread script_os 10 2 late_close_world (started 9 sample_config)"

lemma late_close_run_facts:
  "r_trace late_close_run =
     [SysOpen 4, SysOpen 5, SysFork 100, SysOpen 6, SysClose 5, SysClose 4, SysOpen 7,
      Callback \<lparr>ev_session = 9, ev_type = DPTY_EVENT_STARTED, ev_sequence = 0, ev_data = None,
        ev_length = 0, ev_value1 = 100, ev_value2 = 0, ev_system_error = 0\<rparr>,
      SysRead [104, 105],
      Callback \<lparr>ev_session = 9, ev_type = DPTY_EVENT_OUTPUT, ev_sequence = 0,
        ev_data = Some [104, 105], ev_length = 2, ev_value1 = 0, ev_value2 = 0,
        ev_system_error = 0\<rparr>,
      KqueueEnable EVFILT_READ False, SysReap 100, ApiCall (CallClose 0) DPTY_STATUS_OK,
      KqueueWake 7, SysKill (- 200) SIGHUP True, SysKill (- 100) SIGHUP True,
      SysClose 7, SysClose 6]"
  unfolding late_close_run_def run_thread_def Run_def
  by (simp add: run_primitives run_script_lock script_answers spawn_defs,
      simp add: run_primitives run_script_lock script_answers start_defs map_ok_def loop_defs
        small_nat call_defs signal_defs late_close_world_def Close_def EmitStateSnapshot_def)

text \<open>Waiting for events fails with \<open>ENOMEM\<close>.\<close>

definition lost_errno_world :: script where
  "lost_errno_world = script_world\<lparr>sc_reads := [Ok []], sc_events := [Fail ENOMEM]\<rparr>"

definition lost_errno_run :: "script reactor" where
  "lost_errno_run = run_thread script_os 10 1 lost_errno_world
     (started 9 sample_config)"

lemma lost_errno_run_facts:
  "r_trace lost_errno_run =
     [SysOpen 4, SysOpen 5, SysFork 100, SysOpen 6, SysClose 5, SysClose 4, SysOpen 7,
      Callback \<lparr>ev_session = 9, ev_type = DPTY_EVENT_STARTED, ev_sequence = 0, ev_data = None,
        ev_length = 0, ev_value1 = 100, ev_value2 = 0, ev_system_error = 0\<rparr>,
      SysKill (- 200) SIGKILL True, SysKill (- 100) SIGKILL True, SysReap 100,
      Callback \<lparr>ev_session = 9, ev_type = DPTY_EVENT_ERROR, ev_sequence = 0, ev_data = None,
        ev_length = 0, ev_value1 = 5, ev_value2 = 0, ev_system_error = 0\<rparr>,
      SysClose 7, SysClose 6]"
  unfolding lost_errno_run_def run_thread_def Run_def
  by (simp add: run_primitives run_script_lock script_answers spawn_defs,
      simp add: run_primitives run_script_lock script_answers start_defs map_ok_def loop_defs
        small_nat call_defs signal_defs lost_errno_world_def TerminateAndReap_def FinishError_def)

end
