(* ===== verification/Pty_Sample_Probe.thy ===== *)
theory Pty_Sample_Probe
  imports Pty_Foreground Pty_Script
begin

text \<open>
  A sample kernel for the observations: a shell in process group 100 whose terminal has a
  foreground group 200 of two processes, and the answers it gives about them.
\<close>

definition sample_block :: "byte list" where
  "sample_block = encode_block [SLASH, 98] 2 [[98], [45, 120]] (terminated [[75, EQUALS, 49]])"

definition sample_probe :: "unit probe" where
  "sample_probe =
     \<lparr>pr_getpgid = (\<lambda>p w. (Got 100, w)), pr_tcgetpgrp = (\<lambda>d w. (Got 200, w)),
      pr_tcgetattr = (\<lambda>d w. (Got 8, w)), pr_vnodepath = (\<lambda>p w. (Got [SLASH, 116, 0], w)),
      pr_alloc = (\<lambda>n w. (True, w)), pr_group_size = (\<lambda>p w. (Got 2, w)),
      pr_group_pids = (\<lambda>p n w. (Got [201, 200], w)),
      pr_bsdinfo = (\<lambda>p w. (Got \<lparr>pbi_pgid = 200, pbi_start_tvsec = 7, pbi_start_tvusec = 5,
        pbi_name = [98, 0], pbi_comm = [99, 0]\<rparr>, w)),
      pr_start_abstime = (\<lambda>p w. (Got (word_of_int p), w)),
      pr_pidpath = (\<lambda>p w. (Got [SLASH, 98, 0], w)),
      pr_procargs_size = (\<lambda>p w. (Got (length sample_block), w)),
      pr_procargs = (\<lambda>p n w. (Got sample_block, w)),
      pr_absolute_time = (\<lambda>w. (50000, w)), pr_timebase = Some (1, 1)\<rparr>"

definition sample_session :: session where
  "sample_session = (started 9 sample_config)\<lparr>s_master_fd := 6, s_child_pid := 100\<rparr>"
lemmas snapshot_defs = GetForegroundJobSnapshot_def compatible_def sample_session_def started_eq
  SetHandle_def new_session_def positive_def sample_probe_def begin_snapshot_def
  still_current_def group_value_def conclude_def observe_job_def list_members_def
  append_member_def describe_primary_def path_result_def ReadProcessArguments_def
  new_member_def Let_def arrange_def swap_first_def

lemma sample_job:
  "\<exists>out. run_state (GetForegroundJobSnapshot sample_probe
        (Some (struct_sizeof foreground_job_layout, DPTY_ABI_VERSION)) sample_session sample_session) ()
      = (Inr out, ()) \<and>
     fj_disposition out = DPTY_FOREGROUND_JOB_AVAILABLE \<and> map m_pid (fj_members out) = [200, 201]"
  by (simp add: snapshot_defs)

lemma sample_directory:
  "\<exists>out. run_state (GetWorkingDirectorySnapshot sample_probe
        (Some (struct_sizeof cwd_layout, DPTY_ABI_VERSION)) sample_session) () = (Inr out, ()) \<and>
     wd_path out = [SLASH, 116]"
proof -
  have "strnlen [SLASH, 116, 0] MAXPATHLEN = 2" using strnlen_nul [of "[SLASH, 116]" MAXPATHLEN "[]"] by simp
  then show ?thesis
    by (simp add: GetWorkingDirectorySnapshot_def cwd_result_def snapshot_defs)
qed

lemma sample_processes:
  "\<exists>out. run_state (GetProcessSnapshot sample_probe
        (Some (struct_sizeof process_layout, DPTY_ABI_VERSION)) sample_session) () = (Inr out, ()) \<and>
     ps_foreground_process_group out = 200 \<and> ps_terminal_echo_enabled out = 1"
  by (simp add: GetProcessSnapshot_def process_report_def group_or_zero_def known_def snapshot_defs)

end
