(* ===== verification/Pty_Registry.thy ===== *)
theory Pty_Registry
  imports Pty_Prelude
begin

text \<open>
  \<open>SessionRegistry\<close> of \<^verbatim>\<open>PtySession.cc\<close>: a table of slots, each with a generation, that turns
  sessions into 64-bit handles. A handle holds the slot's index plus one in its low half and
  the slot's generation in its high half; removing a session bumps the generation, so the
  handles given out before no longer resolve.

  The contract the C functions rely on is the locale \<open>handle_table\<close>; it is interpreted on
  the registry at the end of this theory.
\<close>

section \<open>Handles\<close>

definition Encode :: "u32 \<Rightarrow> u32 \<Rightarrow> u64" where
  "Encode index generation = push_bit 32 (ucast generation) OR (ucast index + 1)"

definition Decode :: "u64 \<Rightarrow> (u32 \<times> u32) option" where
  "Decode handle =
     (let encoded_index = ucast handle :: u32;
          encoded_generation = ucast (drop_bit 32 handle) :: u32
      in if encoded_index = 0 \<or> encoded_generation = 0 then None
         else Some (encoded_index - 1, encoded_generation))"

lemma low_half: "ucast (push_bit 32 (a :: u64) OR ucast (b :: u32)) = b"
  by (rule bit_word_eqI) (auto simp: bit_ucast_iff bit_or_iff bit_push_bit_iff)

lemma high_half:
  "ucast (drop_bit 32 (push_bit 32 (ucast (a :: u32) :: u64) OR ucast (b :: u32))) = a"
  by (rule bit_word_eqI)
    (auto simp: bit_ucast_iff bit_or_iff bit_push_bit_iff bit_drop_bit_eq impossible_bit)

lemma join_halves:
  "push_bit 32 (ucast (ucast (drop_bit 32 h) :: u32)) OR ucast (ucast h :: u32) = (h :: u64)"
  by (rule bit_word_eqI)
    (auto simp: bit_ucast_iff bit_or_iff bit_push_bit_iff bit_drop_bit_eq)

lemma plus1_nonzero: "i \<noteq> - 1 \<Longrightarrow> i + 1 \<noteq> (0 :: 'a::len word)"
  by (simp add: eq_neg_iff_add_eq_0)

lemma Encode_halves:
  "i \<noteq> - 1 \<Longrightarrow> Encode i g = push_bit 32 (ucast g) OR ucast (i + 1 :: u32)"
  unfolding Encode_def by (subst ucast_plus1) simp_all

lemma Decode_Encode: "i \<noteq> - 1 \<Longrightarrow> g \<noteq> 0 \<Longrightarrow> Decode (Encode i g) = Some (i, g)"
  unfolding Decode_def Let_def Encode_halves low_half high_half by (simp add: plus1_nonzero)

lemma Decode_SomeD:
  assumes "Decode h = Some (i, g)"
  shows "h = Encode i g" "i \<noteq> - 1" "g \<noteq> 0"
proof -
  let ?lo = "ucast h :: u32" and ?hi = "ucast (drop_bit 32 h) :: u32"
  from assms have nz: "?lo \<noteq> 0" "?hi \<noteq> 0" and i: "i = ?lo - 1" and g: "g = ?hi"
    by (auto simp: Decode_def Let_def split: if_splits)
  show "g \<noteq> 0" using nz g by simp
  show i1: "i \<noteq> - 1" 
    using nz(1) unfolding i by (metis add.left_inverse diff_add_cancel)
  from i i1 have "ucast i + 1 = (ucast ?lo :: u64)" by (simp add: ucast_plus1)
  then show "h = Encode i g" unfolding Encode_def g by (simp only: join_halves)
qed

lemma Encode_inject:
  assumes "i \<noteq> - 1" "j \<noteq> - 1" "g \<noteq> 0" "k \<noteq> 0"
  shows "Encode i g = Encode j k \<longleftrightarrow> i = j \<and> g = k"
  by (metis Decode_Encode assms option.inject prod.inject)

lemma Encode_nonzero: "i \<noteq> - 1 \<Longrightarrow> g \<noteq> 0 \<Longrightarrow> Encode i g \<noteq> 0"
  using Decode_Encode by (fastforce simp: Decode_def)

section \<open>The registry\<close>

record 'a slot =
  generation :: u32
  slot_session :: "'a option"

record 'a registry =
  slots :: "'a slot list"
  free_indices :: "u32 list"
  live_count :: u64

definition empty_registry :: "'a registry" where
  "empty_registry = \<lparr>slots = [], free_indices = [], live_count = 0\<rparr>"

definition occupy :: "'a \<Rightarrow> u32 \<Rightarrow> 'a registry \<Rightarrow> u64 \<times> 'a registry" where
  "occupy s index r =
     (let slot = slots r ! unat index in
      (Encode index (generation slot),
       r\<lparr>slots := (slots r)[unat index := slot\<lparr>slot_session := Some s\<rparr>],
         live_count := live_count r + 1\<rparr>))"

definition Insert :: "'a \<Rightarrow> 'a registry \<Rightarrow> u64 \<times> 'a registry" where
  "Insert s r =
     (if free_indices r = [] then
        (if 2 ^ 32 - 1 \<le> length (slots r) then (0, r)
         else occupy s (of_nat (length (slots r)))
                (r\<lparr>slots := slots r @ [\<lparr>generation = 1, slot_session = None\<rparr>]\<rparr>))
      else occupy s (last (free_indices r))
             (r\<lparr>free_indices := butlast (free_indices r)\<rparr>))"

definition Lookup :: "'a registry \<Rightarrow> u64 \<Rightarrow> 'a option" where
  "Lookup r handle =
     (case Decode handle of
        None \<Rightarrow> None
      | Some (index, gen) \<Rightarrow>
          (if length (slots r) \<le> unat index then None
           else let slot = slots r ! unat index in
             if generation slot \<noteq> gen then None else slot_session slot))"

definition next_generation :: "u32 \<Rightarrow> u32" where
  "next_generation g = (if g + 1 = 0 then 1 else g + 1)"

definition Remove :: "u64 \<Rightarrow> 'a registry \<Rightarrow> 'a option \<times> 'a registry" where
  "Remove handle r =
     (case Decode handle of
        None \<Rightarrow> (None, r)
      | Some (index, gen) \<Rightarrow>
          (if length (slots r) \<le> unat index then (None, r)
           else let slot = slots r ! unat index in
             if generation slot \<noteq> gen \<or> slot_session slot = None then (None, r)
             else (slot_session slot,
               r\<lparr>slots := (slots r)[unat index :=
                    \<lparr>generation = next_generation (generation slot), slot_session = None\<rparr>],
                 free_indices := free_indices r @ [index],
                 live_count := live_count r - 1\<rparr>)))"

section \<open>The invariant\<close>

definition occupied :: "'a slot \<Rightarrow> bool" where
  "occupied s \<longleftrightarrow> slot_session s \<noteq> None"

definition reg_inv :: "'a registry \<Rightarrow> bool" where
  "reg_inv r \<longleftrightarrow>
     length (slots r) \<le> 2 ^ 32 - 1 \<and>
     (\<forall>s \<in> set (slots r). generation s \<noteq> 0) \<and>
     distinct (free_indices r) \<and>
     unat ` set (free_indices r) = {i. i < length (slots r) \<and> \<not> occupied (slots r ! i)} \<and>
     live_count r = of_nat (length (filter occupied (slots r)))"

lemma reg_inv_empty: "reg_inv empty_registry"
  by (simp add: reg_inv_def empty_registry_def)

lemma length_filter_update:
  "i < length xs \<Longrightarrow>
   length (filter P (xs[i := y])) + (if P (xs ! i) then 1 else 0)
     = length (filter P xs) + (if P y then 1 else 0)"
proof (induction xs arbitrary: i)
  case (Cons x xs)
  show ?case
  proof (cases i)
    case (Suc j)
    with Cons.prems have "j < length xs" by simp
    from Cons.IH [OF this] Suc show ?thesis by auto
  qed simp
qed simp

lemma unat_word_inject: "unat i = unat j \<longleftrightarrow> i = j"
  by (simp add: word_unat_eq_iff)

lemma index_not_max: "unat (i :: u32) < n \<Longrightarrow> n \<le> 2 ^ 32 - 1 \<Longrightarrow> i \<noteq> - 1"
  using unat_less_max [of i] by simp

lemma unat_of_nat_u32: "n < 2 ^ 32 \<Longrightarrow> unat (of_nat n :: u32) = n"
  by (simp add: unsigned_of_nat take_bit_nat_eq_self)

text \<open>
  What filling a slot does to the lookup, for any table whose slot \<open>index\<close> exists, has a
  nonzero generation and is empty.
\<close>

definition vacant :: "'a registry \<Rightarrow> u32 \<Rightarrow> bool" where
  "vacant r index \<longleftrightarrow> unat index < length (slots r) \<and> length (slots r) \<le> 2 ^ 32 - 1 \<and>
     generation (slots r ! unat index) \<noteq> 0 \<and> \<not> occupied (slots r ! unat index)"

lemma Lookup_Encode:
  "i \<noteq> - 1 \<Longrightarrow> g \<noteq> 0 \<Longrightarrow> Lookup r (Encode i g) =
     (if unat i < length (slots r) \<and> generation (slots r ! unat i) = g
      then slot_session (slots r ! unat i) else None)"
  by (simp add: Lookup_def Decode_Encode Let_def)

lemma Lookup_cases:
  assumes "Decode h = None \<Longrightarrow> Lookup r h = None \<Longrightarrow> P"
    and "\<And>i g. h = Encode i g \<Longrightarrow> i \<noteq> - 1 \<Longrightarrow> g \<noteq> 0 \<Longrightarrow> P"
  shows P
proof (cases "Decode h")
  case None
  then show ?thesis using assms(1) by (simp add: Lookup_def)
next
  case (Some p)
  obtain i g where "p = (i, g)" by (cases p)
  with Some have "Decode h = Some (i, g)" by simp
  then show ?thesis by (intro assms(2) [of i g] Decode_SomeD)
qed

lemma Lookup_occupy:
  assumes "vacant r index" and o: "occupy s index r = (h, r')"
  shows "Lookup r' = (Lookup r)(h \<mapsto> s)" "Lookup r h = None" "h \<noteq> 0"
proof -
  let ?g = "generation (slots r ! unat index)"
  from assms(1) have v: "unat index < length (slots r)" "index \<noteq> - 1" "?g \<noteq> 0"
    "slot_session (slots r ! unat index) = None"
    using index_not_max [of index "length (slots r)"] by (auto simp: vacant_def occupied_def)
  from o have h: "h = Encode index ?g"
    and r': "slots r' = (slots r)[unat index := (slots r ! unat index)\<lparr>slot_session := Some s\<rparr>]"
    by (auto simp: occupy_def Let_def)
  show "h \<noteq> 0" unfolding h using v by (rule_tac Encode_nonzero)
  show "Lookup r h = None" unfolding h using v by (simp add: Lookup_Encode)
  show "Lookup r' = (Lookup r)(h \<mapsto> s)"
  proof
    fix k
    show "Lookup r' k = ((Lookup r)(h \<mapsto> s)) k"
    proof (rule Lookup_cases [of k r])
      assume "Decode k = None"
      moreover from this have "k \<noteq> h" unfolding h using v by (auto simp: Decode_Encode)
      ultimately show ?thesis by (simp add: Lookup_def)
    next
      fix i g assume k: "k = Encode i g" "i \<noteq> - 1" "g \<noteq> 0"
      have "k = h \<longleftrightarrow> i = index \<and> g = ?g" unfolding k h using k v by (intro Encode_inject)
      then show ?thesis unfolding k(1) using k v
        by (auto simp: Lookup_Encode r' nth_list_update unat_word_inject)
    qed
  qed
qed

lemma Lookup_append_empty:
  assumes "length (slots r) \<le> 2 ^ 32 - 1"
  shows "Lookup (r\<lparr>slots := slots r @ [\<lparr>generation = g, slot_session = None\<rparr>]\<rparr>) = Lookup r"
  by (rule ext) (auto simp: Lookup_def Let_def nth_append less_Suc_eq_le split: option.splits prod.splits)

lemma Lookup_free_indices: "Lookup (r\<lparr>free_indices := f\<rparr>) = Lookup r"
  by (rule ext) (simp add: Lookup_def split: option.splits)

text \<open>The slot that \<open>Insert\<close> fills is vacant, and afterwards the books agree again.\<close>

lemma occupy_inv:
  assumes v: "vacant r index" and o: "occupy s index r = (h, r')"
    and gens: "\<forall>s \<in> set (slots r). generation s \<noteq> 0" and d: "distinct (free_indices r)"
    and free: "unat ` set (free_indices r) =
      {i. i < length (slots r) \<and> \<not> occupied (slots r ! i)} - {unat index}"
    and live: "live_count r = of_nat (length (filter occupied (slots r)))"
  shows "reg_inv r'"
proof -
  let ?i = "unat index" and ?slot = "(slots r ! unat index)\<lparr>slot_session := Some s\<rparr>"
  from v have i: "?i < length (slots r)" "\<not> occupied (slots r ! ?i)"
    "length (slots r) \<le> 2 ^ 32 - 1" "generation (slots r ! ?i) \<noteq> 0"
    by (auto simp: vacant_def)
  from o have r': "slots r' = (slots r)[?i := ?slot]" "free_indices r' = free_indices r"
    "live_count r' = live_count r + 1"
    by (auto simp: occupy_def Let_def)
  have "length (filter occupied (slots r')) = Suc (length (filter occupied (slots r)))"
    using length_filter_update [OF i(1), of occupied ?slot] i(2)
    by (simp add: r' occupied_def)
  then have "live_count r' = of_nat (length (filter occupied (slots r')))"
    by (simp add: r' live)
  moreover have "\<forall>s \<in> set (slots r'). generation s \<noteq> 0"
    using gens i(4) set_update_subset_insert [of "slots r" ?i ?slot] by (auto simp: r')
  moreover have "{k. k < length (slots r') \<and> \<not> occupied (slots r' ! k)} =
      {k. k < length (slots r) \<and> \<not> occupied (slots r ! k)} - {?i}"
    using i(1) by (auto simp: r' nth_list_update occupied_def)
  ultimately show ?thesis
    using d free i(3) by (simp add: reg_inv_def r')
qed

definition insert_slot :: "'a registry \<Rightarrow> u32 \<times> 'a registry" where
  "insert_slot r =
     (if free_indices r = []
      then (of_nat (length (slots r)),
            r\<lparr>slots := slots r @ [\<lparr>generation = 1, slot_session = None\<rparr>]\<rparr>)
      else (last (free_indices r), r\<lparr>free_indices := butlast (free_indices r)\<rparr>))"

lemma Insert_occupy:
  "free_indices r = [] \<longrightarrow> length (slots r) < 2 ^ 32 - 1 \<Longrightarrow>
   Insert s r = occupy s (fst (insert_slot r)) (snd (insert_slot r))"
  by (auto simp: Insert_def insert_slot_def)

lemma insert_slot_ok:
  assumes inv: "reg_inv r" and room: "free_indices r = [] \<longrightarrow> length (slots r) < 2 ^ 32 - 1"
    and slot: "insert_slot r = (index, r1)"
  shows "vacant r1 index" "Lookup r1 = Lookup r"
    "\<forall>s \<in> set (slots r1). generation s \<noteq> 0" "distinct (free_indices r1)"
    "unat ` set (free_indices r1) =
      {i. i < length (slots r1) \<and> \<not> occupied (slots r1 ! i)} - {unat index}"
    "live_count r1 = of_nat (length (filter occupied (slots r1)))"
proof -
  have "vacant r1 index \<and> Lookup r1 = Lookup r \<and>
    (\<forall>s \<in> set (slots r1). generation s \<noteq> 0) \<and> distinct (free_indices r1) \<and>
    unat ` set (free_indices r1) =
      {i. i < length (slots r1) \<and> \<not> occupied (slots r1 ! i)} - {unat index} \<and>
    live_count r1 = of_nat (length (filter occupied (slots r1)))"
  proof (cases "free_indices r = []")
    case True
    with slot have r1: "index = of_nat (length (slots r))"
      "r1 = r\<lparr>slots := slots r @ [\<lparr>generation = 1, slot_session = None\<rparr>]\<rparr>"
      by (auto simp: insert_slot_def)
    from True room have len: "length (slots r) < 2 ^ 32 - 1" by simp
    then have ui: "unat index = length (slots r)" by (simp add: r1 unat_of_nat_u32)
    have occ: "\<forall>i < length (slots r). occupied (slots r ! i)"
      using inv True by (auto simp: reg_inv_def)
    show ?thesis using len inv True occ Lookup_append_empty [of r 1]
      by (auto simp: r1(2) ui vacant_def reg_inv_def nth_append occupied_def less_Suc_eq)
  next
    case False
    with slot have r1: "index = last (free_indices r)"
      "r1 = r\<lparr>free_indices := butlast (free_indices r)\<rparr>"
      by (auto simp: insert_slot_def)
    have fs: "set (free_indices r) = insert index (set (butlast (free_indices r)))"
      unfolding r1 using False by (rule butlast_last)
    have nin: "index \<notin> set (butlast (free_indices r))"
      using inv False unfolding r1 reg_inv_def
      by (metis append_butlast_last_id distinct_append disjoint_iff list.set_intros(1))
    have free: "unat ` set (free_indices r) = {i. i < length (slots r) \<and> \<not> occupied (slots r ! i)}"
      using inv by (simp add: reg_inv_def)
    have "unat index \<in> {i. i < length (slots r) \<and> \<not> occupied (slots r ! i)}"
      using free fs by blast
    then have "vacant r1 index"
      using inv by (auto simp: vacant_def r1(2) reg_inv_def)
    moreover have "unat ` set (butlast (free_indices r)) =
        {i. i < length (slots r) \<and> \<not> occupied (slots r ! i)} - {unat index}"
      using free fs nin by (auto simp: unat_word_inject)
    ultimately show ?thesis
      using inv by (auto simp: r1(2) reg_inv_def Lookup_free_indices distinct_butlast)
  qed
  then show "vacant r1 index" "Lookup r1 = Lookup r"
    "\<forall>s \<in> set (slots r1). generation s \<noteq> 0" "distinct (free_indices r1)"
    "unat ` set (free_indices r1) =
      {i. i < length (slots r1) \<and> \<not> occupied (slots r1 ! i)} - {unat index}"
    "live_count r1 = of_nat (length (filter occupied (slots r1)))"
    by blast+
qed

lemma Insert_full: "Insert s r = (0, r) \<or> (free_indices r = [] \<longrightarrow> length (slots r) < 2 ^ 32 - 1)"
  by (auto simp: Insert_def)

lemma Insert_laws:
  assumes "reg_inv r" "Insert s r = (h, r')"
  shows "reg_inv r'" "h = 0 \<Longrightarrow> r' = r"
    "h \<noteq> 0 \<Longrightarrow> Lookup r h = None" "h \<noteq> 0 \<Longrightarrow> Lookup r' = (Lookup r)(h \<mapsto> s)"
proof -
  have "reg_inv r' \<and> (h = 0 \<longrightarrow> r' = r) \<and>
    (h \<noteq> 0 \<longrightarrow> Lookup r h = None \<and> Lookup r' = (Lookup r)(h \<mapsto> s))"
  proof (cases "free_indices r = [] \<longrightarrow> length (slots r) < 2 ^ 32 - 1")
    case False
    then have "Insert s r = (0, r)" using Insert_full [of s r] by blast
    with assms show ?thesis by simp
  next
    case True
    obtain index r1 where slot: "insert_slot r = (index, r1)" by (cases "insert_slot r")
    from assms(2) slot True have o: "occupy s index r1 = (h, r')" by (simp add: Insert_occupy)
    note ok = insert_slot_ok [OF assms(1) True slot]
    show ?thesis
      using Lookup_occupy [OF ok(1) o] occupy_inv [OF ok(1) o ok(3-6)] ok(2) by simp
  qed
  then show "reg_inv r'" "h = 0 \<Longrightarrow> r' = r" "h \<noteq> 0 \<Longrightarrow> Lookup r h = None"
    "h \<noteq> 0 \<Longrightarrow> Lookup r' = (Lookup r)(h \<mapsto> s)"
    by blast+
qed

lemma Insert_succeeds:
  "reg_inv r \<Longrightarrow> length (slots r) < 2 ^ 32 - 1 \<Longrightarrow> fst (Insert s r) \<noteq> 0"
proof -
  assume inv: "reg_inv r" and len: "length (slots r) < 2 ^ 32 - 1"
  then have room: "free_indices r = [] \<longrightarrow> length (slots r) < 2 ^ 32 - 1" by simp
  obtain index r1 where slot: "insert_slot r = (index, r1)" by (cases "insert_slot r")
  obtain h r' where o: "occupy s index r1 = (h, r')" by (cases "occupy s index r1")
  have "h \<noteq> 0" using Lookup_occupy(3) [OF insert_slot_ok(1) [OF inv room slot] o] .
  then show ?thesis using slot o room by (simp add: Insert_occupy)
qed

section \<open>Removal\<close>

lemma next_generation_nonzero: "next_generation g \<noteq> 0"
  by (simp add: next_generation_def)

lemma Remove_None: "Lookup r h = None \<Longrightarrow> Remove h r = (None, r)"
  by (auto simp: Lookup_def Remove_def Let_def split: option.splits prod.splits if_splits)

lemma Remove_Some:
  assumes "Lookup r h = Some s"
  obtains i g where "h = Encode i g" "i \<noteq> - 1" "g \<noteq> 0" "unat i < length (slots r)"
    "slots r ! unat i = \<lparr>generation = g, slot_session = Some s\<rparr>"
    "Remove h r = (Some s, r\<lparr>slots := (slots r)[unat i :=
        \<lparr>generation = next_generation g, slot_session = None\<rparr>],
      free_indices := free_indices r @ [i], live_count := live_count r - 1\<rparr>)"
proof -
  from assms obtain i g where d: "Decode h = Some (i, g)" and i: "unat i < length (slots r)"
    and g: "generation (slots r ! unat i) = g" and s: "slot_session (slots r ! unat i) = Some s"
    by (auto simp: Lookup_def Let_def split: option.splits prod.splits if_splits)
  from g s have slot: "slots r ! unat i = \<lparr>generation = g, slot_session = Some s\<rparr>"
    by (cases "slots r ! unat i") simp
  have "Remove h r = (Some s, r\<lparr>slots := (slots r)[unat i :=
        \<lparr>generation = next_generation g, slot_session = None\<rparr>],
      free_indices := free_indices r @ [i], live_count := live_count r - 1\<rparr>)"
    using d i by (simp add: Remove_def Let_def slot)
  then show thesis using that Decode_SomeD [OF d] i slot by blast
qed

lemma Remove_laws:
  assumes inv: "reg_inv r" and l: "Lookup r h = Some s" and rm: "Remove h r = (x, r')"
  shows "x = Some s" "reg_inv r'" "Lookup r' = (Lookup r)(h := None)"
proof -
  obtain i g where h: "h = Encode i g" "i \<noteq> - 1" "g \<noteq> 0" and i: "unat i < length (slots r)"
    and slot: "slots r ! unat i = \<lparr>generation = g, slot_session = Some s\<rparr>"
    and R: "Remove h r = (Some s, r\<lparr>slots := (slots r)[unat i :=
        \<lparr>generation = next_generation g, slot_session = None\<rparr>],
      free_indices := free_indices r @ [i], live_count := live_count r - 1\<rparr>)"
    using Remove_Some [OF l] .
  let ?new = "\<lparr>generation = next_generation g, slot_session = None\<rparr> :: 'a slot"
  from R rm have x: "x = Some s" and sl: "slots r' = (slots r)[unat i := ?new]"
    and fr: "free_indices r' = free_indices r @ [i]" and lc: "live_count r' = live_count r - 1"
    by auto
  show "x = Some s" by (rule x)
  have occ: "occupied (slots r ! unat i)" by (simp add: slot occupied_def)
  have free: "unat ` set (free_indices r) = {k. k < length (slots r) \<and> \<not> occupied (slots r ! k)}"
    using inv by (simp add: reg_inv_def)
  then have nin: "i \<notin> set (free_indices r)" using occ by blast
  have "Suc (length (filter occupied (slots r'))) = length (filter occupied (slots r))"
    using length_filter_update [OF i, of occupied ?new] occ by (simp add: sl occupied_def)
  moreover have "live_count r = of_nat (length (filter occupied (slots r)))"
    using inv by (simp add: reg_inv_def)
  ultimately have "live_count r' = of_nat (length (filter occupied (slots r')))"
    by (metis add_diff_cancel_right' lc of_nat_Suc add.commute)
  moreover have "{k. k < length (slots r') \<and> \<not> occupied (slots r' ! k)} =
      insert (unat i) {k. k < length (slots r) \<and> \<not> occupied (slots r ! k)}"
    using i by (auto simp: sl nth_list_update occupied_def)
  moreover have "\<forall>s \<in> set (slots r'). generation s \<noteq> 0"
    using inv set_update_subset_insert [of "slots r" "unat i" ?new]
    by (auto simp: sl reg_inv_def next_generation_nonzero)
  ultimately show "reg_inv r'"
    using inv nin free by (simp add: reg_inv_def fr sl)
  show "Lookup r' = (Lookup r)(h := None)"
  proof
    fix k
    show "Lookup r' k = ((Lookup r)(h := None)) k"
    proof (rule Lookup_cases [of k r])
      assume "Decode k = None"
      then show ?thesis by (simp add: Lookup_def)
    next
      fix j u assume k: "k = Encode j u" "j \<noteq> - 1" "u \<noteq> 0"
      have "k = h \<longleftrightarrow> j = i \<and> u = g" unfolding k h using k h by (intro Encode_inject)
      then show ?thesis unfolding k(1) using k h i
        using slot by (auto simp: Lookup_Encode sl nth_list_update unat_word_inject)
    qed
  qed
qed

section \<open>Stale handles\<close>

text \<open>
  Generations run through the nonzero 32-bit values. \<open>bumps g t\<close> is the number of
  increments from \<open>g\<close> until the slot carries \<open>t\<close> again.
\<close>

definition bumps :: "u32 \<Rightarrow> u32 \<Rightarrow> nat" where
  "bumps g t = (if unat g \<le> unat t then unat t - unat g else unat t + (2 ^ 32 - 1) - unat g)"

lemma unat_next_generation:
  "g \<noteq> 0 \<Longrightarrow> unat (next_generation g) = (if unat g = 2 ^ 32 - 1 then 1 else Suc (unat g))"
proof (cases "g = - 1")
  case False
  assume "g \<noteq> 0"
  from False have "unat g \<noteq> 2 ^ 32 - 1" by (simp add: word_unat_eq_iff unat_neg_1)
  then show ?thesis
    using False by (simp add: next_generation_def plus1_nonzero unat_plus1)
qed (simp add: next_generation_def unat_neg_1)

lemma bumps_next:
  "g \<noteq> 0 \<Longrightarrow> t \<noteq> 0 \<Longrightarrow> 0 < bumps g t \<Longrightarrow> Suc (bumps (next_generation g) t) = bumps g t"
  using unat_bound [of g] unat_bound [of t] unat_gt_0 [of g] unat_gt_0 [of t]
  by (auto simp: bumps_def unat_next_generation)

lemma bumps_self: "t \<noteq> 0 \<Longrightarrow> bumps (next_generation t) t = 2 ^ 32 - 2"
  using unat_bound [of t] unat_gt_0 [of t] by (auto simp: bumps_def unat_next_generation)

lemma bumps_pos: "0 < bumps g t \<Longrightarrow> g \<noteq> t"
  by (auto simp: bumps_def)

text \<open>\<open>retired r h n\<close>: the handle's slot is at least \<open>n\<close> removals away from the handle's generation.\<close>

definition retired :: "'a registry \<Rightarrow> u64 \<Rightarrow> nat \<Rightarrow> bool" where
  "retired r h n \<longleftrightarrow> (\<exists>i g. h = Encode i g \<and> i \<noteq> - 1 \<and> g \<noteq> 0 \<and> unat i < length (slots r) \<and>
     n \<le> bumps (generation (slots r ! unat i)) g)"

lemma retired_Lookup: "retired r h n \<Longrightarrow> 0 < n \<Longrightarrow> Lookup r h = None"
  using bumps_pos by (fastforce simp: retired_def Lookup_Encode)

lemma retired_Remove:
  assumes "Lookup r h = Some s"
  shows "retired (snd (Remove h r)) h (2 ^ 32 - 2)"
proof -
  obtain i g where h: "h = Encode i g" "i \<noteq> - 1" "g \<noteq> 0" "unat i < length (slots r)"
    and R: "Remove h r = (Some s, r\<lparr>slots := (slots r)[unat i :=
        \<lparr>generation = next_generation g, slot_session = None\<rparr>],
      free_indices := free_indices r @ [i], live_count := live_count r - 1\<rparr>)"
    using Remove_Some [OF assms] .
  have slot: "slots (snd (Remove h r)) =
      (slots r)[unat i := \<lparr>generation = next_generation g, slot_session = None\<rparr>]"
    by (simp add: R)
  show ?thesis
    unfolding retired_def
  proof (intro exI conjI)
    show "2 ^ 32 - 2 \<le> bumps (generation (slots (snd (Remove h r)) ! unat i)) g"
      using h(3,4) by (simp add: slot bumps_self)
    show "unat i < length (slots (snd (Remove h r)))" using h(4) by (simp add: slot)
  qed (rule h)+
qed

lemma occupy_generation:
  "i < length (slots r) \<Longrightarrow> generation (slots (snd (occupy s index r)) ! i) = generation (slots r ! i)"
  by (cases "unat index = i") (simp_all add: occupy_def Let_def)

lemma occupy_length: "length (slots (snd (occupy s index r))) = length (slots r)"
  by (simp add: occupy_def Let_def)

lemma Insert_generation:
  assumes "i < length (slots r)"
  shows "i < length (slots (snd (Insert s r)))"
    "generation (slots (snd (Insert s r)) ! i) = generation (slots r ! i)"
  using assms by (simp_all add: Insert_def occupy_length occupy_generation nth_append)

lemma retired_Insert:
  assumes "retired r h n"
  shows "retired (snd (Insert s r)) h n"
  using assms unfolding retired_def by (metis Insert_generation)

lemma retired_other_Remove:
  assumes inv: "reg_inv r" and ret: "retired r h (Suc n)"
  shows "retired (snd (Remove k r)) h n"
proof (cases "Lookup r k")
  case None
  then show ?thesis using ret Suc_leD by (fastforce simp: Remove_None retired_def)
next
  case (Some s)
  from ret obtain i g where h: "h = Encode i g" "i \<noteq> - 1" "g \<noteq> 0" "unat i < length (slots r)"
    and b: "Suc n \<le> bumps (generation (slots r ! unat i)) g"
    by (auto simp: retired_def)
  obtain j u where k: "unat j < length (slots r)" "u \<noteq> 0"
    and slot: "slots r ! unat j = \<lparr>generation = u, slot_session = Some s\<rparr>"
    and R: "Remove k r = (Some s, r\<lparr>slots := (slots r)[unat j :=
        \<lparr>generation = next_generation u, slot_session = None\<rparr>],
      free_indices := free_indices r @ [j], live_count := live_count r - 1\<rparr>)"
    using Remove_Some [OF Some] by metis
  have "n \<le> bumps (generation (slots (snd (Remove k r)) ! unat i)) g"
  proof (cases "i = j")
    case True
    with b slot have "Suc n \<le> bumps u g" by simp
    then show ?thesis using bumps_next [OF k(2) h(3)] True h(4) by (simp add: R)
  next
    case False
    with b show ?thesis by (simp add: R nth_list_update unat_word_inject)
  qed
  moreover have "length (slots (snd (Remove k r))) = length (slots r)" by (simp add: R)
  ultimately show ?thesis using h by (auto simp: retired_def)
qed

text \<open>A history of the registry, and how many removals it has.\<close>

datatype 'a registry_op = OpInsert 'a | OpRemove u64

primrec apply_op :: "'a registry_op \<Rightarrow> 'a registry \<Rightarrow> 'a registry" where
  "apply_op (OpInsert s) r = snd (Insert s r)"
| "apply_op (OpRemove h) r = snd (Remove h r)"

fun removals :: "'a registry_op list \<Rightarrow> nat" where
  "removals [] = 0"
| "removals (OpInsert s # ops) = removals ops"
| "removals (OpRemove h # ops) = Suc (removals ops)"

lemma apply_op_inv: "reg_inv r \<Longrightarrow> reg_inv (apply_op op r)"
proof (cases op)
  case (OpInsert s)
  assume "reg_inv r"
  then show ?thesis using Insert_laws(1) [of r s "fst (Insert s r)" "snd (Insert s r)"] OpInsert
    by simp
next
  case (OpRemove h)
  assume "reg_inv r"
  then show ?thesis
    using OpRemove Remove_laws(2) [of r h _ "fst (Remove h r)" "snd (Remove h r)"]
      Remove_None [of r h]
    by (cases "Lookup r h") simp_all
qed

lemma retired_history:
  "reg_inv r \<Longrightarrow> retired r h n \<Longrightarrow> removals ops \<le> n \<Longrightarrow> retired (fold apply_op ops r) h (n - removals ops)"
proof (induction ops arbitrary: r n rule: removals.induct)
  case (2 s ops)
  then show ?case using retired_Insert [of r h n s] apply_op_inv [of r "OpInsert s"] by simp
next
  case (3 k ops)
  then obtain m where m: "n = Suc m" by (cases n) auto
  with 3 show ?case
    using retired_other_Remove [of r h m k] apply_op_inv [of r "OpRemove k"] by simp
qed simp

section \<open>The contract of a handle table\<close>

locale handle_table =
  fixes lookup :: "'t \<Rightarrow> u64 \<Rightarrow> 'a option"
    and ins :: "'a \<Rightarrow> 't \<Rightarrow> u64 \<times> 't"
    and rem :: "u64 \<Rightarrow> 't \<Rightarrow> 'a option \<times> 't"
    and good :: "'t \<Rightarrow> bool"
  assumes ins_good: "good t \<Longrightarrow> good (snd (ins s t))"
    and ins_fresh: "good t \<Longrightarrow> ins s t = (h, t') \<Longrightarrow> h \<noteq> 0 \<Longrightarrow> lookup t h = None"
    and ins_lookup: "good t \<Longrightarrow> ins s t = (h, t') \<Longrightarrow> h \<noteq> 0 \<Longrightarrow> lookup t' = (lookup t)(h \<mapsto> s)"
    and ins_full: "good t \<Longrightarrow> ins s t = (0, t') \<Longrightarrow> t' = t"
    and rem_good: "good t \<Longrightarrow> good (snd (rem h t))"
    and rem_value: "good t \<Longrightarrow> fst (rem h t) = lookup t h"
    and rem_lookup: "good t \<Longrightarrow> lookup (snd (rem h t)) = (lookup t)(h := None)"
begin

lemma ins_keeps: "good t \<Longrightarrow> lookup t k = Some x \<Longrightarrow> lookup (snd (ins s t)) k = Some x"
proof -
  assume g: "good t" and k: "lookup t k = Some x"
  obtain h t' where i: "ins s t = (h, t')" by (cases "ins s t")
  show ?thesis
  proof (cases "h = 0")
    case True
    with i g ins_full k show ?thesis by (metis snd_conv)
  next
    case False
    then have "lookup t h = None" "lookup t' = (lookup t)(h \<mapsto> s)"
      using ins_fresh [OF g i] ins_lookup [OF g i] by blast+
    with k i show ?thesis by auto
  qed
qed

lemma rem_twice: "good t \<Longrightarrow> fst (rem h (snd (rem h t))) = None"
  by (simp add: rem_value rem_good rem_lookup)

lemma ins_rem: "good t \<Longrightarrow> ins s t = (h, t') \<Longrightarrow> h \<noteq> 0 \<Longrightarrow> lookup (snd (rem h t')) = lookup t"
proof -
  assume a: "good t" "ins s t = (h, t')" "h \<noteq> 0"
  then have "good t'" using ins_good [of t s] by simp
  then have "lookup (snd (rem h t')) = (lookup t')(h := None)" by (rule rem_lookup)
  also have "\<dots> = (lookup t)(h := None)" using ins_lookup [OF a] by simp
  also have "\<dots> = lookup t" using ins_fresh [OF a] by auto
  finally show ?thesis .
qed

end

lemma Remove_value: "reg_inv r \<Longrightarrow> fst (Remove h r) = Lookup r h"
proof (cases "Lookup r h")
  case (Some s)
  assume "reg_inv r"
  from Remove_laws(1) [OF this Some, of "fst (Remove h r)" "snd (Remove h r)"] Some
  show ?thesis by simp
qed (simp add: Remove_None)

lemma Remove_lookup: "reg_inv r \<Longrightarrow> Lookup (snd (Remove h r)) = (Lookup r)(h := None)"
proof (cases "Lookup r h")
  case (Some s)
  assume "reg_inv r"
  from Remove_laws(3) [OF this Some, of "fst (Remove h r)" "snd (Remove h r)"]
  show ?thesis by simp
next
  case None
  then show ?thesis by (simp only: Remove_None snd_conv fun_upd_idem)
qed

interpretation reg: handle_table Lookup Insert Remove reg_inv
proof (unfold_locales, goal_cases)
  case (1 t s)
  then show ?case using apply_op_inv [of t "OpInsert s"] by simp
next
  case (2 t s h t')
  then show ?case by (rule Insert_laws(3))
next
  case (3 t s h t')
  then show ?case by (rule Insert_laws(4))
next
  case (4 t s t')
  then show ?case by (rule Insert_laws(2)) (rule refl)
next
  case (5 t h)
  then show ?case using apply_op_inv [of t "OpRemove h"] by simp
next
  case (6 t h)
  then show ?case by (rule Remove_value)
next
  case (7 t h)
  then show ?case by (rule Remove_lookup)
qed

end
