(* ===== verification/Pty_Api.thy ===== *)
theory Pty_Api
  imports Pty_Registry Pty_Session_Inv
begin

text \<open>
  The C interface: the \<open>dpty_*\<close> functions of \<^verbatim>\<open>PtySession.cc\<close> over the global registry and the
  calling thread's last error. A session is a shared pointer: the registry maps handles to
  addresses, and the sessions live in a store. The observations (\<open>dpty_session_get_*\<close>) look
  the session up the same way and change nothing; their results are modelled in
  \<open>Pty_Snapshot\<close> and \<open>Pty_Foreground\<close>.
\<close>

section \<open>State\<close>

record api =
  a_registry :: "nat registry"
  a_sessions :: "nat \<Rightarrow> session option"
  a_next_address :: nat
  a_last_error :: DptyError

definition initial_api :: api where
  "initial_api = \<lparr>a_registry = empty_registry, a_sessions = (\<lambda>_. None), a_next_address = 0,
     a_last_error = ClearError\<rparr>"

type_synonym 'a api_operation = "api \<Rightarrow> (DptyError + 'a) \<times> api \<times> effect list"

text \<open>The last error after a call: cleared at its start, set where it fails.\<close>

definition recorded :: "(DptyError + 'a) \<times> api \<times> effect list \<Rightarrow> (DptyError + 'a) \<times> api \<times> effect list" where
  "recorded x = (case x of (r, a, es) \<Rightarrow>
     (r, a\<lparr>a_last_error := (case r of Inl e \<Rightarrow> e | Inr _ \<Rightarrow> ClearError)\<rparr>, es))"

definition LookupSession :: "api \<Rightarrow> u64 \<Rightarrow> DptyError + nat \<times> session" where
  "LookupSession a handle =
     (case Option.bind (Lookup (a_registry a) handle)
         (\<lambda>i. map_option (\<lambda>s. (i, s)) (a_sessions a i)) of
        None \<Rightarrow> Inl (SetError DPTY_STATUS_INVALID_HANDLE 0 ''PTY session handle is stale or invalid'')
      | Some p \<Rightarrow> Inr p)"

definition with_session :: "u64 \<Rightarrow> 'a operation \<Rightarrow> 'a api_operation" where
  "with_session handle f a =
     (case LookupSession a handle of
        Inl e \<Rightarrow> (Inl e, a, [])
      | Inr (i, s) \<Rightarrow>
          (case f s of (r, s', es) \<Rightarrow> (r, a\<lparr>a_sessions := (a_sessions a)(i \<mapsto> s')\<rparr>, es)))"

section \<open>The functions\<close>

definition dpty_session_create :: "DptySessionConfigV1 option \<Rightarrow> bool \<Rightarrow> bool \<Rightarrow> u64 api_operation" where
  "dpty_session_create config out_session allocated a = recorded
     (if \<not> out_session
      then (Inl (SetError DPTY_STATUS_INVALID_ARGUMENT EINVAL ''PTY output session pointer is null''), a, [])
      else case CopyConfig config of
        Inl e \<Rightarrow> (Inl e, a, [])
      | Inr copied \<Rightarrow>
          if \<not> allocated
          then (Inl (SetError DPTY_STATUS_SYSTEM_ERROR ENOMEM ''could not allocate PTY session''), a, [])
          else
            (case Insert (a_next_address a) (a_registry a) of (handle, reg) \<Rightarrow>
               if handle = 0
               then (Inl (SetError DPTY_STATUS_SYSTEM_ERROR ENOMEM ''PTY session registry is exhausted''), a, [])
               else (Inr handle,
                     a\<lparr>a_registry := reg,
                       a_sessions := (a_sessions a)(a_next_address a \<mapsto> SetHandle handle (new_session copied)),
                       a_next_address := Suc (a_next_address a)\<rparr>, [])))"

definition dpty_session_start :: "u64 \<Rightarrow> bool \<Rightarrow> unit api_operation" where
  "dpty_session_start handle thread_created a = recorded (with_session handle (Start thread_created) a)"

definition dpty_session_write :: "u64 \<Rightarrow> byte list option \<Rightarrow> u64 api_operation" where
  "dpty_session_write handle bytes a = recorded (with_session handle (Write bytes) a)"

definition dpty_session_write_tracked :: "u64 \<Rightarrow> byte list option \<Rightarrow> bool \<Rightarrow> u64 api_operation" where
  "dpty_session_write_tracked handle bytes out_request_id a = recorded
     (if \<not> out_request_id
      then (Inl (SetError DPTY_STATUS_INVALID_ARGUMENT EINVAL
             ''tracked PTY write output request ID is null''), a, [])
      else with_session handle (WriteTracked out_request_id bytes) a)"

definition dpty_session_ack_output :: "u64 \<Rightarrow> u64 \<Rightarrow> nat \<Rightarrow> unit api_operation" where
  "dpty_session_ack_output handle sq len a = recorded (with_session handle (Acknowledge sq len) a)"

definition dpty_session_resize :: "u64 \<Rightarrow> u16 \<Rightarrow> u16 \<Rightarrow> unit api_operation" where
  "dpty_session_resize handle nrows ncolumns a = recorded (with_session handle (Resize nrows ncolumns) a)"

definition dpty_session_send_signal :: "u64 \<Rightarrow> u32 \<Rightarrow> unit api_operation" where
  "dpty_session_send_signal handle signal a = recorded (with_session handle (SendSignal signal) a)"

definition dpty_session_close :: "u64 \<Rightarrow> nat \<Rightarrow> unit api_operation" where
  "dpty_session_close handle grace a = recorded (with_session handle (Close grace) a)"

definition dpty_session_force_close :: "u64 \<Rightarrow> unit api_operation" where
  "dpty_session_force_close handle a = recorded (with_session handle ForceClose a)"

definition dpty_session_destroy :: "u64 \<Rightarrow> unit api_operation" where
  "dpty_session_destroy handle a = recorded
     (case LookupSession a handle of
        Inl e \<Rightarrow> (Inl e, a, [])
      | Inr (i, s) \<Rightarrow>
          if \<not> CanDestroy s
          then (Inl (SetError DPTY_STATUS_WRONG_STATE 0
                 ''PTY session has not finished or has unacknowledged output''), a, [])
          else
            (case Remove handle (a_registry a) of (removed, reg) \<Rightarrow>
               if removed = None
               then (Inl (SetError DPTY_STATUS_INVALID_HANDLE 0 ''PTY session handle became stale''), a, [])
               else (Inr (), a\<lparr>a_registry := reg, a_sessions := (a_sessions a)(i := None)\<rparr>, [])))"

definition dpty_get_last_error :: "bool \<Rightarrow> api \<Rightarrow> DptyStatus \<times> DptyError option" where
  "dpty_get_last_error out_error a =
     (if \<not> out_error then (DPTY_STATUS_INVALID_ARGUMENT, None)
      else (DPTY_STATUS_OK, Some (a_last_error a)))"

definition dpty_debug_live_session_count :: "api \<Rightarrow> u64" where
  "dpty_debug_live_session_count a = live_count (a_registry a)"

definition dpty_abi_version :: u32 where
  "dpty_abi_version = DPTY_ABI_VERSION"

text \<open>One call of the interface.\<close>

datatype request =
    Create "DptySessionConfigV1 option" bool bool
  | OnSession u64 api_call
  | Destroy u64

primrec dpty_call :: "u64 \<Rightarrow> api_call \<Rightarrow> api \<Rightarrow> DptyStatus \<times> api \<times> effect list" where
  "dpty_call h (CallStart ok) a = apfst status_of (dpty_session_start h ok a)"
| "dpty_call h (CallWrite b) a = apfst status_of (dpty_session_write h b a)"
| "dpty_call h (CallWriteTracked p b) a = apfst status_of (dpty_session_write_tracked h b p a)"
| "dpty_call h (CallAcknowledge sq n) a = apfst status_of (dpty_session_ack_output h sq n a)"
| "dpty_call h (CallResize r c) a = apfst status_of (dpty_session_resize h r c a)"
| "dpty_call h (CallSendSignal sig) a = apfst status_of (dpty_session_send_signal h sig a)"
| "dpty_call h (CallClose g) a = apfst status_of (dpty_session_close h g a)"
| "dpty_call h CallForceClose a = apfst status_of (dpty_session_force_close h a)"

fun api_step :: "request \<Rightarrow> api \<Rightarrow> DptyStatus \<times> api \<times> effect list" where
  "api_step (Create config p ok) a = apfst status_of (dpty_session_create config p ok a)"
| "api_step (OnSession h c) a = dpty_call h c a"
| "api_step (Destroy h) a = apfst status_of (dpty_session_destroy h a)"

section \<open>What a handle resolves to\<close>

definition session_at :: "api \<Rightarrow> u64 \<Rightarrow> session option" where
  "session_at a h = Option.bind (Lookup (a_registry a) h) (a_sessions a)"

definition api_inv :: "api \<Rightarrow> bool" where
  "api_inv a \<longleftrightarrow> reg_inv (a_registry a) \<and>
     (\<forall>h i. Lookup (a_registry a) h = Some i \<longrightarrow> i < a_next_address a \<and>
        (\<exists>s. a_sessions a i = Some s \<and> session_inv s \<and> s_handle s = h))"

lemma api_inv_initial: "api_inv initial_api"
proof -
  have "Lookup empty_registry h = (None :: nat option)" for h
    by (simp add: Lookup_def empty_registry_def split: option.split)
  then show ?thesis by (simp add: api_inv_def initial_api_def reg_inv_empty)
qed

lemma LookupSession_eq:
  "LookupSession a h =
     (case Lookup (a_registry a) h of
        None \<Rightarrow> Inl (SetError DPTY_STATUS_INVALID_HANDLE 0 ''PTY session handle is stale or invalid'')
      | Some i \<Rightarrow> (case a_sessions a i of
          None \<Rightarrow> Inl (SetError DPTY_STATUS_INVALID_HANDLE 0 ''PTY session handle is stale or invalid'')
        | Some s \<Rightarrow> Inr (i, s)))"
  by (simp add: LookupSession_def split: option.split)

text \<open>
  Two handles never share a session, so a call on one changes what that handle resolves to
  and nothing else.
\<close>

lemma address_inject:
  "api_inv a \<Longrightarrow> Lookup (a_registry a) h = Some i \<Longrightarrow> Lookup (a_registry a) k = Some i \<Longrightarrow> h = k"
  by (metis api_inv_def option.inject)

lemma with_session_Some:
  assumes inv: "api_inv a" and s: "session_at a h = Some s" and f: "f s = (r, s', es)"
  obtains a' where "with_session h f a = (r, a', es)" "session_at a' = (session_at a)(h \<mapsto> s')"
    "a_registry a' = a_registry a"
    "session_inv s' \<Longrightarrow> s_handle s' = s_handle s \<Longrightarrow> api_inv a'"
proof -
  from s obtain i where i: "Lookup (a_registry a) h = Some i" "a_sessions a i = Some s"
    by (auto simp: session_at_def bind_eq_Some_conv)
  let ?a = "a\<lparr>a_sessions := (a_sessions a)(i \<mapsto> s')\<rparr>"
  have w: "with_session h f a = (r, ?a, es)"
    by (simp add: with_session_def LookupSession_eq i f)
  have at: "session_at ?a = (session_at a)(h \<mapsto> s')"
  proof
    fix k
    show "session_at ?a k = ((session_at a)(h \<mapsto> s')) k"
      using i address_inject [OF inv i(1), of k]
      by (cases "Lookup (a_registry a) k") (auto simp: session_at_def)
  qed
  have hs: "s_handle s = h" using inv i unfolding api_inv_def by (metis option.inject)
  have "api_inv ?a" if keep: "session_inv s'" "s_handle s' = s_handle s"
    unfolding api_inv_def
  proof (intro conjI allI impI)
    show "reg_inv (a_registry ?a)" using inv by (simp add: api_inv_def)
    fix k j
    assume kj: "Lookup (a_registry ?a) k = Some j"
    then have old: "j < a_next_address a" "\<exists>q. a_sessions a j = Some q \<and> session_inv q \<and> s_handle q = k"
      using inv by (simp_all add: api_inv_def)
    show "j < a_next_address ?a" using old(1) by simp
    show "\<exists>q. a_sessions ?a j = Some q \<and> session_inv q \<and> s_handle q = k"
    proof (cases "j = i")
      case True
      then have "k = h" using address_inject [OF inv _ i(1), of k] kj by simp
      with True keep hs show ?thesis by simp
    qed (use old(2) in simp)
  qed
  with w at show thesis by (intro that) simp_all
qed

lemma with_session_None:
  assumes "session_at a h = None"
  shows "with_session h f a =
    (Inl (SetError DPTY_STATUS_INVALID_HANDLE 0 ''PTY session handle is stale or invalid''), a, [])"
  using assms
  by (cases "Lookup (a_registry a) h")
    (simp_all add: with_session_def LookupSession_eq session_at_def)

section \<open>Calls on a session\<close>

lemma recorded_simps [simp]:
  "recorded (Inl e, a, es) = (Inl e, a\<lparr>a_last_error := e\<rparr>, es)"
  "recorded (Inr x, a, es) = (Inr x, a\<lparr>a_last_error := ClearError\<rparr>, es)"
  by (simp_all add: recorded_def)

lemma session_at_last_error [simp]: "session_at (a\<lparr>a_last_error := e\<rparr>) = session_at a"
  by (simp add: session_at_def [abs_def])

lemma api_inv_last_error [simp]: "api_inv (a\<lparr>a_last_error := e\<rparr>) = api_inv a"
  by (simp add: api_inv_def)

lemma call_handle: "s_handle (call_state c s) = s_handle s"
proof (cases "s_state s = kCreated")
  case False
  then show ?thesis using rely_eq(2) [OF call_rely] by blast
next
  case True
  show ?thesis
    by (cases c)
      (auto simp: call_state_simps Start_def Write_def WriteTracked_state EnqueueWrite_def True
        Acknowledge_def Resize_def SendSignal_def Close_def ForceClose_def Let_def
        split: option.split list.split)
qed

text \<open>The status a call returns is the status of the last error it leaves.\<close>

definition error_agrees :: "DptyStatus \<times> api \<times> effect list \<Rightarrow> bool" where
  "error_agrees x \<longleftrightarrow> e_status (a_last_error (fst (snd x))) = fst x"

lemma recorded_agrees: "error_agrees (apfst status_of (recorded x))"
proof -
  obtain r a es where "x = (r, a, es)" by (cases x)
  then show ?thesis by (cases r) (simp_all add: error_agrees_def ClearError_def)
qed

lemma api_step_agrees: "error_agrees (api_step q a)"
proof (cases q)
  case (OnSession h c)
  then show ?thesis
    by (cases c) (simp_all add: dpty_session_start_def dpty_session_write_def
        dpty_session_write_tracked_def dpty_session_ack_output_def dpty_session_resize_def
        dpty_session_send_signal_def dpty_session_close_def dpty_session_force_close_def
        recorded_agrees del: recorded_simps)
qed (simp_all add: dpty_session_create_def dpty_session_destroy_def recorded_agrees
    del: recorded_simps)

lemma recorded_with_session:
  assumes inv: "api_inv a" and s: "session_at a h = Some s" and f: "f s = (r, s', es)"
    and keeps: "session_inv s'" "s_handle s' = s_handle s"
  obtains a' where "apfst status_of (recorded (with_session h f a)) = (status_of r, a', es)"
    "session_at a' = (session_at a)(h \<mapsto> s')" "api_inv a'"
proof -
  obtain a1 where "with_session h f a = (r, a1, es)" "session_at a1 = (session_at a)(h \<mapsto> s')"
    "api_inv a1"
    using with_session_Some [where f = f, OF inv s f] keeps by metis
  then show thesis
    by (intro that [of "a1\<lparr>a_last_error := case r of Inl e \<Rightarrow> e | Inr _ \<Rightarrow> ClearError\<rparr>"])
      (simp_all add: recorded_def)
qed

text \<open>Each function is the session's own operation, reached through the handle.\<close>

lemma run_call_facts:
  assumes "run_call c s = (st, s', es)" "session_inv s"
  shows "session_inv s'" "s_handle s' = s_handle s"
  using assms call_keeps_inv [of s c] call_handle [of c s] by (simp_all add: call_state_def)

lemma apfst_eqD: "apfst f x = (b, c) \<Longrightarrow> \<exists>a. x = (a, c) \<and> b = f a"
  by (cases x) auto

lemma session_at_inv: "api_inv a \<Longrightarrow> session_at a h = Some s \<Longrightarrow> session_inv s \<and> s_handle s = h"
  unfolding api_inv_def session_at_def bind_eq_Some_conv by (metis option.inject)

lemma dpty_call_Some:
  assumes inv: "api_inv a" and s: "session_at a h = Some s" and rc: "run_call c s = (st, s', es)"
  obtains a' where "dpty_call h c a = (st, a', es)" "session_at a' = (session_at a)(h \<mapsto> s')"
    "api_inv a'"
proof -
  note result = that
  have si: "session_inv s" using session_at_inv [OF inv s] by blast
  note keep = run_call_facts [OF rc si]
  have op: thesis if r: "run_call c s = apfst status_of (f s)"
    and d: "dpty_call h c a = apfst status_of (recorded (with_session h f a))" for f :: "'b operation"
  proof -
    from rc r obtain x where x: "f s = (x, s', es)" "st = status_of x"
      using apfst_eqD [of status_of "f s"] by metis
    show thesis
      by (rule recorded_with_session [where f = f, OF inv s x(1) keep]) (use d x(2) result in metis)
  qed
  show thesis
  proof (cases c)
    case (CallWriteTracked p b)
    show thesis
    proof (cases p)
      case True
      then show thesis
        by (intro op [of "WriteTracked p b"]) (simp_all add: CallWriteTracked dpty_session_write_tracked_def)
    next
      case False
      then have "s' = s" "es = []" "st = DPTY_STATUS_INVALID_ARGUMENT"
        using rc by (auto simp: CallWriteTracked WriteTracked_def)
      then show thesis
        using False inv s
        by (intro result [of "a\<lparr>a_last_error := SetError DPTY_STATUS_INVALID_ARGUMENT EINVAL
              ''tracked PTY write output request ID is null''\<rparr>"])
          (simp_all add: CallWriteTracked dpty_session_write_tracked_def fun_upd_idem)
    qed
  qed (auto intro!: op simp: dpty_session_start_def dpty_session_write_def
      dpty_session_ack_output_def dpty_session_resize_def dpty_session_send_signal_def
      dpty_session_close_def dpty_session_force_close_def)
qed

lemma dpty_call_None:
  assumes "session_at a h = None" "api_inv a"
  obtains st a' where "dpty_call h c a = (st, a', [])" "st \<noteq> DPTY_STATUS_OK"
    "session_at a' = session_at a" "api_inv a'"
proof -
  note w = with_session_None [OF assms(1)]
  have "fst (dpty_call h c a) \<noteq> DPTY_STATUS_OK \<and> snd (snd (dpty_call h c a)) = [] \<and>
    session_at (fst (snd (dpty_call h c a))) = session_at a \<and> api_inv (fst (snd (dpty_call h c a)))"
    using assms(2)
    by (cases c) (simp_all add: w dpty_session_start_def dpty_session_write_def
        dpty_session_write_tracked_def dpty_session_ack_output_def dpty_session_resize_def
        dpty_session_send_signal_def dpty_session_close_def dpty_session_force_close_def)
  then show thesis by (intro that [of "fst (dpty_call h c a)" "fst (snd (dpty_call h c a))"])
      (simp_all add: prod_eq_iff)
qed

section \<open>Creating and destroying\<close>

lemma create_ok:
  assumes inv: "api_inv a" and c: "CopyConfig config = Inr copied"
    and i: "Insert (a_next_address a) (a_registry a) = (h, reg)" "h \<noteq> 0"
  defines "a' \<equiv> a\<lparr>a_registry := reg,
     a_sessions := (a_sessions a)(a_next_address a \<mapsto> SetHandle h (new_session copied)),
     a_next_address := Suc (a_next_address a)\<rparr>"
  shows "session_at a' = (session_at a)(h \<mapsto> SetHandle h (new_session copied))" "api_inv a'"
    "session_at a h = None"
proof -
  from inv have r: "reg_inv (a_registry a)" by (simp add: api_inv_def)
  have look: "Lookup reg = (Lookup (a_registry a))(h \<mapsto> a_next_address a)"
    using reg.ins_lookup [OF r i] .
  have fresh: "Lookup (a_registry a) h = None" using reg.ins_fresh [OF r i] .
  have below: "j < a_next_address a" if "Lookup (a_registry a) k = Some j" for k j
    using inv that by (simp add: api_inv_def)
  show "session_at a h = None" by (simp add: session_at_def fresh)
  show "session_at a' = (session_at a)(h \<mapsto> SetHandle h (new_session copied))"
  proof
    fix k
    show "session_at a' k = ((session_at a)(h \<mapsto> SetHandle h (new_session copied))) k"
      using below [of k] by (cases "Lookup (a_registry a) k") (auto simp: session_at_def a'_def look)
  qed
  show "api_inv a'"
    unfolding api_inv_def
  proof (intro conjI allI impI)
    show "reg_inv (a_registry a')"
      using reg.ins_good [OF r, of "a_next_address a"] i by (simp add: a'_def)
    fix k j
    assume kj: "Lookup (a_registry a') k = Some j"
    have new: "session_inv (SetHandle h (new_session copied))"
      by (intro session_inv_SetHandle session_inv_new CopyConfig_wf [OF c])
    show "j < a_next_address a'"
      using kj below [of k j] by (cases "k = h") (auto simp: a'_def look)
    show "\<exists>q. a_sessions a' j = Some q \<and> session_inv q \<and> s_handle q = k"
    proof (cases "k = h")
      case True
      then show ?thesis using kj new by (simp add: a'_def look SetHandle_def)
    next
      case False
      with kj have "Lookup (a_registry a) k = Some j" by (simp add: a'_def look)
      then show ?thesis using inv below [of k j] by (auto simp: a'_def api_inv_def)
    qed
  qed
qed

lemma destroy_ok:
  assumes inv: "api_inv a" and s: "session_at a h = Some s" and i: "Lookup (a_registry a) h = Some i"
  defines "a' \<equiv> a\<lparr>a_registry := snd (Remove h (a_registry a)), a_sessions := (a_sessions a)(i := None)\<rparr>"
  shows "session_at a' = (session_at a)(h := None)" "api_inv a'"
    "fst (Remove h (a_registry a)) = Some i"
proof -
  from inv have r: "reg_inv (a_registry a)" by (simp add: api_inv_def)
  have look: "Lookup (a_registry a') = (Lookup (a_registry a))(h := None)"
    using reg.rem_lookup [OF r] by (simp add: a'_def)
  show "fst (Remove h (a_registry a)) = Some i" using reg.rem_value [OF r] i by simp
  have other: "j \<noteq> i" if "Lookup (a_registry a) k = Some j" "k \<noteq> h" for k j
    using that i address_inject [OF inv] by metis
  show "session_at a' = (session_at a)(h := None)"
  proof
    fix k
    show "session_at a' k = ((session_at a)(h := None)) k"
      using other [of k] look
      by (cases "Lookup (a_registry a) k") (auto simp: session_at_def a'_def)
  qed
  show "api_inv a'"
    unfolding api_inv_def
  proof (intro conjI allI impI)
    show "reg_inv (a_registry a')" using reg.rem_good [OF r] by (simp add: a'_def)
    fix k j
    assume "Lookup (a_registry a') k = Some j"
    then have kj: "Lookup (a_registry a) k = Some j" "k \<noteq> h" by (auto simp: look split: if_splits)
    show "j < a_next_address a'" using inv kj by (simp add: a'_def api_inv_def)
    show "\<exists>q. a_sessions a' j = Some q \<and> session_inv q \<and> s_handle q = k"
      using inv kj other [OF kj] by (simp add: a'_def api_inv_def)
  qed
qed

section \<open>The specification: a table of sessions\<close>

text \<open>
  To its callers the interface is a map from handles to sessions. \<open>table_step\<close> says what
  each request may answer and what it does to that map.
\<close>

type_synonym table = "u64 \<Rightarrow> session option"

fun table_step :: "request \<Rightarrow> table \<Rightarrow> DptyStatus \<Rightarrow> table \<Rightarrow> effect list \<Rightarrow> bool" where
  "table_step (Create config p ok) t st t' es \<longleftrightarrow> es = [] \<and>
     (if st = DPTY_STATUS_OK
      then p \<and> (\<exists>h c. h \<noteq> 0 \<and> t h = None \<and> CopyConfig config = Inr c \<and>
             t' = t(h \<mapsto> SetHandle h (new_session c)))
      else t' = t)"
| "table_step (OnSession h c) t st t' es \<longleftrightarrow>
     (case t h of
        None \<Rightarrow> st \<noteq> DPTY_STATUS_OK \<and> t' = t \<and> es = []
      | Some s \<Rightarrow> \<exists>s'. run_call c s = (st, s', es) \<and> t' = t(h \<mapsto> s'))"
| "table_step (Destroy h) t st t' es \<longleftrightarrow> es = [] \<and>
     (case t h of
        None \<Rightarrow> st = DPTY_STATUS_INVALID_HANDLE \<and> t' = t
      | Some s \<Rightarrow> (if CanDestroy s then st = DPTY_STATUS_OK \<and> t' = t(h := None)
                  else st = DPTY_STATUS_WRONG_STATE \<and> t' = t))"

lemma CopyConfig_error: "CopyConfig source = Inl e \<Longrightarrow> e_status e = DPTY_STATUS_INVALID_ARGUMENT"
proof -
  have str: "CopyString s f b = Inl e \<Longrightarrow> e_status e = DPTY_STATUS_INVALID_ARGUMENT" for s f b e
    by (auto simp: CopyString_def Let_def split: option.splits if_splits)
  have args: "copy_arguments as = Inl e \<Longrightarrow> e_status e = DPTY_STATUS_INVALID_ARGUMENT" for as e
    by (induction as arbitrary: e) (auto split: sum.splits dest: str)
  have env: "copy_environment as = Inl e \<Longrightarrow> e_status e = DPTY_STATUS_INVALID_ARGUMENT" for as e
    by (induction as arbitrary: e) (auto split: sum.splits if_splits)
  have path: "copy_absolute s f m = Inl e \<Longrightarrow> e_status e = DPTY_STATUS_INVALID_ARGUMENT" for s f m e
    by (auto simp: copy_absolute_def split: sum.splits if_splits)
  show "CopyConfig source = Inl e \<Longrightarrow> e_status e = DPTY_STATUS_INVALID_ARGUMENT"
    by (auto simp: CopyConfig_def split: option.splits if_splits sum.splits dest: args env path)
qed

lemma create_step:
  assumes inv: "api_inv a" and step: "api_step (Create config p ok) a = (st, a', es)"
  shows "api_inv a' \<and> table_step (Create config p ok) (session_at a) st (session_at a') es"
proof (cases "p \<and> ok \<and> (\<exists>c. CopyConfig config = Inr c)")
  case False
  then show ?thesis
    using inv step CopyConfig_error [of config]
    by (cases "CopyConfig config") (auto simp: dpty_session_create_def split: if_splits)
next
  case True
  then obtain c where c: "CopyConfig config = Inr c" by blast
  obtain h reg where i: "Insert (a_next_address a) (a_registry a) = (h, reg)" by fastforce
  show ?thesis
  proof (cases "h = 0")
    case True': True
    then show ?thesis using True c i inv step by (auto simp: dpty_session_create_def)
  next
    case False
    note ok = create_ok [OF inv c i False]
    show ?thesis using True c i False step ok inv
      by (auto simp: dpty_session_create_def)
  qed
qed

lemma destroy_step:
  assumes inv: "api_inv a" and step: "api_step (Destroy h) a = (st, a', es)"
  shows "api_inv a' \<and> table_step (Destroy h) (session_at a) st (session_at a') es"
proof (cases "session_at a h")
  case None
  then have "LookupSession a h =
      Inl (SetError DPTY_STATUS_INVALID_HANDLE 0 ''PTY session handle is stale or invalid'')"
    by (cases "Lookup (a_registry a) h") (simp_all add: LookupSession_eq session_at_def)
  then show ?thesis using inv step None by (auto simp: dpty_session_destroy_def)
next
  case (Some s)
  then obtain i where i: "Lookup (a_registry a) h = Some i" "a_sessions a i = Some s"
    by (auto simp: session_at_def bind_eq_Some_conv)
  then have l: "LookupSession a h = Inr (i, s)" by (simp add: LookupSession_eq)
  note ok = destroy_ok [OF inv Some i(1)]
  show ?thesis using inv step Some ok
    by (cases "Remove h (a_registry a)") (auto simp: dpty_session_destroy_def l split: if_splits)
qed

lemma api_step_refines:
  assumes inv: "api_inv a" and step: "api_step q a = (st, a', es)"
  shows "api_inv a' \<and> table_step q (session_at a) st (session_at a') es"
proof (cases q)
  case (OnSession h c)
  show ?thesis
  proof (cases "session_at a h")
    case None
    from None inv obtain st1 a1 where "dpty_call h c a = (st1, a1, [])" "st1 \<noteq> DPTY_STATUS_OK"
      "session_at a1 = session_at a" "api_inv a1"
      by (rule dpty_call_None)
    then show ?thesis using step OnSession None by simp
  next
    case (Some s)
    obtain st1 s' es1 where rc: "run_call c s = (st1, s', es1)" by (cases "run_call c s")
    obtain a1 where "dpty_call h c a = (st1, a1, es1)" "session_at a1 = (session_at a)(h \<mapsto> s')"
      "api_inv a1"
      by (rule dpty_call_Some [OF inv Some rc])
    then show ?thesis using step OnSession Some rc by simp
  qed
next
  case (Create config p ok)
  show ?thesis using step unfolding Create by (rule create_step [OF inv])
next
  case (Destroy h)
  show ?thesis using step unfolding Destroy by (rule destroy_step [OF inv])
qed

text \<open>A history of requests.\<close>

definition api_history :: "request list \<Rightarrow> api \<Rightarrow> api" where
  "api_history qs a = fold (\<lambda>q a. fst (snd (api_step q a))) qs a"

lemma api_history_inv: "api_inv a \<Longrightarrow> api_inv (api_history qs a)"
  unfolding api_history_def
proof (induction qs arbitrary: a)
  case (Cons q qs)
  obtain st a' es where "api_step q a = (st, a', es)" by (cases "api_step q a")
  with api_step_refines [OF Cons.prems this] show ?case by (simp add: Cons.IH)
qed simp

end
