(* ===== verification/Pty_Observe.thy ===== *)
theory Pty_Observe
  imports Pty_Api Pty_Foreground
begin

text \<open>
  The observing functions of the C interface of \<^verbatim>\<open>PtySession.cc\<close>, \<open>dpty_session_get_*\<close>: the
  session is looked up by its handle and the snapshot taken. They change no session; what they
  record is the calling thread's last error. The kernel's state \<open>'w\<close> is threaded through, as
  the snapshots ask it.
\<close>

definition observe :: "u64 \<Rightarrow> (session \<Rightarrow> ('w, DptyError + 'a) state) \<Rightarrow> api \<Rightarrow> ('w, (DptyError + 'a) \<times> api \<times> effect list) state" where
  "observe handle f a = (case LookupSession a handle of
     Inl e \<Rightarrow> State_Monad.return (recorded (Inl e, a, []))
   | Inr (i, s) \<Rightarrow> State_Monad.bind (f s) (\<lambda>r. State_Monad.return (recorded (r, a, []))))"

definition dpty_session_get_stats :: "u64 \<Rightarrow> (nat \<times> u32) option \<Rightarrow> DptySessionStatsV1 api_operation" where
  "dpty_session_get_stats handle out_stats a =
     fst (run_state (observe handle (\<lambda>s. State_Monad.return (GetStats out_stats s)) a) ())"

definition dpty_session_get_process_snapshot ::
  "'w probe \<Rightarrow> u64 \<Rightarrow> (nat \<times> u32) option \<Rightarrow> api \<Rightarrow>
    ('w, (DptyError + DptyProcessSnapshotV1) \<times> api \<times> effect list) state" where
  "dpty_session_get_process_snapshot pr handle out_snapshot = observe handle (GetProcessSnapshot pr out_snapshot)"

definition dpty_session_get_working_directory_snapshot ::
  "'w probe \<Rightarrow> u64 \<Rightarrow> (nat \<times> u32) option \<Rightarrow> api \<Rightarrow>
    ('w, (DptyError + DptyWorkingDirectorySnapshotV1) \<times> api \<times> effect list) state" where
  "dpty_session_get_working_directory_snapshot pr handle out_snapshot =
     observe handle (GetWorkingDirectorySnapshot pr out_snapshot)"

text \<open>
  The foreground job is observed between two critical sections; \<open>later\<close> is what the session has
  become by the second one.
\<close>

definition dpty_session_get_foreground_job_snapshot ::
  "'w probe \<Rightarrow> (session \<Rightarrow> session) \<Rightarrow> u64 \<Rightarrow> (nat \<times> u32) option \<Rightarrow> api \<Rightarrow>
    ('w, (DptyError + DptyForegroundJobSnapshotV1) \<times> api \<times> effect list) state" where
  "dpty_session_get_foreground_job_snapshot pr later handle out_snapshot =
     observe handle (\<lambda>s. GetForegroundJobSnapshot pr out_snapshot s (later s))"

lemma observe_unknown:
  assumes "LookupSession a handle = Inl e"
  shows "run_state (observe handle f a) w = ((Inl e, a\<lparr>a_last_error := e\<rparr>, []), w)"
  using assms by (simp add: observe_def recorded_def State_Monad.return_def)

lemma observe_known:
  assumes "LookupSession a handle = Inr (i, s)"
  shows "run_state (observe handle f a) w = (case run_state (f s) w of (r, w') \<Rightarrow>
    ((r, a\<lparr>a_last_error := (case r of Inl e \<Rightarrow> e | Inr _ \<Rightarrow> ClearError)\<rparr>, []), w'))"
  using assms by (simp add: observe_def recorded_def State_Monad.return_def State_Monad.bind_def split: prod.split)

text \<open>An observation leaves the registry and every session alone.\<close>

lemma observe_frame:
  "case run_state (observe handle f a) w of ((r, a', es), w') \<Rightarrow>
     a_registry a' = a_registry a \<and> a_sessions a' = a_sessions a \<and> a_next_address a' = a_next_address a \<and> es = []"
proof (cases "LookupSession a handle")
  case (Inl e)
  then show ?thesis by (simp add: observe_unknown)
next
  case (Inr p)
  then obtain i s where "LookupSession a handle = Inr (i, s)" by (cases p) auto
  then show ?thesis by (simp add: observe_known split: prod.split)
qed

end
