(* ===== verification/Dtr_Abi.thy ===== *)
theory Dtr_Abi
  imports Pty_Abi
begin

text \<open>
  The C interface of the renderer package,
  \<^verbatim>\<open>packages/dart_terminal_renderer_macos/native/TerminalRendererPlugin.h\<close>: its status codes,
  limits and enumerations, and the packed structures that cross it as bytes. A structure is
  a record; its layout is the list of its members' widths, and its members are read in
  little-endian order, as \<open>memcpy\<close> into the structure does on the supported machines.
\<close>

section \<open>Status codes and limits\<close>

datatype DtrStatus =
  DTR_STATUS_OK | DTR_STATUS_INVALID_ARGUMENT | DTR_STATUS_UNSUPPORTED_VERSION
| DTR_STATUS_NOT_FOUND | DTR_STATUS_RESOURCE_EXHAUSTED | DTR_STATUS_INVALID_HANDLE
| DTR_STATUS_INTERNAL | DTR_STATUS_BUFFER_TOO_SMALL | DTR_STATUS_STALE_GENERATION
| DTR_STATUS_BACKPRESSURED

abbreviation "DTR_METAL_RENDERER_CONFIG_VERSION \<equiv> (1 :: u32)"
abbreviation "DTR_METAL_RENDERER_SUMMARY_VERSION \<equiv> (2 :: u32)"
abbreviation "DTR_METAL_ATLAS_RESET_VERSION \<equiv> (1 :: u32)"
abbreviation "DTR_METAL_ATLAS_UPLOAD_VERSION \<equiv> (1 :: u32)"
abbreviation "DTR_METAL_FRAME_VERSION \<equiv> (1 :: u32)"
abbreviation "DTR_METAL_SUBMISSION_VERSION \<equiv> (1 :: u32)"
abbreviation "DTR_METAL_RENDERER_STATE_VERSION \<equiv> (3 :: u32)"
abbreviation "DTR_METAL_FRAME_MAGIC \<equiv> (0x46525444 :: u32)"
abbreviation "DTR_MAX_METAL_DIMENSION \<equiv> (4096 :: u32)"
abbreviation "DTR_MAX_METAL_INSTANCES \<equiv> (131072 :: u32)"
abbreviation "DTR_MAX_METAL_ATLAS_PAGES \<equiv> (16 :: u32)"
abbreviation "DTR_MAX_METAL_ATLAS_BYTES \<equiv> (67108864 :: nat)"
abbreviation "DTR_MAX_METAL_FRAME_BYTES \<equiv> (8388608 :: nat)"
abbreviation "DTR_TEXT_INPUT_EVENT_VERSION \<equiv> (1 :: u32)"
abbreviation "DTR_TEXT_INPUT_EVENT_MAGIC \<equiv> (0x49545444 :: u32)"
abbreviation "DTR_MAX_TEXT_INPUT_BYTES \<equiv> (65536 :: nat)"
abbreviation "DTR_MAX_TEXT_INPUT_EVENTS \<equiv> (256 :: nat)"
abbreviation "DTR_MAX_TEXT_INPUT_QUEUE_BYTES \<equiv> (1048576 :: nat)"
abbreviation "INT64_MAX \<equiv> (0x7FFFFFFFFFFFFFFF :: u64)"
abbreviation "UINT32_MAX \<equiv> (- 1 :: u32)"
abbreviation "UINT64_MAX \<equiv> (- 1 :: u64)"

datatype DtrMetalFailureKind =
  DTR_METAL_FAILURE_NONE | DTR_METAL_FAILURE_DEVICE_UNAVAILABLE
| DTR_METAL_FAILURE_SHADER_LIBRARY | DTR_METAL_FAILURE_SHADER_FUNCTION
| DTR_METAL_FAILURE_PIPELINE | DTR_METAL_FAILURE_RESOURCE_ALLOCATION
| DTR_METAL_FAILURE_COMMAND_ENCODING | DTR_METAL_FAILURE_COMMAND_EXECUTION
| DTR_METAL_FAILURE_DEVICE_LOST

text \<open>The instance kinds; a kind in a packet is a number, of which these are the known ones.\<close>

datatype DtrMetalInstanceKind =
  DTR_METAL_INSTANCE_CELL_BACKGROUND | DTR_METAL_INSTANCE_SELECTION
| DTR_METAL_INSTANCE_ALPHA_GLYPH | DTR_METAL_INSTANCE_COLOR_GLYPH
| DTR_METAL_INSTANCE_DECORATION | DTR_METAL_INSTANCE_CURSOR
| DTR_METAL_INSTANCE_IMAGE_BELOW_BACKGROUND | DTR_METAL_INSTANCE_IMAGE_BELOW_TEXT
| DTR_METAL_INSTANCE_IMAGE_ABOVE_TEXT | DTR_METAL_INSTANCE_PANE_SCRIM

definition instance_kind :: "u32 \<Rightarrow> DtrMetalInstanceKind option" where
  "instance_kind n =
     (if n = 1 then Some DTR_METAL_INSTANCE_CELL_BACKGROUND
      else if n = 2 then Some DTR_METAL_INSTANCE_SELECTION
      else if n = 3 then Some DTR_METAL_INSTANCE_ALPHA_GLYPH
      else if n = 4 then Some DTR_METAL_INSTANCE_COLOR_GLYPH
      else if n = 5 then Some DTR_METAL_INSTANCE_DECORATION
      else if n = 6 then Some DTR_METAL_INSTANCE_CURSOR
      else if n = 7 then Some DTR_METAL_INSTANCE_IMAGE_BELOW_BACKGROUND
      else if n = 8 then Some DTR_METAL_INSTANCE_IMAGE_BELOW_TEXT
      else if n = 9 then Some DTR_METAL_INSTANCE_IMAGE_ABOVE_TEXT
      else if n = 10 then Some DTR_METAL_INSTANCE_PANE_SCRIM else None)"

datatype DtrAtlasFormat = DTR_METAL_ATLAS_ALPHA8 | DTR_METAL_ATLAS_RGBA8_STRAIGHT

definition atlas_format :: "u32 \<Rightarrow> DtrAtlasFormat option" where
  "atlas_format n =
     (if n = 1 then Some DTR_METAL_ATLAS_ALPHA8
      else if n = 2 then Some DTR_METAL_ATLAS_RGBA8_STRAIGHT else None)"

section \<open>Packed members\<close>

fun le_bytes :: "nat \<Rightarrow> nat \<Rightarrow> byte list" where
  "le_bytes 0 n = []"
| "le_bytes (Suc k) n = of_nat n # le_bytes k (n div 256)"

fun le_nat :: "byte list \<Rightarrow> nat" where
  "le_nat [] = 0"
| "le_nat (b # bs) = unat b + 256 * le_nat bs"

lemma length_le_bytes [simp]: "length (le_bytes k n) = k"
  by (induction k arbitrary: n) auto

lemma le_nat_le_bytes: "n < 256 ^ k \<Longrightarrow> le_nat (le_bytes k n) = n"
proof (induction k arbitrary: n)
  case (Suc k)
  then have "n div 256 < 256 ^ k" by (simp add: less_mult_imp_div_less mult.commute)
  then have "le_nat (le_bytes k (n div 256)) = n div 256" by (rule Suc.IH)
  then show ?case by (simp add: unat_of_nat)
qed simp

lemma le_nat_bound: "le_nat bs < 256 ^ length bs"
proof (induction bs)
  case (Cons b bs)
  have "unat b < 256" using unat_bound [of b] by simp
  with Cons show ?case by simp
qed simp

text \<open>
  The members of a structure without padding, read one after the other. That a layout has
  no padding is part of what is proved of it.
\<close>

fun read_members :: "nat list \<Rightarrow> byte list \<Rightarrow> nat list" where
  "read_members [] bs = []"
| "read_members (w # ws) bs = le_nat (take w bs) # read_members ws (drop w bs)"

fun write_members :: "nat list \<Rightarrow> nat list \<Rightarrow> byte list" where
  "write_members (w # ws) (n # ns) = le_bytes w n @ write_members ws ns"
| "write_members _ _ = []"

lemma length_write_members [simp]:
  "length ns = length ws \<Longrightarrow> length (write_members ws ns) = sum_list ws"
  by (induction ws ns rule: write_members.induct) auto

lemma read_write_members:
  "list_all2 (\<lambda>w n. n < 256 ^ w) ws ns \<Longrightarrow> read_members ws (write_members ws ns @ rest) = ns"
  by (induction ws ns rule: list_all2_induct) (auto simp: le_nat_le_bytes)

lemma read_members_take:
  "sum_list ws \<le> length bs \<Longrightarrow> read_members ws (take (sum_list ws) bs) = read_members ws bs"
proof (induction ws arbitrary: bs)
  case (Cons w ws)
  have "read_members ws (take (sum_list ws) (drop w bs)) = read_members ws (drop w bs)"
    by (rule Cons.IH) (use Cons.prems in simp)
  then show ?case by (simp add: drop_take min_def)
qed simp

definition unpadded :: "nat list \<Rightarrow> bool" where
  "unpadded ws \<longleftrightarrow> struct_sizeof ws = sum_list ws"

section \<open>Structures of the renderer\<close>

record DtrMetalRendererConfigV1 =
  mc_maximum_viewport_width :: u32
  mc_maximum_viewport_height :: u32
  mc_maximum_instances :: u32
  mc_atlas_width :: u32
  mc_atlas_height :: u32
  mc_maximum_alpha_pages :: u32
  mc_maximum_color_pages :: u32
  mc_reserved :: "u32 list"

record DtrMetalAtlasUploadV1 =
  up_renderer_generation :: u64
  up_atlas_generation :: u64
  up_page_generation :: u64
  up_format :: u32
  up_page_index :: u32
  up_x :: u32
  up_y :: u32
  up_width :: u32
  up_height :: u32
  up_row_stride :: u32
  up_byte_length :: u32
  up_reserved :: "u32 list"

record DtrMetalAtlasResetV1 =
  rs_renderer_generation :: u64
  rs_atlas_generation :: u64
  rs_reserved :: "u32 list"

record DtrMetalFrameHeaderV1 =
  fh_magic :: u32
  fh_version :: u32
  fh_header_size :: u32
  fh_total_size :: u32
  fh_renderer_generation :: u64
  fh_frame_generation :: u64
  fh_atlas_generation :: u64
  fh_viewport_width :: u32
  fh_viewport_height :: u32
  fh_scale_16_16 :: u32
  fh_background_rgba :: u32
  fh_instance_count :: u32
  fh_instance_stride :: u32
  fh_instances_offset :: u32
  fh_reserved :: "u32 list"

record DtrMetalInstanceV1 =
  in_x :: u32
  in_y :: u32
  in_width :: u32
  in_height :: u32
  in_atlas_x :: u32
  in_atlas_y :: u32
  in_atlas_width :: u32
  in_atlas_height :: u32
  in_color_rgba :: u32
  in_kind :: u32
  in_page_index :: u32
  in_page_generation :: u32

record DtrMetalSubmissionV1 =
  sub_renderer_generation :: u64
  sub_submission_token :: u64
  sub_frame_generation :: u64

definition frame_layout :: "nat list" where
  "frame_layout = [4, 4, 4, 4, 8, 8, 8, 4, 4, 4, 4, 4, 4, 4, 4, 4, 4]"

definition instance_layout :: "nat list" where
  "instance_layout = [4, 4, 4, 4, 4, 4, 4, 4, 4, 4, 4, 4]"

definition config_v1_layout :: "nat list" where
  "config_v1_layout = [4, 4, 4, 4, 4, 4, 4, 4, 4, 4, 4, 4]"

definition summary_layout :: "nat list" where
  "summary_layout = [4, 4, 8, 8, 4, 4, 4, 4, 4, 4, 4, 4, 4, 4]"

definition upload_layout :: "nat list" where
  "upload_layout = [4, 4, 8, 8, 8, 4, 4, 4, 4, 4, 4, 4, 4, 4, 4, 4, 4]"

definition reset_layout :: "nat list" where
  "reset_layout = [4, 4, 8, 8, 4, 4]"

definition submission_layout :: "nat list" where
  "submission_layout = [4, 4, 8, 8, 8, 4, 4]"

definition state_layout :: "nat list" where
  "state_layout =
     [4, 4, 8, 8, 8, 8, 8, 8, 8, 8, 8, 4, 4, 4, 4, 8, 8, 8, 8, 8, 8, 8, 8, 8, 4, 4]"

lemma layouts_unpadded:
  "unpadded frame_layout" "unpadded instance_layout" "unpadded config_v1_layout"
  "unpadded summary_layout" "unpadded upload_layout" "unpadded reset_layout"
  "unpadded submission_layout" "unpadded state_layout"
  by (simp_all add: unpadded_def struct_sizeof_def align_up_def frame_layout_def instance_layout_def
      config_v1_layout_def summary_layout_def upload_layout_def reset_layout_def
      submission_layout_def state_layout_def)

lemma renderer_sizes [simp]:
  "struct_sizeof frame_layout = 80" "struct_sizeof instance_layout = 48"
  "struct_sizeof config_v1_layout = 48" "struct_sizeof upload_layout = 80"
  "struct_sizeof reset_layout = 32" "struct_sizeof submission_layout = 40"
  "struct_sizeof state_layout = 176"
  by (simp_all add: struct_sizeof_def align_up_def frame_layout_def instance_layout_def
      config_v1_layout_def upload_layout_def reset_layout_def submission_layout_def state_layout_def)

definition read_header :: "byte list \<Rightarrow> DtrMetalFrameHeaderV1" where
  "read_header bs = (let m = read_members frame_layout bs in
     \<lparr>fh_magic = of_nat (m ! 0), fh_version = of_nat (m ! 1), fh_header_size = of_nat (m ! 2),
      fh_total_size = of_nat (m ! 3), fh_renderer_generation = of_nat (m ! 4),
      fh_frame_generation = of_nat (m ! 5), fh_atlas_generation = of_nat (m ! 6),
      fh_viewport_width = of_nat (m ! 7), fh_viewport_height = of_nat (m ! 8),
      fh_scale_16_16 = of_nat (m ! 9), fh_background_rgba = of_nat (m ! 10),
      fh_instance_count = of_nat (m ! 11), fh_instance_stride = of_nat (m ! 12),
      fh_instances_offset = of_nat (m ! 13),
      fh_reserved = [of_nat (m ! 14), of_nat (m ! 15), of_nat (m ! 16)]\<rparr>)"

definition read_instance :: "byte list \<Rightarrow> DtrMetalInstanceV1" where
  "read_instance bs = (let m = read_members instance_layout bs in
     \<lparr>in_x = of_nat (m ! 0), in_y = of_nat (m ! 1), in_width = of_nat (m ! 2),
      in_height = of_nat (m ! 3), in_atlas_x = of_nat (m ! 4), in_atlas_y = of_nat (m ! 5),
      in_atlas_width = of_nat (m ! 6), in_atlas_height = of_nat (m ! 7),
      in_color_rgba = of_nat (m ! 8), in_kind = of_nat (m ! 9),
      in_page_index = of_nat (m ! 10), in_page_generation = of_nat (m ! 11)\<rparr>)"

text \<open>The instance at an index of a frame's bytes.\<close>

definition instance_at :: "byte list \<Rightarrow> nat \<Rightarrow> DtrMetalInstanceV1" where
  "instance_at bs i =
     read_instance (drop (struct_sizeof frame_layout + i * struct_sizeof instance_layout) bs)"

end
