(* ===== verification/Dtr_Renderer.thy ===== *)
theory Dtr_Renderer
  imports Dtr_Abi
begin

text \<open>
  The class \<open>DtrMetalRenderer\<close> of
  \<^verbatim>\<open>packages/dart_terminal_renderer_macos/native/TerminalRendererPlugin.m\<close>: its members as one
  record and its methods, each the critical section it runs under the renderer's lock. Three
  slots carry frames from the thread that submits them to the view's draw callback and on to
  the GPU: FREE, READY (copied, not drawn yet), IN_FLIGHT (its commands are being encoded or
  executed). A member \<open>_x\<close> of the class is the field \<open>r_x\<close>.

  The view is a \<open>__weak\<close> member: it reads as null once the view began its deallocation,
  which the argument \<open>alive\<close> tells of a view. What Metal does is left out but for its
  outcomes, which are arguments: whether a drawable, a command buffer and an encoder were
  given, how a command ended and how long the GPU took. The injected test failures only
  choose such an outcome.
\<close>

section \<open>State\<close>

datatype slot_state = DTR_METAL_SLOT_FREE | DTR_METAL_SLOT_READY | DTR_METAL_SLOT_IN_FLIGHT

record DtrMetalFrameSlot =
  sl_buffer :: "byte list"
  sl_state :: slot_state
  sl_token :: u64
  sl_header :: DtrMetalFrameHeaderV1

text \<open>A texture array: the bytes of a pixel by slice, column and row.\<close>

type_synonym texture = "nat \<Rightarrow> nat \<Rightarrow> nat \<Rightarrow> byte list"

record DtrMetalRenderer =
  r_generation :: u64
  r_config :: DtrMetalRendererConfigV1
  r_alphaAtlas :: texture
  r_colorAtlas :: texture
  r_alphaPageGenerations :: "u64 list"
  r_colorPageGenerations :: "u64 list"
  r_atlasGeneration :: u64
  r_slots :: "DtrMetalFrameSlot list"
  r_view :: "nat option"
  r_nextSubmissionToken :: u64
  r_lastAcceptedFrameGeneration :: u64
  r_lastSubmissionToken :: u64
  r_lastPresentedFrameGeneration :: u64
  r_acceptedSubmissionCount :: u64
  r_completedSubmissionCount :: u64
  r_staleReadyDropCount :: u64
  r_backpressureCount :: u64
  r_failureGeneration :: u64
  r_lastFailedFrameGeneration :: u64
  r_drawableUnavailableCount :: u64
  r_commandFailureCount :: u64
  r_gpuTimingSampleCount :: u64
  r_gpuTotalTimeNs :: u64
  r_gpuMaxTimeNs :: u64
  r_acceptedAtlasUploadCount :: u64
  r_acceptedAtlasUploadBytes :: u64
  r_failureKind :: DtrMetalFailureKind
  r_admitting :: bool
  r_shuttingDown :: bool
  r_everBound :: bool

section \<open>Metrics\<close>

definition SaturatingIncrementMetric :: "u64 \<Rightarrow> u64" where
  "SaturatingIncrementMetric v = (if v < INT64_MAX then v + 1 else v)"

definition SaturatingAddMetric :: "u64 \<Rightarrow> u64 \<Rightarrow> u64" where
  "SaturatingAddMetric v d = (if INT64_MAX \<le> v \<or> INT64_MAX - v \<le> d then INT64_MAX else v + d)"

section \<open>Creation\<close>

definition MetalConfigValuesAreValid :: "DtrMetalRendererConfigV1 \<Rightarrow> bool" where
  "MetalConfigValuesAreValid c \<longleftrightarrow>
     0 < mc_maximum_viewport_width c \<and> mc_maximum_viewport_width c \<le> DTR_MAX_METAL_DIMENSION \<and>
     0 < mc_maximum_viewport_height c \<and> mc_maximum_viewport_height c \<le> DTR_MAX_METAL_DIMENSION \<and>
     0 < mc_maximum_instances c \<and> mc_maximum_instances c \<le> DTR_MAX_METAL_INSTANCES \<and>
     0 < mc_atlas_width c \<and> mc_atlas_width c \<le> DTR_MAX_METAL_DIMENSION \<and>
     0 < mc_atlas_height c \<and> mc_atlas_height c \<le> DTR_MAX_METAL_DIMENSION \<and>
     0 < mc_maximum_alpha_pages c \<and> mc_maximum_alpha_pages c \<le> DTR_MAX_METAL_ATLAS_PAGES \<and>
     0 < mc_maximum_color_pages c \<and> mc_maximum_color_pages c \<le> DTR_MAX_METAL_ATLAS_PAGES \<and>
     (let pixels = ucast (mc_atlas_width c) * ucast (mc_atlas_height c) :: u64
      in pixels * ucast (mc_maximum_alpha_pages c) + pixels * 4 * ucast (mc_maximum_color_pages c)
           \<le> of_nat DTR_MAX_METAL_ATLAS_BYTES) \<and>
     mc_reserved c = [0, 0, 0]"

definition no_header :: DtrMetalFrameHeaderV1 where
  "no_header = \<lparr>fh_magic = 0, fh_version = 0, fh_header_size = 0, fh_total_size = 0,
     fh_renderer_generation = 0, fh_frame_generation = 0, fh_atlas_generation = 0,
     fh_viewport_width = 0, fh_viewport_height = 0, fh_scale_16_16 = 0, fh_background_rgba = 0,
     fh_instance_count = 0, fh_instance_stride = 0, fh_instances_offset = 0, fh_reserved = [0, 0, 0]\<rparr>"

definition new_slot :: "DtrMetalRendererConfigV1 \<Rightarrow> DtrMetalFrameSlot" where
  "new_slot c = \<lparr>sl_buffer = replicate (unat (mc_maximum_instances c) * struct_sizeof instance_layout) 0,
     sl_state = DTR_METAL_SLOT_FREE, sl_token = 0, sl_header = no_header\<rparr>"

text \<open>\<open>initWithConfig\<close>, when every Metal object it asks for is given.\<close>

definition initWithConfig :: "DtrMetalRendererConfigV1 \<Rightarrow> u64 \<Rightarrow> DtrMetalRenderer" where
  "initWithConfig c generation = \<lparr>r_generation = generation, r_config = c,
     r_alphaAtlas = (\<lambda>_ _ _. [0]), r_colorAtlas = (\<lambda>_ _ _. [0, 0, 0, 0]),
     r_alphaPageGenerations = replicate (unat (mc_maximum_alpha_pages c)) 0,
     r_colorPageGenerations = replicate (unat (mc_maximum_color_pages c)) 0,
     r_atlasGeneration = 0, r_slots = replicate 3 (new_slot c), r_view = None,
     r_nextSubmissionToken = 1, r_lastAcceptedFrameGeneration = 0, r_lastSubmissionToken = 0,
     r_lastPresentedFrameGeneration = 0, r_acceptedSubmissionCount = 0,
     r_completedSubmissionCount = 0, r_staleReadyDropCount = 0, r_backpressureCount = 0,
     r_failureGeneration = 0, r_lastFailedFrameGeneration = 0, r_drawableUnavailableCount = 0,
     r_commandFailureCount = 0, r_gpuTimingSampleCount = 0, r_gpuTotalTimeNs = 0, r_gpuMaxTimeNs = 0,
     r_acceptedAtlasUploadCount = 0, r_acceptedAtlasUploadBytes = 0,
     r_failureKind = DTR_METAL_FAILURE_NONE, r_admitting = True, r_shuttingDown = False,
     r_everBound = False\<rparr>"

section \<open>The view, faults and shutdown\<close>

text \<open>What the weak member \<open>_view\<close> reads as.\<close>

definition weak_view :: "(nat \<Rightarrow> bool) \<Rightarrow> DtrMetalRenderer \<Rightarrow> nat option" where
  "weak_view alive r = (case r_view r of None \<Rightarrow> None | Some v \<Rightarrow> if alive v then Some v else None)"

definition slot_active :: "DtrMetalFrameSlot \<Rightarrow> bool" where
  "slot_active s \<longleftrightarrow> sl_state s \<noteq> DTR_METAL_SLOT_FREE"

definition hasActiveSlotsLocked :: "DtrMetalRenderer \<Rightarrow> bool" where
  "hasActiveSlotsLocked r \<longleftrightarrow> (\<exists>s \<in> set (r_slots r). slot_active s)"

text \<open>The status of \<open>requestDraw\<close>, and whether it schedules a display of the view.\<close>

definition requestDraw :: "(nat \<Rightarrow> bool) \<Rightarrow> DtrMetalRenderer \<Rightarrow> DtrStatus \<times> bool" where
  "requestDraw alive r = (let view = weak_view alive r in
     (if \<not> r_admitting r \<or> view = None then DTR_STATUS_NOT_FOUND else DTR_STATUS_OK,
      r_admitting r \<and> view \<noteq> None \<and> (\<exists>s \<in> set (r_slots r). sl_state s = DTR_METAL_SLOT_READY)))"

definition free_ready :: "DtrMetalFrameSlot \<Rightarrow> DtrMetalFrameSlot" where
  "free_ready s = (if sl_state s = DTR_METAL_SLOT_READY then s\<lparr>sl_state := DTR_METAL_SLOT_FREE\<rparr> else s)"

definition recordFaultLocked :: "DtrMetalFailureKind \<Rightarrow> u64 \<Rightarrow> DtrMetalRenderer \<Rightarrow> DtrMetalRenderer" where
  "recordFaultLocked failure frame r =
     (if r_failureKind r \<noteq> DTR_METAL_FAILURE_NONE then r
      else r\<lparr>r_failureKind := failure, r_failureGeneration := 1, r_lastFailedFrameGeneration := frame,
             r_commandFailureCount := SaturatingIncrementMetric (r_commandFailureCount r),
             r_admitting := False, r_slots := map free_ready (r_slots r)\<rparr>)"

text \<open>
  \<open>bindView\<close> for a view object; \<open>bound\<close> is the renderer generation the view carries, \<open>layer\<close>
  tells whether its layer and the color space were given. The view's members change with it
  when the status is OK.
\<close>

definition bindView ::
  "(nat \<Rightarrow> bool) \<Rightarrow> nat \<Rightarrow> u64 \<Rightarrow> bool \<Rightarrow> DtrMetalRenderer \<Rightarrow> DtrStatus \<times> DtrMetalRenderer" where
  "bindView alive v bound layer r =
     (if \<not> r_admitting r \<or> r_everBound r \<or> weak_view alive r \<noteq> None \<or> bound \<noteq> 0
      then (DTR_STATUS_INVALID_ARGUMENT, r)
      else if \<not> layer
      then (DTR_STATUS_RESOURCE_EXHAUSTED, r\<lparr>r_view := None, r_everBound := False\<rparr>)
      else (DTR_STATUS_OK, r\<lparr>r_view := Some v, r_everBound := True\<rparr>))"

text \<open>
  \<open>detachOnMainThread\<close>: the member is read twice, on the one thread that binds views, so
  both reads agree and the member is cleared.
\<close>

definition detachOnMainThread :: "DtrMetalRenderer \<Rightarrow> DtrMetalRenderer" where
  "detachOnMainThread r = r\<lparr>r_view := None\<rparr>"

definition shutdown :: "DtrMetalRenderer \<Rightarrow> DtrMetalRenderer" where
  "shutdown r =
     (if r_shuttingDown r then r
      else r\<lparr>r_shuttingDown := True, r_admitting := False, r_slots := map free_ready (r_slots r)\<rparr>)"

definition viewWillDeallocate :: "(nat \<Rightarrow> bool) \<Rightarrow> nat \<Rightarrow> DtrMetalRenderer \<Rightarrow> DtrMetalRenderer" where
  "viewWillDeallocate alive v r =
     (if weak_view alive r = Some v
      then r\<lparr>r_view := None, r_admitting := False, r_slots := map free_ready (r_slots r)\<rparr>
      else r)"

section \<open>The glyph atlas\<close>

definition clearTextureSlice :: "texture \<Rightarrow> nat \<Rightarrow> nat \<Rightarrow> texture" where
  "clearTextureSlice t page bytes_per_pixel = t(page := (\<lambda>_ _. replicate bytes_per_pixel 0))"

text \<open>\<open>replaceRegion\<close>: rows of \<open>width\<close> tightly packed pixels replace a rectangle of a slice.\<close>

definition replaceRegion ::
  "texture \<Rightarrow> nat \<Rightarrow> nat \<Rightarrow> nat \<Rightarrow> nat \<Rightarrow> nat \<Rightarrow> nat \<Rightarrow> byte list \<Rightarrow> texture" where
  "replaceRegion t page x0 y0 width height bytes_per_pixel pixels =
     t(page := (\<lambda>x y. if x0 \<le> x \<and> x < x0 + width \<and> y0 \<le> y \<and> y < y0 + height
       then take bytes_per_pixel (drop (((y - y0) * width + (x - x0)) * bytes_per_pixel) pixels)
       else t page x y))"

definition is_alpha :: "u32 \<Rightarrow> bool" where
  "is_alpha format \<longleftrightarrow> atlas_format format = Some DTR_METAL_ATLAS_ALPHA8"

definition page_limit :: "bool \<Rightarrow> DtrMetalRenderer \<Rightarrow> u32" where
  "page_limit alpha r =
     (if alpha then mc_maximum_alpha_pages (r_config r) else mc_maximum_color_pages (r_config r))"

definition page_generations :: "bool \<Rightarrow> DtrMetalRenderer \<Rightarrow> u64 list" where
  "page_generations alpha r = (if alpha then r_alphaPageGenerations r else r_colorPageGenerations r)"

definition atlas :: "bool \<Rightarrow> DtrMetalRenderer \<Rightarrow> texture" where
  "atlas alpha r = (if alpha then r_alphaAtlas r else r_colorAtlas r)"

definition set_page ::
  "bool \<Rightarrow> texture \<Rightarrow> u64 list \<Rightarrow> DtrMetalRenderer \<Rightarrow> DtrMetalRenderer" where
  "set_page alpha t gens r =
     (if alpha then r\<lparr>r_alphaAtlas := t, r_alphaPageGenerations := gens\<rparr>
      else r\<lparr>r_colorAtlas := t, r_colorPageGenerations := gens\<rparr>)"

definition upload_malformed :: "DtrMetalAtlasUploadV1 \<Rightarrow> byte list option \<Rightarrow> DtrMetalRenderer \<Rightarrow> bool" where
  "upload_malformed u pixels r =
     (let alpha = is_alpha (up_format u); bytes_per_pixel = (if alpha then 1 else 4 :: u32);
          width = mc_atlas_width (r_config r); height = mc_atlas_height (r_config r)
      in up_atlas_generation u = 0 \<or> up_page_generation u = 0 \<or>
        0xFFFFFFFF < up_page_generation u \<or> page_limit alpha r \<le> up_page_index u \<or>
        up_width u = 0 \<or> up_height u = 0 \<or> width < up_x u \<or> height < up_y u \<or>
        width - up_x u < up_width u \<or> height - up_y u < up_height u \<or>
        UINT32_MAX div bytes_per_pixel < up_width u \<or>
        up_row_stride u \<noteq> up_width u * bytes_per_pixel \<or>
        UINT32_MAX div up_row_stride u < up_height u \<or>
        up_byte_length u \<noteq> up_row_stride u * up_height u \<or> pixels = None)"

text \<open>What an accepted upload does; the caller's pixels are \<open>byte_length\<close> bytes.\<close>

definition store_upload :: "DtrMetalAtlasUploadV1 \<Rightarrow> byte list \<Rightarrow> DtrMetalRenderer \<Rightarrow> DtrMetalRenderer" where
  "store_upload u pixels r =
     (let alpha = is_alpha (up_format u); bytes_per_pixel = (if alpha then 1 else 4);
          page = unat (up_page_index u); gens = page_generations alpha r;
          fresh = gens ! page < up_page_generation u;
          cleared = (if fresh then clearTextureSlice (atlas alpha r) page bytes_per_pixel else atlas alpha r);
          drawn = replaceRegion cleared page (unat (up_x u)) (unat (up_y u)) (unat (up_width u))
            (unat (up_height u)) bytes_per_pixel pixels;
          r1 = (if r_atlasGeneration r < up_atlas_generation u
            then r\<lparr>r_atlasGeneration := up_atlas_generation u\<rparr> else r)
      in (set_page alpha drawn (if fresh then gens[page := up_page_generation u] else gens) r1)
        \<lparr>r_acceptedAtlasUploadCount := SaturatingIncrementMetric (r_acceptedAtlasUploadCount r),
         r_acceptedAtlasUploadBytes :=
           SaturatingAddMetric (r_acceptedAtlasUploadBytes r) (ucast (up_byte_length u))\<rparr>)"

definition upload ::
  "DtrMetalAtlasUploadV1 \<Rightarrow> byte list option \<Rightarrow> DtrMetalRenderer \<Rightarrow> DtrStatus \<times> DtrMetalRenderer" where
  "upload u pixels r =
     (if \<not> r_admitting r then (DTR_STATUS_NOT_FOUND, r)
      else if upload_malformed u pixels r then (DTR_STATUS_INVALID_ARGUMENT, r)
      else if up_renderer_generation u \<noteq> r_generation r then (DTR_STATUS_STALE_GENERATION, r)
      else if up_atlas_generation u < r_atlasGeneration r \<or>
          (up_atlas_generation u = r_atlasGeneration r \<and>
           up_page_generation u < page_generations (is_alpha (up_format u)) r ! unat (up_page_index u))
        then (DTR_STATUS_STALE_GENERATION, r)
      else if hasActiveSlotsLocked r then (DTR_STATUS_BACKPRESSURED, r)
      else (DTR_STATUS_OK, store_upload u (the pixels) r))"

definition clear_atlas :: "DtrMetalRenderer \<Rightarrow> DtrMetalRenderer" where
  "clear_atlas r =
     (let alpha = unat (mc_maximum_alpha_pages (r_config r)); color = unat (mc_maximum_color_pages (r_config r))
      in r\<lparr>r_alphaAtlas := fold (\<lambda>i t. clearTextureSlice t i 1) [0..<alpha] (r_alphaAtlas r),
           r_alphaPageGenerations := map (\<lambda>_. 0) (r_alphaPageGenerations r),
           r_colorAtlas := fold (\<lambda>i t. clearTextureSlice t i 4) [0..<color] (r_colorAtlas r),
           r_colorPageGenerations := map (\<lambda>_. 0) (r_colorPageGenerations r)\<rparr>)"

definition resetAtlas :: "DtrMetalAtlasResetV1 \<Rightarrow> DtrMetalRenderer \<Rightarrow> DtrStatus \<times> DtrMetalRenderer" where
  "resetAtlas reset r =
     (if \<not> r_admitting r then (DTR_STATUS_NOT_FOUND, r)
      else if rs_atlas_generation reset = 0 then (DTR_STATUS_INVALID_ARGUMENT, r)
      else if rs_renderer_generation reset \<noteq> r_generation r \<or>
          rs_atlas_generation reset \<le> r_atlasGeneration r then (DTR_STATUS_STALE_GENERATION, r)
      else if hasActiveSlotsLocked r then (DTR_STATUS_BACKPRESSURED, r)
      else (DTR_STATUS_OK, (clear_atlas r)\<lparr>r_atlasGeneration := rs_atlas_generation reset\<rparr>))"

section \<open>Validation of frames\<close>

definition instance_layer :: "DtrMetalInstanceKind \<Rightarrow> bool \<times> nat" where
  "instance_layer k = (case k of
     DTR_METAL_INSTANCE_IMAGE_BELOW_BACKGROUND \<Rightarrow> (True, 1)
   | DTR_METAL_INSTANCE_CELL_BACKGROUND \<Rightarrow> (False, 2)
   | DTR_METAL_INSTANCE_SELECTION \<Rightarrow> (False, 3)
   | DTR_METAL_INSTANCE_IMAGE_BELOW_TEXT \<Rightarrow> (True, 4)
   | DTR_METAL_INSTANCE_ALPHA_GLYPH \<Rightarrow> (True, 5)
   | DTR_METAL_INSTANCE_COLOR_GLYPH \<Rightarrow> (True, 5)
   | DTR_METAL_INSTANCE_IMAGE_ABOVE_TEXT \<Rightarrow> (True, 6)
   | DTR_METAL_INSTANCE_DECORATION \<Rightarrow> (False, 7)
   | DTR_METAL_INSTANCE_CURSOR \<Rightarrow> (False, 8)
   | DTR_METAL_INSTANCE_PANE_SCRIM \<Rightarrow> (False, 9))"

definition misplaced :: "DtrMetalFrameHeaderV1 \<Rightarrow> DtrMetalInstanceV1 \<Rightarrow> bool" where
  "misplaced h i \<longleftrightarrow>
     in_width i = 0 \<or> in_height i = 0 \<or> fh_viewport_width h < in_width i \<or>
     fh_viewport_height h < in_height i \<or> sint (in_x i) + uint (in_width i) \<le> 0 \<or>
     sint (in_y i) + uint (in_height i) \<le> 0 \<or>
     sint (fh_viewport_width h) \<le> sint (in_x i) \<or> sint (fh_viewport_height h) \<le> sint (in_y i)"

definition no_atlas_region :: "DtrMetalInstanceV1 \<Rightarrow> bool" where
  "no_atlas_region i \<longleftrightarrow> in_atlas_x i = 0 \<and> in_atlas_y i = 0 \<and> in_atlas_width i = 0 \<and>
     in_atlas_height i = 0 \<and> in_page_index i = 0 \<and> in_page_generation i = 0"

definition outside_atlas :: "bool \<Rightarrow> DtrMetalInstanceV1 \<Rightarrow> DtrMetalRenderer \<Rightarrow> bool" where
  "outside_atlas alpha i r \<longleftrightarrow>
     in_atlas_width i = 0 \<or> in_atlas_height i = 0 \<or> in_atlas_width i \<noteq> in_width i \<or>
     in_atlas_height i \<noteq> in_height i \<or> mc_atlas_width (r_config r) < in_atlas_x i \<or>
     mc_atlas_height (r_config r) < in_atlas_y i \<or>
     mc_atlas_width (r_config r) - in_atlas_x i < in_atlas_width i \<or>
     mc_atlas_height (r_config r) - in_atlas_y i < in_atlas_height i \<or>
     page_limit alpha r \<le> in_page_index i \<or> in_page_generation i = 0"

text \<open>One turn of the loop of \<open>validateFrame\<close>: the status it returns, or the layer to go on with.\<close>

definition check_instance ::
  "DtrMetalRenderer \<Rightarrow> DtrMetalFrameHeaderV1 \<Rightarrow> nat \<Rightarrow> DtrMetalInstanceV1 \<Rightarrow> DtrStatus + nat" where
  "check_instance r h previous i =
     (case instance_kind (in_kind i) of None \<Rightarrow> Inl DTR_STATUS_INVALID_ARGUMENT
      | Some kind \<Rightarrow>
        (case instance_layer kind of (atlas_backed, layer) \<Rightarrow>
          if layer < previous \<or> misplaced h i then Inl DTR_STATUS_INVALID_ARGUMENT
          else if \<not> atlas_backed then
            (if no_atlas_region i then Inr layer else Inl DTR_STATUS_INVALID_ARGUMENT)
          else if outside_atlas (kind = DTR_METAL_INSTANCE_ALPHA_GLYPH) i r
            then Inl DTR_STATUS_INVALID_ARGUMENT
          else if fh_atlas_generation h \<noteq> r_atlasGeneration r \<or>
              page_generations (kind = DTR_METAL_INSTANCE_ALPHA_GLYPH) r ! unat (in_page_index i)
                \<noteq> ucast (in_page_generation i)
            then Inl DTR_STATUS_STALE_GENERATION
          else Inr layer))"

fun validate_instances ::
  "DtrMetalRenderer \<Rightarrow> DtrMetalFrameHeaderV1 \<Rightarrow> nat \<Rightarrow> DtrMetalInstanceV1 list \<Rightarrow> DtrStatus" where
  "validate_instances r h previous [] = DTR_STATUS_OK"
| "validate_instances r h previous (i # rest) =
     (case check_instance r h previous i of
        Inl status \<Rightarrow> status
      | Inr layer \<Rightarrow> validate_instances r h layer rest)"

definition header_malformed :: "nat \<Rightarrow> DtrMetalFrameHeaderV1 \<Rightarrow> DtrMetalRenderer \<Rightarrow> bool" where
  "header_malformed frame_length h r \<longleftrightarrow>
     fh_magic h \<noteq> DTR_METAL_FRAME_MAGIC \<or> fh_version h \<noteq> DTR_METAL_FRAME_VERSION \<or>
     unat (fh_header_size h) \<noteq> struct_sizeof frame_layout \<or> unat (fh_total_size h) \<noteq> frame_length \<or>
     fh_frame_generation h = 0 \<or> fh_viewport_width h = 0 \<or> fh_viewport_height h = 0 \<or>
     mc_maximum_viewport_width (r_config r) < fh_viewport_width h \<or>
     mc_maximum_viewport_height (r_config r) < fh_viewport_height h \<or>
     fh_scale_16_16 h = 0 \<or> push_bit 16 16 < fh_scale_16_16 h \<or>
     mc_maximum_instances (r_config r) < fh_instance_count h \<or>
     unat (fh_instance_stride h) \<noteq> struct_sizeof instance_layout \<or>
     unat (fh_instances_offset h) \<noteq> struct_sizeof frame_layout \<or> fh_reserved h \<noteq> [0, 0, 0] \<or>
     (DTR_MAX_METAL_FRAME_BYTES - struct_sizeof frame_layout) div struct_sizeof instance_layout
       < unat (fh_instance_count h) \<or>
     frame_length \<noteq> struct_sizeof frame_layout + unat (fh_instance_count h) * struct_sizeof instance_layout"

definition frame_instances :: "byte list \<Rightarrow> DtrMetalFrameHeaderV1 \<Rightarrow> DtrMetalInstanceV1 list" where
  "frame_instances bs h = map (instance_at bs) [0..<unat (fh_instance_count h)]"

text \<open>The frame's pointer carries its length, as the caller promises.\<close>

definition validateFrame :: "byte list option \<Rightarrow> DtrMetalRenderer \<Rightarrow> DtrStatus \<times> DtrMetalFrameHeaderV1" where
  "validateFrame frame r = (case frame of
     None \<Rightarrow> (DTR_STATUS_INVALID_ARGUMENT, no_header)
   | Some bs \<Rightarrow>
     if length bs < struct_sizeof frame_layout then (DTR_STATUS_INVALID_ARGUMENT, no_header)
     else let h = read_header bs in
       if header_malformed (length bs) h r then (DTR_STATUS_INVALID_ARGUMENT, h)
       else if fh_renderer_generation h \<noteq> r_generation r then (DTR_STATUS_STALE_GENERATION, h)
       else (validate_instances r h 0 (frame_instances bs h), h))"

section \<open>Submitting frames\<close>

definition versioned :: "nat \<Rightarrow> u32 \<Rightarrow> (nat \<times> u32) \<Rightarrow> bool" where
  "versioned needed version buffer \<longleftrightarrow> needed \<le> fst buffer \<and> snd buffer = version"

fun first_free :: "nat \<Rightarrow> DtrMetalFrameSlot list \<Rightarrow> nat option" where
  "first_free i [] = None"
| "first_free i (s # ss) = (if sl_state s = DTR_METAL_SLOT_FREE then Some i else first_free (Suc i) ss)"

text \<open>\<open>memcpy\<close> to the start of a buffer.\<close>

definition overwrite :: "byte list \<Rightarrow> byte list \<Rightarrow> byte list" where
  "overwrite bytes old = bytes @ drop (length bytes) old"

definition fill_slot ::
  "byte list \<Rightarrow> DtrMetalFrameHeaderV1 \<Rightarrow> u64 \<Rightarrow> DtrMetalFrameSlot \<Rightarrow> DtrMetalFrameSlot" where
  "fill_slot bs h token s =
     s\<lparr>sl_buffer := overwrite (take (unat (fh_instance_count h) * struct_sizeof instance_layout)
         (drop (unat (fh_instances_offset h)) bs)) (sl_buffer s),
       sl_header := h, sl_token := token, sl_state := DTR_METAL_SLOT_READY\<rparr>"

definition accept_frame ::
  "byte list \<Rightarrow> DtrMetalFrameHeaderV1 \<Rightarrow> nat \<Rightarrow> DtrMetalRenderer \<Rightarrow> DtrMetalRenderer" where
  "accept_frame bs h i r = (let token = r_nextSubmissionToken r in
     r\<lparr>r_nextSubmissionToken := token + 1,
       r_slots := (r_slots r)[i := fill_slot bs h token (r_slots r ! i)],
       r_lastAcceptedFrameGeneration := fh_frame_generation h,
       r_lastSubmissionToken := token,
       r_acceptedSubmissionCount := SaturatingIncrementMetric (r_acceptedSubmissionCount r)\<rparr>)"

text \<open>
  The output is \<open>None\<close> while the caller's structure is untouched, and otherwise what was
  written to it.
\<close>

definition empty_submission :: DtrMetalSubmissionV1 where
  "empty_submission = \<lparr>sub_renderer_generation = 0, sub_submission_token = 0, sub_frame_generation = 0\<rparr>"

definition submitFrame ::
  "(nat \<Rightarrow> bool) \<Rightarrow> byte list option \<Rightarrow> (nat \<times> u32) option \<Rightarrow> DtrMetalRenderer \<Rightarrow>
    (DtrStatus \<times> DtrMetalSubmissionV1 option) \<times> DtrMetalRenderer" where
  "submitFrame alive frame output r = (case output of
     None \<Rightarrow> ((DTR_STATUS_INVALID_ARGUMENT, None), r)
   | Some buffer \<Rightarrow>
     if \<not> versioned (struct_sizeof submission_layout) DTR_METAL_SUBMISSION_VERSION buffer
     then ((DTR_STATUS_UNSUPPORTED_VERSION, None), r)
     else let (result, h) = validateFrame frame r in
       if result \<noteq> DTR_STATUS_OK then ((result, Some empty_submission), r)
       else if \<not> r_admitting r \<or> weak_view alive r = None
         then ((DTR_STATUS_NOT_FOUND, Some empty_submission), r)
       else if fh_frame_generation h \<le> r_lastAcceptedFrameGeneration r
         then ((DTR_STATUS_STALE_GENERATION, Some empty_submission), r)
       else (case first_free 0 (r_slots r) of
           None \<Rightarrow> ((DTR_STATUS_BACKPRESSURED, Some empty_submission),
             r\<lparr>r_backpressureCount := SaturatingIncrementMetric (r_backpressureCount r)\<rparr>)
         | Some i \<Rightarrow>
           if r_nextSubmissionToken r = 0 \<or> r_nextSubmissionToken r = UINT64_MAX
           then ((DTR_STATUS_RESOURCE_EXHAUSTED, Some empty_submission), r)
           else ((DTR_STATUS_OK, Some \<lparr>sub_renderer_generation = r_generation r,
               sub_submission_token = r_nextSubmissionToken r,
               sub_frame_generation = fh_frame_generation h\<rparr>),
             accept_frame (the frame) h i r)))"

section \<open>The state report\<close>

record DtrMetalRendererStateV1 =
  rst_renderer_generation :: u64
  rst_last_accepted_frame_generation :: u64
  rst_last_submission_token :: u64
  rst_retired_through_token :: u64
  rst_last_presented_frame_generation :: u64
  rst_accepted_submission_count :: u64
  rst_completed_submission_count :: u64
  rst_stale_ready_drop_count :: u64
  rst_backpressure_count :: u64
  rst_ready_slot_count :: nat
  rst_in_flight_slot_count :: nat
  rst_bound :: bool
  rst_admitting :: bool
  rst_faulted :: bool
  rst_failure_kind :: DtrMetalFailureKind
  rst_failure_generation :: u64
  rst_last_failed_frame_generation :: u64
  rst_drawable_unavailable_count :: u64
  rst_command_failure_count :: u64
  rst_gpu_timing_sample_count :: u64
  rst_gpu_total_time_ns :: u64
  rst_gpu_max_time_ns :: u64
  rst_accepted_atlas_upload_count :: u64
  rst_accepted_atlas_upload_bytes :: u64

definition count_state :: "slot_state \<Rightarrow> DtrMetalRenderer \<Rightarrow> nat" where
  "count_state st r = length (filter (\<lambda>s. sl_state s = st) (r_slots r))"

fun first_active_token :: "u64 \<Rightarrow> DtrMetalFrameSlot list \<Rightarrow> u64" where
  "first_active_token first [] = first"
| "first_active_token first (s # ss) =
     first_active_token (if slot_active s \<and> sl_token s < first then sl_token s else first) ss"

definition retired_through_token :: "DtrMetalRenderer \<Rightarrow> u64" where
  "retired_through_token r = (let first = first_active_token UINT64_MAX (r_slots r) in
     if first = UINT64_MAX then r_lastSubmissionToken r else first - 1)"

definition copyState ::
  "(nat \<Rightarrow> bool) \<Rightarrow> (nat \<times> u32) option \<Rightarrow> DtrMetalRenderer \<Rightarrow> DtrStatus + DtrMetalRendererStateV1" where
  "copyState alive output r = (case output of
     None \<Rightarrow> Inl DTR_STATUS_INVALID_ARGUMENT
   | Some buffer \<Rightarrow>
     if \<not> versioned (struct_sizeof state_layout) DTR_METAL_RENDERER_STATE_VERSION buffer
     then Inl DTR_STATUS_UNSUPPORTED_VERSION
     else Inr \<lparr>rst_renderer_generation = r_generation r,
       rst_last_accepted_frame_generation = r_lastAcceptedFrameGeneration r,
       rst_last_submission_token = r_lastSubmissionToken r,
       rst_retired_through_token = retired_through_token r,
       rst_last_presented_frame_generation = r_lastPresentedFrameGeneration r,
       rst_accepted_submission_count = r_acceptedSubmissionCount r,
       rst_completed_submission_count = r_completedSubmissionCount r,
       rst_stale_ready_drop_count = r_staleReadyDropCount r,
       rst_backpressure_count = r_backpressureCount r,
       rst_ready_slot_count = count_state DTR_METAL_SLOT_READY r,
       rst_in_flight_slot_count = count_state DTR_METAL_SLOT_IN_FLIGHT r,
       rst_bound = (weak_view alive r \<noteq> None), rst_admitting = r_admitting r,
       rst_faulted = (r_failureKind r \<noteq> DTR_METAL_FAILURE_NONE),
       rst_failure_kind = r_failureKind r, rst_failure_generation = r_failureGeneration r,
       rst_last_failed_frame_generation = r_lastFailedFrameGeneration r,
       rst_drawable_unavailable_count = r_drawableUnavailableCount r,
       rst_command_failure_count = r_commandFailureCount r,
       rst_gpu_timing_sample_count = r_gpuTimingSampleCount r,
       rst_gpu_total_time_ns = r_gpuTotalTimeNs r, rst_gpu_max_time_ns = r_gpuMaxTimeNs r,
       rst_accepted_atlas_upload_count = r_acceptedAtlasUploadCount r,
       rst_accepted_atlas_upload_bytes = r_acceptedAtlasUploadBytes r\<rparr>)"

section \<open>Drawing\<close>

text \<open>
  \<open>drawInMTKView\<close> holds the lock up to three times, once before it asks for a drawable, once
  to choose a frame, and once more when the encoding fails; the completion handler of the
  commands holds it again. What the callback and the handler keep between two of them is a
  \<open>flight\<close>: the chosen slot with the token and the header it had.
\<close>

record flight =
  fl_slot :: nat
  fl_token :: u64
  fl_header :: DtrMetalFrameHeaderV1

definition draw_has_ready :: "(nat \<Rightarrow> bool) \<Rightarrow> nat \<Rightarrow> DtrMetalRenderer \<Rightarrow> bool" where
  "draw_has_ready alive v r \<longleftrightarrow> r_admitting r \<and> weak_view alive r = Some v \<and>
     (\<exists>s \<in> set (r_slots r). sl_state s = DTR_METAL_SLOT_READY)"

definition draw_no_drawable :: "(nat \<Rightarrow> bool) \<Rightarrow> nat \<Rightarrow> DtrMetalRenderer \<Rightarrow> DtrMetalRenderer" where
  "draw_no_drawable alive v r =
     (if r_admitting r \<and> weak_view alive r = Some v
      then r\<lparr>r_drawableUnavailableCount := SaturatingIncrementMetric (r_drawableUnavailableCount r)\<rparr>
      else r)"

text \<open>The READY slot of the newest frame generation, the first of them if several.\<close>

fun newest_ready :: "nat \<Rightarrow> (nat \<times> u64) option \<Rightarrow> DtrMetalFrameSlot list \<Rightarrow> (nat \<times> u64) option" where
  "newest_ready i best [] = best"
| "newest_ready i best (s # ss) =
     newest_ready (Suc i)
       (if sl_state s = DTR_METAL_SLOT_READY \<and>
           (case best of None \<Rightarrow> True | Some (_, g) \<Rightarrow> g < fh_frame_generation (sl_header s))
        then Some (i, fh_frame_generation (sl_header s)) else best) ss"

definition drop_others :: "nat \<Rightarrow> DtrMetalFrameSlot list \<Rightarrow> DtrMetalFrameSlot list" where
  "drop_others k ss = map (\<lambda>(i, s). if i = k then s\<lparr>sl_state := DTR_METAL_SLOT_IN_FLIGHT\<rparr> else free_ready s)
     (enumerate 0 ss)"

definition count_dropped :: "nat \<Rightarrow> DtrMetalFrameSlot list \<Rightarrow> nat" where
  "count_dropped k ss =
     length (filter (\<lambda>(i, s). i \<noteq> k \<and> sl_state s = DTR_METAL_SLOT_READY) (enumerate 0 ss))"

definition draw_select ::
  "(nat \<Rightarrow> bool) \<Rightarrow> nat \<Rightarrow> DtrMetalRenderer \<Rightarrow> (flight \<times> DtrMetalRenderer) option" where
  "draw_select alive v r =
     (if \<not> r_admitting r \<or> weak_view alive r \<noteq> Some v then None
      else case newest_ready 0 None (r_slots r) of
        None \<Rightarrow> None
      | Some (k, _) \<Rightarrow>
          Some (\<lparr>fl_slot = k, fl_token = sl_token (r_slots r ! k), fl_header = sl_header (r_slots r ! k)\<rparr>,
            r\<lparr>r_slots := drop_others k (r_slots r),
              r_staleReadyDropCount :=
                (SaturatingIncrementMetric ^^ count_dropped k (r_slots r)) (r_staleReadyDropCount r)\<rparr>))"

text \<open>Whether the slot still carries the flight, which both ends of a flight test.\<close>

definition still_flying :: "flight \<Rightarrow> DtrMetalRenderer \<Rightarrow> bool" where
  "still_flying f r \<longleftrightarrow> sl_state (r_slots r ! fl_slot f) = DTR_METAL_SLOT_IN_FLIGHT \<and>
     sl_token (r_slots r ! fl_slot f) = fl_token f"

definition free_flight :: "flight \<Rightarrow> DtrMetalRenderer \<Rightarrow> DtrMetalRenderer" where
  "free_flight f r =
     r\<lparr>r_slots := (r_slots r)[fl_slot f := (r_slots r ! fl_slot f)\<lparr>sl_state := DTR_METAL_SLOT_FREE\<rparr>]\<rparr>"

definition draw_encode_failed :: "flight \<Rightarrow> DtrMetalRenderer \<Rightarrow> DtrMetalRenderer" where
  "draw_encode_failed f r =
     recordFaultLocked DTR_METAL_FAILURE_COMMAND_ENCODING (fh_frame_generation (fl_header f))
       (if still_flying f r then free_flight f r else r)"

text \<open>How a command ended: completed, with the GPU's time, or failed, perhaps for a lost device.\<close>

datatype command_outcome = Completed u64 | CommandFailed bool

definition command_completed :: "flight \<Rightarrow> u64 \<Rightarrow> DtrMetalRenderer \<Rightarrow> DtrMetalRenderer" where
  "command_completed f duration r =
     (let g = fh_frame_generation (fl_header f);
          timed = (if duration = 0 then r
            else r\<lparr>r_gpuTimingSampleCount := SaturatingIncrementMetric (r_gpuTimingSampleCount r),
                   r_gpuTotalTimeNs := SaturatingAddMetric (r_gpuTotalTimeNs r) duration,
                   r_gpuMaxTimeNs := (if r_gpuMaxTimeNs r < duration then duration else r_gpuMaxTimeNs r)\<rparr>)
      in timed\<lparr>r_completedSubmissionCount := SaturatingIncrementMetric (r_completedSubmissionCount r),
               r_lastPresentedFrameGeneration :=
                 (if r_lastPresentedFrameGeneration r < g then g else r_lastPresentedFrameGeneration r)\<rparr>)"

definition completion_handler :: "flight \<Rightarrow> command_outcome \<Rightarrow> DtrMetalRenderer \<Rightarrow> DtrMetalRenderer" where
  "completion_handler f outcome r =
     (if \<not> still_flying f r then r
      else case outcome of
        Completed duration \<Rightarrow> command_completed f duration (free_flight f r)
      | CommandFailed device_removed \<Rightarrow>
          recordFaultLocked (if device_removed then DTR_METAL_FAILURE_DEVICE_LOST
              else DTR_METAL_FAILURE_COMMAND_EXECUTION)
            (fh_frame_generation (fl_header f)) (free_flight f r))"

section \<open>The renderer among its threads\<close>

text \<open>
  The renderer with its views, the draw callback (which the main thread runs one at a time)
  and the commands that the GPU has and has not finished. \<open>m_bound\<close> is the renderer
  generation a view carries.
\<close>

datatype draw_phase = Idle | Acquiring nat | Encoding flight

record metal =
  m_renderer :: DtrMetalRenderer
  m_alive :: "nat \<Rightarrow> bool"
  m_bound :: "nat \<Rightarrow> u64"
  m_draw :: draw_phase
  m_commands :: "flight list"

definition new_metal :: "DtrMetalRendererConfigV1 \<Rightarrow> u64 \<Rightarrow> metal" where
  "new_metal c generation = \<lparr>m_renderer = initWithConfig c generation, m_alive = (\<lambda>_. True),
     m_bound = (\<lambda>_. 0), m_draw = Idle, m_commands = []\<rparr>"

abbreviation on_renderer :: "(DtrMetalRenderer \<Rightarrow> DtrMetalRenderer) \<Rightarrow> metal \<Rightarrow> metal" where
  "on_renderer f m \<equiv> m\<lparr>m_renderer := f (m_renderer m)\<rparr>"

inductive metal_step :: "metal \<Rightarrow> metal \<Rightarrow> bool" where
  submit: "metal_step m (on_renderer (snd \<circ> submitFrame (m_alive m) frame output) m)"
| upload_page: "metal_step m (on_renderer (snd \<circ> upload u pixels) m)"
| reset: "metal_step m (on_renderer (snd \<circ> resetAtlas u) m)"
| bind: "m_alive m v \<Longrightarrow> bindView (m_alive m) v (m_bound m v) layer (m_renderer m) = (st, r) \<Longrightarrow>
    metal_step m (m\<lparr>m_renderer := r,
      m_bound := (if st = DTR_STATUS_OK then (m_bound m)(v := r_generation r) else m_bound m)\<rparr>)"
| shut_down: "metal_step m (on_renderer shutdown m)"
| detach: "r_shuttingDown (m_renderer m) \<Longrightarrow>
    metal_step m (m\<lparr>m_renderer := detachOnMainThread (m_renderer m),
      m_bound := (case weak_view (m_alive m) (m_renderer m) of None \<Rightarrow> m_bound m
        | Some v \<Rightarrow> if m_bound m v = r_generation (m_renderer m) then (m_bound m)(v := 0) else m_bound m)\<rparr>)"
| view_gone: "m_alive m v \<Longrightarrow> m_draw m \<noteq> Acquiring v \<Longrightarrow>
    metal_step m (m\<lparr>m_alive := (m_alive m)(v := False),
      m_renderer := (if m_bound m v = r_generation (m_renderer m)
        then viewWillDeallocate ((m_alive m)(v := False)) v (m_renderer m) else m_renderer m)\<rparr>)"
| draw: "m_draw m = Idle \<Longrightarrow> draw_has_ready (m_alive m) v (m_renderer m) \<Longrightarrow>
    metal_step m (m\<lparr>m_draw := Acquiring v\<rparr>)"
| unavailable: "m_draw m = Acquiring v \<Longrightarrow>
    metal_step m ((on_renderer (draw_no_drawable (m_alive m) v) m)\<lparr>m_draw := Idle\<rparr>)"
| give_up: "m_draw m = Acquiring v \<Longrightarrow> draw_select (m_alive m) v (m_renderer m) = None \<Longrightarrow>
    metal_step m (m\<lparr>m_draw := Idle\<rparr>)"
| select: "m_draw m = Acquiring v \<Longrightarrow> draw_select (m_alive m) v (m_renderer m) = Some (f, r) \<Longrightarrow>
    metal_step m (m\<lparr>m_renderer := r, m_draw := Encoding f\<rparr>)"
| encode_failed: "m_draw m = Encoding f \<Longrightarrow>
    metal_step m ((on_renderer (draw_encode_failed f) m)\<lparr>m_draw := Idle\<rparr>)"
| commit: "m_draw m = Encoding f \<Longrightarrow>
    metal_step m (m\<lparr>m_draw := Idle, m_commands := m_commands m @ [f]\<rparr>)"
| complete: "m_commands m = before @ f # after \<Longrightarrow>
    metal_step m ((on_renderer (completion_handler f outcome) m)\<lparr>m_commands := before @ after\<rparr>)"

inductive_cases metal_stepE: "metal_step m m'"

end
