(* ===== verification/Dtr_Renderer_Inv.thy ===== *)
theory Dtr_Renderer_Inv
  imports Dtr_Renderer
begin

text \<open>
  The invariant of the renderer among its threads. The active slots hold frames that were
  valid when they were accepted and still are, because the atlas does not change under them;
  their tokens and their frame generations are in the same order; every slot in flight is
  awaited by exactly one flight, that of the encoder or of one command; and the commands
  reach the GPU in the order of their frames.
\<close>

section \<open>The invariant\<close>

definition slot_instances :: "DtrMetalFrameSlot \<Rightarrow> DtrMetalInstanceV1 list" where
  "slot_instances s = map (\<lambda>i. read_instance (drop (i * struct_sizeof instance_layout) (sl_buffer s)))
     [0..<unat (fh_instance_count (sl_header s))]"

abbreviation frame_of :: "DtrMetalFrameSlot \<Rightarrow> u64" where
  "frame_of s \<equiv> fh_frame_generation (sl_header s)"

definition slots_ordered :: "DtrMetalFrameSlot list \<Rightarrow> bool" where
  "slots_ordered ss \<longleftrightarrow> (\<forall>i j. i < length ss \<longrightarrow> j < length ss \<longrightarrow> i \<noteq> j \<longrightarrow>
     slot_active (ss ! i) \<longrightarrow> slot_active (ss ! j) \<longrightarrow>
     sl_token (ss ! i) \<noteq> sl_token (ss ! j) \<and>
     (sl_token (ss ! i) < sl_token (ss ! j) \<longleftrightarrow> frame_of (ss ! i) < frame_of (ss ! j)))"

definition slot_valid :: "DtrMetalRenderer \<Rightarrow> DtrMetalFrameSlot \<Rightarrow> bool" where
  "slot_valid r s \<longleftrightarrow>
     0 < sl_token s \<and> sl_token s \<le> r_lastSubmissionToken r \<and>
     frame_of s \<le> r_lastAcceptedFrameGeneration r \<and>
     fh_instance_count (sl_header s) \<le> mc_maximum_instances (r_config r) \<and>
     validate_instances r (sl_header s) 0 (slot_instances s) = DTR_STATUS_OK"

definition renderer_inv :: "DtrMetalRenderer \<Rightarrow> bool" where
  "renderer_inv r \<longleftrightarrow>
     length (r_slots r) = 3 \<and>
     (\<forall>s \<in> set (r_slots r).
        length (sl_buffer s) = unat (mc_maximum_instances (r_config r)) * struct_sizeof instance_layout) \<and>
     length (r_alphaPageGenerations r) = unat (mc_maximum_alpha_pages (r_config r)) \<and>
     length (r_colorPageGenerations r) = unat (mc_maximum_color_pages (r_config r)) \<and>
     r_nextSubmissionToken r \<noteq> 0 \<and> r_nextSubmissionToken r = r_lastSubmissionToken r + 1 \<and>
     slots_ordered (r_slots r) \<and>
     (\<forall>s \<in> set (r_slots r). slot_active s \<longrightarrow> slot_valid r s) \<and>
     (\<not> r_admitting r \<longrightarrow> (\<forall>s \<in> set (r_slots r). sl_state s \<noteq> DTR_METAL_SLOT_READY)) \<and>
     (r_failureKind r \<noteq> DTR_METAL_FAILURE_NONE \<longrightarrow> \<not> r_admitting r) \<and>
     (r_shuttingDown r \<longrightarrow> \<not> r_admitting r)"

lemma renderer_invD:
  assumes "renderer_inv r"
  shows "length (r_slots r) = 3" "slots_ordered (r_slots r)"
    "s \<in> set (r_slots r) \<Longrightarrow> slot_active s \<Longrightarrow> slot_valid r s"
    "\<not> r_admitting r \<Longrightarrow> s \<in> set (r_slots r) \<Longrightarrow> sl_state s \<noteq> DTR_METAL_SLOT_READY"
    "r_nextSubmissionToken r \<noteq> 0" "r_nextSubmissionToken r = r_lastSubmissionToken r + 1"
  using assms unfolding renderer_inv_def by blast+

section \<open>Steps that only let go of frames\<close>

text \<open>A slot settles when it keeps what it holds and does not become active.\<close>

definition settles :: "DtrMetalFrameSlot \<Rightarrow> DtrMetalFrameSlot \<Rightarrow> bool" where
  "settles s s' \<longleftrightarrow> sl_token s' = sl_token s \<and> sl_header s' = sl_header s \<and>
     sl_buffer s' = sl_buffer s \<and> (slot_active s' \<longrightarrow> slot_active s) \<and>
     (sl_state s' = DTR_METAL_SLOT_READY \<longrightarrow> sl_state s = DTR_METAL_SLOT_READY)"

lemma settles_refl [simp]: "settles s s"
  by (simp add: settles_def)

lemma settles_free_ready [simp]: "settles s (free_ready s)"
  by (simp add: settles_def free_ready_def slot_active_def)

lemma settles_instances: "settles s s' \<Longrightarrow> slot_instances s' = slot_instances s"
  by (simp add: settles_def slot_instances_def)

lemma slots_ordered_settle:
  assumes "slots_ordered ss" "list_all2 settles ss ss'"
  shows "slots_ordered ss'"
proof -
  have len: "length ss' = length ss" using assms(2) by (simp add: list_all2_lengthD)
  have "settles (ss ! i) (ss' ! i)" if "i < length ss" for i
    using assms(2) that by (simp add: list_all2_nthD)
  then show ?thesis using assms(1) unfolding slots_ordered_def len settles_def by metis
qed

lemma list_all2_settles_mem:
  "list_all2 settles ss ss' \<Longrightarrow> s' \<in> set ss' \<Longrightarrow> \<exists>s \<in> set ss. settles s s'"
  by (metis in_set_conv_nth list_all2_conv_all_nth)

text \<open>What validation looks at besides the frame.\<close>

definition same_atlas :: "DtrMetalRenderer \<Rightarrow> DtrMetalRenderer \<Rightarrow> bool" where
  "same_atlas r r' \<longleftrightarrow> r_config r' = r_config r \<and> r_atlasGeneration r' = r_atlasGeneration r \<and>
     r_alphaPageGenerations r' = r_alphaPageGenerations r \<and>
     r_colorPageGenerations r' = r_colorPageGenerations r \<and>
     r_alphaAtlas r' = r_alphaAtlas r \<and> r_colorAtlas r' = r_colorAtlas r"

lemma check_same_atlas: "same_atlas r r' \<Longrightarrow> check_instance r' h l i = check_instance r h l i"
  by (simp add: same_atlas_def check_instance_def outside_atlas_def page_limit_def page_generations_def
      cong: if_cong option.case_cong)

lemma validate_same_atlas:
  "same_atlas r r' \<Longrightarrow> validate_instances r' h l is = validate_instances r h l is"
  by (induction "is" arbitrary: l) (simp_all add: check_same_atlas split: sum.split)

definition settles_all :: "DtrMetalRenderer \<Rightarrow> DtrMetalRenderer \<Rightarrow> bool" where
  "settles_all r r' \<longleftrightarrow> same_atlas r r' \<and> list_all2 settles (r_slots r) (r_slots r') \<and>
     r_generation r' = r_generation r \<and>
     r_nextSubmissionToken r' = r_nextSubmissionToken r \<and>
     r_lastSubmissionToken r' = r_lastSubmissionToken r \<and>
     r_lastAcceptedFrameGeneration r' = r_lastAcceptedFrameGeneration r"

lemma settles_all_inv:
  assumes "renderer_inv r" "settles_all r r'"
    "\<not> r_admitting r' \<Longrightarrow> \<forall>s \<in> set (r_slots r'). sl_state s \<noteq> DTR_METAL_SLOT_READY"
    "r_failureKind r' \<noteq> DTR_METAL_FAILURE_NONE \<Longrightarrow> \<not> r_admitting r'"
    "r_shuttingDown r' \<Longrightarrow> \<not> r_admitting r'"
  shows "renderer_inv r'"
proof -
  note s = assms(2) [unfolded settles_all_def]
  have len: "length (r_slots r') = length (r_slots r)"
    using s by (metis list_all2_lengthD)
  have old: "\<exists>s \<in> set (r_slots r). settles s s'" if "s' \<in> set (r_slots r')" for s'
    using s that by (blast intro: list_all2_settles_mem)
  have valid: "slot_valid r' s'" if a: "s' \<in> set (r_slots r')" "slot_active s'" for s'
  proof -
    obtain t where t: "t \<in> set (r_slots r)" "settles t s'" using old a(1) by blast
    then have "slot_active t" using a(2) by (simp add: settles_def)
    then have "slot_valid r t" using assms(1) t(1) by (blast dest: renderer_invD(3))
    moreover have "validate_instances r' h l is = validate_instances r h l is" for h l "is"
      using s by (blast intro: validate_same_atlas)
    ultimately show ?thesis using t(2) s settles_instances [OF t(2)]
      by (simp add: slot_valid_def same_atlas_def settles_def)
  qed
  have buffers: "length (sl_buffer s') = unat (mc_maximum_instances (r_config r')) * struct_sizeof instance_layout"
    if a: "s' \<in> set (r_slots r')" for s'
  proof -
    obtain t where "t \<in> set (r_slots r)" "settles t s'" using old a by blast
    then show ?thesis using assms(1) s by (auto simp: renderer_inv_def same_atlas_def settles_def)
  qed
  have "slots_ordered (r_slots r')"
    using assms(1) s by (blast intro: slots_ordered_settle renderer_invD(2))
  moreover have "length (r_slots r') = 3" using len renderer_invD(1) [OF assms(1)] by simp
  moreover have "length (r_alphaPageGenerations r') = unat (mc_maximum_alpha_pages (r_config r'))"
    "length (r_colorPageGenerations r') = unat (mc_maximum_color_pages (r_config r'))"
    using assms(1) s by (simp_all add: renderer_inv_def same_atlas_def)
  moreover have "r_nextSubmissionToken r' \<noteq> 0" "r_nextSubmissionToken r' = r_lastSubmissionToken r' + 1"
    using s renderer_invD(5,6) [OF assms(1)] by simp_all
  ultimately show ?thesis using valid buffers assms(3-5) unfolding renderer_inv_def by blast
qed

section \<open>The renderer's operations\<close>

lemma list_all2_settles_map:
  "(\<And>s. s \<in> set ss \<Longrightarrow> settles s (f s)) \<Longrightarrow> list_all2 settles ss (map f ss)"
  by (simp add: list_all2_map2 list.rel_refl_strong)

lemma list_all2_settles_update:
  "settles (ss ! i) s \<Longrightarrow> list_all2 settles ss (ss[i := s])"
  by (cases "i < length ss") (auto simp: list_all2_conv_all_nth nth_list_update list_update_beyond)

lemma list_all2_settles_refl [simp]: "list_all2 settles ss ss"
  by (simp add: list.rel_refl)

lemma free_ready_not_ready [simp]: "sl_state (free_ready s) \<noteq> DTR_METAL_SLOT_READY"
  by (simp add: free_ready_def)

lemma settles_all_refl [simp]: "settles_all r r"
  by (simp add: settles_all_def same_atlas_def)

lemma same_atlas_trans: "same_atlas r s \<Longrightarrow> same_atlas s t \<Longrightarrow> same_atlas r t"
  by (simp add: same_atlas_def)

lemma settles_trans: "settles s t \<Longrightarrow> settles t u \<Longrightarrow> settles s u"
  by (auto simp: settles_def)

lemma settles_all_trans: "settles_all r s \<Longrightarrow> settles_all s t \<Longrightarrow> settles_all r t"
  unfolding settles_all_def
  by (auto intro: same_atlas_trans list_all2_trans [of settles settles settles] settles_trans)

lemma recordFault_settles: "settles_all r (recordFaultLocked k g r)"
  by (simp add: recordFaultLocked_def settles_all_def same_atlas_def list_all2_settles_map)

lemma free_flight_settles: "settles_all r (free_flight f r)"
  by (simp add: free_flight_def settles_all_def same_atlas_def)
    (rule list_all2_settles_update, simp add: settles_def slot_active_def)

lemma command_completed_frame [frame_simps]:
  "r_slots (command_completed f d r) = r_slots r" "r_admitting (command_completed f d r) = r_admitting r"
  "r_failureKind (command_completed f d r) = r_failureKind r"
  "r_shuttingDown (command_completed f d r) = r_shuttingDown r"
  by (simp_all add: command_completed_def Let_def)

lemma command_completed_settles: "settles_all r (command_completed f d r)"
  by (simp add: command_completed_def settles_all_def same_atlas_def Let_def)

lemma shutdown_settles: "settles_all r (shutdown r)"
  by (simp add: shutdown_def settles_all_def same_atlas_def list_all2_settles_map)

lemma viewWillDeallocate_settles: "settles_all r (viewWillDeallocate alive v r)"
  by (simp add: viewWillDeallocate_def settles_all_def same_atlas_def list_all2_settles_map)

lemma bindView_settles: "bindView alive v g layer r = (st, r') \<Longrightarrow> settles_all r r'"
  by (auto simp: bindView_def settles_all_def same_atlas_def split: if_splits)

lemma draw_no_drawable_settles: "settles_all r (draw_no_drawable alive v r)"
  by (simp add: draw_no_drawable_def settles_all_def same_atlas_def)

lemma drop_others_length [simp]: "length (drop_others k ss) = length ss"
  by (simp add: drop_others_def)

lemma drop_others_nth:
  "i < length ss \<Longrightarrow> drop_others k ss ! i =
     (if i = k then (ss ! i)\<lparr>sl_state := DTR_METAL_SLOT_IN_FLIGHT\<rparr> else free_ready (ss ! i))"
  by (simp add: drop_others_def nth_enumerate_eq)

lemma newest_ready_spec:
  assumes "newest_ready i best ss = Some (k, g)"
  shows "best = Some (k, g) \<and> (\<forall>s \<in> set ss. sl_state s = DTR_METAL_SLOT_READY \<longrightarrow> frame_of s \<le> g) \<or>
    (i \<le> k \<and> k < i + length ss \<and> sl_state (ss ! (k - i)) = DTR_METAL_SLOT_READY \<and>
     frame_of (ss ! (k - i)) = g \<and>
     (\<forall>s \<in> set ss. sl_state s = DTR_METAL_SLOT_READY \<longrightarrow> frame_of s \<le> g) \<and>
     (case best of None \<Rightarrow> True | Some (_, b) \<Rightarrow> b < g))"
  using assms
proof (induction ss arbitrary: i best)
  case (Cons s ss)
  let ?best = "if sl_state s = DTR_METAL_SLOT_READY \<and>
      (case best of None \<Rightarrow> True | Some (_, b) \<Rightarrow> b < frame_of s) then Some (i, frame_of s) else best"
  from Cons.prems have "newest_ready (Suc i) ?best ss = Some (k, g)" by simp
  from Cons.IH [OF this] show ?case
  proof (elim disjE conjE)
    assume a: "?best = Some (k, g)" "\<forall>s \<in> set ss. sl_state s = DTR_METAL_SLOT_READY \<longrightarrow> frame_of s \<le> g"
    then show ?thesis by (auto split: if_splits option.splits)
  next
    assume a: "Suc i \<le> k" "k < Suc i + length ss" "sl_state (ss ! (k - Suc i)) = DTR_METAL_SLOT_READY"
      "frame_of (ss ! (k - Suc i)) = g"
      "\<forall>s \<in> set ss. sl_state s = DTR_METAL_SLOT_READY \<longrightarrow> frame_of s \<le> g"
      "case ?best of None \<Rightarrow> True | Some (_, b) \<Rightarrow> b < g"
    from a(1) obtain d where "k = Suc (i + d)" by (metis add_Suc le_Suc_ex)
    with a show ?thesis by (auto split: if_splits option.splits)
  qed
qed simp

lemma newest_ready_none:
  "newest_ready i best ss = None \<longleftrightarrow> best = None \<and> (\<forall>s \<in> set ss. sl_state s \<noteq> DTR_METAL_SLOT_READY)"
  by (induction ss arbitrary: i best) auto

lemma draw_selectD:
  assumes "draw_select alive v r = Some (f, r')"
  shows "fl_slot f < length (r_slots r)" "sl_state (r_slots r ! fl_slot f) = DTR_METAL_SLOT_READY"
    "fl_token f = sl_token (r_slots r ! fl_slot f)" "fl_header f = sl_header (r_slots r ! fl_slot f)"
    "r_slots r' = drop_others (fl_slot f) (r_slots r)" "r_admitting r" "r_admitting r'"
    "r_failureKind r' = r_failureKind r" "r_shuttingDown r' = r_shuttingDown r"
    "\<And>s. s \<in> set (r_slots r) \<Longrightarrow> sl_state s = DTR_METAL_SLOT_READY \<Longrightarrow>
      frame_of s \<le> frame_of (r_slots r ! fl_slot f)"
    "settles_all r r'"
proof -
  obtain k g where n: "newest_ready 0 None (r_slots r) = Some (k, g)" and
    f: "f = \<lparr>fl_slot = k, fl_token = sl_token (r_slots r ! k), fl_header = sl_header (r_slots r ! k)\<rparr>" and
    r': "r' = r\<lparr>r_slots := drop_others k (r_slots r), r_staleReadyDropCount :=
      (SaturatingIncrementMetric ^^ count_dropped k (r_slots r)) (r_staleReadyDropCount r)\<rparr>" and
    a: "r_admitting r"
    using assms by (auto simp: draw_select_def split: if_splits option.splits)
  from newest_ready_spec [OF n] have k: "k < length (r_slots r)"
    "sl_state (r_slots r ! k) = DTR_METAL_SLOT_READY" "frame_of (r_slots r ! k) = g"
    "\<forall>s \<in> set (r_slots r). sl_state s = DTR_METAL_SLOT_READY \<longrightarrow> frame_of s \<le> g" by auto
  from k f r' a show "fl_slot f < length (r_slots r)"
    "sl_state (r_slots r ! fl_slot f) = DTR_METAL_SLOT_READY"
    "fl_token f = sl_token (r_slots r ! fl_slot f)" "fl_header f = sl_header (r_slots r ! fl_slot f)"
    "r_slots r' = drop_others (fl_slot f) (r_slots r)" "r_admitting r" "r_admitting r'"
    "r_failureKind r' = r_failureKind r" "r_shuttingDown r' = r_shuttingDown r"
    "\<And>s. s \<in> set (r_slots r) \<Longrightarrow> sl_state s = DTR_METAL_SLOT_READY \<Longrightarrow>
      frame_of s \<le> frame_of (r_slots r ! fl_slot f)" by simp_all
  have "list_all2 settles (r_slots r) (drop_others k (r_slots r))"
    using k(2) by (simp add: list_all2_conv_all_nth drop_others_nth)
      (simp add: settles_def slot_active_def)
  then show "settles_all r r'" by (simp add: r' settles_all_def same_atlas_def)
qed

section \<open>Each operation keeps the invariant\<close>

lemma initWithConfig_inv: "renderer_inv (initWithConfig c g)"
  by (simp add: renderer_inv_def initWithConfig_def slots_ordered_def new_slot_def slot_active_def
      nth_Cons' numeral_3_eq_3)

lemma recordFault_inv: "renderer_inv r \<Longrightarrow> renderer_inv (recordFaultLocked k g r)"
  by (rule settles_all_inv [OF _ recordFault_settles])
    (auto simp: recordFaultLocked_def renderer_inv_def)

lemma free_flight_inv: "renderer_inv r \<Longrightarrow> renderer_inv (free_flight f r)"
  by (rule settles_all_inv [OF _ free_flight_settles])
    (auto simp: free_flight_def renderer_inv_def dest!: set_update_subset_insert [THEN subsetD])

lemma command_completed_inv: "renderer_inv r \<Longrightarrow> renderer_inv (command_completed f d r)"
  by (rule settles_all_inv [OF _ command_completed_settles])
    (auto simp: frame_simps renderer_inv_def)

lemma shutdown_inv: "renderer_inv r \<Longrightarrow> renderer_inv (shutdown r)"
  by (rule settles_all_inv [OF _ shutdown_settles]) (auto simp: shutdown_def renderer_inv_def)

lemma viewWillDeallocate_inv: "renderer_inv r \<Longrightarrow> renderer_inv (viewWillDeallocate alive v r)"
  by (rule settles_all_inv [OF _ viewWillDeallocate_settles])
    (auto simp: viewWillDeallocate_def renderer_inv_def)

lemma bindView_inv:
  assumes "bindView alive v g layer r = (st, r')" "renderer_inv r"
  shows "renderer_inv r'"
  by (rule settles_all_inv [OF assms(2) bindView_settles [OF assms(1)]])
    (use assms in \<open>auto simp: bindView_def renderer_inv_def split: if_splits\<close>)

lemma draw_no_drawable_inv: "renderer_inv r \<Longrightarrow> renderer_inv (draw_no_drawable alive v r)"
  by (rule settles_all_inv [OF _ draw_no_drawable_settles])
    (auto simp: draw_no_drawable_def renderer_inv_def)

lemma detach_inv: "renderer_inv r \<Longrightarrow> renderer_inv (detachOnMainThread r)"
  by (rule settles_all_inv [where r = r])
    (auto simp: detachOnMainThread_def renderer_inv_def settles_all_def same_atlas_def)

lemma draw_select_inv:
  assumes "draw_select alive v r = Some (f, r')" "renderer_inv r"
  shows "renderer_inv r'"
  by (rule settles_all_inv [OF assms(2) draw_selectD(11) [OF assms(1)]])
    (use assms in \<open>auto simp: draw_selectD renderer_inv_def\<close>)

lemmas flight_invs = recordFault_inv free_flight_inv command_completed_inv

lemma completion_handler_inv: "renderer_inv r \<Longrightarrow> renderer_inv (completion_handler f outcome r)"
  by (simp add: completion_handler_def flight_invs split: command_outcome.split)

lemma draw_encode_failed_inv: "renderer_inv r \<Longrightarrow> renderer_inv (draw_encode_failed f r)"
  by (simp add: draw_encode_failed_def flight_invs)

text \<open>The atlas changes only while no slot is active.\<close>

lemma idle_atlas_inv:
  assumes "renderer_inv r" "\<not> hasActiveSlotsLocked r" "r_slots r' = r_slots r" "r_config r' = r_config r"
    "length (r_alphaPageGenerations r') = length (r_alphaPageGenerations r)"
    "length (r_colorPageGenerations r') = length (r_colorPageGenerations r)"
    "r_nextSubmissionToken r' = r_nextSubmissionToken r"
    "r_lastSubmissionToken r' = r_lastSubmissionToken r" "r_admitting r' = r_admitting r"
    "r_failureKind r' = r_failureKind r" "r_shuttingDown r' = r_shuttingDown r"
  shows "renderer_inv r'"
proof -
  have "\<not> slot_active s" if "s \<in> set (r_slots r')" for s
    using assms(2,3) that by (auto simp: hasActiveSlotsLocked_def)
  with assms(1) show ?thesis unfolding renderer_inv_def assms(3-) by blast
qed

lemma store_upload_inv:
  "renderer_inv r \<Longrightarrow> \<not> hasActiveSlotsLocked r \<Longrightarrow> renderer_inv (store_upload u px r)"
  by (rule idle_atlas_inv [where r = r]) (simp_all add: store_upload_def Let_def set_page_def page_generations_def)

lemma clear_atlas_inv:
  "renderer_inv r \<Longrightarrow> \<not> hasActiveSlotsLocked r \<Longrightarrow> renderer_inv ((clear_atlas r)\<lparr>r_atlasGeneration := g\<rparr>)"
  by (rule idle_atlas_inv [where r = r]) (simp_all add: clear_atlas_def Let_def)

lemma upload_inv: "renderer_inv r \<Longrightarrow> renderer_inv (snd (upload u px r))"
  by (simp add: upload_def store_upload_inv)

lemma resetAtlas_inv: "renderer_inv r \<Longrightarrow> renderer_inv (snd (resetAtlas u r))"
  by (simp add: resetAtlas_def clear_atlas_inv)

section \<open>Accepting a frame\<close>

lemma first_freeD:
  "first_free i ss = Some k \<Longrightarrow> i \<le> k \<and> k < i + length ss \<and> sl_state (ss ! (k - i)) = DTR_METAL_SLOT_FREE"
proof (induction ss arbitrary: i)
  case (Cons s ss)
  show ?case
  proof (cases "sl_state s = DTR_METAL_SLOT_FREE")
    case False
    with Cons.prems have "first_free (Suc i) ss = Some k" by simp
    from Cons.IH [OF this] obtain d where "k = Suc (i + d)" by (metis add_Suc le_Suc_ex)
    with Cons.IH [OF \<open>first_free (Suc i) ss = Some k\<close>] show ?thesis by simp
  qed (use Cons.prems in simp)
qed simp

lemma less_plus1_u64: "x + 1 \<noteq> 0 \<Longrightarrow> x < (x + 1 :: u64)"
proof -
  assume "x + 1 \<noteq> 0"
  then have "x \<noteq> - 1" by auto
  then show ?thesis by (simp add: word_less_nat_alt unat_plus1)
qed

lemma read_instance_prefix:
  assumes "struct_sizeof instance_layout \<le> length xs"
  shows "read_instance (xs @ ys) = read_instance xs"
proof -
  have n: "sum_list instance_layout = 48" by (simp add: instance_layout_def)
  have "read_members instance_layout (xs @ ys) = read_members instance_layout xs"
    using read_members_take [of instance_layout xs] read_members_take [of instance_layout "xs @ ys"] assms
    by (simp add: n)
  then show ?thesis by (simp add: read_instance_def)
qed

lemma fill_slot_simps [simp]:
  "sl_token (fill_slot bs h t s) = t" "sl_header (fill_slot bs h t s) = h"
  "sl_state (fill_slot bs h t s) = DTR_METAL_SLOT_READY" "slot_active (fill_slot bs h t s)"
  by (simp_all add: fill_slot_def slot_active_def)

lemma frame_instances_stored:
  assumes "length bs = struct_sizeof frame_layout + unat (fh_instance_count h) * struct_sizeof instance_layout"
    "unat (fh_instances_offset h) = struct_sizeof frame_layout"
  shows "slot_instances (fill_slot bs h token s) = frame_instances bs h"
proof -
  let ?n = "unat (fh_instance_count h)"
  have len: "length (drop 80 bs) = ?n * 48" using assms(1) by simp
  have eq: "read_instance (drop (i * 48) (drop 80 bs @ rest)) = read_instance (drop (80 + i * 48) bs)"
    if "i < ?n" for i rest
  proof -
    have le: "Suc i * 48 \<le> length (drop 80 bs)" unfolding len using that by (intro mult_le_mono1) simp
    then have "drop (i * 48) (drop 80 bs @ rest) = drop (i * 48) (drop 80 bs) @ rest" by simp
    moreover have "struct_sizeof instance_layout \<le> length (drop (i * 48) (drop 80 bs))"
      unfolding length_drop [of "i * 48"] using le by simp
    ultimately show ?thesis by (simp add: read_instance_prefix add.commute del: length_drop)
  qed
  have "take (?n * 48) (drop 80 bs) = drop 80 bs" by (rule take_all) (simp only: len order_refl)
  then have buffer: "sl_buffer (fill_slot bs h token s) = drop 80 bs @ drop (length (drop 80 bs)) (sl_buffer s)"
    using assms(2) by (simp add: fill_slot_def overwrite_def del: length_drop)
  show ?thesis unfolding slot_instances_def frame_instances_def
    by (rule list.map_cong) (simp_all add: buffer eq instance_at_def del: drop_append length_drop)
qed

lemma validateFrameD:
  assumes "validateFrame frame r = (DTR_STATUS_OK, h)"
  obtains bs where "frame = Some bs" "h = read_header bs" "\<not> header_malformed (length bs) h r"
    "fh_renderer_generation h = r_generation r"
    "validate_instances r h 0 (frame_instances bs h) = DTR_STATUS_OK"
  using assms by (auto simp: validateFrame_def Let_def split: option.splits if_splits)

lemma header_ok:
  "\<not> header_malformed n h r \<Longrightarrow>
    n = struct_sizeof frame_layout + unat (fh_instance_count h) * struct_sizeof instance_layout \<and>
    unat (fh_instances_offset h) = struct_sizeof frame_layout \<and>
    fh_instance_count h \<le> mc_maximum_instances (r_config r)"
  by (simp add: header_malformed_def not_less)

lemma accept_frame_slots:
  "r_slots (accept_frame bs h i r) =
     (r_slots r)[i := fill_slot bs h (r_nextSubmissionToken r) (r_slots r ! i)]"
  by (simp add: accept_frame_def Let_def)

lemma accept_frame_atlas: "same_atlas r (accept_frame bs h i r)"
  by (simp add: accept_frame_def Let_def same_atlas_def)

lemma accept_ordered:
  assumes "slots_ordered ss" "i < length ss"
    "\<And>s. s \<in> set ss \<Longrightarrow> slot_active s \<Longrightarrow> sl_token s < t \<and> frame_of s < fh_frame_generation h"
  shows "slots_ordered (ss[i := fill_slot bs h t s])"
proof (unfold slots_ordered_def length_list_update, intro allI impI)
  fix j k
  let ?ss = "ss[i := fill_slot bs h t s]"
  assume a: "j < length ss" "k < length ss" "j \<noteq> k" "slot_active (?ss ! j)" "slot_active (?ss ! k)"
  have lt: "sl_token (ss ! n) < t \<and> frame_of (ss ! n) < fh_frame_generation h"
    if "n < length ss" "slot_active (ss ! n)" for n using assms(3) that by simp
  consider "j = i" | "k = i" | "j \<noteq> i" "k \<noteq> i" by blast
  then show "sl_token (?ss ! j) \<noteq> sl_token (?ss ! k) \<and>
    (sl_token (?ss ! j) < sl_token (?ss ! k) \<longleftrightarrow> frame_of (?ss ! j) < frame_of (?ss ! k))"
  proof cases
    case 1
    with a lt [of k] assms(2) show ?thesis by auto
  next
    case 2
    with a lt [of j] assms(2) show ?thesis by auto
  next
    case 3
    with a assms(1) show ?thesis by (simp add: slots_ordered_def)
  qed
qed

lemma accept_frame_inv:
  assumes inv: "renderer_inv r" and v: "validateFrame (Some bs) r = (DTR_STATUS_OK, h)"
    and new: "r_lastAcceptedFrameGeneration r < fh_frame_generation h"
    and i: "first_free 0 (r_slots r) = Some i"
    and tok: "r_nextSubmissionToken r \<noteq> UINT64_MAX" and adm: "r_admitting r"
  shows "renderer_inv (accept_frame bs h i r)"
proof -
  let ?t = "r_nextSubmissionToken r" and ?r = "accept_frame bs h i r"
  note frame = accept_frame_def Let_def
  have h: "\<not> header_malformed (length bs) h r" "validate_instances r h 0 (frame_instances bs h) = DTR_STATUS_OK"
    using validateFrameD [OF v] by auto
  note ok = header_ok [OF h(1)]
  have len: "length (r_slots r) = 3" and i3: "i < length (r_slots r)"
    using renderer_invD(1) [OF inv] first_freeD [OF i] by auto
  have next_t: "?t \<noteq> 0" "r_lastSubmissionToken r < ?t" "?t + 1 \<noteq> 0"
    using renderer_invD(5,6) [OF inv] tok less_plus1_u64 [of "r_lastSubmissionToken r"]
    by (auto simp: add_eq_0_iff2)
  have old: "sl_token s < ?t \<and> frame_of s < fh_frame_generation h"
    if "s \<in> set (r_slots r)" "slot_active s" for s
    using renderer_invD(3) [OF inv that] next_t(2) new by (auto simp: slot_valid_def)
  have valid: "slot_valid ?r s" if s: "s \<in> set (r_slots ?r)" "slot_active s" for s
  proof (cases "s = fill_slot bs h ?t (r_slots r ! i)")
    case True
    then show ?thesis using ok next_t(1) h(2) frame_instances_stored [of bs h]
      by (simp add: slot_valid_def validate_same_atlas [OF accept_frame_atlas] word_gt_0)
        (simp add: frame)
  next
    case False
    then have "s \<in> set (r_slots r)"
      using s(1) by (auto simp: accept_frame_slots dest!: set_update_subset_insert [THEN subsetD])
    with s(2) have "slot_valid r s" "frame_of s < fh_frame_generation h" "sl_token s < ?t"
      using renderer_invD(3) [OF inv] old by blast+
    then show ?thesis
      by (simp add: slot_valid_def validate_same_atlas [OF accept_frame_atlas]) (simp add: frame less_imp_le)
  qed
  have "length (sl_buffer (fill_slot bs h ?t (r_slots r ! i))) = length (sl_buffer (r_slots r ! i))"
  proof -
    have "unat (fh_instance_count h) \<le> unat (mc_maximum_instances (r_config r))"
      using ok by (simp add: word_le_nat_alt)
    moreover have "length (sl_buffer (r_slots r ! i)) = unat (mc_maximum_instances (r_config r)) * 48"
      using inv i3 by (simp add: renderer_inv_def)
    ultimately show ?thesis using ok by (simp add: fill_slot_def overwrite_def)
  qed
  then have "\<forall>s \<in> set (r_slots ?r). length (sl_buffer s) =
      unat (mc_maximum_instances (r_config r)) * struct_sizeof instance_layout"
    using inv i3 by (auto simp: accept_frame_slots renderer_inv_def dest!: set_update_subset_insert [THEN subsetD])
  moreover have "slots_ordered (r_slots ?r)"
    unfolding accept_frame_slots by (rule accept_ordered [OF renderer_invD(2) [OF inv] i3 old])
  moreover have "length (r_slots ?r) = 3" by (simp add: accept_frame_slots len)
  ultimately show ?thesis using inv valid next_t(3) adm
    unfolding renderer_inv_def by (simp add: frame)
qed

end
