(* ===== verification/Dtr_Metal.thy ===== *)
theory Dtr_Metal
  imports Dtr_Renderer_Inv "HOL-Library.Multiset"
begin

text \<open>
  The renderer among its threads: the invariant of every reachable state, and what follows
  from it. Each slot in flight is awaited by exactly one flight; frames reach the GPU in the
  order they were accepted; what was reported as retired stays retired; and while a frame is
  active neither the atlas nor the frame changes.
\<close>

section \<open>Flights\<close>

definition flights :: "metal \<Rightarrow> flight list" where
  "flights m = m_commands m @ (case m_draw m of Encoding f \<Rightarrow> [f] | _ \<Rightarrow> [])"

definition flights_ok :: "DtrMetalRenderer \<Rightarrow> flight list \<Rightarrow> bool" where
  "flights_ok r fs \<longleftrightarrow>
     sorted_wrt (\<lambda>f g. fl_token f < fl_token g) fs \<and>
     (\<forall>f \<in> set fs. fl_slot f < length (r_slots r) \<and> still_flying f r \<and>
        fl_header f = sl_header (r_slots r ! fl_slot f)) \<and>
     (\<forall>i < length (r_slots r). sl_state (r_slots r ! i) = DTR_METAL_SLOT_IN_FLIGHT \<longrightarrow>
        (\<exists>f \<in> set fs. fl_slot f = i)) \<and>
     (\<forall>i < length (r_slots r). sl_state (r_slots r ! i) = DTR_METAL_SLOT_READY \<longrightarrow>
        (\<forall>f \<in> set fs. fl_token f < sl_token (r_slots r ! i)))"

definition metal_inv :: "metal \<Rightarrow> bool" where
  "metal_inv m \<longleftrightarrow> renderer_inv (m_renderer m) \<and> flights_ok (m_renderer m) (flights m)"

lemma flights_okD:
  assumes "flights_ok r fs" "f \<in> set fs"
  shows "fl_slot f < length (r_slots r)" "sl_state (r_slots r ! fl_slot f) = DTR_METAL_SLOT_IN_FLIGHT"
    "sl_token (r_slots r ! fl_slot f) = fl_token f" "fl_header f = sl_header (r_slots r ! fl_slot f)"
    "still_flying f r" "slot_active (r_slots r ! fl_slot f)"
  using assms unfolding flights_ok_def still_flying_def slot_active_def by auto

text \<open>A step that leaves the slots in flight alone and only frees ready ones.\<close>

definition keeps_flying :: "DtrMetalRenderer \<Rightarrow> DtrMetalRenderer \<Rightarrow> bool" where
  "keeps_flying r r' \<longleftrightarrow> length (r_slots r') = length (r_slots r) \<and>
     (\<forall>i < length (r_slots r).
        sl_token (r_slots r' ! i) = sl_token (r_slots r ! i) \<and>
        sl_header (r_slots r' ! i) = sl_header (r_slots r ! i) \<and>
        (sl_state (r_slots r' ! i) = DTR_METAL_SLOT_IN_FLIGHT \<longleftrightarrow>
         sl_state (r_slots r ! i) = DTR_METAL_SLOT_IN_FLIGHT) \<and>
        (sl_state (r_slots r' ! i) = DTR_METAL_SLOT_READY \<longrightarrow>
         sl_state (r_slots r ! i) = DTR_METAL_SLOT_READY))"

lemma keeps_flying_ok: "keeps_flying r r' \<Longrightarrow> flights_ok r fs \<Longrightarrow> flights_ok r' fs"
  unfolding keeps_flying_def flights_ok_def still_flying_def by (elim conjE, intro conjI) simp_all

lemma keeps_flying_same: "r_slots r' = r_slots r \<Longrightarrow> keeps_flying r r'"
  by (simp add: keeps_flying_def)

lemma keeps_flying_free_ready: "r_slots r' = map free_ready (r_slots r) \<Longrightarrow> keeps_flying r r'"
  by (simp add: keeps_flying_def free_ready_def)

lemma recordFault_keeps: "keeps_flying r (recordFaultLocked k g r)"
  by (cases "r_failureKind r = DTR_METAL_FAILURE_NONE")
    (auto simp: recordFaultLocked_def intro: keeps_flying_same keeps_flying_free_ready)

lemma shutdown_keeps: "keeps_flying r (shutdown r)"
  by (cases "r_shuttingDown r")
    (auto simp: shutdown_def intro: keeps_flying_same keeps_flying_free_ready)

lemma viewWillDeallocate_keeps: "keeps_flying r (viewWillDeallocate alive v r)"
  by (cases "weak_view alive r = Some v")
    (auto simp: viewWillDeallocate_def intro: keeps_flying_same keeps_flying_free_ready)

lemma bindView_slots: "bindView alive v g layer r = (st, r') \<Longrightarrow> r_slots r' = r_slots r"
  by (auto simp: bindView_def split: if_splits)

lemma upload_slots: "r_slots (snd (upload u px r)) = r_slots r"
  by (simp add: upload_def store_upload_def Let_def set_page_def)

lemma resetAtlas_slots: "r_slots (snd (resetAtlas u r)) = r_slots r"
  by (simp add: resetAtlas_def clear_atlas_def Let_def)

lemma draw_no_drawable_slots: "r_slots (draw_no_drawable alive v r) = r_slots r"
  by (simp add: draw_no_drawable_def)

lemma free_flight_nth:
  "i < length (r_slots r) \<Longrightarrow> r_slots (free_flight f r) ! i =
     (if i = fl_slot f then (r_slots r ! i)\<lparr>sl_state := DTR_METAL_SLOT_FREE\<rparr> else r_slots r ! i)"
  by (auto simp: free_flight_def nth_list_update)

lemma free_flight_length [simp]: "length (r_slots (free_flight f r)) = length (r_slots r)"
  by (simp add: free_flight_def)

text \<open>Two flights never share a slot, so freeing one leaves the others.\<close>

lemma flights_distinct:
  assumes "flights_ok r (before @ f # after)" "g \<in> set before \<union> set after"
  shows "fl_slot g \<noteq> fl_slot f"
proof -
  have "sorted_wrt (\<lambda>f g. fl_token f < fl_token g) (before @ f # after)"
    using assms(1) by (simp add: flights_ok_def)
  then have "fl_token g \<noteq> fl_token f" using assms(2) by (auto simp: sorted_wrt_append)
  moreover have "sl_token (r_slots r ! fl_slot g) = fl_token g" "sl_token (r_slots r ! fl_slot f) = fl_token f"
    using flights_okD(3) [OF assms(1)] assms(2) by auto
  ultimately show ?thesis by auto
qed

lemma free_flight_ok:
  assumes "flights_ok r (before @ f # after)"
  shows "flights_ok (free_flight f r) (before @ after)"
proof -
  have "sorted_wrt (\<lambda>f g. fl_token f < fl_token g) (before @ after)"
    using assms by (auto simp: flights_ok_def sorted_wrt_append)
  moreover have "fl_slot g < length (r_slots r) \<and> still_flying g (free_flight f r) \<and>
      fl_header g = sl_header (r_slots (free_flight f r) ! fl_slot g)" if "g \<in> set (before @ after)" for g
    using flights_okD [OF assms, of g] flights_distinct [OF assms, of g] that
    by (simp add: still_flying_def free_flight_nth)
  moreover have "\<exists>g \<in> set (before @ after). fl_slot g = i"
    if "i < length (r_slots r)" "sl_state (r_slots (free_flight f r) ! i) = DTR_METAL_SLOT_IN_FLIGHT" for i
  proof -
    have "i \<noteq> fl_slot f" "sl_state (r_slots r ! i) = DTR_METAL_SLOT_IN_FLIGHT"
      using that by (auto simp: free_flight_nth split: if_splits)
    with that(1) assms show ?thesis by (auto simp: flights_ok_def)
  qed
  moreover have "fl_token g < sl_token (r_slots (free_flight f r) ! i)"
    if "i < length (r_slots r)" "sl_state (r_slots (free_flight f r) ! i) = DTR_METAL_SLOT_READY"
      "g \<in> set (before @ after)" for i g
    using that assms by (auto simp: free_flight_nth flights_ok_def split: if_splits)
  ultimately show ?thesis unfolding flights_ok_def free_flight_length by blast
qed

lemma draw_select_ok:
  assumes "flights_ok r fs" "draw_select alive v r = Some (f, r')"
  shows "flights_ok r' (fs @ [f])"
proof -
  note d = draw_selectD [OF assms(2)]
  let ?k = "fl_slot f" and ?n = "length (r_slots r)"
  have nth: "r_slots r' ! i = (if i = ?k then (r_slots r ! i)\<lparr>sl_state := DTR_METAL_SLOT_IN_FLIGHT\<rparr>
      else free_ready (r_slots r ! i))" if "i < ?n" for i
    using that by (simp add: d(5) drop_others_nth)
  have len: "length (r_slots r') = ?n" by (simp add: d(5))
  have later: "fl_token g < fl_token f" if "g \<in> set fs" for g
    using assms(1) d(1,2,3) that by (simp add: flights_ok_def)
  have "sorted_wrt (\<lambda>f g. fl_token f < fl_token g) (fs @ [f])"
    using assms(1) later by (simp add: flights_ok_def sorted_wrt_append)
  moreover have "fl_slot g < ?n \<and> still_flying g r' \<and> fl_header g = sl_header (r_slots r' ! fl_slot g)"
    if g: "g \<in> set (fs @ [f])" for g
  proof (cases "g = f")
    case True
    then show ?thesis using d(1,3,4) by (simp add: still_flying_def nth)
  next
    case False
    then have "g \<in> set fs" using g by simp
    note g = flights_okD [OF assms(1) this]
    have "fl_slot g \<noteq> ?k" using g(2) d(2) by auto
    then show ?thesis using g(1-4) by (simp add: still_flying_def nth free_ready_def)
  qed
  moreover have "\<exists>g \<in> set (fs @ [f]). fl_slot g = i"
    if "i < ?n" "sl_state (r_slots r' ! i) = DTR_METAL_SLOT_IN_FLIGHT" for i
    using that assms(1) by (auto simp: nth flights_ok_def free_ready_def split: if_splits)
  moreover have "sl_state (r_slots r' ! i) \<noteq> DTR_METAL_SLOT_READY" if "i < ?n" for i
    using that by (simp add: nth)
  ultimately show ?thesis unfolding flights_ok_def len by blast
qed

lemma accept_frame_ok:
  assumes "flights_ok r fs" "renderer_inv r" "first_free 0 (r_slots r) = Some i"
  shows "flights_ok (accept_frame bs h i r) fs"
proof -
  let ?r = "accept_frame bs h i r" and ?n = "length (r_slots r)"
  have i: "i < ?n" "sl_state (r_slots r ! i) = DTR_METAL_SLOT_FREE" using first_freeD [OF assms(3)] by auto
  have nth: "r_slots ?r ! j = (if j = i then fill_slot bs h (r_nextSubmissionToken r) (r_slots r ! i)
      else r_slots r ! j)" if "j < ?n" for j using that by (auto simp: accept_frame_slots nth_list_update)
  have len: "length (r_slots ?r) = ?n" by (simp add: accept_frame_slots)
  have older: "fl_token f < r_nextSubmissionToken r" if "f \<in> set fs" for f
  proof -
    note f = flights_okD [OF assms(1) that]
    have "slot_valid r (r_slots r ! fl_slot f)"
      using renderer_invD(3) [OF assms(2)] f(1,6) by simp
    then have "fl_token f \<le> r_lastSubmissionToken r" using f(3) by (simp add: slot_valid_def)
    then show ?thesis
      using less_plus1_u64 [of "r_lastSubmissionToken r"] renderer_invD(5,6) [OF assms(2)] by auto
  qed
  have "fl_slot f < ?n \<and> still_flying f ?r \<and> fl_header f = sl_header (r_slots ?r ! fl_slot f)"
    if "f \<in> set fs" for f
  proof -
    note f = flights_okD [OF assms(1) that]
    have "fl_slot f \<noteq> i" using f(2) i(2) by auto
    then show ?thesis using f by (simp add: still_flying_def nth)
  qed
  moreover have "\<exists>f \<in> set fs. fl_slot f = j"
    if "j < ?n" "sl_state (r_slots ?r ! j) = DTR_METAL_SLOT_IN_FLIGHT" for j
    using that assms(1) by (auto simp: nth flights_ok_def split: if_splits)
  moreover have "fl_token f < sl_token (r_slots ?r ! j)"
    if "j < ?n" "sl_state (r_slots ?r ! j) = DTR_METAL_SLOT_READY" "f \<in> set fs" for j f
    using that assms(1) older by (auto simp: nth flights_ok_def split: if_splits)
  moreover have "sorted_wrt (\<lambda>f g. fl_token f < fl_token g) fs" using assms(1) by (simp add: flights_ok_def)
  ultimately show ?thesis unfolding flights_ok_def len by blast
qed

section \<open>What one step does to the slots\<close>

lemma submitFrame_cases:
  assumes "snd (submitFrame alive frame output r) = r'"
  obtains (refused) "settles_all r r'" "r_slots r' = r_slots r" "r_admitting r' = r_admitting r"
      "r_failureKind r' = r_failureKind r" "r_shuttingDown r' = r_shuttingDown r"
  | (accepted) bs h i where "validateFrame (Some bs) r = (DTR_STATUS_OK, h)" "r_admitting r"
      "r_lastAcceptedFrameGeneration r < fh_frame_generation h" "first_free 0 (r_slots r) = Some i"
      "r_nextSubmissionToken r \<noteq> UINT64_MAX" "r' = accept_frame bs h i r"
proof -
  have "settles_all r (r\<lparr>r_backpressureCount := n\<rparr>)" for n
    by (simp add: settles_all_def same_atlas_def)
  then have bp: thesis if "r' = r\<lparr>r_backpressureCount := n\<rparr>" for n
    using that by (intro refused) simp_all
  have same: thesis if "r' = r" using that by (intro refused) simp_all
  obtain result h where vf: "validateFrame frame r = (result, h)" by fastforce
  show thesis
  proof (cases "output = None \<or> \<not> versioned (struct_sizeof submission_layout) DTR_METAL_SUBMISSION_VERSION
      (the output) \<or> result \<noteq> DTR_STATUS_OK \<or> \<not> r_admitting r \<or> weak_view alive r = None \<or>
      fh_frame_generation h \<le> r_lastAcceptedFrameGeneration r")
    case True
    then have "r' = r" using assms vf by (auto simp: submitFrame_def split: option.splits)
    then show thesis by (rule same)
  next
    case False
    then obtain bs where bs: "frame = Some bs" using vf by (auto elim: validateFrameD)
    show thesis
    proof (cases "first_free 0 (r_slots r)")
      case None
      with False vf assms show thesis
        by (intro bp [of "SaturatingIncrementMetric (r_backpressureCount r)"])
          (auto simp: submitFrame_def split: option.splits)
    next
      case (Some i)
      show thesis
      proof (cases "r_nextSubmissionToken r = 0 \<or> r_nextSubmissionToken r = UINT64_MAX")
        case True
        with Some False vf assms have "r' = r" by (auto simp: submitFrame_def)
        then show thesis by (rule same)
      next
        case fresh: False
        with Some False vf assms bs show thesis
          by (intro accepted [of bs h i]) (auto simp: submitFrame_def not_le)
      qed
    qed
  qed
qed

text \<open>
  A step either only lets frames go, or changes the atlas while no slot is active, or
  accepts one frame.
\<close>

inductive slot_step :: "DtrMetalRenderer \<Rightarrow> DtrMetalRenderer \<Rightarrow> bool" where
  settled: "settles_all r r' \<Longrightarrow> slot_step r r'"
| atlas_changed: "\<not> hasActiveSlotsLocked r \<Longrightarrow> r_slots r' = r_slots r \<Longrightarrow>
    r_lastSubmissionToken r' = r_lastSubmissionToken r \<Longrightarrow>
    r_nextSubmissionToken r' = r_nextSubmissionToken r \<Longrightarrow> slot_step r r'"
| frame_accepted: "validateFrame (Some bs) r = (DTR_STATUS_OK, h) \<Longrightarrow> first_free 0 (r_slots r) = Some i \<Longrightarrow>
    slot_step r (accept_frame bs h i r)"

inductive_cases slot_stepE: "slot_step r r'"

lemma slot_step_upload: "slot_step r (snd (upload u px r))"
  by (simp add: upload_def settled)
    (auto intro!: atlas_changed simp: store_upload_def Let_def set_page_def)

lemma slot_step_reset: "slot_step r (snd (resetAtlas u r))"
  by (simp add: resetAtlas_def settled) (auto intro!: atlas_changed simp: clear_atlas_def Let_def)

lemma slot_step_submit: "slot_step r (snd (submitFrame alive frame output r))"
proof -
  obtain r' where r': "snd (submitFrame alive frame output r) = r'" by blast
  then show ?thesis
    by (cases rule: submitFrame_cases) (auto simp: r' intro: settled frame_accepted)
qed

lemma completion_handler_settles: "settles_all r (completion_handler f outcome r)"
  by (auto simp: completion_handler_def split: command_outcome.split
      intro: settles_all_trans free_flight_settles recordFault_settles command_completed_settles)

lemma draw_encode_failed_settles: "settles_all r (draw_encode_failed f r)"
  by (auto simp: draw_encode_failed_def
      intro: settles_all_trans free_flight_settles recordFault_settles)

lemma detach_settles: "settles_all r (detachOnMainThread r)"
  by (simp add: detachOnMainThread_def settles_all_def same_atlas_def)

lemmas settling = settled [OF completion_handler_settles] settled [OF draw_encode_failed_settles]
  settled [OF detach_settles] settled [OF shutdown_settles] settled [OF viewWillDeallocate_settles]
  settled [OF draw_no_drawable_settles] settled [OF bindView_settles] settled [OF draw_selectD(11)]
  settled [OF settles_all_refl]

lemma metal_step_slots: "metal_step m m' \<Longrightarrow> slot_step (m_renderer m) (m_renderer m')"
  by (cases rule: metal_step.cases)
    (auto intro: settling slot_step_upload slot_step_reset slot_step_submit)

section \<open>The invariant of every reachable state\<close>

lemma flights_simps [simp]:
  "flights (m\<lparr>m_renderer := r\<rparr>) = flights m" "flights (m\<lparr>m_alive := a\<rparr>) = flights m"
  "flights (m\<lparr>m_bound := b\<rparr>) = flights m"
  by (simp_all add: flights_def)

lemma completion_handler_ok:
  assumes "flights_ok r (before @ f # after)"
  shows "flights_ok (completion_handler f outcome r) (before @ after)"
proof -
  have "still_flying f r" using flights_okD(5) [OF assms] by simp
  moreover note free_flight_ok [OF assms]
  ultimately show ?thesis
    by (auto simp: completion_handler_def frame_simps split: command_outcome.split
        intro: keeps_flying_ok [OF recordFault_keeps] keeps_flying_ok [OF keeps_flying_same])
qed

lemma draw_encode_failed_ok:
  assumes "flights_ok r (before @ [f])"
  shows "flights_ok (draw_encode_failed f r) before"
proof -
  have "still_flying f r" using flights_okD(5) [OF assms] by simp
  with free_flight_ok [of r before f "[]"] assms show ?thesis
    by (auto simp: draw_encode_failed_def intro: keeps_flying_ok [OF recordFault_keeps])
qed

lemma submit_step_inv:
  assumes "renderer_inv r" "flights_ok r fs"
  shows "renderer_inv (snd (submitFrame alive frame output r)) \<and>
    flights_ok (snd (submitFrame alive frame output r)) fs"
proof -
  obtain r' where r': "snd (submitFrame alive frame output r) = r'" by blast
  show ?thesis using r' unfolding r'
  proof (cases rule: submitFrame_cases [OF r', case_names refused accepted])
    case refused
    then have "renderer_inv r'" using assms(1)
      by (intro settles_all_inv [OF assms(1) refused(1)]) (auto simp: renderer_inv_def)
    with refused(2) assms(2) show "renderer_inv r' \<and> flights_ok r' fs"
      by (auto intro: keeps_flying_ok keeps_flying_same)
  next
    case (accepted bs h i)
    with assms show "renderer_inv r' \<and> flights_ok r' fs"
      by (auto intro: accept_frame_inv accept_frame_ok)
  qed
qed

lemma new_metal_inv: "metal_inv (new_metal c g)"
  by (simp add: metal_inv_def new_metal_def initWithConfig_inv flights_def flights_ok_def)
    (simp add: initWithConfig_def new_slot_def nth_Cons' numeral_3_eq_3)

lemma metal_step_inv:
  assumes "metal_step m m'" "metal_inv m"
  shows "metal_inv m'"
proof -
  have r: "renderer_inv (m_renderer m)" and f: "flights_ok (m_renderer m) (flights m)"
    using assms(2) by (simp_all add: metal_inv_def)
  show ?thesis using assms(1)
  proof (cases rule: metal_step.cases)
    case (submit frame out)
    then show ?thesis using submit_step_inv [OF r f] by (simp add: metal_inv_def)
  next
    case (upload_page u px)
    then show ?thesis using upload_inv [OF r] keeps_flying_ok [OF keeps_flying_same [OF upload_slots] f]
      by (simp add: metal_inv_def)
  next
    case (reset u)
    then show ?thesis using resetAtlas_inv [OF r] keeps_flying_ok [OF keeps_flying_same [OF resetAtlas_slots] f]
      by (simp add: metal_inv_def)
  next
    case (bind v layer st r')
    then show ?thesis using bindView_inv [OF bind(3) r] keeps_flying_ok [OF keeps_flying_same [OF bindView_slots [OF bind(3)]] f]
      by (simp add: metal_inv_def)
  next
    case shut_down
    then show ?thesis using shutdown_inv [OF r] keeps_flying_ok [OF shutdown_keeps f] by (simp add: metal_inv_def)
  next
    case detach
    then show ?thesis using detach_inv [OF r] keeps_flying_ok [OF keeps_flying_same f, of "detachOnMainThread (m_renderer m)"]
      by (simp add: metal_inv_def detachOnMainThread_def)
  next
    case (view_gone v)
    then show ?thesis using r f viewWillDeallocate_inv [OF r] keeps_flying_ok [OF viewWillDeallocate_keeps f]
      by (simp add: metal_inv_def)
  next
    case (draw v)
    then show ?thesis using r f by (simp add: metal_inv_def flights_def)
  next
    case (unavailable v)
    then show ?thesis using draw_no_drawable_inv [OF r] f keeps_flying_ok [OF keeps_flying_same [OF draw_no_drawable_slots]]
      by (simp add: metal_inv_def flights_def)
  next
    case (give_up v)
    then show ?thesis using r f by (simp add: metal_inv_def flights_def)
  next
    case (select v fl r')
    then show ?thesis using draw_select_inv [OF select(3) r] draw_select_ok [OF f select(3)]
      by (simp add: metal_inv_def flights_def)
  next
    case (encode_failed fl)
    then show ?thesis using draw_encode_failed_inv [OF r] draw_encode_failed_ok [of "m_renderer m" "m_commands m" fl] f
      by (simp add: metal_inv_def flights_def)
  next
    case (commit fl)
    then show ?thesis using r f by (simp add: metal_inv_def flights_def)
  next
    case (complete before fl after outcome)
    then show ?thesis using completion_handler_inv [OF r] f
        completion_handler_ok [of "m_renderer m" before fl "after @ (case m_draw m of Encoding f \<Rightarrow> [f] | _ \<Rightarrow> [])"]
      by (simp add: metal_inv_def flights_def)
  qed
qed

lemma metal_steps_inv: "metal_step\<^sup>*\<^sup>* m m' \<Longrightarrow> metal_inv m \<Longrightarrow> metal_inv m'"
  by (induction rule: rtranclp_induct) (auto intro: metal_step_inv)

lemma reachable_inv: "metal_step\<^sup>*\<^sup>* (new_metal c g) m \<Longrightarrow> metal_inv m"
  by (blast intro: metal_steps_inv new_metal_inv)

section \<open>Frames reach the GPU in order\<close>

lemma flights_frames:
  assumes "renderer_inv r" "flights_ok r fs"
  shows "sorted_wrt (\<lambda>f g. fh_frame_generation (fl_header f) < fh_frame_generation (fl_header g)) fs"
proof (rule sorted_wrt_mono_rel)
  show "sorted_wrt (\<lambda>f g. fl_token f < fl_token g) fs" using assms(2) by (simp add: flights_ok_def)
  fix f g
  assume m: "f \<in> set fs" "g \<in> set fs" "fl_token f < fl_token g"
  note f = flights_okD [OF assms(2) m(1)] and g = flights_okD [OF assms(2) m(2)]
  have "fl_slot f \<noteq> fl_slot g" using m(3) f(3) g(3) by auto
  with renderer_invD(2) [OF assms(1)] f g m(3)
  show "fh_frame_generation (fl_header f) < fh_frame_generation (fl_header g)"
    unfolding slots_ordered_def by metis
qed

lemma flights_owned:
  assumes "flights_ok r fs" "i < length (r_slots r)" "sl_state (r_slots r ! i) = DTR_METAL_SLOT_IN_FLIGHT"
  shows "\<exists>!f. f \<in> set fs \<and> fl_slot f = i"
proof -
  obtain f where f: "f \<in> set fs" "fl_slot f = i" using assms by (auto simp: flights_ok_def)
  have "g = f" if g: "g \<in> set fs" "fl_slot g = i" for g
  proof (rule ccontr)
    assume "g \<noteq> f"
    from f(1) obtain before after where "fs = before @ f # after" by (auto simp: in_set_conv_decomp)
    with \<open>g \<noteq> f\<close> g(1) assms(1) have "fl_slot g \<noteq> fl_slot f"
      using flights_distinct [of r before f after g] by auto
    with f g show False by simp
  qed
  with f show ?thesis by blast
qed

section \<open>Retirement\<close>

lemma first_active_token_spec:
  "first_active_token t ss \<le> t \<and> (\<forall>s \<in> set ss. slot_active s \<longrightarrow> first_active_token t ss \<le> sl_token s) \<and>
   (first_active_token t ss = t \<or> (\<exists>s \<in> set ss. slot_active s \<and> sl_token s = first_active_token t ss))"
proof (induction ss arbitrary: t)
  case (Cons s ss)
  obtain u where u: "first_active_token t (s # ss) = first_active_token u ss"
    "u \<le> t" "slot_active s \<Longrightarrow> u \<le> sl_token s" "u = t \<or> slot_active s \<and> u = sl_token s"
    by (cases "slot_active s \<and> sl_token s < t") auto
  show ?case unfolding u(1) using Cons.IH [of u] u(2-4) by (auto intro: order_trans)
qed simp

lemma pred_u64: "x \<noteq> 0 \<Longrightarrow> y < x \<longleftrightarrow> y \<le> (x - 1 :: u64)"
  by (cases "unat x") (auto simp: word_less_nat_alt word_le_nat_alt unat_minus_one unat_eq_0)

lemma retired_spec:
  assumes "renderer_inv r"
  shows "(s \<in> set (r_slots r) \<longrightarrow> slot_active s \<longrightarrow> retired_through_token r < sl_token s) \<and>
    retired_through_token r \<le> r_lastSubmissionToken r \<and>
    (retired_through_token r = r_lastSubmissionToken r \<or>
     (\<exists>s \<in> set (r_slots r). slot_active s \<and> sl_token s = retired_through_token r + 1))"
proof -
  let ?first = "first_active_token UINT64_MAX (r_slots r)"
  have valid: "0 < sl_token s \<and> sl_token s \<le> r_lastSubmissionToken r"
    if "s \<in> set (r_slots r)" "slot_active s" for s
    using renderer_invD(3) [OF assms that] by (simp add: slot_valid_def)
  have small: "r_lastSubmissionToken r \<noteq> UINT64_MAX"
    using renderer_invD(5,6) [OF assms] by auto
  note f = first_active_token_spec [of UINT64_MAX "r_slots r"]
  show ?thesis
  proof (cases "?first = UINT64_MAX")
    case True
    have "\<not> slot_active s" if "s \<in> set (r_slots r)" for s
    proof
      assume "slot_active s"
      with f that True have "UINT64_MAX \<le> sl_token s" by auto
      with valid [OF that \<open>slot_active s\<close>] small show False
        by (metis order_trans word_order.extremum_unique)
    qed
    with True show ?thesis by (auto simp: retired_through_token_def)
  next
    case False
    with f obtain t where t: "t \<in> set (r_slots r)" "slot_active t" "sl_token t = ?first" by blast
    with valid [of t] have pos: "0 < ?first" "?first \<le> r_lastSubmissionToken r" by auto
    have lt: "?first - 1 < ?first" using pos(1) by (simp add: pred_u64)
    have "retired_through_token r = ?first - 1" using False by (simp add: retired_through_token_def)
    then show ?thesis using f t lt pos(2)
      by (auto intro: less_le_trans order_trans [OF less_imp_le])
  qed
qed

lemma retired_mono:
  assumes "slot_step r r'" "renderer_inv r" "renderer_inv r'"
  shows "retired_through_token r \<le> retired_through_token r' \<and> r_lastSubmissionToken r \<le> r_lastSubmissionToken r'"
  using assms(1)
proof (cases rule: slot_step.cases)
  case settled
  then have last: "r_lastSubmissionToken r' = r_lastSubmissionToken r" and
    ss: "list_all2 settles (r_slots r) (r_slots r')" by (simp_all add: settles_all_def)
  have "retired_through_token r \<le> retired_through_token r'"
  proof (cases "retired_through_token r' = r_lastSubmissionToken r'")
    case True
    then show ?thesis using retired_spec [OF assms(2)] by (simp add: last)
  next
    case False
    then obtain s' where s': "s' \<in> set (r_slots r')" "slot_active s'" "sl_token s' = retired_through_token r' + 1"
      using retired_spec [OF assms(3)] by blast
    then obtain s where s: "s \<in> set (r_slots r)" "slot_active s" "sl_token s = retired_through_token r' + 1"
      using list_all2_settles_mem [OF ss s'(1)] by (auto simp: settles_def)
    then have "retired_through_token r < retired_through_token r' + 1" "0 < sl_token s"
      using retired_spec [OF assms(2), of s] renderer_invD(3) [OF assms(2) s(1,2)]
      by (auto simp: slot_valid_def)
    then show ?thesis using s(3) pred_u64 [of "retired_through_token r' + 1" "retired_through_token r"] by auto
  qed
  then show ?thesis by (simp add: last)
next
  case atlas_changed
  then show ?thesis by (simp add: retired_through_token_def Let_def)
next
  case (frame_accepted bs h i)
  have last: "r_lastSubmissionToken r' = r_lastSubmissionToken r + 1"
    using renderer_invD(6) [OF assms(2)] by (simp add: frame_accepted(1) accept_frame_def Let_def)
  have lt: "r_lastSubmissionToken r < r_lastSubmissionToken r'"
    using renderer_invD(5,6) [OF assms(2)] less_plus1_u64 by (simp add: last)
  have "retired_through_token r \<le> retired_through_token r'"
  proof (cases "retired_through_token r' = r_lastSubmissionToken r'")
    case True
    then show ?thesis using retired_spec [OF assms(2)] lt by (auto intro: order_trans less_imp_le)
  next
    case False
    then obtain s' where s': "s' \<in> set (r_slots r')" "slot_active s'" "sl_token s' = retired_through_token r' + 1"
      using retired_spec [OF assms(3)] by blast
    have pos: "retired_through_token r' + 1 \<noteq> 0"
      using renderer_invD(3) [OF assms(3) s'(1,2)] s'(3) by (auto simp: slot_valid_def)
    have "retired_through_token r < retired_through_token r' + 1"
    proof (cases "s' \<in> set (r_slots r)")
      case True
      then show ?thesis using retired_spec [OF assms(2), of s'] s'(2,3) by auto
    next
      case False
      then have "sl_token s' = r_nextSubmissionToken r"
        using s'(1) by (auto simp: frame_accepted(1) accept_frame_slots dest!: set_update_subset_insert [THEN subsetD])
      then show ?thesis
        using s'(3) retired_spec [OF assms(2)] renderer_invD(6) [OF assms(2)] lt last
        by (metis le_less_trans)
    qed
    then show ?thesis using pos pred_u64 [of "retired_through_token r' + 1" "retired_through_token r"] by auto
  qed
  then show ?thesis using lt by simp
qed

lemma retired_steps:
  assumes "metal_step\<^sup>*\<^sup>* m m'" "metal_inv m"
  shows "retired_through_token (m_renderer m) \<le> retired_through_token (m_renderer m')"
  using assms(1)
proof (induction rule: rtranclp_induct)
  case (step m1 m2)
  have "metal_inv m1" "metal_inv m2"
    using step(1,2) assms(2) by (blast intro: metal_steps_inv rtranclp.rtrancl_into_rtrancl)+
  then have "retired_through_token (m_renderer m1) \<le> retired_through_token (m_renderer m2)"
    using retired_mono [OF metal_step_slots [OF step(2)]] by (simp add: metal_inv_def)
  with step.IH show ?case by simp
qed simp

section \<open>An active frame and its atlas do not change\<close>

definition holds_frame :: "metal \<Rightarrow> nat \<Rightarrow> u64 \<Rightarrow> bool" where
  "holds_frame m i token \<longleftrightarrow> i < length (r_slots (m_renderer m)) \<and>
     slot_active (r_slots (m_renderer m) ! i) \<and> sl_token (r_slots (m_renderer m) ! i) = token"

lemma stable_step:
  assumes "slot_step r r'" "renderer_inv r" "i < length (r_slots r')" "slot_active (r_slots r' ! i)"
    "sl_token (r_slots r' ! i) \<le> r_lastSubmissionToken r"
  shows "i < length (r_slots r) \<and> slot_active (r_slots r ! i) \<and>
    sl_token (r_slots r' ! i) = sl_token (r_slots r ! i) \<and>
    sl_header (r_slots r' ! i) = sl_header (r_slots r ! i) \<and>
    sl_buffer (r_slots r' ! i) = sl_buffer (r_slots r ! i) \<and> same_atlas r r'"
  using assms(1)
proof (cases rule: slot_step.cases)
  case settled
  then have "list_all2 settles (r_slots r) (r_slots r')" "same_atlas r r'" by (simp_all add: settles_all_def)
  then show ?thesis using assms(3,4)
    by (metis list_all2_lengthD list_all2_nthD settles_def)
next
  case atlas_changed
  then have "r_slots r' ! i \<in> set (r_slots r)" using assms(3) by simp
  with atlas_changed(1) assms(4) show ?thesis by (auto simp: hasActiveSlotsLocked_def)
next
  case (frame_accepted bs h j)
  have "r_lastSubmissionToken r < r_nextSubmissionToken r"
    using renderer_invD(5,6) [OF assms(2)] less_plus1_u64 by simp
  with assms(3,5) have "i \<noteq> j" by (auto simp: frame_accepted(1) accept_frame_slots)
  with assms(3,4) show ?thesis
    by (simp add: frame_accepted(1) accept_frame_slots accept_frame_atlas)
qed

lemma last_token_steps:
  assumes "metal_step\<^sup>*\<^sup>* m m'" "metal_inv m"
  shows "r_lastSubmissionToken (m_renderer m) \<le> r_lastSubmissionToken (m_renderer m')"
  using assms(1)
proof (induction rule: rtranclp_induct)
  case (step m1 m2)
  have "metal_inv m1" "metal_inv m2"
    using step(1,2) assms(2) by (blast intro: metal_steps_inv rtranclp.rtrancl_into_rtrancl)+
  then have "r_lastSubmissionToken (m_renderer m1) \<le> r_lastSubmissionToken (m_renderer m2)"
    using retired_mono [OF metal_step_slots [OF step(2)]] by (simp add: metal_inv_def)
  with step.IH show ?case by simp
qed simp

lemma stable_steps:
  assumes "metal_step\<^sup>*\<^sup>* m m'" "metal_inv m" "token \<le> r_lastSubmissionToken (m_renderer m)"
    "holds_frame m' i token"
  shows "holds_frame m i token \<and> same_atlas (m_renderer m) (m_renderer m') \<and>
    sl_header (r_slots (m_renderer m') ! i) = sl_header (r_slots (m_renderer m) ! i) \<and>
    sl_buffer (r_slots (m_renderer m') ! i) = sl_buffer (r_slots (m_renderer m) ! i)"
  using assms(1,4)
proof (induction rule: rtranclp_induct)
  case base
  then show ?case by (simp add: same_atlas_def)
next
  case (step m1 m2)
  have inv: "metal_inv m1" using step(1) assms(2) by (rule metal_steps_inv)
  have "token \<le> r_lastSubmissionToken (m_renderer m1)"
    using last_token_steps [OF step(1) assms(2)] assms(3) by simp
  then have st: "holds_frame m1 i token"
    "sl_header (r_slots (m_renderer m2) ! i) = sl_header (r_slots (m_renderer m1) ! i)"
    "sl_buffer (r_slots (m_renderer m2) ! i) = sl_buffer (r_slots (m_renderer m1) ! i)"
    "same_atlas (m_renderer m1) (m_renderer m2)"
    using stable_step [OF metal_step_slots [OF step(2)], of i] inv step.prems
    by (auto simp: holds_frame_def metal_inv_def)
  from step.IH [OF st(1)] st(2-4) show ?case by (auto intro: same_atlas_trans)
qed

section \<open>Commands that end let go of every slot\<close>

lemma completions_drain:
  assumes "flights_ok r cs" "renderer_inv r" "mset (map fst fos) = mset cs"
  shows "let r' = fold (\<lambda>(f, outcome). completion_handler f outcome) fos r in
    renderer_inv r' \<and> flights_ok r' []"
  using assms
proof (induction fos arbitrary: r cs)
  case Nil
  then show ?case by simp
next
  case (Cons fo fos)
  obtain f outcome where fo: "fo = (f, outcome)" by fastforce
  have "f \<in># mset cs" unfolding Cons.prems(3) [symmetric] fo by simp
  then have "f \<in> set cs" by simp
  then obtain before after where cs: "cs = before @ f # after" by (auto simp: in_set_conv_decomp)
  have "flights_ok (completion_handler f outcome r) (before @ after)"
    using Cons.prems(1) unfolding cs by (rule completion_handler_ok)
  moreover have "renderer_inv (completion_handler f outcome r)"
    using Cons.prems(2) by (rule completion_handler_inv)
  moreover have "mset (map fst fos) = mset (before @ after)" using Cons.prems(3) fo cs by simp
  ultimately show ?case using Cons.IH fo by simp
qed

lemma no_flights_no_in_flight:
  "flights_ok r [] \<Longrightarrow> s \<in> set (r_slots r) \<Longrightarrow> sl_state s \<noteq> DTR_METAL_SLOT_IN_FLIGHT"
  by (auto simp: flights_ok_def in_set_conv_nth)

lemma slot_state_cases: "\<not> slot_active s \<longleftrightarrow> sl_state s \<noteq> DTR_METAL_SLOT_READY \<and> sl_state s \<noteq> DTR_METAL_SLOT_IN_FLIGHT"
  by (cases "sl_state s") (simp_all add: slot_active_def)

lemma retired_when_idle:
  "renderer_inv r \<Longrightarrow> \<forall>s \<in> set (r_slots r). \<not> slot_active s \<Longrightarrow>
    retired_through_token r = r_lastSubmissionToken r"
  using retired_spec [of r] by blast

end
