(* ===== verification/Dtr_Frame.thy ===== *)
theory Dtr_Frame
  imports Dtr_Renderer_Inv
begin

text \<open>
  What a valid frame is, without the code's order of checks and without machine arithmetic,
  and the proof that \<open>validateFrame\<close> accepts exactly these. An encoder of frames, the inverse
  of the reader, supplies the examples.
\<close>

section \<open>The specification\<close>

definition layer_of :: "DtrMetalInstanceV1 \<Rightarrow> nat" where
  "layer_of i = (case instance_kind (in_kind i) of None \<Rightarrow> 0 | Some k \<Rightarrow> snd (instance_layer k))"

definition placed_in :: "DtrMetalFrameHeaderV1 \<Rightarrow> DtrMetalInstanceV1 \<Rightarrow> bool" where
  "placed_in h i \<longleftrightarrow>
     0 < unat (in_width i) \<and> unat (in_width i) \<le> unat (fh_viewport_width h) \<and>
     0 < unat (in_height i) \<and> unat (in_height i) \<le> unat (fh_viewport_height h) \<and>
     (\<exists>x. 0 \<le> x \<and> x < int (unat (fh_viewport_width h)) \<and>
        sint (in_x i) \<le> x \<and> x < sint (in_x i) + int (unat (in_width i))) \<and>
     (\<exists>y. 0 \<le> y \<and> y < int (unat (fh_viewport_height h)) \<and>
        sint (in_y i) \<le> y \<and> y < sint (in_y i) + int (unat (in_height i)))"

definition samples_page :: "DtrMetalRenderer \<Rightarrow> DtrMetalFrameHeaderV1 \<Rightarrow> bool \<Rightarrow> DtrMetalInstanceV1 \<Rightarrow> bool" where
  "samples_page r h alpha i \<longleftrightarrow>
     in_atlas_width i = in_width i \<and> in_atlas_height i = in_height i \<and>
     unat (in_atlas_x i) + unat (in_atlas_width i) \<le> unat (mc_atlas_width (r_config r)) \<and>
     unat (in_atlas_y i) + unat (in_atlas_height i) \<le> unat (mc_atlas_height (r_config r)) \<and>
     in_page_generation i \<noteq> 0 \<and> fh_atlas_generation h = r_atlasGeneration r \<and>
     unat (in_page_index i) < unat (page_limit alpha r) \<and>
     page_generations alpha r ! unat (in_page_index i) = ucast (in_page_generation i)"

definition instance_spec :: "DtrMetalRenderer \<Rightarrow> DtrMetalFrameHeaderV1 \<Rightarrow> DtrMetalInstanceV1 \<Rightarrow> bool" where
  "instance_spec r h i \<longleftrightarrow> placed_in h i \<and>
     (\<exists>k. instance_kind (in_kind i) = Some k \<and>
       (if fst (instance_layer k) then samples_page r h (k = DTR_METAL_INSTANCE_ALPHA_GLYPH) i
        else no_atlas_region i))"

definition header_spec :: "DtrMetalRenderer \<Rightarrow> nat \<Rightarrow> DtrMetalFrameHeaderV1 \<Rightarrow> bool" where
  "header_spec r n h \<longleftrightarrow>
     fh_magic h = DTR_METAL_FRAME_MAGIC \<and> fh_version h = DTR_METAL_FRAME_VERSION \<and>
     unat (fh_header_size h) = 80 \<and> unat (fh_total_size h) = n \<and>
     unat (fh_instance_stride h) = 48 \<and> unat (fh_instances_offset h) = 80 \<and>
     fh_reserved h = [0, 0, 0] \<and> fh_frame_generation h \<noteq> 0 \<and>
     fh_renderer_generation h = r_generation r \<and>
     0 < fh_scale_16_16 h \<and> fh_scale_16_16 h \<le> 1048576 \<and>
     0 < fh_viewport_width h \<and> fh_viewport_width h \<le> mc_maximum_viewport_width (r_config r) \<and>
     0 < fh_viewport_height h \<and> fh_viewport_height h \<le> mc_maximum_viewport_height (r_config r) \<and>
     fh_instance_count h \<le> mc_maximum_instances (r_config r) \<and>
     n = 80 + unat (fh_instance_count h) * 48 \<and> n \<le> DTR_MAX_METAL_FRAME_BYTES"

definition frame_spec :: "DtrMetalRenderer \<Rightarrow> byte list \<Rightarrow> bool" where
  "frame_spec r bs \<longleftrightarrow> (let h = read_header bs; is = frame_instances bs h in
     80 \<le> length bs \<and> header_spec r (length bs) h \<and>
     sorted (map layer_of is) \<and> (\<forall>i \<in> set is. instance_spec r h i))"

section \<open>Validation implements it\<close>

lemma sint_small: "v \<le> (4096 :: u32) \<Longrightarrow> sint v = int (unat v)"
proof -
  assume "v \<le> 4096"
  then have "unat v \<le> 4096" by (simp add: word_le_nat_alt)
  then have "uint v \<le> 4096" by (simp only: uint_nat)
  then have "signed_take_bit 31 (uint v) = uint v"
    by (intro signed_take_bit_int_eq_self order_trans [OF _ uint_ge_0]) simp_all
  moreover have "sint v = signed_take_bit 31 (uint v)" by (simp add: sint_uint)
  ultimately show ?thesis by (simp only: uint_nat)
qed

lemma overlap_iff:
  "(\<exists>x. 0 \<le> x \<and> x < b \<and> a \<le> x \<and> x < a + w) \<longleftrightarrow> 0 < a + w \<and> a < b" if "0 < b" "0 < w" for a b w :: int
proof
  assume "0 < a + w \<and> a < b"
  with that show "\<exists>x. 0 \<le> x \<and> x < b \<and> a \<le> x \<and> x < a + w" by (intro exI [of _ "max 0 a"]) auto
qed auto

lemma misplaced_iff:
  assumes "0 < fh_viewport_width h" "fh_viewport_width h \<le> 4096"
    "0 < fh_viewport_height h" "fh_viewport_height h \<le> 4096"
  shows "\<not> misplaced h i \<longleftrightarrow> placed_in h i"
proof (cases "0 < unat (in_width i) \<and> 0 < unat (in_height i)")
  case True
  have pos: "0 < int (unat (fh_viewport_width h))" "0 < int (unat (fh_viewport_height h))"
    "0 < int (unat (in_width i))" "0 < int (unat (in_height i))"
    using assms True by (auto simp: word_less_nat_alt simp del: of_nat_unat)
  have nonzero: "in_width i \<noteq> 0" "in_height i \<noteq> 0" using True by auto
  show ?thesis unfolding misplaced_def placed_in_def overlap_iff [OF pos(1,3)] overlap_iff [OF pos(2,4)]
    using True nonzero
    by (simp only: sint_small [OF assms(2)] sint_small [OF assms(4)] uint_nat word_less_nat_alt
        not_le not_less de_Morgan_disj simp_thms) blast
next
  case False
  then show ?thesis by (auto simp: misplaced_def placed_in_def unat_eq_0)
qed

lemma within_iff:
  "\<not> (limit < x) \<and> \<not> (limit - x < w) \<longleftrightarrow> unat x + unat w \<le> unat (limit :: u32)"
proof (cases "limit < x")
  case True
  then show ?thesis by (simp add: word_less_nat_alt)
next
  case False
  then have "unat (limit - x) = unat limit - unat x" by (intro unat_sub) (simp add: word_le_nat_alt word_less_nat_alt)
  with False show ?thesis by (auto simp: word_less_nat_alt)
qed

lemma check_instance_iff:
  assumes "0 < fh_viewport_width h" "fh_viewport_width h \<le> 4096"
    "0 < fh_viewport_height h" "fh_viewport_height h \<le> 4096"
  shows "check_instance r h previous i = Inr layer \<longleftrightarrow>
    instance_spec r h i \<and> layer = layer_of i \<and> previous \<le> layer"
proof (cases "instance_kind (in_kind i)")
  case (Some k)
  let ?alpha = "k = DTR_METAL_INSTANCE_ALPHA_GLYPH"
  note m = misplaced_iff [OF assms, of i]
  have page: "\<not> outside_atlas ?alpha i r \<and> fh_atlas_generation h = r_atlasGeneration r \<and>
      page_generations ?alpha r ! unat (in_page_index i) = ucast (in_page_generation i) \<longleftrightarrow>
      samples_page r h ?alpha i" if "placed_in h i"
    using that within_iff [of "mc_atlas_width (r_config r)" "in_atlas_x i" "in_atlas_width i"]
      within_iff [of "mc_atlas_height (r_config r)" "in_atlas_y i" "in_atlas_height i"]
    by (auto simp: outside_atlas_def samples_page_def placed_in_def word_less_nat_alt word_le_nat_alt not_le)
  show ?thesis using page m
    by (cases "instance_layer k")
      (auto simp: check_instance_def instance_spec_def layer_of_def Some)
qed (auto simp: check_instance_def instance_spec_def)

lemma validate_instances_iff:
  assumes "0 < fh_viewport_width h" "fh_viewport_width h \<le> 4096"
    "0 < fh_viewport_height h" "fh_viewport_height h \<le> 4096"
  shows "validate_instances r h previous is = DTR_STATUS_OK \<longleftrightarrow>
    sorted (previous # map layer_of is) \<and> (\<forall>i \<in> set is. instance_spec r h i)"
proof (induction "is" arbitrary: previous)
  case (Cons i rest)
  show ?case
  proof (cases "check_instance r h previous i")
    case (Inl st)
    then have "st \<noteq> DTR_STATUS_OK"
      by (auto simp: check_instance_def split: option.splits prod.splits if_splits)
    moreover have "\<not> (instance_spec r h i \<and> previous \<le> layer_of i)"
      using Inl check_instance_iff [OF assms, of r previous i "layer_of i"] by auto
    ultimately show ?thesis using Inl by auto
  next
    case (Inr layer)
    then have "instance_spec r h i" "layer = layer_of i" "previous \<le> layer"
      using check_instance_iff [OF assms] by blast+
    with Inr Cons.IH [of layer] show ?thesis by (auto intro: order_trans)
  qed
qed simp

lemma header_iff:
  "\<not> header_malformed n h r \<and> fh_renderer_generation h = r_generation r \<longleftrightarrow> header_spec r n h"
proof -
  have bound: "unat (fh_instance_count h) \<le> (DTR_MAX_METAL_FRAME_BYTES - 80) div 48 \<longleftrightarrow>
      80 + unat (fh_instance_count h) * 48 \<le> DTR_MAX_METAL_FRAME_BYTES"
    using less_eq_div_iff_mult_less_eq [of 48 "unat (fh_instance_count h)" "DTR_MAX_METAL_FRAME_BYTES - 80"]
    by simp
  have scale: "push_bit 16 16 = (1048576 :: u32)" by simp
  show ?thesis
    unfolding header_malformed_def header_spec_def renderer_sizes de_Morgan_disj not_not not_less
      word_gt_0 bound scale
    by (rule iffI; elim conjE; intro conjI; (assumption | simp only:))
qed

theorem validateFrame_iff:
  assumes "MetalConfigValuesAreValid (r_config r)"
  shows "fst (validateFrame (Some bs) r) = DTR_STATUS_OK \<longleftrightarrow> frame_spec r bs"
proof (cases "80 \<le> length bs \<and> header_spec r (length bs) (read_header bs)")
  case True
  let ?h = "read_header bs"
  from True assms have v: "0 < fh_viewport_width ?h" "fh_viewport_width ?h \<le> 4096"
    "0 < fh_viewport_height ?h" "fh_viewport_height ?h \<le> 4096"
    by (auto simp: header_spec_def MetalConfigValuesAreValid_def intro: order_trans)
  from True have "validateFrame (Some bs) r = (validate_instances r ?h 0 (frame_instances bs ?h), ?h)"
    using header_iff [of "length bs" ?h r] by (simp add: validateFrame_def Let_def)
  then show ?thesis using True validate_instances_iff [OF v] by (simp add: frame_spec_def Let_def)
next
  case False
  then show ?thesis using header_iff [of "length bs" "read_header bs" r]
    by (auto simp: validateFrame_def frame_spec_def Let_def)
qed

section \<open>Writing frames\<close>

definition write_header :: "DtrMetalFrameHeaderV1 \<Rightarrow> byte list" where
  "write_header h = write_members frame_layout
     [unat (fh_magic h), unat (fh_version h), unat (fh_header_size h), unat (fh_total_size h),
      unat (fh_renderer_generation h), unat (fh_frame_generation h), unat (fh_atlas_generation h),
      unat (fh_viewport_width h), unat (fh_viewport_height h), unat (fh_scale_16_16 h),
      unat (fh_background_rgba h), unat (fh_instance_count h), unat (fh_instance_stride h),
      unat (fh_instances_offset h), unat (fh_reserved h ! 0), unat (fh_reserved h ! 1),
      unat (fh_reserved h ! 2)]"

definition write_instance :: "DtrMetalInstanceV1 \<Rightarrow> byte list" where
  "write_instance i = write_members instance_layout
     [unat (in_x i), unat (in_y i), unat (in_width i), unat (in_height i), unat (in_atlas_x i),
      unat (in_atlas_y i), unat (in_atlas_width i), unat (in_atlas_height i), unat (in_color_rgba i),
      unat (in_kind i), unat (in_page_index i), unat (in_page_generation i)]"

definition write_frame :: "DtrMetalFrameHeaderV1 \<Rightarrow> DtrMetalInstanceV1 list \<Rightarrow> byte list" where
  "write_frame h is = write_header h @ concat (map write_instance is)"

lemma unat_u32_bound: "unat (x :: u32) < 256 ^ 4"
  using unat_bound [of x] by simp

lemma unat_u64_bound: "unat (x :: u64) < 256 ^ 8"
  using unat_bound [of x] by simp

lemma length_write_header [simp]: "length (write_header h) = 80"
  by (simp add: write_header_def frame_layout_def)

lemma length_write_instance [simp]: "length (write_instance i) = 48"
  by (simp add: write_instance_def instance_layout_def)

lemma read_write_header:
  assumes "length (fh_reserved h) = 3"
  shows "read_header (write_header h @ rest) = h"
proof -
  have "list_all2 (\<lambda>w n. n < 256 ^ w) frame_layout
     [unat (fh_magic h), unat (fh_version h), unat (fh_header_size h), unat (fh_total_size h),
      unat (fh_renderer_generation h), unat (fh_frame_generation h), unat (fh_atlas_generation h),
      unat (fh_viewport_width h), unat (fh_viewport_height h), unat (fh_scale_16_16 h),
      unat (fh_background_rgba h), unat (fh_instance_count h), unat (fh_instance_stride h),
      unat (fh_instances_offset h), unat (fh_reserved h ! 0), unat (fh_reserved h ! 1),
      unat (fh_reserved h ! 2)]"
    unfolding frame_layout_def by (intro list_all2_Cons [THEN iffD2] conjI list_all2_Nil [THEN iffD2]
        unat_u32_bound unat_u64_bound) simp
  note members = read_write_members [OF this, of rest, folded write_header_def]
  have reserved: "[fh_reserved h ! 0, fh_reserved h ! Suc 0, fh_reserved h ! 2] = fh_reserved h"
    using assms by (auto simp: numeral_3_eq_3 length_Suc_conv)
  show ?thesis by (simp add: read_header_def members Let_def reserved)
qed

lemma read_write_instance: "read_instance (write_instance i @ rest) = i"
proof -
  have "list_all2 (\<lambda>w n. n < 256 ^ w) instance_layout
     [unat (in_x i), unat (in_y i), unat (in_width i), unat (in_height i), unat (in_atlas_x i),
      unat (in_atlas_y i), unat (in_atlas_width i), unat (in_atlas_height i), unat (in_color_rgba i),
      unat (in_kind i), unat (in_page_index i), unat (in_page_generation i)]"
    unfolding instance_layout_def by (intro list_all2_Cons [THEN iffD2] conjI list_all2_Nil [THEN iffD2]
        unat_u32_bound unat_u64_bound) simp
  note members = read_write_members [OF this, of rest, folded write_instance_def]
  show ?thesis by (simp add: read_instance_def members Let_def)
qed

lemma drop_write_instances:
  "n \<le> length is \<Longrightarrow> drop (n * 48) (concat (map write_instance is)) = concat (map write_instance (drop n is))"
proof (induction "is" arbitrary: n)
  case (Cons i rest)
  then show ?case by (cases n) simp_all
qed simp

lemma instance_at_write:
  assumes "n < length is"
  shows "instance_at (write_frame h is) n = is ! n"
proof -
  have "drop (80 + n * 48) (write_frame h is) = drop (n * 48) (concat (map write_instance is))"
    by (simp add: write_frame_def)
  also have "\<dots> = write_instance (is ! n) @ concat (map write_instance (drop (Suc n) is))"
    using assms by (simp add: drop_write_instances flip: Cons_nth_drop_Suc)
  finally show ?thesis by (simp add: instance_at_def read_write_instance)
qed

lemma frame_instances_write:
  "unat (fh_instance_count h) = length is \<Longrightarrow> frame_instances (write_frame h is) h = is"
  by (rule nth_equalityI) (simp_all add: frame_instances_def instance_at_write)

lemma length_write_frame: "length (write_frame h is) = 80 + length is * 48"
  by (induction "is") (simp_all add: write_frame_def)

section \<open>An example\<close>

text \<open>A renderer of one small atlas page each, and a frame with a background and a glyph.\<close>

definition metal_config :: DtrMetalRendererConfigV1 where
  "metal_config = \<lparr>mc_maximum_viewport_width = 64, mc_maximum_viewport_height = 64,
     mc_maximum_instances = 2, mc_atlas_width = 8, mc_atlas_height = 8, mc_maximum_alpha_pages = 1,
     mc_maximum_color_pages = 1, mc_reserved = [0, 0, 0]\<rparr>"

definition sample_header :: "u64 \<Rightarrow> nat \<Rightarrow> DtrMetalFrameHeaderV1" where
  "sample_header g n = \<lparr>fh_magic = DTR_METAL_FRAME_MAGIC, fh_version = 1, fh_header_size = 80,
     fh_total_size = of_nat (80 + n * 48), fh_renderer_generation = 7, fh_frame_generation = g,
     fh_atlas_generation = 1, fh_viewport_width = 32, fh_viewport_height = 16, fh_scale_16_16 = 65536,
     fh_background_rgba = 255, fh_instance_count = of_nat n, fh_instance_stride = 48,
     fh_instances_offset = 80, fh_reserved = [0, 0, 0]\<rparr>"

definition sample_background :: DtrMetalInstanceV1 where
  "sample_background = \<lparr>in_x = - 1, in_y = 0, in_width = 32, in_height = 16, in_atlas_x = 0,
     in_atlas_y = 0, in_atlas_width = 0, in_atlas_height = 0, in_color_rgba = 255, in_kind = 1,
     in_page_index = 0, in_page_generation = 0\<rparr>"

definition sample_glyph :: DtrMetalInstanceV1 where
  "sample_glyph = \<lparr>in_x = 31, in_y = 4, in_width = 2, in_height = 3, in_atlas_x = 6,
     in_atlas_y = 5, in_atlas_width = 2, in_atlas_height = 3, in_color_rgba = 255, in_kind = 3,
     in_page_index = 0, in_page_generation = 9\<rparr>"

definition sample_upload :: DtrMetalAtlasUploadV1 where
  "sample_upload = \<lparr>up_renderer_generation = 7, up_atlas_generation = 1, up_page_generation = 9,
     up_format = 1, up_page_index = 0, up_x = 6, up_y = 5, up_width = 2, up_height = 3,
     up_row_stride = 2, up_byte_length = 6, up_reserved = [0, 0, 0, 0]\<rparr>"

definition sample_frame :: "byte list" where
  "sample_frame = write_frame (sample_header 3 2) [sample_background, sample_glyph]"

definition sample_renderer :: DtrMetalRenderer where
  "sample_renderer = snd (upload sample_upload (Some [1, 2, 3, 4, 5, 6]) (initWithConfig metal_config 7))"

lemma sample_renderer_facts:
  "r_config sample_renderer = metal_config" "r_generation sample_renderer = 7"
  "r_atlasGeneration sample_renderer = 1" "r_alphaPageGenerations sample_renderer = [9]"
  "r_colorPageGenerations sample_renderer = [0]"
  "r_slots sample_renderer = replicate 3 (new_slot metal_config)" "r_admitting sample_renderer"
  "r_alphaAtlas sample_renderer 0 7 5 = [2]"
  by (simp_all add: sample_renderer_def upload_def upload_malformed_def initWithConfig_def sample_upload_def
      metal_config_def is_alpha_def atlas_format_def page_limit_def page_generations_def
      hasActiveSlotsLocked_def new_slot_def slot_active_def store_upload_def Let_def set_page_def
      atlas_def replaceRegion_def clearTextureSlice_def)

lemma sample_frame_parts:
  "read_header sample_frame = sample_header 3 2"
  "frame_instances sample_frame (sample_header 3 2) = [sample_background, sample_glyph]"
  "length sample_frame = 176"
proof -
  show "read_header sample_frame = sample_header 3 2"
    unfolding sample_frame_def write_frame_def by (rule read_write_header) (simp add: sample_header_def)
  show "frame_instances sample_frame (sample_header 3 2) = [sample_background, sample_glyph]"
    unfolding sample_frame_def by (rule frame_instances_write) (simp add: sample_header_def)
  show "length sample_frame = 176" unfolding sample_frame_def length_write_frame by simp
qed

lemma sample_frame_accepted: "validateFrame (Some sample_frame) sample_renderer = (DTR_STATUS_OK, sample_header 3 2)"
proof -
  have "\<not> header_malformed 176 (sample_header 3 2) sample_renderer"
    by (simp add: header_malformed_def sample_header_def sample_renderer_facts metal_config_def)
  moreover have "check_instance sample_renderer (sample_header 3 2) 0 sample_background = Inr 2"
    by (simp add: check_instance_def sample_background_def instance_kind_def instance_layer_def
        misplaced_def sample_header_def no_atlas_region_def)
  moreover have "check_instance sample_renderer (sample_header 3 2) 2 sample_glyph = Inr 5"
    by (simp add: check_instance_def sample_glyph_def instance_kind_def instance_layer_def
        misplaced_def sample_header_def outside_atlas_def sample_renderer_facts metal_config_def
        page_limit_def page_generations_def)
  moreover have "fh_renderer_generation (sample_header 3 2) = r_generation sample_renderer"
    by (simp add: sample_header_def sample_renderer_facts)
  ultimately show ?thesis
    by (simp add: validateFrame_def sample_frame_parts Let_def)
qed

end
