(* ===== verification/Dtr_Renderer_Spec.thy ===== *)
theory Dtr_Renderer_Spec
  imports Dtr_Metal Dtr_Frame
begin

text \<open>
  The properties of the renderer, with a run of it that shows their hypotheses can hold: a
  glyph page is uploaded, a view bound, a frame submitted, drawn and committed, and then
  completed.
\<close>

section \<open>A run\<close>

lemma validateFrame_same_atlas:
  assumes "same_atlas r r'" "r_generation r' = r_generation r"
  shows "validateFrame f r' = validateFrame f r"
proof -
  have "header_malformed n h r' = header_malformed n h r" for n h
    using assms(1) by (simp add: header_malformed_def same_atlas_def)
  with assms(2) validate_same_atlas [OF assms(1)] show ?thesis
    by (simp add: validateFrame_def Let_def split: option.split)
qed

definition sample_bound :: DtrMetalRenderer where
  "sample_bound = sample_renderer\<lparr>r_view := Some 0, r_everBound := True\<rparr>"

definition metal_accepted :: DtrMetalRenderer where
  "metal_accepted = accept_frame sample_frame (sample_header 3 2) 0 sample_bound"

definition sample_flight :: flight where
  "sample_flight = \<lparr>fl_slot = 0, fl_token = 1, fl_header = sample_header 3 2\<rparr>"

definition sample_drawn :: DtrMetalRenderer where
  "sample_drawn = metal_accepted\<lparr>r_slots := drop_others 0 (r_slots metal_accepted)\<rparr>"

abbreviation sample_metal :: "DtrMetalRenderer \<Rightarrow> draw_phase \<Rightarrow> flight list \<Rightarrow> metal" where
  "sample_metal r phase commands \<equiv> \<lparr>m_renderer = r, m_alive = (\<lambda>_. True), m_bound = (\<lambda>_. 0)(0 := 7),
     m_draw = phase, m_commands = commands\<rparr>"

lemma sample_bound_valid: "validateFrame (Some sample_frame) sample_bound = (DTR_STATUS_OK, sample_header 3 2)"
proof -
  have "validateFrame (Some sample_frame) sample_bound = validateFrame (Some sample_frame) sample_renderer"
    by (rule validateFrame_same_atlas) (simp_all add: sample_bound_def same_atlas_def)
  then show ?thesis by (simp add: sample_frame_accepted)
qed

lemma sample_renderer_counters:
  "r_nextSubmissionToken sample_renderer = 1" "r_lastSubmissionToken sample_renderer = 0"
  "r_lastAcceptedFrameGeneration sample_renderer = 0" "r_view sample_renderer = None"
  "r_everBound sample_renderer = False" "r_shuttingDown sample_renderer = False"
  "r_failureKind sample_renderer = DTR_METAL_FAILURE_NONE" "r_staleReadyDropCount sample_renderer = 0"
  by (simp_all add: sample_renderer_def upload_def upload_malformed_def initWithConfig_def sample_upload_def
      metal_config_def is_alpha_def atlas_format_def page_limit_def page_generations_def
      hasActiveSlotsLocked_def new_slot_def slot_active_def store_upload_def Let_def set_page_def)

lemma sample_submitted:
  "submitFrame (\<lambda>_. True) (Some sample_frame) (Some (40, 1)) sample_bound =
     ((DTR_STATUS_OK, Some \<lparr>sub_renderer_generation = 7, sub_submission_token = 1, sub_frame_generation = 3\<rparr>),
      metal_accepted)"
  by (simp add: submitFrame_def versioned_def sample_bound_valid)
    (simp add: sample_bound_def sample_renderer_facts sample_renderer_counters weak_view_def
      sample_header_def numeral_3_eq_3 new_slot_def metal_accepted_def)

lemma metal_accepted_facts:
  "r_admitting metal_accepted" "r_view metal_accepted = Some 0" "r_staleReadyDropCount metal_accepted = 0"
  "length (r_slots metal_accepted) = 3" "r_lastSubmissionToken metal_accepted = 1"
  "sl_state (r_slots metal_accepted ! 0) = DTR_METAL_SLOT_READY"
  "sl_token (r_slots metal_accepted ! 0) = 1" "sl_header (r_slots metal_accepted ! 0) = sample_header 3 2"
  "sl_state (r_slots metal_accepted ! Suc 0) = DTR_METAL_SLOT_FREE"
  "sl_state (r_slots metal_accepted ! 2) = DTR_METAL_SLOT_FREE"
  "r_failureKind metal_accepted = DTR_METAL_FAILURE_NONE" "r_generation metal_accepted = 7"
  by (simp_all add: metal_accepted_def accept_frame_def Let_def sample_bound_def sample_renderer_facts
      sample_renderer_counters new_slot_def nth_Cons' numeral_3_eq_3)

lemma sample_selected:
  "draw_select (\<lambda>_. True) 0 metal_accepted = Some (sample_flight, sample_drawn)"
proof -
  obtain a b c where abc: "r_slots metal_accepted = [a, b, c]"
    using metal_accepted_facts(4) by (auto simp: numeral_3_eq_3 length_Suc_conv)
  note f = metal_accepted_facts [unfolded abc]
  have "newest_ready 0 None [a, b, c] = Some (0, 3)"
    using f(6-10) by (simp add: sample_header_def)
  moreover have "count_dropped 0 [a, b, c] = 0" using f(6-10) by (simp add: count_dropped_def)
  ultimately show ?thesis using f(1-3,6-8)
    by (simp add: draw_select_def weak_view_def abc sample_flight_def sample_drawn_def
        del: newest_ready.simps)
qed

lemma metal_run:
  "metal_step\<^sup>*\<^sup>* (new_metal metal_config 7) (sample_metal metal_accepted Idle [])"
  "metal_step\<^sup>*\<^sup>* (sample_metal metal_accepted Idle []) (sample_metal sample_drawn Idle [sample_flight])"
proof -
  let ?m1 = "(new_metal metal_config 7)\<lparr>m_renderer := sample_renderer\<rparr>"
  have "metal_step (new_metal metal_config 7) ?m1"
    using upload_page [of "new_metal metal_config 7" sample_upload "Some [1, 2, 3, 4, 5, 6]"]
    by (simp add: new_metal_def sample_renderer_def)
  moreover have "metal_step ?m1 (sample_metal sample_bound Idle [])"
    using bind [of ?m1 0 True DTR_STATUS_OK sample_bound]
    by (simp add: new_metal_def bindView_def sample_renderer_facts sample_renderer_counters weak_view_def
        sample_bound_def)
  moreover have "metal_step (sample_metal sample_bound Idle []) (sample_metal metal_accepted Idle [])"
    using submit [of "sample_metal sample_bound Idle []" "Some sample_frame" "Some (40, 1)"]
    by (simp add: sample_submitted)
  ultimately show "metal_step\<^sup>*\<^sup>* (new_metal metal_config 7) (sample_metal metal_accepted Idle [])"
    by (meson rtranclp.rtrancl_into_rtrancl rtranclp.rtrancl_refl)
  have "r_slots metal_accepted ! 0 \<in> set (r_slots metal_accepted)"
    using metal_accepted_facts(4) by (intro nth_mem) simp
  then have "draw_has_ready (\<lambda>_. True) 0 metal_accepted"
    using metal_accepted_facts(1,2,6) by (auto simp: draw_has_ready_def weak_view_def)
  then have "metal_step (sample_metal metal_accepted Idle []) (sample_metal metal_accepted (Acquiring 0) [])"
    using draw [of "sample_metal metal_accepted Idle []" 0] by simp
  moreover have "metal_step (sample_metal metal_accepted (Acquiring 0) [])
      (sample_metal sample_drawn (Encoding sample_flight) [])"
    using select [of "sample_metal metal_accepted (Acquiring 0) []" 0] by (simp add: sample_selected)
  moreover have "metal_step (sample_metal sample_drawn (Encoding sample_flight) [])
      (sample_metal sample_drawn Idle [sample_flight])"
    using commit [of "sample_metal sample_drawn (Encoding sample_flight) []"] by simp
  ultimately show "metal_step\<^sup>*\<^sup>* (sample_metal metal_accepted Idle []) (sample_metal sample_drawn Idle [sample_flight])"
    by (meson rtranclp.rtrancl_into_rtrancl rtranclp.rtrancl_refl)
qed

lemma sample_reachable:
  "metal_step\<^sup>*\<^sup>* (new_metal metal_config 7) (sample_metal sample_drawn Idle [sample_flight])"
  using metal_run by (rule rtranclp_trans)

section \<open>Frames\<close>

text \<open>
  C14. \<open>validateFrame\<close> accepts exactly the frames of the specification, which speaks of the
  decoded structure in unbounded arithmetic: a canonical header within the configured limits,
  instances in layer order, each of which meets the viewport, and each glyph or image inside a
  page whose current generation it names.
\<close>

theorem frame_validation_exact:
  assumes "MetalConfigValuesAreValid (r_config r)"
  shows "fst (validateFrame (Some bs) r) = DTR_STATUS_OK \<longleftrightarrow> frame_spec r bs"
  using assms by (rule validateFrame_iff)

lemma frame_validation_exact_witness: "frame_spec sample_renderer sample_frame"
proof -
  have "MetalConfigValuesAreValid (r_config sample_renderer)"
    by (simp add: sample_renderer_facts metal_config_def MetalConfigValuesAreValid_def Let_def)
  from frame_validation_exact [OF this, of sample_frame] show ?thesis
    by (simp add: sample_frame_accepted)
qed

text \<open>
  C15. In every reachable state the commands on the GPU carry strictly increasing frame
  generations, no slot is shared, each slot in flight is awaited by exactly one flight and
  each flight finds its slot as it left it, and every frame still READY is newer than all of
  them. So frames are presented in the order they were accepted, and a completion handler
  frees the slot that it was made for.
\<close>

theorem frames_reach_gpu_in_order:
  assumes "metal_step\<^sup>*\<^sup>* (new_metal c g) m"
  shows "let r = m_renderer m in
    sorted_wrt (<) (map (fh_frame_generation \<circ> fl_header) (m_commands m)) \<and>
    (\<forall>f \<in> set (flights m). still_flying f r) \<and>
    (\<forall>i < 3. sl_state (r_slots r ! i) = DTR_METAL_SLOT_IN_FLIGHT \<longrightarrow> (\<exists>!f. f \<in> set (flights m) \<and> fl_slot f = i)) \<and>
    (\<forall>i < 3. sl_state (r_slots r ! i) = DTR_METAL_SLOT_READY \<longrightarrow>
      (\<forall>f \<in> set (flights m). fh_frame_generation (fl_header f) < frame_of (r_slots r ! i)))"
proof -
  let ?r = "m_renderer m"
  have r: "renderer_inv ?r" and fs: "flights_ok ?r (flights m)"
    using reachable_inv [OF assms] by (simp_all add: metal_inv_def)
  note len = renderer_invD(1) [OF r]
  have "sorted_wrt (<) (map (fh_frame_generation \<circ> fl_header) (m_commands m))"
    using flights_frames [OF r fs] by (auto simp: flights_def sorted_wrt_append sorted_wrt_map)
  moreover have "fh_frame_generation (fl_header f) < frame_of (r_slots ?r ! i)"
    if i: "i < 3" "sl_state (r_slots ?r ! i) = DTR_METAL_SLOT_READY" and f: "f \<in> set (flights m)" for i f
  proof -
    note f' = flights_okD [OF fs f]
    have "fl_token f < sl_token (r_slots ?r ! i)" using fs i f len by (simp add: flights_ok_def)
    moreover have "fl_slot f \<noteq> i" using f'(2) i(2) by auto
    moreover have "slot_active (r_slots ?r ! i)" using i(2) by (simp add: slot_active_def)
    ultimately show ?thesis
      using renderer_invD(2) [OF r] f' i(1) len unfolding slots_ordered_def by metis
  qed
  ultimately show ?thesis
    using flights_okD(5) [OF fs] flights_owned [OF fs] len by (simp add: Let_def)
qed

lemma frames_reach_gpu_in_order_witness:
  "still_flying sample_flight sample_drawn \<and> map (fh_frame_generation \<circ> fl_header) [sample_flight] = [3]"
  using frames_reach_gpu_in_order [OF sample_reachable]
  by (simp add: Let_def flights_def) (simp add: sample_flight_def sample_header_def)

text \<open>
  C16. While a frame is READY or IN_FLIGHT, neither its stored bytes nor the atlas change,
  however long it stays and whatever is called meanwhile: what is drawn is what was validated,
  against the textures it was validated for.
\<close>

theorem active_frame_keeps_atlas:
  assumes "metal_step\<^sup>*\<^sup>* (new_metal c g) m" "metal_step\<^sup>*\<^sup>* m m'"
    "holds_frame m i token" "holds_frame m' i token"
  shows "same_atlas (m_renderer m) (m_renderer m') \<and>
    sl_header (r_slots (m_renderer m') ! i) = sl_header (r_slots (m_renderer m) ! i) \<and>
    sl_buffer (r_slots (m_renderer m') ! i) = sl_buffer (r_slots (m_renderer m) ! i) \<and>
    (let s = r_slots (m_renderer m') ! i
     in validate_instances (m_renderer m') (sl_header s) 0 (slot_instances s) = DTR_STATUS_OK)"
proof -
  have inv: "metal_inv m" "metal_inv m'"
    using reachable_inv [OF assms(1)] metal_steps_inv [OF assms(2)] by blast+
  have valid: "slot_valid (m_renderer n) (r_slots (m_renderer n) ! i)" if "metal_inv n" "holds_frame n i token" for n
    using that renderer_invD(3) [of "m_renderer n"] by (simp add: metal_inv_def holds_frame_def)
  have "token \<le> r_lastSubmissionToken (m_renderer m)"
    using valid [OF inv(1) assms(3)] assms(3) by (simp add: slot_valid_def holds_frame_def)
  from stable_steps [OF assms(2) inv(1) this assms(4)] valid [OF inv(2) assms(4)]
  show ?thesis by (simp add: slot_valid_def Let_def)
qed

lemma active_frame_keeps_atlas_witness: "same_atlas metal_accepted sample_drawn"
proof -
  have "holds_frame (sample_metal metal_accepted Idle []) 0 1"
    "holds_frame (sample_metal sample_drawn Idle [sample_flight]) 0 1"
    using metal_accepted_facts
    by (simp_all add: holds_frame_def slot_active_def sample_drawn_def drop_others_nth)
  from active_frame_keeps_atlas [OF metal_run this] show ?thesis by simp
qed

text \<open>
  C17. The promise of \<open>retired_through_token\<close>: once a state report names a token, no frame
  with that token or an earlier one is READY or IN_FLIGHT, then and ever after, so the pins
  on its atlas pages can be released; later reports never go back.
\<close>

theorem retired_stays_retired:
  assumes "metal_step\<^sup>*\<^sup>* (new_metal c g) m" "metal_step\<^sup>*\<^sup>* m m'"
    "copyState (m_alive m) output (m_renderer m) = Inr st"
  shows "(\<forall>s \<in> set (r_slots (m_renderer m')). slot_active s \<longrightarrow> rst_retired_through_token st < sl_token s) \<and>
    rst_retired_through_token st \<le> retired_through_token (m_renderer m') \<and>
    rst_retired_through_token st \<le> rst_last_submission_token st"
proof -
  have inv: "metal_inv m" "metal_inv m'"
    using reachable_inv [OF assms(1)] metal_steps_inv [OF assms(2)] by blast+
  have st: "rst_retired_through_token st = retired_through_token (m_renderer m)"
    "rst_last_submission_token st = r_lastSubmissionToken (m_renderer m)"
    using assms(3) by (auto simp: copyState_def split: option.splits if_splits)
  have "retired_through_token (m_renderer m) \<le> retired_through_token (m_renderer m')"
    using assms(2) inv(1) by (rule retired_steps)
  then show ?thesis
    using retired_spec [of "m_renderer m"] retired_spec [of "m_renderer m'"] inv
    by (auto simp: metal_inv_def st intro: le_less_trans)
qed

lemma retired_stays_retired_witness:
  "retired_through_token metal_accepted < sl_token (r_slots sample_drawn ! 0) \<and>
   slot_active (r_slots sample_drawn ! 0)"
proof -
  obtain st where st: "copyState (\<lambda>_. True) (Some (176, 3)) metal_accepted = Inr st"
    "rst_retired_through_token st = retired_through_token metal_accepted"
    by (simp add: copyState_def versioned_def)
  have len: "0 < length (r_slots sample_drawn)" using metal_accepted_facts(4) by (simp add: sample_drawn_def)
  then have "slot_active (r_slots sample_drawn ! 0)"
    by (simp add: sample_drawn_def drop_others_nth slot_active_def)
  moreover note nth_mem [OF len]
  ultimately show ?thesis using st retired_stays_retired [OF metal_run, of "Some (176, 3)" st] by simp
qed

text \<open>
  C18. Every frame comes to its end: when the completion handlers of the commands that the
  GPU holds have run, in whatever order and with whatever outcome, no slot is in flight; if
  the renderer admits no frames any more (it was shut down, or a command failed), then all
  slots are free and every accepted token is retired.
\<close>

theorem commands_drain:
  assumes "metal_step\<^sup>*\<^sup>* (new_metal c g) m" "m_draw m = Idle" "mset (map fst ended) = mset (m_commands m)"
  shows "let r = fold (\<lambda>(f, outcome). completion_handler f outcome) ended (m_renderer m) in
    (\<forall>s \<in> set (r_slots r). sl_state s \<noteq> DTR_METAL_SLOT_IN_FLIGHT) \<and>
    (\<not> r_admitting r \<longrightarrow> (\<forall>s \<in> set (r_slots r). sl_state s = DTR_METAL_SLOT_FREE) \<and>
      retired_through_token r = r_lastSubmissionToken r)"
proof -
  let ?r = "fold (\<lambda>(f, outcome). completion_handler f outcome) ended (m_renderer m)"
  have "renderer_inv (m_renderer m)" "flights_ok (m_renderer m) (m_commands m)"
    using reachable_inv [OF assms(1)] assms(2) by (simp_all add: metal_inv_def flights_def)
  then have r: "renderer_inv ?r" "flights_ok ?r []"
    using completions_drain [of "m_renderer m" "m_commands m" ended] assms(3) by (simp_all add: Let_def)
  have none: "sl_state s \<noteq> DTR_METAL_SLOT_IN_FLIGHT" if "s \<in> set (r_slots ?r)" for s
    using r(2) that by (rule no_flights_no_in_flight)
  have idle: "\<not> slot_active s" if "\<not> r_admitting ?r" "s \<in> set (r_slots ?r)" for s
    using none [OF that(2)] renderer_invD(4) [OF r(1) that] by (simp add: slot_state_cases)
  show ?thesis using none idle retired_when_idle [OF r(1)] by (auto simp: Let_def slot_active_def)
qed

lemma commands_drain_witness:
  "\<not> r_admitting (completion_handler sample_flight (CommandFailed True) sample_drawn) \<and>
   retired_through_token (completion_handler sample_flight (CommandFailed True) sample_drawn) = 1"
proof -
  let ?r = "completion_handler sample_flight (CommandFailed True) sample_drawn"
  have "still_flying sample_flight sample_drawn"
    using metal_accepted_facts by (simp add: still_flying_def sample_flight_def sample_drawn_def drop_others_nth)
  then have "\<not> r_admitting ?r" "r_lastSubmissionToken ?r = 1"
    using metal_accepted_facts
    by (simp_all add: completion_handler_def recordFaultLocked_def free_flight_def sample_drawn_def)
  with commands_drain [OF sample_reachable, of "[(sample_flight, CommandFailed True)]"]
  show ?thesis by (simp add: Let_def)
qed

text \<open>
  C19. A view that is deallocated while a frame is READY strands the frame. \<open>viewWillDeallocate\<close>
  runs inside the view's deallocation, where the weak member already reads as null, so its
  branch is never taken: the frame stays READY, it can neither be drawn nor replaced, and the
  atlas refuses every upload and reset until the renderer is released.
\<close>

theorem deallocated_view_strands_frame:
  assumes "metal_step\<^sup>*\<^sup>* (new_metal c g) m" "r_view (m_renderer m) = Some v" "r_everBound (m_renderer m)"
    "s \<in> set (r_slots (m_renderer m))" "sl_state s = DTR_METAL_SLOT_READY"
  shows "let alive = (m_alive m)(v := False); r = viewWillDeallocate alive v (m_renderer m) in
    r = m_renderer m \<and> s \<in> set (r_slots r) \<and> retired_through_token r < sl_token s \<and>
    requestDraw alive r = (DTR_STATUS_NOT_FOUND, False) \<and>
    (\<forall>w. \<not> draw_has_ready alive w r) \<and>
    (\<forall>w bound layer. bindView alive w bound layer r = (DTR_STATUS_INVALID_ARGUMENT, r)) \<and>
    (\<forall>u pixels. fst (upload u pixels r) \<noteq> DTR_STATUS_OK) \<and>
    (\<forall>u. fst (resetAtlas u r) \<noteq> DTR_STATUS_OK)"
proof -
  let ?alive = "(m_alive m)(v := False)" and ?r = "m_renderer m"
  have inv: "renderer_inv ?r" using reachable_inv [OF assms(1)] by (simp add: metal_inv_def)
  have none: "weak_view ?alive ?r = None" by (simp add: weak_view_def assms(2))
  have active: "slot_active s" using assms(5) by (simp add: slot_active_def)
  then have busy: "hasActiveSlotsLocked ?r" using assms(4) by (auto simp: hasActiveSlotsLocked_def)
  have "retired_through_token ?r < sl_token s" using retired_spec [OF inv, of s] assms(4) active by blast
  then show ?thesis using assms(3,4) busy
    by (simp add: Let_def viewWillDeallocate_def none requestDraw_def draw_has_ready_def bindView_def
        upload_def resetAtlas_def)
qed

lemma deallocated_view_strands_frame_witness:
  "viewWillDeallocate ((\<lambda>_. True)(0 := False)) 0 metal_accepted = metal_accepted \<and>
   sl_state (r_slots metal_accepted ! 0) = DTR_METAL_SLOT_READY"
proof -
  have "r_everBound metal_accepted" by (simp add: metal_accepted_def accept_frame_def sample_bound_def Let_def)
  moreover have "r_slots metal_accepted ! 0 \<in> set (r_slots metal_accepted)"
    using metal_accepted_facts(4) by (intro nth_mem) simp
  ultimately show ?thesis
    using deallocated_view_strands_frame [OF metal_run(1), of 0 "r_slots metal_accepted ! 0"]
      metal_accepted_facts by (simp add: Let_def)
qed

end
