(* ===== verification/Dtr_Text_Input.thy ===== *)
theory Dtr_Text_Input
  imports Dtr_Abi
begin

text \<open>
  Text input of the terminal view, from
  \<^verbatim>\<open>packages/dart_terminal_renderer_macos/native/TerminalRendererPlugin.m\<close>: the packets that
  carry one key or composition event each (\<open>BuildTextInputPacket\<close>), the bounded queue that
  holds them (\<open>DtrTextInputQueue\<close>), the view's side, which AppKit calls, and the taking side,
  \<open>dtr_text_input_take_event\<close>. A queue is an object that the view and the global table share,
  so queues live at addresses of a heap.

  An \<open>NSString\<close> is its UTF-16 units. How it is encoded as UTF-8 is Foundation's matter and a
  parameter \<open>utf8\<close>, which can fail; the clock is a parameter too.
\<close>

section \<open>Packets\<close>

type_synonym nsstring = "u16 list"

abbreviation "DTR_TEXT_INPUT_EVENT_RAW_KEY_DOWN \<equiv> (1 :: u32)"
abbreviation "DTR_TEXT_INPUT_EVENT_RAW_KEY_UP \<equiv> (2 :: u32)"
abbreviation "DTR_TEXT_INPUT_EVENT_PREEDIT \<equiv> (3 :: u32)"
abbreviation "DTR_TEXT_INPUT_EVENT_COMMIT \<equiv> (4 :: u32)"
abbreviation "DTR_TEXT_INPUT_EVENT_CANCEL \<equiv> (5 :: u32)"
abbreviation "DTR_TEXT_INPUT_EVENT_OVERFLOW \<equiv> (6 :: u32)"
abbreviation "DTR_TEXT_INPUT_EVENT_REPEAT \<equiv> (1 :: u32)"
abbreviation "NSNotFound \<equiv> (0x7FFFFFFFFFFFFFFF :: u64)"

record NSRange =
  range_location :: u64
  range_length :: u64

definition no_range :: NSRange where
  "no_range = \<lparr>range_location = NSNotFound, range_length = 0\<rparr>"

record DtrTextInputEventHeaderV1 =
  te_magic :: u32
  te_version :: u32
  te_header_size :: u32
  te_total_size :: u32
  te_client_id :: u64
  te_event_generation :: u64
  te_monotonic_nanos :: u64
  te_kind :: u32
  te_flags :: u32
  te_key_code :: u32
  te_modifiers :: u32
  te_text_offset :: u32
  te_text_length :: u32
  te_unmodified_text_offset :: u32
  te_unmodified_text_length :: u32
  te_selection_location :: u32
  te_selection_length :: u32
  te_replacement_location :: u32
  te_replacement_length :: u32

definition text_event_layout :: "nat list" where
  "text_event_layout = [4, 4, 4, 4, 8, 8, 8, 4, 4, 4, 4, 4, 4, 4, 4, 4, 4, 4, 4, 4, 4]"

lemma text_event_size [simp]: "struct_sizeof text_event_layout = 96"
  by (simp add: struct_sizeof_def align_up_def text_event_layout_def)

lemma text_event_unpadded: "unpadded text_event_layout"
  by (simp add: unpadded_def) (simp add: text_event_layout_def)

definition header_members :: "DtrTextInputEventHeaderV1 \<Rightarrow> nat list" where
  "header_members h =
     [unat (te_magic h), unat (te_version h), unat (te_header_size h), unat (te_total_size h),
      unat (te_client_id h), unat (te_event_generation h), unat (te_monotonic_nanos h),
      unat (te_kind h), unat (te_flags h), unat (te_key_code h), unat (te_modifiers h),
      unat (te_text_offset h), unat (te_text_length h), unat (te_unmodified_text_offset h),
      unat (te_unmodified_text_length h), unat (te_selection_location h), unat (te_selection_length h),
      unat (te_replacement_location h), unat (te_replacement_length h), 0, 0]"

definition write_text_header :: "DtrTextInputEventHeaderV1 \<Rightarrow> byte list" where
  "write_text_header h = write_members text_event_layout (header_members h)"

definition read_text_header :: "byte list \<Rightarrow> DtrTextInputEventHeaderV1" where
  "read_text_header bs = (let m = read_members text_event_layout bs in
     \<lparr>te_magic = of_nat (m ! 0), te_version = of_nat (m ! 1), te_header_size = of_nat (m ! 2),
      te_total_size = of_nat (m ! 3), te_client_id = of_nat (m ! 4),
      te_event_generation = of_nat (m ! 5), te_monotonic_nanos = of_nat (m ! 6),
      te_kind = of_nat (m ! 7), te_flags = of_nat (m ! 8), te_key_code = of_nat (m ! 9),
      te_modifiers = of_nat (m ! 10), te_text_offset = of_nat (m ! 11), te_text_length = of_nat (m ! 12),
      te_unmodified_text_offset = of_nat (m ! 13), te_unmodified_text_length = of_nat (m ! 14),
      te_selection_location = of_nat (m ! 15), te_selection_length = of_nat (m ! 16),
      te_replacement_location = of_nat (m ! 17), te_replacement_length = of_nat (m ! 18)\<rparr>)"

text \<open>\<open>CLOCK_MONOTONIC_RAW\<close> as seconds and nanoseconds, or \<open>None\<close> when it cannot be read.\<close>

definition TextInputMonotonicNanos :: "(int \<times> int) option \<Rightarrow> u64" where
  "TextInputMonotonicNanos now = (case now of None \<Rightarrow> 0
   | Some (sec, nsec) \<Rightarrow>
     if sec < 0 \<or> nsec < 0 then 0
     else let seconds = word_of_int sec :: u64 in
       if INT64_MAX div 1000000000 < seconds then INT64_MAX
       else let value = seconds * 1000000000 + word_of_int nsec
         in if INT64_MAX < value then INT64_MAX else value)"

definition TextInputStableModifiers :: "u64 \<Rightarrow> u32" where
  "TextInputStableModifiers flags =
     (if bit flags 16 then 1 else 0) OR (if bit flags 17 then 2 else 0) OR
     (if bit flags 18 then 4 else 0) OR (if bit flags 19 then 8 else 0) OR
     (if bit flags 20 then 16 else 0) OR (if bit flags 21 then 32 else 0) OR
     (if bit flags 23 then 64 else 0)"

definition EncodeTextInputRange :: "NSRange \<Rightarrow> (u32 \<times> u32) option" where
  "EncodeTextInputRange r =
     (if range_location r = NSNotFound then Some (UINT32_MAX, 0)
      else if 0xFFFFFFFF < range_location r \<or> 0xFFFFFFFF < range_length r \<or>
        0xFFFFFFFF - range_length r < range_location r then None
      else Some (ucast (range_location r), ucast (range_length r)))"

record text_event =
  ev_kind :: u32
  ev_flags :: u32
  ev_keyCode :: u32
  ev_modifiers :: u32
  ev_text :: "nsstring option"
  ev_unmodifiedText :: "nsstring option"
  ev_selection :: NSRange
  ev_replacement :: NSRange

definition text_bytes :: "(nsstring \<Rightarrow> byte list option) \<Rightarrow> nsstring option \<Rightarrow> byte list option" where
  "text_bytes utf8 text = (case text of None \<Rightarrow> Some [] | Some s \<Rightarrow> utf8 s)"

definition BuildTextInputPacket ::
  "(nsstring \<Rightarrow> byte list option) \<Rightarrow> u64 \<Rightarrow> u64 \<Rightarrow> u64 \<Rightarrow> text_event \<Rightarrow> byte list option" where
  "BuildTextInputPacket utf8 now client generation e =
     (case (text_bytes utf8 (ev_text e), text_bytes utf8 (ev_unmodifiedText e)) of
        (Some text, Some unmodified) \<Rightarrow>
          if DTR_MAX_TEXT_INPUT_BYTES < length text \<or> DTR_MAX_TEXT_INPUT_BYTES < length unmodified
          then None
          else let size = struct_sizeof text_event_layout; total = size + length text + length unmodified in
            if 0xFFFFFFFF < total then None
            else (case (EncodeTextInputRange (ev_selection e), EncodeTextInputRange (ev_replacement e)) of
              (Some (sl, sn), Some (rl, rn)) \<Rightarrow>
                Some (write_text_header
                  \<lparr>te_magic = DTR_TEXT_INPUT_EVENT_MAGIC, te_version = DTR_TEXT_INPUT_EVENT_VERSION,
                   te_header_size = of_nat size, te_total_size = of_nat total, te_client_id = client,
                   te_event_generation = generation, te_monotonic_nanos = now, te_kind = ev_kind e,
                   te_flags = ev_flags e, te_key_code = ev_keyCode e, te_modifiers = ev_modifiers e,
                   te_text_offset = of_nat size, te_text_length = of_nat (length text),
                   te_unmodified_text_offset = of_nat (size + length text),
                   te_unmodified_text_length = of_nat (length unmodified),
                   te_selection_location = sl, te_selection_length = sn,
                   te_replacement_location = rl, te_replacement_length = rn\<rparr> @ text @ unmodified)
            | _ \<Rightarrow> None)
      | _ \<Rightarrow> None)"

section \<open>The queue\<close>

record DtrTextInputQueue =
  q_packets :: "byte list list"
  q_queuedBytes :: nat

definition empty_queue :: DtrTextInputQueue where
  "empty_queue = \<lparr>q_packets = [], q_queuedBytes = 0\<rparr>"

text \<open>Whether the last packet is a composition that a new one replaces.\<close>

definition last_is_preedit :: "DtrTextInputQueue \<Rightarrow> bool" where
  "last_is_preedit q \<longleftrightarrow> q_packets q \<noteq> [] \<and>
     struct_sizeof text_event_layout \<le> length (last (q_packets q)) \<and>
     te_kind (read_text_header (last (q_packets q))) = DTR_TEXT_INPUT_EVENT_PREEDIT"

definition coalesced_bytes :: "byte list \<Rightarrow> DtrTextInputQueue \<Rightarrow> nat" where
  "coalesced_bytes p q = q_queuedBytes q - length (last (q_packets q)) + length p"

definition enqueuePacket :: "byte list option \<Rightarrow> u32 \<Rightarrow> DtrTextInputQueue \<Rightarrow> bool \<times> DtrTextInputQueue" where
  "enqueuePacket packet kind q = (case packet of
     None \<Rightarrow> (False, q)
   | Some p \<Rightarrow>
     if DTR_MAX_TEXT_INPUT_QUEUE_BYTES < length p then (False, q)
     else if kind = DTR_TEXT_INPUT_EVENT_PREEDIT \<and> last_is_preedit q \<and>
         coalesced_bytes p q \<le> DTR_MAX_TEXT_INPUT_QUEUE_BYTES
       then (True, \<lparr>q_packets = butlast (q_packets q) @ [p], q_queuedBytes = coalesced_bytes p q\<rparr>)
     else if DTR_MAX_TEXT_INPUT_EVENTS \<le> length (q_packets q) \<or>
         DTR_MAX_TEXT_INPUT_QUEUE_BYTES - length p < q_queuedBytes q
       then (False, q)
     else (True, \<lparr>q_packets = q_packets q @ [p], q_queuedBytes = q_queuedBytes q + length p\<rparr>))"

definition replaceWithOverflowPacket :: "byte list option \<Rightarrow> DtrTextInputQueue" where
  "replaceWithOverflowPacket packet = (case packet of
     None \<Rightarrow> empty_queue
   | Some p \<Rightarrow> if length p \<le> DTR_MAX_TEXT_INPUT_QUEUE_BYTES
       then \<lparr>q_packets = [p], q_queuedBytes = length p\<rparr> else empty_queue)"

definition peekPacket :: "DtrTextInputQueue \<Rightarrow> byte list option" where
  "peekPacket q = (case q_packets q of [] \<Rightarrow> None | p # _ \<Rightarrow> Some p)"

definition removeFirstPacket :: "DtrTextInputQueue \<Rightarrow> DtrTextInputQueue" where
  "removeFirstPacket q = (case q_packets q of [] \<Rightarrow> q
   | p # ps \<Rightarrow> \<lparr>q_packets = ps, q_queuedBytes = q_queuedBytes q - length p\<rparr>)"

section \<open>The queues and the views\<close>

record text_input =
  ti_heap :: "nat \<Rightarrow> DtrTextInputQueue"
  ti_next :: nat
  ti_queues :: "u64 \<rightharpoonup> nat"

definition client_valid :: "u64 \<Rightarrow> bool" where
  "client_valid c \<longleftrightarrow> c \<noteq> 0 \<and> c \<le> INT64_MAX"

definition RegisterTextInputQueue :: "u64 \<Rightarrow> nat option \<Rightarrow> text_input \<Rightarrow> bool \<times> text_input" where
  "RegisterTextInputQueue client queue ti = (case queue of
     None \<Rightarrow> (False, ti)
   | Some q \<Rightarrow>
     if \<not> client_valid client then (False, ti)
     else if ti_queues ti client = None \<or> ti_queues ti client = Some q
     then (True, ti\<lparr>ti_queues := (ti_queues ti)(client \<mapsto> q)\<rparr>)
     else (False, ti))"

definition UnregisterTextInputQueue :: "u64 \<Rightarrow> nat option \<Rightarrow> text_input \<Rightarrow> text_input" where
  "UnregisterTextInputQueue client queue ti = (case queue of
     None \<Rightarrow> ti
   | Some q \<Rightarrow>
     if client = 0 then ti
     else if ti_queues ti client = Some q
     then ti\<lparr>ti_queues := (ti_queues ti)(client := None)\<rparr> else ti)"

record text_view =
  tv_textInputClientId :: u64
  tv_textInputQueue :: "nat option"
  tv_textInputEventGeneration :: u64
  tv_textInputGeometryGeneration :: u64
  tv_terminalMarkedText :: nsstring
  tv_terminalMarkedSelection :: NSRange
  tv_terminalRawKeyPosted :: bool

definition new_view :: text_view where
  "new_view = \<lparr>tv_textInputClientId = 0, tv_textInputQueue = None, tv_textInputEventGeneration = 0,
     tv_textInputGeometryGeneration = 0, tv_terminalMarkedText = [],
     tv_terminalMarkedSelection = \<lparr>range_location = 0, range_length = 0\<rparr>, tv_terminalRawKeyPosted = False\<rparr>"

definition clear_marked :: "text_view \<Rightarrow> text_view" where
  "clear_marked v = v\<lparr>tv_terminalMarkedText := [],
     tv_terminalMarkedSelection := \<lparr>range_location = 0, range_length = 0\<rparr>\<rparr>"

definition attachTextInputClient :: "u64 \<Rightarrow> text_view \<Rightarrow> text_input \<Rightarrow> bool \<times> text_view \<times> text_input" where
  "attachTextInputClient client v ti =
     (if \<not> client_valid client then (False, v, ti)
      else if tv_textInputClientId v = client \<and> tv_textInputQueue v \<noteq> None then (True, v, ti)
      else if tv_textInputClientId v \<noteq> 0 \<or> tv_textInputQueue v \<noteq> None then (False, v, ti)
      else let q = ti_next ti;
          allocated = ti\<lparr>ti_heap := (ti_heap ti)(q := empty_queue), ti_next := q + 1\<rparr>
        in case RegisterTextInputQueue client (Some q) allocated of
          (False, ti') \<Rightarrow> (False, v, ti')
        | (True, ti') \<Rightarrow> (True, clear_marked (v\<lparr>tv_textInputQueue := Some q, tv_textInputClientId := client,
            tv_textInputEventGeneration := 0, tv_textInputGeometryGeneration := 0\<rparr>), ti'))"

definition detachTextInputClient :: "text_view \<Rightarrow> text_input \<Rightarrow> text_view \<times> text_input" where
  "detachTextInputClient v ti =
     (clear_marked (v\<lparr>tv_textInputClientId := 0, tv_textInputQueue := None\<rparr>),
      UnregisterTextInputQueue (tv_textInputClientId v) (tv_textInputQueue v) ti)"

definition nextTextInputEventGeneration :: "text_view \<Rightarrow> text_view" where
  "nextTextInputEventGeneration v =
     (if tv_textInputEventGeneration v < INT64_MAX
      then v\<lparr>tv_textInputEventGeneration := tv_textInputEventGeneration v + 1\<rparr> else v)"

definition overflow_event :: text_event where
  "overflow_event = \<lparr>ev_kind = DTR_TEXT_INPUT_EVENT_OVERFLOW, ev_flags = 0, ev_keyCode = 0,
     ev_modifiers = 0, ev_text = None, ev_unmodifiedText = None, ev_selection = no_range,
     ev_replacement = no_range\<rparr>"

text \<open>
  \<open>enqueueTextInputKind\<close>, with the clock's readings for the packet and for the overflow
  packet. The notification of the listener has no effect on this state.
\<close>

definition enqueueTextInputKind ::
  "(nsstring \<Rightarrow> byte list option) \<Rightarrow> u64 \<times> u64 \<Rightarrow> text_event \<Rightarrow> text_view \<times> text_input \<Rightarrow> text_view \<times> text_input" where
  "enqueueTextInputKind utf8 now e s = (case s of (v, ti) \<Rightarrow>
     (case tv_textInputQueue v of
        None \<Rightarrow> s
      | Some q \<Rightarrow>
        if tv_textInputClientId v = 0 then s
        else let v1 = nextTextInputEventGeneration v;
            packet = BuildTextInputPacket utf8 (fst now) (tv_textInputClientId v)
              (tv_textInputEventGeneration v1) e
          in case enqueuePacket packet (ev_kind e) (ti_heap ti q) of
            (True, q') \<Rightarrow> (v1, ti\<lparr>ti_heap := (ti_heap ti)(q := q')\<rparr>)
          | (False, _) \<Rightarrow>
              let v2 = nextTextInputEventGeneration (clear_marked v1);
                overflow = BuildTextInputPacket utf8 (snd now) (tv_textInputClientId v)
                  (tv_textInputEventGeneration v2) overflow_event
              in (v2, ti\<lparr>ti_heap := (ti_heap ti)(q := replaceWithOverflowPacket overflow)\<rparr>)))"

section \<open>What AppKit calls\<close>

definition hasMarkedText :: "text_view \<Rightarrow> bool" where
  "hasMarkedText v \<longleftrightarrow> tv_terminalMarkedText v \<noteq> []"

text \<open>A key event: repeated, key code, modifier flags, the characters with and without modifiers.\<close>

record key_event =
  ke_isARepeat :: bool
  ke_keyCode :: u16
  ke_modifierFlags :: u64
  ke_characters :: "nsstring option"
  ke_charactersIgnoringModifiers :: "nsstring option"

definition enqueueRawKeyEvent ::
  "(nsstring \<Rightarrow> byte list option) \<Rightarrow> u64 \<times> u64 \<Rightarrow> key_event option \<Rightarrow> u32 \<Rightarrow> text_view \<times> text_input \<Rightarrow> text_view \<times> text_input" where
  "enqueueRawKeyEvent utf8 now event kind s = (case event of
     None \<Rightarrow> s
   | Some k \<Rightarrow>
     if tv_terminalRawKeyPosted (fst s) \<or> hasMarkedText (fst s) then s
     else enqueueTextInputKind utf8 now
       \<lparr>ev_kind = kind, ev_flags = (if ke_isARepeat k then DTR_TEXT_INPUT_EVENT_REPEAT else 0),
        ev_keyCode = ucast (ke_keyCode k), ev_modifiers = TextInputStableModifiers (ke_modifierFlags k),
        ev_text = ke_characters k, ev_unmodifiedText = ke_charactersIgnoringModifiers k,
        ev_selection = no_range, ev_replacement = no_range\<rparr>
       ((fst s)\<lparr>tv_terminalRawKeyPosted := True\<rparr>, snd s))"

definition plain_event :: "u32 \<Rightarrow> nsstring option \<Rightarrow> NSRange \<Rightarrow> NSRange \<Rightarrow> text_event" where
  "plain_event kind text selection replacement =
     \<lparr>ev_kind = kind, ev_flags = 0, ev_keyCode = 0, ev_modifiers = 0, ev_text = text,
      ev_unmodifiedText = None, ev_selection = selection, ev_replacement = replacement\<rparr>"

definition unmarkText ::
  "(nsstring \<Rightarrow> byte list option) \<Rightarrow> u64 \<times> u64 \<Rightarrow> text_view \<times> text_input \<Rightarrow> text_view \<times> text_input" where
  "unmarkText utf8 now s =
     (if \<not> hasMarkedText (fst s) then s
      else enqueueTextInputKind utf8 now (plain_event DTR_TEXT_INPUT_EVENT_CANCEL None no_range no_range)
        (clear_marked (fst s), snd s))"

definition selection_outside :: "NSRange \<Rightarrow> nsstring \<Rightarrow> bool" where
  "selection_outside r text \<longleftrightarrow> range_location r = NSNotFound \<or> length text < unat (range_location r) \<or>
     length text - unat (range_location r) < unat (range_length r)"

text \<open>The text is \<open>None\<close> when what AppKit passes is no string.\<close>

definition setMarkedText ::
  "(nsstring \<Rightarrow> byte list option) \<Rightarrow> u64 \<times> u64 \<Rightarrow> nsstring option \<Rightarrow> NSRange \<Rightarrow> NSRange \<Rightarrow>
    text_view \<times> text_input \<Rightarrow> text_view \<times> text_input" where
  "setMarkedText utf8 now value selected replacement s = (case value of
     None \<Rightarrow> enqueueTextInputKind utf8 now overflow_event s
   | Some text \<Rightarrow>
     if selection_outside selected text then enqueueTextInputKind utf8 now overflow_event s
     else if text = [] then unmarkText utf8 now s
     else enqueueTextInputKind utf8 now
       (plain_event DTR_TEXT_INPUT_EVENT_PREEDIT (Some text) selected replacement)
       ((fst s)\<lparr>tv_terminalMarkedText := text, tv_terminalMarkedSelection := selected\<rparr>, snd s))"

definition insertText ::
  "(nsstring \<Rightarrow> byte list option) \<Rightarrow> u64 \<times> u64 \<Rightarrow> nsstring option \<Rightarrow> NSRange \<Rightarrow>
    text_view \<times> text_input \<Rightarrow> text_view \<times> text_input" where
  "insertText utf8 now value replacement s = (case value of
     None \<Rightarrow> s
   | Some text \<Rightarrow> enqueueTextInputKind utf8 now
       (plain_event DTR_TEXT_INPUT_EVENT_COMMIT (Some text) no_range replacement)
       (clear_marked (fst s), snd s))"

text \<open>
  What the input context calls back while it handles a key, and \<open>keyDown\<close> around it: the
  calls it makes and whether it claims the event are arguments.
\<close>

datatype client_call =
  SetMarkedText "nsstring option" NSRange NSRange
| UnmarkText
| InsertText "nsstring option" NSRange
| DoCommandBySelector

definition client_step ::
  "(nsstring \<Rightarrow> byte list option) \<Rightarrow> key_event option \<Rightarrow> client_call \<times> (u64 \<times> u64) \<Rightarrow>
    text_view \<times> text_input \<Rightarrow> text_view \<times> text_input" where
  "client_step utf8 active c s = (case c of
     (SetMarkedText value selected replacement, now) \<Rightarrow> setMarkedText utf8 now value selected replacement s
   | (UnmarkText, now) \<Rightarrow> unmarkText utf8 now s
   | (InsertText value replacement, now) \<Rightarrow> insertText utf8 now value replacement s
   | (DoCommandBySelector, now) \<Rightarrow>
       enqueueRawKeyEvent utf8 now active DTR_TEXT_INPUT_EVENT_RAW_KEY_DOWN s)"

definition set_posted :: "bool \<Rightarrow> text_view \<times> text_input \<Rightarrow> text_view \<times> text_input" where
  "set_posted b s = ((fst s)\<lparr>tv_terminalRawKeyPosted := b\<rparr>, snd s)"

definition keyDown ::
  "(nsstring \<Rightarrow> byte list option) \<Rightarrow> u64 \<times> u64 \<Rightarrow> key_event \<Rightarrow> (client_call \<times> (u64 \<times> u64)) list \<Rightarrow> bool \<Rightarrow>
    text_view \<times> text_input \<Rightarrow> text_view \<times> text_input" where
  "keyDown utf8 now event calls handled s =
     (if tv_textInputClientId (fst s) = 0 then s
      else let s1 = fold (client_step utf8 (Some event)) calls (set_posted False s);
          s2 = (if handled then s1
            else enqueueRawKeyEvent utf8 now (Some event) DTR_TEXT_INPUT_EVENT_RAW_KEY_DOWN s1)
        in set_posted False s2)"

definition keyUp ::
  "(nsstring \<Rightarrow> byte list option) \<Rightarrow> u64 \<times> u64 \<Rightarrow> key_event \<Rightarrow> text_view \<times> text_input \<Rightarrow> text_view \<times> text_input" where
  "keyUp utf8 now event s =
     (if tv_textInputClientId (fst s) = 0 then s
      else set_posted False
        (enqueueRawKeyEvent utf8 now (Some event) DTR_TEXT_INPUT_EVENT_RAW_KEY_UP (set_posted False s)))"

section \<open>Taking packets\<close>

text \<open>
  \<open>dtr_text_input_take_event\<close>; \<open>output\<close> and \<open>required\<close> tell whether these pointers are not null.
  The answer carries what is written to \<open>output_required\<close> and to the buffer.
\<close>

record take_result =
  tk_status :: DtrStatus
  tk_required :: "nat option"
  tk_packet :: "byte list option"

definition take_event ::
  "u64 \<Rightarrow> bool \<Rightarrow> u32 \<Rightarrow> bool \<Rightarrow> text_input \<Rightarrow> take_result \<times> text_input" where
  "take_event client output capacity required ti =
     (if \<not> client_valid client \<or> \<not> required \<or> (\<not> output \<and> capacity \<noteq> 0)
      then (\<lparr>tk_status = DTR_STATUS_INVALID_ARGUMENT, tk_required = None, tk_packet = None\<rparr>, ti)
      else case Option.bind (ti_queues ti client) (\<lambda>q. peekPacket (ti_heap ti q)) of
        None \<Rightarrow> (\<lparr>tk_status = DTR_STATUS_NOT_FOUND, tk_required = Some 0, tk_packet = None\<rparr>, ti)
      | Some p \<Rightarrow>
        if \<not> output \<or> unat capacity < length p
        then (\<lparr>tk_status = DTR_STATUS_BUFFER_TOO_SMALL, tk_required = Some (length p), tk_packet = None\<rparr>, ti)
        else (\<lparr>tk_status = DTR_STATUS_OK, tk_required = Some (length p), tk_packet = Some p\<rparr>,
          let q = the (ti_queues ti client)
          in ti\<lparr>ti_heap := (ti_heap ti)(q := removeFirstPacket (ti_heap ti q))\<rparr>))"

end
