(* ===== verification/Dtr_Accessibility.thy ===== *)
theory Dtr_Accessibility
  imports Complex_Main Dtr_Renderer Dtr_Text_Input
begin

text \<open>
  The accessibility document of a terminal view, from
  \<^verbatim>\<open>packages/dart_terminal_renderer_macos/native/TerminalRendererPlugin.m\<close>: the text of the
  viewport with its lines, and for each line the offsets at which its columns start. The view
  replaces its document by a newer one only if that one is consistent, and answers the
  questions of assistive software from it.

  A double that crosses the interface is its exact value, or \<open>None\<close> when it is not finite; the
  document only compares them. Geometry on the screen, which computes with them, is left out.
  How text is encoded and how characters are composed is Foundation's matter: \<open>decode\<close>, \<open>encode\<close>
  and \<open>composed\<close> are parameters.
\<close>

section \<open>The structures\<close>

abbreviation "DTR_ACCESSIBILITY_SNAPSHOT_VERSION \<equiv> (2 :: u32)"
abbreviation "DTR_MAX_ACCESSIBILITY_UTF8_BYTES \<equiv> (4194304 :: u32)"
abbreviation "DTR_MAX_ACCESSIBILITY_UTF16_UNITS \<equiv> (2097152 :: u32)"
abbreviation "DTR_MAX_ACCESSIBILITY_LINES \<equiv> (4096 :: u32)"
abbreviation "DTR_MAX_ACCESSIBILITY_COLUMN_BOUNDARIES \<equiv> (1052672 :: u32)"
abbreviation "DTR_MAX_ACCESSIBILITY_PACKET_BYTES \<equiv> (9437184 :: nat)"
abbreviation "DTR_ACCESSIBILITY_HAS_SELECTION \<equiv> (1 :: u32)"
abbreviation "DTR_ACCESSIBILITY_HAS_CURSOR \<equiv> (2 :: u32)"
abbreviation "DTR_ACCESSIBILITY_KNOWN_FLAGS \<equiv> (3 :: u32)"

type_synonym double = "rat option"

text \<open>The value of the 64 bits of a double: sign, eleven bits of exponent, 52 bits of fraction.\<close>

definition double_of :: "nat \<Rightarrow> double" where
  "double_of n = (let e = n div 2 ^ 52 mod 2 ^ 11; m = n mod 2 ^ 52;
       sign = (if 2 ^ 63 \<le> n then - 1 else 1 :: rat)
     in if e = 2047 then None
        else if e = 0 then Some (sign * of_nat m / 2 ^ 1074)
        else Some (sign * of_nat (2 ^ 52 + m) * 2 ^ e / 2 ^ 1075))"

record DtrAccessibilitySnapshotHeaderV2 =
  ah_struct_size :: u32
  ah_version :: u32
  ah_operation :: u32
  ah_flags :: u32
  ah_generation :: u64
  ah_rows :: u32
  ah_columns :: u32
  ah_utf8_length :: u32
  ah_utf16_length :: u32
  ah_line_count :: u32
  ah_column_boundary_count :: u32
  ah_selection_location :: u32
  ah_selection_length :: u32
  ah_cursor_location :: u32
  ah_cursor_row :: u32
  ah_cursor_column :: u32
  ah_reserved0 :: u32
  ah_cell_width :: double
  ah_cell_height :: double
  ah_content_origin_x :: double
  ah_content_origin_y :: double
  ah_lines_offset :: u32
  ah_column_boundaries_offset :: u32
  ah_text_offset :: u32
  ah_total_size :: u32
  ah_reserved :: "u32 list"

record DtrAccessibilityLineV1 =
  al_row :: u32
  al_utf16_start :: u32
  al_utf16_length :: u32
  al_first_column_boundary :: u32
  al_column_boundary_count :: u32

definition accessibility_layout :: "nat list" where
  "accessibility_layout = [4, 4, 4, 4, 8, 4, 4, 4, 4, 4, 4, 4, 4, 4, 4, 4, 4, 8, 8, 8, 8, 4, 4, 4, 4, 4, 4, 4, 4]"

definition accessibility_line_layout :: "nat list" where
  "accessibility_line_layout = [4, 4, 4, 4, 4]"

lemma accessibility_sizes [simp]:
  "struct_sizeof accessibility_layout = 136" "struct_sizeof accessibility_line_layout = 20"
  by (simp_all add: struct_sizeof_def align_up_def accessibility_layout_def accessibility_line_layout_def)

lemma accessibility_unpadded: "unpadded accessibility_layout" "unpadded accessibility_line_layout"
  by (simp_all add: unpadded_def) (simp_all add: accessibility_layout_def accessibility_line_layout_def)

definition read_accessibility_header :: "byte list \<Rightarrow> DtrAccessibilitySnapshotHeaderV2" where
  "read_accessibility_header bs = (let m = read_members accessibility_layout bs in
     \<lparr>ah_struct_size = of_nat (m ! 0), ah_version = of_nat (m ! 1), ah_operation = of_nat (m ! 2),
      ah_flags = of_nat (m ! 3), ah_generation = of_nat (m ! 4), ah_rows = of_nat (m ! 5),
      ah_columns = of_nat (m ! 6), ah_utf8_length = of_nat (m ! 7), ah_utf16_length = of_nat (m ! 8),
      ah_line_count = of_nat (m ! 9), ah_column_boundary_count = of_nat (m ! 10),
      ah_selection_location = of_nat (m ! 11), ah_selection_length = of_nat (m ! 12),
      ah_cursor_location = of_nat (m ! 13), ah_cursor_row = of_nat (m ! 14),
      ah_cursor_column = of_nat (m ! 15), ah_reserved0 = of_nat (m ! 16),
      ah_cell_width = double_of (m ! 17), ah_cell_height = double_of (m ! 18),
      ah_content_origin_x = double_of (m ! 19), ah_content_origin_y = double_of (m ! 20),
      ah_lines_offset = of_nat (m ! 21), ah_column_boundaries_offset = of_nat (m ! 22),
      ah_text_offset = of_nat (m ! 23), ah_total_size = of_nat (m ! 24),
      ah_reserved = map of_nat (drop 25 m)\<rparr>)"

definition read_accessibility_line :: "byte list \<Rightarrow> DtrAccessibilityLineV1" where
  "read_accessibility_line bs = (let m = read_members accessibility_line_layout bs in
     \<lparr>al_row = of_nat (m ! 0), al_utf16_start = of_nat (m ! 1), al_utf16_length = of_nat (m ! 2),
      al_first_column_boundary = of_nat (m ! 3), al_column_boundary_count = of_nat (m ! 4)\<rparr>)"

section \<open>The document of a view\<close>

record accessibility =
  ax_text :: nsstring
  ax_lines :: "DtrAccessibilityLineV1 list"
  ax_boundaries :: "u32 list"
  ax_generation :: u64
  ax_rows :: u32
  ax_columns :: u32
  ax_selection :: NSRange
  ax_has_selection :: bool
  ax_cursor :: NSRange
  ax_cursor_row :: u32
  ax_cursor_column :: u32
  ax_cell_width :: double
  ax_cell_height :: double
  ax_content_origin_x :: double
  ax_content_origin_y :: double
  ax_value_notifications :: u64
  ax_selection_notifications :: u64
  ax_focus_notifications :: u64

definition new_accessibility :: accessibility where
  "new_accessibility = \<lparr>ax_text = [], ax_lines = [], ax_boundaries = [], ax_generation = 0, ax_rows = 0,
     ax_columns = 0, ax_selection = \<lparr>range_location = 0, range_length = 0\<rparr>, ax_has_selection = False,
     ax_cursor = no_range, ax_cursor_row = UINT32_MAX, ax_cursor_column = UINT32_MAX,
     ax_cell_width = Some 1, ax_cell_height = Some 1, ax_content_origin_x = Some 0,
     ax_content_origin_y = Some 0, ax_value_notifications = 0, ax_selection_notifications = 0,
     ax_focus_notifications = 0\<rparr>"

section \<open>Replacing the document\<close>

definition size_rejected :: "double \<Rightarrow> bool" where
  "size_rejected d = (case d of None \<Rightarrow> True | Some x \<Rightarrow> x \<le> 0)"

definition origin_rejected :: "double \<Rightarrow> bool" where
  "origin_rejected d = (case d of None \<Rightarrow> True | Some x \<Rightarrow> x < 0 \<or> 4096 < x)"

definition accessibility_header_rejected :: "DtrAccessibilitySnapshotHeaderV2 \<Rightarrow> accessibility \<Rightarrow> bool" where
  "accessibility_header_rejected h v \<longleftrightarrow>
     ah_generation h = 0 \<or> INT64_MAX < ah_generation h \<or> ah_generation h \<le> ax_generation v \<or>
     ah_rows h = 0 \<or> DTR_MAX_ACCESSIBILITY_LINES < ah_rows h \<or> ah_columns h = 0 \<or> 4096 < ah_columns h \<or>
     ah_line_count h \<noteq> ah_rows h \<or> DTR_MAX_ACCESSIBILITY_UTF8_BYTES < ah_utf8_length h \<or>
     DTR_MAX_ACCESSIBILITY_UTF16_UNITS < ah_utf16_length h \<or> ah_column_boundary_count h = 0 \<or>
     DTR_MAX_ACCESSIBILITY_COLUMN_BOUNDARIES < ah_column_boundary_count h \<or>
     size_rejected (ah_cell_width h) \<or> size_rejected (ah_cell_height h) \<or>
     origin_rejected (ah_content_origin_x h) \<or> origin_rejected (ah_content_origin_y h)"

definition accessibility_text ::
  "(byte list \<Rightarrow> nsstring option) \<Rightarrow> (nsstring \<Rightarrow> byte list option) \<Rightarrow> DtrAccessibilitySnapshotHeaderV2 \<Rightarrow>
    byte list \<Rightarrow> nsstring option" where
  "accessibility_text decode encode h text = (case decode text of
     None \<Rightarrow> None
   | Some value \<Rightarrow>
     if length value \<noteq> unat (ah_utf16_length h) \<or> encode value \<noteq> Some text then None else Some value)"

definition splits_pair :: "nsstring \<Rightarrow> DtrAccessibilitySnapshotHeaderV2 \<Rightarrow> u32 \<Rightarrow> bool" where
  "splits_pair value h a \<longleftrightarrow> 0 < a \<and> a < ah_utf16_length h \<and>
     0xD800 \<le> value ! (unat a - 1) \<and> value ! (unat a - 1) \<le> 0xDBFF \<and>
     0xDC00 \<le> value ! unat a \<and> value ! unat a \<le> 0xDFFF"

text \<open>
  The loop over the column boundaries of a line; the pair tells whether the start and the end of
  the selection were met.
\<close>

fun check_boundaries ::
  "nsstring \<Rightarrow> DtrAccessibilitySnapshotHeaderV2 \<Rightarrow> DtrAccessibilityLineV1 \<Rightarrow> u32 \<Rightarrow> bool \<times> bool \<Rightarrow>
    u32 list \<Rightarrow> (bool \<times> bool) option" where
  "check_boundaries value h line previous met [] = Some met"
| "check_boundaries value h line previous met (b # bs) =
     (let absolute = al_utf16_start line + b in
      if b < previous \<or> al_utf16_length line < b \<or> splits_pair value h absolute then None
      else check_boundaries value h line b
        (fst met \<or> absolute = ah_selection_location h,
         snd met \<or> (ucast absolute :: u64) = ucast (ah_selection_location h) + ucast (ah_selection_length h)) bs)"

definition line_boundaries :: "DtrAccessibilityLineV1 \<Rightarrow> u32 list \<Rightarrow> u32 list" where
  "line_boundaries line boundaries =
     take (unat (al_column_boundary_count line)) (drop (unat (al_first_column_boundary line)) boundaries)"

definition line_rejected ::
  "DtrAccessibilitySnapshotHeaderV2 \<Rightarrow> u32 list \<Rightarrow> u32 \<Rightarrow> u32 \<Rightarrow> u32 \<Rightarrow> DtrAccessibilityLineV1 \<Rightarrow> bool" where
  "line_rejected h boundaries row start bound line \<longleftrightarrow>
     al_row line \<noteq> row \<or> al_utf16_start line \<noteq> start \<or> ah_utf16_length h < al_utf16_start line \<or>
     ah_utf16_length h - al_utf16_start line < al_utf16_length line \<or>
     al_first_column_boundary line \<noteq> bound \<or> al_column_boundary_count line = 0 \<or>
     ah_columns h + 1 < al_column_boundary_count line \<or> ah_column_boundary_count h < bound \<or>
     ah_column_boundary_count h - bound < al_column_boundary_count line \<or>
     hd (line_boundaries line boundaries) \<noteq> 0 \<or>
     last (line_boundaries line boundaries) \<noteq> al_utf16_length line"

text \<open>The loop over the lines, with the start and the boundary that are expected next.\<close>

fun check_lines ::
  "nsstring \<Rightarrow> DtrAccessibilitySnapshotHeaderV2 \<Rightarrow> u32 list \<Rightarrow> u32 \<Rightarrow> u32 \<Rightarrow> u32 \<Rightarrow> bool \<times> bool \<Rightarrow>
    DtrAccessibilityLineV1 list \<Rightarrow> (u32 \<times> u32 \<times> (bool \<times> bool)) option" where
  "check_lines value h boundaries row start bound met [] = Some (start, bound, met)"
| "check_lines value h boundaries row start bound met (line # lines) =
     (if line_rejected h boundaries row start bound line then None
      else case check_boundaries value h line 0 met (line_boundaries line boundaries) of
        None \<Rightarrow> None
      | Some met' \<Rightarrow>
        let bound' = bound + al_column_boundary_count line;
            stop = al_utf16_start line + al_utf16_length line
        in if row + 1 < ah_rows h
           then (if ah_utf16_length h \<le> stop \<or> value ! unat stop \<noteq> 10 then None
                 else check_lines value h boundaries (row + 1) (stop + 1) bound' met' lines)
           else check_lines value h boundaries (row + 1) stop bound' met' lines)"

definition has_flag :: "DtrAccessibilitySnapshotHeaderV2 \<Rightarrow> u32 \<Rightarrow> bool" where
  "has_flag h f \<longleftrightarrow> ah_flags h AND f \<noteq> 0"

definition selection_rejected :: "DtrAccessibilitySnapshotHeaderV2 \<Rightarrow> u32 \<times> u32 \<times> (bool \<times> bool) \<Rightarrow> bool" where
  "selection_rejected h result = (case result of (start, bound, met) \<Rightarrow>
     start \<noteq> ah_utf16_length h \<or> bound \<noteq> ah_column_boundary_count h \<or>
     ah_utf16_length h < ah_selection_location h \<or>
     ah_utf16_length h - ah_selection_location h < ah_selection_length h \<or> \<not> fst met \<or> \<not> snd met \<or>
     has_flag h DTR_ACCESSIBILITY_HAS_SELECTION \<noteq> (0 < ah_selection_length h))"

definition cursor_rejected ::
  "DtrAccessibilitySnapshotHeaderV2 \<Rightarrow> DtrAccessibilityLineV1 list \<Rightarrow> u32 list \<Rightarrow> bool" where
  "cursor_rejected h lines boundaries \<longleftrightarrow>
     (if has_flag h DTR_ACCESSIBILITY_HAS_CURSOR
      then ah_utf16_length h < ah_cursor_location h \<or> ah_rows h \<le> ah_cursor_row h \<or>
        (let line = lines ! unat (ah_cursor_row h)
         in al_column_boundary_count line \<le> ah_cursor_column h \<or>
            ah_cursor_location h \<noteq> al_utf16_start line +
              boundaries ! (unat (al_first_column_boundary line + ah_cursor_column h)) \<or>
            (\<not> has_flag h DTR_ACCESSIBILITY_HAS_SELECTION \<and>
             (ah_selection_location h \<noteq> ah_cursor_location h \<or> ah_selection_length h \<noteq> 0)))
      else ah_cursor_location h \<noteq> UINT32_MAX \<or> ah_cursor_row h \<noteq> UINT32_MAX \<or>
        ah_cursor_column h \<noteq> UINT32_MAX \<or>
        (\<not> has_flag h DTR_ACCESSIBILITY_HAS_SELECTION \<and>
         (ah_selection_location h \<noteq> 0 \<or> ah_selection_length h \<noteq> 0)))"

definition store_accessibility ::
  "DtrAccessibilitySnapshotHeaderV2 \<Rightarrow> DtrAccessibilityLineV1 list \<Rightarrow> u32 list \<Rightarrow> nsstring \<Rightarrow>
    accessibility \<Rightarrow> accessibility" where
  "store_accessibility h lines boundaries value v =
     (let has_cursor = has_flag h DTR_ACCESSIBILITY_HAS_CURSOR;
          has_selection = has_flag h DTR_ACCESSIBILITY_HAS_SELECTION;
          selection = \<lparr>range_location = ucast (ah_selection_location h), range_length = ucast (ah_selection_length h)\<rparr>;
          cursor = (if has_cursor then \<lparr>range_location = ucast (ah_cursor_location h), range_length = 0\<rparr> else no_range);
          cursor_row = (if has_cursor then ah_cursor_row h else UINT32_MAX);
          cursor_column = (if has_cursor then ah_cursor_column h else UINT32_MAX);
          value_changed = (ax_text v \<noteq> value \<or> ax_lines v \<noteq> lines \<or> ax_boundaries v \<noteq> boundaries \<or>
            ax_rows v \<noteq> ah_rows h \<or> ax_columns v \<noteq> ah_columns h \<or> ax_cell_width v \<noteq> ah_cell_width h \<or>
            ax_cell_height v \<noteq> ah_cell_height h \<or> ax_content_origin_x v \<noteq> ah_content_origin_x h \<or>
            ax_content_origin_y v \<noteq> ah_content_origin_y h);
          selection_changed = (ax_selection v \<noteq> selection \<or> ax_has_selection v \<noteq> has_selection \<or>
            ax_cursor v \<noteq> cursor \<or> ax_cursor_row v \<noteq> cursor_row \<or> ax_cursor_column v \<noteq> cursor_column)
      in v\<lparr>ax_text := value, ax_lines := lines, ax_boundaries := boundaries, ax_generation := ah_generation h,
           ax_rows := ah_rows h, ax_columns := ah_columns h, ax_selection := selection,
           ax_has_selection := has_selection, ax_cursor := cursor, ax_cursor_row := cursor_row,
           ax_cursor_column := cursor_column, ax_cell_width := ah_cell_width h,
           ax_cell_height := ah_cell_height h, ax_content_origin_x := ah_content_origin_x h,
           ax_content_origin_y := ah_content_origin_y h,
           ax_value_notifications := (if value_changed
             then SaturatingIncrementMetric (ax_value_notifications v) else ax_value_notifications v),
           ax_selection_notifications := (if selection_changed
             then SaturatingIncrementMetric (ax_selection_notifications v) else ax_selection_notifications v)\<rparr>)"

text \<open>
  The three pointers are those of the packet, so they are not null, and carry as many lines,
  boundaries and bytes as the header says.
\<close>

definition updateAccessibilitySnapshot ::
  "(byte list \<Rightarrow> nsstring option) \<Rightarrow> (nsstring \<Rightarrow> byte list option) \<Rightarrow> DtrAccessibilitySnapshotHeaderV2 \<Rightarrow>
    DtrAccessibilityLineV1 list \<Rightarrow> u32 list \<Rightarrow> byte list \<Rightarrow> accessibility \<Rightarrow> bool \<times> accessibility" where
  "updateAccessibilitySnapshot decode encode h lines boundaries text v =
     (if accessibility_header_rejected h v then (False, v)
      else case accessibility_text decode encode h text of
        None \<Rightarrow> (False, v)
      | Some value \<Rightarrow>
        (case check_lines value h boundaries 0 0 0 (False, False) lines of
           None \<Rightarrow> (False, v)
         | Some result \<Rightarrow>
           if selection_rejected h result \<or> cursor_rejected h lines boundaries then (False, v)
           else (True, store_accessibility h lines boundaries value v)))"

section \<open>Questions\<close>

text \<open>Indices are \<open>NSUInteger\<close>s that the sums of 32-bit members cannot wrap, so they are \<open>nat\<close>s.\<close>

definition terminalAccessibilityLineAtIndex :: "nat \<Rightarrow> accessibility \<Rightarrow> DtrAccessibilityLineV1 option" where
  "terminalAccessibilityLineAtIndex i v =
     (if unat (ax_rows v) \<le> i \<or> length (ax_lines v) \<noteq> unat (ax_rows v) then None else Some (ax_lines v ! i))"

definition terminalAccessibilityBoundariesForLine :: "DtrAccessibilityLineV1 \<Rightarrow> accessibility \<Rightarrow> u32 list option" where
  "terminalAccessibilityBoundariesForLine line v =
     (let count = length (ax_boundaries v) in
      if count < unat (al_first_column_boundary line) \<or>
         count - unat (al_first_column_boundary line) < unat (al_column_boundary_count line)
      then None else Some (line_boundaries line (ax_boundaries v)))"

definition line_end :: "DtrAccessibilityLineV1 \<Rightarrow> nat" where
  "line_end line = unat (al_utf16_start line) + unat (al_utf16_length line)"

fun find_line :: "nat \<Rightarrow> nat \<Rightarrow> nat \<Rightarrow> DtrAccessibilityLineV1 list \<Rightarrow> nat option" where
  "find_line rows index row [] = None"
| "find_line rows index row (line # lines) =
     (if index \<le> line_end line \<or> row + 1 = rows then Some row else find_line rows index (row + 1) lines)"

text \<open>\<open>None\<close> is \<open>NSNotFound\<close>. The loop ends at once when the lines are not those of the rows.\<close>

definition terminalAccessibilityLineForUtf16Index :: "nat \<Rightarrow> accessibility \<Rightarrow> nat option" where
  "terminalAccessibilityLineForUtf16Index index v =
     (if length (ax_text v) < index \<or> length (ax_lines v) \<noteq> unat (ax_rows v) then None
      else find_line (unat (ax_rows v)) index 0 (ax_lines v))"

text \<open>The loop over the columns of a line, with the column at which the current group starts.\<close>

fun find_column :: "nat \<Rightarrow> nat \<Rightarrow> nat \<Rightarrow> nat \<Rightarrow> u32 list \<Rightarrow> nat" where
  "find_column 0 relative leader column boundaries = length boundaries - 1"
| "find_column (Suc k) relative leader column boundaries =
     (let leader' = (if boundaries ! column \<noteq> boundaries ! leader then column else leader) in
      if relative < unat (boundaries ! (column + 1)) \<or> relative = unat (boundaries ! column) then leader'
      else find_column k relative leader' (column + 1) boundaries)"

definition terminalAccessibilityColumnForLine :: "DtrAccessibilityLineV1 \<Rightarrow> nat \<Rightarrow> accessibility \<Rightarrow> nat" where
  "terminalAccessibilityColumnForLine line index v =
     (case terminalAccessibilityBoundariesForLine line v of None \<Rightarrow> 0
      | Some boundaries \<Rightarrow>
        if al_column_boundary_count line = 0 then 0
        else let requested = (if index \<le> unat (al_utf16_start line) then 0 else index - unat (al_utf16_start line));
            relative = (if requested < unat (al_utf16_length line) then requested else unat (al_utf16_length line))
          in find_column (length boundaries - 1) relative 0 0 boundaries)"

text \<open>A range in \<open>nat\<close>s; \<open>None\<close> is the range of \<open>NSNotFound\<close>.\<close>

definition in_text :: "NSRange \<Rightarrow> accessibility \<Rightarrow> bool" where
  "in_text r v \<longleftrightarrow> range_location r \<noteq> NSNotFound \<and> unat (range_location r) \<le> length (ax_text v) \<and>
     unat (range_length r) \<le> length (ax_text v) - unat (range_location r)"

definition accessibilityStringForRange :: "NSRange \<Rightarrow> accessibility \<Rightarrow> nsstring option" where
  "accessibilityStringForRange r v =
     (if in_text r v then Some (take (unat (range_length r)) (drop (unat (range_location r)) (ax_text v))) else None)"

text \<open>\<open>NSMaxRange\<close> adds in 64 bits; a selection that was stored is in range.\<close>

definition accessibilitySelectedText :: "accessibility \<Rightarrow> nsstring" where
  "accessibilitySelectedText v = (let r = ax_selection v in
     if unat (range_location r + range_length r) \<le> length (ax_text v)
     then take (unat (range_length r)) (drop (unat (range_location r)) (ax_text v)) else [])"

definition accessibilityInsertionPointLineNumber :: "accessibility \<Rightarrow> nat option" where
  "accessibilityInsertionPointLineNumber v =
     (if range_location (ax_cursor v) = NSNotFound then None else Some (unat (ax_cursor_row v)))"

definition accessibilityLineForIndex :: "int \<Rightarrow> accessibility \<Rightarrow> nat option" where
  "accessibilityLineForIndex index v =
     (if index < 0 then None else terminalAccessibilityLineForUtf16Index (nat index) v)"

definition accessibilityRangeForLine :: "int \<Rightarrow> accessibility \<Rightarrow> (nat \<times> nat) option" where
  "accessibilityRangeForLine number v =
     (if number < 0 \<or> unat (ax_rows v) \<le> nat number then None
      else case terminalAccessibilityLineAtIndex (nat number) v of
        None \<Rightarrow> None
      | Some line \<Rightarrow> Some (unat (al_utf16_start line),
          unat (al_utf16_length line) + (if nat number + 1 < unat (ax_rows v) then 1 else 0)))"

text \<open>\<open>composed\<close> is the range of the composed character at an index of a string.\<close>

definition accessibilityRangeForIndex ::
  "(nsstring \<Rightarrow> nat \<Rightarrow> nat \<times> nat) \<Rightarrow> int \<Rightarrow> accessibility \<Rightarrow> (nat \<times> nat) option" where
  "accessibilityRangeForIndex composed index v =
     (if index < 0 \<or> length (ax_text v) < nat index then None
      else if nat index = length (ax_text v) then Some (nat index, 0)
      else Some (composed (ax_text v) (nat index)))"

definition accessibilityStyleRangeForIndex :: "int \<Rightarrow> accessibility \<Rightarrow> (nat \<times> nat) option" where
  "accessibilityStyleRangeForIndex index v = (case accessibilityLineForIndex index v of
     None \<Rightarrow> None | Some line \<Rightarrow> accessibilityRangeForLine (int line) v)"

text \<open>
  \<open>accessibilityRangeForPosition\<close> from the row and the column that the point falls into, as an
  index of the text.
\<close>

definition index_at_cell :: "nat \<Rightarrow> nat \<Rightarrow> accessibility \<Rightarrow> nat option" where
  "index_at_cell row column v =
     (if unat (ax_rows v) \<le> row then None
      else case terminalAccessibilityLineAtIndex row v of
        None \<Rightarrow> None
      | Some line \<Rightarrow>
        (case terminalAccessibilityBoundariesForLine line v of
           None \<Rightarrow> None
         | Some boundaries \<Rightarrow>
           let last_column = unat (al_column_boundary_count line) - 1;
               clamped = (if last_column < column then last_column else column)
           in Some (unat (al_utf16_start line) + unat (boundaries ! clamped))))"

text \<open>
  The cells that \<open>accessibilityFrameForRange\<close> covers: the first and the last row, and the first
  column and the column after the last when these are one row.
\<close>

definition cells_for_range :: "NSRange \<Rightarrow> accessibility \<Rightarrow> (nat \<times> nat \<times> nat \<times> nat) option" where
  "cells_for_range r v =
     (if \<not> in_text r v \<or> ax_rows v = 0 then None
      else let location = unat (range_location r); len = unat (range_length r);
          terminal_index = (if len = 0 then location else location + len - 1)
        in case (terminalAccessibilityLineForUtf16Index location v,
            terminalAccessibilityLineForUtf16Index terminal_index v) of
          (Some first_row, Some last_row) \<Rightarrow>
            if last_row < first_row then None
            else (case (terminalAccessibilityLineAtIndex first_row v, terminalAccessibilityLineAtIndex last_row v) of
              (Some upper, Some lower) \<Rightarrow>
                let first_column = terminalAccessibilityColumnForLine upper location v;
                    requested = terminalAccessibilityColumnForLine upper (location + len) v;
                    end_column = (if first_row = last_row \<and> 0 < len
                      then (if requested \<le> first_column then requested + 1 else requested)
                      else first_column + 1)
                in Some (first_row, last_row, first_column, end_column)
            | _ \<Rightarrow> None)
        | _ \<Rightarrow> None)"

end
