(* ===== verification/Dtr_Views.thy ===== *)
theory Dtr_Views
  imports Dtr_Accessibility
begin

text \<open>
  The views of the plugin and the renderers they show, from
  \<^verbatim>\<open>packages/dart_terminal_renderer_macos/native/TerminalRendererPlugin.m\<close>: creation and
  deallocation of a view, \<open>PerformTerminalMetalViewOperation\<close>, through which the application
  sends a view a packed operation, and the table of renderers with the exported functions
  \<open>dtr_metal_renderer_*\<close> that look a handle up in it.

  AppKit's answers are arguments, gathered in \<open>appkit\<close>: whether a layer was given, whether the
  view is the first responder, whether geometry on the screen is as expected, the clock, and the
  coding of text.
\<close>

section \<open>Operations as bytes\<close>

datatype DaStatus =
  DA_STATUS_OK | DA_STATUS_INVALID_ARGUMENT | DA_STATUS_WRONG_HANDLE_TYPE
| DA_STATUS_INVALID_HANDLE | DA_STATUS_INTERNAL_ERROR | DA_STATUS_UNSUPPORTED_VERSION

datatype DtrMetalViewOperation =
  DTR_METAL_VIEW_OPERATION_BIND
| DTR_METAL_VIEW_OPERATION_TEXT_INPUT_ATTACH
| DTR_METAL_VIEW_OPERATION_TEXT_INPUT_GEOMETRY
| DTR_METAL_VIEW_OPERATION_TEXT_INPUT_DETACH
| DTR_METAL_VIEW_OPERATION_TEXT_INPUT_ACCEPTANCE
| DTR_METAL_VIEW_OPERATION_TEXT_INPUT_MATRIX
| DTR_METAL_VIEW_OPERATION_ACCESSIBILITY_SNAPSHOT
| DTR_METAL_VIEW_OPERATION_ACCESSIBILITY_ACCEPTANCE
| DTR_METAL_VIEW_OPERATION_BACKGROUND_PRESENTATION

definition view_operation :: "u32 \<Rightarrow> DtrMetalViewOperation option" where
  "view_operation n =
     (if n = 1 then Some DTR_METAL_VIEW_OPERATION_BIND
      else if n = 2 then Some DTR_METAL_VIEW_OPERATION_TEXT_INPUT_ATTACH
      else if n = 3 then Some DTR_METAL_VIEW_OPERATION_TEXT_INPUT_GEOMETRY
      else if n = 4 then Some DTR_METAL_VIEW_OPERATION_TEXT_INPUT_DETACH
      else if n = 5 then Some DTR_METAL_VIEW_OPERATION_TEXT_INPUT_ACCEPTANCE
      else if n = 6 then Some DTR_METAL_VIEW_OPERATION_TEXT_INPUT_MATRIX
      else if n = 7 then Some DTR_METAL_VIEW_OPERATION_ACCESSIBILITY_SNAPSHOT
      else if n = 8 then Some DTR_METAL_VIEW_OPERATION_ACCESSIBILITY_ACCEPTANCE
      else if n = 9 then Some DTR_METAL_VIEW_OPERATION_BACKGROUND_PRESENTATION else None)"

abbreviation "DTR_METAL_VIEW_BINDING_VERSION \<equiv> (1 :: u32)"
abbreviation "DTR_METAL_BACKGROUND_PRESENTATION_VERSION \<equiv> (1 :: u32)"
abbreviation "DTR_TEXT_INPUT_CLIENT_VERSION \<equiv> (1 :: u32)"
abbreviation "DTR_TEXT_INPUT_GEOMETRY_VERSION \<equiv> (1 :: u32)"

record DtrMetalViewBindingV1 =
  vb_struct_size :: u32
  vb_version :: u32
  vb_operation :: u32
  vb_reserved :: u32
  vb_renderer_handle :: u64
  vb_renderer_generation :: u64

record DtrMetalBackgroundPresentationV1 =
  bp_struct_size :: u32
  bp_version :: u32
  bp_operation :: u32
  bp_reserved :: u32
  bp_background_opacity :: double

record DtrTextInputClientV1 =
  tc_struct_size :: u32
  tc_version :: u32
  tc_operation :: u32
  tc_reserved :: u32
  tc_client_id :: u64

record DtrTextInputGeometryV1 =
  tg_struct_size :: u32
  tg_version :: u32
  tg_operation :: u32
  tg_reserved :: u32
  tg_client_id :: u64
  tg_generation :: u64
  tg_x :: double
  tg_y :: double
  tg_width :: double
  tg_height :: double

record DtrTextInputAcceptanceV1 =
  ta_struct_size :: u32
  ta_version :: u32
  ta_operation :: u32
  ta_stage :: u32
  ta_client_id :: u64
  ta_reserved :: u64

record DtrAccessibilityAcceptanceV1 =
  aa_struct_size :: u32
  aa_version :: u32
  aa_operation :: u32
  aa_reserved :: u32
  aa_generation :: u64

definition client_layout :: "nat list" where "client_layout = [4, 4, 4, 4, 8]"
definition binding_layout :: "nat list" where "binding_layout = [4, 4, 4, 4, 8, 8]"
definition geometry_layout :: "nat list" where "geometry_layout = [4, 4, 4, 4, 8, 8, 8, 8, 8, 8]"
definition acceptance_layout :: "nat list" where "acceptance_layout = [4, 4, 4, 4, 8, 8]"

lemma view_sizes [simp]:
  "struct_sizeof client_layout = 24" "struct_sizeof binding_layout = 32"
  "struct_sizeof geometry_layout = 64" "struct_sizeof acceptance_layout = 32"
  by (simp_all add: struct_sizeof_def align_up_def client_layout_def binding_layout_def geometry_layout_def
      acceptance_layout_def)

lemma view_layouts_unpadded:
  "unpadded client_layout" "unpadded binding_layout" "unpadded geometry_layout" "unpadded acceptance_layout"
  by (simp_all add: unpadded_def) (simp_all add: client_layout_def binding_layout_def geometry_layout_def
      acceptance_layout_def)

definition read_client :: "byte list \<Rightarrow> DtrTextInputClientV1" where
  "read_client bs = (let m = read_members client_layout bs in
     \<lparr>tc_struct_size = of_nat (m ! 0), tc_version = of_nat (m ! 1), tc_operation = of_nat (m ! 2),
      tc_reserved = of_nat (m ! 3), tc_client_id = of_nat (m ! 4)\<rparr>)"

definition read_binding :: "byte list \<Rightarrow> DtrMetalViewBindingV1" where
  "read_binding bs = (let m = read_members binding_layout bs in
     \<lparr>vb_struct_size = of_nat (m ! 0), vb_version = of_nat (m ! 1), vb_operation = of_nat (m ! 2),
      vb_reserved = of_nat (m ! 3), vb_renderer_handle = of_nat (m ! 4), vb_renderer_generation = of_nat (m ! 5)\<rparr>)"

definition read_geometry :: "byte list \<Rightarrow> DtrTextInputGeometryV1" where
  "read_geometry bs = (let m = read_members geometry_layout bs in
     \<lparr>tg_struct_size = of_nat (m ! 0), tg_version = of_nat (m ! 1), tg_operation = of_nat (m ! 2),
      tg_reserved = of_nat (m ! 3), tg_client_id = of_nat (m ! 4), tg_generation = of_nat (m ! 5),
      tg_x = double_of (m ! 6), tg_y = double_of (m ! 7), tg_width = double_of (m ! 8), tg_height = double_of (m ! 9)\<rparr>)"

definition read_acceptance :: "byte list \<Rightarrow> DtrTextInputAcceptanceV1" where
  "read_acceptance bs = (let m = read_members acceptance_layout bs in
     \<lparr>ta_struct_size = of_nat (m ! 0), ta_version = of_nat (m ! 1), ta_operation = of_nat (m ! 2),
      ta_stage = of_nat (m ! 3), ta_client_id = of_nat (m ! 4), ta_reserved = of_nat (m ! 5)\<rparr>)"

definition read_accessibility_acceptance :: "byte list \<Rightarrow> DtrAccessibilityAcceptanceV1" where
  "read_accessibility_acceptance bs = (let m = read_members client_layout bs in
     \<lparr>aa_struct_size = of_nat (m ! 0), aa_version = of_nat (m ! 1), aa_operation = of_nat (m ! 2),
      aa_reserved = of_nat (m ! 3), aa_generation = of_nat (m ! 4)\<rparr>)"

definition read_background :: "byte list \<Rightarrow> DtrMetalBackgroundPresentationV1" where
  "read_background bs = (let m = read_members client_layout bs in
     \<lparr>bp_struct_size = of_nat (m ! 0), bp_version = of_nat (m ! 1), bp_operation = of_nat (m ! 2),
      bp_reserved = of_nat (m ! 3), bp_background_opacity = double_of (m ! 4)\<rparr>)"

section \<open>Views\<close>

type_synonym NSRect = "double \<times> double \<times> double \<times> double"

record terminal_view =
  vw_input :: text_view
  vw_terminalCaretRect :: NSRect
  vw_accessibility :: accessibility
  vw_terminalBackgroundOpacity :: double
  vw_terminalRenderer :: "nat option"
  vw_terminalRendererGeneration :: u64

definition initWithFrame :: terminal_view where
  "initWithFrame = \<lparr>vw_input = new_view, vw_terminalCaretRect = (Some 0, Some 0, Some 2, Some 20),
     vw_accessibility = new_accessibility, vw_terminalBackgroundOpacity = Some 1,
     vw_terminalRenderer = None, vw_terminalRendererGeneration = 0\<rparr>"

definition geometry_rejected :: "DtrTextInputGeometryV1 \<Rightarrow> terminal_view \<Rightarrow> bool" where
  "geometry_rejected g v \<longleftrightarrow> tv_textInputClientId (vw_input v) = 0 \<or>
     tg_client_id g \<noteq> tv_textInputClientId (vw_input v) \<or> tg_generation g = 0 \<or> INT64_MAX < tg_generation g \<or>
     tg_x g = None \<or> tg_y g = None \<or> size_rejected (tg_width g) \<or> size_rejected (tg_height g)"

definition updateTextInputGeometry :: "DtrTextInputGeometryV1 \<Rightarrow> terminal_view \<Rightarrow> bool \<times> terminal_view" where
  "updateTextInputGeometry g v =
     (if geometry_rejected g v then (False, v)
      else if tg_generation g \<le> tv_textInputGeometryGeneration (vw_input v) then (True, v)
      else (True, v\<lparr>vw_input := (vw_input v)\<lparr>tv_textInputGeometryGeneration := tg_generation g\<rparr>,
        vw_terminalCaretRect := (tg_x g, tg_y g, tg_width g, tg_height g)\<rparr>))"

definition responderChanged :: "bool \<Rightarrow> terminal_view \<Rightarrow> terminal_view" where
  "responderChanged accepted v =
     (if accepted then v\<lparr>vw_accessibility := (vw_accessibility v)\<lparr>ax_focus_notifications :=
        SaturatingIncrementMetric (ax_focus_notifications (vw_accessibility v))\<rparr>\<rparr> else v)"

definition isOpaque :: "terminal_view \<Rightarrow> bool" where
  "isOpaque v = (case vw_terminalBackgroundOpacity v of None \<Rightarrow> False | Some opacity \<Rightarrow> 1 \<le> opacity)"

section \<open>The view's tests of itself\<close>

text \<open>
  What AppKit answers. Geometry is that of \<open>acceptanceCandidateGeometryIsCurrent\<close> and of the two
  frames of \<open>runAccessibilityAcceptance\<close>; \<open>ak_clock i\<close> is read for the \<open>i\<close>-th event.
\<close>

record appkit =
  ak_decode :: "byte list \<Rightarrow> nsstring option"
  ak_encode :: "nsstring \<Rightarrow> byte list option"
  ak_clock :: "nat \<Rightarrow> u64 \<times> u64"
  ak_layer :: bool
  ak_focused :: bool
  ak_geometry :: bool
  ak_frames :: bool

definition synthetic_key :: "nsstring \<Rightarrow> nsstring \<Rightarrow> u64 \<Rightarrow> u16 \<Rightarrow> bool \<Rightarrow> key_event" where
  "synthetic_key characters unmodified flags code repeated =
     \<lparr>ke_isARepeat = repeated, ke_keyCode = code, ke_modifierFlags = flags,
      ke_characters = Some characters, ke_charactersIgnoringModifiers = Some unmodified\<rparr>"

text \<open>A command the view receives while it handles the key; and whether a raw key was posted.\<close>

definition command_for_key :: "appkit \<Rightarrow> nat \<Rightarrow> key_event \<Rightarrow> text_view \<times> text_input \<Rightarrow> bool \<times> text_view \<times> text_input" where
  "command_for_key ak i key s =
     (let s' = enqueueRawKeyEvent (ak_encode ak) (ak_clock ak i) (Some key) DTR_TEXT_INPUT_EVENT_RAW_KEY_DOWN
        (set_posted False s)
      in (tv_terminalRawKeyPosted (fst s'), set_posted False s'))"

definition move_up :: key_event where
  "move_up = synthetic_key [0xF700] [0xF700] 0x800000 126 False"

definition runTextInputAcceptanceStage :: "appkit \<Rightarrow> u32 \<Rightarrow> text_view \<times> text_input \<Rightarrow> bool \<times> text_view \<times> text_input" where
  "runTextInputAcceptanceStage ak stage s =
     (let v = fst s; marked = tv_terminalMarkedText v; mark = setMarkedText (ak_encode ak) in
      if tv_textInputClientId v = 0 \<or> tv_textInputQueue v = None \<or> \<not> ak_focused ak \<or>
         tv_textInputGeometryGeneration v = 0 then (False, s)
      else if stage = 1 then
        (if hasMarkedText v then (False, s)
         else (ak_geometry ak,
           mark (ak_clock ak 2) (Some [0x306B, 0x307B, 0x3093, 0x3054]) \<lparr>range_location = 4, range_length = 0\<rparr> no_range
             (mark (ak_clock ak 1) (Some [0x306B, 0x307B, 0x3093]) \<lparr>range_location = 3, range_length = 0\<rparr> no_range
               (snd (command_for_key ak 0 move_up s)))))
      else if stage = 2 then
        (if marked \<noteq> [0x306B, 0x307B, 0x3093, 0x3054] \<or> \<not> ak_geometry ak then (False, s)
         else let s1 = insertText (ak_encode ak) (ak_clock ak 0) (Some [0x65E5, 0x672C, 0x8A9E]) no_range s;
             s2 = mark (ak_clock ak 1) (Some [0x304B, 0x306A]) \<lparr>range_location = 2, range_length = 0\<rparr> no_range s1;
             s3 = keyUp (ak_encode ak) (ak_clock ak 2) (synthetic_key [3] [99] 0x40000 8 True) s2
           in (hasMarkedText (fst s3), s3))
      else if stage = 3 then
        (if marked \<noteq> [0x304B, 0x306A] then (False, s)
         else let s' = unmarkText (ak_encode ak) (ak_clock ak 0) s in (\<not> hasMarkedText (fst s'), s'))
      else if stage = 4 then (if hasMarkedText v then (False, s) else command_for_key ak 0 move_up s)
      else (False, s))"

definition matrix_commits :: "nsstring list" where
  "matrix_commits = [[97], [65], [0xA5], [95], [0xE9], [0x4E2D, 0x6587], [0x65E5, 0x672C, 0x8A9E],
     [0xD55C, 0xAE00], [0xD83D, 0xDC69, 0x200D, 0xD83D, 0xDCBB], [0x2318]]"

definition matrix_keys :: "key_event list" where
  "matrix_keys = map (synthetic_key [0xF703] [0xF703] 0x800000 124) [False, True, True] @
     [synthetic_key [0xF702] [0xF702] 0x880000 123 False, synthetic_key [0xF703] [0xF703] 0x880000 124 False]"

definition runTextInputAcceptanceMatrix :: "appkit \<Rightarrow> text_view \<times> text_input \<Rightarrow> bool \<times> text_view \<times> text_input" where
  "runTextInputAcceptanceMatrix ak s =
     (let v = fst s in
      if tv_textInputClientId v = 0 \<or> tv_textInputQueue v = None \<or> \<not> ak_focused ak \<or> hasMarkedText v
      then (False, s)
      else let s1 = fold (\<lambda>(i, str). insertText (ak_encode ak) (ak_clock ak i) (Some str) no_range)
             (enumerate 0 matrix_commits) s;
           s2 = fold (\<lambda>(i, key) s. snd (command_for_key ak i key s)) (enumerate (length matrix_commits) matrix_keys) s1
        in (\<not> hasMarkedText (fst s2), s2))"

text \<open>The conditions that compare a member with itself are left out.\<close>

definition runAccessibilityAcceptance :: "appkit \<Rightarrow> u64 \<Rightarrow> accessibility \<Rightarrow> bool" where
  "runAccessibilityAcceptance ak generation v \<longleftrightarrow>
     generation \<noteq> 0 \<and> generation = ax_generation v \<and> ak_focused ak \<and> ax_rows v \<noteq> 0 \<and>
     accessibilitySelectedText v =
       take (unat (range_length (ax_selection v))) (drop (unat (range_location (ax_selection v))) (ax_text v)) \<and>
     accessibilityLineForIndex 0 v = Some 0 \<and>
     (case accessibilityRangeForLine 0 v of None \<Rightarrow> False | Some r \<Rightarrow> fst r = 0) \<and>
     ax_value_notifications v \<noteq> 0 \<and> ax_selection_notifications v \<noteq> 0 \<and> ax_focus_notifications v \<noteq> 0 \<and>
     (range_location (ax_cursor v) \<noteq> NSNotFound \<longrightarrow>
        accessibilityInsertionPointLineNumber v = Some (unat (ax_cursor_row v))) \<and> ak_frames ak"

section \<open>The plugin\<close>

text \<open>
  Renderers are objects at addresses of a heap, as the table, the views and the GPU's commands
  share them; views are objects that AppKit holds. A view that is not in \<open>pg_views\<close> is no
  terminal view, or is gone.
\<close>

record plugin =
  pg_views :: "nat \<rightharpoonup> terminal_view"
  pg_live_view_count :: "32 word"
  pg_input :: text_input
  pg_renderers :: "nat \<Rightarrow> DtrMetalRenderer"
  pg_next_object :: nat
  pg_registry :: "u64 \<rightharpoonup> nat"
  pg_next_handle :: u64

definition living :: "plugin \<Rightarrow> nat \<Rightarrow> bool" where
  "living pg v \<longleftrightarrow> pg_views pg v \<noteq> None"

definition RetainMetalRendererForHandle :: "u64 \<Rightarrow> plugin \<Rightarrow> nat option" where
  "RetainMetalRendererForHandle handle pg = (if handle = 0 then None else pg_registry pg handle)"

text \<open>
  \<open>CreateTerminalMetalView\<close>: the initializer can fail for want of a device or of the pipelines.
  What it then returns is null, but the object is deallocated, and \<open>dealloc\<close> uncounts the view
  that was never counted. An address is not given twice: a weak member that was cleared does not
  come back when memory is used again.
\<close>

definition CreateTerminalMetalView :: "bool \<Rightarrow> bool \<Rightarrow> plugin \<Rightarrow> nat option \<times> plugin" where
  "CreateTerminalMetalView device pipelines pg =
     (if device \<and> pipelines
      then let v = pg_next_object pg in
        (Some v, pg\<lparr>pg_views := (pg_views pg)(v \<mapsto> initWithFrame), pg_next_object := v + 1,
           pg_live_view_count := pg_live_view_count pg + 1\<rparr>)
      else (None, pg\<lparr>pg_live_view_count := pg_live_view_count pg - 1\<rparr>))"

definition on_renderer_object :: "nat \<Rightarrow> (DtrMetalRenderer \<Rightarrow> DtrMetalRenderer) \<Rightarrow> plugin \<Rightarrow> plugin" where
  "on_renderer_object a f pg = pg\<lparr>pg_renderers := (pg_renderers pg)(a := f (pg_renderers pg a))\<rparr>"

text \<open>\<open>dealloc\<close> of a view: by now the weak member of its renderer reads as null.\<close>

definition dealloc :: "nat \<Rightarrow> plugin \<Rightarrow> plugin" where
  "dealloc v pg = (case pg_views pg v of None \<Rightarrow> pg
   | Some view \<Rightarrow>
     let gone = pg\<lparr>pg_views := (pg_views pg)(v := None), pg_live_view_count := pg_live_view_count pg - 1,
       pg_input := snd (detachTextInputClient (vw_input view) (pg_input pg))\<rparr>
     in (case vw_terminalRenderer view of None \<Rightarrow> gone
         | Some a \<Rightarrow> on_renderer_object a (viewWillDeallocate (living gone) v) gone))"

text \<open>\<open>detachOnMainThread\<close> with its effect on the view.\<close>

definition detach_object :: "nat \<Rightarrow> plugin \<Rightarrow> plugin" where
  "detach_object a pg =
     (let r = pg_renderers pg a;
          views = (case weak_view (living pg) r of None \<Rightarrow> pg_views pg
            | Some v \<Rightarrow> (case pg_views pg v of None \<Rightarrow> pg_views pg
              | Some view \<Rightarrow> if vw_terminalRendererGeneration view = r_generation r
                then (pg_views pg)(v \<mapsto> view\<lparr>vw_terminalRenderer := None, vw_terminalRendererGeneration := 0\<rparr>)
                else pg_views pg))
      in on_renderer_object a detachOnMainThread (pg\<lparr>pg_views := views\<rparr>))"

text \<open>
  \<open>shutdown\<close>: on the main thread the view is detached at once, otherwise a later
  \<open>detach_object\<close> is queued there.
\<close>

definition shutdown_object :: "bool \<Rightarrow> nat \<Rightarrow> plugin \<Rightarrow> plugin" where
  "shutdown_object main_thread a pg =
     (if r_shuttingDown (pg_renderers pg a) then pg
      else let down = on_renderer_object a shutdown pg in if main_thread then detach_object a down else down)"

section \<open>Operations on a view\<close>

definition put_view :: "nat \<Rightarrow> terminal_view \<Rightarrow> plugin \<Rightarrow> plugin" where
  "put_view v view pg = pg\<lparr>pg_views := (pg_views pg)(v \<mapsto> view)\<rparr>"

definition ok_or :: "DaStatus \<Rightarrow> bool \<Rightarrow> DaStatus" where
  "ok_or failed ok = (if ok then DA_STATUS_OK else failed)"

text \<open>An operation on the view's text input and the queues.\<close>

definition on_input ::
  "nat \<Rightarrow> terminal_view \<Rightarrow> DaStatus \<Rightarrow> (text_view \<times> text_input \<Rightarrow> bool \<times> text_view \<times> text_input) \<Rightarrow> plugin \<Rightarrow> DaStatus \<times> plugin" where
  "on_input v view failed f pg = (case f (vw_input view, pg_input pg) of
     (ok, tv, ti) \<Rightarrow> (ok_or failed ok, (put_view v (view\<lparr>vw_input := tv\<rparr>) pg)\<lparr>pg_input := ti\<rparr>))"

definition bind_operation :: "appkit \<Rightarrow> nat \<Rightarrow> terminal_view \<Rightarrow> byte list \<Rightarrow> plugin \<Rightarrow> DaStatus \<times> plugin" where
  "bind_operation ak v view payload pg =
     (let b = read_binding payload in
      if length payload \<noteq> struct_sizeof binding_layout \<or> unat (vb_struct_size b) \<noteq> struct_sizeof binding_layout \<or>
         vb_version b \<noteq> DTR_METAL_VIEW_BINDING_VERSION \<or> vb_reserved b \<noteq> 0 \<or> vb_renderer_handle b = 0 \<or>
         vb_renderer_generation b = 0 then (DA_STATUS_INVALID_ARGUMENT, pg)
      else (case RetainMetalRendererForHandle (vb_renderer_handle b) pg of
          None \<Rightarrow> (DA_STATUS_INVALID_HANDLE, pg)
        | Some a \<Rightarrow>
          if r_generation (pg_renderers pg a) \<noteq> vb_renderer_generation b then (DA_STATUS_INVALID_HANDLE, pg)
          else (case bindView (living pg) v (vw_terminalRendererGeneration view) (ak_layer ak) (pg_renderers pg a) of
            (status, r) \<Rightarrow>
              let bound = on_renderer_object a (\<lambda>_. r) pg in
              if status = DTR_STATUS_OK
              then (DA_STATUS_OK, put_view v (view\<lparr>vw_terminalRenderer := Some a,
                vw_terminalRendererGeneration := r_generation r\<rparr>) bound)
              else (if status = DTR_STATUS_INTERNAL then DA_STATUS_INTERNAL_ERROR else DA_STATUS_INVALID_ARGUMENT, bound))))"

definition client_operation :: "bool \<Rightarrow> nat \<Rightarrow> terminal_view \<Rightarrow> byte list \<Rightarrow> plugin \<Rightarrow> DaStatus \<times> plugin" where
  "client_operation attach v view payload pg =
     (let c = read_client payload in
      if length payload \<noteq> struct_sizeof client_layout \<or> unat (tc_struct_size c) \<noteq> struct_sizeof client_layout \<or>
         tc_version c \<noteq> DTR_TEXT_INPUT_CLIENT_VERSION \<or> tc_reserved c \<noteq> 0 \<or> tc_client_id c = 0
      then (DA_STATUS_INVALID_ARGUMENT, pg)
      else if attach
      then on_input v view DA_STATUS_INVALID_ARGUMENT (\<lambda>(tv, ti). attachTextInputClient (tc_client_id c) tv ti) pg
      else if tv_textInputClientId (vw_input view) \<noteq> tc_client_id c then (DA_STATUS_INVALID_HANDLE, pg)
      else on_input v view DA_STATUS_OK (\<lambda>(tv, ti). (True, detachTextInputClient tv ti)) pg)"

definition geometry_operation :: "nat \<Rightarrow> terminal_view \<Rightarrow> byte list \<Rightarrow> plugin \<Rightarrow> DaStatus \<times> plugin" where
  "geometry_operation v view payload pg =
     (let g = read_geometry payload in
      if length payload \<noteq> struct_sizeof geometry_layout \<or> unat (tg_struct_size g) \<noteq> struct_sizeof geometry_layout \<or>
         tg_version g \<noteq> DTR_TEXT_INPUT_GEOMETRY_VERSION \<or>
         view_operation (tg_operation g) \<noteq> Some DTR_METAL_VIEW_OPERATION_TEXT_INPUT_GEOMETRY \<or> tg_reserved g \<noteq> 0
      then (DA_STATUS_INVALID_ARGUMENT, pg)
      else (case updateTextInputGeometry g view of
        (ok, view') \<Rightarrow> (ok_or DA_STATUS_INVALID_ARGUMENT ok, put_view v view' pg)))"

definition stage_operation :: "appkit \<Rightarrow> nat \<Rightarrow> terminal_view \<Rightarrow> byte list \<Rightarrow> plugin \<Rightarrow> DaStatus \<times> plugin" where
  "stage_operation ak v view payload pg =
     (let t = read_acceptance payload in
      if length payload \<noteq> struct_sizeof acceptance_layout \<or> unat (ta_struct_size t) \<noteq> struct_sizeof acceptance_layout \<or>
         ta_version t \<noteq> DTR_TEXT_INPUT_CLIENT_VERSION \<or>
         view_operation (ta_operation t) \<noteq> Some DTR_METAL_VIEW_OPERATION_TEXT_INPUT_ACCEPTANCE \<or>
         ta_client_id t \<noteq> tv_textInputClientId (vw_input view) \<or> ta_reserved t \<noteq> 0 \<or>
         ta_stage t < 1 \<or> 4 < ta_stage t then (DA_STATUS_INVALID_ARGUMENT, pg)
      else on_input v view DA_STATUS_INTERNAL_ERROR (runTextInputAcceptanceStage ak (ta_stage t)) pg)"

definition matrix_operation :: "appkit \<Rightarrow> nat \<Rightarrow> terminal_view \<Rightarrow> byte list \<Rightarrow> plugin \<Rightarrow> DaStatus \<times> plugin" where
  "matrix_operation ak v view payload pg =
     (let c = read_client payload in
      if length payload \<noteq> struct_sizeof client_layout \<or> unat (tc_struct_size c) \<noteq> struct_sizeof client_layout \<or>
         tc_version c \<noteq> DTR_TEXT_INPUT_CLIENT_VERSION \<or>
         view_operation (tc_operation c) \<noteq> Some DTR_METAL_VIEW_OPERATION_TEXT_INPUT_MATRIX \<or>
         tc_client_id c \<noteq> tv_textInputClientId (vw_input view) \<or> tc_reserved c \<noteq> 0
      then (DA_STATUS_INVALID_ARGUMENT, pg)
      else on_input v view DA_STATUS_INTERNAL_ERROR (runTextInputAcceptanceMatrix ak) pg)"

definition packet_lines :: "DtrAccessibilitySnapshotHeaderV2 \<Rightarrow> byte list \<Rightarrow> DtrAccessibilityLineV1 list" where
  "packet_lines h payload = map (\<lambda>i. read_accessibility_line
     (drop (unat (ah_lines_offset h) + i * struct_sizeof accessibility_line_layout) payload)) [0..<unat (ah_line_count h)]"

definition packet_boundaries :: "DtrAccessibilitySnapshotHeaderV2 \<Rightarrow> byte list \<Rightarrow> u32 list" where
  "packet_boundaries h payload = map (\<lambda>i. of_nat (le_nat (take 4
     (drop (unat (ah_column_boundaries_offset h) + i * 4) payload)))) [0..<unat (ah_column_boundary_count h)]"

definition packet_text :: "DtrAccessibilitySnapshotHeaderV2 \<Rightarrow> byte list \<Rightarrow> byte list" where
  "packet_text h payload = take (unat (ah_utf8_length h)) (drop (unat (ah_text_offset h)) payload)"

text \<open>The sums of the offsets fit 64 bits, so they are those of \<open>nat\<close>.\<close>

definition packet_rejected :: "DtrAccessibilitySnapshotHeaderV2 \<Rightarrow> byte list \<Rightarrow> bool" where
  "packet_rejected h payload \<longleftrightarrow>
     (let lines_end = struct_sizeof accessibility_layout + unat (ah_line_count h) * struct_sizeof accessibility_line_layout;
          boundaries_end = lines_end + unat (ah_column_boundary_count h) * 4;
          packet_end = boundaries_end + unat (ah_utf8_length h)
      in unat (ah_struct_size h) \<noteq> struct_sizeof accessibility_layout \<or>
         ah_version h \<noteq> DTR_ACCESSIBILITY_SNAPSHOT_VERSION \<or>
         view_operation (ah_operation h) \<noteq> Some DTR_METAL_VIEW_OPERATION_ACCESSIBILITY_SNAPSHOT \<or>
         ah_flags h AND NOT DTR_ACCESSIBILITY_KNOWN_FLAGS \<noteq> 0 \<or> ah_reserved0 h \<noteq> 0 \<or>
         ah_reserved h \<noteq> [0, 0, 0, 0] \<or> unat (ah_lines_offset h) \<noteq> struct_sizeof accessibility_layout \<or>
         unat (ah_column_boundaries_offset h) \<noteq> lines_end \<or> unat (ah_text_offset h) \<noteq> boundaries_end \<or>
         unat (ah_total_size h) \<noteq> packet_end \<or> packet_end \<noteq> length payload \<or>
         DTR_MAX_ACCESSIBILITY_PACKET_BYTES < packet_end)"

definition snapshot_operation :: "appkit \<Rightarrow> nat \<Rightarrow> terminal_view \<Rightarrow> byte list \<Rightarrow> plugin \<Rightarrow> DaStatus \<times> plugin" where
  "snapshot_operation ak v view payload pg =
     (if length payload < struct_sizeof accessibility_layout \<or> DTR_MAX_ACCESSIBILITY_PACKET_BYTES < length payload
      then (DA_STATUS_INVALID_ARGUMENT, pg)
      else let h = read_accessibility_header payload in
        if packet_rejected h payload then (DA_STATUS_INVALID_ARGUMENT, pg)
        else (case updateAccessibilitySnapshot (ak_decode ak) (ak_encode ak) h (packet_lines h payload)
            (packet_boundaries h payload) (packet_text h payload) (vw_accessibility view) of
          (ok, ax) \<Rightarrow> (ok_or DA_STATUS_INVALID_ARGUMENT ok, put_view v (view\<lparr>vw_accessibility := ax\<rparr>) pg)))"

definition accessibility_acceptance_operation ::
  "appkit \<Rightarrow> nat \<Rightarrow> terminal_view \<Rightarrow> byte list \<Rightarrow> plugin \<Rightarrow> DaStatus \<times> plugin" where
  "accessibility_acceptance_operation ak v view payload pg =
     (let t = read_accessibility_acceptance payload in
      if length payload \<noteq> struct_sizeof client_layout \<or> unat (aa_struct_size t) \<noteq> struct_sizeof client_layout \<or>
         aa_version t \<noteq> DTR_ACCESSIBILITY_SNAPSHOT_VERSION \<or>
         view_operation (aa_operation t) \<noteq> Some DTR_METAL_VIEW_OPERATION_ACCESSIBILITY_ACCEPTANCE \<or> aa_reserved t \<noteq> 0
      then (DA_STATUS_INVALID_ARGUMENT, pg)
      else (ok_or DA_STATUS_INTERNAL_ERROR (runAccessibilityAcceptance ak (aa_generation t) (vw_accessibility view)), pg))"

definition background_operation :: "nat \<Rightarrow> terminal_view \<Rightarrow> byte list \<Rightarrow> plugin \<Rightarrow> DaStatus \<times> plugin" where
  "background_operation v view payload pg =
     (let p = read_background payload in
      if length payload \<noteq> struct_sizeof client_layout \<or> unat (bp_struct_size p) \<noteq> struct_sizeof client_layout \<or>
         bp_version p \<noteq> DTR_METAL_BACKGROUND_PRESENTATION_VERSION \<or>
         view_operation (bp_operation p) \<noteq> Some DTR_METAL_VIEW_OPERATION_BACKGROUND_PRESENTATION \<or> bp_reserved p \<noteq> 0 \<or>
         (case bp_background_opacity p of None \<Rightarrow> True | Some opacity \<Rightarrow> opacity < 0 \<or> 1 < opacity)
      then (DA_STATUS_INVALID_ARGUMENT, pg)
      else (DA_STATUS_OK, put_view v (view\<lparr>vw_terminalBackgroundOpacity := bp_background_opacity p\<rparr>) pg))"

text \<open>
  The operation is read from the part that all structures share. The view's pointer is \<open>None\<close>
  when it is null.
\<close>

definition PerformTerminalMetalViewOperation ::
  "appkit \<Rightarrow> nat option \<Rightarrow> byte list option \<Rightarrow> plugin \<Rightarrow> DaStatus \<times> plugin" where
  "PerformTerminalMetalViewOperation ak opaque_view bytes pg = (case (opaque_view, bytes) of
     (Some v, Some payload) \<Rightarrow>
       if length payload < struct_sizeof client_layout then (DA_STATUS_INVALID_ARGUMENT, pg)
       else (case pg_views pg v of
           None \<Rightarrow> (DA_STATUS_WRONG_HANDLE_TYPE, pg)
         | Some view \<Rightarrow>
           (case view_operation (tc_operation (read_client payload)) of
              None \<Rightarrow> (DA_STATUS_INVALID_ARGUMENT, pg)
            | Some operation \<Rightarrow> (case operation of
                DTR_METAL_VIEW_OPERATION_BIND \<Rightarrow> bind_operation ak v view payload pg
              | DTR_METAL_VIEW_OPERATION_TEXT_INPUT_ATTACH \<Rightarrow> client_operation True v view payload pg
              | DTR_METAL_VIEW_OPERATION_TEXT_INPUT_DETACH \<Rightarrow> client_operation False v view payload pg
              | DTR_METAL_VIEW_OPERATION_TEXT_INPUT_GEOMETRY \<Rightarrow> geometry_operation v view payload pg
              | DTR_METAL_VIEW_OPERATION_TEXT_INPUT_ACCEPTANCE \<Rightarrow> stage_operation ak v view payload pg
              | DTR_METAL_VIEW_OPERATION_TEXT_INPUT_MATRIX \<Rightarrow> matrix_operation ak v view payload pg
              | DTR_METAL_VIEW_OPERATION_ACCESSIBILITY_SNAPSHOT \<Rightarrow> snapshot_operation ak v view payload pg
              | DTR_METAL_VIEW_OPERATION_ACCESSIBILITY_ACCEPTANCE \<Rightarrow>
                  accessibility_acceptance_operation ak v view payload pg
              | DTR_METAL_VIEW_OPERATION_BACKGROUND_PRESENTATION \<Rightarrow> background_operation v view payload pg)))
   | _ \<Rightarrow> (DA_STATUS_INVALID_ARGUMENT, pg))"

section \<open>The exported functions of a renderer\<close>

record DtrMetalRendererSummaryV1 =
  sm_handle :: u64
  sm_generation :: u64
  sm_maximum_viewport_width :: u32
  sm_maximum_viewport_height :: u32
  sm_maximum_instances :: u32
  sm_atlas_width :: u32
  sm_atlas_height :: u32
  sm_maximum_alpha_pages :: u32
  sm_maximum_color_pages :: u32
  sm_failure_kind :: DtrMetalFailureKind

definition empty_summary :: DtrMetalRendererSummaryV1 where
  "empty_summary = \<lparr>sm_handle = 0, sm_generation = 0, sm_maximum_viewport_width = 0,
     sm_maximum_viewport_height = 0, sm_maximum_instances = 0, sm_atlas_width = 0, sm_atlas_height = 0,
     sm_maximum_alpha_pages = 0, sm_maximum_color_pages = 0, sm_failure_kind = DTR_METAL_FAILURE_NONE\<rparr>"

definition summary_of :: "u64 \<Rightarrow> DtrMetalRendererConfigV1 \<Rightarrow> DtrMetalRenderer \<Rightarrow> DtrMetalRendererSummaryV1" where
  "summary_of handle c r = \<lparr>sm_handle = handle, sm_generation = r_generation r,
     sm_maximum_viewport_width = mc_maximum_viewport_width c,
     sm_maximum_viewport_height = mc_maximum_viewport_height c, sm_maximum_instances = mc_maximum_instances c,
     sm_atlas_width = mc_atlas_width c, sm_atlas_height = mc_atlas_height c,
     sm_maximum_alpha_pages = mc_maximum_alpha_pages c, sm_maximum_color_pages = mc_maximum_color_pages c,
     sm_failure_kind = DTR_METAL_FAILURE_NONE\<rparr>"

text \<open>
  A structure that the caller passes comes with the size and the version in its first members;
  \<open>None\<close> is a null pointer. What is written to an output is \<open>Some\<close>; \<open>failure\<close> is what Metal
  could not give, if anything.
\<close>

type_synonym 'a versioned_input = "((nat \<times> u32) \<times> 'a) option"

definition dtr_metal_renderer_create ::
  "DtrMetalFailureKind option \<Rightarrow> DtrMetalRendererConfigV1 versioned_input \<Rightarrow> (nat \<times> u32) option \<Rightarrow> plugin \<Rightarrow>
    (DtrStatus \<times> DtrMetalRendererSummaryV1 option) \<times> plugin" where
  "dtr_metal_renderer_create failure config output pg = (case (config, output) of
     (Some (config_header, c), Some output_header) \<Rightarrow>
       if \<not> versioned (struct_sizeof config_v1_layout) DTR_METAL_RENDERER_CONFIG_VERSION config_header \<or>
          \<not> versioned (struct_sizeof summary_layout) DTR_METAL_RENDERER_SUMMARY_VERSION output_header
       then ((DTR_STATUS_UNSUPPORTED_VERSION, None), pg)
       else if \<not> MetalConfigValuesAreValid c then ((DTR_STATUS_INVALID_ARGUMENT, Some empty_summary), pg)
       else let handle = pg_next_handle pg; counted = pg\<lparr>pg_next_handle := handle + 1\<rparr> in
         if handle = 0 \<or> handle = UINT64_MAX then ((DTR_STATUS_RESOURCE_EXHAUSTED, Some empty_summary), counted)
         else (case failure of
             Some kind \<Rightarrow>
               let reported = (if kind = DTR_METAL_FAILURE_NONE then DTR_METAL_FAILURE_RESOURCE_ALLOCATION else kind)
               in ((if reported = DTR_METAL_FAILURE_DEVICE_UNAVAILABLE then DTR_STATUS_NOT_FOUND else DTR_STATUS_INTERNAL,
                    Some (empty_summary\<lparr>sm_failure_kind := reported\<rparr>)), counted)
           | None \<Rightarrow>
               let a = pg_next_object pg; r = initWithConfig c handle
               in ((DTR_STATUS_OK, Some (summary_of handle c r)),
                   counted\<lparr>pg_renderers := (pg_renderers pg)(a := r), pg_next_object := a + 1,
                     pg_registry := (pg_registry pg)(handle \<mapsto> a)\<rparr>))
   | _ \<Rightarrow> ((DTR_STATUS_INVALID_ARGUMENT, None), pg))"

definition dtr_metal_renderer_release :: "bool \<Rightarrow> u64 \<Rightarrow> plugin \<Rightarrow> DtrStatus \<times> plugin" where
  "dtr_metal_renderer_release main_thread handle pg =
     (if handle = 0 then (DTR_STATUS_INVALID_HANDLE, pg)
      else case pg_registry pg handle of
        None \<Rightarrow> (DTR_STATUS_INVALID_HANDLE, pg)
      | Some a \<Rightarrow> (DTR_STATUS_OK,
          shutdown_object main_thread a (pg\<lparr>pg_registry := (pg_registry pg)(handle := None)\<rparr>)))"

text \<open>A function that looks its handle up and runs a method of the renderer.\<close>

definition with_renderer ::
  "u64 \<Rightarrow> (DtrStatus \<Rightarrow> 'a) \<Rightarrow> (DtrMetalRenderer \<Rightarrow> 'a \<times> DtrMetalRenderer) \<Rightarrow> plugin \<Rightarrow> 'a \<times> plugin" where
  "with_renderer handle refuse run pg = (case RetainMetalRendererForHandle handle pg of
     None \<Rightarrow> (refuse DTR_STATUS_INVALID_HANDLE, pg)
   | Some a \<Rightarrow> (case run (pg_renderers pg a) of (answer, r) \<Rightarrow> (answer, on_renderer_object a (\<lambda>_. r) pg)))"

definition dtr_metal_renderer_reset_atlas ::
  "u64 \<Rightarrow> DtrMetalAtlasResetV1 versioned_input \<Rightarrow> plugin \<Rightarrow> DtrStatus \<times> plugin" where
  "dtr_metal_renderer_reset_atlas handle reset pg = (case reset of
     None \<Rightarrow> (DTR_STATUS_INVALID_ARGUMENT, pg)
   | Some (header, copied) \<Rightarrow>
     if \<not> versioned (struct_sizeof reset_layout) DTR_METAL_ATLAS_RESET_VERSION header
     then (DTR_STATUS_UNSUPPORTED_VERSION, pg)
     else if rs_reserved copied \<noteq> [0, 0] then (DTR_STATUS_INVALID_ARGUMENT, pg)
     else with_renderer handle id (resetAtlas copied) pg)"

definition dtr_metal_renderer_upload_atlas ::
  "u64 \<Rightarrow> DtrMetalAtlasUploadV1 versioned_input \<Rightarrow> byte list option \<Rightarrow> plugin \<Rightarrow> DtrStatus \<times> plugin" where
  "dtr_metal_renderer_upload_atlas handle request pixels pg = (case request of
     None \<Rightarrow> (DTR_STATUS_INVALID_ARGUMENT, pg)
   | Some (header, copied) \<Rightarrow>
     if \<not> versioned (struct_sizeof upload_layout) DTR_METAL_ATLAS_UPLOAD_VERSION header
     then (DTR_STATUS_UNSUPPORTED_VERSION, pg)
     else if atlas_format (up_format copied) = None \<or> up_reserved copied \<noteq> [0, 0, 0, 0]
     then (DTR_STATUS_INVALID_ARGUMENT, pg)
     else with_renderer handle id (upload copied pixels) pg)"

definition dtr_metal_renderer_submit ::
  "u64 \<Rightarrow> byte list option \<Rightarrow> (nat \<times> u32) option \<Rightarrow> plugin \<Rightarrow> (DtrStatus \<times> DtrMetalSubmissionV1 option) \<times> plugin" where
  "dtr_metal_renderer_submit handle frame output pg = (case output of
     None \<Rightarrow> ((DTR_STATUS_INVALID_ARGUMENT, None), pg)
   | Some buffer \<Rightarrow>
     if \<not> versioned (struct_sizeof submission_layout) DTR_METAL_SUBMISSION_VERSION buffer
     then ((DTR_STATUS_UNSUPPORTED_VERSION, None), pg)
     else with_renderer handle (\<lambda>status. (status, Some empty_submission))
       (submitFrame (living pg) frame (Some (struct_sizeof submission_layout, DTR_METAL_SUBMISSION_VERSION))) pg)"

definition dtr_metal_renderer_state ::
  "u64 \<Rightarrow> (nat \<times> u32) option \<Rightarrow> plugin \<Rightarrow> DtrStatus + DtrMetalRendererStateV1" where
  "dtr_metal_renderer_state handle output pg = (case output of
     None \<Rightarrow> Inl DTR_STATUS_INVALID_ARGUMENT
   | Some buffer \<Rightarrow>
     if \<not> versioned (struct_sizeof state_layout) DTR_METAL_RENDERER_STATE_VERSION buffer
     then Inl DTR_STATUS_UNSUPPORTED_VERSION
     else fst (with_renderer handle Inl (\<lambda>r. (copyState (living pg)
       (Some (struct_sizeof state_layout, DTR_METAL_RENDERER_STATE_VERSION)) r, r)) pg))"

text \<open>The status, and whether a display of the view is scheduled.\<close>

definition dtr_metal_renderer_request_draw :: "u64 \<Rightarrow> plugin \<Rightarrow> DtrStatus \<times> bool" where
  "dtr_metal_renderer_request_draw handle pg =
     fst (with_renderer handle (\<lambda>status. (status, False)) (\<lambda>r. (requestDraw (living pg) r, r)) pg)"

text \<open>
  \<open>renderFrame\<close>; \<open>draw\<close> is what Metal makes of a valid frame, \<open>output\<close> and \<open>required\<close> tell
  whether these pointers are not null. The answer carries what is written to them.
\<close>

definition renderFrame ::
  "(DtrMetalFrameHeaderV1 \<Rightarrow> DtrStatus + byte list) \<Rightarrow> byte list option \<Rightarrow> bool \<Rightarrow> u32 \<Rightarrow> bool \<Rightarrow> DtrMetalRenderer \<Rightarrow>
    DtrStatus \<times> u32 option \<times> byte list option" where
  "renderFrame draw frame output capacity required r =
     (if \<not> required then (DTR_STATUS_INVALID_ARGUMENT, None, None)
      else let (result, h) = validateFrame frame r in
        if result \<noteq> DTR_STATUS_OK then (result, Some 0, None)
        else let needed = unat (fh_viewport_width h) * unat (fh_viewport_height h) * 4 in
          if 0xFFFFFFFF < needed then (DTR_STATUS_RESOURCE_EXHAUSTED, Some 0, None)
          else if \<not> output \<or> unat capacity < needed
          then (if \<not> output \<and> capacity \<noteq> 0 then DTR_STATUS_INVALID_ARGUMENT else DTR_STATUS_BUFFER_TOO_SMALL,
            Some (of_nat needed), None)
          else (case draw h of
              Inl status \<Rightarrow> (status, Some (of_nat needed), None)
            | Inr pixels \<Rightarrow> (DTR_STATUS_OK, Some (of_nat needed), Some pixels)))"

definition dtr_metal_renderer_render_rgba ::
  "(DtrMetalFrameHeaderV1 \<Rightarrow> DtrStatus + byte list) \<Rightarrow> u64 \<Rightarrow> byte list option \<Rightarrow> bool \<Rightarrow> u32 \<Rightarrow> bool \<Rightarrow> plugin \<Rightarrow>
    DtrStatus \<times> u32 option \<times> byte list option" where
  "dtr_metal_renderer_render_rgba draw handle frame output capacity required pg =
     (if \<not> required then (DTR_STATUS_INVALID_ARGUMENT, None, None)
      else fst (with_renderer handle (\<lambda>status. (status, Some 0, None))
        (\<lambda>r. (renderFrame draw frame output capacity True r, r)) pg))"

definition dtr_debug_live_view_count :: "plugin \<Rightarrow> 32 word" where
  "dtr_debug_live_view_count pg = pg_live_view_count pg"

definition at_most_INT32_MAX :: "nat \<Rightarrow> nat" where
  "at_most_INT32_MAX n = (if 0x7FFFFFFF < n then 0x7FFFFFFF else n)"

definition dtr_debug_live_metal_renderer_count :: "plugin \<Rightarrow> nat" where
  "dtr_debug_live_metal_renderer_count pg = at_most_INT32_MAX (card (dom (pg_registry pg)))"

definition dtr_debug_live_text_input_client_count :: "text_input \<Rightarrow> nat" where
  "dtr_debug_live_text_input_client_count ti = at_most_INT32_MAX (card (dom (ti_queues ti)))"

section \<open>Initialization\<close>

text \<open>
  The services that the host passes: their address, whether their size and version are current,
  and what registering the view provider and its operation answers, \<open>None\<close> when the callback is
  missing. The global \<open>g_initialized_services\<close> is the address it was initialized with.
\<close>

record da_native_extension_services_v1 =
  sv_address :: nat
  sv_current :: bool
  sv_register_custom_view_provider :: "DaStatus option"
  sv_register_custom_view_operation :: "DaStatus option"

definition dtr_initialize :: "da_native_extension_services_v1 option \<Rightarrow> nat option \<Rightarrow> DaStatus \<times> nat option" where
  "dtr_initialize services initialized = (case services of
     None \<Rightarrow> (DA_STATUS_UNSUPPORTED_VERSION, initialized)
   | Some s \<Rightarrow>
     (case (sv_current s, sv_register_custom_view_provider s, sv_register_custom_view_operation s) of
        (True, Some provider, Some operation) \<Rightarrow>
          (case initialized of
             Some a \<Rightarrow> (if a = sv_address s then DA_STATUS_OK else DA_STATUS_INVALID_ARGUMENT, initialized)
           | None \<Rightarrow>
             if provider \<noteq> DA_STATUS_OK then (provider, None)
             else (operation, if operation = DA_STATUS_OK then Some (sv_address s) else None))
      | _ \<Rightarrow> (DA_STATUS_UNSUPPORTED_VERSION, initialized)))"

text \<open>The callback is the address of a function, \<open>None\<close> when it is null or not set.\<close>

definition dtr_text_input_set_notify_callback :: "nat option \<Rightarrow> nat option \<Rightarrow> DtrStatus \<times> nat option" where
  "dtr_text_input_set_notify_callback callback installed =
     (if callback = None \<or> (installed \<noteq> None \<and> installed \<noteq> callback)
      then (DTR_STATUS_INVALID_ARGUMENT, installed) else (DTR_STATUS_OK, callback))"

section \<open>Requests\<close>

definition no_config :: DtrMetalRendererConfigV1 where
  "no_config = \<lparr>mc_maximum_viewport_width = 0, mc_maximum_viewport_height = 0, mc_maximum_instances = 0,
     mc_atlas_width = 0, mc_atlas_height = 0, mc_maximum_alpha_pages = 0, mc_maximum_color_pages = 0,
     mc_reserved = [0, 0, 0]\<rparr>"

definition initial_plugin :: plugin where
  "initial_plugin = \<lparr>pg_views = Map.empty, pg_live_view_count = 0,
     pg_input = \<lparr>ti_heap = (\<lambda>_. empty_queue), ti_next = 0, ti_queues = Map.empty\<rparr>,
     pg_renderers = (\<lambda>_. initWithConfig no_config 0), pg_next_object = 0, pg_registry = Map.empty,
     pg_next_handle = 1\<rparr>"

text \<open>
  What happens to the plugin: views come and go, the application sends operations and calls
  functions, AppKit delivers keys, and the draw callback and the commands of a renderer run.
\<close>

datatype plugin_request =
  Create_view bool bool
| Dealloc nat
| Operation appkit "nat option" "byte list option"
| Responder nat bool
| Input nat "text_view \<times> text_input \<Rightarrow> text_view \<times> text_input"
| Create_renderer "DtrMetalFailureKind option" "DtrMetalRendererConfigV1 versioned_input" "(nat \<times> u32) option"
| Release bool u64
| Detach nat
| Reset_atlas u64 "DtrMetalAtlasResetV1 versioned_input"
| Upload_atlas u64 "DtrMetalAtlasUploadV1 versioned_input" "byte list option"
| Submit u64 "byte list option" "(nat \<times> u32) option"
| Drawable_unavailable nat nat
| Draw nat nat
| Encode_failed nat flight
| Command_ended nat flight command_outcome

fun plugin_step :: "plugin_request \<Rightarrow> plugin \<Rightarrow> plugin" where
  "plugin_step (Create_view device pipelines) pg = snd (CreateTerminalMetalView device pipelines pg)"
| "plugin_step (Dealloc v) pg = dealloc v pg"
| "plugin_step (Operation ak v payload) pg = snd (PerformTerminalMetalViewOperation ak v payload pg)"
| "plugin_step (Responder v accepted) pg =
     (case pg_views pg v of None \<Rightarrow> pg | Some view \<Rightarrow> put_view v (responderChanged accepted view) pg)"
| "plugin_step (Input v f) pg = (case pg_views pg v of None \<Rightarrow> pg
     | Some view \<Rightarrow> snd (on_input v view DA_STATUS_OK (\<lambda>s. (True, f s)) pg))"
| "plugin_step (Create_renderer failure config output) pg = snd (dtr_metal_renderer_create failure config output pg)"
| "plugin_step (Release main_thread handle) pg = snd (dtr_metal_renderer_release main_thread handle pg)"
| "plugin_step (Detach a) pg = (if r_shuttingDown (pg_renderers pg a) then detach_object a pg else pg)"
| "plugin_step (Reset_atlas handle reset) pg = snd (dtr_metal_renderer_reset_atlas handle reset pg)"
| "plugin_step (Upload_atlas handle request pixels) pg = snd (dtr_metal_renderer_upload_atlas handle request pixels pg)"
| "plugin_step (Submit handle frame output) pg = snd (dtr_metal_renderer_submit handle frame output pg)"
| "plugin_step (Drawable_unavailable a v) pg = on_renderer_object a (draw_no_drawable (living pg) v) pg"
| "plugin_step (Draw a v) pg = (case draw_select (living pg) v (pg_renderers pg a) of
     None \<Rightarrow> pg | Some (_, r) \<Rightarrow> on_renderer_object a (\<lambda>_. r) pg)"
| "plugin_step (Encode_failed a f) pg = on_renderer_object a (draw_encode_failed f) pg"
| "plugin_step (Command_ended a f outcome) pg = on_renderer_object a (completion_handler f outcome) pg"

definition plugin_history :: "plugin_request list \<Rightarrow> plugin \<Rightarrow> plugin" where
  "plugin_history requests = fold plugin_step requests"

end
