(* ===== verification/Dtr_Document.thy ===== *)
theory Dtr_Document
  imports Dtr_Accessibility
begin

text \<open>
  What a consistent accessibility document is, in natural numbers and without the order of the
  code's checks; that the code accepts these and no others; and that its questions find what
  they should in such a document.
\<close>

section \<open>Consistent documents\<close>

abbreviation line_length :: "DtrAccessibilityLineV1 \<Rightarrow> nat" where
  "line_length line \<equiv> unat (al_utf16_length line)"

abbreviation line_columns :: "DtrAccessibilityLineV1 \<Rightarrow> nat" where
  "line_columns line \<equiv> unat (al_column_boundary_count line)"

text \<open>Where a line's text and its boundaries begin: each line before ends in a newline.\<close>

definition line_start :: "DtrAccessibilityLineV1 list \<Rightarrow> nat \<Rightarrow> nat" where
  "line_start lines k = sum_list (map (\<lambda>l. line_length l + 1) (take k lines))"

definition boundary_start :: "DtrAccessibilityLineV1 list \<Rightarrow> nat \<Rightarrow> nat" where
  "boundary_start lines k = sum_list (map line_columns (take k lines))"

definition inside_pair :: "nsstring \<Rightarrow> nat \<Rightarrow> bool" where
  "inside_pair text a \<longleftrightarrow> 0 < a \<and> a < length text \<and> 0xD800 \<le> text ! (a - 1) \<and> text ! (a - 1) \<le> 0xDBFF \<and>
     0xDC00 \<le> text ! a \<and> text ! a \<le> 0xDFFF"

definition column_starts :: "u32 list \<Rightarrow> DtrAccessibilityLineV1 \<Rightarrow> nat list" where
  "column_starts boundaries line = map (\<lambda>b. unat (al_utf16_start line) + unat b) (line_boundaries line boundaries)"

definition line_ok :: "nsstring \<Rightarrow> nat \<Rightarrow> u32 list \<Rightarrow> nat \<Rightarrow> nat \<Rightarrow> nat \<Rightarrow> DtrAccessibilityLineV1 \<Rightarrow> bool" where
  "line_ok text columns boundaries row start bound line \<longleftrightarrow>
     unat (al_row line) = row \<and> unat (al_utf16_start line) = start \<and>
     unat (al_first_column_boundary line) = bound \<and> start + line_length line \<le> length text \<and>
     0 < line_columns line \<and> line_columns line \<le> columns + 1 \<and> bound + line_columns line \<le> length boundaries \<and>
     (let cs = column_starts boundaries line
      in hd cs = start \<and> last cs = start + line_length line \<and> sorted cs \<and> (\<forall>c \<in> set cs. \<not> inside_pair text c))"

definition document_ok :: "nsstring \<Rightarrow> nat \<Rightarrow> DtrAccessibilityLineV1 list \<Rightarrow> u32 list \<Rightarrow> bool" where
  "document_ok text columns lines boundaries \<longleftrightarrow> lines \<noteq> [] \<and>
     (\<forall>k < length lines. line_ok text columns boundaries k (line_start lines k) (boundary_start lines k) (lines ! k)) \<and>
     (\<forall>k < length lines - 1. line_end (lines ! k) < length text \<and> text ! line_end (lines ! k) = 10) \<and>
     line_end (last lines) = length text \<and> boundary_start lines (length lines) = length boundaries"

section \<open>The loops\<close>

lemma unat_u32_add: "unat (a :: u32) + unat b < 4294967296 \<Longrightarrow> unat (a + b) = unat a + unat b"
  by (simp add: unat_word_ariths)

lemma sorted_map_add: "sorted (map (\<lambda>b. n + unat b) bs) \<longleftrightarrow> sorted (map unat bs)"
  by (simp add: sorted_iff_nth_mono)

lemma check_boundaries_eq:
  assumes len: "length value = unat (ah_utf16_length h)" "ah_utf16_length h \<le> 2097152"
    and fits: "unat (al_utf16_start line) + line_length line \<le> length value"
  shows "check_boundaries value h line previous met bs =
    (if sorted (map unat (previous # bs)) \<and> (\<forall>b \<in> set bs. unat b \<le> line_length line \<and>
         \<not> inside_pair value (unat (al_utf16_start line) + unat b))
     then Some (fst met \<or> (\<exists>b \<in> set bs. unat (al_utf16_start line) + unat b = unat (ah_selection_location h)),
       snd met \<or> (\<exists>b \<in> set bs. unat (al_utf16_start line) + unat b =
         unat (ah_selection_location h) + unat (ah_selection_length h)))
     else None)"
proof (induction bs arbitrary: previous met)
  case Nil
  then show ?case by simp
next
  case (Cons b bs)
  have small: "length value \<le> 2097152" using len by (simp add: word_le_nat_alt)
  show ?case
  proof (cases "unat b \<le> line_length line")
    case True
    let ?a = "al_utf16_start line + b"
    have a: "unat ?a = unat (al_utf16_start line) + unat b"
      using True fits small by (intro unat_u32_add) linarith
    have pair: "splits_pair value h ?a = inside_pair value (unat ?a)"
      by (simp add: splits_pair_def inside_pair_def word_less_nat_alt len(1))
    have loc: "?a = ah_selection_location h \<longleftrightarrow> unat ?a = unat (ah_selection_location h)"
      by (simp add: word_unat_eq_iff)
    have bounds: "unat (ah_selection_location h) < 4294967296" "unat (ah_selection_length h) < 4294967296"
      using unat_bound [of "ah_selection_location h"] unat_bound [of "ah_selection_length h"] by simp_all
    have stop: "(ucast ?a :: u64) = ucast (ah_selection_location h) + ucast (ah_selection_length h) \<longleftrightarrow>
        unat ?a = unat (ah_selection_location h) + unat (ah_selection_length h)"
      using bounds unat_bound [of ?a] by (simp add: word_unat_eq_iff unat_word_ariths unat_ucast_u32)
    have previous: "sorted (map unat (previous # b # bs)) \<longleftrightarrow> unat previous \<le> unat b \<and> sorted (map unat (b # bs))"
      by auto
    show ?thesis
      using True by (auto simp: Let_def Cons.IH pair loc stop a previous word_less_nat_alt simp del: list.map)
  next
    case False
    then show ?thesis by (simp add: Let_def word_less_nat_alt)
  qed
qed

text \<open>The bounds that the header guarantees.\<close>

definition sized :: "nsstring \<Rightarrow> DtrAccessibilitySnapshotHeaderV2 \<Rightarrow> u32 list \<Rightarrow> bool" where
  "sized value h boundaries \<longleftrightarrow> length value = unat (ah_utf16_length h) \<and> ah_utf16_length h \<le> 2097152 \<and>
     length boundaries = unat (ah_column_boundary_count h) \<and> ah_column_boundary_count h \<le> 1052672 \<and>
     ah_columns h \<le> 4096 \<and> ah_rows h \<le> 4096"

lemma hd_last_map_add:
  "bs \<noteq> [] \<Longrightarrow> hd (map (\<lambda>b. n + unat b) bs) = n + unat (hd bs)"
  "bs \<noteq> [] \<Longrightarrow> last (map (\<lambda>b. n + unat b) bs) = n + unat (last bs)"
  by (simp_all add: hd_map last_map)

lemma sorted_le_last: "sorted xs \<Longrightarrow> x \<in> set xs \<Longrightarrow> x \<le> last xs"
  by (induction xs) (auto split: if_splits)

definition selection_met :: "DtrAccessibilitySnapshotHeaderV2 \<Rightarrow> u32 list \<Rightarrow> DtrAccessibilityLineV1 list \<Rightarrow> bool \<times> bool \<Rightarrow> bool \<times> bool" where
  "selection_met h boundaries lines met =
     (fst met \<or> (\<exists>l \<in> set lines. unat (ah_selection_location h) \<in> set (column_starts boundaries l)),
      snd met \<or> (\<exists>l \<in> set lines. unat (ah_selection_location h) + unat (ah_selection_length h)
        \<in> set (column_starts boundaries l)))"

lemma selection_met_simps:
  "selection_met h boundaries [] met = met"
  "selection_met h boundaries (l # ls) met = selection_met h boundaries ls (selection_met h boundaries [l] met)"
  by (auto simp: selection_met_def)

lemma line_step:
  assumes sized: "sized value h boundaries"
  shows "(if line_rejected h boundaries row start bound line then None
      else check_boundaries value h line 0 met (line_boundaries line boundaries)) =
    (if line_ok value (unat (ah_columns h)) boundaries (unat row) (unat start) (unat bound) line
     then Some (selection_met h boundaries [line] met) else None)"
proof -
  let ?bs = "line_boundaries line boundaries"
  let ?place = "al_row line = row \<and> al_utf16_start line = start \<and> al_first_column_boundary line = bound \<and>
    unat start + line_length line \<le> length value \<and> 0 < line_columns line \<and>
    line_columns line \<le> unat (ah_columns h) + 1 \<and> unat bound + line_columns line \<le> length boundaries"
  have columns: "unat (ah_columns h + 1) = unat (ah_columns h) + 1"
    using sized by (intro trans [OF unat_u32_add]) (auto simp: sized_def word_le_nat_alt)
  have place: "line_rejected h boundaries row start bound line \<longleftrightarrow>
      \<not> (?place \<and> hd ?bs = 0 \<and> last ?bs = al_utf16_length line)"
    using sized columns unat_bound [of start]
    by (auto simp: line_rejected_def sized_def word_less_nat_alt word_le_nat_alt unat_sub_if' not_less not_le
        word_unat_eq_iff [of "al_column_boundary_count line"])
  show ?thesis
  proof (cases ?place)
    case True
    then have ne: "?bs \<noteq> []" by (auto simp: line_boundaries_def)
    have cs: "column_starts boundaries line = map (\<lambda>b. unat start + unat b) ?bs"
      using True by (simp add: column_starts_def)
    have fits: "unat (al_utf16_start line) + line_length line \<le> length value" using True by simp
    note loop = check_boundaries_eq [OF _ _ fits, of h 0 met ?bs]
    have ok: "line_ok value (unat (ah_columns h)) boundaries (unat row) (unat start) (unat bound) line \<longleftrightarrow>
        hd ?bs = 0 \<and> last ?bs = al_utf16_length line \<and> sorted (map unat ?bs) \<and>
        (\<forall>b \<in> set ?bs. \<not> inside_pair value (unat start + unat b))"
      using True ne hd_last_map_add [OF ne, of "unat start"]
      by (auto simp: line_ok_def Let_def sorted_map_add cs word_unat_eq_iff)
    have le: "sorted (map unat ?bs) \<Longrightarrow> last ?bs = al_utf16_length line \<Longrightarrow> \<forall>b \<in> set ?bs. unat b \<le> line_length line"
      using ne sorted_le_last [of "map unat ?bs"] by (auto simp: last_map)
    have met: "selection_met h boundaries [line] met =
        (fst met \<or> (\<exists>b \<in> set ?bs. unat start + unat b = unat (ah_selection_location h)),
         snd met \<or> (\<exists>b \<in> set ?bs. unat start + unat b = unat (ah_selection_location h) + unat (ah_selection_length h)))"
      by (auto simp: selection_met_def cs image_iff eq_commute)
    show ?thesis unfolding ok met place using True sized le loop by (auto simp: sized_def)
  next
    case False
    then have "\<not> line_ok value (unat (ah_columns h)) boundaries (unat row) (unat start) (unat bound) line"
      by (auto simp: line_ok_def word_unat_eq_iff)
    then show ?thesis unfolding place using False by auto
  qed
qed

definition lines_from ::
  "nsstring \<Rightarrow> nat \<Rightarrow> u32 list \<Rightarrow> nat \<Rightarrow> nat \<Rightarrow> nat \<Rightarrow> DtrAccessibilityLineV1 list \<Rightarrow> bool" where
  "lines_from text columns boundaries row start bound lines \<longleftrightarrow>
     (\<forall>k < length lines. line_ok text columns boundaries (row + k) (start + line_start lines k)
        (bound + boundary_start lines k) (lines ! k)) \<and>
     (\<forall>k < length lines - 1. line_end (lines ! k) < length text \<and> text ! line_end (lines ! k) = 10)"

lemma starts_Cons [simp]:
  "line_start ls 0 = 0" "boundary_start ls 0 = 0"
  "line_start (l # ls) (Suc k) = line_length l + 1 + line_start ls k"
  "boundary_start (l # ls) (Suc k) = line_columns l + boundary_start ls k"
  by (simp_all add: line_start_def boundary_start_def)

lemma lines_from_Cons:
  "lines_from text columns boundaries row start bound (l # ls) \<longleftrightarrow>
     line_ok text columns boundaries row start bound l \<and>
     (ls \<noteq> [] \<longrightarrow> line_end l < length text \<and> text ! line_end l = 10 \<and>
       lines_from text columns boundaries (row + 1) (start + line_length l + 1) (bound + line_columns l) ls)"
proof (cases ls)
  case Nil
  then show ?thesis by (simp add: lines_from_def)
next
  case (Cons m ms)
  have "(\<forall>k < length (l # ls) - 1. Q ((l # ls) ! k)) \<longleftrightarrow> Q l \<and> (\<forall>k < length ls - 1. Q (ls ! k))" for Q
    using Cons All_less_Suc2 [of "length ms" "\<lambda>k. Q ((l # ls) ! k)"] by simp
  note newline = this [of "\<lambda>l. line_end l < length text \<and> text ! line_end l = 10"]
  have lines: "(\<forall>k < length (l # ls). line_ok text columns boundaries (row + k) (start + line_start (l # ls) k)
        (bound + boundary_start (l # ls) k) ((l # ls) ! k)) \<longleftrightarrow>
      line_ok text columns boundaries row start bound l \<and>
      (\<forall>k < length ls. line_ok text columns boundaries (row + 1 + k) (start + line_length l + 1 + line_start ls k)
        (bound + line_columns l + boundary_start ls k) (ls ! k))"
    by (simp add: All_less_Suc2 add.assoc)
  show ?thesis unfolding lines_from_def lines newline using Cons by blast
qed

lemma document_ok_lines_from:
  "document_ok text columns lines boundaries \<longleftrightarrow> lines \<noteq> [] \<and> lines_from text columns boundaries 0 0 0 lines \<and>
     line_end (last lines) = length text \<and> boundary_start lines (length lines) = length boundaries"
  by (auto simp: document_ok_def lines_from_def)

lemma check_lines_eq:
  assumes sized: "sized value h boundaries"
    and "lines \<noteq> []" "unat row + length lines = unat (ah_rows h)"
  shows "check_lines value h boundaries row start bound met lines =
    (if lines_from value (unat (ah_columns h)) boundaries (unat row) (unat start) (unat bound) lines
     then Some (of_nat (line_end (last lines)), bound + of_nat (boundary_start lines (length lines)),
       selection_met h boundaries lines met)
     else None)"
  using assms(2,3)
proof (induction lines arbitrary: row start bound met)
  case (Cons line lines)
  note step = line_step [OF sized, of row start bound line met]
  have rows: "unat (ah_rows h) \<le> 4096" "length value \<le> 2097152" "length boundaries \<le> 1052672"
    using sized by (simp_all add: sized_def word_le_nat_alt)
  show ?case
  proof (cases "line_ok value (unat (ah_columns h)) boundaries (unat row) (unat start) (unat bound) line")
    case False
    with step have "check_lines value h boundaries row start bound met (line # lines) = None"
      by (auto simp: Let_def split: if_splits)
    then show ?thesis using False by (simp add: lines_from_Cons)
  next
    case True
    with step have ok: "\<not> line_rejected h boundaries row start bound line"
      "check_boundaries value h line 0 met (line_boundaries line boundaries) = Some (selection_met h boundaries [line] met)"
      by (auto split: if_splits)
    let ?stop = "al_utf16_start line + al_utf16_length line"
    have fits: "unat start + line_length line \<le> length value" "unat (al_utf16_start line) = unat start"
      "unat bound + line_columns line \<le> length boundaries"
      using True by (simp_all add: line_ok_def)
    have stop: "unat ?stop = line_end line" using fits rows by (simp add: line_end_def unat_u32_add)
    have row: "unat (row + 1) = unat row + 1" using Cons.prems rows by (simp add: unat_u32_add)
    have more: "row + 1 < ah_rows h \<longleftrightarrow> lines \<noteq> []"
      using Cons.prems(2) row by (cases lines) (simp_all add: word_less_nat_alt)
    have le: "ah_utf16_length h \<le> ?stop \<longleftrightarrow> \<not> line_end line < length value"
      using sized by (simp add: word_le_nat_alt stop sized_def not_less)
    have bound: "unat (bound + al_column_boundary_count line) = unat bound + line_columns line"
      using fits rows by (simp add: unat_u32_add)
    show ?thesis
    proof (cases "lines = []")
      case True
      have "?stop = of_nat (line_end line)" using stop by (simp add: word_unat_eq_iff flip: stop)
      then show ?thesis using ok more True \<open>line_ok _ _ _ _ _ _ line\<close>
        by (simp add: Let_def lines_from_Cons boundary_start_def)
    next
      case False
      show ?thesis
      proof (cases "line_end line < length value \<and> value ! line_end line = 10")
        case nl: True
        then have start: "unat (?stop + 1) = line_end line + 1" using rows stop by (simp add: unat_u32_add)
        have e: "line_end line = unat start + line_length line" using fits by (simp add: line_end_def)
        have "unat (row + 1) + length lines = unat (ah_rows h)" using row Cons.prems(2) by simp
        note IH = Cons.IH [OF False this, of "?stop + 1" "bound + al_column_boundary_count line" "selection_met h boundaries [line] met"]
        show ?thesis
          using ok more False nl le True IH
          by (simp add: Let_def stop lines_from_Cons row start bound e selection_met_simps(2) [of h boundaries line lines])
      next
        case False
        then show ?thesis using ok more \<open>lines \<noteq> []\<close> le by (auto simp: Let_def stop lines_from_Cons)
      qed
    qed
  qed
qed simp

section \<open>What is accepted\<close>

definition selection_ok ::
  "DtrAccessibilitySnapshotHeaderV2 \<Rightarrow> nsstring \<Rightarrow> DtrAccessibilityLineV1 list \<Rightarrow> u32 list \<Rightarrow> bool" where
  "selection_ok h text lines boundaries \<longleftrightarrow>
     (let first = unat (ah_selection_location h); stop = first + unat (ah_selection_length h)
      in stop \<le> length text \<and> (\<exists>l \<in> set lines. first \<in> set (column_starts boundaries l)) \<and>
         (\<exists>l \<in> set lines. stop \<in> set (column_starts boundaries l)) \<and>
         (has_flag h DTR_ACCESSIBILITY_HAS_SELECTION \<longleftrightarrow> first \<noteq> stop))"

definition cursor_ok ::
  "DtrAccessibilitySnapshotHeaderV2 \<Rightarrow> DtrAccessibilityLineV1 list \<Rightarrow> u32 list \<Rightarrow> bool" where
  "cursor_ok h lines boundaries \<longleftrightarrow>
     (if has_flag h DTR_ACCESSIBILITY_HAS_CURSOR
      then unat (ah_cursor_row h) < length lines \<and>
        (let cs = column_starts boundaries (lines ! unat (ah_cursor_row h))
         in unat (ah_cursor_column h) < length cs \<and>
            unat (ah_cursor_location h) = cs ! unat (ah_cursor_column h))
      else ah_cursor_location h = UINT32_MAX \<and> ah_cursor_row h = UINT32_MAX \<and> ah_cursor_column h = UINT32_MAX) \<and>
     (\<not> has_flag h DTR_ACCESSIBILITY_HAS_SELECTION \<longrightarrow>
       ah_selection_location h = (if has_flag h DTR_ACCESSIBILITY_HAS_CURSOR then ah_cursor_location h else 0))"

definition accessibility_spec ::
  "(byte list \<Rightarrow> nsstring option) \<Rightarrow> (nsstring \<Rightarrow> byte list option) \<Rightarrow> DtrAccessibilitySnapshotHeaderV2 \<Rightarrow>
    DtrAccessibilityLineV1 list \<Rightarrow> u32 list \<Rightarrow> byte list \<Rightarrow> accessibility \<Rightarrow> nsstring \<Rightarrow> bool" where
  "accessibility_spec decode encode h lines boundaries text v value \<longleftrightarrow>
     \<not> accessibility_header_rejected h v \<and> decode text = Some value \<and> encode value = Some text \<and>
     length value = unat (ah_utf16_length h) \<and>
     document_ok value (unat (ah_columns h)) lines boundaries \<and>
     selection_ok h value lines boundaries \<and> cursor_ok h lines boundaries"

lemma length_column_starts:
  "line_ok text columns boundaries row start bound line \<Longrightarrow> length (column_starts boundaries line) = line_columns line"
  by (auto simp: line_ok_def column_starts_def line_boundaries_def)

lemma document_line:
  "document_ok text columns lines boundaries \<Longrightarrow> k < length lines \<Longrightarrow>
     line_ok text columns boundaries k (line_start lines k) (boundary_start lines k) (lines ! k)"
  by (simp add: document_ok_def)

lemma starts_last:
  assumes "lines \<noteq> []"
  shows "boundary_start lines (length lines) = boundary_start lines (length lines - 1) + line_columns (last lines)"
    "line_start lines (length lines) = line_start lines (length lines - 1) + line_length (last lines) + 1"
proof -
  obtain ls l where "lines = ls @ [l]" using assms by (cases lines rule: rev_cases) auto
  then show "boundary_start lines (length lines) = boundary_start lines (length lines - 1) + line_columns (last lines)"
    "line_start lines (length lines) = line_start lines (length lines - 1) + line_length (last lines) + 1"
    by (simp_all add: boundary_start_def line_start_def)
qed

lemma cursor_boundary:
  assumes ok: "line_ok text columns boundaries row start bound line" and c: "c < al_column_boundary_count line"
    and small: "length text \<le> 2097152" "length boundaries \<le> 1052672"
  shows "unat (al_utf16_start line + boundaries ! unat (al_first_column_boundary line + c)) =
    column_starts boundaries line ! unat c"
proof -
  have n: "unat c < line_columns line" using c by (simp add: word_less_nat_alt)
  have b: "unat (al_first_column_boundary line) + line_columns line \<le> length boundaries"
    using ok by (simp add: line_ok_def)
  have i: "unat (al_first_column_boundary line + c) = unat (al_first_column_boundary line) + unat c"
    using n b small by (intro unat_u32_add) linarith
  have cs: "column_starts boundaries line ! unat c =
      unat (al_utf16_start line) + unat (boundaries ! (unat (al_first_column_boundary line) + unat c))"
    using n b by (simp add: column_starts_def line_boundaries_def)
  have "column_starts boundaries line ! unat c \<le> last (column_starts boundaries line)"
    using ok n length_column_starts [OF ok] by (intro sorted_le_last) (auto simp: line_ok_def Let_def)
  then have "column_starts boundaries line ! unat c \<le> length text" using ok by (simp add: line_ok_def Let_def)
  then show ?thesis using small cs i by (simp add: unat_u32_add)
qed

lemma cursor_rejected_eq:
  assumes doc: "document_ok value (unat (ah_columns h)) lines boundaries" and sized: "sized value h boundaries"
    and rows: "length lines = unat (ah_rows h)" and sel: "selection_ok h value lines boundaries"
  shows "\<not> cursor_rejected h lines boundaries \<longleftrightarrow> cursor_ok h lines boundaries"
proof -
  have small: "length value \<le> 2097152" "length boundaries \<le> 1052672"
    using sized by (simp_all add: sized_def word_le_nat_alt)
  have no_selection: "\<not> has_flag h DTR_ACCESSIBILITY_HAS_SELECTION \<Longrightarrow> ah_selection_length h = 0"
    using sel by (simp add: selection_ok_def Let_def unat_eq_zero)
  show ?thesis
  proof (cases "has_flag h DTR_ACCESSIBILITY_HAS_CURSOR \<and> ah_cursor_row h < ah_rows h")
    case True
    let ?k = "unat (ah_cursor_row h)" let ?line = "lines ! ?k"
    have k: "?k < length lines" using True rows by (simp add: word_less_nat_alt)
    note ok = document_line [OF doc k]
    have n: "length (column_starts boundaries ?line) = line_columns ?line" by (rule length_column_starts [OF ok])
    have place: "ah_cursor_column h < al_column_boundary_count ?line \<Longrightarrow>
        ah_cursor_location h = al_utf16_start ?line + boundaries ! unat (al_first_column_boundary ?line + ah_cursor_column h)
        \<longleftrightarrow> unat (ah_cursor_location h) = column_starts boundaries ?line ! unat (ah_cursor_column h)"
      using cursor_boundary [OF ok _ small] by (simp add: word_unat_eq_iff)
    have inside: "column_starts boundaries ?line ! unat (ah_cursor_column h) \<le> length value"
      if "ah_cursor_column h < al_column_boundary_count ?line"
    proof -
      have "column_starts boundaries ?line ! unat (ah_cursor_column h) \<le> last (column_starts boundaries ?line)"
        using ok n that by (intro sorted_le_last) (auto simp: line_ok_def Let_def word_less_nat_alt)
      then show ?thesis using ok by (simp add: line_ok_def Let_def)
    qed
    show ?thesis using True k n place inside no_selection sized
      by (auto simp: cursor_rejected_def cursor_ok_def Let_def word_less_nat_alt word_le_nat_alt not_le sized_def)
  next
    case False
    then show ?thesis using no_selection rows
      by (auto simp: cursor_rejected_def cursor_ok_def word_less_nat_alt word_le_nat_alt not_le)
  qed
qed

lemma selection_rejected_eq:
  assumes doc: "lines_from value (unat (ah_columns h)) boundaries 0 0 0 lines" "lines \<noteq> []"
    and sized: "sized value h boundaries"
  shows "\<not> selection_rejected h (of_nat (line_end (last lines)), of_nat (boundary_start lines (length lines)),
      selection_met h boundaries lines (False, False)) \<longleftrightarrow>
    line_end (last lines) = length value \<and> boundary_start lines (length lines) = length boundaries \<and>
    selection_ok h value lines boundaries"
proof -
  let ?n = "length lines - 1"
  have small: "length value \<le> 2097152" "length boundaries \<le> 1052672"
    using sized by (simp_all add: sized_def word_le_nat_alt)
  have last: "line_ok value (unat (ah_columns h)) boundaries ?n (line_start lines ?n) (boundary_start lines ?n) (last lines)"
    using doc by (simp add: lines_from_def last_conv_nth)
  then have le: "line_end (last lines) \<le> length value" "boundary_start lines (length lines) \<le> length boundaries"
    using starts_last(1) [OF doc(2)] by (simp_all add: line_ok_def line_end_def)
  have w: "of_nat n = (c :: u32) \<longleftrightarrow> n = unat c" if "n < 4294967296" for n c
    using that by (auto simp: word_unat_eq_iff unat_of_nat)
  have stop: "(of_nat (line_end (last lines)) :: u32) = ah_utf16_length h \<longleftrightarrow> line_end (last lines) = length value"
    "(of_nat (boundary_start lines (length lines)) :: u32) = ah_column_boundary_count h \<longleftrightarrow>
       boundary_start lines (length lines) = length boundaries"
    using le small sized w [of "line_end (last lines)" "ah_utf16_length h"]
      w [of "boundary_start lines (length lines)" "ah_column_boundary_count h"] by (auto simp: sized_def)
  have sub: "ah_utf16_length h - ah_selection_location h < ah_selection_length h \<longleftrightarrow>
      length value < unat (ah_selection_location h) + unat (ah_selection_length h)"
    if "\<not> ah_utf16_length h < ah_selection_location h"
    using that sized by (auto simp: word_less_nat_alt unat_sub_if' sized_def not_less)
  show ?thesis
    using stop sub sized
    by (auto simp: selection_rejected_def selection_ok_def selection_met_def Let_def sized_def word_less_nat_alt
        unat_gt_0)
qed

theorem update_accepts_iff:
  assumes "length lines = unat (ah_line_count h)" "length boundaries = unat (ah_column_boundary_count h)"
  shows "fst (updateAccessibilitySnapshot decode encode h lines boundaries text v) \<longleftrightarrow>
    (\<exists>value. accessibility_spec decode encode h lines boundaries text v value)"
proof (cases "accessibility_header_rejected h v \<or> accessibility_text decode encode h text = None")
  case True
  then show ?thesis
    by (auto simp: updateAccessibilitySnapshot_def accessibility_spec_def accessibility_text_def split: option.splits if_splits)
next
  case False
  then obtain str where h: "\<not> accessibility_header_rejected h v"
    and t: "accessibility_text decode encode h text = Some str" by auto
  have d: "decode text = Some str" "encode str = Some text" "length str = unat (ah_utf16_length h)"
    using t by (auto simp: accessibility_text_def split: option.splits if_splits)
  have sized: "sized str h boundaries"
    using h d(3) assms(2) by (simp add: sized_def accessibility_header_rejected_def not_less)
  have rows: "length lines = unat (ah_rows h)" "lines \<noteq> []"
    using h assms(1) by (auto simp: accessibility_header_rejected_def unat_eq_zero)
  note loop = check_lines_eq [OF sized rows(2), of 0 0 0 "(False, False)"]
  have "fst (updateAccessibilitySnapshot decode encode h lines boundaries text v) \<longleftrightarrow>
      lines_from str (unat (ah_columns h)) boundaries 0 0 0 lines \<and>
      \<not> selection_rejected h (of_nat (line_end (last lines)), of_nat (boundary_start lines (length lines)),
        selection_met h boundaries lines (False, False)) \<and> \<not> cursor_rejected h lines boundaries"
    using h t loop rows by (simp add: updateAccessibilitySnapshot_def)
  also have "\<dots> \<longleftrightarrow> document_ok str (unat (ah_columns h)) lines boundaries \<and>
      selection_ok h str lines boundaries \<and> cursor_ok h lines boundaries"
    using selection_rejected_eq [OF _ rows(2) sized] cursor_rejected_eq [OF _ sized rows(1)] rows(2)
    unfolding document_ok_lines_from by blast
  finally show ?thesis using h d by (simp add: accessibility_spec_def)
qed

lemma update_state:
  assumes "length lines = unat (ah_line_count h)" "length boundaries = unat (ah_column_boundary_count h)"
  shows "snd (updateAccessibilitySnapshot decode encode h lines boundaries text v) =
    (if fst (updateAccessibilitySnapshot decode encode h lines boundaries text v)
     then store_accessibility h lines boundaries (the (decode text)) v else v)"
  by (auto simp: updateAccessibilitySnapshot_def accessibility_text_def split: option.splits)

section \<open>The document of a view\<close>

text \<open>Either the view never had a document, or it has a consistent one.\<close>

definition view_document_ok :: "accessibility \<Rightarrow> bool" where
  "view_document_ok v \<longleftrightarrow>
     (ax_generation v = 0 \<and> ax_rows v = 0 \<and> ax_lines v = [] \<and> ax_text v = []) \<or>
     (ax_generation v \<noteq> 0 \<and> unat (ax_rows v) = length (ax_lines v) \<and>
      document_ok (ax_text v) (unat (ax_columns v)) (ax_lines v) (ax_boundaries v) \<and> in_text (ax_selection v) v \<and>
      (ax_has_selection v \<longleftrightarrow> range_length (ax_selection v) \<noteq> 0))"

lemma view_document_ok_new: "view_document_ok new_accessibility"
  by (simp add: view_document_ok_def new_accessibility_def)

lemma view_document_ok_store:
  assumes "accessibility_spec decode encode h lines boundaries text v value"
    and n: "length lines = unat (ah_line_count h)"
  shows "view_document_ok (store_accessibility h lines boundaries value v)"
proof -
  let ?first = "ah_selection_location h" let ?len = "ah_selection_length h"
  have sel: "unat ?first + unat ?len \<le> length value" "has_flag h DTR_ACCESSIBILITY_HAS_SELECTION \<longleftrightarrow> ?len \<noteq> 0"
    using assms(1) by (auto simp: accessibility_spec_def selection_ok_def Let_def unat_eq_zero)
  have "ucast ?first \<noteq> NSNotFound"
  proof
    assume "ucast ?first = NSNotFound"
    from arg_cong [OF this, of unat] have "unat ?first = 9223372036854775807" by (simp add: unat_ucast_u32)
    then show False using unat_bound [of ?first] by simp
  qed
  moreover have "(ucast ?len :: u64) = 0 \<longleftrightarrow> ?len = 0" by (simp add: word_unat_eq_iff unat_ucast_u32)
  ultimately show ?thesis
    using assms sel
    by (auto simp: view_document_ok_def store_accessibility_def in_text_def Let_def accessibility_spec_def
        accessibility_header_rejected_def unat_ucast_u32)
qed

lemma update_keeps_document:
  assumes "length lines = unat (ah_line_count h)" "length boundaries = unat (ah_column_boundary_count h)"
    and "view_document_ok v"
  shows "view_document_ok (snd (updateAccessibilitySnapshot decode encode h lines boundaries text v))"
  using update_state [OF assms(1,2)] update_accepts_iff [OF assms(1,2)] assms
  by (metis accessibility_spec_def option.sel view_document_ok_store)

section \<open>Lines\<close>

definition line_text :: "nsstring \<Rightarrow> DtrAccessibilityLineV1 \<Rightarrow> nsstring" where
  "line_text text line = take (line_length line) (drop (unat (al_utf16_start line)) text)"

fun join_lines :: "nsstring list \<Rightarrow> nsstring" where
  "join_lines [] = []"
| "join_lines [s] = s"
| "join_lines (s # t # ss) = s @ 10 # join_lines (t # ss)"

lemma lines_from_join:
  assumes "lines_from text columns boundaries row start bound lines" "lines \<noteq> []"
    "line_end (last lines) = length text"
  shows "drop start text = join_lines (map (line_text text) lines)"
  using assms
proof (induction lines arbitrary: row start bound)
  case (Cons l ls)
  have l: "unat (al_utf16_start l) = start" "start + line_length l \<le> length text"
    using Cons.prems(1) by (simp_all add: lines_from_Cons line_ok_def)
  show ?case
  proof (cases ls)
    case Nil
    then show ?thesis using l Cons.prems(3) by (simp add: line_text_def line_end_def)
  next
    case (Cons m ms)
    have nl: "line_end l < length text" "text ! line_end l = 10"
      and rest: "lines_from text columns boundaries (row + 1) (start + line_length l + 1) (bound + line_columns l) ls"
      using Cons.prems(1) local.Cons by (simp_all add: lines_from_Cons)
    have "drop (start + line_length l + 1) text = join_lines (map (line_text text) ls)"
      using Cons.IH [OF rest] local.Cons Cons.prems(3) by simp
    moreover have "drop start text = line_text text l @ drop (start + line_length l) text"
      using l by (simp add: line_text_def) (metis add.commute append_take_drop_id drop_drop)
    moreover have "drop (start + line_length l) text = 10 # drop (start + line_length l + 1) text"
      using nl l by (simp add: line_end_def flip: Cons_nth_drop_Suc)
    ultimately show ?thesis using local.Cons by simp
  qed
qed simp

lemma document_join: "document_ok text columns lines boundaries \<Longrightarrow> text = join_lines (map (line_text text) lines)"
  using lines_from_join [of "text" columns boundaries 0 0 0 lines] by (simp add: document_ok_lines_from)

lemma line_start_Suc: "k < length lines \<Longrightarrow> line_start lines (Suc k) = line_start lines k + line_length (lines ! k) + 1"
  by (simp add: line_start_def take_Suc_conv_app_nth)

lemma line_start_mono: "j \<le> k \<Longrightarrow> line_start lines j \<le> line_start lines k"
proof (induction k)
  case (Suc k)
  have "line_start lines k \<le> line_start lines (Suc k)"
  proof (cases "k < length lines")
    case True
    then show ?thesis by (simp add: line_start_Suc)
  next
    case False
    then show ?thesis by (simp add: line_start_def)
  qed
  then show ?case using Suc by (cases "j = Suc k") auto
qed simp

lemma document_line_end:
  "document_ok text columns lines boundaries \<Longrightarrow> k < length lines \<Longrightarrow>
     unat (al_utf16_start (lines ! k)) = line_start lines k \<and> line_end (lines ! k) + 1 = line_start lines (Suc k)"
  using document_line [of "text" columns lines boundaries k] by (simp add: line_ok_def line_end_def line_start_Suc)

text \<open>An index of the text lies on one line, or on the newline that ends it.\<close>

lemma find_line_eq:
  assumes "\<forall>k < length lines. line_end (lines ! k) + 1 = start (Suc k)" "\<forall>j k. j \<le> k \<longrightarrow> start j \<le> (start k :: nat)"
    and "row + length lines = rows" "lines \<noteq> []" "index \<le> line_end (last lines)"
  shows "\<exists>k < length lines. find_line rows index row lines = Some (row + k) \<and> index \<le> line_end (lines ! k) \<and>
    (0 < k \<longrightarrow> start k \<le> index)"
  using assms
proof (induction lines arbitrary: row start)
  case (Cons l ls)
  show ?case
  proof (cases "index \<le> line_end l \<or> ls = []")
    case True
    then show ?thesis using Cons.prems(3,5) by (intro exI [of _ 0]) auto
  next
    case False
    have a: "\<forall>k < length ls. line_end (ls ! k) + 1 = start (Suc (Suc k))" "line_end l + 1 = start (Suc 0)"
      using Cons.prems(1) by (auto simp: All_less_Suc2)
    have b: "\<forall>j k. j \<le> k \<longrightarrow> start (Suc j) \<le> start (Suc k)" using Cons.prems(2) by auto
    obtain k where k: "k < length ls" "find_line rows index (row + 1) ls = Some (row + 1 + k)"
      "index \<le> line_end (ls ! k)" "0 < k \<longrightarrow> start (Suc k) \<le> index"
      using Cons.IH [of "\<lambda>k. start (Suc k)" "row + 1"] a(1) b Cons.prems(3,5) False by auto
    have "start (Suc k) \<le> index"
      using k(4) a(2) False by (cases k) auto
    moreover have "row + 1 \<noteq> rows" using Cons.prems(3) False by (cases ls) auto
    ultimately show ?thesis using k False by (intro exI [of _ "Suc k"]) simp
  qed
qed simp

theorem line_for_index:
  assumes doc: "document_ok (ax_text v) (unat (ax_columns v)) (ax_lines v) (ax_boundaries v)"
    and rows: "unat (ax_rows v) = length (ax_lines v)" and index: "index \<le> length (ax_text v)"
  shows "\<exists>k < length (ax_lines v). terminalAccessibilityLineForUtf16Index index v = Some k \<and>
    line_start (ax_lines v) k \<le> index \<and> index < line_start (ax_lines v) (Suc k)"
proof -
  have ne: "ax_lines v \<noteq> []" "line_end (last (ax_lines v)) = length (ax_text v)"
    using doc by (simp_all add: document_ok_def)
  obtain k where k: "k < length (ax_lines v)" "find_line (length (ax_lines v)) index 0 (ax_lines v) = Some (0 + k)"
    "index \<le> line_end (ax_lines v ! k)" "0 < k \<longrightarrow> line_start (ax_lines v) k \<le> index"
    using find_line_eq [of "ax_lines v" "line_start (ax_lines v)" 0 "length (ax_lines v)" index]
      document_line_end [OF doc] line_start_mono ne index by auto
  moreover have "index < line_start (ax_lines v) (Suc k)" using document_line_end [OF doc k(1)] k(3) by simp
  moreover have "line_start (ax_lines v) k \<le> index" using k(4) by (cases k) (simp_all add: line_start_def)
  ultimately show ?thesis using index rows by (auto simp: terminalAccessibilityLineForUtf16Index_def)
qed

section \<open>Columns\<close>

text \<open>
  The first of the columns that start where the character starts which the offset is in.
\<close>

definition column_at :: "u32 list \<Rightarrow> nat \<Rightarrow> nat \<Rightarrow> bool" where
  "column_at bs relative c \<longleftrightarrow> c < length bs \<and> unat (bs ! c) \<le> relative \<and>
     (\<forall>j < length bs. unat (bs ! j) \<le> relative \<longrightarrow> unat (bs ! j) \<le> unat (bs ! c)) \<and>
     (\<forall>j < c. unat (bs ! j) < unat (bs ! c))"

lemma column_at_unique: "column_at bs relative c \<Longrightarrow> column_at bs relative d \<Longrightarrow> c = d"
proof (rule ccontr)
  assume c: "column_at bs relative c" and d: "column_at bs relative d" and "c \<noteq> d"
  have "unat (bs ! c) = unat (bs ! d)" using c d by (simp add: column_at_def order_antisym)
  moreover have "unat (bs ! c) < unat (bs ! d) \<or> unat (bs ! d) < unat (bs ! c)"
    using c d \<open>c \<noteq> d\<close> by (auto simp: column_at_def linorder_neq_iff)
  ultimately show False by simp
qed

lemma find_column_at:
  assumes sorted: "\<forall>i j. i \<le> j \<longrightarrow> j < length bs \<longrightarrow> unat (bs ! i) \<le> unat (bs ! j)"
    and last: "relative \<le> unat (bs ! (length bs - 1))"
    and "column + k + 1 = length bs" "leader \<le> column" "unat (bs ! column) \<le> relative"
    and "\<forall>j < column. unat (bs ! j) \<noteq> relative" "\<forall>j < leader. unat (bs ! j) < unat (bs ! leader)"
    and "\<forall>j. leader \<le> j \<longrightarrow> j < column \<longrightarrow> bs ! j = bs ! leader"
  shows "column_at bs relative (find_column k relative leader column bs)"
  using assms(3-)
proof (induction k arbitrary: leader column)
  case 0
  then have n: "length bs = Suc column" by simp
  then have c: "column = length bs - 1" "0 < length bs" by simp_all
  have eq: "unat (bs ! column) = relative" using 0(3) last c by simp
  have "unat (bs ! j) < unat (bs ! column)" if "j < column" for j
  proof (rule le_neq_implies_less)
    show "unat (bs ! j) \<le> unat (bs ! column)" using sorted that n by simp
    show "unat (bs ! j) \<noteq> unat (bs ! column)" using 0(4) that eq by simp
  qed
  then show ?case using c eq sorted by (simp add: column_at_def)
next
  case (Suc k)
  let ?leader = "if bs ! column \<noteq> bs ! leader then column else leader"
  have in_range: "column < length bs" "column + 1 < length bs" using Suc.prems(1) by simp_all
  have before: "\<forall>j < ?leader. unat (bs ! j) < unat (bs ! ?leader)"
  proof (cases "bs ! column = bs ! leader")
    case True
    then show ?thesis using Suc.prems(5) by simp
  next
    case False
    have "unat (bs ! j) < unat (bs ! column)" if j: "j < column" for j
    proof -
      have "unat (bs ! leader) \<le> unat (bs ! column)" using sorted Suc.prems(2) in_range by simp
      moreover have "unat (bs ! leader) \<noteq> unat (bs ! column)" using False by (simp add: word_unat_eq_iff)
      ultimately have less: "unat (bs ! leader) < unat (bs ! column)" by simp
      show ?thesis
      proof (cases "j < leader")
        case True
        then show ?thesis using Suc.prems(5) less by fastforce
      next
        case False
        then have "bs ! j = bs ! leader" using Suc.prems(6) j by (meson not_less)
        then show ?thesis using less by simp
      qed
    qed
    then show ?thesis using False by simp
  qed
  have same: "bs ! ?leader = bs ! column" "?leader \<le> column" using Suc.prems(2) by auto
  have group: "\<forall>j. ?leader \<le> j \<longrightarrow> j < column + 1 \<longrightarrow> bs ! j = bs ! ?leader"
  proof (intro allI impI)
    fix j assume j: "?leader \<le> j" "j < column + 1"
    show "bs ! j = bs ! ?leader"
    proof (cases "j = column")
      case True
      then show ?thesis using same(1) by simp
    next
      case False
      with j have "j < column" "?leader = leader" "leader \<le> j" by (auto split: if_splits)
      then have "bs ! j = bs ! leader" using Suc.prems(6) by blast
      then show ?thesis using \<open>?leader = leader\<close> by simp
    qed
  qed
  show ?case
  proof (cases "relative < unat (bs ! (column + 1)) \<or> relative = unat (bs ! column)")
    case True
    have "unat (bs ! j) \<le> unat (bs ! column)" if "j < length bs" "unat (bs ! j) \<le> relative" for j
    proof (cases "j \<le> column")
      case True
      then show ?thesis using sorted in_range by simp
    next
      case False
      then have "unat (bs ! (column + 1)) \<le> unat (bs ! j)" using sorted that(1) by simp
      then show ?thesis using \<open>relative < _ \<or> _\<close> that(2) by auto
    qed
    then have "column_at bs relative ?leader"
      using same before in_range Suc.prems(3) by (simp add: column_at_def)
    then show ?thesis using True by (simp add: Let_def)
  next
    case False
    have differ: "\<forall>j < column + 1. unat (bs ! j) \<noteq> relative"
      using Suc.prems(4) False by (metis less_Suc_eq Suc_eq_plus1)
    have "column_at bs relative (find_column k relative ?leader (column + 1) bs)"
    proof (rule Suc.IH [OF _ _ _ differ before group])
      show "column + 1 + k + 1 = length bs" using Suc.prems(1) by simp
      show "?leader \<le> column + 1" using same(2) by linarith
      show "unat (bs ! (column + 1)) \<le> relative" using False by linarith
    qed
    then show ?thesis using False by (simp add: Let_def)
  qed
qed

text \<open>The column of an index within its line.\<close>

lemma line_boundaries_sorted:
  assumes "line_ok text columns boundaries row start bound line"
  defines "bs \<equiv> line_boundaries line boundaries"
  shows "length bs = line_columns line" "0 < length bs" "bs ! 0 = 0" "unat (bs ! (length bs - 1)) = line_length line"
    "\<forall>i j. i \<le> j \<longrightarrow> j < length bs \<longrightarrow> unat (bs ! i) \<le> unat (bs ! j)"
proof -
  show n: "length bs = line_columns line"
    using length_column_starts [OF assms(1)] by (simp add: column_starts_def bs_def)
  show ne: "0 < length bs" using assms(1) n by (simp add: line_ok_def)
  then have "bs \<noteq> []" by simp
  note ends = hd_last_map_add [OF this, of "unat (al_utf16_start line)"]
  have cs: "column_starts boundaries line = map (\<lambda>b. unat (al_utf16_start line) + unat b) bs"
    by (simp add: column_starts_def bs_def)
  have "unat (hd bs) = 0" "unat (last bs) = line_length line" "sorted (map unat bs)"
    using assms(1) ends by (simp_all add: line_ok_def Let_def cs sorted_map_add)
  then show "bs ! 0 = 0" "unat (bs ! (length bs - 1)) = line_length line"
    "\<forall>i j. i \<le> j \<longrightarrow> j < length bs \<longrightarrow> unat (bs ! i) \<le> unat (bs ! j)"
    using ne by (simp_all add: hd_conv_nth last_conv_nth sorted_iff_nth_mono unat_eq_zero)
qed

theorem column_for_index:
  assumes ok: "line_ok (ax_text v) columns (ax_boundaries v) row start bound line"
    and index: "start \<le> index" "index \<le> start + line_length line"
  shows "column_at (line_boundaries line (ax_boundaries v)) (index - start)
    (terminalAccessibilityColumnForLine line index v)"
proof -
  let ?bs = "line_boundaries line (ax_boundaries v)"
  note b = line_boundaries_sorted [OF ok]
  have present: "terminalAccessibilityBoundariesForLine line v = Some ?bs" "unat (al_utf16_start line) = start"
    "al_column_boundary_count line \<noteq> 0"
    using ok by (auto simp: terminalAccessibilityBoundariesForLine_def Let_def line_ok_def)
  have rel: "(if index - start < line_length line then index - start else line_length line) = index - start"
    "(if index \<le> start then 0 else index - start) = index - start"
    using index by auto
  have "terminalAccessibilityColumnForLine line index v = find_column (length ?bs - 1) (index - start) 0 0 ?bs"
    unfolding terminalAccessibilityColumnForLine_def present option.case Let_def rel using present(3) by simp
  moreover have "column_at ?bs (index - start) (find_column (length ?bs - 1) (index - start) 0 0 ?bs)"
    by (rule find_column_at [OF b(5)]) (use b index in auto)
  ultimately show ?thesis by simp
qed

theorem cell_round_trip:
  assumes doc: "document_ok (ax_text v) (unat (ax_columns v)) (ax_lines v) (ax_boundaries v)"
    and rows: "unat (ax_rows v) = length (ax_lines v)"
    and cell: "row < length (ax_lines v)" "column < line_columns (ax_lines v ! row)"
  shows "\<exists>i c. index_at_cell row column v = Some i \<and> i \<le> length (ax_text v) \<and> \<not> inside_pair (ax_text v) i \<and>
    terminalAccessibilityLineForUtf16Index i v = Some row \<and>
    terminalAccessibilityColumnForLine (ax_lines v ! row) i v = c \<and> c \<le> column \<and>
    index_at_cell row c v = Some i \<and> (\<forall>d < c. index_at_cell row d v \<noteq> Some i)"
proof -
  let ?line = "ax_lines v ! row" let ?bs = "line_boundaries ?line (ax_boundaries v)"
  note ok = document_line [OF doc cell(1)]
  note b = line_boundaries_sorted [OF ok]
  have present: "terminalAccessibilityLineAtIndex row v = Some ?line"
    "terminalAccessibilityBoundariesForLine ?line v = Some ?bs" "unat (al_utf16_start ?line) = line_start (ax_lines v) row"
    using ok cell(1) rows by (auto simp: terminalAccessibilityLineAtIndex_def terminalAccessibilityBoundariesForLine_def
        Let_def line_ok_def)
  have at: "index_at_cell row d v = Some (line_start (ax_lines v) row + unat (?bs ! d))" if "d < line_columns ?line" for d
  proof -
    have "\<not> line_columns ?line - 1 < d" using that by simp
    then show ?thesis using cell(1) rows by (simp add: index_at_cell_def present)
  qed
  let ?i = "line_start (ax_lines v) row + unat (?bs ! column)"
  let ?c = "terminalAccessibilityColumnForLine ?line ?i v"
  have in_line: "unat (?bs ! column) \<le> line_length ?line" using b(5) [rule_format, of column "length ?bs - 1"] b(1,2) cell(2) unfolding b(4) by linarith
  have c: "column_at ?bs (unat (?bs ! column)) ?c"
    using column_for_index [OF ok, of ?i] in_line by simp
  have "unat (?bs ! ?c) = unat (?bs ! column)" using c cell(2) b(1) by (simp add: column_at_def order_antisym)
  then have eq: "?bs ! ?c = ?bs ! column" by (simp add: word_unat_eq_iff)
  have le: "?c \<le> column" using c eq by (auto simp: column_at_def not_less [symmetric])
  have first: "index_at_cell row d v \<noteq> Some ?i" if "d < ?c" for d
  proof -
    have "unat (?bs ! d) < unat (?bs ! ?c)" using c that by (simp add: column_at_def)
    then show ?thesis using at [of d] that le cell(2) eq by simp
  qed
  have "?i \<in> set (column_starts (ax_boundaries v) ?line)"
    using cell(2) b(1) present(3) by (auto simp: column_starts_def)
  then have "\<not> inside_pair (ax_text v) ?i" using ok by (auto simp: line_ok_def Let_def)
  moreover have short: "?i \<le> length (ax_text v)" using ok in_line by (simp add: line_ok_def)
  moreover have "terminalAccessibilityLineForUtf16Index ?i v = Some row"
  proof -
    obtain k where k: "k < length (ax_lines v)" "terminalAccessibilityLineForUtf16Index ?i v = Some k"
      "line_start (ax_lines v) k \<le> ?i" "?i < line_start (ax_lines v) (Suc k)"
      using line_for_index [OF doc rows short] by blast
    have "?i < line_start (ax_lines v) (Suc row)" using in_line cell(1) by (simp add: line_start_Suc)
    then have "\<not> row < k" "\<not> k < row"
      using k(3,4) line_start_mono [of "Suc row" k "ax_lines v"] line_start_mono [of "Suc k" row "ax_lines v"] by auto
    then show ?thesis using k(2) by simp
  qed
  ultimately show ?thesis using at [OF cell(2)] at [of ?c] le cell(2) eq first by auto
qed

end
