(* ===== verification/Dtr_Views_Inv.thy ===== *)
theory Dtr_Views_Inv
  imports Dtr_Views Dtr_Metal Dtr_Document
begin

text \<open>
  The invariant of the plugin over any history of requests: a handle names the renderer of its
  generation, a view and its renderer name each other, renderers are well formed and the
  accessibility documents of the views are consistent.
\<close>

section \<open>What a method leaves alone\<close>

definition same_identity :: "DtrMetalRenderer \<Rightarrow> DtrMetalRenderer \<Rightarrow> bool" where
  "same_identity r r' \<longleftrightarrow> r_generation r' = r_generation r \<and> r_view r' = r_view r \<and> r_shuttingDown r' = r_shuttingDown r"

lemma same_identity_refl [simp]: "same_identity r r"
  by (simp add: same_identity_def)

lemma same_identity_trans: "same_identity r s \<Longrightarrow> same_identity s t \<Longrightarrow> same_identity r t"
  by (simp add: same_identity_def)

lemma recordFault_identity: "same_identity r (recordFaultLocked k g r)"
  by (simp add: recordFaultLocked_def same_identity_def)

lemma free_flight_identity: "same_identity r (free_flight f r)"
  by (simp add: free_flight_def same_identity_def)

lemma method_identity [preserve_intros]:
  "same_identity r (snd (resetAtlas u r))" "same_identity r (snd (upload w px r))"
  "same_identity r (draw_no_drawable al v r)"
  by (simp_all add: same_identity_def resetAtlas_def clear_atlas_def upload_def store_upload_def set_page_def
      draw_no_drawable_def Let_def)

lemma submitFrame_identity: "same_identity r (snd (submitFrame al frame output r))"
proof -
  have "same_identity r (r\<lparr>r_backpressureCount := n\<rparr>)" "same_identity r (accept_frame bs h i r)" for n bs h i
    by (simp_all add: same_identity_def accept_frame_def Let_def)
  then show ?thesis by (auto simp: submitFrame_def split: option.splits prod.splits)
qed

lemma draw_select_identity: "draw_select al v r = Some (f, r') \<Longrightarrow> same_identity r r'"
  by (auto simp: draw_select_def same_identity_def split: if_splits option.splits)

lemma draw_encode_failed_identity: "same_identity r (draw_encode_failed f r)"
  using recordFault_identity free_flight_identity unfolding same_identity_def draw_encode_failed_def by simp

lemma completion_handler_identity: "same_identity r (completion_handler f outcome r)"
proof -
  have "same_identity s (command_completed f d s)" for s d
    by (simp add: same_identity_def command_completed_def Let_def)
  then show ?thesis
    using recordFault_identity free_flight_identity unfolding same_identity_def completion_handler_def
    by (simp split: command_outcome.split)
qed

lemma submitFrame_inv:
  assumes "renderer_inv r"
  shows "renderer_inv (snd (submitFrame al frame output r))"
proof -
  obtain r' where r': "snd (submitFrame al frame output r) = r'" by blast
  show ?thesis using r' unfolding r'
  proof (cases rule: submitFrame_cases [OF r', case_names refused accepted])
    case refused
    then show "renderer_inv r'"
      using assms by (intro settles_all_inv [OF assms refused(1)]) (auto simp: renderer_inv_def)
  qed (use assms in \<open>auto intro: accept_frame_inv\<close>)
qed

section \<open>The invariant\<close>

definition handles_ok :: "plugin \<Rightarrow> bool" where
  "handles_ok pg \<longleftrightarrow> (\<forall>h a. pg_registry pg h = Some a \<longrightarrow> h \<noteq> 0 \<and> a < pg_next_object pg \<and>
     r_generation (pg_renderers pg a) = h \<and> \<not> r_shuttingDown (pg_renderers pg a))"

definition view_ok :: "plugin \<Rightarrow> nat \<Rightarrow> terminal_view \<Rightarrow> bool" where
  "view_ok pg v view \<longleftrightarrow> v < pg_next_object pg \<and> view_document_ok (vw_accessibility view) \<and>
     (vw_terminalRenderer view = None \<longleftrightarrow> vw_terminalRendererGeneration view = 0) \<and>
     (\<forall>a. vw_terminalRenderer view = Some a \<longrightarrow> a < pg_next_object pg \<and> r_view (pg_renderers pg a) = Some v \<and>
        vw_terminalRendererGeneration view = r_generation (pg_renderers pg a))"

definition renderer_ok :: "plugin \<Rightarrow> nat \<Rightarrow> bool" where
  "renderer_ok pg a \<longleftrightarrow> renderer_inv (pg_renderers pg a) \<and>
     (\<forall>v. r_view (pg_renderers pg a) = Some v \<longrightarrow> v < pg_next_object pg \<and>
        (\<forall>view. pg_views pg v = Some view \<longrightarrow> vw_terminalRenderer view = Some a))"

definition plugin_ok :: "plugin \<Rightarrow> bool" where
  "plugin_ok pg \<longleftrightarrow> handles_ok pg \<and> (\<forall>v view. pg_views pg v = Some view \<longrightarrow> view_ok pg v view) \<and>
     (\<forall>a. renderer_ok pg a)"

lemma initial_plugin_ok: "plugin_ok initial_plugin"
  by (simp add: plugin_ok_def initial_plugin_def handles_ok_def renderer_ok_def initWithConfig_inv)
    (simp add: initWithConfig_def)

lemma on_renderer_object_simps [simp]:
  "pg_views (on_renderer_object a f pg) = pg_views pg" "pg_registry (on_renderer_object a f pg) = pg_registry pg"
  "pg_next_object (on_renderer_object a f pg) = pg_next_object pg" "pg_input (on_renderer_object a f pg) = pg_input pg"
  "pg_next_handle (on_renderer_object a f pg) = pg_next_handle pg"
  "pg_live_view_count (on_renderer_object a f pg) = pg_live_view_count pg"
  "pg_renderers (on_renderer_object a f pg) = (pg_renderers pg)(a := f (pg_renderers pg a))"
  by (simp_all add: on_renderer_object_def)

lemma put_view_simps [simp]:
  "pg_views (put_view v view pg) = (pg_views pg)(v \<mapsto> view)" "pg_registry (put_view v view pg) = pg_registry pg"
  "pg_next_object (put_view v view pg) = pg_next_object pg" "pg_input (put_view v view pg) = pg_input pg"
  "pg_next_handle (put_view v view pg) = pg_next_handle pg"
  "pg_renderers (put_view v view pg) = pg_renderers pg"
  by (simp_all add: put_view_def)

text \<open>A method that leaves the identity, and a view that keeps its renderer, keep it.\<close>

lemma method_keeps:
  assumes "plugin_ok pg" "same_identity (pg_renderers pg a) (f (pg_renderers pg a))"
    "renderer_inv (f (pg_renderers pg a))"
  shows "plugin_ok (on_renderer_object a f pg)"
proof -
  let ?g = "\<lambda>b. if b = a then f (pg_renderers pg a) else pg_renderers pg b"
  have eq: "r_generation (?g b) = r_generation (pg_renderers pg b)" "r_view (?g b) = r_view (pg_renderers pg b)"
    "r_shuttingDown (?g b) = r_shuttingDown (pg_renderers pg b)" for b
    using assms(2) by (auto simp: same_identity_def)
  have inv: "renderer_inv (?g b)" for b using assms(1,3) by (simp add: plugin_ok_def renderer_ok_def)
  show ?thesis
    using assms(1) inv unfolding plugin_ok_def handles_ok_def view_ok_def renderer_ok_def on_renderer_object_simps
      fun_upd_apply eq by blast
qed

lemma with_renderer_keeps:
  assumes "plugin_ok pg" "\<And>r. same_identity r (snd (run r))" "\<And>r. renderer_inv r \<Longrightarrow> renderer_inv (snd (run r))"
  shows "plugin_ok (snd (with_renderer handle refuse run pg))"
proof (cases "RetainMetalRendererForHandle handle pg")
  case None
  then show ?thesis using assms(1) by (simp add: with_renderer_def)
next
  case (Some a)
  have "renderer_inv (pg_renderers pg a)" using assms(1) by (simp add: plugin_ok_def renderer_ok_def)
  then have "plugin_ok (on_renderer_object a (\<lambda>r. snd (run r)) pg)"
    by (intro method_keeps assms)
  moreover have "snd (with_renderer handle refuse run pg) = on_renderer_object a (\<lambda>r. snd (run r)) pg"
    using Some by (simp add: with_renderer_def on_renderer_object_def split_beta)
  ultimately show ?thesis by simp
qed

text \<open>A view takes the place of another that names the same renderer.\<close>

lemma put_view_keeps:
  assumes pg: "plugin_ok pg" and view: "pg_views pg v = Some view"
    and same: "vw_terminalRenderer view' = vw_terminalRenderer view"
      "vw_terminalRendererGeneration view' = vw_terminalRendererGeneration view"
    and document: "view_document_ok (vw_accessibility view')"
    and other: "pg' = (put_view v view' pg)\<lparr>pg_input := ti\<rparr>"
  shows "plugin_ok pg'"
  unfolding plugin_ok_def
proof (intro conjI allI impI)
  have eq: "pg_registry pg' = pg_registry pg" "pg_next_object pg' = pg_next_object pg"
    "pg_renderers pg' = pg_renderers pg" "pg_views pg' = (pg_views pg)(v \<mapsto> view')"
    by (simp_all add: other)
  show "handles_ok pg'" using pg by (simp add: plugin_ok_def handles_ok_def eq)
  have ok: "view_ok pg u w \<Longrightarrow> view_ok pg' u w" for u w by (simp add: view_ok_def eq)
  show "view_ok pg' u w" if "pg_views pg' u = Some w" for u w
  proof (cases "u = v")
    case True
    have "view_ok pg v view" using pg view by (simp add: plugin_ok_def)
    then show ?thesis using True that same document by (simp add: view_ok_def eq)
  next
    case False
    then show ?thesis using pg that by (intro ok) (simp add: plugin_ok_def eq)
  qed
  show "renderer_ok pg' a" for a
  proof -
    have "renderer_ok pg a" using pg by (simp add: plugin_ok_def)
    then show ?thesis using view same(1) by (auto simp: renderer_ok_def eq)
  qed
qed

section \<open>Views that come and go\<close>

lemma plugin_ok_parts:
  assumes "plugin_ok pg" "pg_views pg' = pg_views pg" "pg_registry pg' = pg_registry pg"
    "pg_next_object pg' = pg_next_object pg" "pg_renderers pg' = pg_renderers pg"
  shows "plugin_ok pg'"
proof -
  note eq = assms(2-5)
  have "handles_ok pg \<Longrightarrow> handles_ok pg'" by (simp add: handles_ok_def eq)
  moreover have "view_ok pg u w \<Longrightarrow> view_ok pg' u w" for u w by (simp add: view_ok_def eq)
  moreover have "renderer_ok pg a \<Longrightarrow> renderer_ok pg' a" for a by (simp add: renderer_ok_def eq)
  ultimately show ?thesis using assms(1) by (simp add: plugin_ok_def eq)
qed

lemma create_view_keeps:
  assumes "plugin_ok pg"
  shows "plugin_ok (snd (CreateTerminalMetalView device pipelines pg))"
proof (cases "device \<and> pipelines")
  case True
  have "view_ok pg u w \<Longrightarrow> view_ok (snd (CreateTerminalMetalView device pipelines pg)) u w" for u w
    using True by (auto simp: CreateTerminalMetalView_def view_ok_def Let_def)
  moreover have "view_ok (snd (CreateTerminalMetalView device pipelines pg)) (pg_next_object pg) initWithFrame"
    using True by (simp add: CreateTerminalMetalView_def view_ok_def Let_def initWithFrame_def view_document_ok_new)
  moreover have "renderer_ok pg a \<Longrightarrow> renderer_ok (snd (CreateTerminalMetalView device pipelines pg)) a" for a
    using True by (auto simp: CreateTerminalMetalView_def renderer_ok_def Let_def)
  moreover have "handles_ok (snd (CreateTerminalMetalView device pipelines pg))"
    using True assms by (auto simp: CreateTerminalMetalView_def plugin_ok_def handles_ok_def Let_def less_SucI)
  ultimately show ?thesis
    using assms True by (auto simp: plugin_ok_def CreateTerminalMetalView_def Let_def)
next
  case False
  then show ?thesis
    by (intro plugin_ok_parts [OF assms]) (auto simp: CreateTerminalMetalView_def)
qed

lemma viewWillDeallocate_gone: "\<not> al v \<Longrightarrow> viewWillDeallocate al v r = r"
  by (auto simp: viewWillDeallocate_def weak_view_def split: option.splits)

lemma remove_view_keeps:
  assumes "plugin_ok pg" "pg_views pg' = (pg_views pg)(v := None)" "pg_registry pg' = pg_registry pg"
    "pg_next_object pg' = pg_next_object pg" "pg_renderers pg' = pg_renderers pg"
  shows "plugin_ok pg'"
proof -
  note eq = assms(2-5)
  have "handles_ok pg \<Longrightarrow> handles_ok pg'" by (simp add: handles_ok_def eq)
  moreover have "view_ok pg u w \<Longrightarrow> view_ok pg' u w" for u w by (simp add: view_ok_def eq)
  moreover have "renderer_ok pg a \<Longrightarrow> renderer_ok pg' a" for a by (auto simp: renderer_ok_def eq)
  ultimately show ?thesis using assms(1) by (simp add: plugin_ok_def eq)
qed

lemma dealloc_keeps:
  assumes "plugin_ok pg"
  shows "plugin_ok (dealloc v pg)"
proof (cases "pg_views pg v")
  case (Some view)
  define gone where "gone = pg\<lparr>pg_views := (pg_views pg)(v := None), pg_live_view_count := pg_live_view_count pg - 1,
       pg_input := snd (detachTextInputClient (vw_input view) (pg_input pg))\<rparr>"
  have ok: "plugin_ok gone" by (rule remove_view_keeps [OF assms, of _ v]) (simp_all add: gone_def)
  have dead: "\<not> living gone v" by (simp add: living_def gone_def)
  have eq: "dealloc v pg = (case vw_terminalRenderer view of None \<Rightarrow> gone
      | Some a \<Rightarrow> on_renderer_object a (viewWillDeallocate (living gone) v) gone)"
    unfolding gone_def by (simp add: dealloc_def Some Let_def)
  have "on_renderer_object a (viewWillDeallocate (living gone) v) gone = gone" for a
    unfolding on_renderer_object_def viewWillDeallocate_gone [of "living gone" v, OF dead] by simp
  then show ?thesis unfolding eq using ok by (simp split: option.split)
qed (simp add: dealloc_def assms)

section \<open>Operations\<close>

lemma on_input_keeps:
  "plugin_ok pg \<Longrightarrow> pg_views pg v = Some view \<Longrightarrow> plugin_ok (snd (on_input v view failed f pg))"
  by (simp add: on_input_def split_beta)
    (rule put_view_keeps, assumption+, auto simp: plugin_ok_def view_ok_def)

lemma plain_view_keeps:
  assumes "plugin_ok pg" "pg_views pg v = Some view" "vw_terminalRenderer view' = vw_terminalRenderer view"
    "vw_terminalRendererGeneration view' = vw_terminalRendererGeneration view"
    "view_document_ok (vw_accessibility view')"
  shows "plugin_ok (put_view v view' pg)"
  by (rule put_view_keeps [OF assms, of _ "pg_input pg"]) (simp add: put_view_def)

lemma living_view_document: "plugin_ok pg \<Longrightarrow> pg_views pg v = Some view \<Longrightarrow> view_document_ok (vw_accessibility view)"
  by (simp add: plugin_ok_def view_ok_def)

lemma snapshot_keeps:
  assumes "plugin_ok pg" "pg_views pg v = Some view"
  shows "plugin_ok (snd (snapshot_operation ak v view payload pg))"
proof -
  let ?h = "read_accessibility_header payload"
  obtain ok ax where u: "updateAccessibilitySnapshot (ak_decode ak) (ak_encode ak) ?h (packet_lines ?h payload)
      (packet_boundaries ?h payload) (packet_text ?h payload) (vw_accessibility view) = (ok, ax)" by fastforce
  have "view_document_ok (snd (ok, ax))"
    unfolding u [symmetric]
    by (rule update_keeps_document) (simp_all add: packet_lines_def packet_boundaries_def living_view_document [OF assms])
  then have "plugin_ok (put_view v (view\<lparr>vw_accessibility := ax\<rparr>) pg)"
    by (intro plain_view_keeps [OF assms]) simp_all
  then show ?thesis using assms(1) u by (simp add: snapshot_operation_def Let_def)
qed

lemma geometry_keeps:
  assumes "plugin_ok pg" "pg_views pg v = Some view"
  shows "plugin_ok (snd (geometry_operation v view payload pg))"
proof -
  obtain ok view' where u: "updateTextInputGeometry (read_geometry payload) view = (ok, view')" by fastforce
  then have "plugin_ok (put_view v view' pg)"
    using living_view_document [OF assms]
    by (intro plain_view_keeps [OF assms]) (auto simp: updateTextInputGeometry_def split: if_splits)
  then show ?thesis using assms(1) u by (simp add: geometry_operation_def Let_def)
qed

lemma bind_keeps:
  assumes pg: "plugin_ok pg" and view: "pg_views pg v = Some view"
  shows "plugin_ok (snd (bind_operation ak v view payload pg))"
proof -
  let ?h = "vb_renderer_handle (read_binding payload)"
  show ?thesis
  proof (cases "snd (bind_operation ak v view payload pg) = pg")
    case True
    then show ?thesis using pg by simp
  next
    case False
    then obtain a where a: "RetainMetalRendererForHandle ?h pg = Some a"
      and g: "r_generation (pg_renderers pg a) \<noteq> 0"
      by (auto simp: bind_operation_def Let_def split: if_splits option.splits)
    have next_a: "a < pg_next_object pg" and inv: "renderer_inv (pg_renderers pg a)" and v: "view_ok pg v view"
      using a pg view by (auto simp: RetainMetalRendererForHandle_def plugin_ok_def handles_ok_def renderer_ok_def
          split: if_splits)
    obtain status r where b: "bindView (living pg) v (vw_terminalRendererGeneration view) (ak_layer ak)
        (pg_renderers pg a) = (status, r)" by fastforce
    let ?bound = "on_renderer_object a (\<lambda>_. r) pg"
    have result: "snd (bind_operation ak v view payload pg) = (if status = DTR_STATUS_OK
        then put_view v (view\<lparr>vw_terminalRenderer := Some a, vw_terminalRendererGeneration := r_generation r\<rparr>) ?bound
        else ?bound)"
      using False a b by (auto simp: bind_operation_def Let_def split: if_splits)
    show ?thesis
    proof (cases "status = DTR_STATUS_INVALID_ARGUMENT")
      case True
      then have "r = pg_renderers pg a" using b by (auto simp: bindView_def split: if_splits)
      then show ?thesis unfolding result using True pg by (simp add: on_renderer_object_def)
    next
      case False
      then have free: "weak_view (living pg) (pg_renderers pg a) = None" "vw_terminalRendererGeneration view = 0"
        "same_identity (pg_renderers pg a) (r\<lparr>r_view := r_view (pg_renderers pg a)\<rparr>)"
        "r_view r = (if status = DTR_STATUS_OK then Some v else None)" "r_generation r = r_generation (pg_renderers pg a)"
        "r_shuttingDown r = r_shuttingDown (pg_renderers pg a)"
        using b by (auto simp: bindView_def same_identity_def split: if_splits)
      have unbound: "vw_terminalRenderer w \<noteq> Some a" if "pg_views pg u = Some w" for u w
        using free(1) pg that by (auto simp: plugin_ok_def view_ok_def weak_view_def living_def split: option.splits)
      have none: "vw_terminalRenderer view = None" using v free(2) by (simp add: view_ok_def)
      have inv_r: "renderer_inv r" by (rule bindView_inv [OF b inv])
      define pg' where "pg' = snd (bind_operation ak v view payload pg)"
      have eq: "pg_registry pg' = pg_registry pg" "pg_next_object pg' = pg_next_object pg"
        "pg_renderers pg' = (pg_renderers pg)(a := r)"
        "pg_views pg' = (if status = DTR_STATUS_OK then (pg_views pg)(v \<mapsto> view\<lparr>vw_terminalRenderer := Some a,
          vw_terminalRendererGeneration := r_generation r\<rparr>) else pg_views pg)"
        by (simp_all add: pg'_def result)
      have "handles_ok pg'"
        using pg free(5,6) by (simp add: plugin_ok_def handles_ok_def eq)
      moreover have "view_ok pg' u w" if u: "pg_views pg' u = Some w" for u w
      proof (cases "status = DTR_STATUS_OK \<and> u = v")
        case True
        then show ?thesis using u v next_a g free(4,5) by (auto simp: view_ok_def eq)
      next
        case False
        then have w: "pg_views pg u = Some w" using u by (auto simp: eq split: if_splits)
        then have "view_ok pg u w" using pg by (simp add: plugin_ok_def)
        then show ?thesis using unbound [OF w] by (auto simp: view_ok_def eq)
      qed
      moreover have "renderer_ok pg' b" for b
      proof (cases "b = a")
        case True
        then show ?thesis using free(4) v inv_r by (auto simp: renderer_ok_def eq view_ok_def split: if_splits)
      next
        case False
        have "renderer_ok pg b" using pg by (simp add: plugin_ok_def)
        then show ?thesis using False none view by (auto simp: renderer_ok_def eq split: if_splits)
      qed
      ultimately have "plugin_ok pg'" by (simp add: plugin_ok_def)
      then show ?thesis by (simp add: pg'_def)
    qed
  qed
qed

lemma operation_keeps:
  assumes "plugin_ok pg"
  shows "plugin_ok (snd (PerformTerminalMetalViewOperation ak view payload pg))"
proof -
  have "plugin_ok (snd (client_operation operation v w bs pg))" "plugin_ok (snd (stage_operation ak v w bs pg))"
    "plugin_ok (snd (matrix_operation ak v w bs pg))" "plugin_ok (snd (accessibility_acceptance_operation ak v w bs pg))"
    "plugin_ok (snd (background_operation v w bs pg))"
    if "pg_views pg v = Some w" for operation v w bs
    using assms that living_view_document [OF assms that]
    by (simp_all add: client_operation_def stage_operation_def matrix_operation_def background_operation_def
        accessibility_acceptance_operation_def Let_def on_input_keeps plain_view_keeps)
  then show ?thesis
    using assms by (auto simp: PerformTerminalMetalViewOperation_def Let_def bind_keeps snapshot_keeps geometry_keeps
        split: option.split DtrMetalViewOperation.split)
qed

section \<open>The functions of a renderer\<close>

lemma create_renderer_keeps:
  assumes pg: "plugin_ok pg"
  shows "plugin_ok (snd (dtr_metal_renderer_create failure config output pg))"
proof (cases "fst (fst (dtr_metal_renderer_create failure config output pg)) = DTR_STATUS_OK")
  case False
  then show ?thesis
    by (intro plugin_ok_parts [OF pg])
      (auto simp: dtr_metal_renderer_create_def Let_def split: option.splits if_splits)
next
  case True
  let ?a = "pg_next_object pg" and ?h = "pg_next_handle pg"
  define pg' where "pg' = snd (dtr_metal_renderer_create failure config output pg)"
  obtain c where eq: "pg_views pg' = pg_views pg" "pg_registry pg' = (pg_registry pg)(?h \<mapsto> ?a)"
    "pg_next_object pg' = ?a + 1" "pg_renderers pg' = (pg_renderers pg)(?a := initWithConfig c ?h)" "?h \<noteq> 0"
    using True by (auto simp: pg'_def dtr_metal_renderer_create_def Let_def split: option.splits if_splits)
  have new: "r_generation (initWithConfig c ?h) = ?h" "\<not> r_shuttingDown (initWithConfig c ?h)"
    "r_view (initWithConfig c ?h) = None" by (simp_all add: initWithConfig_def)
  have "handles_ok pg'"
    using pg eq(5) new by (auto simp: plugin_ok_def handles_ok_def eq less_SucI)
  moreover have "view_ok pg u w \<Longrightarrow> view_ok pg' u w" for u w
    by (auto simp: view_ok_def eq)
  moreover have "renderer_ok pg b \<Longrightarrow> renderer_ok pg' b" for b
    using new by (auto simp: renderer_ok_def eq initWithConfig_inv)
  ultimately show ?thesis using pg unfolding pg'_def [symmetric] by (auto simp: plugin_ok_def eq)
qed

lemma unregistered_keeps:
  assumes pg: "plugin_ok pg" and "pg_views pg' = pg_views pg" "pg_next_object pg' = pg_next_object pg"
    "pg_renderers pg' = (pg_renderers pg)(a := r)" "pg_registry pg' = (pg_registry pg)(h := None)"
    and r: "r_view r = r_view (pg_renderers pg a)" "r_generation r = r_generation (pg_renderers pg a)" "renderer_inv r"
    and h: "\<forall>k. pg_registry pg k = Some a \<longrightarrow> k = h"
  shows "plugin_ok pg'"
proof -
  note eq = assms(2-5)
  have "handles_ok pg'" using pg h by (auto simp: plugin_ok_def handles_ok_def eq)
  moreover have "view_ok pg u w \<Longrightarrow> view_ok pg' u w" for u w by (auto simp: view_ok_def eq r)
  moreover have "renderer_ok pg b \<Longrightarrow> renderer_ok pg' b" for b by (auto simp: renderer_ok_def eq r)
  ultimately show ?thesis using pg by (simp add: plugin_ok_def eq)
qed

text \<open>A view and its renderer let go of each other at once.\<close>

lemma detach_object_keeps:
  assumes pg: "plugin_ok pg"
  shows "plugin_ok (detach_object a pg)"
proof -
  define pg' where "pg' = detach_object a pg"
  let ?r = "pg_renderers pg a"
  let ?v = "weak_view (living pg) ?r"
  have bound: "\<exists>view. pg_views pg v = Some view \<and> vw_terminalRenderer view = Some a \<and>
      vw_terminalRendererGeneration view = r_generation ?r" if v: "?v = Some v" for v
  proof -
    obtain view where view: "pg_views pg v = Some view" "r_view ?r = Some v"
      using v by (auto simp: weak_view_def living_def split: option.splits if_splits)
    then have "vw_terminalRenderer view = Some a" "view_ok pg v view"
      using pg by (auto simp: plugin_ok_def renderer_ok_def)
    then show ?thesis using view by (auto simp: view_ok_def)
  qed
  have eq: "pg_registry pg' = pg_registry pg" "pg_next_object pg' = pg_next_object pg"
    "pg_renderers pg' = (pg_renderers pg)(a := ?r\<lparr>r_view := None\<rparr>)"
    by (simp_all add: pg'_def detach_object_def detachOnMainThread_def Let_def)
  have views: "pg_views pg' u = (if ?v = Some u then map_option (\<lambda>w. w\<lparr>vw_terminalRenderer := None,
      vw_terminalRendererGeneration := 0\<rparr>) (pg_views pg u) else pg_views pg u)" for u
    using bound by (cases ?v) (auto simp: pg'_def detach_object_def Let_def)
  have only: "?v = Some u" if "pg_views pg u = Some w" "vw_terminalRenderer w = Some a" for u w
    using pg that by (auto simp: plugin_ok_def view_ok_def weak_view_def living_def)
  have "handles_ok pg'" using pg by (auto simp: plugin_ok_def handles_ok_def eq)
  moreover have "view_ok pg' u w'" if w': "pg_views pg' u = Some w'" for u w'
  proof -
    obtain w where w: "pg_views pg u = Some w" using w' by (auto simp: views split: if_splits)
    then have "view_ok pg u w" using pg by (simp add: plugin_ok_def)
    then show ?thesis using w w' only [OF w] by (auto simp: view_ok_def views eq split: if_splits)
  qed
  moreover have "renderer_ok pg' b" for b
  proof (cases "b = a")
    case True
    have "renderer_ok pg a" using pg by (simp add: plugin_ok_def)
    then show ?thesis using True detach_inv [of ?r] by (auto simp: renderer_ok_def eq detachOnMainThread_def)
  next
    case False
    then have "renderer_ok pg b" "?v = Some u \<Longrightarrow> r_view (pg_renderers pg b) \<noteq> Some u" for u
      using pg bound [of u] by (auto simp: plugin_ok_def renderer_ok_def)
    then show ?thesis using False by (auto simp: renderer_ok_def eq views)
  qed
  ultimately show ?thesis by (simp add: plugin_ok_def flip: pg'_def)
qed

lemma shutdown_frame: "r_view (shutdown r) = r_view r" "r_generation (shutdown r) = r_generation r"
  by (simp_all add: shutdown_def)

lemma release_keeps:
  assumes pg: "plugin_ok pg"
  shows "plugin_ok (snd (dtr_metal_renderer_release main_thread handle pg))"
proof (cases "handle = 0 \<or> pg_registry pg handle = None")
  case True
  then show ?thesis using pg by (auto simp: dtr_metal_renderer_release_def)
next
  case False
  then obtain a where a: "pg_registry pg handle = Some a" by auto
  let ?removed = "pg\<lparr>pg_registry := (pg_registry pg)(handle := None)\<rparr>"
  have names: "r_generation (pg_renderers pg a) = k" if "pg_registry pg k = Some a" for k
    using pg that by (simp add: plugin_ok_def handles_ok_def)
  have facts: "\<not> r_shuttingDown (pg_renderers pg a)" "renderer_inv (pg_renderers pg a)"
    "\<forall>k. pg_registry pg k = Some a \<longrightarrow> k = handle"
    using pg a names [OF a] by (auto simp: plugin_ok_def handles_ok_def renderer_ok_def dest: names)
  have "plugin_ok (on_renderer_object a shutdown ?removed)"
    by (rule unregistered_keeps [OF pg, of _ a "shutdown (pg_renderers pg a)" handle])
      (use facts shutdown_inv [OF facts(2)] in \<open>simp_all add: shutdown_frame\<close>)
  then have "plugin_ok (shutdown_object main_thread a ?removed)"
    using facts(1) by (simp add: shutdown_object_def Let_def detach_object_keeps)
  then show ?thesis using False a by (simp add: dtr_metal_renderer_release_def)
qed

section \<open>Histories\<close>

lemma plugin_step_keeps:
  assumes pg: "plugin_ok pg"
  shows "plugin_ok (plugin_step request pg)"
proof -
  have r: "renderer_inv (pg_renderers pg a)" for a using pg by (simp add: plugin_ok_def renderer_ok_def)
  have calls: "plugin_ok (snd (dtr_metal_renderer_reset_atlas h reset pg))"
    "plugin_ok (snd (dtr_metal_renderer_upload_atlas h up px pg))"
    "plugin_ok (snd (dtr_metal_renderer_submit h frame out pg))" for h reset up px frame out
    using pg by (auto simp: dtr_metal_renderer_reset_atlas_def dtr_metal_renderer_upload_atlas_def
        dtr_metal_renderer_submit_def method_identity submitFrame_identity submitFrame_inv resetAtlas_inv upload_inv
        intro: with_renderer_keeps split: option.split)
  show ?thesis
  proof (cases request)
    case (Responder v accepted)
    have "view_document_ok (vw_accessibility (responderChanged accepted w))" if "pg_views pg v = Some w" for w
      using living_view_document [OF pg that] by (simp add: responderChanged_def view_document_ok_def in_text_def)
    then show ?thesis
      using Responder pg by (auto intro!: plain_view_keeps simp: responderChanged_def split: option.split)
  next
    case (Draw a v)
    have "plugin_ok (on_renderer_object a (\<lambda>_. r') pg)"
      if "draw_select (living pg) v (pg_renderers pg a) = Some (f, r')" for f r'
      using method_keeps [OF pg, of a "\<lambda>_. r'"] draw_select_identity [OF that] draw_select_inv [OF that r] by simp
    then show ?thesis using pg Draw by (simp split: option.split)
  next
    case (Drawable_unavailable a v)
    then show ?thesis using r by (auto intro: method_keeps [OF pg] method_identity draw_no_drawable_inv)
  next
    case (Encode_failed a f)
    then show ?thesis using r by (auto intro: method_keeps [OF pg] draw_encode_failed_identity draw_encode_failed_inv)
  next
    case (Command_ended a f outcome)
    then show ?thesis using r by (auto intro: method_keeps [OF pg] completion_handler_identity completion_handler_inv)
  qed (simp_all add: pg calls create_view_keeps dealloc_keeps operation_keeps on_input_keeps
      create_renderer_keeps release_keeps detach_object_keeps split: option.split)
qed

lemma plugin_history_ok: "plugin_ok pg \<Longrightarrow> plugin_ok (plugin_history requests pg)"
  unfolding plugin_history_def by (induction requests arbitrary: pg) (simp_all add: plugin_step_keeps)

end
