(* ===== verification/Dtr_Text_Input_Inv.thy ===== *)
theory Dtr_Text_Input_Inv
  imports Dtr_Text_Input "HOL-Library.Sublist"
begin

text \<open>
  What holds of the text input of a view: a packet carries what it was built from, the queue
  stays within its limits and holds at most one composition at its end, and over any history
  of calls and takes the packets come out in the order of their events, none twice.
\<close>

section \<open>Packets\<close>

lemma length_write_text_header [simp]: "length (write_text_header h) = 96"
  by (simp add: write_text_header_def text_event_layout_def header_members_def)

lemma header_members_fit: "list_all2 (\<lambda>w n. n < 256 ^ w) text_event_layout (header_members h)"
proof -
  have "unat (x :: u32) < 256 ^ 4" for x using unat_bound [of x] by simp
  moreover have "unat (x :: u64) < 256 ^ 8" for x using unat_bound [of x] by simp
  moreover have "(0 :: nat) < 256 ^ 4" by simp
  ultimately show ?thesis unfolding text_event_layout_def header_members_def
    by (intro list_all2_Cons [THEN iffD2] conjI list_all2_Nil [THEN iffD2] refl)
qed

lemma read_write_text_header: "read_text_header (write_text_header h @ rest) = h"
proof -
  note members = read_write_members [OF header_members_fit, of h rest, folded write_text_header_def]
  show ?thesis by (simp add: read_text_header_def members Let_def header_members_def)
qed

definition decode_range :: "u32 \<times> u32 \<Rightarrow> NSRange" where
  "decode_range p = (if fst p = UINT32_MAX then no_range
     else \<lparr>range_location = ucast (fst p), range_length = ucast (snd p)\<rparr>)"

lemma ucast_ucast_u32: "x \<le> 0xFFFFFFFF \<Longrightarrow> ucast (ucast (x :: u64) :: u32) = x"
proof -
  assume "x \<le> 0xFFFFFFFF"
  then have "unat x < 2 ^ 32" by (simp add: word_le_nat_alt)
  then have "unat (ucast x :: u32) = unat x" by (simp add: unsigned_ucast_eq take_bit_nat_eq_self)
  then show ?thesis by (intro word_unat_eq_iff [THEN iffD2]) (simp add: unat_ucast_u32)
qed

lemma ucast_UINT32_MAX: "(ucast UINT32_MAX :: u64) = 0xFFFFFFFF"
  by (simp add: unsigned_minus_1_eq_mask mask_eq_exp_minus_1)

lemma EncodeTextInputRange_decode:
  assumes "EncodeTextInputRange r = Some p" "range_location r \<noteq> NSNotFound"
    "range_location r \<noteq> 0xFFFFFFFF"
  shows "decode_range p = r"
proof -
  have le: "range_location r \<le> 0xFFFFFFFF" "range_length r \<le> 0xFFFFFFFF"
    and p: "p = (ucast (range_location r), ucast (range_length r))"
    using assms by (auto simp: EncodeTextInputRange_def not_less split: if_splits)
  have "ucast (range_location r) \<noteq> UINT32_MAX"
  proof
    assume "(ucast (range_location r) :: u32) = UINT32_MAX"
    then have "ucast (ucast (range_location r) :: u32) = (ucast UINT32_MAX :: u64)" by simp
    with le assms(3) show False by (simp only: ucast_ucast_u32 ucast_UINT32_MAX)
  qed
  then show ?thesis using le by (simp add: decode_range_def p ucast_ucast_u32)
qed

text \<open>A packet of the client, as the queue relies on.\<close>

definition well_formed :: "u64 \<Rightarrow> byte list \<Rightarrow> bool" where
  "well_formed client p \<longleftrightarrow> 96 \<le> length p \<and> length p \<le> 131168 \<and>
     te_magic (read_text_header p) = DTR_TEXT_INPUT_EVENT_MAGIC \<and>
     unat (te_total_size (read_text_header p)) = length p \<and>
     te_client_id (read_text_header p) = client"

abbreviation generation_of :: "byte list \<Rightarrow> u64" where
  "generation_of p \<equiv> te_event_generation (read_text_header p)"

abbreviation kind_of :: "byte list \<Rightarrow> u32" where
  "kind_of p \<equiv> te_kind (read_text_header p)"

lemma BuildTextInputPacketE:
  assumes "BuildTextInputPacket utf8 now client g e = Some p"
  obtains t u sel rep where
    "text_bytes utf8 (ev_text e) = Some t" "text_bytes utf8 (ev_unmodifiedText e) = Some u"
    "length t \<le> DTR_MAX_TEXT_INPUT_BYTES" "length u \<le> DTR_MAX_TEXT_INPUT_BYTES"
    "EncodeTextInputRange (ev_selection e) = Some sel" "EncodeTextInputRange (ev_replacement e) = Some rep"
    "p = write_text_header
      \<lparr>te_magic = DTR_TEXT_INPUT_EVENT_MAGIC, te_version = DTR_TEXT_INPUT_EVENT_VERSION,
       te_header_size = 96, te_total_size = of_nat (96 + length t + length u),
       te_client_id = client, te_event_generation = g, te_monotonic_nanos = now, te_kind = ev_kind e,
       te_flags = ev_flags e, te_key_code = ev_keyCode e, te_modifiers = ev_modifiers e,
       te_text_offset = 96, te_text_length = of_nat (length t),
       te_unmodified_text_offset = of_nat (96 + length t),
       te_unmodified_text_length = of_nat (length u),
       te_selection_location = fst sel, te_selection_length = snd sel,
       te_replacement_location = fst rep, te_replacement_length = snd rep\<rparr> @ t @ u"
  using assms
  by (auto simp: BuildTextInputPacket_def Let_def not_less split: option.splits if_splits)

lemma unat_of_nat_small: "n \<le> 131168 \<Longrightarrow> unat (of_nat n :: u32) = n"
  by (simp add: unat_of_nat)

lemma packet_round_trip:
  assumes "BuildTextInputPacket utf8 now client g e = Some p"
  shows "well_formed client p" "generation_of p = g" "kind_of p = ev_kind e"
    "te_flags (read_text_header p) = ev_flags e" "te_key_code (read_text_header p) = ev_keyCode e"
    "te_modifiers (read_text_header p) = ev_modifiers e" "te_monotonic_nanos (read_text_header p) = now"
    "Some (take (unat (te_text_length (read_text_header p))) (drop (unat (te_text_offset (read_text_header p))) p))
      = text_bytes utf8 (ev_text e)"
    "Some (take (unat (te_unmodified_text_length (read_text_header p)))
        (drop (unat (te_unmodified_text_offset (read_text_header p))) p))
      = text_bytes utf8 (ev_unmodifiedText e)"
    "Some (te_selection_location (read_text_header p), te_selection_length (read_text_header p))
      = EncodeTextInputRange (ev_selection e)"
    "Some (te_replacement_location (read_text_header p), te_replacement_length (read_text_header p))
      = EncodeTextInputRange (ev_replacement e)"
proof -
  obtain t u sel rep where c: "text_bytes utf8 (ev_text e) = Some t"
    "text_bytes utf8 (ev_unmodifiedText e) = Some u"
    "EncodeTextInputRange (ev_selection e) = Some sel" "EncodeTextInputRange (ev_replacement e) = Some rep"
    and le: "length t \<le> DTR_MAX_TEXT_INPUT_BYTES" "length u \<le> DTR_MAX_TEXT_INPUT_BYTES"
    and p: "p = write_text_header
      \<lparr>te_magic = DTR_TEXT_INPUT_EVENT_MAGIC, te_version = DTR_TEXT_INPUT_EVENT_VERSION,
       te_header_size = 96, te_total_size = of_nat (96 + length t + length u),
       te_client_id = client, te_event_generation = g, te_monotonic_nanos = now, te_kind = ev_kind e,
       te_flags = ev_flags e, te_key_code = ev_keyCode e, te_modifiers = ev_modifiers e,
       te_text_offset = 96, te_text_length = of_nat (length t),
       te_unmodified_text_offset = of_nat (96 + length t),
       te_unmodified_text_length = of_nat (length u),
       te_selection_location = fst sel, te_selection_length = snd sel,
       te_replacement_location = fst rep, te_replacement_length = snd rep\<rparr> @ t @ u"
      (is "p = write_text_header ?h @ _")
    by (rule BuildTextInputPacketE [OF assms])
  have h: "read_text_header p = ?h" unfolding p by (rule read_write_text_header)
  have n: "unat (of_nat (96 + length t + length u) :: u32) = 96 + length t + length u"
    "unat (of_nat (96 + length t) :: u32) = 96 + length t" "unat (of_nat (length t) :: u32) = length t"
    "unat (of_nat (length u) :: u32) = length u"
    using le by (intro unat_of_nat_small; simp)+
  show "well_formed client p" using le n(1) by (simp add: well_formed_def h del: of_nat_add) (simp add: p)
  show "generation_of p = g" "kind_of p = ev_kind e" "te_flags (read_text_header p) = ev_flags e"
    "te_key_code (read_text_header p) = ev_keyCode e" "te_modifiers (read_text_header p) = ev_modifiers e"
    "te_monotonic_nanos (read_text_header p) = now"
    "Some (te_selection_location (read_text_header p), te_selection_length (read_text_header p))
      = EncodeTextInputRange (ev_selection e)"
    "Some (te_replacement_location (read_text_header p), te_replacement_length (read_text_header p))
      = EncodeTextInputRange (ev_replacement e)"
    by (simp_all add: h c)
  show "Some (take (unat (te_text_length (read_text_header p))) (drop (unat (te_text_offset (read_text_header p))) p))
      = text_bytes utf8 (ev_text e)"
    using n(3) by (simp add: h c(1)) (simp add: p)
  show "Some (take (unat (te_unmodified_text_length (read_text_header p)))
        (drop (unat (te_unmodified_text_offset (read_text_header p))) p)) = text_bytes utf8 (ev_unmodifiedText e)"
    using n(2,4) by (simp add: h c(2) del: of_nat_add) (simp add: p)
qed

lemma overflow_packet:
  obtains p where "BuildTextInputPacket utf8 now client g overflow_event = Some p" "length p = 96"
  by (simp add: BuildTextInputPacket_def overflow_event_def text_bytes_def EncodeTextInputRange_def no_range_def)

section \<open>The queue\<close>

definition queue_good :: "DtrTextInputQueue \<Rightarrow> bool" where
  "queue_good q \<longleftrightarrow> q_queuedBytes q = sum_len (q_packets q) \<and>
     q_queuedBytes q \<le> DTR_MAX_TEXT_INPUT_QUEUE_BYTES \<and> length (q_packets q) \<le> DTR_MAX_TEXT_INPUT_EVENTS"

definition offer_packet :: "byte list \<Rightarrow> DtrTextInputQueue \<Rightarrow> DtrTextInputQueue option" where
  "offer_packet p q = (case enqueuePacket (Some p) DTR_TEXT_INPUT_EVENT_COMMIT q of
     (True, q') \<Rightarrow> Some q' | (False, _) \<Rightarrow> None)"

lemma sum_len_butlast: "ps \<noteq> [] \<Longrightarrow> sum_len ps = sum_len (butlast ps) + length (last ps)"
  by (metis append_butlast_last_id sum_len_simps(1,2,3) add.right_neutral)

lemma enqueuePacket_good:
  assumes "queue_good q" "enqueuePacket packet kind q = (b, q')"
  shows "queue_good q'"
proof (cases packet)
  case (Some p)
  show ?thesis
  proof (cases "kind = DTR_TEXT_INPUT_EVENT_PREEDIT \<and> last_is_preedit q \<and>
      coalesced_bytes p q \<le> DTR_MAX_TEXT_INPUT_QUEUE_BYTES \<and> length p \<le> DTR_MAX_TEXT_INPUT_QUEUE_BYTES")
    case True
    then have ne: "q_packets q \<noteq> []" by (simp add: last_is_preedit_def)
    have "q' = \<lparr>q_packets = butlast (q_packets q) @ [p], q_queuedBytes = coalesced_bytes p q\<rparr>"
      using True assms(2) Some by (simp add: enqueuePacket_def)
    moreover have "coalesced_bytes p q = sum_len (butlast (q_packets q) @ [p])"
      using assms(1) sum_len_butlast [OF ne] by (simp add: coalesced_bytes_def queue_good_def)
    moreover have "length (butlast (q_packets q) @ [p]) = length (q_packets q)"
      using ne by (cases "q_packets q") simp_all
    ultimately show ?thesis using True assms(1) by (simp add: queue_good_def)
  next
    case False
    then have "q' = q \<or> length (q_packets q) < DTR_MAX_TEXT_INPUT_EVENTS \<and>
        q_queuedBytes q + length p \<le> DTR_MAX_TEXT_INPUT_QUEUE_BYTES \<and>
        q' = \<lparr>q_packets = q_packets q @ [p], q_queuedBytes = q_queuedBytes q + length p\<rparr>"
      using assms(2) Some by (auto simp: enqueuePacket_def split: if_splits)
    then show ?thesis using assms(1) by (auto simp: queue_good_def)
  qed
qed (use assms in \<open>simp add: enqueuePacket_def\<close>)

lemma enqueuePacketD:
  assumes "enqueuePacket (Some p) kind q = (True, q')"
  shows "q_packets q' = q_packets q @ [p] \<and>
      (kind = DTR_TEXT_INPUT_EVENT_PREEDIT \<and> last_is_preedit q \<longrightarrow>
        DTR_MAX_TEXT_INPUT_QUEUE_BYTES < coalesced_bytes p q \<and>
        q_queuedBytes q + length p \<le> DTR_MAX_TEXT_INPUT_QUEUE_BYTES) \<or>
    kind = DTR_TEXT_INPUT_EVENT_PREEDIT \<and> last_is_preedit q \<and> q_packets q' = butlast (q_packets q) @ [p]"
  using assms by (auto simp: enqueuePacket_def split: if_splits)

lemma replaceWithOverflow_good: "queue_good (replaceWithOverflowPacket packet)"
  by (auto simp: replaceWithOverflowPacket_def queue_good_def empty_queue_def split: option.split)

lemma removeFirst_good: "queue_good q \<Longrightarrow> queue_good (removeFirstPacket q)"
  by (auto simp: removeFirstPacket_def queue_good_def split: list.split)

interpretation tq: byte_queue q_packets q_queuedBytes "\<lambda>_. DTR_MAX_TEXT_INPUT_QUEUE_BYTES" queue_good offer_packet
proof unfold_locales
  fix q q' b
  assume g: "queue_good q"
  then show "q_queuedBytes q = sum_len (q_packets q)" "q_queuedBytes q \<le> DTR_MAX_TEXT_INPUT_QUEUE_BYTES"
    by (simp_all add: queue_good_def)
  assume "offer_packet b q = Some q'"
  then have e: "enqueuePacket (Some b) DTR_TEXT_INPUT_EVENT_COMMIT q = (True, q')"
    by (auto simp: offer_packet_def split: prod.splits bool.splits)
  show "queue_good q'" using g e by (rule enqueuePacket_good)
  show "q_packets q' = q_packets q @ [b]" using enqueuePacketD [OF e] by simp
qed simp

section \<open>The packets of a client\<close>

definition earlier :: "byte list \<Rightarrow> byte list \<Rightarrow> bool" where
  "earlier a b \<longleftrightarrow> generation_of a < generation_of b \<or> generation_of a = INT64_MAX"

definition is_preedit :: "byte list \<Rightarrow> bool" where
  "is_preedit p \<longleftrightarrow> kind_of p = DTR_TEXT_INPUT_EVENT_PREEDIT"

text \<open>
  \<open>taken\<close> are the packets that were taken, \<open>ps\<close> those in the queue, \<open>g\<close> is the generation of
  the last event.
\<close>

definition packets_ok :: "u64 \<Rightarrow> u64 \<Rightarrow> byte list list \<Rightarrow> byte list list \<Rightarrow> bool" where
  "packets_ok client g taken ps \<longleftrightarrow> g \<le> INT64_MAX \<and>
     (\<forall>p \<in> set (taken @ ps). well_formed client p \<and> generation_of p \<le> g) \<and>
     sorted_wrt earlier (taken @ ps) \<and>
     successively (\<lambda>a b. \<not> (is_preedit a \<and> is_preedit b)) ps"

definition following_generation :: "u64 \<Rightarrow> u64" where
  "following_generation g = (if g < INT64_MAX then g + 1 else g)"

lemma following_generation_gt: "g < INT64_MAX \<Longrightarrow> g < following_generation g \<and> following_generation g \<le> INT64_MAX"
proof -
  assume a: "g < INT64_MAX"
  then have "unat g < unat INT64_MAX" by (simp only: word_less_nat_alt)
  then have "g \<noteq> - 1" by (auto simp: unat_neg_1)
  then have "unat (g + 1) = Suc (unat g)" by (rule unat_plus1)
  with a show ?thesis by (simp add: following_generation_def word_less_nat_alt word_le_nat_alt)
qed

lemma following_generation_ge: "g \<le> INT64_MAX \<Longrightarrow> g \<le> following_generation g \<and> following_generation g \<le> INT64_MAX"
  using following_generation_gt [of g] by (cases "g < INT64_MAX") (auto simp: following_generation_def)

lemma packets_ok_next: "packets_ok client g taken ps \<Longrightarrow> packets_ok client (following_generation g) taken ps"
  using following_generation_ge [of g] by (auto simp: packets_ok_def intro: order_trans)

lemma packets_ok_earlier:
  assumes "packets_ok client g taken ps" "generation_of p = following_generation g" "a \<in> set (taken @ ps)"
  shows "earlier a p"
proof -
  have le: "generation_of a \<le> g" "g \<le> INT64_MAX" using assms by (auto simp: packets_ok_def)
  show ?thesis
  proof (cases "g < INT64_MAX")
    case True
    then show ?thesis using le assms(2) following_generation_gt [OF True] by (auto simp: earlier_def)
  next
    case False
    then have "following_generation g = INT64_MAX" using le(2) by (simp add: following_generation_def)
    then show ?thesis using le assms(2) by (auto simp: earlier_def)
  qed
qed

lemma packets_ok_append:
  assumes "packets_ok client g taken ps" "well_formed client p" "generation_of p = following_generation g"
    "ps \<noteq> [] \<Longrightarrow> \<not> (is_preedit (last ps) \<and> is_preedit p)"
  shows "packets_ok client (following_generation g) taken (ps @ [p])"
proof -
  note a = assms(1) [unfolded packets_ok_def]
  have "sorted_wrt earlier (taken @ ps @ [p])"
    using a packets_ok_earlier [OF assms(1,3)] sorted_wrt_append [of earlier "taken @ ps" "[p]"] by simp
  moreover have "successively (\<lambda>a b. \<not> (is_preedit a \<and> is_preedit b)) (ps @ [p])"
    using a assms(4) by (cases "ps = []") (simp_all add: successively_append_iff)
  ultimately show ?thesis using packets_ok_next [OF assms(1)] assms(2,3) by (simp add: packets_ok_def)
qed

lemma packets_ok_less:
  assumes "packets_ok client g taken ps" "prefix qs ps"
  shows "packets_ok client g taken qs"
  using assms by (auto simp: packets_ok_def prefix_def sorted_wrt_append successively_append_iff)

lemma packets_ok_coalesce:
  assumes "packets_ok client g taken ps" "well_formed client p" "generation_of p = following_generation g"
    "ps \<noteq> []" "is_preedit (last ps)" "is_preedit p"
  shows "packets_ok client (following_generation g) taken (butlast ps @ [p])"
proof (rule packets_ok_append)
  show "packets_ok client g taken (butlast ps)"
    using assms(1) prefixeq_butlast by (rule packets_ok_less)
  assume ne: "butlast ps \<noteq> []"
  have "successively (\<lambda>a b. \<not> (is_preedit a \<and> is_preedit b)) (butlast ps @ [last ps])"
    using assms(1,4) by (simp add: packets_ok_def)
  then show "\<not> (is_preedit (last (butlast ps)) \<and> is_preedit p)"
    using ne assms(5) by (simp add: successively_append_iff)
qed (use assms in auto)

lemma packets_ok_single:
  assumes "packets_ok client g taken ps" "well_formed client p" "generation_of p = following_generation g"
  shows "packets_ok client (following_generation g) taken [p]"
  using packets_ok_append [OF packets_ok_less [OF assms(1), of "[]"] assms(2,3)] by simp

lemma packets_ok_take:
  "packets_ok client g taken (p # ps) \<Longrightarrow> packets_ok client g (taken @ [p]) ps"
  by (auto simp: packets_ok_def dest: successively_Cons [THEN iffD1])

section \<open>A view that is attached\<close>

definition attached :: "u64 \<Rightarrow> byte list list \<Rightarrow> text_view \<times> text_input \<Rightarrow> bool" where
  "attached client taken s \<longleftrightarrow> (case s of (v, ti) \<Rightarrow>
     client_valid client \<and> tv_textInputClientId v = client \<and>
     (\<exists>q. tv_textInputQueue v = Some q \<and> ti_queues ti client = Some q \<and> queue_good (ti_heap ti q) \<and>
        packets_ok client (tv_textInputEventGeneration v) taken (q_packets (ti_heap ti q))))"

lemma next_view_simps [simp]:
  "tv_textInputEventGeneration (nextTextInputEventGeneration v) = following_generation (tv_textInputEventGeneration v)"
  "tv_textInputClientId (nextTextInputEventGeneration v) = tv_textInputClientId v"
  "tv_textInputQueue (nextTextInputEventGeneration v) = tv_textInputQueue v"
  by (simp_all add: nextTextInputEventGeneration_def following_generation_def)

lemma clear_marked_simps [simp]:
  "tv_textInputEventGeneration (clear_marked v) = tv_textInputEventGeneration v"
  "tv_textInputClientId (clear_marked v) = tv_textInputClientId v"
  "tv_textInputQueue (clear_marked v) = tv_textInputQueue v"
  by (simp_all add: clear_marked_def)

lemma last_is_preedit_iff:
  "packets_ok client g taken (q_packets q) \<Longrightarrow>
    last_is_preedit q \<longleftrightarrow> q_packets q \<noteq> [] \<and> is_preedit (last (q_packets q))"
  by (auto simp: last_is_preedit_def is_preedit_def packets_ok_def well_formed_def)

lemma enqueuePacket_ok:
  assumes "packets_ok client g taken (q_packets q)" "queue_good q"
    "enqueuePacket packet kind q = (True, q')"
    "BuildTextInputPacket utf8 now client (following_generation g) e = packet" "kind = ev_kind e"
  shows "packets_ok client (following_generation g) taken (q_packets q')"
proof -
  obtain p where p: "packet = Some p" using assms(3) by (auto simp: enqueuePacket_def split: option.splits)
  note b = packet_round_trip [OF assms(4) [unfolded p]]
  have kind: "is_preedit p \<longleftrightarrow> kind = DTR_TEXT_INPUT_EVENT_PREEDIT" by (simp add: is_preedit_def b(3) assms(5))
  note last = last_is_preedit_iff [OF assms(1)]
  from enqueuePacketD [OF assms(3) [unfolded p]] show ?thesis
  proof (elim disjE conjE)
    assume q': "q_packets q' = q_packets q @ [p]"
      and c: "kind = DTR_TEXT_INPUT_EVENT_PREEDIT \<and> last_is_preedit q \<longrightarrow>
        DTR_MAX_TEXT_INPUT_QUEUE_BYTES < coalesced_bytes p q \<and>
        q_queuedBytes q + length p \<le> DTR_MAX_TEXT_INPUT_QUEUE_BYTES"
    have "coalesced_bytes p q \<le> q_queuedBytes q + length p" by (simp add: coalesced_bytes_def)
    with c have "\<not> (kind = DTR_TEXT_INPUT_EVENT_PREEDIT \<and> last_is_preedit q)" by linarith
    then show ?thesis unfolding q'
      by (intro packets_ok_append assms(1) b(1,2)) (use kind last in auto)
  next
    assume "kind = DTR_TEXT_INPUT_EVENT_PREEDIT" "last_is_preedit q" "q_packets q' = butlast (q_packets q) @ [p]"
    then show ?thesis using packets_ok_coalesce [OF assms(1) b(1,2)] kind last by simp
  qed
qed

lemma enqueue_attached:
  assumes "attached client taken s"
  shows "attached client taken (enqueueTextInputKind utf8 now e s)"
proof -
  obtain v ti where s: "s = (v, ti)" by fastforce
  obtain q where q: "tv_textInputQueue v = Some q" "ti_queues ti client = Some q"
    "queue_good (ti_heap ti q)" "tv_textInputClientId v = client" "client_valid client"
    and ok: "packets_ok client (tv_textInputEventGeneration v) taken (q_packets (ti_heap ti q))"
    using assms by (auto simp: attached_def s)
  let ?g = "following_generation (tv_textInputEventGeneration v)"
  let ?p = "BuildTextInputPacket utf8 (fst now) client ?g e"
  have nz: "client \<noteq> 0" using q(5) by (simp add: client_valid_def)
  obtain b q' where eq: "enqueuePacket ?p (ev_kind e) (ti_heap ti q) = (b, q')" by fastforce
  show ?thesis
  proof (cases b)
    case True
    then have "packets_ok client ?g taken (q_packets q')" "queue_good q'"
      using enqueuePacket_ok [OF ok q(3) _ refl refl] eq enqueuePacket_good [OF q(3) eq] by auto
    then show ?thesis using True eq q nz by (simp add: enqueueTextInputKind_def s attached_def Let_def)
  next
    case False
    obtain p where p: "BuildTextInputPacket utf8 (snd now) client (following_generation ?g) overflow_event = Some p"
      "length p = 96" by (rule overflow_packet)
    have "packets_ok client (following_generation ?g) taken [p]"
      by (rule packets_ok_single [OF packets_ok_next [OF ok] packet_round_trip(1,2) [OF p(1)]])
    then show ?thesis using False eq q nz p replaceWithOverflow_good [of "Some p"]
      by (simp add: enqueueTextInputKind_def s attached_def Let_def) (simp add: replaceWithOverflowPacket_def)
  qed
qed

section \<open>Histories\<close>

text \<open>The rest of the view's state is no part of \<open>attached\<close>.\<close>

lemma attached_frame [frame_simps]:
  "attached client taken (clear_marked v, ti) = attached client taken (v, ti)"
  "attached client taken (v\<lparr>tv_terminalMarkedText := t\<rparr>, ti) = attached client taken (v, ti)"
  "attached client taken (v\<lparr>tv_terminalMarkedSelection := r\<rparr>, ti) = attached client taken (v, ti)"
  "attached client taken (v\<lparr>tv_terminalRawKeyPosted := b\<rparr>, ti) = attached client taken (v, ti)"
  by (simp_all add: attached_def)

lemma unmark_attached: "attached client taken s \<Longrightarrow> attached client taken (unmarkText utf8 now s)"
  by (cases s) (simp add: unmarkText_def enqueue_attached frame_simps)

lemma setMarked_attached: "attached client taken s \<Longrightarrow> attached client taken (setMarkedText utf8 now v r p s)"
  by (cases s) (simp add: setMarkedText_def enqueue_attached unmark_attached frame_simps split: option.split)

lemma insertText_attached: "attached client taken s \<Longrightarrow> attached client taken (insertText utf8 now v p s)"
  by (cases s) (simp add: insertText_def enqueue_attached frame_simps split: option.split)

lemma rawKey_attached: "attached client taken s \<Longrightarrow> attached client taken (enqueueRawKeyEvent utf8 now k kind s)"
  by (cases s) (simp add: enqueueRawKeyEvent_def enqueue_attached frame_simps split: option.split)

lemma client_step_attached: "attached client taken s \<Longrightarrow> attached client taken (client_step utf8 k c s)"
  by (simp add: client_step_def setMarked_attached unmark_attached insertText_attached rawKey_attached
      split: prod.split client_call.split)

lemma client_steps_attached:
  "attached client taken s \<Longrightarrow> attached client taken (fold (client_step utf8 k) cs s)"
  by (induction cs arbitrary: s) (simp_all add: client_step_attached)

lemma set_posted_attached: "attached client taken s \<Longrightarrow> attached client taken (set_posted b s)"
  by (cases s) (simp add: set_posted_def frame_simps)

lemma keyDown_attached: "attached client taken s \<Longrightarrow> attached client taken (keyDown utf8 now k cs handled s)"
  by (simp add: keyDown_def Let_def set_posted_attached rawKey_attached client_steps_attached)

lemma keyUp_attached: "attached client taken s \<Longrightarrow> attached client taken (keyUp utf8 now k s)"
  by (simp add: keyUp_def set_posted_attached rawKey_attached)

lemma take_event_cases:
  assumes "take_event client out cap req ti = (res, ti')"
  obtains (nothing) "tk_packet res = None" "ti' = ti"
  | (packet) q p ps where "ti_queues ti client = Some q" "q_packets (ti_heap ti q) = p # ps"
      "tk_packet res = Some p"
      "ti' = ti\<lparr>ti_heap := (ti_heap ti)(q := removeFirstPacket (ti_heap ti q))\<rparr>"
proof (cases "Option.bind (ti_queues ti client) (\<lambda>q. peekPacket (ti_heap ti q))")
  case None
  then have "tk_packet res = None" "ti' = ti" using assms by (auto simp: take_event_def split: if_splits)
  then show ?thesis by (rule nothing)
next
  case (Some p)
  then obtain q ps where q: "ti_queues ti client = Some q" "q_packets (ti_heap ti q) = p # ps"
    by (cases "ti_queues ti client") (auto simp: peekPacket_def split: list.splits)
  show ?thesis
  proof (cases "tk_packet res")
    case None
    then have "ti' = ti" using assms Some by (auto simp: take_event_def split: if_splits)
    with None show ?thesis by (rule nothing)
  next
    case taken: (Some p')
    with assms q Some have "tk_packet res = Some p"
      "ti' = ti\<lparr>ti_heap := (ti_heap ti)(q := removeFirstPacket (ti_heap ti q))\<rparr>"
      by (auto simp: take_event_def Let_def split: if_splits)
    with q show ?thesis by (rule packet)
  qed
qed

lemma take_attached:
  assumes "attached client taken (v, ti)" "take_event client out cap req ti = (res, ti')"
  shows "attached client (taken @ (case tk_packet res of None \<Rightarrow> [] | Some p \<Rightarrow> [p])) (v, ti')"
  using assms(2)
proof (cases rule: take_event_cases)
  case nothing
  with assms(1) show ?thesis by simp
next
  case (packet q p ps)
  then have "tv_textInputQueue v = Some q" "queue_good (ti_heap ti q)" "tv_textInputClientId v = client"
    "client_valid client" "packets_ok client (tv_textInputEventGeneration v) taken (p # ps)"
    using assms(1) by (auto simp: attached_def)
  then show ?thesis using packet removeFirst_good [of "ti_heap ti q"] packets_ok_take
    by (simp add: attached_def) (simp add: removeFirstPacket_def)
qed

text \<open>
  A history of a view: calls of AppKit outside and inside of key events, with the clock's
  readings, and takes of the listener, whose packets are logged.
\<close>

datatype text_op =
  ClientCall client_call "u64 \<times> u64"
| KeyDown key_event "(client_call \<times> u64 \<times> u64) list" bool "u64 \<times> u64"
| KeyUp key_event "u64 \<times> u64"
| Take bool u32

fun text_step ::
  "(nsstring \<Rightarrow> byte list option) \<Rightarrow> text_op \<Rightarrow> (text_view \<times> text_input) \<times> byte list list \<Rightarrow>
    (text_view \<times> text_input) \<times> byte list list" where
  "text_step utf8 (ClientCall c now) (s, taken) = (client_step utf8 None (c, now) s, taken)"
| "text_step utf8 (KeyDown k cs handled now) (s, taken) = (keyDown utf8 now k cs handled s, taken)"
| "text_step utf8 (KeyUp k now) (s, taken) = (keyUp utf8 now k s, taken)"
| "text_step utf8 (Take out cap) ((v, ti), taken) =
     (let (res, ti') = take_event (tv_textInputClientId v) out cap True ti
      in ((v, ti'), taken @ (case tk_packet res of None \<Rightarrow> [] | Some p \<Rightarrow> [p])))"

lemma text_step_attached:
  assumes "attached client taken s" "text_step utf8 op (s, taken) = (s', taken')"
  shows "attached client taken' s'"
proof (cases op)
  case (Take out cap)
  obtain v ti where s: "s = (v, ti)" by fastforce
  then have "tv_textInputClientId v = client" using assms(1) by (simp add: attached_def)
  with assms Take s show ?thesis by (auto split: prod.splits intro: take_attached)
qed (use assms in \<open>auto intro: client_step_attached keyDown_attached keyUp_attached\<close>)

lemma text_history_attached:
  "attached client taken s \<Longrightarrow> fold (text_step utf8) ops (s, taken) = (s', taken') \<Longrightarrow> attached client taken' s'"
proof (induction ops arbitrary: s taken)
  case (Cons op ops)
  obtain s1 taken1 where "text_step utf8 op (s, taken) = (s1, taken1)" by fastforce
  with Cons.prems show ?case by (intro Cons.IH [of taken1 s1]) (simp_all add: text_step_attached)
qed simp

lemma attach_attached:
  assumes "attachTextInputClient client new_view ti = (True, v, ti')"
  shows "attached client [] (v, ti')"
  using assms
  by (auto simp: attachTextInputClient_def new_view_def RegisterTextInputQueue_def attached_def Let_def
      queue_good_def empty_queue_def packets_ok_def split: if_splits)

section \<open>The properties\<close>

text \<open>A clock that stands still and the encoding of plain ASCII, for the examples.\<close>

definition ascii :: "nsstring \<Rightarrow> byte list option" where
  "ascii s = (if \<forall>c \<in> set s. c < 128 then Some (map ucast s) else None)"

definition no_input :: text_input where
  "no_input = \<lparr>ti_heap = (\<lambda>_. empty_queue), ti_next = 0, ti_queues = (\<lambda>_. None)\<rparr>"

text \<open>
  C20. Over any history of a view since it was attached, of composition, commits and keys and
  of takes by the listener: the queue never holds more than 256 packets or 1 MiB and its byte
  count is exact; every packet is well formed and of this client; the packets that were taken,
  followed by those queued, are in the order of their events, so none is delivered twice or
  overtakes another; and no two compositions stand next to each other in the queue.
\<close>

theorem text_input_in_order:
  assumes "attachTextInputClient client new_view ti = (True, v, ti')"
    "fold (text_step utf8) ops ((v, ti'), []) = ((v2, ti2), taken)"
  shows "\<exists>q. ti_queues ti2 client = Some q \<and>
    length (q_packets (ti_heap ti2 q)) \<le> 256 \<and>
    q_queuedBytes (ti_heap ti2 q) = sum_len (q_packets (ti_heap ti2 q)) \<and>
    q_queuedBytes (ti_heap ti2 q) \<le> 1024 * 1024 \<and>
    (\<forall>p \<in> set (taken @ q_packets (ti_heap ti2 q)). well_formed client p) \<and>
    sorted_wrt earlier (taken @ q_packets (ti_heap ti2 q)) \<and>
    successively (\<lambda>a b. \<not> (is_preedit a \<and> is_preedit b)) (q_packets (ti_heap ti2 q))"
proof -
  have "attached client taken (v2, ti2)"
    using attach_attached [OF assms(1)] assms(2) by (rule text_history_attached)
  then show ?thesis by (auto simp: attached_def queue_good_def packets_ok_def)
qed

lemma text_input_in_order_witness:
  "\<exists>v ti v2 ti2 taken q. attachTextInputClient 5 new_view no_input = (True, v, ti) \<and>
     fold (text_step ascii) [ClientCall (InsertText (Some [97]) no_range) (0, 0), Take True 200] ((v, ti), [])
       = ((v2, ti2), taken) \<and>
     ti_queues ti2 5 = Some q \<and> sorted_wrt earlier (taken @ q_packets (ti_heap ti2 q))"
proof -
  obtain v ti where a: "attachTextInputClient 5 new_view no_input = (True, v, ti)"
    by (simp add: attachTextInputClient_def client_valid_def new_view_def RegisterTextInputQueue_def no_input_def)
  obtain v2 ti2 taken where f: "fold (text_step ascii)
      [ClientCall (InsertText (Some [97]) no_range) (0, 0), Take True 200] ((v, ti), []) = ((v2, ti2), taken)"
    by (metis prod.exhaust)
  from text_input_in_order [OF a f] a f show ?thesis by blast
qed

text \<open>
  C21. A packet carries its event: the structure read back has the client, the generation, the
  kind, the key and the modifiers, its regions are the encoded texts, and its total size is
  the length of the packet; a range whose location a packet can tell from \<open>NSNotFound\<close> is read
  back exactly.
\<close>

theorem text_packet_round_trip:
  assumes "BuildTextInputPacket utf8 now client g e = Some p"
  shows "let h = read_text_header p in
    te_client_id h = client \<and> te_event_generation h = g \<and> te_monotonic_nanos h = now \<and>
    te_kind h = ev_kind e \<and> te_flags h = ev_flags e \<and> te_key_code h = ev_keyCode e \<and>
    te_modifiers h = ev_modifiers e \<and> unat (te_total_size h) = length p \<and>
    Some (take (unat (te_text_length h)) (drop (unat (te_text_offset h)) p)) = text_bytes utf8 (ev_text e) \<and>
    Some (take (unat (te_unmodified_text_length h)) (drop (unat (te_unmodified_text_offset h)) p))
      = text_bytes utf8 (ev_unmodifiedText e) \<and>
    (range_location (ev_selection e) \<notin> {NSNotFound, 0xFFFFFFFF} \<longrightarrow>
      decode_range (te_selection_location h, te_selection_length h) = ev_selection e) \<and>
    (range_location (ev_replacement e) \<notin> {NSNotFound, 0xFFFFFFFF} \<longrightarrow>
      decode_range (te_replacement_location h, te_replacement_length h) = ev_replacement e)"
proof -
  note r = packet_round_trip [OF assms]
  have "range_location (ev_selection e) \<notin> {NSNotFound, 0xFFFFFFFF} \<longrightarrow>
      decode_range (te_selection_location (read_text_header p), te_selection_length (read_text_header p))
        = ev_selection e"
    using EncodeTextInputRange_decode [OF r(10) [symmetric]] by blast
  moreover have "range_location (ev_replacement e) \<notin> {NSNotFound, 0xFFFFFFFF} \<longrightarrow>
      decode_range (te_replacement_location (read_text_header p), te_replacement_length (read_text_header p))
        = ev_replacement e"
    using EncodeTextInputRange_decode [OF r(11) [symmetric]] by blast
  ultimately show ?thesis using r(1-9) by (simp add: Let_def well_formed_def)
qed

definition sample_commit :: text_event where
  "sample_commit = plain_event DTR_TEXT_INPUT_EVENT_COMMIT (Some [97, 98]) no_range
     \<lparr>range_location = 2, range_length = 3\<rparr>"

lemma text_packet_round_trip_witness:
  "\<exists>p. BuildTextInputPacket ascii 0 5 1 sample_commit = Some p \<and> te_kind (read_text_header p) = 4 \<and>
     decode_range (te_replacement_location (read_text_header p), te_replacement_length (read_text_header p))
       = \<lparr>range_location = 2, range_length = 3\<rparr>"
proof -
  obtain p where p: "BuildTextInputPacket ascii 0 5 1 sample_commit = Some p"
    by (simp add: BuildTextInputPacket_def sample_commit_def plain_event_def text_bytes_def ascii_def
        EncodeTextInputRange_def no_range_def)
  from text_packet_round_trip [OF p] p show ?thesis by (simp add: Let_def sample_commit_def plain_event_def)
qed

end
