(* ===== verification/Dtr_Accessibility_Spec.thy ===== *)
theory Dtr_Accessibility_Spec
  imports Dtr_Document Dtr_Text_Input_Inv
begin

text \<open>
  What the accessibility document promises: which documents a view takes over, that the views
  it is given by any sequence of updates are consistent, and that the questions about lines and
  cells are answered from the text.
\<close>

section \<open>The header in natural numbers\<close>

definition header_in_bounds :: "DtrAccessibilitySnapshotHeaderV2 \<Rightarrow> bool" where
  "header_in_bounds h \<longleftrightarrow>
     unat (ah_generation h) \<in> {1 .. 2 ^ 63 - 1} \<and> unat (ah_rows h) \<in> {1 .. 4096} \<and>
     unat (ah_columns h) \<in> {1 .. 4096} \<and> ah_line_count h = ah_rows h \<and>
     unat (ah_utf8_length h) \<le> 4 * 2 ^ 20 \<and> unat (ah_utf16_length h) \<le> 2 * 2 ^ 20 \<and>
     unat (ah_column_boundary_count h) \<in> {1 .. 2 ^ 20 + 4096} \<and>
     (\<exists>w y. ah_cell_width h = Some w \<and> ah_cell_height h = Some y \<and> 0 < w \<and> 0 < y) \<and>
     (\<exists>x y. ah_content_origin_x h = Some x \<and> ah_content_origin_y h = Some y \<and>
        x \<in> {0 .. 4096} \<and> y \<in> {0 .. 4096})"

lemma header_rejected_iff:
  "\<not> accessibility_header_rejected h v \<longleftrightarrow> header_in_bounds h \<and> ax_generation v < ah_generation h"
proof -
  have size: "\<not> size_rejected d \<longleftrightarrow> (\<exists>x. d = Some x \<and> 0 < x)" for d
    by (cases d) (auto simp: size_rejected_def)
  have origin: "\<not> origin_rejected d \<longleftrightarrow> (\<exists>x. d = Some x \<and> x \<in> {0 .. 4096})" for d
    by (cases d) (auto simp: origin_rejected_def)
  have one: "1 \<le> unat n \<longleftrightarrow> n \<noteq> 0" for n :: u32
    using unat_eq_zero [of n] by (cases "unat n") auto
  have one': "1 \<le> unat n \<longleftrightarrow> n \<noteq> 0" for n :: u64
    using unat_eq_zero [of n] by (cases "unat n") auto
  show ?thesis
    unfolding accessibility_header_rejected_def header_in_bounds_def de_Morgan_disj size origin atLeastAtMost_iff one one'
    by (simp add: word_le_nat_alt word_less_nat_alt not_le not_less) blast
qed

section \<open>Views that were given documents\<close>

text \<open>An update with as many lines, boundaries and bytes as the header says.\<close>

record document =
  doc_header :: DtrAccessibilitySnapshotHeaderV2
  doc_lines :: "DtrAccessibilityLineV1 list"
  doc_boundaries :: "u32 list"
  doc_text :: "byte list"

definition measured :: "document \<Rightarrow> bool" where
  "measured d \<longleftrightarrow> length (doc_lines d) = unat (ah_line_count (doc_header d)) \<and>
     length (doc_boundaries d) = unat (ah_column_boundary_count (doc_header d))"

definition update_with ::
  "(byte list \<Rightarrow> nsstring option) \<Rightarrow> (nsstring \<Rightarrow> byte list option) \<Rightarrow> document \<Rightarrow> accessibility \<Rightarrow> accessibility" where
  "update_with decode encode d v =
     snd (updateAccessibilitySnapshot decode encode (doc_header d) (doc_lines d) (doc_boundaries d) (doc_text d) v)"

lemma updates_keep_document:
  "\<forall>d \<in> set ds. measured d \<Longrightarrow> view_document_ok v \<Longrightarrow> view_document_ok (fold (update_with decode encode) ds v)"
  by (induction ds arbitrary: v) (simp_all add: update_with_def measured_def update_keeps_document)

lemma view_document:
  assumes "view_document_ok v" "ax_rows v \<noteq> 0"
  shows "document_ok (ax_text v) (unat (ax_columns v)) (ax_lines v) (ax_boundaries v)"
    "unat (ax_rows v) = length (ax_lines v)"
  using assms by (auto simp: view_document_ok_def)

section \<open>Lines as ranges\<close>

definition as_range :: "nat \<times> nat \<Rightarrow> NSRange" where
  "as_range r = \<lparr>range_location = of_nat (fst r), range_length = of_nat (snd r)\<rparr>"

definition line_string :: "accessibility \<Rightarrow> nat \<Rightarrow> nsstring option" where
  "line_string v k = (case accessibilityRangeForLine (int k) v of
     None \<Rightarrow> None | Some r \<Rightarrow> accessibilityStringForRange (as_range r) v)"

lemma concat_slices:
  assumes "\<forall>j k. j \<le> k \<longrightarrow> s j \<le> (s k :: nat)" "s 0 = 0"
  shows "concat (map (\<lambda>k. take (s (Suc k) - s k) (drop (s k) xs)) [0..<n]) = take (s n) xs"
proof (induction n)
  case (Suc n)
  have "s n \<le> s (Suc n)" using assms(1) by simp
  then have "take (s (Suc n)) xs = take (s n) xs @ take (s (Suc n) - s n) (drop (s n) xs)"
    by (metis le_add_diff_inverse take_add)
  then show ?case using Suc by simp
qed (simp add: assms(2))

lemma line_range:
  assumes doc: "document_ok (ax_text v) (unat (ax_columns v)) (ax_lines v) (ax_boundaries v)"
    and rows: "unat (ax_rows v) = length (ax_lines v)" and k: "k < length (ax_lines v)"
  shows "accessibilityRangeForLine (int k) v = Some (line_start (ax_lines v) k,
      line_length (ax_lines v ! k) + (if k + 1 < length (ax_lines v) then 1 else 0))"
    "line_start (ax_lines v) (Suc k) = line_start (ax_lines v) k + line_length (ax_lines v ! k) + 1"
  using document_line_end [OF doc k] k rows
  by (simp_all add: accessibilityRangeForLine_def terminalAccessibilityLineAtIndex_def line_end_def)

lemma line_string_slice:
  assumes doc: "document_ok (ax_text v) (unat (ax_columns v)) (ax_lines v) (ax_boundaries v)"
    and rows: "unat (ax_rows v) = length (ax_lines v)" and k: "k < length (ax_lines v)"
  defines "s \<equiv> line_start (ax_lines v)"
  shows "line_string v k = Some (take (s (Suc k) - s k) (drop (s k) (ax_text v)))"
proof -
  let ?line = "ax_lines v ! k" let ?nl = "if k + 1 < length (ax_lines v) then 1 else 0 :: nat"
  have start: "unat (al_utf16_start ?line) = s k" "s (Suc k) = s k + line_length ?line + 1"
    using document_line_end [OF doc k] by (simp_all add: s_def line_end_def)
  have fits: "s k + line_length ?line + ?nl \<le> length (ax_text v)"
  proof (cases "k + 1 < length (ax_lines v)")
    case True
    then have "line_end ?line < length (ax_text v)" using doc by (simp add: document_ok_def)
    then show ?thesis using start by (simp add: line_end_def)
  next
    case False
    then show ?thesis using document_line [OF doc k] by (simp add: line_ok_def s_def)
  qed
  have small: "s k < 4294967296" "line_length ?line < 4294967296"
    using unat_bound [of "al_utf16_start ?line"] unat_bound [of "al_utf16_length ?line"] start(1) by simp_all
  note range = line_range(1) [OF doc rows k, folded s_def]
  have exact: "unat (of_nat n :: u64) = n" if "n < 18446744073709551616" for n
    using that by (simp add: unat_of_nat)
  have found: "(of_nat (s k) :: u64) \<noteq> NSNotFound" "unat (of_nat (s k) :: u64) = s k"
    "unat (of_nat (line_length ?line + ?nl) :: u64) = line_length ?line + ?nl"
    using small exact [of "s k"] exact [of "line_length ?line + ?nl"] unfolding word_unat_eq_iff by auto
  have "line_string v k = Some (take (line_length ?line + ?nl) (drop (s k) (ax_text v)))"
    unfolding line_string_def range option.case accessibilityStringForRange_def in_text_def as_range_def
    using found fits by simp
  moreover have "take (line_length ?line + ?nl) (drop (s k) (ax_text v)) =
      take (s (Suc k) - s k) (drop (s k) (ax_text v))"
  proof (cases "k + 1 < length (ax_lines v)")
    case False
    then have "k = length (ax_lines v) - 1" using k by simp
    then have "line_end ?line = length (ax_text v)" using doc k by (auto simp: document_ok_def last_conv_nth)
    then show ?thesis using start False by (simp add: line_end_def)
  qed (use start in simp)
  ultimately show ?thesis by simp
qed

lemma line_strings_concat:
  assumes doc: "document_ok (ax_text v) (unat (ax_columns v)) (ax_lines v) (ax_boundaries v)"
    and rows: "unat (ax_rows v) = length (ax_lines v)"
  shows "concat (map (\<lambda>k. the (line_string v k)) [0..<length (ax_lines v)]) = ax_text v"
proof -
  let ?s = "line_start (ax_lines v)" let ?n = "length (ax_lines v)"
  have n: "?n \<noteq> 0" "line_end (ax_lines v ! (?n - 1)) = length (ax_text v)"
    using doc by (auto simp: document_ok_def last_conv_nth)
  have "concat (map (\<lambda>k. the (line_string v k)) [0..<?n]) =
      concat (map (\<lambda>k. take (?s (Suc k) - ?s k) (drop (?s k) (ax_text v))) [0..<?n])"
    by (intro arg_cong [of _ _ concat] map_cong) (simp_all add: line_string_slice [OF doc rows])
  also have "\<dots> = take (?s ?n) (ax_text v)"
    by (rule concat_slices) (simp_all add: line_start_mono)
  also have "\<dots> = ax_text v"
    using document_line_end [OF doc, of "?n - 1"] n by simp
  finally show ?thesis .
qed

section \<open>A small document\<close>

text \<open>The lines \<open>ab\<close> and \<open>c\<close> with the cursor before \<open>c\<close>.\<close>

definition sample_accessibility :: document where
  "sample_accessibility =
     \<lparr>doc_header = \<lparr>ah_struct_size = 136, ah_version = 2, ah_operation = 7, ah_flags = 2, ah_generation = 1,
        ah_rows = 2, ah_columns = 3, ah_utf8_length = 4, ah_utf16_length = 4, ah_line_count = 2,
        ah_column_boundary_count = 5, ah_selection_location = 3, ah_selection_length = 0,
        ah_cursor_location = 3, ah_cursor_row = 1, ah_cursor_column = 0, ah_reserved0 = 0,
        ah_cell_width = Some 8, ah_cell_height = Some 16, ah_content_origin_x = Some 0,
        ah_content_origin_y = Some 0, ah_lines_offset = 136, ah_column_boundaries_offset = 176,
        ah_text_offset = 196, ah_total_size = 200, ah_reserved = [0, 0, 0, 0]\<rparr>,
      doc_lines =
        [\<lparr>al_row = 0, al_utf16_start = 0, al_utf16_length = 2, al_first_column_boundary = 0, al_column_boundary_count = 3\<rparr>,
         \<lparr>al_row = 1, al_utf16_start = 3, al_utf16_length = 1, al_first_column_boundary = 3, al_column_boundary_count = 2\<rparr>],
      doc_boundaries = [0, 1, 2, 0, 1],
      doc_text = [97, 98, 10, 99]\<rparr>"

definition of_ascii :: "byte list \<Rightarrow> nsstring option" where
  "of_ascii bs = (if \<forall>b \<in> set bs. b < 128 then Some (map ucast bs) else None)"

definition sample_accessible :: accessibility where
  "sample_accessible = update_with of_ascii ascii sample_accessibility new_accessibility"

lemma sample_measured: "measured sample_accessibility"
  by (simp add: measured_def sample_accessibility_def)

lemma sample_update_accepted:
  "updateAccessibilitySnapshot of_ascii ascii (doc_header sample_accessibility) (doc_lines sample_accessibility)
     (doc_boundaries sample_accessibility) (doc_text sample_accessibility) new_accessibility =
   (True, store_accessibility (doc_header sample_accessibility) (doc_lines sample_accessibility)
     (doc_boundaries sample_accessibility) [97, 98, 10, 99] new_accessibility)"
  by code_simp

lemma sample_accessible_facts:
  "ax_rows sample_accessible = 2" "ax_text sample_accessible = [97, 98, 10, 99]"
  "ax_lines sample_accessible = doc_lines sample_accessibility"
  by (simp_all add: sample_accessible_def update_with_def sample_update_accepted store_accessibility_def Let_def)
    (simp add: sample_accessibility_def)

section \<open>What is accepted\<close>

definition document_spec ::
  "(byte list \<Rightarrow> nsstring option) \<Rightarrow> (nsstring \<Rightarrow> byte list option) \<Rightarrow> document \<Rightarrow> accessibility \<Rightarrow> nsstring \<Rightarrow> bool" where
  "document_spec decode encode d v value \<longleftrightarrow>
     (let h = doc_header d; lines = doc_lines d; boundaries = doc_boundaries d in
      header_in_bounds h \<and> ax_generation v < ah_generation h \<and>
      decode (doc_text d) = Some value \<and> encode value = Some (doc_text d) \<and>
      length value = unat (ah_utf16_length h) \<and> document_ok value (unat (ah_columns h)) lines boundaries \<and>
      selection_ok h value lines boundaries \<and> cursor_ok h lines boundaries)"

lemma document_spec_eq:
  "document_spec decode encode d v value \<longleftrightarrow>
     accessibility_spec decode encode (doc_header d) (doc_lines d) (doc_boundaries d) (doc_text d) v value"
  by (auto simp: document_spec_def accessibility_spec_def header_rejected_iff Let_def)

lemma document_result:
  assumes "measured d"
  shows "updateAccessibilitySnapshot decode encode (doc_header d) (doc_lines d) (doc_boundaries d) (doc_text d) v =
    (if \<exists>value. document_spec decode encode d v value
     then (True, store_accessibility (doc_header d) (doc_lines d) (doc_boundaries d) (the (decode (doc_text d))) v)
     else (False, v))"
  using update_accepts_iff [of "doc_lines d" "doc_header d" "doc_boundaries d" decode encode "doc_text d" v]
    update_state [of "doc_lines d" "doc_header d" "doc_boundaries d" decode encode "doc_text d" v] assms
  by (auto simp: measured_def document_spec_eq prod_eq_iff split: if_splits)

section \<open>Lines and cells\<close>

text \<open>
  C25. In every view that was given any sequence of documents, the ranges of its lines divide its
  text: the strings of the lines are the whole text one after the other, and the line that is
  found for an index of the text is the one whose range the index is in.
\<close>

theorem accessibility_lines_divide_text:
  assumes "\<forall>d \<in> set ds. measured d" "v = fold (update_with decode encode) ds new_accessibility" "ax_rows v \<noteq> 0"
  shows "concat (map (\<lambda>k. the (line_string v k)) [0..<unat (ax_rows v)]) = ax_text v \<and>
    (\<forall>index \<le> length (ax_text v). \<exists>k start len. accessibilityLineForIndex (int index) v = Some k \<and>
       accessibilityRangeForLine (int k) v = Some (start, len) \<and> start \<le> index \<and>
       (index < start + len \<or> index = start + len \<and> k + 1 = unat (ax_rows v)))"
proof (intro conjI allI impI)
  have "view_document_ok v" using updates_keep_document [OF assms(1) view_document_ok_new] assms(2) by simp
  note doc = view_document [OF this assms(3)]
  show "concat (map (\<lambda>k. the (line_string v k)) [0..<unat (ax_rows v)]) = ax_text v"
    using line_strings_concat [OF doc] doc(2) by simp
  fix index assume "index \<le> length (ax_text v)"
  with line_for_index [OF doc] obtain k where k: "k < length (ax_lines v)"
    "terminalAccessibilityLineForUtf16Index index v = Some k" "line_start (ax_lines v) k \<le> index"
    "index < line_start (ax_lines v) (Suc k)" by blast
  then show "\<exists>k start len. accessibilityLineForIndex (int index) v = Some k \<and>
      accessibilityRangeForLine (int k) v = Some (start, len) \<and> start \<le> index \<and>
      (index < start + len \<or> index = start + len \<and> k + 1 = unat (ax_rows v))"
    using line_range [OF doc k(1)] doc(2) by (auto simp: accessibilityLineForIndex_def)
qed

lemma sample_reached: "sample_accessible = fold (update_with of_ascii ascii) [sample_accessibility] new_accessibility"
  by (simp add: sample_accessible_def)

lemma accessibility_lines_divide_text_witness:
  "concat (map (\<lambda>k. the (line_string sample_accessible k)) [0..<2]) = [97, 98, 10, 99]"
  using accessibility_lines_divide_text [OF _ sample_reached] sample_measured
  by (simp add: sample_accessible_facts del: upt_rec_numeral)

text \<open>
  C26. In every view that was given any sequence of documents, each column of each row has an
  index of the text, which never falls between the halves of a surrogate pair, and looking up
  the line and the column of that index gives the row and the first of the columns of the
  character there, whose index is the same.
\<close>

theorem accessibility_cells_round_trip:
  assumes "\<forall>d \<in> set ds. measured d" "v = fold (update_with decode encode) ds new_accessibility"
    and "row < unat (ax_rows v)" "column < line_columns (ax_lines v ! row)"
  shows "\<exists>i c. index_at_cell row column v = Some i \<and> i \<le> length (ax_text v) \<and> \<not> inside_pair (ax_text v) i \<and>
    terminalAccessibilityLineForUtf16Index i v = Some row \<and>
    terminalAccessibilityColumnForLine (ax_lines v ! row) i v = c \<and> c \<le> column \<and> index_at_cell row c v = Some i \<and>
    (\<forall>d < c. index_at_cell row d v \<noteq> Some i)"
proof -
  have "view_document_ok v" using updates_keep_document [OF assms(1) view_document_ok_new] assms(2) by simp
  moreover have "ax_rows v \<noteq> 0" using assms(3) by auto
  ultimately have doc: "document_ok (ax_text v) (unat (ax_columns v)) (ax_lines v) (ax_boundaries v)"
    "unat (ax_rows v) = length (ax_lines v)" by (rule view_document)+
  show ?thesis by (rule cell_round_trip [OF doc]) (use assms(3,4) doc(2) in simp_all)
qed

lemma accessibility_cells_round_trip_witness:
  "\<exists>i. index_at_cell 0 1 sample_accessible = Some i \<and> i \<le> 4 \<and>
    terminalAccessibilityLineForUtf16Index i sample_accessible = Some 0"
  using accessibility_cells_round_trip [OF _ sample_reached, of 0 1] sample_measured
  by (auto simp: sample_accessible_facts sample_accessibility_def)

end
