(* ===== verification/Dtr_Views_Spec.thy ===== *)
theory Dtr_Views_Spec
  imports Dtr_Views_Inv Dtr_Accessibility_Spec Dtr_Frame
begin

text \<open>
  What the views and the renderer functions promise: handles and bindings are sound in every
  history, a released handle never comes back, and a packed accessibility document reaches the
  view exactly when it is a consistent one.
\<close>

section \<open>Handles and bindings\<close>

text \<open>
  C23. After any history of requests, whatever views and renderers come and go and whatever
  operations, uploads, frames, draws and commands run in between: a handle names a well-formed
  renderer of the handle's own generation, a living view holds a renderer exactly when that
  renderer shows the view, and the accessibility document of every view is consistent.
\<close>

theorem plugin_history_sound:
  "let pg = plugin_history requests initial_plugin in
   (\<forall>h a. pg_registry pg h = Some a \<longrightarrow> h \<noteq> 0 \<and> r_generation (pg_renderers pg a) = h \<and> renderer_inv (pg_renderers pg a)) \<and>
   (\<forall>v view. pg_views pg v = Some view \<longrightarrow> view_document_ok (vw_accessibility view) \<and>
      (\<forall>a. vw_terminalRenderer view = Some a \<longleftrightarrow> r_view (pg_renderers pg a) = Some v))"
proof -
  define pg where "pg = plugin_history requests initial_plugin"
  have ok: "plugin_ok pg" unfolding pg_def by (rule plugin_history_ok [OF initial_plugin_ok])
  then have "\<forall>h a. pg_registry pg h = Some a \<longrightarrow> h \<noteq> 0 \<and> r_generation (pg_renderers pg a) = h \<and> renderer_inv (pg_renderers pg a)"
    by (simp add: plugin_ok_def handles_ok_def renderer_ok_def)
  moreover have "view_document_ok (vw_accessibility view) \<and>
      (\<forall>a. vw_terminalRenderer view = Some a \<longleftrightarrow> r_view (pg_renderers pg a) = Some v)" if "pg_views pg v = Some view" for v view
  proof -
    have view: "view_ok pg v view" and r: "renderer_ok pg a" for a using ok that by (simp_all add: plugin_ok_def)
    have "r_view (pg_renderers pg a) = Some v" if "vw_terminalRenderer view = Some a" for a
      using view that by (simp add: view_ok_def)
    moreover have "vw_terminalRenderer view = Some a" if "r_view (pg_renderers pg a) = Some v" for a
      using r [of a] that \<open>pg_views pg v = Some view\<close> by (simp add: renderer_ok_def)
    ultimately show ?thesis using view unfolding view_ok_def by blast
  qed
  ultimately show ?thesis unfolding pg_def [symmetric] Let_def by blast
qed

text \<open>A renderer that a view is bound to, for example.\<close>

definition sample_appkit :: appkit where
  "sample_appkit = \<lparr>ak_decode = of_ascii, ak_encode = ascii, ak_clock = (\<lambda>_. (0, 0)), ak_layer = True,
     ak_focused = True, ak_geometry = True, ak_frames = True\<rparr>"

definition sample_binding :: "byte list" where
  "sample_binding = write_members binding_layout [32, 1, 1, 0, 1, 1]"

definition sample_requests :: "plugin_request list" where
  "sample_requests = [Create_renderer None (Some ((48, 1), metal_config)) (Some (64, 2)), Create_view True True,
     Operation sample_appkit (Some 1) (Some sample_binding)]"

lemma sample_binding_read:
  "length sample_binding = 32" "tc_operation (read_client sample_binding) = 1"
  "read_binding sample_binding = \<lparr>vb_struct_size = 32, vb_version = 1, vb_operation = 1, vb_reserved = 0,
     vb_renderer_handle = 1, vb_renderer_generation = 1\<rparr>"
proof -
  have m: "read_members binding_layout sample_binding = [32, 1, 1, 0, 1, 1]"
    using read_write_members [of binding_layout "[32, 1, 1, 0, 1, 1]" "[]"]
    by (simp add: sample_binding_def binding_layout_def)
  have c: "read_members client_layout sample_binding = [32, 1, 1, 0, 1]"
    using m by (simp add: client_layout_def binding_layout_def)
  show "length sample_binding = 32" by (simp add: sample_binding_def binding_layout_def)
  show "tc_operation (read_client sample_binding) = 1" using c by (simp add: read_client_def)
  show "read_binding sample_binding = \<lparr>vb_struct_size = 32, vb_version = 1, vb_operation = 1, vb_reserved = 0,
     vb_renderer_handle = 1, vb_renderer_generation = 1\<rparr>" using m by (simp add: read_binding_def)
qed

lemma summary_size: "struct_sizeof summary_layout = 64"
  by (simp add: struct_sizeof_def align_up_def summary_layout_def)

lemma metal_config_valid: "MetalConfigValuesAreValid metal_config"
  by (simp add: metal_config_def MetalConfigValuesAreValid_def Let_def)

lemma plugin_history_sound_witness:
  "let pg = plugin_history sample_requests initial_plugin in
     pg_registry pg 1 = Some 0 \<and> r_generation (pg_renderers pg 0) = 1 \<and> renderer_inv (pg_renderers pg 0) \<and>
     (\<exists>view. pg_views pg 1 = Some view \<and> vw_terminalRenderer view = Some 0 \<and> r_view (pg_renderers pg 0) = Some 1)"
proof -
  define pg where "pg = plugin_history sample_requests initial_plugin"
  have view: "pg_registry pg 1 = Some 0" "\<exists>view. pg_views pg 1 = Some view \<and> vw_terminalRenderer view = Some 0"
    by (simp_all add: pg_def sample_requests_def plugin_history_def dtr_metal_renderer_create_def initial_plugin_def
        versioned_def summary_size metal_config_valid CreateTerminalMetalView_def initWithFrame_def
        PerformTerminalMetalViewOperation_def sample_binding_read view_operation_def bind_operation_def
        RetainMetalRendererForHandle_def bindView_def initWithConfig_def weak_view_def sample_appkit_def
        on_renderer_object_def put_view_def Let_def)
  then show ?thesis using plugin_history_sound [of sample_requests] unfolding pg_def [symmetric] Let_def by blast
qed

text \<open>
  How many requests of a history create a renderer: what counts against the 64 bits of the handles.
\<close>

fun creates_renderer :: "plugin_request \<Rightarrow> bool" where
  "creates_renderer (Create_renderer failure config output) \<longleftrightarrow> True"
| "creates_renderer _ \<longleftrightarrow> False"

definition renderer_creations :: "plugin_request list \<Rightarrow> nat" where
  "renderer_creations requests = length (filter creates_renderer requests)"

lemma renderer_creations_simps [simp]:
  "renderer_creations [] = 0"
  "renderer_creations (r # rs) = (if creates_renderer r then Suc (renderer_creations rs) else renderer_creations rs)"
  by (simp_all add: renderer_creations_def)

text \<open>The handle that is minted next, and which handles resolve.\<close>

definition minted :: "plugin \<Rightarrow> nat \<Rightarrow> bool" where
  "minted pg n \<longleftrightarrow> unat (pg_next_handle pg) \<le> n \<and> (\<forall>h. pg_registry pg h \<noteq> None \<longrightarrow> h < pg_next_handle pg)"

lemma with_renderer_registry [simp]:
  "pg_registry (snd (with_renderer h refuse run pg)) = pg_registry pg"
  "pg_next_handle (snd (with_renderer h refuse run pg)) = pg_next_handle pg"
  by (simp_all add: with_renderer_def split: option.split prod.split)

lemma detach_registry [simp]:
  "pg_registry (detach_object a pg) = pg_registry pg" "pg_next_handle (detach_object a pg) = pg_next_handle pg"
  by (simp_all add: detach_object_def Let_def)

lemma on_input_registry [simp]:
  "pg_registry (snd (on_input v view failed f pg)) = pg_registry pg"
  "pg_next_handle (snd (on_input v view failed f pg)) = pg_next_handle pg"
  by (simp_all add: on_input_def split: prod.split)

lemma operation_registry [simp]:
  "pg_registry (snd (PerformTerminalMetalViewOperation ak view payload pg)) = pg_registry pg"
  "pg_next_handle (snd (PerformTerminalMetalViewOperation ak view payload pg)) = pg_next_handle pg"
  by (simp_all add: PerformTerminalMetalViewOperation_def bind_operation_def client_operation_def geometry_operation_def
      stage_operation_def matrix_operation_def snapshot_operation_def accessibility_acceptance_operation_def
      background_operation_def Let_def split: option.split prod.split DtrMetalViewOperation.split)

lemma step_registry:
  "pg_next_handle (plugin_step request pg) = pg_next_handle pg \<and>
     (\<forall>h. pg_registry (plugin_step request pg) h \<noteq> None \<longrightarrow> pg_registry pg h \<noteq> None) \<or>
   creates_renderer request \<and> pg_next_handle (plugin_step request pg) = pg_next_handle pg + 1 \<and>
     (\<forall>h. pg_registry (plugin_step request pg) h \<noteq> None \<longrightarrow> pg_registry pg h \<noteq> None \<or> h = pg_next_handle pg)"
proof (cases request)
  case (Create_renderer failure config out)
  then show ?thesis by (auto simp: dtr_metal_renderer_create_def Let_def split: option.split)
next
  case (Release main_thread handle)
  then show ?thesis
    by (auto simp: dtr_metal_renderer_release_def shutdown_object_def Let_def split: option.split)
qed (auto simp: CreateTerminalMetalView_def dealloc_def Let_def dtr_metal_renderer_reset_atlas_def
    dtr_metal_renderer_upload_atlas_def dtr_metal_renderer_submit_def split: option.split)

lemma step_minted:
  assumes "minted pg n" "creates_renderer request \<Longrightarrow> n < 2 ^ 64 - 1"
  shows "minted (plugin_step request pg) (n + renderer_creations [request])"
    "h < pg_next_handle pg \<Longrightarrow> pg_registry pg h = None \<Longrightarrow>
       pg_registry (plugin_step request pg) h = None \<and> h < pg_next_handle (plugin_step request pg)"
proof -
  have next_handle: "unat (pg_next_handle pg + 1) = Suc (unat (pg_next_handle pg))"
    and less: "k < pg_next_handle pg + 1 \<longleftrightarrow> k \<le> pg_next_handle pg" if "creates_renderer request" for k
  proof -
    have "pg_next_handle pg \<noteq> - 1" using assms that by (intro unat_less_max) (auto simp: minted_def)
    then show "unat (pg_next_handle pg + 1) = Suc (unat (pg_next_handle pg))" by (rule unat_plus1)
    then show "k < pg_next_handle pg + 1 \<longleftrightarrow> k \<le> pg_next_handle pg"
      by (simp add: word_less_nat_alt word_le_nat_alt less_Suc_eq_le)
  qed
  show "minted (plugin_step request pg) (n + renderer_creations [request])"
    using step_registry [of request pg] assms(1) less next_handle by (auto simp: minted_def order_less_imp_le)
  show "h < pg_next_handle pg \<Longrightarrow> pg_registry pg h = None \<Longrightarrow>
      pg_registry (plugin_step request pg) h = None \<and> h < pg_next_handle (plugin_step request pg)"
    using step_registry [of request pg] less by (auto simp: order_less_imp_le)
qed

lemma history_minted:
  "minted pg n \<Longrightarrow> n + renderer_creations requests < 2 ^ 64 \<Longrightarrow>
     minted (plugin_history requests pg) (n + renderer_creations requests) \<and>
     (h < pg_next_handle pg \<longrightarrow> pg_registry pg h = None \<longrightarrow> pg_registry (plugin_history requests pg) h = None)"
proof (induction requests arbitrary: pg n)
  case (Cons r rs)
  then have n: "n < 2 ^ 64 - 1" if "creates_renderer r" using that by simp
  have rest: "n + renderer_creations [r] + renderer_creations rs = n + renderer_creations (r # rs)" by simp
  with Cons.prems(2) have "n + renderer_creations [r] + renderer_creations rs < 2 ^ 64" by (simp only:)
  from Cons.IH [OF step_minted(1) [OF Cons.prems(1) n] this] step_minted(2) [OF Cons.prems(1) n, of r h]
  show ?case unfolding rest by (auto simp: plugin_history_def simp del: renderer_creations_simps)
qed (simp add: plugin_history_def)

text \<open>Every function that is given a handle that does not resolve refuses it and changes nothing.\<close>

lemma unresolved_refused:
  assumes "pg_registry pg h = None"
  shows "dtr_metal_renderer_release main_thread h pg = (DTR_STATUS_INVALID_HANDLE, pg)"
    "with_renderer h refuse run pg = (refuse DTR_STATUS_INVALID_HANDLE, pg)"
    "vb_renderer_handle (read_binding payload) = h \<Longrightarrow>
       fst (bind_operation ak v view payload pg) \<in> {DA_STATUS_INVALID_ARGUMENT, DA_STATUS_INVALID_HANDLE} \<and>
       snd (bind_operation ak v view payload pg) = pg"
proof -
  have "RetainMetalRendererForHandle h pg = None" using assms by (simp add: RetainMetalRendererForHandle_def)
  then show "with_renderer h refuse run pg = (refuse DTR_STATUS_INVALID_HANDLE, pg)"
    "vb_renderer_handle (read_binding payload) = h \<Longrightarrow>
       fst (bind_operation ak v view payload pg) \<in> {DA_STATUS_INVALID_ARGUMENT, DA_STATUS_INVALID_HANDLE} \<and>
       snd (bind_operation ak v view payload pg) = pg"
    by (auto simp: with_renderer_def bind_operation_def Let_def)
qed (simp add: dtr_metal_renderer_release_def assms)

lemma released_unresolved:
  assumes "renderer_creations before + renderer_creations after < 2 ^ 64 - 1"
    and "dtr_metal_renderer_release main_thread h (plugin_history before initial_plugin) = (DTR_STATUS_OK, pg)"
  shows "pg_registry (plugin_history after pg) h = None"
proof -
  let ?pg = "plugin_history before initial_plugin"
  have "minted initial_plugin 1" by (simp add: minted_def initial_plugin_def)
  then have m: "minted ?pg (1 + renderer_creations before)"
    using history_minted [of initial_plugin 1 before] assms(1) by simp
  have known: "pg_registry ?pg h \<noteq> None"
    using assms(2) by (auto simp: dtr_metal_renderer_release_def split: option.splits if_splits)
  have removed: "pg_registry pg = (pg_registry ?pg)(h := None)" "pg_next_handle pg = pg_next_handle ?pg"
    using assms(2) by (auto simp: dtr_metal_renderer_release_def shutdown_object_def Let_def split: option.splits if_splits)
  have "minted pg (1 + renderer_creations before)" "h < pg_next_handle pg"
    using m known removed by (auto simp: minted_def)
  then show ?thesis using history_minted [of pg "1 + renderer_creations before" after h] assms(1) removed(1) by simp
qed

text \<open>
  C24. A handle that was released never resolves again: in every history in which fewer than
  \<open>2 ^ 64 - 1\<close> requests, before and after the release together, create a renderer, whatever else is
  requested, releasing it again, drawing, submitting, asking for the state, resetting the atlas,
  uploading to it and rendering are all refused as an invalid handle, and a view cannot be bound to
  it. None of these changes anything.
\<close>

theorem released_renderer_stays_released:
  assumes "renderer_creations before + renderer_creations after < 2 ^ 64 - 1"
    and "dtr_metal_renderer_release main_thread h (plugin_history before initial_plugin) = (DTR_STATUS_OK, pg)"
  shows "let later = plugin_history after pg in
    dtr_metal_renderer_release any_thread h later = (DTR_STATUS_INVALID_HANDLE, later) \<and>
    dtr_metal_renderer_request_draw h later = (DTR_STATUS_INVALID_HANDLE, False) \<and>
    dtr_metal_renderer_submit h frame (Some (40, 1)) later = ((DTR_STATUS_INVALID_HANDLE, Some empty_submission), later) \<and>
    dtr_metal_renderer_state h (Some (176, 3)) later = Inl DTR_STATUS_INVALID_HANDLE \<and>
    (rs_reserved reset = [0, 0] \<longrightarrow>
       dtr_metal_renderer_reset_atlas h (Some ((struct_sizeof reset_layout, DTR_METAL_ATLAS_RESET_VERSION), reset)) later =
         (DTR_STATUS_INVALID_HANDLE, later)) \<and>
    (atlas_format (up_format request) \<noteq> None \<and> up_reserved request = [0, 0, 0, 0] \<longrightarrow>
       dtr_metal_renderer_upload_atlas h (Some ((struct_sizeof upload_layout, DTR_METAL_ATLAS_UPLOAD_VERSION), request))
         pixels later = (DTR_STATUS_INVALID_HANDLE, later)) \<and>
    dtr_metal_renderer_render_rgba rendered h frame output capacity True later = (DTR_STATUS_INVALID_HANDLE, Some 0, None) \<and>
    (vb_renderer_handle (read_binding payload) = h \<longrightarrow>
       fst (bind_operation ak v view payload later) \<in> {DA_STATUS_INVALID_ARGUMENT, DA_STATUS_INVALID_HANDLE} \<and>
       snd (bind_operation ak v view payload later) = later)"
proof -
  note refused = unresolved_refused [OF released_unresolved [OF assms]]
  show ?thesis
    using refused(3)
    by (simp add: Let_def refused(1,2) dtr_metal_renderer_request_draw_def dtr_metal_renderer_submit_def
        dtr_metal_renderer_state_def dtr_metal_renderer_reset_atlas_def dtr_metal_renderer_upload_atlas_def
        dtr_metal_renderer_render_rgba_def versioned_def)
qed

definition sample_atlas_reset :: DtrMetalAtlasResetV1 where
  "sample_atlas_reset = \<lparr>rs_renderer_generation = 1, rs_atlas_generation = 2, rs_reserved = [0, 0]\<rparr>"

definition sample_atlas_upload :: DtrMetalAtlasUploadV1 where
  "sample_atlas_upload = \<lparr>up_renderer_generation = 1, up_atlas_generation = 1, up_page_generation = 1, up_format = 1,
     up_page_index = 0, up_x = 0, up_y = 0, up_width = 1, up_height = 1, up_row_stride = 1, up_byte_length = 1,
     up_reserved = [0, 0, 0, 0]\<rparr>"

lemma released_renderer_stays_released_witness:
  "let create = [Create_renderer None (Some ((48, 1), metal_config)) (Some (64, 2))] in
   \<exists>pg. dtr_metal_renderer_release True 1 (plugin_history create initial_plugin) = (DTR_STATUS_OK, pg) \<and>
     (let later = plugin_history create pg in
       dtr_metal_renderer_release True 1 later = (DTR_STATUS_INVALID_HANDLE, later) \<and>
       dtr_metal_renderer_reset_atlas 1
         (Some ((struct_sizeof reset_layout, DTR_METAL_ATLAS_RESET_VERSION), sample_atlas_reset)) later =
           (DTR_STATUS_INVALID_HANDLE, later) \<and>
       dtr_metal_renderer_upload_atlas 1
         (Some ((struct_sizeof upload_layout, DTR_METAL_ATLAS_UPLOAD_VERSION), sample_atlas_upload)) (Some [7]) later =
           (DTR_STATUS_INVALID_HANDLE, later) \<and>
       snd (bind_operation sample_appkit 1 initWithFrame sample_binding later) = later)"
proof -
  let ?create = "[Create_renderer None (Some ((48, 1), metal_config)) (Some (64, 2))]"
  have "pg_registry (plugin_history ?create initial_plugin) 1 = Some 0"
    by (simp add: plugin_history_def dtr_metal_renderer_create_def initial_plugin_def versioned_def Let_def
        summary_size metal_config_valid)
  then obtain pg where pg: "dtr_metal_renderer_release True 1 (plugin_history ?create initial_plugin) = (DTR_STATUS_OK, pg)"
    by (simp add: dtr_metal_renderer_release_def)
  have few: "renderer_creations ?create + renderer_creations ?create < 2 ^ 64 - 1" by simp
  have "rs_reserved sample_atlas_reset = [0, 0]" "atlas_format (up_format sample_atlas_upload) \<noteq> None"
    "up_reserved sample_atlas_upload = [0, 0, 0, 0]" "vb_renderer_handle (read_binding sample_binding) = 1"
    by (simp_all add: sample_atlas_reset_def sample_atlas_upload_def atlas_format_def sample_binding_read)
  with pg released_renderer_stays_released [OF few pg, where any_thread = True and reset = sample_atlas_reset and
      request = sample_atlas_upload and pixels = "Some [7]" and payload = sample_binding and ak = sample_appkit and v = 1 and view = initWithFrame]
  show ?thesis by (simp add: Let_def)
qed

section \<open>Documents as packets\<close>

definition accessibility_members :: "nat list \<Rightarrow> DtrAccessibilitySnapshotHeaderV2 \<Rightarrow> nat list" where
  "accessibility_members doubles h =
     [unat (ah_struct_size h), unat (ah_version h), unat (ah_operation h), unat (ah_flags h),
      unat (ah_generation h), unat (ah_rows h), unat (ah_columns h), unat (ah_utf8_length h),
      unat (ah_utf16_length h), unat (ah_line_count h), unat (ah_column_boundary_count h),
      unat (ah_selection_location h), unat (ah_selection_length h), unat (ah_cursor_location h),
      unat (ah_cursor_row h), unat (ah_cursor_column h), unat (ah_reserved0 h)] @ doubles @
     [unat (ah_lines_offset h), unat (ah_column_boundaries_offset h), unat (ah_text_offset h),
      unat (ah_total_size h)] @ map unat (ah_reserved h)"

definition line_members :: "DtrAccessibilityLineV1 \<Rightarrow> nat list" where
  "line_members l = [unat (al_row l), unat (al_utf16_start l), unat (al_utf16_length l),
     unat (al_first_column_boundary l), unat (al_column_boundary_count l)]"

definition write_line :: "DtrAccessibilityLineV1 \<Rightarrow> byte list" where
  "write_line l = write_members accessibility_line_layout (line_members l)"

definition write_boundary :: "u32 \<Rightarrow> byte list" where
  "write_boundary b = le_bytes 4 (unat b)"

text \<open>A document as bytes; \<open>doubles\<close> are the bits of its four doubles.\<close>

definition accessibility_packet :: "nat list \<Rightarrow> document \<Rightarrow> byte list" where
  "accessibility_packet doubles d =
     write_members accessibility_layout (accessibility_members doubles (doc_header d)) @
     concat (map write_line (doc_lines d)) @ concat (map write_boundary (doc_boundaries d)) @ doc_text d"

definition framed :: "nat list \<Rightarrow> document \<Rightarrow> bool" where
  "framed doubles d \<longleftrightarrow> measured d \<and> length (doc_text d) = unat (ah_utf8_length (doc_header d)) \<and>
     (let h = doc_header d; n = 136 + 20 * length (doc_lines d); m = n + 4 * length (doc_boundaries d);
          packet_end = m + length (doc_text d)
      in ah_struct_size h = 136 \<and> ah_version h = 2 \<and> ah_operation h = 7 \<and> ah_flags h AND NOT 3 = 0 \<and>
         ah_reserved0 h = 0 \<and> ah_reserved h = [0, 0, 0, 0] \<and> unat (ah_lines_offset h) = 136 \<and>
         unat (ah_column_boundaries_offset h) = n \<and> unat (ah_text_offset h) = m \<and>
         unat (ah_total_size h) = packet_end \<and> packet_end \<le> 9 * 2 ^ 20 \<and>
         length doubles = 4 \<and> (\<forall>b \<in> set doubles. b < 2 ^ 64) \<and>
         [ah_cell_width h, ah_cell_height h, ah_content_origin_x h, ah_content_origin_y h] = map double_of doubles)"

lemma u32_fits: "unat (w :: u32) < 4294967296" using unat_bound [of w] by simp

lemma u64_fits: "unat (w :: u64) < 18446744073709551616" using unat_bound [of w] by simp

lemma read_written_line: "read_accessibility_line (write_line l @ rest) = l"
proof -
  have "list_all2 (\<lambda>w n. n < 256 ^ w) accessibility_line_layout (line_members l)"
    by (simp add: accessibility_line_layout_def line_members_def u32_fits)
  then show ?thesis
    by (simp add: read_accessibility_line_def write_line_def read_write_members)
      (simp add: line_members_def)
qed

lemma read_written_header:
  assumes "length doubles = 4" "\<forall>b \<in> set doubles. b < 2 ^ 64" "ah_reserved h = [0, 0, 0, 0]"
    "[ah_cell_width h, ah_cell_height h, ah_content_origin_x h, ah_content_origin_y h] = map double_of doubles"
  shows "read_accessibility_header (write_members accessibility_layout (accessibility_members doubles h) @ rest) = h"
proof -
  obtain a b c d where doubles: "doubles = [a, b, c, d]"
    using assms(1) by (auto simp: length_Suc_conv numeral_eq_Suc)
  have "list_all2 (\<lambda>w n. n < 256 ^ w) accessibility_layout (accessibility_members doubles h)"
    using assms(2,3) by (simp add: accessibility_layout_def accessibility_members_def doubles u32_fits u64_fits)
  then have m: "read_members accessibility_layout (write_members accessibility_layout (accessibility_members doubles h) @ rest) =
      accessibility_members doubles h" by (rule read_write_members)
  show ?thesis
    using assms(3,4) unfolding read_accessibility_header_def m Let_def
    by (intro DtrAccessibilitySnapshotHeaderV2.equality) (simp_all add: accessibility_members_def doubles)
qed

lemma drop_chunks:
  "(\<And>x. length (f x) = n) \<Longrightarrow> i \<le> length xs \<Longrightarrow> drop (i * n) (concat (map f xs) @ rest) = concat (map f (drop i xs)) @ rest"
proof (induction xs arbitrary: i)
  case (Cons x xs)
  then show ?case by (cases i) (simp_all add: add.commute)
qed simp

lemma length_chunks: "(\<And>x. length (f x) = n) \<Longrightarrow> length (concat (map f xs)) = length xs * n"
  by (induction xs) simp_all

lemma length_written [simp]: "length (write_line l) = 20" "length (write_boundary b) = 4"
  by (simp_all add: write_line_def line_members_def accessibility_line_layout_def write_boundary_def)

lemma read_packet:
  assumes d: "framed doubles d"
  defines "h \<equiv> doc_header d" and "p \<equiv> accessibility_packet doubles d"
  shows "length p = unat (ah_total_size h)" "read_accessibility_header p = h"
    "packet_lines h p = doc_lines d" "packet_boundaries h p = doc_boundaries d" "packet_text h p = doc_text d"
    "tc_operation (read_client p) = 7"
proof -
  let ?w = "write_members accessibility_layout (accessibility_members doubles h)"
  let ?ls = "concat (map write_line (doc_lines d))" and ?bs = "concat (map write_boundary (doc_boundaries d))"
  have h: "length doubles = 4" "\<forall>b \<in> set doubles. b < 2 ^ 64" "ah_reserved h = [0, 0, 0, 0]"
    "[ah_cell_width h, ah_cell_height h, ah_content_origin_x h, ah_content_origin_y h] = map double_of doubles"
    "unat (ah_lines_offset h) = 136" "unat (ah_column_boundaries_offset h) = 136 + 20 * length (doc_lines d)"
    "unat (ah_text_offset h) = 136 + 20 * length (doc_lines d) + 4 * length (doc_boundaries d)"
    "unat (ah_total_size h) = unat (ah_text_offset h) + length (doc_text d)"
    "length (doc_lines d) = unat (ah_line_count h)" "length (doc_boundaries d) = unat (ah_column_boundary_count h)"
    "length (doc_text d) = unat (ah_utf8_length h)" "ah_operation h = 7"
    using d by (simp_all add: framed_def measured_def Let_def h_def)
  have members: "length (accessibility_members doubles h) = length accessibility_layout"
    using h(1,3) by (simp add: accessibility_members_def accessibility_layout_def)
  have lens: "length ?w = 136" "length ?ls = 20 * length (doc_lines d)" "length ?bs = 4 * length (doc_boundaries d)"
    using length_chunks [of write_line 20 "doc_lines d"] length_chunks [of write_boundary 4 "doc_boundaries d"] members
    by (simp_all add: accessibility_layout_def)
  have p: "p = ?w @ ?ls @ ?bs @ doc_text d" by (simp add: p_def accessibility_packet_def h_def)
  show "length p = unat (ah_total_size h)" using h lens by (simp add: p)
  show "read_accessibility_header p = h" unfolding p by (rule read_written_header [OF h(1,2,3,4)])
  have line: "read_accessibility_line (drop (136 + i * 20) p) = doc_lines d ! i" if i: "i < length (doc_lines d)" for i
  proof -
    have "drop (136 + i * 20) p = drop (i * 20) (?ls @ ?bs @ doc_text d)" by (simp add: p lens flip: drop_drop)
    also have "\<dots> = write_line (doc_lines d ! i) @ concat (map write_line (drop (Suc i) (doc_lines d))) @ ?bs @ doc_text d"
      using drop_chunks [of write_line 20 i "doc_lines d" "?bs @ doc_text d"] i
      by (simp flip: Cons_nth_drop_Suc)
    finally show ?thesis by (simp add: read_written_line)
  qed
  then show "packet_lines h p = doc_lines d"
    unfolding packet_lines_def h(5) by (intro nth_equalityI) (simp_all add: h(9))
  have boundary: "of_nat (le_nat (take 4 (drop (unat (ah_column_boundaries_offset h) + i * 4) p))) = doc_boundaries d ! i"
    if i: "i < length (doc_boundaries d)" for i
  proof -
    have "drop (unat (ah_column_boundaries_offset h) + i * 4) p = drop (i * 4) (?bs @ doc_text d)"
      by (simp add: p lens h(6) flip: drop_drop)
    also have "\<dots> = write_boundary (doc_boundaries d ! i) @ concat (map write_boundary (drop (Suc i) (doc_boundaries d))) @ doc_text d"
      using drop_chunks [of write_boundary 4 i "doc_boundaries d" "doc_text d"] i by (simp flip: Cons_nth_drop_Suc)
    finally show ?thesis by (simp add: write_boundary_def le_nat_le_bytes u32_fits)
  qed
  then show "packet_boundaries h p = doc_boundaries d"
    unfolding packet_boundaries_def by (intro nth_equalityI) (simp_all add: h(10))
  have "drop (unat (ah_text_offset h)) p = doc_text d" by (simp add: p lens h(7))
  then show "packet_text h p = doc_text d" by (simp add: packet_text_def flip: h(11))
  have "list_all2 (\<lambda>w n. n < 256 ^ w) client_layout (take 5 (accessibility_members doubles h))"
    by (simp add: client_layout_def accessibility_members_def u32_fits u64_fits)
  then have "read_members client_layout (write_members client_layout (take 5 (accessibility_members doubles h)) @ rest) =
      take 5 (accessibility_members doubles h)" for rest by (rule read_write_members)
  moreover have "\<exists>rest. p = write_members client_layout (take 5 (accessibility_members doubles h)) @ rest"
    by (simp add: p accessibility_layout_def client_layout_def accessibility_members_def)
  ultimately show "tc_operation (read_client p) = 7"
    using h(12) by (auto simp: read_client_def accessibility_members_def)
qed

text \<open>
  C22. A document sent as a packet reaches its view as it is. The operation succeeds exactly for
  the documents that the specification describes in unbounded arithmetic: the text is the lines
  joined by newlines, each line's columns start in order within the line and never between the
  halves of a surrogate pair, the selection and the cursor lie on such starts, and the
  generation is newer. The view's document is then replaced by it, and otherwise nothing changes.
\<close>

theorem accessibility_packet_round_trip:
  assumes framed: "framed doubles d" and view: "pg_views pg v = Some view"
  shows "PerformTerminalMetalViewOperation ak (Some v) (Some (accessibility_packet doubles d)) pg =
    (if \<exists>value. document_spec (ak_decode ak) (ak_encode ak) d (vw_accessibility view) value
     then (DA_STATUS_OK, put_view v (view\<lparr>vw_accessibility := store_accessibility (doc_header d) (doc_lines d)
       (doc_boundaries d) (the (ak_decode ak (doc_text d))) (vw_accessibility view)\<rparr>) pg)
     else (DA_STATUS_INVALID_ARGUMENT, pg))"
proof -
  let ?p = "accessibility_packet doubles d" and ?h = "doc_header d"
  note read = read_packet [OF framed]
  have m: "measured d" and size: "136 \<le> length ?p" "length ?p \<le> 9437184"
    using framed read(1) by (simp_all add: framed_def Let_def)
  have accepted: "\<not> packet_rejected ?h ?p"
    using framed read(1) by (simp add: packet_rejected_def framed_def Let_def measured_def view_operation_def)
  have same: "put_view v view pg = pg" using view by (simp add: put_view_def map_upd_triv)
  have "PerformTerminalMetalViewOperation ak (Some v) (Some ?p) pg = snapshot_operation ak v view ?p pg"
    using size view read(6) by (simp add: PerformTerminalMetalViewOperation_def view_operation_def)
  also have "\<dots> = (case updateAccessibilitySnapshot (ak_decode ak) (ak_encode ak) ?h (doc_lines d) (doc_boundaries d)
      (doc_text d) (vw_accessibility view) of
      (ok, ax) \<Rightarrow> (ok_or DA_STATUS_INVALID_ARGUMENT ok, put_view v (view\<lparr>vw_accessibility := ax\<rparr>) pg))"
    using size accepted by (simp add: snapshot_operation_def read(2-5))
  finally show ?thesis by (simp add: document_result [OF m] ok_or_def same)
qed

definition sample_doubles :: "nat list" where
  "sample_doubles = [0x4020000000000000, 0x4030000000000000, 0, 0]"

lemma sample_doubles_denote: "map double_of sample_doubles = [Some 8, Some 16, Some 0, Some 0]"
  by (simp add: sample_doubles_def double_of_def Let_def)

lemma sample_framed: "framed sample_doubles sample_accessibility"
  unfolding framed_def sample_doubles_denote
  by (simp add: measured_def sample_accessibility_def Let_def) (simp add: sample_doubles_def)

lemma sample_spec: "\<exists>value. document_spec of_ascii ascii sample_accessibility new_accessibility value"
  using document_result [OF sample_measured, of of_ascii ascii new_accessibility] sample_update_accepted
  by (auto split: if_splits)

lemma accessibility_packet_round_trip_witness:
  "fst (PerformTerminalMetalViewOperation sample_appkit (Some 0) (Some (accessibility_packet sample_doubles sample_accessibility))
     (plugin_history [Create_view True True] initial_plugin)) = DA_STATUS_OK"
proof -
  have "pg_views (plugin_history [Create_view True True] initial_plugin) 0 = Some initWithFrame"
    by (simp add: plugin_history_def CreateTerminalMetalView_def initial_plugin_def)
  note result = accessibility_packet_round_trip [OF sample_framed this, of sample_appkit]
  then show ?thesis using sample_spec by (simp add: sample_appkit_def initWithFrame_def)
qed

end
