(* ===== verification/Dtr_Font_Config.thy ===== *)
theory Dtr_Font_Config
  imports Dtr_Accessibility
begin

text \<open>
  The configuration of a font catalog, from
  \<^verbatim>\<open>packages/dart_terminal_renderer_macos/native/TerminalRendererPlugin.m\<close> and \<^verbatim>\<open>.h\<close>: the
  enumerations and structures of the font functions, and \<open>DecodeFontCatalogConfiguration\<close>, which
  turns a caller's structure into the variations of each style and the overrides, or refuses it.
\<close>

section \<open>Structures and enumerations\<close>

abbreviation "DTR_MAX_FONT_FAMILY_BYTES \<equiv> (1024 :: u32)"
abbreviation "DTR_MAX_RESOLVE_TEXT_BYTES \<equiv> (1048576 :: u32)"
abbreviation "DTR_MAX_POSTSCRIPT_NAME_BYTES \<equiv> (127 :: nat)"
abbreviation "DTR_MAX_FONT_VARIATIONS_PER_STYLE \<equiv> (16 :: nat)"
abbreviation "DTR_MAX_FONT_VARIATIONS \<equiv> (64 :: u32)"
abbreviation "DTR_MAX_FONT_CODEPOINT_OVERRIDES \<equiv> (256 :: u32)"
abbreviation "DTR_MAX_FONT_OVERRIDE_FAMILY_BYTES \<equiv> (65536 :: u32)"
abbreviation "DTR_MAX_FONT_RESOLUTION_DIAGNOSTICS \<equiv> (256 :: nat)"
abbreviation "DTR_FONT_CATALOG_CONFIG_VERSION \<equiv> (1 :: u32)"
abbreviation "DTR_FONT_VARIATION_VERSION \<equiv> (1 :: u32)"
abbreviation "DTR_FONT_CODEPOINT_OVERRIDE_VERSION \<equiv> (1 :: u32)"

datatype DtrFontStyle =
  DTR_FONT_STYLE_REGULAR | DTR_FONT_STYLE_BOLD | DTR_FONT_STYLE_ITALIC | DTR_FONT_STYLE_BOLD_ITALIC

fun style_code :: "DtrFontStyle \<Rightarrow> u32" where
  "style_code DTR_FONT_STYLE_REGULAR = 0"
| "style_code DTR_FONT_STYLE_BOLD = 1"
| "style_code DTR_FONT_STYLE_ITALIC = 2"
| "style_code DTR_FONT_STYLE_BOLD_ITALIC = 3"

definition style_bit :: "u32 \<Rightarrow> u32" where
  "style_bit style = push_bit (unat style) 1"

abbreviation "DTR_FONT_POLICY_ALLOW_SYNTHETIC \<equiv> (1 :: u32)"
abbreviation "DTR_FONT_POLICY_KNOWN_MASK \<equiv> (1 :: u32)"

datatype DtrResolvedFontFlag =
  DTR_RESOLVED_FONT_FALLBACK | DTR_RESOLVED_FONT_COLOR_GLYPHS | DTR_RESOLVED_FONT_SYNTHETIC
| DTR_RESOLVED_FONT_MISSING_GLYPH | DTR_RESOLVED_FONT_MONOSPACED

fun resolved_font_flag :: "DtrResolvedFontFlag \<Rightarrow> u32" where
  "resolved_font_flag DTR_RESOLVED_FONT_FALLBACK = 1"
| "resolved_font_flag DTR_RESOLVED_FONT_COLOR_GLYPHS = 2"
| "resolved_font_flag DTR_RESOLVED_FONT_SYNTHETIC = 4"
| "resolved_font_flag DTR_RESOLVED_FONT_MISSING_GLYPH = 8"
| "resolved_font_flag DTR_RESOLVED_FONT_MONOSPACED = 16"

datatype DtrFontResolutionSource =
  DTR_FONT_RESOLUTION_REQUESTED | DTR_FONT_RESOLUTION_CODEPOINT_OVERRIDE
| DTR_FONT_RESOLUTION_CORETEXT_FALLBACK | DTR_FONT_RESOLUTION_MISSING_GLYPH

fun source_code :: "DtrFontResolutionSource \<Rightarrow> u32" where
  "source_code DTR_FONT_RESOLUTION_REQUESTED = 0"
| "source_code DTR_FONT_RESOLUTION_CODEPOINT_OVERRIDE = 1"
| "source_code DTR_FONT_RESOLUTION_CORETEXT_FALLBACK = 2"
| "source_code DTR_FONT_RESOLUTION_MISSING_GLYPH = 3"

record DtrFontVariationV1 =
  fv_struct_size :: u32
  fv_version :: u32
  fv_style :: u32
  fv_tag :: u32
  fv_value :: double
  fv_reserved :: "u32 list"

definition variation_layout :: "nat list" where "variation_layout = [4, 4, 4, 4, 8, 4, 4]"

record DtrFontCodepointOverrideV1 =
  fo_struct_size :: u32
  fo_version :: u32
  fo_first_scalar :: u32
  fo_last_scalar :: u32
  fo_family_offset :: u32
  fo_family_length :: u32
  fo_reserved :: "u32 list"

definition override_layout :: "nat list" where "override_layout = [4, 4, 4, 4, 4, 4, 4, 4]"

text \<open>A pointer to an array is the array, of at least the length that goes with it, or null.\<close>

record DtrFontCatalogConfigV1 =
  cc_struct_size :: u32
  cc_version :: u32
  cc_variations :: "DtrFontVariationV1 list option"
  cc_variation_count :: u32
  cc_variation_stride :: u32
  cc_overrides :: "DtrFontCodepointOverrideV1 list option"
  cc_override_count :: u32
  cc_override_stride :: u32
  cc_family_bytes :: cstring
  cc_family_byte_count :: u32
  cc_reserved :: "u32 list"

definition font_config_layout :: "nat list" where
  "font_config_layout = [4, 4, 8, 4, 4, 8, 4, 4, 8, 4, 4, 4, 4]"

lemma font_sizes [simp]:
  "struct_sizeof variation_layout = 32" "struct_sizeof override_layout = 32"
  "struct_sizeof font_config_layout = 64"
  by (simp_all add: struct_sizeof_def align_up_def variation_layout_def override_layout_def font_config_layout_def)

section \<open>Decoding a configuration\<close>

definition DecodeUtf8 :: "(byte list \<Rightarrow> nsstring option) \<Rightarrow> cstring \<Rightarrow> u32 \<Rightarrow> bool \<Rightarrow> nsstring option" where
  "DecodeUtf8 decode bytes len allow_empty =
     (if len = 0 then (if allow_empty then Some [] else None)
      else case bytes of None \<Rightarrow> None
      | Some bs \<Rightarrow> if 0 \<in> set (take (unat len) bs) then None else decode (take (unat len) bs))"

definition IsUnicodeScalar :: "u32 \<Rightarrow> bool" where
  "IsUnicodeScalar v \<longleftrightarrow> v \<le> 0x10FFFF \<and> (v < 0xD800 \<or> 0xDFFF < v)"

definition IsPrintableOpenTypeTag :: "u32 \<Rightarrow> bool" where
  "IsPrintableOpenTypeTag tag \<longleftrightarrow>
     (\<forall>shift \<in> set [0, 8, 16, 24]. \<not> (let b = drop_bit shift tag AND 0xFF in b < 0x20 \<or> 0x7E < b))"

definition config_header_rejected :: "DtrFontCatalogConfigV1 \<Rightarrow> bool" where
  "config_header_rejected c \<longleftrightarrow>
     DTR_MAX_FONT_VARIATIONS < cc_variation_count c \<or>
     unat (cc_variation_stride c) \<noteq> struct_sizeof variation_layout \<or>
     ((cc_variation_count c = 0) \<noteq> (cc_variations c = None)) \<or>
     DTR_MAX_FONT_CODEPOINT_OVERRIDES < cc_override_count c \<or>
     unat (cc_override_stride c) \<noteq> struct_sizeof override_layout \<or>
     ((cc_override_count c = 0) \<noteq> (cc_overrides c = None)) \<or>
     DTR_MAX_FONT_OVERRIDE_FAMILY_BYTES < cc_family_byte_count c \<or>
     ((cc_family_byte_count c = 0) \<noteq> (cc_family_bytes c = None)) \<or>
     ((cc_override_count c = 0) \<noteq> (cc_family_byte_count c = 0))"

definition variation_rejected :: "u32 option \<Rightarrow> DtrFontVariationV1 \<Rightarrow> bool" where
  "variation_rejected previous v \<longleftrightarrow>
     style_code DTR_FONT_STYLE_BOLD_ITALIC < fv_style v \<or>
     (case previous of None \<Rightarrow> False | Some p \<Rightarrow> fv_style v < p) \<or>
     \<not> IsPrintableOpenTypeTag (fv_tag v) \<or>
     (case fv_value v of None \<Rightarrow> True | Some x \<Rightarrow> x < - 65536 \<or> 65536 < x) \<or>
     (\<exists>r \<in> set (fv_reserved v). r \<noteq> 0)"

text \<open>
  The requests of a style are tags with values. The set of the tags that a style has so far is
  that of its list, so it is not kept a second time.
\<close>

type_synonym font_request = "u32 \<times> rat"

fun decode_variations ::
  "u32 option \<Rightarrow> font_request list list \<Rightarrow> DtrFontVariationV1 list \<Rightarrow> DtrStatus + font_request list list" where
  "decode_variations previous by_style [] = Inr by_style"
| "decode_variations previous by_style (v # vs) =
     (if unat (fv_struct_size v) \<noteq> struct_sizeof variation_layout \<or> fv_version v \<noteq> DTR_FONT_VARIATION_VERSION
      then Inl DTR_STATUS_UNSUPPORTED_VERSION
      else if variation_rejected previous v then Inl DTR_STATUS_INVALID_ARGUMENT
      else let style_variations = by_style ! unat (fv_style v) in
        if DTR_MAX_FONT_VARIATIONS_PER_STYLE \<le> length style_variations \<or> fv_tag v \<in> fst ` set style_variations
        then Inl DTR_STATUS_INVALID_ARGUMENT
        else decode_variations (Some (fv_style v))
          (by_style[unat (fv_style v) := style_variations @ [(fv_tag v, the (fv_value v))]]) vs)"

record font_override_request =
  or_first :: u32
  or_last :: u32
  or_family :: nsstring

definition override_rejected :: "u32 \<Rightarrow> u32 \<Rightarrow> DtrFontCodepointOverrideV1 \<Rightarrow> bool" where
  "override_rejected count expected_offset ov \<longleftrightarrow>
     \<not> IsUnicodeScalar (fo_first_scalar ov) \<or> \<not> IsUnicodeScalar (fo_last_scalar ov) \<or>
     fo_last_scalar ov < fo_first_scalar ov \<or>
     (fo_first_scalar ov \<le> 0xDFFF \<and> 0xD800 \<le> fo_last_scalar ov) \<or>
     fo_family_offset ov \<noteq> expected_offset \<or> fo_family_length ov = 0 \<or>
     DTR_MAX_FONT_FAMILY_BYTES < fo_family_length ov \<or>
     count - expected_offset < fo_family_length ov \<or>
     (\<exists>r \<in> set (fo_reserved ov). r \<noteq> 0)"

fun decode_overrides ::
  "(byte list \<Rightarrow> nsstring option) \<Rightarrow> cstring \<Rightarrow> u32 \<Rightarrow> u32 \<Rightarrow> DtrFontCodepointOverrideV1 list \<Rightarrow>
    DtrStatus + u32 \<times> font_override_request list" where
  "decode_overrides decode families count expected_offset [] = Inr (expected_offset, [])"
| "decode_overrides decode families count expected_offset (ov # ovs) =
     (if unat (fo_struct_size ov) \<noteq> struct_sizeof override_layout \<or> fo_version ov \<noteq> DTR_FONT_CODEPOINT_OVERRIDE_VERSION
      then Inl DTR_STATUS_UNSUPPORTED_VERSION
      else if override_rejected count expected_offset ov then Inl DTR_STATUS_INVALID_ARGUMENT
      else case DecodeUtf8 decode (map_option (drop (unat expected_offset)) families) (fo_family_length ov) False of
        None \<Rightarrow> Inl DTR_STATUS_INVALID_ARGUMENT
      | Some family \<Rightarrow>
        (case decode_overrides decode families count (expected_offset + fo_family_length ov) ovs of
           Inl status \<Rightarrow> Inl status
         | Inr (stop, requests) \<Rightarrow>
             Inr (stop, \<lparr>or_first = fo_first_scalar ov, or_last = fo_last_scalar ov, or_family = family\<rparr> # requests)))"

definition array_of :: "'a list option \<Rightarrow> u32 \<Rightarrow> 'a list" where
  "array_of pointer count = take (unat count) (case pointer of None \<Rightarrow> [] | Some a \<Rightarrow> a)"

definition DecodeFontCatalogConfiguration ::
  "(byte list \<Rightarrow> nsstring option) \<Rightarrow> DtrFontCatalogConfigV1 option \<Rightarrow>
    DtrStatus + font_request list list \<times> font_override_request list" where
  "DecodeFontCatalogConfiguration decode config = (case config of
     None \<Rightarrow> Inl DTR_STATUS_INVALID_ARGUMENT
   | Some c \<Rightarrow>
     if unat (cc_struct_size c) \<noteq> struct_sizeof font_config_layout \<or> cc_version c \<noteq> DTR_FONT_CATALOG_CONFIG_VERSION
     then Inl DTR_STATUS_UNSUPPORTED_VERSION
     else if (\<exists>r \<in> set (cc_reserved c). r \<noteq> 0) \<or> config_header_rejected c then Inl DTR_STATUS_INVALID_ARGUMENT
     else case decode_variations None [[], [], [], []] (array_of (cc_variations c) (cc_variation_count c)) of
       Inl status \<Rightarrow> Inl status
     | Inr by_style \<Rightarrow>
       (case decode_overrides decode (cc_family_bytes c) (cc_family_byte_count c) 0
            (array_of (cc_overrides c) (cc_override_count c)) of
          Inl status \<Rightarrow> Inl status
        | Inr (expected_offset, requests) \<Rightarrow>
          if expected_offset \<noteq> cc_family_byte_count c then Inl DTR_STATUS_INVALID_ARGUMENT
          else Inr (by_style, requests)))"

end
