(* ===== verification/Dtr_Font_Config_Spec.thy ===== *)
theory Dtr_Font_Config_Spec
  imports Dtr_Font_Config
begin

text \<open>
  Which configurations a font catalog accepts, said of the whole structure and in unbounded
  numbers, and that the decoder accepts exactly these.
\<close>

section \<open>Variations\<close>

definition tag_printable :: "u32 \<Rightarrow> bool" where
  "tag_printable tag \<longleftrightarrow> (\<forall>k < 4. 32 \<le> unat tag div 256 ^ k mod 256 \<and> unat tag div 256 ^ k mod 256 \<le> 126)"

definition variation_ok :: "DtrFontVariationV1 \<Rightarrow> bool" where
  "variation_ok v \<longleftrightarrow> unat (fv_struct_size v) = 32 \<and> fv_version v = 1 \<and> fv_style v \<le> 3 \<and>
     tag_printable (fv_tag v) \<and>
     (\<exists>x. fv_value v = Some x \<and> \<bar>x\<bar> \<le> 65536) \<and> set (fv_reserved v) \<subseteq> {0}"

definition of_style :: "u32 \<Rightarrow> DtrFontVariationV1 list \<Rightarrow> DtrFontVariationV1 list" where
  "of_style style = filter (\<lambda>v. fv_style v = style)"

definition variations_ok :: "DtrFontVariationV1 list \<Rightarrow> bool" where
  "variations_ok vs \<longleftrightarrow> (\<forall>v \<in> set vs. variation_ok v) \<and> sorted (map fv_style vs) \<and>
     distinct (map (\<lambda>v. (fv_style v, fv_tag v)) vs) \<and> (\<forall>style. length (of_style style vs) \<le> 16)"

definition style_requests :: "DtrFontVariationV1 list \<Rightarrow> font_request list list" where
  "style_requests vs = map (\<lambda>style. map (\<lambda>v. (fv_tag v, the (fv_value v))) (of_style style vs)) [0, 1, 2, 3]"

definition previous_style :: "DtrFontVariationV1 list \<Rightarrow> u32 option" where
  "previous_style vs = (if vs = [] then None else Some (fv_style (last vs)))"

lemma tag_byte: "unat (drop_bit k (tag :: u32) AND 0xFF) = unat tag div 2 ^ k mod 256"
proof -
  have eq: "drop_bit k tag AND 0xFF = take_bit 8 (drop_bit k tag)"
    by (simp add: take_bit_eq_mask mask_eq_exp_minus_1)
  have "unat (drop_bit k tag AND 0xFF) = take_bit 8 (drop_bit k (unat tag))"
    unfolding eq by (simp only: unsigned_take_bit_eq unat_drop_bit_eq)
  also have "\<dots> = unat tag div 2 ^ k mod 256" by (simp add: take_bit_eq_mod drop_bit_eq_div)
  finally show ?thesis .
qed

lemma printable_iff:
  "IsPrintableOpenTypeTag tag \<longleftrightarrow> tag_printable tag"
proof -
  have "\<not> (drop_bit s tag AND 0xFF < 0x20 \<or> 0x7E < drop_bit s tag AND 0xFF) \<longleftrightarrow>
      32 \<le> unat tag div 2 ^ s mod 256 \<and> unat tag div 2 ^ s mod 256 \<le> 126" for s
    by (simp add: word_less_nat_alt tag_byte not_less)
  moreover have "(\<forall>k < 4. P k) \<longleftrightarrow> P 0 \<and> P 1 \<and> P 2 \<and> P (3 :: nat)" for P
    by (auto simp: numeral_eq_Suc less_Suc_eq)
  ultimately show ?thesis by (simp add: IsPrintableOpenTypeTag_def tag_printable_def Let_def)
qed

lemma variation_ok_iff:
  "variation_ok v \<and> (case p of None \<Rightarrow> True | Some s \<Rightarrow> s \<le> fv_style v) \<longleftrightarrow>
     unat (fv_struct_size v) = struct_sizeof variation_layout \<and> fv_version v = DTR_FONT_VARIATION_VERSION \<and>
     \<not> variation_rejected p v"
  unfolding variation_ok_def variation_rejected_def printable_iff
  by (cases "fv_value v"; cases p) (auto simp: not_less abs_le_iff)

lemma of_style_append: "of_style style (vs @ [v]) = of_style style vs @ (if fv_style v = style then [v] else [])"
  by (simp add: of_style_def)

lemma style_cases: "(s :: u32) \<le> 3 \<Longrightarrow> s = 0 \<or> s = 1 \<or> s = 2 \<or> s = 3"
proof -
  assume "s \<le> 3"
  then have "unat s \<le> 3" by (simp add: word_le_nat_alt)
  then have "unat s = 0 \<or> unat s = 1 \<or> unat s = 2 \<or> unat s = 3" by arith
  then show ?thesis by (simp add: word_unat_eq_iff)
qed

lemma style_requests_nth: "s \<le> 3 \<Longrightarrow>
    style_requests vs ! unat s = map (\<lambda>v. (fv_tag v, the (fv_value v))) (of_style s vs)"
  using style_cases [of s] by (auto simp: style_requests_def)

lemma style_requests_update: "fv_style v \<le> 3 \<Longrightarrow>
    (style_requests vs)[unat (fv_style v) := style_requests vs ! unat (fv_style v) @ [(fv_tag v, the (fv_value v))]] =
    style_requests (vs @ [v])"
  using style_cases [of "fv_style v"] by (auto simp: style_requests_def of_style_append)

lemma variations_ok_snoc:
  assumes "variations_ok us"
  shows "variations_ok (us @ [v]) \<longleftrightarrow> variation_ok v \<and>
     (case previous_style us of None \<Rightarrow> True | Some s \<Rightarrow> s \<le> fv_style v) \<and>
     length (of_style (fv_style v) us) < 16 \<and> fv_tag v \<notin> fv_tag ` set (of_style (fv_style v) us)"
proof -
  have "sorted (map fv_style (us @ [v])) \<longleftrightarrow>
      (case previous_style us of None \<Rightarrow> True | Some s \<Rightarrow> s \<le> fv_style v)"
  proof (cases us rule: rev_cases)
    case (snoc ys y)
    with assms have "sorted (map fv_style ys @ [fv_style y])" by (simp add: variations_ok_def)
    with snoc show ?thesis by (force simp: previous_style_def sorted_append)
  qed (simp add: previous_style_def)
  moreover have "(fv_style v, fv_tag v) \<notin> (\<lambda>v. (fv_style v, fv_tag v)) ` set us \<longleftrightarrow>
      fv_tag v \<notin> fv_tag ` set (of_style (fv_style v) us)"
    by (auto simp: of_style_def image_iff)
  moreover have "(\<forall>style. length (of_style style (us @ [v])) \<le> 16) \<longleftrightarrow> length (of_style (fv_style v) us) < 16"
    using assms by (auto simp: variations_ok_def of_style_append split: if_splits)
  ultimately show ?thesis using assms by (auto simp: variations_ok_def)
qed

lemma variations_ok_prefix: "variations_ok (us @ vs) \<Longrightarrow> variations_ok us"
  unfolding variations_ok_def of_style_def by (auto simp: sorted_append intro: add_leD1)

lemma decode_variations_exact:
  "variations_ok us \<Longrightarrow> decode_variations (previous_style us) (style_requests us) vs = Inr r \<longleftrightarrow>
     variations_ok (us @ vs) \<and> r = style_requests (us @ vs)"
proof (induction vs arbitrary: us)
  case (Cons v vs)
  have tags: "fst ` set (map (\<lambda>v. (fv_tag v, the (fv_value v))) us) = fv_tag ` set us" for us by force
  have ok: "variation_ok v \<Longrightarrow> fv_style v \<le> 3" by (simp add: variation_ok_def)
  show ?case
  proof (cases "variations_ok (us @ [v])")
    case True
    note snoc = this [unfolded variations_ok_snoc [OF Cons.prems]]
    have "decode_variations (previous_style us) (style_requests us) (v # vs) =
        decode_variations (Some (fv_style v)) (style_requests (us @ [v])) vs"
      using snoc ok variation_ok_iff [of v "previous_style us"]
      by (simp add: Let_def style_requests_update [symmetric] style_requests_nth tags del: set_map)
    moreover have "previous_style (us @ [v]) = Some (fv_style v)" by (simp add: previous_style_def)
    ultimately show ?thesis using Cons.IH [OF True] by simp
  next
    case False
    then have "\<not> variations_ok (us @ v # vs)" using variations_ok_prefix [of "us @ [v]" vs] by auto
    moreover have "\<exists>status. decode_variations (previous_style us) (style_requests us) (v # vs) = Inl status"
    proof (cases "variation_ok v \<and> (case previous_style us of None \<Rightarrow> True | Some s \<Rightarrow> s \<le> fv_style v)")
      case True
      with False ok show ?thesis unfolding variations_ok_snoc [OF Cons.prems]
        by (auto simp add: Let_def style_requests_nth tags not_less simp del: set_map)
    next
      case rejected: False
      show ?thesis using rejected [unfolded variation_ok_iff] by auto
    qed
    ultimately show ?thesis by auto
  qed
qed auto

section \<open>Overrides\<close>

definition override_ok :: "DtrFontCodepointOverrideV1 \<Rightarrow> bool" where
  "override_ok ov \<longleftrightarrow> unat (fo_struct_size ov) = 32 \<and> fo_version ov = 1 \<and>
     (let first = unat (fo_first_scalar ov); last = unat (fo_last_scalar ov) in
      first \<le> last \<and> last \<le> 0x10FFFF \<and> (last < 0xD800 \<or> 0xDFFF < first)) \<and>
     0 < unat (fo_family_length ov) \<and> unat (fo_family_length ov) \<le> 1024 \<and> set (fo_reserved ov) \<subseteq> {0}"

text \<open>The names of the families follow one another from \<open>start\<close> to \<open>stop\<close>.\<close>

fun placed :: "nat \<Rightarrow> DtrFontCodepointOverrideV1 list \<Rightarrow> nat \<Rightarrow> bool" where
  "placed start [] stop \<longleftrightarrow> start = stop"
| "placed start (ov # ovs) stop \<longleftrightarrow>
     unat (fo_family_offset ov) = start \<and> placed (start + unat (fo_family_length ov)) ovs stop"

definition family_bytes :: "byte list \<Rightarrow> DtrFontCodepointOverrideV1 \<Rightarrow> byte list" where
  "family_bytes families ov = take (unat (fo_family_length ov)) (drop (unat (fo_family_offset ov)) families)"

definition names_override ::
  "(byte list \<Rightarrow> nsstring option) \<Rightarrow> byte list \<Rightarrow> DtrFontCodepointOverrideV1 \<Rightarrow> font_override_request \<Rightarrow> bool" where
  "names_override decode families ov request \<longleftrightarrow>
     or_first request = fo_first_scalar ov \<and> or_last request = fo_last_scalar ov \<and>
     0 \<notin> set (family_bytes families ov) \<and> decode (family_bytes families ov) = Some (or_family request)"

definition overrides_ok ::
  "(byte list \<Rightarrow> nsstring option) \<Rightarrow> byte list \<Rightarrow> nat \<Rightarrow> DtrFontCodepointOverrideV1 list \<Rightarrow> nat \<Rightarrow>
    font_override_request list \<Rightarrow> bool" where
  "overrides_ok decode families start ovs stop requests \<longleftrightarrow>
     (\<forall>ov \<in> set ovs. override_ok ov) \<and> placed start ovs stop \<and> list_all2 (names_override decode families) ovs requests"

lemma placed_le: "placed start ovs stop \<Longrightarrow> start \<le> stop"
  by (induction start ovs stop rule: placed.induct) auto

lemma zero_members: "(\<exists>r \<in> set rs. r \<noteq> 0) \<longleftrightarrow> \<not> set rs \<subseteq> {0 :: u32}"
  by auto

lemma override_ok_iff:
  assumes "unat expected \<le> unat count"
  shows "override_ok ov \<and> unat (fo_family_offset ov) = unat expected \<and>
       unat expected + unat (fo_family_length ov) \<le> unat count \<longleftrightarrow>
     unat (fo_struct_size ov) = struct_sizeof override_layout \<and> fo_version ov = DTR_FONT_CODEPOINT_OVERRIDE_VERSION \<and>
     \<not> override_rejected count expected ov"
proof -
  have sub: "unat (count - expected) = unat count - unat expected"
    using assms by (simp add: unat_sub word_le_nat_alt)
  have "unat expected + unat (fo_family_length ov) \<le> unat count \<longleftrightarrow> \<not> count - expected < fo_family_length ov"
    using assms by (auto simp: word_less_nat_alt sub)
  moreover have "fo_family_offset ov = expected \<longleftrightarrow> unat (fo_family_offset ov) = unat expected"
    by (simp add: word_unat_eq_iff)
  moreover have "fo_family_length ov = 0 \<longleftrightarrow> unat (fo_family_length ov) = 0" by (simp add: word_unat_eq_iff)
  moreover have "IsUnicodeScalar (fo_first_scalar ov) \<and> IsUnicodeScalar (fo_last_scalar ov) \<and>
      \<not> fo_last_scalar ov < fo_first_scalar ov \<and> \<not> (fo_first_scalar ov \<le> 0xDFFF \<and> 0xD800 \<le> fo_last_scalar ov) \<longleftrightarrow>
      (let first = unat (fo_first_scalar ov); last = unat (fo_last_scalar ov) in
      first \<le> last \<and> last \<le> 0x10FFFF \<and> (last < 0xD800 \<or> 0xDFFF < first))"
    by (auto simp: IsUnicodeScalar_def word_le_nat_alt word_less_nat_alt Let_def not_less)
  moreover have "\<not> 1024 < fo_family_length ov \<longleftrightarrow> unat (fo_family_length ov) \<le> 1024"
    by (simp add: word_less_nat_alt not_less)
  ultimately show ?thesis
    unfolding override_ok_def override_rejected_def zero_members by auto
qed

lemma DecodeUtf8_slice:
  "0 < unat (fo_family_length ov) \<Longrightarrow>
   DecodeUtf8 decode (map_option (drop (unat (fo_family_offset ov))) (Some families)) (fo_family_length ov) False =
   (if 0 \<in> set (family_bytes families ov) then None else decode (family_bytes families ov))"
  by (auto simp: DecodeUtf8_def family_bytes_def)

lemma decode_overrides_exact:
  "unat expected \<le> unat count \<Longrightarrow>
   decode_overrides decode (Some families) count expected ovs = Inr (stop, requests) \<and> stop = count \<longleftrightarrow>
     overrides_ok decode families (unat expected) ovs (unat count) requests \<and> stop = count"
proof (induction ovs arbitrary: expected requests)
  case Nil
  then show ?case by (auto simp: overrides_ok_def word_unat_eq_iff)
next
  case (Cons ov ovs)
  let ?next = "expected + fo_family_length ov"
  show ?case
  proof (cases "override_ok ov \<and> unat (fo_family_offset ov) = unat expected \<and>
       unat expected + unat (fo_family_length ov) \<le> unat count")
    case True
    then have step_to: "unat ?next = unat expected + unat (fo_family_length ov)"
      using unat_bound [of count] by (intro unat_add_lem [THEN iffD1]) simp
    note decodes = DecodeUtf8_slice [of ov decode families]
    have "unat ?next \<le> unat count" using True step_to by simp
    note IH = Cons.IH [OF this]
    have place: "unat expected = unat (fo_family_offset ov)" "0 < unat (fo_family_length ov)"
      using True by (simp_all add: override_ok_def)
    have step: "decode_overrides decode (Some families) count expected (ov # ovs) =
        (case if 0 \<in> set (family_bytes families ov) then None else decode (family_bytes families ov) of
          None \<Rightarrow> Inl DTR_STATUS_INVALID_ARGUMENT
        | Some family \<Rightarrow>
          (case decode_overrides decode (Some families) count ?next ovs of
             Inl status \<Rightarrow> Inl status
           | Inr (stop, requests) \<Rightarrow>
               Inr (stop, \<lparr>or_first = fo_first_scalar ov, or_last = fo_last_scalar ov, or_family = family\<rparr> # requests)))"
      using True [unfolded override_ok_iff [OF Cons.prems]] place decodes by simp
    show ?thesis
    proof (cases requests)
      case Nil
      then show ?thesis unfolding step by (auto simp: overrides_ok_def split: option.splits sum.splits if_splits)
    next
      case (Cons request rest)
      have "overrides_ok decode families (unat expected) (ov # ovs) (unat count) requests \<longleftrightarrow>
          names_override decode families ov request \<and> overrides_ok decode families (unat ?next) ovs (unat count) rest"
        using True Cons step_to by (auto simp: overrides_ok_def)
      moreover have "names_override decode families ov request \<longleftrightarrow>
          0 \<notin> set (family_bytes families ov) \<and> decode (family_bytes families ov) = Some (or_family request) \<and>
          request = \<lparr>or_first = fo_first_scalar ov, or_last = fo_last_scalar ov, or_family = or_family request\<rparr>"
        by (cases request) (auto simp: names_override_def)
      ultimately show ?thesis
        unfolding step Cons using IH [of rest]
        by (auto split: option.splits sum.splits)
    qed
  next
    case False
    have "\<exists>status. decode_overrides decode (Some families) count expected (ov # ovs) = Inl status"
      using False [unfolded override_ok_iff [OF Cons.prems]] by auto
    moreover have "\<not> overrides_ok decode families (unat expected) (ov # ovs) (unat count) requests"
      using False placed_le [of "unat expected + unat (fo_family_length ov)" ovs "unat count"]
      by (auto simp: overrides_ok_def)
    ultimately show ?thesis by auto
  qed
qed

section \<open>The configuration\<close>

definition config_header_ok :: "DtrFontCatalogConfigV1 \<Rightarrow> bool" where
  "config_header_ok c \<longleftrightarrow> unat (cc_struct_size c) = 64 \<and> cc_version c = 1 \<and> set (cc_reserved c) \<subseteq> {0} \<and>
     unat (cc_variation_count c) \<le> 64 \<and> unat (cc_variation_stride c) = 32 \<and>
     unat (cc_override_count c) \<le> 256 \<and> unat (cc_override_stride c) = 32 \<and>
     unat (cc_family_byte_count c) \<le> 65536 \<and>
     (cc_variations c = None \<longleftrightarrow> cc_variation_count c = 0) \<and> (cc_overrides c = None \<longleftrightarrow> cc_override_count c = 0) \<and>
     (cc_family_bytes c = None \<longleftrightarrow> cc_family_byte_count c = 0) \<and>
     (cc_override_count c = 0 \<longleftrightarrow> cc_family_byte_count c = 0)"

definition font_config_spec ::
  "(byte list \<Rightarrow> nsstring option) \<Rightarrow> DtrFontCatalogConfigV1 \<Rightarrow> font_request list list \<Rightarrow>
    font_override_request list \<Rightarrow> bool" where
  "font_config_spec decode c by_style requests \<longleftrightarrow>
     (let variations = array_of (cc_variations c) (cc_variation_count c);
          overrides = array_of (cc_overrides c) (cc_override_count c);
          families = (case cc_family_bytes c of None \<Rightarrow> [] | Some bytes \<Rightarrow> bytes)
      in config_header_ok c \<and> variations_ok variations \<and> by_style = style_requests variations \<and>
         overrides_ok decode families 0 overrides (unat (cc_family_byte_count c)) requests)"

lemma config_header_ok_iff:
  "config_header_ok c \<longleftrightarrow> unat (cc_struct_size c) = struct_sizeof font_config_layout \<and>
     cc_version c = DTR_FONT_CATALOG_CONFIG_VERSION \<and>
     \<not> ((\<exists>r \<in> set (cc_reserved c). r \<noteq> 0) \<or> config_header_rejected c)"
  unfolding config_header_ok_def config_header_rejected_def zero_members
  by (auto simp: word_less_nat_alt not_less)

lemma no_overrides: "overrides_ok decode families 0 [] n requests \<longleftrightarrow> n = 0 \<and> requests = []"
  by (auto simp: overrides_ok_def)

text \<open>
  C34. The decoder accepts exactly the canonical configurations, and yields what they say: the
  counts, strides and null pointers agree; variations are ordered by style, with at most sixteen
  different printable tags each and finite values within 65536; overrides are ranges of scalars,
  and the names of their families cover the bytes of the names one after the other, without a gap,
  each a string of at most 1024 bytes without NUL. The result has the variations grouped by style,
  in order, and the overrides in order.
\<close>

theorem font_config_exact:
  "DecodeFontCatalogConfiguration decode config = Inr (by_style, requests) \<longleftrightarrow>
     (\<exists>c. config = Some c \<and> font_config_spec decode c by_style requests)"
proof (cases config)
  case (Some c)
  let ?vs = "array_of (cc_variations c) (cc_variation_count c)"
  let ?ovs = "array_of (cc_overrides c) (cc_override_count c)"
  have vs: "decode_variations None [[], [], [], []] ?vs = Inr r \<longleftrightarrow> variations_ok ?vs \<and> r = style_requests ?vs" for r
    using decode_variations_exact [of "[]" ?vs r]
    by (simp add: variations_ok_def previous_style_def style_requests_def of_style_def)
  have ovs: "decode_overrides decode (cc_family_bytes c) (cc_family_byte_count c) 0 ?ovs =
        Inr (cc_family_byte_count c, rs) \<longleftrightarrow>
      overrides_ok decode (case cc_family_bytes c of None \<Rightarrow> [] | Some bytes \<Rightarrow> bytes) 0 ?ovs
        (unat (cc_family_byte_count c)) rs" if "config_header_ok c" for rs
  proof (cases "cc_family_bytes c")
    case None
    with that have "cc_family_byte_count c = 0" "?ovs = []" by (auto simp: config_header_ok_def array_of_def)
    then show ?thesis by (auto simp: no_overrides)
  next
    case (Some families)
    then show ?thesis using decode_overrides_exact [of 0 "cc_family_byte_count c" decode families ?ovs] by auto
  qed
  show ?thesis
  proof (cases "config_header_ok c")
    case True
    have "DecodeFontCatalogConfiguration decode config = Inr (by_style, requests) \<longleftrightarrow>
        decode_variations None [[], [], [], []] ?vs = Inr by_style \<and>
        decode_overrides decode (cc_family_bytes c) (cc_family_byte_count c) 0 ?ovs =
          Inr (cc_family_byte_count c, requests)"
      unfolding DecodeFontCatalogConfiguration_def Some
      using True [unfolded config_header_ok_iff] by (auto split: sum.splits)
    then show ?thesis unfolding vs ovs [OF True] using True Some by (simp add: font_config_spec_def Let_def)
  next
    case False
    then show ?thesis
      unfolding DecodeFontCatalogConfiguration_def Some
      by (auto simp: config_header_ok_iff font_config_spec_def Let_def)
  qed
qed (simp add: DecodeFontCatalogConfiguration_def)

end
