(* ===== verification/Dtr_Fonts.thy ===== *)
theory Dtr_Fonts
  imports Dtr_Font_Config "HOL-Library.AList" "HOL-Library.Product_Lexorder"
begin

text \<open>
  The font catalogs of the renderer package, from
  \<^verbatim>\<open>packages/dart_terminal_renderer_macos/native/TerminalRendererPlugin.m\<close> and \<^verbatim>\<open>.h\<close>: how a
  catalog chooses its fonts, which identifiers it gives its faces, which font it asks CoreText for
  at each character, and what it remembers of CoreText's answers.

  A font is an opaque object of type \<open>'f\<close>. What CoreText, AppKit and Foundation compute is a record
  of functions, a parameter of the model; that they are functions says that asking again gives the
  same answer. The exported functions take effect one at a time.
\<close>

section \<open>What CoreText, AppKit and Foundation compute\<close>

text \<open>
  \<open>ct_round\<close> rounds an exact result to a double. A variation is an axis with the bits of its
  value, \<open>ct_format\<close> the text \<^verbatim>\<open>|%08x=%.17g\<close> of one. \<open>ct_letter\<close> are the answers about the letter M:
  whether it has a glyph, the glyph, whether the advance was found, and its width.
  \<open>ct_for_string\<close> is the font that CoreText would use for a range of a text.
\<close>

record 'f coretext =
  ct_round :: "rat \<Rightarrow> double"
  ct_decode :: "byte list \<Rightarrow> nsstring option"
  ct_encode :: "nsstring \<Rightarrow> byte list option"
  ct_system :: "rat \<Rightarrow> 'f option"
  ct_named :: "nsstring \<Rightarrow> rat \<Rightarrow> 'f option"
  ct_family :: "nsstring \<Rightarrow> rat \<Rightarrow> 'f option"
  ct_traits :: "'f \<Rightarrow> bool \<times> bool \<Rightarrow> 'f option"
  ct_postscript :: "'f \<Rightarrow> nsstring option"
  ct_variation :: "'f \<Rightarrow> (u32 \<times> u64) list option"
  ct_format :: "u32 \<times> u64 \<Rightarrow> nsstring"
  ct_axes :: "'f \<Rightarrow> u32 list option"
  ct_varied :: "'f \<Rightarrow> (u32 \<rightharpoonup> rat) \<Rightarrow> 'f option"
  ct_color :: "'f \<Rightarrow> bool"
  ct_monospaced :: "'f \<Rightarrow> bool"
  ct_letter :: "'f \<Rightarrow> bool \<times> u16 \<times> bool \<times> double"
  ct_ascent :: "'f \<Rightarrow> double"
  ct_descent :: "'f \<Rightarrow> double"
  ct_leading :: "'f \<Rightarrow> double"
  ct_underline_position :: "'f \<Rightarrow> double"
  ct_underline_thickness :: "'f \<Rightarrow> double"
  ct_for_string :: "'f \<Rightarrow> nsstring \<Rightarrow> nat \<times> nat \<Rightarrow> 'f option"

section \<open>Fonts\<close>

definition CreateRequestedFont :: "('f, 'm) coretext_scheme \<Rightarrow> nsstring \<Rightarrow> rat \<Rightarrow> 'f option" where
  "CreateRequestedFont ct family point_size =
     (if family = [] then ct_system ct point_size
      else case ct_named ct family point_size of Some font \<Rightarrow> Some font
      | None \<Rightarrow> ct_family ct family point_size)"

definition PostScriptName :: "('f, 'm) coretext_scheme \<Rightarrow> 'f \<Rightarrow> nsstring" where
  "PostScriptName ct font = (case ct_postscript ct font of None \<Rightarrow> [] | Some name \<Rightarrow> name)"

definition FontIdentityKey :: "('f, 'm) coretext_scheme \<Rightarrow> 'f \<Rightarrow> nsstring" where
  "FontIdentityKey ct font = PostScriptName ct font @
     concat (map (ct_format ct) (sort_key fst (case ct_variation ct font of None \<Rightarrow> [] | Some vs \<Rightarrow> vs)))"

text \<open>The font, and the counters of the variations applied and of those not available.\<close>

definition ApplyFontVariations ::
  "('f, 'm) coretext_scheme \<Rightarrow> 'f \<Rightarrow> font_request list \<Rightarrow> u64 \<Rightarrow> u64 \<Rightarrow> 'f \<times> u64 \<times> u64" where
  "ApplyFontVariations ct font requests applied unavailable =
     (if requests = [] then (font, applied, unavailable)
      else let supported = (case ct_axes ct font of None \<Rightarrow> [] | Some axes \<Rightarrow> axes);
          values = fold (\<lambda>(tag, v) m. if tag \<in> set supported then AList.update tag v m else m) requests [];
          missed = fold (\<lambda>(tag, v) u. if tag \<in> set supported then u else SaturatingIncrementMetric u) requests unavailable
        in if values = [] then (font, applied, missed)
           else case ct_varied ct font (map_of values) of
             None \<Rightarrow> (font, applied, SaturatingAddMetric missed (of_nat (length values)))
           | Some varied \<Rightarrow> (varied, SaturatingAddMetric applied (of_nat (length values)), missed))"

record 'f style_fonts =
  sf_fonts :: "'f option list"
  sf_available :: u32
  sf_synthetic :: u32
  sf_applied :: u64
  sf_unavailable :: u64

definition requested_traits :: "nat \<Rightarrow> bool \<times> bool" where
  "requested_traits index = [(True, False), (False, True), (True, True)] ! index"

definition add_varied ::
  "('f, 'm) coretext_scheme \<Rightarrow> 'f \<Rightarrow> font_request list \<Rightarrow> 'f style_fonts \<Rightarrow> 'f style_fonts" where
  "add_varied ct font requests sf = (case ApplyFontVariations ct font requests (sf_applied sf) (sf_unavailable sf) of
     (varied, applied, unavailable) \<Rightarrow>
       sf\<lparr>sf_fonts := sf_fonts sf @ [Some varied], sf_applied := applied, sf_unavailable := unavailable\<rparr>)"

definition add_style ::
  "('f, 'm) coretext_scheme \<Rightarrow> 'f \<Rightarrow> u32 \<Rightarrow> font_request list list \<Rightarrow> nat \<Rightarrow> 'f style_fonts \<Rightarrow> 'f style_fonts" where
  "add_style ct regular policy_flags variations_by_style index sf =
     (let style = index + 1; requests = variations_by_style ! style; bit = push_bit style 1
      in case ct_traits ct regular (requested_traits index) of
        Some font \<Rightarrow> add_varied ct font requests (sf\<lparr>sf_available := sf_available sf OR bit\<rparr>)
      | None \<Rightarrow>
        if policy_flags AND DTR_FONT_POLICY_ALLOW_SYNTHETIC \<noteq> 0
        then add_varied ct regular requests (sf\<lparr>sf_synthetic := sf_synthetic sf OR bit\<rparr>)
        else sf\<lparr>sf_fonts := sf_fonts sf @ [None],
               sf_unavailable := fold (\<lambda>_. SaturatingIncrementMetric) requests (sf_unavailable sf)\<rparr>)"

definition CreateStyleFonts ::
  "('f, 'm) coretext_scheme \<Rightarrow> 'f \<Rightarrow> u32 \<Rightarrow> font_request list list \<Rightarrow> 'f style_fonts" where
  "CreateStyleFonts ct regular policy_flags variations_by_style =
     fold (add_style ct regular policy_flags variations_by_style) [0, 1, 2]
       (add_varied ct regular (variations_by_style ! 0) \<lparr>sf_fonts = [],
          sf_available = style_bit (style_code DTR_FONT_STYLE_REGULAR), sf_synthetic = 0, sf_applied = 0, sf_unavailable = 0\<rparr>)"

text \<open>\<open>fontForStyle\<close> of a catalog and of an override: the font and whether it is synthetic.\<close>

definition font_for_style :: "u32 \<Rightarrow> 'f option list \<Rightarrow> u32 \<Rightarrow> ('f \<times> bool) option" where
  "font_for_style style fonts synthetic_bits =
     (if style_code DTR_FONT_STYLE_BOLD_ITALIC < style then None
      else map_option (\<lambda>font. (font, synthetic_bits AND style_bit style \<noteq> 0)) (fonts ! unat style))"

record 'f DtrFontOverride =
  ov_firstScalar :: u32
  ov_lastScalar :: u32
  ov_family :: nsstring
  ov_fonts :: "'f option list"
  ov_syntheticStyleBits :: u32
  ov_available :: bool

definition override_font_for_style :: "u32 \<Rightarrow> 'f DtrFontOverride \<Rightarrow> ('f \<times> bool) option" where
  "override_font_for_style style ov =
     (if \<not> ov_available ov then None else font_for_style style (ov_fonts ov) (ov_syntheticStyleBits ov))"

section \<open>The catalog\<close>

text \<open>
  A resolution is what was recorded under a key of its source and its face. The dictionary of them
  is a list; it is only searched by key, counted, and sorted by key.
\<close>

record resolution =
  re_source :: u32
  re_face :: u32
  re_flags :: u32
  re_name :: nsstring
  re_count :: u64

record 'f catalog =
  cg_generation :: u64
  cg_pointSize :: rat
  cg_fonts :: "'f option list"
  cg_availableStyleBits :: u32
  cg_syntheticStyleBits :: u32
  cg_faceIds :: "nsstring \<rightharpoonup> u32"
  cg_fontsByFaceId :: "u32 \<rightharpoonup> 'f"
  cg_overrides :: "'f DtrFontOverride list"
  cg_diagnosticRecords :: "resolution list"
  cg_nextFaceId :: u32
  cg_configuredVariationCount :: u64
  cg_appliedVariationCount :: u64
  cg_unavailableVariationCount :: u64
  cg_configuredOverrideCount :: u64
  cg_availableOverrideCount :: u64
  cg_unavailableOverrideCount :: u64
  cg_overrideMatchCount :: u64
  cg_overrideAppliedCount :: u64
  cg_overrideFallbackCount :: u64
  cg_coretextFallbackCount :: u64
  cg_missingGlyphCount :: u64

definition faceIdForFont :: "('f, 'm) coretext_scheme \<Rightarrow> 'f \<Rightarrow> 'f catalog \<Rightarrow> u32 \<times> 'f catalog" where
  "faceIdForFont ct font cg = (case cg_faceIds cg (FontIdentityKey ct font) of
     Some existing \<Rightarrow> (existing, cg)
   | None \<Rightarrow> let identifier = cg_nextFaceId cg in
      (identifier, cg\<lparr>cg_nextFaceId := identifier + 1,
         cg_faceIds := (cg_faceIds cg)(FontIdentityKey ct font \<mapsto> identifier),
         cg_fontsByFaceId := (cg_fontsByFaceId cg)(identifier \<mapsto> font)\<rparr>))"

definition fontForFaceId :: "u32 \<Rightarrow> 'f catalog \<Rightarrow> 'f option" where
  "fontForFaceId face cg = cg_fontsByFaceId cg face"

definition fontForStyle :: "u32 \<Rightarrow> 'f catalog \<Rightarrow> ('f \<times> bool) option" where
  "fontForStyle style cg = font_for_style style (cg_fonts cg) (cg_syntheticStyleBits cg)"

definition faceIdForStyle :: "('f, 'm) coretext_scheme \<Rightarrow> u32 \<Rightarrow> 'f catalog \<Rightarrow> u32 \<times> 'f catalog" where
  "faceIdForStyle ct style cg = (case fontForStyle style cg of None \<Rightarrow> (0, cg)
     | Some (font, _) \<Rightarrow> faceIdForFont ct font cg)"

definition register_faces :: "('f, 'm) coretext_scheme \<Rightarrow> 'f option list \<Rightarrow> 'f catalog \<Rightarrow> 'f catalog" where
  "register_faces ct fonts cg = fold (\<lambda>candidate cg. case candidate of None \<Rightarrow> cg
     | Some font \<Rightarrow> snd (faceIdForFont ct font cg)) fonts cg"

text \<open>
  One override request. Nothing reads the member \<open>_overrides\<close> before all of them are made, so
  they are added to it one by one. Their counters of variations are not kept.
\<close>

definition add_override ::
  "('f, 'm) coretext_scheme \<Rightarrow> rat \<Rightarrow> u32 \<Rightarrow> font_request list list \<Rightarrow> font_override_request \<Rightarrow>
    'f catalog \<Rightarrow> 'f catalog" where
  "add_override ct point_size policy_flags variations_by_style request cg =
     (case CreateRequestedFont ct (or_family request) point_size of
        None \<Rightarrow> cg\<lparr>cg_unavailableOverrideCount := cg_unavailableOverrideCount cg + 1,
          cg_overrides := cg_overrides cg @ [\<lparr>ov_firstScalar = or_first request, ov_lastScalar = or_last request,
            ov_family = or_family request, ov_fonts = [None, None, None, None], ov_syntheticStyleBits = 0,
            ov_available = False\<rparr>]\<rparr>
      | Some regular \<Rightarrow> let sf = CreateStyleFonts ct regular policy_flags variations_by_style in
          register_faces ct (sf_fonts sf) (cg\<lparr>cg_availableOverrideCount := cg_availableOverrideCount cg + 1,
            cg_overrides := cg_overrides cg @ [\<lparr>ov_firstScalar = or_first request, ov_lastScalar = or_last request,
              ov_family = or_family request, ov_fonts = sf_fonts sf, ov_syntheticStyleBits = sf_synthetic sf,
              ov_available = True\<rparr>]\<rparr>))"

definition initWithFamily ::
  "('f, 'm) coretext_scheme \<Rightarrow> nsstring \<Rightarrow> rat \<Rightarrow> u64 \<Rightarrow> u32 \<Rightarrow> font_request list list \<Rightarrow>
    font_override_request list \<Rightarrow> 'f catalog option" where
  "initWithFamily ct family point_size generation policy_flags variations_by_style requests =
     (case CreateRequestedFont ct family point_size of None \<Rightarrow> None
      | Some regular \<Rightarrow>
        let sf = CreateStyleFonts ct regular policy_flags variations_by_style;
            cg = \<lparr>cg_generation = generation, cg_pointSize = point_size, cg_fonts = sf_fonts sf,
              cg_availableStyleBits = sf_available sf, cg_syntheticStyleBits = sf_synthetic sf,
              cg_faceIds = Map.empty, cg_fontsByFaceId = Map.empty, cg_overrides = [], cg_diagnosticRecords = [],
              cg_nextFaceId = 1,
              cg_configuredVariationCount = of_nat (sum_list (map length variations_by_style)),
              cg_appliedVariationCount = sf_applied sf, cg_unavailableVariationCount = sf_unavailable sf,
              cg_configuredOverrideCount = of_nat (length requests), cg_availableOverrideCount = 0,
              cg_unavailableOverrideCount = 0, cg_overrideMatchCount = 0, cg_overrideAppliedCount = 0,
              cg_overrideFallbackCount = 0, cg_coretextFallbackCount = 0, cg_missingGlyphCount = 0\<rparr>
        in Some (fold (add_override ct point_size policy_flags variations_by_style) requests
             (register_faces ct (sf_fonts sf) cg)))"

section \<open>Metrics\<close>

abbreviation "DTR_FONT_CATALOG_SUMMARY_VERSION \<equiv> (1 :: u32)"

record DtrFontCatalogSummaryV1 =
  fs_handle :: u64
  fs_generation :: u64
  fs_point_size :: double
  fs_cell_width :: double
  fs_cell_height :: double
  fs_ascent :: double
  fs_descent :: double
  fs_leading :: double
  fs_baseline :: double
  fs_underline_position :: double
  fs_underline_thickness :: double
  fs_strike_position :: double
  fs_strike_thickness :: double
  fs_available_style_bits :: u32
  fs_synthetic_style_bits :: u32
  fs_regular_face_id :: u32
  fs_bold_face_id :: u32
  fs_italic_face_id :: u32
  fs_bold_italic_face_id :: u32

definition font_summary_layout :: "nat list" where
  "font_summary_layout = [4, 4, 8, 8, 8, 8, 8, 8, 8, 8, 8, 8, 8, 8, 8, 4, 4, 4, 4, 4, 4, 4, 4, 4, 4]"

lemma font_summary_size [simp]: "struct_sizeof font_summary_layout = 152"
  by (simp add: struct_sizeof_def align_up_def font_summary_layout_def)

text \<open>An operation on doubles rounds the exact result; what is not finite stays so.\<close>

definition rounded :: "('f, 'm) coretext_scheme \<Rightarrow> (rat \<Rightarrow> rat \<Rightarrow> rat) \<Rightarrow> double \<Rightarrow> double \<Rightarrow> double" where
  "rounded ct f a b = (case (a, b) of (Some x, Some y) \<Rightarrow> ct_round ct (f x y) | _ \<Rightarrow> None)"

definition ceil_64 :: "('f, 'm) coretext_scheme \<Rightarrow> double \<Rightarrow> double" where
  "ceil_64 ct a = rounded ct (/) (map_option (\<lambda>x. of_int \<lceil>x\<rceil>) (rounded ct (*) a (Some 64))) (Some 64)"

definition metrics :: "('f, 'm) coretext_scheme \<Rightarrow> 'f \<Rightarrow> rat \<Rightarrow> double \<Rightarrow> double list" where
  "metrics ct font point_size advance_width =
     (let ascent = ct_ascent ct font; descent = ct_descent ct font; leading = ct_leading ct font;
          underline_thickness = ct_underline_thickness ct font
      in [Some point_size, ceil_64 ct advance_width,
          ceil_64 ct (rounded ct (+) (rounded ct (+) ascent descent) leading),
          ascent, descent, leading, ascent, ct_underline_position ct font, underline_thickness,
          rounded ct (*) ascent (ct_round ct (35 / 100)),
          (case underline_thickness of None \<Rightarrow> None | Some t \<Rightarrow> if 1 / 64 < t then Some t else Some (1 / 64))])"

definition metrics_usable :: "double list \<Rightarrow> bool" where
  "metrics_usable values \<longleftrightarrow> (\<forall>v \<in> set values. v \<noteq> None) \<and>
     \<not> (the (values ! 0) \<le> 0 \<or> the (values ! 1) \<le> 0 \<or> the (values ! 2) \<le> 0 \<or> the (values ! 3) \<le> 0 \<or>
        the (values ! 4) \<le> 0 \<or> the (values ! 5) < 0 \<or> the (values ! 6) \<le> 0 \<or> the (values ! 8) \<le> 0 \<or>
        the (values ! 9) \<le> 0 \<or> the (values ! 10) \<le> 0)"

definition fillSummary ::
  "('f, 'm) coretext_scheme \<Rightarrow> u64 \<Rightarrow> 'f catalog \<Rightarrow> DtrFontCatalogSummaryV1 option \<times> 'f catalog" where
  "fillSummary ct handle cg = (case fontForStyle (style_code DTR_FONT_STYLE_REGULAR) cg of
     None \<Rightarrow> (None, cg)
   | Some (regular, _) \<Rightarrow>
     (case ct_letter ct regular of (mapped, glyph, advanced, width) \<Rightarrow>
       if \<not> mapped \<or> glyph = 0 \<or> \<not> advanced then (None, cg)
       else let values = metrics ct regular (cg_pointSize cg) width in
         if \<not> metrics_usable values then (None, cg)
         else let (regular_face, cg1) = faceIdForStyle ct (style_code DTR_FONT_STYLE_REGULAR) cg;
                  (bold_face, cg2) = faceIdForStyle ct (style_code DTR_FONT_STYLE_BOLD) cg1;
                  (italic_face, cg3) = faceIdForStyle ct (style_code DTR_FONT_STYLE_ITALIC) cg2;
                  (bold_italic_face, cg4) = faceIdForStyle ct (style_code DTR_FONT_STYLE_BOLD_ITALIC) cg3
           in (Some \<lparr>fs_handle = handle, fs_generation = cg_generation cg, fs_point_size = values ! 0,
                fs_cell_width = values ! 1, fs_cell_height = values ! 2, fs_ascent = values ! 3,
                fs_descent = values ! 4, fs_leading = values ! 5, fs_baseline = values ! 6,
                fs_underline_position = values ! 7, fs_underline_thickness = values ! 8,
                fs_strike_position = values ! 9, fs_strike_thickness = values ! 10,
                fs_available_style_bits = cg_availableStyleBits cg,
                fs_synthetic_style_bits = cg_syntheticStyleBits cg, fs_regular_face_id = regular_face,
                fs_bold_face_id = bold_face, fs_italic_face_id = italic_face,
                fs_bold_italic_face_id = bold_italic_face\<rparr>, cg4)))"

section \<open>Which font each character asks for\<close>

definition high_surrogate :: "u16 \<Rightarrow> bool" where "high_surrogate u \<longleftrightarrow> 0xD800 \<le> u \<and> u \<le> 0xDBFF"

definition low_surrogate :: "u16 \<Rightarrow> bool" where "low_surrogate u \<longleftrightarrow> 0xDC00 \<le> u \<and> u \<le> 0xDFFF"

definition surrogate_pair :: "u16 \<Rightarrow> u16 \<Rightarrow> u32" where
  "surrogate_pair h l = push_bit 10 (ucast h - 0xD800) + (ucast l - 0xDC00) + 0x10000"

fun UnicodeScalarCount :: "nsstring \<Rightarrow> nat" where
  "UnicodeScalarCount [] = 0"
| "UnicodeScalarCount [u] = 1"
| "UnicodeScalarCount (u # w # us) =
     (if high_surrogate u \<and> low_surrogate w then UnicodeScalarCount us + 1 else UnicodeScalarCount (w # us) + 1)"

text \<open>The scalars of a text, each with the index of its first unit and the number of its units.\<close>

fun scalars_from :: "nat \<Rightarrow> nsstring \<Rightarrow> (nat \<times> nat \<times> u32) list" where
  "scalars_from index [] = []"
| "scalars_from index [u] = [(index, 1, ucast u)]"
| "scalars_from index (u # w # us) =
     (if high_surrogate u \<and> low_surrogate w
      then (index, 2, surrogate_pair u w) # scalars_from (index + 2) us
      else (index, 1, ucast u) # scalars_from (index + 1) (w # us))"

text \<open>The overrides are searched from the last to the first.\<close>

definition select_override :: "u32 \<Rightarrow> 'f DtrFontOverride list \<Rightarrow> 'f DtrFontOverride option" where
  "select_override scalar overrides =
     find (\<lambda>ov. ov_firstScalar ov \<le> scalar \<and> scalar \<le> ov_lastScalar ov) (rev overrides)"

abbreviation "DTR_SHAPE_FEATURE_LIGATURES \<equiv> (1 :: u32)"

text \<open>An attributed string: its units, each with its attributes; the ligature attribute is one for all.\<close>

record 'f attributes =
  at_font :: 'f
  at_source :: u32
  at_requested_name :: nsstring
  at_synthetic :: bool

record 'f attributed =
  as_text :: nsstring
  as_ligatures :: bool
  as_attributes :: "'f attributes list"

definition override_usable :: "('f, 'm) coretext_scheme \<Rightarrow> nsstring \<Rightarrow> nat \<times> nat \<Rightarrow> 'f \<Rightarrow> bool" where
  "override_usable ct units place font = (case ct_for_string ct font units place of None \<Rightarrow> False
     | Some candidate \<Rightarrow> FontIdentityKey ct candidate = FontIdentityKey ct font)"

text \<open>One scalar: the attributes of its units, and the three counts of the overrides.\<close>

definition attribute_scalar ::
  "('f, 'm) coretext_scheme \<Rightarrow> nsstring \<Rightarrow> u32 \<Rightarrow> 'f DtrFontOverride list \<Rightarrow> nat \<times> nat \<times> u32 \<Rightarrow>
    'f attributes list \<times> u64 \<times> u64 \<times> u64 \<Rightarrow> 'f attributes list \<times> u64 \<times> u64 \<times> u64" where
  "attribute_scalar ct units style overrides place acc =
     (case (place, acc) of ((index, len, scalar), (attributes, matches, applied, fallback)) \<Rightarrow>
       case select_override scalar overrides of
         None \<Rightarrow> acc
       | Some selected \<Rightarrow>
         (case override_font_for_style style selected of
            None \<Rightarrow> (attributes, matches + 1, applied, fallback + 1)
          | Some (font, synthetic) \<Rightarrow>
            if override_usable ct units (index, len) font
            then (take index attributes @ replicate len \<lparr>at_font = font,
                    at_source = source_code DTR_FONT_RESOLUTION_CODEPOINT_OVERRIDE,
                    at_requested_name = FontIdentityKey ct font, at_synthetic = synthetic\<rparr> @
                  drop (index + len) attributes, matches + 1, applied + 1, fallback)
            else (attributes, matches + 1, applied, fallback + 1)))"

definition attributedStringForText ::
  "('f, 'm) coretext_scheme \<Rightarrow> nsstring \<Rightarrow> u32 \<Rightarrow> u32 \<Rightarrow> bool \<Rightarrow> 'f catalog \<Rightarrow> 'f attributed option \<times> 'f catalog" where
  "attributedStringForText ct units style feature_flags recordDiagnostics cg = (case fontForStyle style cg of
     None \<Rightarrow> (None, cg)
   | Some (requested, synthetic) \<Rightarrow>
     let plain = \<lparr>at_font = requested, at_source = source_code DTR_FONT_RESOLUTION_REQUESTED,
           at_requested_name = FontIdentityKey ct requested, at_synthetic = synthetic\<rparr>;
         (attributes, matches, applied, fallback) =
           fold (attribute_scalar ct units style (cg_overrides cg)) (scalars_from 0 units)
             (replicate (length units) plain, 0, 0, 0)
     in (Some \<lparr>as_text = units, as_ligatures = feature_flags AND DTR_SHAPE_FEATURE_LIGATURES \<noteq> 0, as_attributes = attributes\<rparr>,
         if recordDiagnostics
         then cg\<lparr>cg_overrideMatchCount := SaturatingAddMetric (cg_overrideMatchCount cg) matches,
                cg_overrideAppliedCount := SaturatingAddMetric (cg_overrideAppliedCount cg) applied,
                cg_overrideFallbackCount := SaturatingAddMetric (cg_overrideFallbackCount cg) fallback\<rparr>
         else cg))"

section \<open>What CoreText answered\<close>

text \<open>
  A run of a line: glyphs with the index of the unit they stand for, a range of the text, and the
  attributes that the attributed string had there. The positions and widths are the bits of
  doubles. The number of the glyphs is the length of their list.
\<close>

record glyph =
  gl_glyph :: u16
  gl_index :: int
  gl_x :: u64
  gl_y :: u64
  gl_advance :: u64

record 'f run =
  rn_font :: "'f option"
  rn_source :: u32
  rn_requested_name :: "nsstring option"
  rn_synthetic :: bool
  rn_glyphs :: "glyph list"
  rn_location :: int
  rn_length :: int
  rn_width :: u64
  rn_right_to_left :: bool

text \<open>\<open>ct_line\<close> lays an attributed string out; the line is null or an array of runs.\<close>

record 'f line_services = "'f coretext" +
  ct_line :: "'f attributed \<Rightarrow> 'f run list option"

definition ShapedFontFlags :: "('f, 'm) coretext_scheme \<Rightarrow> 'f \<Rightarrow> 'f \<Rightarrow> bool \<Rightarrow> bool \<Rightarrow> u32" where
  "ShapedFontFlags ct requested resolved synthetic missing =
     (if PostScriptName ct resolved \<noteq> PostScriptName ct requested
      then resolved_font_flag DTR_RESOLVED_FONT_FALLBACK else 0) OR
     (if ct_color ct resolved then resolved_font_flag DTR_RESOLVED_FONT_COLOR_GLYPHS else 0) OR
     (if ct_monospaced ct resolved then resolved_font_flag DTR_RESOLVED_FONT_MONOSPACED else 0) OR
     (if synthetic then resolved_font_flag DTR_RESOLVED_FONT_SYNTHETIC else 0) OR
     (if missing then resolved_font_flag DTR_RESOLVED_FONT_MISSING_GLYPH else 0)"

text \<open>The glyphs are looked at 256 at a time, which is all of them in order.\<close>

definition missing_glyph :: "glyph list \<Rightarrow> bool" where
  "missing_glyph glyphs \<longleftrightarrow> (\<exists>g \<in> set glyphs. gl_glyph g = 0)"

definition run_source :: "('f, 'm) coretext_scheme \<Rightarrow> 'f \<Rightarrow> 'f run \<Rightarrow> u32" where
  "run_source ct resolved run =
     (if missing_glyph (rn_glyphs run) then source_code DTR_FONT_RESOLUTION_MISSING_GLYPH
      else if rn_requested_name run \<noteq> Some (FontIdentityKey ct resolved)
      then source_code DTR_FONT_RESOLUTION_CORETEXT_FALLBACK else rn_source run)"

definition has_key :: "u32 \<Rightarrow> u32 \<Rightarrow> resolution \<Rightarrow> bool" where
  "has_key source face r \<longleftrightarrow> re_source r = source \<and> re_face r = face"

definition count_resolution :: "u32 \<Rightarrow> u32 \<Rightarrow> u32 \<Rightarrow> nsstring \<Rightarrow> resolution list \<Rightarrow> resolution list" where
  "count_resolution source face flags name records =
     (let known = (if list_ex (has_key source face) records \<or> DTR_MAX_FONT_RESOLUTION_DIAGNOSTICS \<le> length records
        then records
        else records @ [\<lparr>re_source = source, re_face = face, re_flags = flags, re_name = name, re_count = 0\<rparr>])
      in map (\<lambda>r. if has_key source face r then r\<lparr>re_count := SaturatingIncrementMetric (re_count r)\<rparr> else r) known)"

definition record_run :: "('f, 'm) coretext_scheme \<Rightarrow> 'f \<Rightarrow> 'f run \<Rightarrow> 'f catalog \<Rightarrow> 'f catalog" where
  "record_run ct requested run cg = (case rn_font run of None \<Rightarrow> cg
   | Some resolved \<Rightarrow>
     let source = run_source ct resolved run;
         flags = ShapedFontFlags ct requested resolved (rn_synthetic run) (missing_glyph (rn_glyphs run));
         (face, named) = faceIdForFont ct resolved cg
     in named\<lparr>
          cg_coretextFallbackCount := (if source = source_code DTR_FONT_RESOLUTION_CORETEXT_FALLBACK
            then SaturatingIncrementMetric (cg_coretextFallbackCount named) else cg_coretextFallbackCount named),
          cg_missingGlyphCount := (if source = source_code DTR_FONT_RESOLUTION_MISSING_GLYPH
            then SaturatingIncrementMetric (cg_missingGlyphCount named) else cg_missingGlyphCount named),
          cg_diagnosticRecords :=
            count_resolution source face flags (PostScriptName ct resolved) (cg_diagnosticRecords named)\<rparr>)"

definition recordLine :: "('f, 'm) coretext_scheme \<Rightarrow> 'f \<Rightarrow> 'f run list \<Rightarrow> 'f catalog \<Rightarrow> 'f catalog" where
  "recordLine ct requested runs cg = fold (record_run ct requested) runs cg"

section \<open>Diagnostics\<close>

abbreviation "DTR_FONT_CATALOG_DIAGNOSTICS_VERSION \<equiv> (1 :: u32)"
abbreviation "DTR_FONT_RESOLUTION_DIAGNOSTIC_VERSION \<equiv> (1 :: u32)"

record DtrFontCatalogDiagnosticsV1 =
  dg_catalog_generation :: u64
  dg_configured_variation_count :: u64
  dg_applied_variation_count :: u64
  dg_unavailable_variation_count :: u64
  dg_configured_override_count :: u64
  dg_available_override_count :: u64
  dg_unavailable_override_count :: u64
  dg_override_match_count :: u64
  dg_override_applied_count :: u64
  dg_override_fallback_count :: u64
  dg_coretext_fallback_count :: u64
  dg_missing_glyph_count :: u64
  dg_resolution_count :: u32

definition diagnostics_layout :: "nat list" where
  "diagnostics_layout = [4, 4, 8, 8, 8, 8, 8, 8, 8, 8, 8, 8, 8, 8, 4, 4, 4, 4, 4, 4]"

record DtrFontResolutionDiagnosticV1 =
  rd_source :: u32
  rd_face_id :: u32
  rd_flags :: u32
  rd_postscript_name_length :: u32
  rd_occurrence_count :: u64
  rd_postscript_name :: "byte list"

lemma diagnostics_size [simp]: "struct_sizeof diagnostics_layout = 128"
  by (simp add: struct_sizeof_def align_up_def diagnostics_layout_def)

text \<open>A name in its field of 128 bytes.\<close>

definition name_field :: "byte list \<Rightarrow> byte list" where
  "name_field name = name @ replicate (DTR_MAX_POSTSCRIPT_NAME_BYTES + 1 - length name) 0"

text \<open>The entries that are written; the one whose name does not fit is written without it.\<close>

fun write_resolutions ::
  "('f, 'm) coretext_scheme \<Rightarrow> resolution list \<Rightarrow> DtrStatus \<times> DtrFontResolutionDiagnosticV1 list" where
  "write_resolutions ct [] = (DTR_STATUS_OK, [])"
| "write_resolutions ct (r # rs) =
     (let entry = \<lparr>rd_source = re_source r, rd_face_id = re_face r, rd_flags = re_flags r,
            rd_postscript_name_length = 0, rd_occurrence_count = re_count r, rd_postscript_name = name_field []\<rparr>
      in case ct_encode ct (re_name r) of
        None \<Rightarrow> (DTR_STATUS_INTERNAL, [entry])
      | Some name \<Rightarrow>
        if name = [] \<or> DTR_MAX_POSTSCRIPT_NAME_BYTES < length name then (DTR_STATUS_INTERNAL, [entry])
        else (case write_resolutions ct rs of (status, entries) \<Rightarrow>
          (status, entry\<lparr>rd_postscript_name_length := of_nat (length name), rd_postscript_name := name_field name\<rparr>
             # entries)))"

definition diagnostics_of :: "'f catalog \<Rightarrow> DtrFontCatalogDiagnosticsV1" where
  "diagnostics_of cg = \<lparr>dg_catalog_generation = cg_generation cg,
     dg_configured_variation_count = cg_configuredVariationCount cg,
     dg_applied_variation_count = cg_appliedVariationCount cg,
     dg_unavailable_variation_count = cg_unavailableVariationCount cg,
     dg_configured_override_count = cg_configuredOverrideCount cg,
     dg_available_override_count = cg_availableOverrideCount cg,
     dg_unavailable_override_count = cg_unavailableOverrideCount cg,
     dg_override_match_count = cg_overrideMatchCount cg, dg_override_applied_count = cg_overrideAppliedCount cg,
     dg_override_fallback_count = cg_overrideFallbackCount cg, dg_coretext_fallback_count = cg_coretextFallbackCount cg,
     dg_missing_glyph_count = cg_missingGlyphCount cg,
     dg_resolution_count = of_nat (length (cg_diagnosticRecords cg))\<rparr>"

text \<open>
  \<open>output\<close> is the size and version that the caller put into its structure, \<open>resolutions\<close> tells
  whether there is an array for the entries. The answer has what is written to them.
\<close>

definition copyDiagnostics ::
  "('f, 'm) coretext_scheme \<Rightarrow> (nat \<times> u32) option \<Rightarrow> bool \<Rightarrow> u32 \<Rightarrow> 'f catalog \<Rightarrow>
    DtrStatus \<times> (DtrFontCatalogDiagnosticsV1 \<times> DtrFontResolutionDiagnosticV1 list) option" where
  "copyDiagnostics ct out resolutions capacity cg = (case out of
     None \<Rightarrow> (DTR_STATUS_INVALID_ARGUMENT, None)
   | Some (struct_size, version) \<Rightarrow>
     if struct_size \<noteq> struct_sizeof diagnostics_layout \<or> version \<noteq> DTR_FONT_CATALOG_DIAGNOSTICS_VERSION
     then (DTR_STATUS_UNSUPPORTED_VERSION, None)
     else if DTR_MAX_FONT_RESOLUTION_DIAGNOSTICS < unat capacity \<or> (capacity = 0) \<noteq> (\<not> resolutions)
     then (DTR_STATUS_INVALID_ARGUMENT, None)
     else let records = sort_key (\<lambda>r. (re_source r, re_face r)) (cg_diagnosticRecords cg) in
       if unat capacity < length records then (DTR_STATUS_BUFFER_TOO_SMALL, None)
       else (case write_resolutions ct records of (status, entries) \<Rightarrow> (status, Some (diagnostics_of cg, entries))))"

section \<open>The exported functions\<close>

record 'f catalogs =
  fc_registry :: "u64 \<rightharpoonup> 'f catalog"
  fc_next_handle :: u64

definition initial_catalogs :: "'f catalogs" where
  "initial_catalogs = \<lparr>fc_registry = Map.empty, fc_next_handle = 1\<rparr>"

definition FontCatalogForHandle :: "u64 \<Rightarrow> 'f catalogs \<Rightarrow> 'f catalog option" where
  "FontCatalogForHandle handle fc = (if handle = 0 then None else fc_registry fc handle)"

definition put_catalog :: "u64 \<Rightarrow> 'f catalog \<Rightarrow> 'f catalogs \<Rightarrow> 'f catalogs" where
  "put_catalog handle cg fc = fc\<lparr>fc_registry := (fc_registry fc)(handle \<mapsto> cg)\<rparr>"

text \<open>
  \<open>PrepareFontCatalogSummary\<close> and \<open>PrepareResolvedFont\<close>: the status, given the size and the version
  in the caller's structure; when it is OK the structure has been cleared.
\<close>

definition prepare_output :: "nat \<Rightarrow> u32 \<Rightarrow> (nat \<times> u32) option \<Rightarrow> DtrStatus" where
  "prepare_output needed version out = (case out of None \<Rightarrow> DTR_STATUS_INVALID_ARGUMENT
     | Some header \<Rightarrow> if versioned needed version header then DTR_STATUS_OK else DTR_STATUS_UNSUPPORTED_VERSION)"

definition PrepareFontCatalogSummary :: "(nat \<times> u32) option \<Rightarrow> DtrStatus" where
  "PrepareFontCatalogSummary = prepare_output (struct_sizeof font_summary_layout) DTR_FONT_CATALOG_SUMMARY_VERSION"

definition point_size_rejected :: "double \<Rightarrow> bool" where
  "point_size_rejected point_size = (case point_size of None \<Rightarrow> True | Some x \<Rightarrow> x < 4 \<or> 128 < x)"

text \<open>The answer is the status and what was filled into the caller's structure.\<close>

definition dtr_font_catalog_create_configured ::
  "('f, 'm) coretext_scheme \<Rightarrow> cstring \<Rightarrow> u32 \<Rightarrow> double \<Rightarrow> u32 \<Rightarrow> DtrFontCatalogConfigV1 option \<Rightarrow>
    (nat \<times> u32) option \<Rightarrow> 'f catalogs \<Rightarrow> (DtrStatus \<times> DtrFontCatalogSummaryV1 option) \<times> 'f catalogs" where
  "dtr_font_catalog_create_configured ct family_utf8 family_length point_size policy_flags config out fc =
     (if PrepareFontCatalogSummary out \<noteq> DTR_STATUS_OK then ((PrepareFontCatalogSummary out, None), fc)
      else if DTR_MAX_FONT_FAMILY_BYTES < family_length \<or> policy_flags AND NOT DTR_FONT_POLICY_KNOWN_MASK \<noteq> 0 \<or>
        point_size_rejected point_size then ((DTR_STATUS_INVALID_ARGUMENT, None), fc)
      else case DecodeUtf8 (ct_decode ct) family_utf8 family_length True of
        None \<Rightarrow> ((DTR_STATUS_INVALID_ARGUMENT, None), fc)
      | Some family \<Rightarrow>
        (case DecodeFontCatalogConfiguration (ct_decode ct) config of
           Inl status \<Rightarrow> ((status, None), fc)
         | Inr (variations_by_style, requests) \<Rightarrow>
           let handle = fc_next_handle fc; counted = fc\<lparr>fc_next_handle := handle + 1\<rparr> in
           if handle = 0 \<or> handle = UINT64_MAX then ((DTR_STATUS_RESOURCE_EXHAUSTED, None), counted)
           else (case initWithFamily ct family (the point_size) handle policy_flags variations_by_style requests of
               None \<Rightarrow> ((DTR_STATUS_NOT_FOUND, None), counted)
             | Some cg \<Rightarrow>
               (case fillSummary ct handle cg of
                  (None, _) \<Rightarrow> ((DTR_STATUS_INTERNAL, None), counted)
                | (Some summary, named) \<Rightarrow> ((DTR_STATUS_OK, Some summary), put_catalog handle named counted)))))"

definition plain_config :: DtrFontCatalogConfigV1 where
  "plain_config = \<lparr>cc_struct_size = of_nat (struct_sizeof font_config_layout),
     cc_version = DTR_FONT_CATALOG_CONFIG_VERSION, cc_variations = None, cc_variation_count = 0,
     cc_variation_stride = of_nat (struct_sizeof variation_layout), cc_overrides = None, cc_override_count = 0,
     cc_override_stride = of_nat (struct_sizeof override_layout), cc_family_bytes = None, cc_family_byte_count = 0,
     cc_reserved = [0, 0, 0]\<rparr>"

definition dtr_font_catalog_create ::
  "('f, 'm) coretext_scheme \<Rightarrow> cstring \<Rightarrow> u32 \<Rightarrow> double \<Rightarrow> u32 \<Rightarrow> (nat \<times> u32) option \<Rightarrow> 'f catalogs \<Rightarrow>
    (DtrStatus \<times> DtrFontCatalogSummaryV1 option) \<times> 'f catalogs" where
  "dtr_font_catalog_create ct family_utf8 family_length point_size policy_flags out fc =
     dtr_font_catalog_create_configured ct family_utf8 family_length point_size policy_flags (Some plain_config) out fc"

definition dtr_font_catalog_release :: "u64 \<Rightarrow> 'f catalogs \<Rightarrow> DtrStatus \<times> 'f catalogs" where
  "dtr_font_catalog_release handle fc =
     (if handle = 0 then (DTR_STATUS_INVALID_HANDLE, fc)
      else case fc_registry fc handle of None \<Rightarrow> (DTR_STATUS_INVALID_HANDLE, fc)
      | Some cg \<Rightarrow> (DTR_STATUS_OK, fc\<lparr>fc_registry := (fc_registry fc)(handle := None)\<rparr>))"

definition dtr_font_catalog_release_finalizer :: "u64 \<Rightarrow> 'f catalogs \<Rightarrow> 'f catalogs" where
  "dtr_font_catalog_release_finalizer handle fc = snd (dtr_font_catalog_release handle fc)"

definition dtr_debug_live_font_catalog_count :: "'f catalogs \<Rightarrow> nat" where
  "dtr_debug_live_font_catalog_count fc =
     (let count = card (dom (fc_registry fc)) in if 0x7FFFFFFF < count then 0x7FFFFFFF else count)"

abbreviation "DTR_RESOLVED_FONT_VERSION \<equiv> (1 :: u32)"

record DtrResolvedFontV1 =
  rf_catalog_generation :: u64
  rf_face_id :: u32
  rf_flags :: u32
  rf_requested_style :: u32
  rf_utf16_length :: u32
  rf_unicode_scalar_count :: u32
  rf_glyph_count :: u32
  rf_postscript_name_length :: u32
  rf_postscript_name :: "byte list"

text \<open>The members before the name, which takes 128 bytes more.\<close>

definition resolved_font_layout :: "nat list" where
  "resolved_font_layout = [4, 4, 8, 4, 4, 4, 4, 4, 4, 4, 4, 4, 4, 4]"

definition sizeof_resolved_font :: nat where
  "sizeof_resolved_font = align_up (Max (set resolved_font_layout)) (sum_list resolved_font_layout + 128)"

lemma resolved_font_size [simp]: "sizeof_resolved_font = 192"
  by (simp add: sizeof_resolved_font_def align_up_def resolved_font_layout_def)

definition PrepareResolvedFont :: "(nat \<times> u32) option \<Rightarrow> DtrStatus" where
  "PrepareResolvedFont = prepare_output sizeof_resolved_font DTR_RESOLVED_FONT_VERSION"

text \<open>
  What is reported of the runs of a text: the first run's font, the flags, and the count of the
  glyphs, or the status of the failure.
\<close>

fun count_glyphs :: "nat \<Rightarrow> 'f run list \<Rightarrow> nat option" where
  "count_glyphs n [] = Some n"
| "count_glyphs n (run # runs) =
     (if unat UINT32_MAX < n + length (rn_glyphs run) then None
      else count_glyphs (n + length (rn_glyphs run)) runs)"

definition resolve_runs ::
  "('f, 'm) coretext_scheme \<Rightarrow> nsstring \<Rightarrow> u32 \<Rightarrow> 'f \<Rightarrow> 'f run list \<Rightarrow> 'f catalog \<Rightarrow>
    (DtrStatus \<times> DtrResolvedFontV1 option) \<times> 'f catalog" where
  "resolve_runs ct units style requested runs cg = (case runs of
     [] \<Rightarrow> ((DTR_STATUS_INTERNAL, None), cg)
   | first_run # _ \<Rightarrow>
     (case rn_font first_run of
        None \<Rightarrow> ((DTR_STATUS_INTERNAL, None), cg)
      | Some resolved \<Rightarrow>
        (case count_glyphs 0 runs of
           None \<Rightarrow> ((DTR_STATUS_RESOURCE_EXHAUSTED, None), cg)
         | Some total_glyphs \<Rightarrow>
           (case ct_encode ct (PostScriptName ct resolved) of
              None \<Rightarrow> ((DTR_STATUS_RESOURCE_EXHAUSTED, None), cg)
            | Some name \<Rightarrow>
              if DTR_MAX_POSTSCRIPT_NAME_BYTES < length name then ((DTR_STATUS_RESOURCE_EXHAUSTED, None), cg)
              else let flags = ShapedFontFlags ct requested resolved (rn_synthetic first_run)
                       (list_ex (\<lambda>run. missing_glyph (rn_glyphs run)) runs);
                     (face, named) = faceIdForFont ct resolved cg
                in ((DTR_STATUS_OK, Some \<lparr>rf_catalog_generation = cg_generation cg, rf_face_id = face,
                      rf_flags = flags, rf_requested_style = style, rf_utf16_length = of_nat (length units),
                      rf_unicode_scalar_count = of_nat (UnicodeScalarCount units),
                      rf_glyph_count = of_nat total_glyphs,
                      rf_postscript_name_length = of_nat (length name), rf_postscript_name = name_field name\<rparr>),
                    recordLine ct requested runs named)))))"

definition dtr_font_catalog_resolve ::
  "('f, 'm) line_services_scheme \<Rightarrow> u64 \<Rightarrow> u32 \<Rightarrow> cstring \<Rightarrow> u32 \<Rightarrow> (nat \<times> u32) option \<Rightarrow> 'f catalogs \<Rightarrow>
    (DtrStatus \<times> DtrResolvedFontV1 option) \<times> 'f catalogs" where
  "dtr_font_catalog_resolve ct handle style text_utf8 text_length out fc =
     (if PrepareResolvedFont out \<noteq> DTR_STATUS_OK then ((PrepareResolvedFont out, None), fc)
      else if style_code DTR_FONT_STYLE_BOLD_ITALIC < style \<or> text_length = 0 \<or>
        DTR_MAX_RESOLVE_TEXT_BYTES < text_length then ((DTR_STATUS_INVALID_ARGUMENT, None), fc)
      else case DecodeUtf8 (ct_decode ct) text_utf8 text_length False of
        None \<Rightarrow> ((DTR_STATUS_INVALID_ARGUMENT, None), fc)
      | Some units \<Rightarrow>
        (case FontCatalogForHandle handle fc of
           None \<Rightarrow> ((DTR_STATUS_INVALID_HANDLE, None), fc)
         | Some cg \<Rightarrow>
           (case fontForStyle style cg of
              None \<Rightarrow> ((DTR_STATUS_NOT_FOUND, None), fc)
            | Some (requested, _) \<Rightarrow>
              (case attributedStringForText ct units style DTR_SHAPE_FEATURE_LIGATURES True cg of
                 (None, counted) \<Rightarrow> ((DTR_STATUS_NOT_FOUND, None), put_catalog handle counted fc)
               | (Some attributed, counted) \<Rightarrow>
                 (case ct_line ct attributed of
                    None \<Rightarrow> ((DTR_STATUS_INTERNAL, None), put_catalog handle counted fc)
                  | Some runs \<Rightarrow>
                    (case resolve_runs ct units style requested runs counted of
                       (answer, recorded) \<Rightarrow> (answer, put_catalog handle recorded fc)))))))"

definition dtr_font_catalog_copy_diagnostics ::
  "('f, 'm) coretext_scheme \<Rightarrow> u64 \<Rightarrow> (nat \<times> u32) option \<Rightarrow> bool \<Rightarrow> u32 \<Rightarrow> 'f catalogs \<Rightarrow>
    DtrStatus \<times> (DtrFontCatalogDiagnosticsV1 \<times> DtrFontResolutionDiagnosticV1 list) option" where
  "dtr_font_catalog_copy_diagnostics ct handle out resolutions capacity fc =
     (case FontCatalogForHandle handle fc of None \<Rightarrow> (DTR_STATUS_INVALID_HANDLE, None)
      | Some cg \<Rightarrow> copyDiagnostics ct out resolutions capacity cg)"

end
