(* ===== verification/Dtr_Glyphs.thy ===== *)
theory Dtr_Glyphs
  imports Dtr_Fonts
begin

text \<open>
  Shaping and rasterizing, from
  \<^verbatim>\<open>packages/dart_terminal_renderer_macos/native/TerminalRendererPlugin.m\<close>: \<open>dtr_font_catalog_shape\<close>
  packs the runs, faces and glyphs that CoreText makes of a text, and \<open>dtr_font_catalog_rasterize\<close>
  packs the pixels of requested glyphs. Both are called twice, first for the size of the packet. A
  packet is built in a buffer of the needed size, section after section, and then copied out.

  \<open>memory\<close> tells whether the buffers of a call can be allocated.
\<close>

section \<open>Structures of a shaped text\<close>

abbreviation "DTR_MAX_SHAPE_RUNS \<equiv> (65536 :: nat)"
abbreviation "DTR_MAX_SHAPE_FACES \<equiv> (4096 :: nat)"
abbreviation "DTR_MAX_SHAPE_GLYPHS \<equiv> (1048576 :: nat)"
abbreviation "DTR_MAX_SHAPE_OUTPUT_BYTES \<equiv> (67108864 :: nat)"
abbreviation "DTR_SHAPE_BUFFER_MAGIC \<equiv> (0x48535444 :: u32)"
abbreviation "DTR_SHAPE_BUFFER_VERSION \<equiv> (1 :: u32)"
abbreviation "DTR_SHAPE_FEATURE_KNOWN_MASK \<equiv> (1 :: u32)"
abbreviation "DTR_SHAPED_GLYPH_MISSING \<equiv> (1 :: u32)"

datatype DtrShapedRunFlag =
  DTR_SHAPED_RUN_FALLBACK | DTR_SHAPED_RUN_COLOR_GLYPHS | DTR_SHAPED_RUN_SYNTHETIC
| DTR_SHAPED_RUN_MISSING_GLYPH | DTR_SHAPED_RUN_MONOSPACED | DTR_SHAPED_RUN_RIGHT_TO_LEFT

fun shaped_run_flag :: "DtrShapedRunFlag \<Rightarrow> u32" where
  "shaped_run_flag DTR_SHAPED_RUN_FALLBACK = resolved_font_flag DTR_RESOLVED_FONT_FALLBACK"
| "shaped_run_flag DTR_SHAPED_RUN_COLOR_GLYPHS = resolved_font_flag DTR_RESOLVED_FONT_COLOR_GLYPHS"
| "shaped_run_flag DTR_SHAPED_RUN_SYNTHETIC = resolved_font_flag DTR_RESOLVED_FONT_SYNTHETIC"
| "shaped_run_flag DTR_SHAPED_RUN_MISSING_GLYPH = resolved_font_flag DTR_RESOLVED_FONT_MISSING_GLYPH"
| "shaped_run_flag DTR_SHAPED_RUN_MONOSPACED = resolved_font_flag DTR_RESOLVED_FONT_MONOSPACED"
| "shaped_run_flag DTR_SHAPED_RUN_RIGHT_TO_LEFT = 32"

record DtrShapeHeaderV1 =
  sh_magic :: u32
  sh_version :: u32
  sh_header_size :: u32
  sh_total_size :: u32
  sh_catalog_generation :: u64
  sh_requested_style :: u32
  sh_feature_flags :: u32
  sh_utf8_length :: u32
  sh_utf16_length :: u32
  sh_unicode_scalar_count :: u32
  sh_run_count :: u32
  sh_face_count :: u32
  sh_glyph_count :: u32
  sh_runs_offset :: u32
  sh_faces_offset :: u32
  sh_glyphs_offset :: u32
  sh_reserved :: "u32 list"

record DtrShapeRunV1 =
  sr_face_id :: u32
  sr_flags :: u32
  sr_first_glyph :: u32
  sr_glyph_count :: u32
  sr_utf16_start :: u32
  sr_utf16_length :: u32
  sr_typographic_width :: u64

record DtrShapeFaceV1 =
  sa_face_id :: u32
  sa_flags :: u32
  sa_postscript_name :: "byte list"

record DtrShapeGlyphV1 =
  sg_glyph_id :: u32
  sg_face_id :: u32
  sg_run_index :: u32
  sg_flags :: u32
  sg_utf16_start :: u32
  sg_utf16_length :: u32
  sg_position_x :: u64
  sg_position_y :: u64
  sg_advance :: u64

definition shape_header_layout :: "nat list" where
  "shape_header_layout = [4, 4, 4, 4, 8, 4, 4, 4, 4, 4, 4, 4, 4, 4, 4, 4, 4, 4, 4]"

definition shape_run_layout :: "nat list" where "shape_run_layout = [4, 4, 4, 4, 4, 4, 8, 4, 4]"

text \<open>The members of a face before its name, which takes 128 bytes more.\<close>

definition shape_face_layout :: "nat list" where "shape_face_layout = [4, 4, 4, 4]"

definition sizeof_face :: nat where
  "sizeof_face = align_up (Max (set shape_face_layout)) (sum_list shape_face_layout + 128)"

definition shape_glyph_layout :: "nat list" where "shape_glyph_layout = [4, 4, 4, 4, 4, 4, 8, 8, 8]"

definition write_shape_header :: "DtrShapeHeaderV1 \<Rightarrow> byte list" where
  "write_shape_header h = write_members shape_header_layout
     ([unat (sh_magic h), unat (sh_version h), unat (sh_header_size h), unat (sh_total_size h),
       unat (sh_catalog_generation h), unat (sh_requested_style h), unat (sh_feature_flags h),
       unat (sh_utf8_length h), unat (sh_utf16_length h), unat (sh_unicode_scalar_count h),
       unat (sh_run_count h), unat (sh_face_count h), unat (sh_glyph_count h), unat (sh_runs_offset h),
       unat (sh_faces_offset h), unat (sh_glyphs_offset h)] @ map unat (sh_reserved h))"

definition read_shape_header :: "byte list \<Rightarrow> DtrShapeHeaderV1" where
  "read_shape_header bs = (let m = read_members shape_header_layout bs in
     \<lparr>sh_magic = of_nat (m ! 0), sh_version = of_nat (m ! 1), sh_header_size = of_nat (m ! 2),
      sh_total_size = of_nat (m ! 3), sh_catalog_generation = of_nat (m ! 4), sh_requested_style = of_nat (m ! 5),
      sh_feature_flags = of_nat (m ! 6), sh_utf8_length = of_nat (m ! 7), sh_utf16_length = of_nat (m ! 8),
      sh_unicode_scalar_count = of_nat (m ! 9), sh_run_count = of_nat (m ! 10), sh_face_count = of_nat (m ! 11),
      sh_glyph_count = of_nat (m ! 12), sh_runs_offset = of_nat (m ! 13), sh_faces_offset = of_nat (m ! 14),
      sh_glyphs_offset = of_nat (m ! 15), sh_reserved = map of_nat (drop 16 m)\<rparr>)"

definition write_shape_run :: "DtrShapeRunV1 \<Rightarrow> byte list" where
  "write_shape_run r = write_members shape_run_layout
     [unat (sr_face_id r), unat (sr_flags r), unat (sr_first_glyph r), unat (sr_glyph_count r),
      unat (sr_utf16_start r), unat (sr_utf16_length r), unat (sr_typographic_width r), 0, 0]"

definition read_shape_run :: "byte list \<Rightarrow> DtrShapeRunV1" where
  "read_shape_run bs = (let m = read_members shape_run_layout bs in
     \<lparr>sr_face_id = of_nat (m ! 0), sr_flags = of_nat (m ! 1), sr_first_glyph = of_nat (m ! 2),
      sr_glyph_count = of_nat (m ! 3), sr_utf16_start = of_nat (m ! 4), sr_utf16_length = of_nat (m ! 5),
      sr_typographic_width = of_nat (m ! 6)\<rparr>)"

definition write_shape_face :: "DtrShapeFaceV1 \<Rightarrow> byte list" where
  "write_shape_face f = write_members shape_face_layout
     [unat (sa_face_id f), unat (sa_flags f), length (sa_postscript_name f), 0] @ name_field (sa_postscript_name f)"

definition read_shape_face :: "byte list \<Rightarrow> DtrShapeFaceV1" where
  "read_shape_face bs = (let m = read_members shape_face_layout bs in
     \<lparr>sa_face_id = of_nat (m ! 0), sa_flags = of_nat (m ! 1), sa_postscript_name = take (m ! 2) (drop 16 bs)\<rparr>)"

definition write_shape_glyph :: "DtrShapeGlyphV1 \<Rightarrow> byte list" where
  "write_shape_glyph g = write_members shape_glyph_layout
     [unat (sg_glyph_id g), unat (sg_face_id g), unat (sg_run_index g), unat (sg_flags g), unat (sg_utf16_start g),
      unat (sg_utf16_length g), unat (sg_position_x g), unat (sg_position_y g), unat (sg_advance g)]"

definition read_shape_glyph :: "byte list \<Rightarrow> DtrShapeGlyphV1" where
  "read_shape_glyph bs = (let m = read_members shape_glyph_layout bs in
     \<lparr>sg_glyph_id = of_nat (m ! 0), sg_face_id = of_nat (m ! 1), sg_run_index = of_nat (m ! 2),
      sg_flags = of_nat (m ! 3), sg_utf16_start = of_nat (m ! 4), sg_utf16_length = of_nat (m ! 5),
      sg_position_x = of_nat (m ! 6), sg_position_y = of_nat (m ! 7), sg_advance = of_nat (m ! 8)\<rparr>)"

lemma glyph_sizes [simp]:
  "struct_sizeof shape_header_layout = 80" "struct_sizeof shape_run_layout = 40" "sizeof_face = 144"
  "struct_sizeof shape_glyph_layout = 48"
  by (simp_all add: struct_sizeof_def align_up_def shape_header_layout_def shape_run_layout_def shape_face_layout_def
      sizeof_face_def shape_glyph_layout_def)

section \<open>Shaping\<close>

definition finite_bits :: "u64 \<Rightarrow> bool" where "finite_bits b \<longleftrightarrow> double_of (unat b) \<noteq> None"

text \<open>What a run is refused for, in the order of the checks; \<open>n\<close> is the length of the text.\<close>

definition run_out_of_bounds :: "nat \<Rightarrow> nat \<Rightarrow> 'f run \<Rightarrow> bool" where
  "run_out_of_bounds n glyphs run \<longleftrightarrow>
     rn_glyphs run = [] \<or> rn_location run < 0 \<or> rn_length run \<le> 0 \<or>
     int n < rn_location run + rn_length run \<or> DTR_MAX_SHAPE_GLYPHS < glyphs + length (rn_glyphs run)"

definition run_glyph_invalid :: "'f run \<Rightarrow> glyph \<Rightarrow> bool" where
  "run_glyph_invalid run g \<longleftrightarrow>
     gl_index g < rn_location run \<or> rn_location run + rn_length run \<le> gl_index g \<or>
     \<not> finite_bits (gl_x g) \<or> \<not> finite_bits (gl_y g) \<or> \<not> finite_bits (gl_advance g)"

definition check_run ::
  "('f, 'm) coretext_scheme \<Rightarrow> nat \<Rightarrow> nat \<Rightarrow> 'f run \<Rightarrow> DtrStatus + 'f \<times> byte list" where
  "check_run ct n glyphs run =
     (if run_out_of_bounds n glyphs run then Inl DTR_STATUS_RESOURCE_EXHAUSTED
      else if \<not> finite_bits (rn_width run) then Inl DTR_STATUS_INTERNAL
      else case rn_font run of None \<Rightarrow> Inl DTR_STATUS_INTERNAL
      | Some resolved \<Rightarrow>
        (case ct_encode ct (PostScriptName ct resolved) of None \<Rightarrow> Inl DTR_STATUS_RESOURCE_EXHAUSTED
         | Some name \<Rightarrow>
           if name = [] \<or> DTR_MAX_POSTSCRIPT_NAME_BYTES < length name then Inl DTR_STATUS_RESOURCE_EXHAUSTED
           else if list_ex (run_glyph_invalid run) (rn_glyphs run) then Inl DTR_STATUS_INTERNAL
           else Inr (resolved, name)))"

text \<open>
  The faces that the runs use, in the order in which they are met. \<open>face_indexes\<close> finds the one
  with an identifier; a face that is met again gathers the flags of its runs.
\<close>

definition has_face :: "u32 \<Rightarrow> DtrShapeFaceV1 \<Rightarrow> bool" where "has_face face f \<longleftrightarrow> sa_face_id f = face"

definition note_face :: "u32 \<Rightarrow> u32 \<Rightarrow> byte list \<Rightarrow> DtrShapeFaceV1 list \<Rightarrow> DtrShapeFaceV1 list option" where
  "note_face face flags name faces =
     (if list_ex (has_face face) faces
      then Some (map (\<lambda>f. if has_face face f then f\<lparr>sa_flags := sa_flags f OR flags\<rparr> else f) faces)
      else if DTR_MAX_SHAPE_FACES \<le> length faces then None
      else Some (faces @ [\<lparr>sa_face_id = face, sa_flags = flags, sa_postscript_name = name\<rparr>]))"

definition run_flags :: "('f, 'm) coretext_scheme \<Rightarrow> 'f \<Rightarrow> 'f \<Rightarrow> 'f run \<Rightarrow> u32" where
  "run_flags ct requested resolved run =
     ShapedFontFlags ct requested resolved (rn_synthetic run) (missing_glyph (rn_glyphs run))"

text \<open>The first pass: the number of the glyphs and the faces, or a status.\<close>

fun survey_runs ::
  "('f, 'm) coretext_scheme \<Rightarrow> nat \<Rightarrow> 'f \<Rightarrow> 'f run list \<Rightarrow> nat \<Rightarrow> DtrShapeFaceV1 list \<Rightarrow> 'f catalog \<Rightarrow>
    (DtrStatus + nat \<times> DtrShapeFaceV1 list) \<times> 'f catalog" where
  "survey_runs ct n requested [] glyphs faces cg = (Inr (glyphs, faces), cg)"
| "survey_runs ct n requested (run # runs) glyphs faces cg = (case check_run ct n glyphs run of
     Inl status \<Rightarrow> (Inl status, cg)
   | Inr (resolved, name) \<Rightarrow>
     (case faceIdForFont ct resolved cg of (face, named) \<Rightarrow>
       if face = 0 then (Inl DTR_STATUS_RESOURCE_EXHAUSTED, named)
       else (case note_face face (run_flags ct requested resolved run) name faces of
           None \<Rightarrow> (Inl DTR_STATUS_RESOURCE_EXHAUSTED, named)
         | Some faces' \<Rightarrow> survey_runs ct n requested runs (glyphs + length (rn_glyphs run)) faces' named)))"

text \<open>
  Where clusters begin and end: at the ends of the runs and at the indices of the glyphs. For each
  index of the text the second array has the boundary that follows it; it is filled from the end.
\<close>

definition mark_run :: "'f run \<Rightarrow> bool list \<Rightarrow> bool list" where
  "mark_run run cluster = fold (\<lambda>g c. c[nat (gl_index g) := True]) (rn_glyphs run)
     (cluster[nat (rn_location run) := True, nat (rn_location run + rn_length run) := True])"

definition cluster_boundaries :: "nat \<Rightarrow> 'f run list \<Rightarrow> bool list" where
  "cluster_boundaries n runs = fold mark_run runs ((replicate (n + 1) False)[n := True])"

fun fill_next :: "nat \<Rightarrow> nat \<Rightarrow> bool list \<Rightarrow> nat list \<Rightarrow> nat list" where
  "fill_next 0 next_boundary cluster filled = filled"
| "fill_next (Suc index) next_boundary cluster filled =
     fill_next index (if cluster ! index then index else next_boundary) cluster (next_boundary # filled)"

definition next_boundaries :: "nat \<Rightarrow> bool list \<Rightarrow> nat list" where
  "next_boundaries n cluster = fill_next n n cluster [n]"

text \<open>
  The second pass. The faces are all known by now, so looking their identifiers up again does not
  change the catalog. A glyph whose cluster would be empty makes the call fail.
\<close>

definition fill_glyph :: "nat list \<Rightarrow> nat \<Rightarrow> u32 \<Rightarrow> nat \<Rightarrow> glyph \<Rightarrow> DtrShapeGlyphV1 option" where
  "fill_glyph boundaries run_end face run_index g =
     (let string_start = nat (gl_index g); string_end = min (boundaries ! string_start) run_end
      in if string_end \<le> string_start then None
         else Some \<lparr>sg_glyph_id = ucast (gl_glyph g), sg_face_id = face, sg_run_index = of_nat run_index,
           sg_flags = (if gl_glyph g = 0 then DTR_SHAPED_GLYPH_MISSING else 0),
           sg_utf16_start = of_nat string_start, sg_utf16_length = of_nat (string_end - string_start),
           sg_position_x = gl_x g, sg_position_y = gl_y g, sg_advance = gl_advance g\<rparr>)"

fun fill_glyphs :: "nat list \<Rightarrow> nat \<Rightarrow> u32 \<Rightarrow> nat \<Rightarrow> glyph list \<Rightarrow> DtrShapeGlyphV1 list option" where
  "fill_glyphs boundaries run_end face run_index [] = Some []"
| "fill_glyphs boundaries run_end face run_index (g # gs) =
     (case fill_glyph boundaries run_end face run_index g of None \<Rightarrow> None
      | Some filled \<Rightarrow> map_option ((#) filled) (fill_glyphs boundaries run_end face run_index gs))"

definition fill_run ::
  "('f, 'm) coretext_scheme \<Rightarrow> 'f \<Rightarrow> 'f catalog \<Rightarrow> nat \<Rightarrow> 'f run \<Rightarrow> DtrShapeRunV1" where
  "fill_run ct requested cg first_glyph run =
     \<lparr>sr_face_id = fst (faceIdForFont ct (the (rn_font run)) cg),
      sr_flags = run_flags ct requested (the (rn_font run)) run OR
        (if rn_right_to_left run then shaped_run_flag DTR_SHAPED_RUN_RIGHT_TO_LEFT else 0),
      sr_first_glyph = of_nat first_glyph, sr_glyph_count = of_nat (length (rn_glyphs run)),
      sr_utf16_start = of_int (rn_location run), sr_utf16_length = of_int (rn_length run),
      sr_typographic_width = rn_width run\<rparr>"

fun fill_runs ::
  "('f, 'm) coretext_scheme \<Rightarrow> 'f \<Rightarrow> 'f catalog \<Rightarrow> nat list \<Rightarrow> nat \<Rightarrow> nat \<Rightarrow> 'f run list \<Rightarrow>
    (DtrShapeRunV1 list \<times> DtrShapeGlyphV1 list) option" where
  "fill_runs ct requested cg boundaries run_index glyph_cursor [] = Some ([], [])"
| "fill_runs ct requested cg boundaries run_index glyph_cursor (run # runs) =
     (case fill_glyphs boundaries (nat (rn_location run + rn_length run))
         (fst (faceIdForFont ct (the (rn_font run)) cg)) run_index (rn_glyphs run) of
        None \<Rightarrow> None
      | Some glyphs \<Rightarrow>
        map_option (\<lambda>(rs, gs). (fill_run ct requested cg glyph_cursor run # rs, glyphs @ gs))
          (fill_runs ct requested cg boundaries (run_index + 1) (glyph_cursor + length (rn_glyphs run)) runs))"

definition shape_header ::
  "'f catalog \<Rightarrow> u32 \<Rightarrow> u32 \<Rightarrow> u32 \<Rightarrow> nsstring \<Rightarrow> nat \<Rightarrow> nat \<Rightarrow> nat \<Rightarrow> DtrShapeHeaderV1" where
  "shape_header cg style feature_flags text_length units runs faces glyphs =
     (let runs_offset = struct_sizeof shape_header_layout;
          faces_offset = runs_offset + runs * struct_sizeof shape_run_layout;
          glyphs_offset = faces_offset + faces * sizeof_face
      in \<lparr>sh_magic = DTR_SHAPE_BUFFER_MAGIC, sh_version = DTR_SHAPE_BUFFER_VERSION,
          sh_header_size = of_nat (struct_sizeof shape_header_layout),
          sh_total_size = of_nat (glyphs_offset + glyphs * struct_sizeof shape_glyph_layout),
          sh_catalog_generation = cg_generation cg, sh_requested_style = style, sh_feature_flags = feature_flags,
          sh_utf8_length = text_length, sh_utf16_length = of_nat (length units),
          sh_unicode_scalar_count = of_nat (UnicodeScalarCount units), sh_run_count = of_nat runs,
          sh_face_count = of_nat faces, sh_glyph_count = of_nat glyphs, sh_runs_offset = of_nat runs_offset,
          sh_faces_offset = of_nat faces_offset, sh_glyphs_offset = of_nat glyphs_offset, sh_reserved = [0, 0, 0]\<rparr>)"

definition shape_size :: "nat \<Rightarrow> nat \<Rightarrow> nat \<Rightarrow> nat" where
  "shape_size runs faces glyphs = struct_sizeof shape_header_layout + runs * struct_sizeof shape_run_layout +
     faces * sizeof_face + glyphs * struct_sizeof shape_glyph_layout"

text \<open>The answer of a call that packs: its status, \<open>output_required\<close>, and the bytes written to the buffer.\<close>

record packed =
  pk_status :: DtrStatus
  pk_required :: "nat option"
  pk_bytes :: "byte list option"

definition refused :: "DtrStatus \<Rightarrow> packed" where
  "refused status = \<lparr>pk_status = status, pk_required = Some 0, pk_bytes = None\<rparr>"

text \<open>
  From the laid out line on: \<open>out\<close> tells whether there is a buffer, \<open>capacity\<close> is its size. The size
  of the packet is tested against the largest one and against 32 bits.
\<close>

definition shape_runs ::
  "('f, 'm) coretext_scheme \<Rightarrow> bool \<Rightarrow> u32 \<Rightarrow> u32 \<Rightarrow> u32 \<Rightarrow> nsstring \<Rightarrow> bool \<Rightarrow> u32 \<Rightarrow> 'f \<Rightarrow> 'f run list \<Rightarrow>
    'f catalog \<Rightarrow> packed \<times> 'f catalog" where
  "shape_runs ct memory style feature_flags text_length units out capacity requested runs cg =
     (if runs = [] \<or> DTR_MAX_SHAPE_RUNS < length runs then (refused DTR_STATUS_RESOURCE_EXHAUSTED, cg)
      else case survey_runs ct (length units) requested runs 0 [] cg of
        (Inl status, named) \<Rightarrow> (refused status, named)
      | (Inr (glyphs, faces), named) \<Rightarrow>
        if glyphs = 0 then (refused DTR_STATUS_INTERNAL, named)
        else let required = shape_size (length runs) (length faces) glyphs in
          if DTR_MAX_SHAPE_OUTPUT_BYTES < required \<or> unat UINT32_MAX < required
          then (refused DTR_STATUS_RESOURCE_EXHAUSTED, named)
          else if \<not> out \<or> unat capacity < required
          then (\<lparr>pk_status = DTR_STATUS_BUFFER_TOO_SMALL, pk_required = Some required, pk_bytes = None\<rparr>, named)
          else if \<not> memory
          then (\<lparr>pk_status = DTR_STATUS_RESOURCE_EXHAUSTED, pk_required = Some required, pk_bytes = None\<rparr>, named)
          else let boundaries = next_boundaries (length units) (cluster_boundaries (length units) runs);
                   header = shape_header named style feature_flags text_length units (length runs) (length faces) glyphs
            in case fill_runs ct requested named boundaries 0 0 runs of
                None \<Rightarrow> (\<lparr>pk_status = DTR_STATUS_INTERNAL, pk_required = Some required, pk_bytes = None\<rparr>, named)
              | Some (run_records, glyph_records) \<Rightarrow>
                if length glyph_records \<noteq> glyphs
                then (\<lparr>pk_status = DTR_STATUS_INTERNAL, pk_required = Some required, pk_bytes = None\<rparr>, named)
                else (\<lparr>pk_status = DTR_STATUS_OK, pk_required = Some required,
                    pk_bytes = Some (write_shape_header header @ concat (map write_shape_run run_records) @
                      concat (map write_shape_face faces) @ concat (map write_shape_glyph glyph_records))\<rparr>,
                  recordLine ct requested runs named))"

definition shape_arguments_rejected :: "u32 \<Rightarrow> u32 \<Rightarrow> u32 \<Rightarrow> bool" where
  "shape_arguments_rejected style feature_flags text_length \<longleftrightarrow>
     style_code DTR_FONT_STYLE_BOLD_ITALIC < style \<or> feature_flags AND NOT DTR_SHAPE_FEATURE_KNOWN_MASK \<noteq> 0 \<or>
     text_length = 0 \<or> DTR_MAX_RESOLVE_TEXT_BYTES < text_length"

definition dtr_font_catalog_shape ::
  "('f, 'm) line_services_scheme \<Rightarrow> bool \<Rightarrow> u64 \<Rightarrow> u32 \<Rightarrow> u32 \<Rightarrow> cstring \<Rightarrow> u32 \<Rightarrow> bool \<Rightarrow> u32 \<Rightarrow> bool \<Rightarrow>
    'f catalogs \<Rightarrow> packed \<times> 'f catalogs" where
  "dtr_font_catalog_shape ct memory handle style feature_flags text_utf8 text_length out capacity required fc =
     (if \<not> required \<or> \<not> out \<and> capacity \<noteq> 0
      then (\<lparr>pk_status = DTR_STATUS_INVALID_ARGUMENT, pk_required = None, pk_bytes = None\<rparr>, fc)
      else if shape_arguments_rejected style feature_flags text_length then (refused DTR_STATUS_INVALID_ARGUMENT, fc)
      else case DecodeUtf8 (ct_decode ct) text_utf8 text_length False of
        None \<Rightarrow> (refused DTR_STATUS_INVALID_ARGUMENT, fc)
      | Some units \<Rightarrow>
        if units = [] \<or> unat UINT32_MAX < length units then (refused DTR_STATUS_INVALID_ARGUMENT, fc)
        else (case FontCatalogForHandle handle fc of
           None \<Rightarrow> (refused DTR_STATUS_INVALID_HANDLE, fc)
         | Some cg \<Rightarrow>
           (case fontForStyle style cg of
              None \<Rightarrow> (refused DTR_STATUS_NOT_FOUND, fc)
            | Some (requested, _) \<Rightarrow>
              (case attributedStringForText ct units style feature_flags out cg of
                 (None, counted) \<Rightarrow> (refused DTR_STATUS_NOT_FOUND, put_catalog handle counted fc)
               | (Some attributed, counted) \<Rightarrow>
                 (case ct_line ct attributed of
                    None \<Rightarrow> (refused DTR_STATUS_INTERNAL, put_catalog handle counted fc)
                  | Some runs \<Rightarrow>
                    (case shape_runs ct memory style feature_flags text_length units out capacity requested runs counted of
                       (answer, shaped) \<Rightarrow> (answer, put_catalog handle shaped fc)))))))"

end
