(* ===== verification/Dtr_Raster.thy ===== *)
theory Dtr_Raster
  imports Dtr_Glyphs
begin

text \<open>
  Rasterizing, from \<^verbatim>\<open>packages/dart_terminal_renderer_macos/native/TerminalRendererPlugin.m\<close>:
  \<open>RasterizeGlyph\<close> draws one glyph of a font at a scale and publishes its pixels with straight alpha,
  \<open>dtr_font_catalog_rasterize\<close> packs the glyphs of a request. What CoreGraphics draws and measures is
  a parameter.
\<close>

section \<open>Structures\<close>

abbreviation "DTR_MAX_RASTER_GLYPHS \<equiv> (4096 :: u32)"
abbreviation "DTR_MAX_RASTER_DIMENSION \<equiv> (4096 :: int)"
abbreviation "DTR_MAX_RASTER_OUTPUT_BYTES \<equiv> (67108864 :: nat)"
abbreviation "DTR_RASTER_BUFFER_MAGIC \<equiv> (0x47525444 :: u32)"
abbreviation "DTR_RASTER_BUFFER_VERSION \<equiv> (1 :: u32)"
abbreviation "DTR_RASTER_GLYPH_COLOR \<equiv> (1 :: u32)"
abbreviation "DTR_RASTER_GLYPH_MISSING \<equiv> (2 :: u32)"
abbreviation "UINT16_MAX \<equiv> (0xFFFF :: u32)"

datatype DtrRasterFormat = DTR_RASTER_FORMAT_ALPHA8 | DTR_RASTER_FORMAT_RGBA8_STRAIGHT

fun raster_format_code :: "DtrRasterFormat \<Rightarrow> u32" where
  "raster_format_code DTR_RASTER_FORMAT_ALPHA8 = 1"
| "raster_format_code DTR_RASTER_FORMAT_RGBA8_STRAIGHT = 2"

record DtrRasterRequestV1 =
  rq_face_id :: u32
  rq_glyph_id :: u32

record DtrRasterHeaderV1 =
  ra_magic :: u32
  ra_version :: u32
  ra_header_size :: u32
  ra_total_size :: u32
  ra_catalog_generation :: u64
  ra_scale_16_16 :: u32
  ra_glyph_count :: u32
  ra_records_offset :: u32
  ra_pixels_offset :: u32
  ra_pixel_bytes :: u32
  ra_reserved :: "u32 list"

text \<open>The origins are signed; their 32 bits are written.\<close>

record DtrRasterGlyphV1 =
  rg_face_id :: u32
  rg_glyph_id :: u32
  rg_format :: u32
  rg_flags :: u32
  rg_origin_x :: u32
  rg_origin_y :: u32
  rg_width :: u32
  rg_height :: u32
  rg_row_stride :: u32
  rg_pixels_offset :: u32
  rg_pixel_length :: u32

definition raster_header_layout :: "nat list" where
  "raster_header_layout = [4, 4, 4, 4, 8, 4, 4, 4, 4, 4, 4, 4, 4, 4, 4]"

definition raster_glyph_layout :: "nat list" where
  "raster_glyph_layout = [4, 4, 4, 4, 4, 4, 4, 4, 4, 4, 4, 4]"

lemma raster_sizes [simp]:
  "struct_sizeof raster_header_layout = 64" "struct_sizeof raster_glyph_layout = 48"
  by (simp_all add: struct_sizeof_def align_up_def raster_header_layout_def raster_glyph_layout_def)

definition write_raster_header :: "DtrRasterHeaderV1 \<Rightarrow> byte list" where
  "write_raster_header h = write_members raster_header_layout
     ([unat (ra_magic h), unat (ra_version h), unat (ra_header_size h), unat (ra_total_size h),
       unat (ra_catalog_generation h), unat (ra_scale_16_16 h), unat (ra_glyph_count h),
       unat (ra_records_offset h), unat (ra_pixels_offset h), unat (ra_pixel_bytes h)] @ map unat (ra_reserved h))"

definition read_raster_header :: "byte list \<Rightarrow> DtrRasterHeaderV1" where
  "read_raster_header bs = (let m = read_members raster_header_layout bs in
     \<lparr>ra_magic = of_nat (m ! 0), ra_version = of_nat (m ! 1), ra_header_size = of_nat (m ! 2),
      ra_total_size = of_nat (m ! 3), ra_catalog_generation = of_nat (m ! 4), ra_scale_16_16 = of_nat (m ! 5),
      ra_glyph_count = of_nat (m ! 6), ra_records_offset = of_nat (m ! 7), ra_pixels_offset = of_nat (m ! 8),
      ra_pixel_bytes = of_nat (m ! 9), ra_reserved = map of_nat (drop 10 m)\<rparr>)"

definition write_raster_glyph :: "DtrRasterGlyphV1 \<Rightarrow> byte list" where
  "write_raster_glyph g = write_members raster_glyph_layout
     [unat (rg_face_id g), unat (rg_glyph_id g), unat (rg_format g), unat (rg_flags g), unat (rg_origin_x g),
      unat (rg_origin_y g), unat (rg_width g), unat (rg_height g), unat (rg_row_stride g),
      unat (rg_pixels_offset g), unat (rg_pixel_length g), 0]"

definition read_raster_glyph :: "byte list \<Rightarrow> DtrRasterGlyphV1" where
  "read_raster_glyph bs = (let m = read_members raster_glyph_layout bs in
     \<lparr>rg_face_id = of_nat (m ! 0), rg_glyph_id = of_nat (m ! 1), rg_format = of_nat (m ! 2),
      rg_flags = of_nat (m ! 3), rg_origin_x = of_nat (m ! 4), rg_origin_y = of_nat (m ! 5),
      rg_width = of_nat (m ! 6), rg_height = of_nat (m ! 7), rg_row_stride = of_nat (m ! 8),
      rg_pixels_offset = of_nat (m ! 9), rg_pixel_length = of_nat (m ! 10)\<rparr>)"

section \<open>One glyph\<close>

text \<open>
  The bounds of a glyph: whether they are usable (not null, not infinite, all members finite),
  whether they are empty, and their edges in points.
\<close>

record glyph_bounds =
  gb_usable :: bool
  gb_empty :: bool
  gb_min_x :: double
  gb_max_x :: double
  gb_min_y :: double
  gb_max_y :: double

text \<open>
  \<open>ct_draw\<close> draws a glyph white into a cleared bitmap of a width and a height, scaled, at a
  position, and gives the byte at each offset of the bitmap; \<open>None\<close> if there is no context.
\<close>

record 'f raster_services = "'f line_services" +
  ct_bounds :: "'f \<Rightarrow> u16 \<Rightarrow> glyph_bounds"
  ct_draw :: "'f \<Rightarrow> u16 \<Rightarrow> bool \<Rightarrow> nat \<times> nat \<Rightarrow> rat \<Rightarrow> double \<times> double \<Rightarrow> (nat \<Rightarrow> byte) option"

record DtrRasterizedGlyph =
  rz_faceId :: u32
  rz_glyphId :: u32
  rz_format :: u32
  rz_flags :: u32
  rz_originX :: int
  rz_originY :: int
  rz_width :: u32
  rz_height :: u32
  rz_rowStride :: u32
  rz_pixels :: "byte list"

text \<open>A drawn component is multiplied by alpha, a published one is not.\<close>

definition straight :: "byte \<Rightarrow> byte \<Rightarrow> byte" where
  "straight component alpha =
     (let s = (if alpha = 0 then 0 else (unat component * 255 + unat alpha div 2) div unat alpha)
      in of_nat (if 255 < s then 255 else s))"

fun publish_color :: "byte list \<Rightarrow> byte list" where
  "publish_color (r # g # b # alpha # pixels) =
     straight r alpha # straight g alpha # straight b alpha # alpha # publish_color pixels"
| "publish_color pixels = pixels"

definition floor_less_one :: "('f, 'm) coretext_scheme \<Rightarrow> double \<Rightarrow> rat \<Rightarrow> double" where
  "floor_less_one ct edge scale =
     rounded ct (-) (map_option (\<lambda>x. of_int \<lfloor>x\<rfloor>) (rounded ct (*) edge (Some scale))) (Some 1)"

definition ceil_plus_one :: "('f, 'm) coretext_scheme \<Rightarrow> double \<Rightarrow> rat \<Rightarrow> double" where
  "ceil_plus_one ct edge scale =
     rounded ct (+) (map_option (\<lambda>x. of_int \<lceil>x\<rceil>) (rounded ct (*) edge (Some scale))) (Some 1)"

definition in_int32 :: "rat \<Rightarrow> bool" where
  "in_int32 x \<longleftrightarrow> \<not> (x < - 2147483648 \<or> 2147483647 < x)"

text \<open>The conversion of a double to an integer drops its fraction.\<close>

definition truncate_double :: "rat \<Rightarrow> int" where
  "truncate_double x = (if 0 \<le> x then \<lfloor>x\<rfloor> else \<lceil>x\<rceil>)"

text \<open>
  The size of the bitmap in pixels, or \<open>None\<close> when it is refused. A difference of edges that does
  not fit 64 bits cannot be converted in C; here it is refused like any other that is too large.
\<close>

definition bitmap_size :: "bool \<Rightarrow> double \<Rightarrow> double \<Rightarrow> (nat \<times> nat) option" where
  "bitmap_size color width height = (case (width, height) of
     (Some w, Some h) \<Rightarrow>
       let width = truncate_double w; height = truncate_double h; bytes_per_pixel = (if color then 4 else 1)
       in if width \<le> 0 \<or> height \<le> 0 \<or> DTR_MAX_RASTER_DIMENSION < width \<or> DTR_MAX_RASTER_DIMENSION < height \<or>
            uint UINT32_MAX < width * bytes_per_pixel \<or>
            int DTR_MAX_RASTER_OUTPUT_BYTES < width * height * bytes_per_pixel
          then None else Some (nat width, nat height)
   | _ \<Rightarrow> None)"

definition divided :: "('f, 'm) coretext_scheme \<Rightarrow> double \<Rightarrow> rat \<Rightarrow> double" where
  "divided ct x scale = rounded ct (/) (map_option uminus x) (Some scale)"

definition empty_glyph :: "u32 \<Rightarrow> u32 \<Rightarrow> bool \<Rightarrow> DtrRasterizedGlyph" where
  "empty_glyph face_id glyph_id color = \<lparr>rz_faceId = face_id, rz_glyphId = glyph_id,
     rz_format = raster_format_code (if color then DTR_RASTER_FORMAT_RGBA8_STRAIGHT else DTR_RASTER_FORMAT_ALPHA8),
     rz_flags = (if color then DTR_RASTER_GLYPH_COLOR else 0) OR (if glyph_id = 0 then DTR_RASTER_GLYPH_MISSING else 0),
     rz_originX = 0, rz_originY = 0, rz_width = 0, rz_height = 0, rz_rowStride = 0, rz_pixels = []\<rparr>"

definition RasterizeGlyph ::
  "('f, 'm) raster_services_scheme \<Rightarrow> bool \<Rightarrow> 'f \<Rightarrow> u32 \<Rightarrow> u32 \<Rightarrow> rat \<Rightarrow> DtrStatus + DtrRasterizedGlyph" where
  "RasterizeGlyph ct memory font face_id glyph_id scale =
     (let glyph = ucast glyph_id; bounds = ct_bounds ct font glyph; color = ct_color ct font;
          result = empty_glyph face_id glyph_id color
      in if \<not> gb_usable bounds then Inl DTR_STATUS_INTERNAL
         else if gb_empty bounds then Inr result
         else let min_x = floor_less_one ct (gb_min_x bounds) scale; max_x = ceil_plus_one ct (gb_max_x bounds) scale;
                  min_y = floor_less_one ct (gb_min_y bounds) scale; max_y = ceil_plus_one ct (gb_max_y bounds) scale
           in if min_x = None \<or> max_x = None \<or> min_y = None \<or> max_y = None \<or> \<not> in_int32 (the min_x) \<or>
                \<not> in_int32 (the max_y)
              then Inl DTR_STATUS_RESOURCE_EXHAUSTED
              else (case bitmap_size color (rounded ct (-) max_x min_x) (rounded ct (-) max_y min_y) of
                  None \<Rightarrow> Inl DTR_STATUS_RESOURCE_EXHAUSTED
                | Some (width, height) \<Rightarrow>
                  let row_stride = width * (if color then 4 else 1); byte_length = row_stride * height in
                  if \<not> memory then Inl DTR_STATUS_RESOURCE_EXHAUSTED
                  else (case ct_draw ct font glyph color (width, height) scale
                        (divided ct min_x scale, divided ct min_y scale) of
                      None \<Rightarrow> Inl DTR_STATUS_INTERNAL
                    | Some drawing \<Rightarrow>
                      let drawn = map drawing [0..<byte_length] in
                      Inr (result\<lparr>rz_originX := truncate_double (the min_x), rz_originY := truncate_double (the max_y),
                        rz_width := of_nat width, rz_height := of_nat height, rz_rowStride := of_nat row_stride,
                        rz_pixels := (if color then publish_color drawn else drawn)\<rparr>))))"

section \<open>A request\<close>

text \<open>The glyphs of the requests in order, and the bytes of their pixels, or a status.\<close>

definition request_key :: "DtrRasterRequestV1 \<Rightarrow> u64" where
  "request_key r = push_bit 32 (ucast (rq_face_id r)) OR ucast (rq_glyph_id r)"

fun rasterize_requests ::
  "('f, 'm) raster_services_scheme \<Rightarrow> bool \<Rightarrow> 'f catalog \<Rightarrow> rat \<Rightarrow> u64 list \<Rightarrow> nat \<Rightarrow> DtrRasterRequestV1 list \<Rightarrow>
    DtrStatus + DtrRasterizedGlyph list" where
  "rasterize_requests ct memory cg scale unique pixel_bytes [] = Inr []"
| "rasterize_requests ct memory cg scale unique pixel_bytes (r # rs) =
     (if rq_face_id r = 0 \<or> UINT16_MAX < rq_glyph_id r then Inl DTR_STATUS_INVALID_ARGUMENT
      else if request_key r \<in> set unique then Inl DTR_STATUS_INVALID_ARGUMENT
      else case fontForFaceId (rq_face_id r) cg of None \<Rightarrow> Inl DTR_STATUS_NOT_FOUND
      | Some font \<Rightarrow>
        (case RasterizeGlyph ct memory font (rq_face_id r) (rq_glyph_id r) scale of
           Inl status \<Rightarrow> Inl status
         | Inr glyph \<Rightarrow>
           let pixel_bytes' = pixel_bytes + length (rz_pixels glyph) in
           if unat UINT32_MAX < pixel_bytes' \<or> DTR_MAX_RASTER_OUTPUT_BYTES < pixel_bytes'
           then Inl DTR_STATUS_RESOURCE_EXHAUSTED
           else map_sum id ((#) glyph)
             (rasterize_requests ct memory cg scale (request_key r # unique) pixel_bytes' rs)))"

definition raster_record :: "nat \<Rightarrow> DtrRasterizedGlyph \<Rightarrow> DtrRasterGlyphV1" where
  "raster_record pixel_cursor g = \<lparr>rg_face_id = rz_faceId g, rg_glyph_id = rz_glyphId g, rg_format = rz_format g,
     rg_flags = rz_flags g, rg_origin_x = of_int (rz_originX g), rg_origin_y = of_int (rz_originY g),
     rg_width = rz_width g, rg_height = rz_height g, rg_row_stride = rz_rowStride g,
     rg_pixels_offset = of_nat pixel_cursor, rg_pixel_length = of_nat (length (rz_pixels g))\<rparr>"

text \<open>The records, and the pixels that are copied behind them; the cursor moves over both.\<close>

fun pack_glyphs :: "nat \<Rightarrow> DtrRasterizedGlyph list \<Rightarrow> DtrRasterGlyphV1 list \<times> byte list" where
  "pack_glyphs pixel_cursor [] = ([], [])"
| "pack_glyphs pixel_cursor (g # gs) =
     (case pack_glyphs (pixel_cursor + length (rz_pixels g)) gs of
        (records, pixels) \<Rightarrow> (raster_record pixel_cursor g # records, rz_pixels g @ pixels))"

definition raster_header :: "'f catalog \<Rightarrow> u32 \<Rightarrow> nat \<Rightarrow> nat \<Rightarrow> DtrRasterHeaderV1" where
  "raster_header cg scale_16_16 count pixel_bytes =
     (let records_offset = struct_sizeof raster_header_layout;
          pixels_offset = records_offset + count * struct_sizeof raster_glyph_layout
      in \<lparr>ra_magic = DTR_RASTER_BUFFER_MAGIC, ra_version = DTR_RASTER_BUFFER_VERSION,
          ra_header_size = of_nat (struct_sizeof raster_header_layout),
          ra_total_size = of_nat (pixels_offset + pixel_bytes), ra_catalog_generation = cg_generation cg,
          ra_scale_16_16 = scale_16_16, ra_glyph_count = of_nat count, ra_records_offset = of_nat records_offset,
          ra_pixels_offset = of_nat pixels_offset, ra_pixel_bytes = of_nat pixel_bytes,
          ra_reserved = [0, 0, 0, 0, 0]\<rparr>)"

definition raster_size :: "nat \<Rightarrow> nat \<Rightarrow> nat" where
  "raster_size count pixel_bytes = struct_sizeof raster_header_layout +
     count * struct_sizeof raster_glyph_layout + pixel_bytes"

definition pack_raster ::
  "bool \<Rightarrow> bool \<Rightarrow> u32 \<Rightarrow> 'f catalog \<Rightarrow> u32 \<Rightarrow> DtrRasterizedGlyph list \<Rightarrow> packed" where
  "pack_raster memory out capacity cg scale_16_16 glyphs =
     (let pixel_bytes = sum_list (map (\<lambda>g. length (rz_pixels g)) glyphs);
          required = raster_size (length glyphs) pixel_bytes
      in if DTR_MAX_RASTER_OUTPUT_BYTES < required \<or> unat UINT32_MAX < required
         then refused DTR_STATUS_RESOURCE_EXHAUSTED
         else if \<not> out \<or> unat capacity < required
         then \<lparr>pk_status = DTR_STATUS_BUFFER_TOO_SMALL, pk_required = Some required, pk_bytes = None\<rparr>
         else if \<not> memory
         then \<lparr>pk_status = DTR_STATUS_RESOURCE_EXHAUSTED, pk_required = Some required, pk_bytes = None\<rparr>
         else (case pack_glyphs (required - pixel_bytes) glyphs of (records, pixels) \<Rightarrow>
           if required - pixel_bytes + length pixels \<noteq> required
           then \<lparr>pk_status = DTR_STATUS_INTERNAL, pk_required = Some required, pk_bytes = None\<rparr>
           else \<lparr>pk_status = DTR_STATUS_OK, pk_required = Some required,
             pk_bytes = Some (write_raster_header (raster_header cg scale_16_16 (length glyphs) pixel_bytes) @
               concat (map write_raster_glyph records) @ pixels)\<rparr>))"

definition raster_arguments_rejected :: "DtrRasterRequestV1 list option \<Rightarrow> u32 \<Rightarrow> u32 \<Rightarrow> bool" where
  "raster_arguments_rejected requests request_count scale_16_16 \<longleftrightarrow>
     requests = None \<or> request_count = 0 \<or> DTR_MAX_RASTER_GLYPHS < request_count \<or>
     scale_16_16 < push_bit 15 1 \<or> push_bit 16 4 < scale_16_16"

text \<open>A request reads the catalogs and changes nothing.\<close>

definition dtr_font_catalog_rasterize ::
  "('f, 'm) raster_services_scheme \<Rightarrow> bool \<Rightarrow> u64 \<Rightarrow> u32 \<Rightarrow> DtrRasterRequestV1 list option \<Rightarrow> u32 \<Rightarrow> bool \<Rightarrow> u32 \<Rightarrow>
    bool \<Rightarrow> 'f catalogs \<Rightarrow> packed" where
  "dtr_font_catalog_rasterize ct memory handle scale_16_16 requests request_count out capacity required fc =
     (if \<not> required \<or> \<not> out \<and> capacity \<noteq> 0
      then \<lparr>pk_status = DTR_STATUS_INVALID_ARGUMENT, pk_required = None, pk_bytes = None\<rparr>
      else if raster_arguments_rejected requests request_count scale_16_16 then refused DTR_STATUS_INVALID_ARGUMENT
      else case FontCatalogForHandle handle fc of
        None \<Rightarrow> refused DTR_STATUS_INVALID_HANDLE
      | Some cg \<Rightarrow>
        (case rasterize_requests ct memory cg (of_nat (unat scale_16_16) / 65536) [] 0 (array_of requests request_count) of
           Inl status \<Rightarrow> refused status
         | Inr glyphs \<Rightarrow> pack_raster memory out capacity cg scale_16_16 glyphs))"

end
