(* ===== verification/Dtr_Font_Sample.thy ===== *)
theory Dtr_Font_Sample
  imports Dtr_Raster Dtr_Accessibility_Spec
begin

text \<open>
  A small font system for the examples: there are two fonts, a plain one and a color one, texts are
  ASCII, every unit of a text is a glyph of its own in one run, and a glyph is one point wide and high.
\<close>

definition sample_font_run :: "bool attributed \<Rightarrow> bool run" where
  "sample_font_run a = \<lparr>rn_font = Some (at_font (hd (as_attributes a))), rn_source = at_source (hd (as_attributes a)),
     rn_requested_name = Some (at_requested_name (hd (as_attributes a))),
     rn_synthetic = at_synthetic (hd (as_attributes a)),
     rn_glyphs = map (\<lambda>k. \<lparr>gl_glyph = as_text a ! k, gl_index = int k, gl_x = 0, gl_y = 0, gl_advance = 0\<rparr>)
       [0..<length (as_text a)],
     rn_location = 0, rn_length = int (length (as_text a)), rn_width = 0, rn_right_to_left = False\<rparr>"

definition sample_services :: "bool raster_services" where
  "sample_services = \<lparr>ct_round = Some, ct_decode = of_ascii, ct_encode = ascii, ct_system = (\<lambda>_. Some False),
     ct_named = (\<lambda>_ _. Some True), ct_family = (\<lambda>_ _. None), ct_traits = (\<lambda>_ _. None),
     ct_postscript = (\<lambda>color. Some (if color then [67] else [77])), ct_variation = (\<lambda>_. None),
     ct_format = (\<lambda>_. []), ct_axes = (\<lambda>_. None), ct_varied = (\<lambda>_ _. None), ct_color = (\<lambda>color. color),
     ct_monospaced = (\<lambda>_. True), ct_letter = (\<lambda>_. (True, 1, True, Some 8)), ct_ascent = (\<lambda>_. Some 10),
     ct_descent = (\<lambda>_. Some 3), ct_leading = (\<lambda>_. Some 0), ct_underline_position = (\<lambda>_. Some (- 1)),
     ct_underline_thickness = (\<lambda>_. Some 1), ct_for_string = (\<lambda>font _ _. Some font),
     ct_line = (\<lambda>a. Some [sample_font_run a]),
     ct_bounds = (\<lambda>_ _. \<lparr>gb_usable = True, gb_empty = False, gb_min_x = Some 0, gb_max_x = Some 1,
       gb_min_y = Some 0, gb_max_y = Some 1\<rparr>),
     ct_draw = (\<lambda>_ _ _ _ _ _. Some (\<lambda>i. of_nat i))\<rparr>"

definition sample_catalogs :: "bool catalogs" where
  "sample_catalogs = snd (dtr_font_catalog_create sample_services None 0 (Some 12) 0 (Some (152, 1)) initial_catalogs)"

definition sample_catalog :: "bool catalog" where
  "sample_catalog = the (fc_registry sample_catalogs 1)"

lemma sample_font_config: "DecodeFontCatalogConfiguration decode (Some plain_config) = Inr ([[], [], [], []], [])"
  by (simp add: DecodeFontCatalogConfiguration_def plain_config_def config_header_rejected_def array_of_def)

lemma sample_fonts:
  "CreateStyleFonts sample_services False 0 [[], [], [], []] =
     \<lparr>sf_fonts = [Some False, None, None, None], sf_available = 1, sf_synthetic = 0, sf_applied = 0, sf_unavailable = 0\<rparr>"
  by (simp add: CreateStyleFonts_def add_style_def add_varied_def ApplyFontVariations_def sample_services_def style_bit_def)

lemma sample_key: "FontIdentityKey sample_services color = (if color then [67] else [77])"
  by (simp add: FontIdentityKey_def PostScriptName_def sample_services_def)

lemma sample_metrics: "metrics_usable (metrics sample_services False 12 (Some 8))"
proof -
  have "metrics sample_services False 12 (Some 8) = [Some 12, Some 8, Some 13, Some 10, Some 3, Some 0, Some 10,
      Some (- 1), Some 1, Some (7 / 2), Some 1]"
    by (simp add: metrics_def sample_services_def ceil_64_def rounded_def Let_def)
  then show ?thesis by (simp add: metrics_usable_def del: not_None_eq)
qed

lemma sample_initialized:
  "\<exists>cg. initWithFamily sample_services [] 12 1 0 [[], [], [], []] [] = Some cg \<and>
     cg_fonts cg = [Some False, None, None, None] \<and> cg_syntheticStyleBits cg = 0 \<and> cg_overrides cg = [] \<and>
     cg_faceIds cg = [[77] \<mapsto> 1] \<and> cg_fontsByFaceId cg = [1 \<mapsto> False] \<and> cg_nextFaceId cg = 2 \<and>
     cg_generation cg = 1 \<and> cg_pointSize cg = 12 \<and> cg_diagnosticRecords cg = []"
proof -
  have "CreateRequestedFont sample_services [] 12 = Some False"
    by (simp add: CreateRequestedFont_def sample_services_def)
  then show ?thesis
    by (simp add: initWithFamily_def sample_fonts register_faces_def faceIdForFont_def sample_key Let_def)
qed

lemma sample_summary:
  assumes "cg_fonts cg = [Some False, None, None, None]" "cg_faceIds cg = [[77] \<mapsto> 1]" "cg_pointSize cg = 12"
  shows "\<exists>summary. fillSummary sample_services handle cg = (Some summary, cg)"
proof -
  have letter: "ct_letter sample_services False = (True, 1, True, Some 8)" by (simp add: sample_services_def)
  have "font_for_style 0 (cg_fonts cg) bits = Some (False, bits AND 1 \<noteq> 0)" "font_for_style 1 (cg_fonts cg) bits = None"
    "font_for_style 2 (cg_fonts cg) bits = None" "font_for_style 3 (cg_fonts cg) bits = None" for bits
    using assms(1) by (simp_all add: font_for_style_def style_bit_def)
  then show ?thesis using assms(2,3)
    by (simp add: fillSummary_def fontForStyle_def letter sample_metrics faceIdForStyle_def faceIdForFont_def sample_key
        Let_def)
qed

lemma sample_created:
  "\<exists>summary cg. dtr_font_catalog_create sample_services None 0 (Some 12) 0 (Some (152, 1)) initial_catalogs =
     ((DTR_STATUS_OK, Some summary), \<lparr>fc_registry = [1 \<mapsto> cg], fc_next_handle = 2\<rparr>) \<and>
     cg_fonts cg = [Some False, None, None, None] \<and> cg_syntheticStyleBits cg = 0 \<and> cg_overrides cg = [] \<and>
     cg_faceIds cg = [[77] \<mapsto> 1] \<and> cg_fontsByFaceId cg = [1 \<mapsto> False] \<and> cg_nextFaceId cg = 2 \<and>
     cg_generation cg = 1 \<and> cg_diagnosticRecords cg = []"
proof -
  obtain cg where cg: "initWithFamily sample_services [] 12 1 0 [[], [], [], []] [] = Some cg"
      "cg_fonts cg = [Some False, None, None, None]" "cg_syntheticStyleBits cg = 0" "cg_overrides cg = []"
      "cg_faceIds cg = [[77] \<mapsto> 1]" "cg_fontsByFaceId cg = [1 \<mapsto> False]" "cg_nextFaceId cg = 2"
      "cg_generation cg = 1" "cg_pointSize cg = 12" "cg_diagnosticRecords cg = []"
    using sample_initialized by blast
  obtain summary where "fillSummary sample_services 1 cg = (Some summary, cg)"
    using sample_summary [OF cg(2,5,9)] by blast
  then have "dtr_font_catalog_create sample_services None 0 (Some 12) 0 (Some (152, 1)) initial_catalogs =
     ((DTR_STATUS_OK, Some summary), \<lparr>fc_registry = [1 \<mapsto> cg], fc_next_handle = 2\<rparr>)"
    using cg(1)
    by (simp add: dtr_font_catalog_create_def dtr_font_catalog_create_configured_def PrepareFontCatalogSummary_def
        prepare_output_def versioned_def point_size_rejected_def DecodeUtf8_def sample_font_config initial_catalogs_def
        put_catalog_def)
  with cg(2-8,10) show ?thesis by blast
qed

lemma sample_catalog_facts:
  "FontCatalogForHandle 1 sample_catalogs = Some sample_catalog" "fc_registry sample_catalogs = [1 \<mapsto> sample_catalog]"
  "cg_fonts sample_catalog = [Some False, None, None, None]" "cg_syntheticStyleBits sample_catalog = 0"
  "cg_overrides sample_catalog = []" "cg_faceIds sample_catalog = [[77] \<mapsto> 1]"
  "cg_fontsByFaceId sample_catalog = [1 \<mapsto> False]" "cg_nextFaceId sample_catalog = 2"
  "cg_generation sample_catalog = 1" "cg_diagnosticRecords sample_catalog = []"
  using sample_created by (auto simp: FontCatalogForHandle_def sample_catalog_def sample_catalogs_def)

lemma largest_u32: "uint (UINT32_MAX) = 4294967295" "unat (UINT32_MAX) = 4294967295"
  by (simp_all add: unsigned_minus_1_eq_mask mask_eq_exp_minus_1)

lemma sample_font_glyph:
  "RasterizeGlyph sample_services True False 1 5 1 =
     Inr \<lparr>rz_faceId = 1, rz_glyphId = 5, rz_format = 1, rz_flags = 0, rz_originX = - 1, rz_originY = 2, rz_width = 3,
       rz_height = 3, rz_rowStride = 3, rz_pixels = [0, 1, 2, 3, 4, 5, 6, 7, 8]\<rparr>"
proof -
  have "bitmap_size False (Some 3) (Some 3) = Some (3, 3)"
    by (simp add: bitmap_size_def truncate_double_def largest_u32)
  moreover have "\<lceil>- 1 :: rat\<rceil> = - 1" by (metis ceiling_of_int of_int_minus of_int_1)
  moreover have "[0..<9] = [0, 1, 2, 3, 4, 5, 6, 7, 8 :: nat]" by (simp add: upt_rec)
  ultimately show ?thesis
    by (simp add: RasterizeGlyph_def sample_services_def empty_glyph_def floor_less_one_def ceil_plus_one_def
        rounded_def in_int32_def truncate_double_def Let_def divided_def)
qed

lemma sample_rasterized:
  "\<exists>required p. dtr_font_catalog_rasterize sample_services True 1 65536
       (Some [\<lparr>rq_face_id = 1, rq_glyph_id = 5\<rparr>]) 1 True 1000 True sample_catalogs =
     \<lparr>pk_status = DTR_STATUS_OK, pk_required = required, pk_bytes = Some p\<rparr>"
  by (simp add: dtr_font_catalog_rasterize_def raster_arguments_rejected_def sample_catalog_facts array_of_def
      fontForFaceId_def sample_font_glyph map_sum_def pack_raster_def raster_size_def Let_def
      largest_u32)

end
