(* ===== verification/Dtr_Overrides.thy ===== *)
theory Dtr_Overrides
  imports Dtr_Font_Sample
begin

text \<open>
  Which font every unit of a text asks for: the reference that the single pass of
  \<open>attributedStringForText\<close> over the scalars of the text meets.
\<close>

section \<open>Scalars\<close>

lemma scalars_from_lengths: "sum_list (map (\<lambda>(_, len, _). len) (scalars_from k us)) = length us"
  by (induction k us rule: scalars_from.induct) simp_all

text \<open>The places of scalars follow one another from an index on.\<close>

fun consecutive :: "nat \<Rightarrow> (nat \<times> nat \<times> u32) list \<Rightarrow> bool" where
  "consecutive k [] = True"
| "consecutive k ((index, len, scalar) # rest) \<longleftrightarrow> index = k \<and> consecutive (k + len) rest"

lemma scalars_consecutive: "consecutive k (scalars_from k us)"
  by (induction k us rule: scalars_from.induct) simp_all

section \<open>The font of a scalar\<close>

definition covering :: "u32 \<Rightarrow> 'f DtrFontOverride list \<Rightarrow> nat list" where
  "covering scalar overrides =
     filter (\<lambda>k. ov_firstScalar (overrides ! k) \<le> scalar \<and> scalar \<le> ov_lastScalar (overrides ! k)) [0..<length overrides]"

text \<open>The reference: the last of the overrides that cover the scalar counts, if it has a usable font.\<close>

definition override_choice ::
  "('f, 'm) coretext_scheme \<Rightarrow> nsstring \<Rightarrow> u32 \<Rightarrow> 'f DtrFontOverride list \<Rightarrow> nat \<times> nat \<times> u32 \<Rightarrow> 'f attributes option" where
  "override_choice ct units style overrides place = (case place of (index, len, scalar) \<Rightarrow>
     if covering scalar overrides = [] then None
     else case override_font_for_style style (overrides ! last (covering scalar overrides)) of
       None \<Rightarrow> None
     | Some (font, synthetic) \<Rightarrow>
         if override_usable ct units (index, len) font
         then Some \<lparr>at_font = font, at_source = source_code DTR_FONT_RESOLUTION_CODEPOINT_OVERRIDE,
           at_requested_name = FontIdentityKey ct font, at_synthetic = synthetic\<rparr>
         else None)"

definition chosen_attributes ::
  "('f, 'm) coretext_scheme \<Rightarrow> nsstring \<Rightarrow> u32 \<Rightarrow> 'f DtrFontOverride list \<Rightarrow> 'f attributes \<Rightarrow> nat \<times> nat \<times> u32 \<Rightarrow>
    'f attributes list" where
  "chosen_attributes ct units style overrides plain place = (case place of (_, len, _) \<Rightarrow>
     replicate len (case override_choice ct units style overrides place of None \<Rightarrow> plain | Some a \<Rightarrow> a))"

lemma select_override_last:
  "select_override scalar overrides =
     (if covering scalar overrides = [] then None else Some (overrides ! last (covering scalar overrides)))"
proof (induction overrides rule: rev_induct)
  case (snoc ov overrides)
  have "covering scalar (overrides @ [ov]) = covering scalar overrides @
      (if ov_firstScalar ov \<le> scalar \<and> scalar \<le> ov_lastScalar ov then [length overrides] else [])"
    by (auto simp: covering_def nth_append intro!: filter_cong)
  moreover have "last (covering scalar overrides) < length overrides" if "covering scalar overrides \<noteq> []"
    using last_in_set [OF that] by (auto simp: covering_def)
  ultimately show ?case using snoc by (auto simp: select_override_def nth_append)
qed (simp add: select_override_def covering_def)

lemma attribute_scalar_choice:
  "attribute_scalar ct units style overrides (index, len, scalar) (attributes, matches, applied, fallback) =
     (case override_choice ct units style overrides (index, len, scalar) of
        Some a \<Rightarrow> (take index attributes @ replicate len a @ drop (index + len) attributes, matches + 1, applied + 1, fallback)
      | None \<Rightarrow> if covering scalar overrides = [] then (attributes, matches, applied, fallback)
          else (attributes, matches + 1, applied, fallback + 1))"
  by (simp add: attribute_scalar_def override_choice_def select_override_last split: option.split)

text \<open>How many of the scalars are covered, get the font of an override, and are covered but do not.\<close>

definition covered_count :: "'f DtrFontOverride list \<Rightarrow> (nat \<times> nat \<times> u32) list \<Rightarrow> nat" where
  "covered_count overrides places = length (filter (\<lambda>(_, _, scalar). covering scalar overrides \<noteq> []) places)"

definition chosen_count ::
  "('f, 'm) coretext_scheme \<Rightarrow> nsstring \<Rightarrow> u32 \<Rightarrow> 'f DtrFontOverride list \<Rightarrow> (nat \<times> nat \<times> u32) list \<Rightarrow> nat" where
  "chosen_count ct units style overrides places =
     length (filter (\<lambda>place. override_choice ct units style overrides place \<noteq> None) places)"

lemma chosen_covered:
  "override_choice ct units style overrides (index, len, scalar) = Some a \<Longrightarrow> covering scalar overrides \<noteq> []"
  by (auto simp: override_choice_def)

lemma chosen_count_le: "chosen_count ct units style overrides places \<le> covered_count overrides places"
proof (induction places)
  case (Cons place places)
  obtain index len scalar where place: "place = (index, len, scalar)" by (cases place)
  show ?case
    using Cons.IH chosen_covered [of ct units style overrides index len scalar]
    by (cases "override_choice ct units style overrides place") (simp_all add: place chosen_count_def covered_count_def)
qed (simp add: chosen_count_def covered_count_def)

lemma fold_attribute_scalar:
  "consecutive (length front) places \<Longrightarrow>
   fold (attribute_scalar ct units style overrides) places
      (front @ replicate (sum_list (map (\<lambda>(_, len, _). len) places)) plain, matches, applied, fallback) =
    (front @ concat (map (chosen_attributes ct units style overrides plain) places),
     matches + of_nat (covered_count overrides places), applied + of_nat (chosen_count ct units style overrides places),
     fallback + of_nat (covered_count overrides places - chosen_count ct units style overrides places))"
proof (induction places arbitrary: front matches applied fallback)
  case Nil
  show ?case by (simp add: covered_count_def chosen_count_def)
next
  case (Cons place places)
  obtain index len scalar where place: "place = (index, len, scalar)" by (cases place)
  then have index: "index = length front" and rest: "consecutive (length front + len) places" using Cons.prems by simp_all
  note counts = chosen_count_le [of ct units style overrides places]
  show ?case
  proof (cases "override_choice ct units style overrides place")
    case None
    have "chosen_attributes ct units style overrides plain place = replicate len plain"
      using None by (simp add: chosen_attributes_def place)
    then show ?thesis
      using Cons.IH [of "front @ replicate len plain"] rest counts None
      by (cases "covering scalar overrides = []")
        (simp_all add: place index attribute_scalar_choice replicate_add covered_count_def chosen_count_def Suc_diff_le)
  next
    case (Some chosen)
    have "chosen_attributes ct units style overrides plain place = replicate len chosen"
      using Some by (simp add: chosen_attributes_def place)
    then show ?thesis
      using Cons.IH [of "front @ replicate len chosen"] rest counts Some chosen_covered [OF Some [unfolded place]]
      by (simp add: place index attribute_scalar_choice replicate_add covered_count_def chosen_count_def)
  qed
qed

text \<open>
  C33. Every scalar of a text gets the font of the last override that covers it, provided that the
  override has a font for the style and CoreText keeps that font for the scalar, and otherwise the
  catalog's font of the style; both units of a surrogate pair get the same. The counters of the
  catalog go up by the numbers of the scalars that are covered, that got the font of an override,
  and that did not, and only when the call records them.
\<close>

theorem overrides_choose_fonts:
  assumes "fontForStyle style cg = Some (requested, synthetic)"
  shows "\<exists>attributed counted. attributedStringForText ct units style features record_them cg = (Some attributed, counted) \<and>
     as_text attributed = units \<and> length (as_attributes attributed) = length units \<and>
     as_attributes attributed = concat (map (chosen_attributes ct units style (cg_overrides cg)
       \<lparr>at_font = requested, at_source = source_code DTR_FONT_RESOLUTION_REQUESTED,
        at_requested_name = FontIdentityKey ct requested, at_synthetic = synthetic\<rparr>) (scalars_from 0 units)) \<and>
     (let covered = covered_count (cg_overrides cg) (scalars_from 0 units);
          chosen = chosen_count ct units style (cg_overrides cg) (scalars_from 0 units) in
      chosen \<le> covered \<and>
      cg_overrideMatchCount counted = (if record_them
        then SaturatingAddMetric (cg_overrideMatchCount cg) (of_nat covered) else cg_overrideMatchCount cg) \<and>
      cg_overrideAppliedCount counted = (if record_them
        then SaturatingAddMetric (cg_overrideAppliedCount cg) (of_nat chosen) else cg_overrideAppliedCount cg) \<and>
      cg_overrideFallbackCount counted = (if record_them
        then SaturatingAddMetric (cg_overrideFallbackCount cg) (of_nat (covered - chosen)) else cg_overrideFallbackCount cg))"
proof -
  let ?plain = "\<lparr>at_font = requested, at_source = source_code DTR_FONT_RESOLUTION_REQUESTED,
        at_requested_name = FontIdentityKey ct requested, at_synthetic = synthetic\<rparr>"
  let ?attributes = "concat (map (chosen_attributes ct units style (cg_overrides cg) ?plain) (scalars_from 0 units))"
  have fold: "fold (attribute_scalar ct units style (cg_overrides cg)) (scalars_from 0 units)
      (replicate (length units) ?plain, 0, 0, 0) =
    (?attributes, of_nat (covered_count (cg_overrides cg) (scalars_from 0 units)),
     of_nat (chosen_count ct units style (cg_overrides cg) (scalars_from 0 units)),
     of_nat (covered_count (cg_overrides cg) (scalars_from 0 units) -
       chosen_count ct units style (cg_overrides cg) (scalars_from 0 units)))"
    using fold_attribute_scalar [of "[]" "scalars_from 0 units" ct units style "cg_overrides cg" ?plain 0 0 0]
      scalars_consecutive [of 0 units] by (simp add: scalars_from_lengths)
  have "map (length \<circ> chosen_attributes ct units style (cg_overrides cg) ?plain) (scalars_from 0 units) =
      map (\<lambda>(_, len, _). len) (scalars_from 0 units)" by (auto simp: chosen_attributes_def)
  then have "length ?attributes = length units" by (simp add: length_concat scalars_from_lengths map_map del: map_eq_conv)
  moreover have "attributedStringForText ct units style features record_them cg =
    (Some \<lparr>as_text = units, as_ligatures = features AND DTR_SHAPE_FEATURE_LIGATURES \<noteq> 0, as_attributes = ?attributes\<rparr>,
     snd (attributedStringForText ct units style features record_them cg))"
    unfolding attributedStringForText_def assms option.case prod.case Let_def fold by simp
  moreover have "let counted = snd (attributedStringForText ct units style features record_them cg);
        covered = covered_count (cg_overrides cg) (scalars_from 0 units);
        chosen = chosen_count ct units style (cg_overrides cg) (scalars_from 0 units) in
      cg_overrideMatchCount counted = (if record_them
        then SaturatingAddMetric (cg_overrideMatchCount cg) (of_nat covered) else cg_overrideMatchCount cg) \<and>
      cg_overrideAppliedCount counted = (if record_them
        then SaturatingAddMetric (cg_overrideAppliedCount cg) (of_nat chosen) else cg_overrideAppliedCount cg) \<and>
      cg_overrideFallbackCount counted = (if record_them
        then SaturatingAddMetric (cg_overrideFallbackCount cg) (of_nat (covered - chosen)) else cg_overrideFallbackCount cg)"
    unfolding attributedStringForText_def assms option.case prod.case Let_def fold by simp
  ultimately show ?thesis
    using chosen_count_le [of ct units style "cg_overrides cg" "scalars_from 0 units"] unfolding Let_def
    by (intro exI conjI) (assumption | simp)+
qed

lemma overrides_choose_fonts_witness:
  "\<exists>attributed counted. attributedStringForText sample_services [65, 0xD83D, 0xDE00] 0 0 True sample_catalog =
     (Some attributed, counted) \<and> length (as_attributes attributed) = 3"
proof -
  have "fontForStyle 0 sample_catalog = Some (False, False)"
    by (simp add: fontForStyle_def font_for_style_def sample_catalog_facts style_bit_def)
  from overrides_choose_fonts [OF this, of sample_services "[65, 0xD83D, 0xDE00]" 0 True] show ?thesis by auto
qed

end
