(* ===== verification/Dtr_Packed.thy ===== *)
theory Dtr_Packed
  imports Dtr_Raster
begin

text \<open>
  Arrays of structures in a packet. The locale says what writing and reading one structure
  promise; what it gives is that an element of an array is read back at its place. It is
  interpreted on the structures of shaped texts and of rasterized glyphs.
\<close>

section \<open>Arrays of fixed width\<close>

locale packed_array =
  fixes width :: nat and put :: "'a \<Rightarrow> byte list" and get :: "byte list \<Rightarrow> 'a" and ok :: "'a \<Rightarrow> bool"
  assumes put_length: "ok x \<Longrightarrow> length (put x) = width"
    and get_put: "ok x \<Longrightarrow> get (put x @ rest) = x"
begin

lemma array_length: "list_all ok xs \<Longrightarrow> length (concat (map put xs)) = length xs * width"
  by (induction xs) (simp_all add: put_length)

lemma read_element:
  "list_all ok xs \<Longrightarrow> k < length xs \<Longrightarrow> get (drop (k * width) (concat (map put xs) @ rest)) = xs ! k"
proof (induction xs arbitrary: k)
  case (Cons x xs)
  show ?case
  proof (cases k)
    case 0
    with Cons.prems show ?thesis by (simp add: get_put)
  next
    case (Suc j)
    with Cons show ?thesis by (simp add: put_length)
  qed
qed simp

text \<open>The array stands behind some bytes of known length.\<close>

lemma read_array:
  assumes "list_all ok xs" "length front = start"
  shows "map (\<lambda>k. get (drop (start + k * width) (front @ concat (map put xs) @ rest))) [0..<length xs] = xs"
proof -
  have "drop (start + m) (front @ bs) = drop m bs" for m bs by (simp add: assms(2) [symmetric])
  then show ?thesis
    by (intro nth_equalityI) (simp_all add: read_element [OF assms(1)] del: drop_append)
qed

end

lemma word_members: "unat (x :: u32) < 256 ^ 4" "unat (y :: u64) < 256 ^ 8"
  using unat_bound [of x] unat_bound [of y] by simp_all

lemma shape_run_packs: "length (write_shape_run r) = 40" "read_shape_run (write_shape_run r @ rest) = r"
proof -
  show "length (write_shape_run r) = 40" by (simp add: write_shape_run_def shape_run_layout_def)
  have "read_members shape_run_layout (write_shape_run r @ rest) =
      [unat (sr_face_id r), unat (sr_flags r), unat (sr_first_glyph r), unat (sr_glyph_count r),
       unat (sr_utf16_start r), unat (sr_utf16_length r), unat (sr_typographic_width r), 0, 0]"
    unfolding write_shape_run_def by (rule read_write_members) (simp add: shape_run_layout_def word_members [simplified])
  then show "read_shape_run (write_shape_run r @ rest) = r" by (simp add: read_shape_run_def)
qed

definition face_fits :: "DtrShapeFaceV1 \<Rightarrow> bool" where
  "face_fits f \<longleftrightarrow> length (sa_postscript_name f) \<le> DTR_MAX_POSTSCRIPT_NAME_BYTES"

lemma shape_face_packs:
  assumes "face_fits f"
  shows "length (write_shape_face f) = 144" "read_shape_face (write_shape_face f @ rest) = f"
proof -
  let ?m = "[unat (sa_face_id f), unat (sa_flags f), length (sa_postscript_name f), 0]"
  show "length (write_shape_face f) = 144"
    using assms by (simp add: write_shape_face_def shape_face_layout_def name_field_def face_fits_def)
  have "read_members shape_face_layout (write_shape_face f @ rest) = ?m"
    unfolding write_shape_face_def append_assoc
    by (rule read_write_members)
      (use assms in \<open>simp add: shape_face_layout_def face_fits_def word_members [simplified]\<close>)
  moreover have "drop 16 (write_shape_face f @ rest) = name_field (sa_postscript_name f) @ rest"
    by (simp add: write_shape_face_def shape_face_layout_def)
  ultimately show "read_shape_face (write_shape_face f @ rest) = f"
    by (simp add: read_shape_face_def name_field_def)
qed

lemma shape_glyph_packs: "length (write_shape_glyph g) = 48" "read_shape_glyph (write_shape_glyph g @ rest) = g"
proof -
  show "length (write_shape_glyph g) = 48" by (simp add: write_shape_glyph_def shape_glyph_layout_def)
  have "read_members shape_glyph_layout (write_shape_glyph g @ rest) =
      [unat (sg_glyph_id g), unat (sg_face_id g), unat (sg_run_index g), unat (sg_flags g), unat (sg_utf16_start g),
       unat (sg_utf16_length g), unat (sg_position_x g), unat (sg_position_y g), unat (sg_advance g)]"
    unfolding write_shape_glyph_def
    by (rule read_write_members) (simp add: shape_glyph_layout_def word_members [simplified])
  then show "read_shape_glyph (write_shape_glyph g @ rest) = g" by (simp add: read_shape_glyph_def)
qed

lemma raster_glyph_packs: "length (write_raster_glyph g) = 48" "read_raster_glyph (write_raster_glyph g @ rest) = g"
proof -
  show "length (write_raster_glyph g) = 48" by (simp add: write_raster_glyph_def raster_glyph_layout_def)
  have "read_members raster_glyph_layout (write_raster_glyph g @ rest) =
      [unat (rg_face_id g), unat (rg_glyph_id g), unat (rg_format g), unat (rg_flags g), unat (rg_origin_x g),
       unat (rg_origin_y g), unat (rg_width g), unat (rg_height g), unat (rg_row_stride g),
       unat (rg_pixels_offset g), unat (rg_pixel_length g), 0]"
    unfolding write_raster_glyph_def
    by (rule read_write_members) (simp add: raster_glyph_layout_def word_members [simplified])
  then show "read_raster_glyph (write_raster_glyph g @ rest) = g" by (simp add: read_raster_glyph_def)
qed

interpretation shaped_runs: packed_array 40 write_shape_run read_shape_run "\<lambda>_. True"
  by unfold_locales (simp_all add: shape_run_packs)

interpretation shaped_faces: packed_array 144 write_shape_face read_shape_face face_fits
  by unfold_locales (simp_all add: shape_face_packs)

interpretation shaped_glyphs: packed_array 48 write_shape_glyph read_shape_glyph "\<lambda>_. True"
  by unfold_locales (simp_all add: shape_glyph_packs)

interpretation raster_glyphs: packed_array 48 write_raster_glyph read_raster_glyph "\<lambda>_. True"
  by unfold_locales (simp_all add: raster_glyph_packs)

section \<open>Headers\<close>

lemma shape_header_packs:
  assumes "length (sh_reserved h) = 3"
  shows "length (write_shape_header h) = 80" "read_shape_header (write_shape_header h @ rest) = h"
proof -
  obtain a b c where r: "sh_reserved h = [a, b, c]" using assms by (auto simp: length_Suc_conv numeral_eq_Suc)
  show "length (write_shape_header h) = 80" by (simp add: write_shape_header_def shape_header_layout_def r)
  have "read_members shape_header_layout (write_shape_header h @ rest) =
      [unat (sh_magic h), unat (sh_version h), unat (sh_header_size h), unat (sh_total_size h),
       unat (sh_catalog_generation h), unat (sh_requested_style h), unat (sh_feature_flags h),
       unat (sh_utf8_length h), unat (sh_utf16_length h), unat (sh_unicode_scalar_count h),
       unat (sh_run_count h), unat (sh_face_count h), unat (sh_glyph_count h), unat (sh_runs_offset h),
       unat (sh_faces_offset h), unat (sh_glyphs_offset h)] @ map unat (sh_reserved h)"
    unfolding write_shape_header_def
    by (rule read_write_members) (simp add: shape_header_layout_def r word_members [simplified])
  then show "read_shape_header (write_shape_header h @ rest) = h" by (simp add: read_shape_header_def r)
qed

lemma raster_header_packs:
  assumes "length (ra_reserved h) = 5"
  shows "length (write_raster_header h) = 64" "read_raster_header (write_raster_header h @ rest) = h"
proof -
  obtain a b c d e where r: "ra_reserved h = [a, b, c, d, e]"
    using assms by (auto simp: length_Suc_conv numeral_eq_Suc)
  show "length (write_raster_header h) = 64" by (simp add: write_raster_header_def raster_header_layout_def r)
  have "read_members raster_header_layout (write_raster_header h @ rest) =
      [unat (ra_magic h), unat (ra_version h), unat (ra_header_size h), unat (ra_total_size h),
       unat (ra_catalog_generation h), unat (ra_scale_16_16 h), unat (ra_glyph_count h),
       unat (ra_records_offset h), unat (ra_pixels_offset h), unat (ra_pixel_bytes h)] @ map unat (ra_reserved h)"
    unfolding write_raster_header_def
    by (rule read_write_members) (simp add: raster_header_layout_def r word_members [simplified])
  then show "read_raster_header (write_raster_header h @ rest) = h" by (simp add: read_raster_header_def r)
qed

end
