(* ===== verification/Dtr_Raster_Spec.thy ===== *)
theory Dtr_Raster_Spec
  imports Dtr_Packed Dtr_Font_Sample
begin

text \<open>
  What a packet of rasterized glyphs holds, and what publishing a color glyph does to its pixels.
\<close>

section \<open>Pixels\<close>

text \<open>Multiplying by alpha again, rounded to the nearest.\<close>

definition premultiply :: "byte \<Rightarrow> byte \<Rightarrow> byte" where
  "premultiply component alpha = of_nat ((unat component * unat alpha + 127) div 255)"

fun premultiply_pixels :: "byte list \<Rightarrow> byte list" where
  "premultiply_pixels (r # g # b # alpha # pixels) =
     premultiply r alpha # premultiply g alpha # premultiply b alpha # alpha # premultiply_pixels pixels"
| "premultiply_pixels pixels = pixels"

text \<open>A bitmap of whole pixels whose components do not exceed their alpha, as CoreGraphics draws it.\<close>

fun premultiplied :: "byte list \<Rightarrow> bool" where
  "premultiplied (r # g # b # alpha # pixels) \<longleftrightarrow> r \<le> alpha \<and> g \<le> alpha \<and> b \<le> alpha \<and> premultiplied pixels"
| "premultiplied pixels \<longleftrightarrow> pixels = []"

lemma byte_bound: "unat (b :: byte) \<le> 255"
  using unat_bound [of b] by simp

lemma straight_bounds:
  assumes "c \<le> a" "0 < (a :: nat)" "a \<le> 255"
  shows "(c * 255 + a div 2) div a \<le> 255" "((c * 255 + a div 2) div a * a + 127) div 255 = c"
proof -
  let ?s = "(c * 255 + a div 2) div a"
  have "c * 255 + a div 2 < 256 * a" using assms by linarith
  then have "?s < 256" using assms(2) by (simp add: less_mult_imp_div_less)
  then show "?s \<le> 255" by simp
  have "?s * a \<le> c * 255 + a div 2" by (metis div_times_less_eq_dividend)
  moreover have "c * 255 + a div 2 < ?s * a + a"
    using assms(2) by (metis add.commute div_mult_mod_eq mod_less_divisor nat_add_left_cancel_less)
  ultimately have "c * 255 \<le> ?s * a + 127" "?s * a + 127 < c * 255 + 255" using assms(3) by linarith+
  then show "(?s * a + 127) div 255 = c" by (auto intro: div_nat_eqI)
qed

lemma premultiply_straight: "c \<le> a \<Longrightarrow> premultiply (straight c a) a = c"
proof (cases "a = 0")
  case True
  then show "c \<le> a \<Longrightarrow> premultiply (straight c a) a = c" by (simp add: premultiply_def straight_def)
next
  case False
  assume "c \<le> a"
  then have b: "unat c \<le> unat a" "0 < unat a" "unat a \<le> 255"
    using False byte_bound [of a] by (simp_all add: word_le_nat_alt unat_gt_0)
  note s = straight_bounds [OF b]
  have "unat (straight c a) = (unat c * 255 + unat a div 2) div unat a"
    using False s(1) by (simp add: straight_def Let_def unat_of_nat)
  then show ?thesis using s(2) by (simp add: premultiply_def)
qed

lemma length_publish_color [simp]: "length (publish_color bs) = length bs"
  by (induction bs rule: publish_color.induct) simp_all

text \<open>
  Publishing a color glyph loses nothing: multiplying the published pixels by their alpha
  again, rounded to the nearest, gives the pixels that were drawn, byte by byte, for every bitmap
  of whole pixels none of whose components exceeds its alpha.
\<close>

theorem published_pixels_exact:
  "premultiplied pixels \<Longrightarrow> premultiply_pixels (publish_color pixels) = pixels"
  by (induction pixels rule: publish_color.induct) (simp_all add: premultiply_straight)

lemma published_pixels_exact_witness:
  "premultiply_pixels (publish_color [10, 20, 30, 40, 0, 0, 0, 0, 255, 7, 0, 255]) =
     [10, 20, 30, 40, 0, 0, 0, 0, 255, 7, 0, 255]"
  by (rule published_pixels_exact) simp

section \<open>Packets\<close>

lemma pack_glyphs_eq:
  "pack_glyphs c gs =
     (map (\<lambda>k. raster_record (c + length (concat (map rz_pixels (take k gs)))) (gs ! k)) [0..<length gs],
      concat (map rz_pixels gs))"
proof (induction gs arbitrary: c)
  case (Cons g gs)
  have "[0..<length (g # gs)] = 0 # map Suc [0..<length gs]" by (simp add: map_Suc_upt upt_conv_Cons del: upt_Suc)
  then show ?case using Cons [of "c + length (rz_pixels g)"] by (simp add: add.assoc comp_def del: upt_Suc)
qed simp

lemma slice_concat:
  assumes "k < length xs"
  shows "take (length (xs ! k)) (drop (length (concat (take k xs))) (concat xs)) = xs ! k"
proof -
  have "concat xs = concat (take k xs) @ xs ! k @ concat (drop (Suc k) xs)"
    using id_take_nth_drop [OF assms] by (metis concat.simps(2) concat_append)
  then show ?thesis by simp
qed

lemma rasterized_pixels:
  assumes "RasterizeGlyph ct memory font face glyph scale = Inr g"
  shows "rz_faceId g = face \<and> rz_glyphId g = glyph \<and> length (rz_pixels g) = unat (rz_rowStride g) * unat (rz_height g) \<and>
     unat (rz_rowStride g) = unat (rz_width g) * (if ct_color ct font then 4 else 1)"
proof -
  have bounds: "w \<le> 4096 \<and> h \<le> 4096" if "bitmap_size c dx dy = Some (w, h)" for c dx dy w h
    using that by (auto simp: bitmap_size_def Let_def split: option.splits if_splits)
  have size: "unat (of_nat w :: u32) = w" "unat (of_nat h :: u32) = h" "unat ((of_nat w :: u32) * 4) = w * 4"
    if "bitmap_size c dx dy = Some (w, h)" for c dx dy w h
  proof -
    have small: "unat (of_nat n :: u32) = n" if "n \<le> 16384" for n using that by (simp add: unat_of_nat)
    show "unat (of_nat w :: u32) = w" "unat (of_nat h :: u32) = h"
      using bounds [OF that] by (simp_all add: small)
    show "unat ((of_nat w :: u32) * 4) = w * 4" using bounds [OF that] small [of "w * 4"] by simp
  qed
  show ?thesis
    using assms
    by (auto simp: RasterizeGlyph_def empty_glyph_def Let_def size split: if_splits option.splits prod.splits)
qed

lemma rasterize_requests_sound:
  "rasterize_requests ct memory cg scale unique n rs = Inr gs \<Longrightarrow>
   list_all2 (\<lambda>r g. \<exists>font. fontForFaceId (rq_face_id r) cg = Some font \<and>
     RasterizeGlyph ct memory font (rq_face_id r) (rq_glyph_id r) scale = Inr g) rs gs"
proof (induction rs arbitrary: unique n gs)
  case (Cons r rs)
  then show ?case
    by (auto simp: Let_def map_sum_def split: if_splits option.splits sum.splits)
qed simp

definition pixel_lengths :: "DtrRasterizedGlyph list \<Rightarrow> nat" where
  "pixel_lengths gs = length (concat (map rz_pixels gs))"

lemma pixel_lengths_take: "pixel_lengths (take k gs) \<le> pixel_lengths gs"
proof -
  have "pixel_lengths gs = pixel_lengths (take k gs) + pixel_lengths (drop k gs)"
    unfolding pixel_lengths_def by (metis append_take_drop_id concat_append length_append map_append)
  then show ?thesis by simp
qed

lemma pixel_lengths_Suc:
  "k < length gs \<Longrightarrow> pixel_lengths (take (Suc k) gs) = pixel_lengths (take k gs) + length (rz_pixels (gs ! k))"
  by (simp add: pixel_lengths_def take_Suc_conv_app_nth)

definition raster_records :: "DtrRasterizedGlyph list \<Rightarrow> DtrRasterGlyphV1 list" where
  "raster_records gs = map (\<lambda>k. raster_record (64 + length gs * 48 + pixel_lengths (take k gs)) (gs ! k)) [0..<length gs]"

definition raster_packet :: "'f catalog \<Rightarrow> u32 \<Rightarrow> DtrRasterizedGlyph list \<Rightarrow> byte list" where
  "raster_packet cg scale gs = write_raster_header (raster_header cg scale (length gs) (pixel_lengths gs)) @
     concat (map write_raster_glyph (raster_records gs)) @ concat (map rz_pixels gs)"

lemma unat_small: "n \<le> 67108864 \<Longrightarrow> unat (of_nat n :: u32) = n"
  by (simp add: unat_of_nat)

lemma pack_raster_ok:
  assumes "pack_raster memory out capacity cg scale gs = \<lparr>pk_status = DTR_STATUS_OK, pk_required = required, pk_bytes = bytes\<rparr>"
  shows "required = Some (64 + length gs * 48 + pixel_lengths gs)"
    "bytes = Some (raster_packet cg scale gs)"
    "64 + length gs * 48 + pixel_lengths gs \<le> 67108864" "64 + length gs * 48 + pixel_lengths gs \<le> unat capacity"
proof -
  have n: "sum_list (map (\<lambda>g. length (rz_pixels g)) gs) = pixel_lengths gs"
    by (simp add: pixel_lengths_def length_concat comp_def)
  show "required = Some (64 + length gs * 48 + pixel_lengths gs)"
    "bytes = Some (raster_packet cg scale gs)"
    "64 + length gs * 48 + pixel_lengths gs \<le> 67108864" "64 + length gs * 48 + pixel_lengths gs \<le> unat capacity"
    using assms
    by (auto simp: pack_raster_def n raster_size_def refused_def Let_def pack_glyphs_eq raster_records_def
        pixel_lengths_def raster_packet_def split: if_splits)
qed

text \<open>The record at an index of a packet, and the bytes that a record names.\<close>

definition record_at :: "byte list \<Rightarrow> nat \<Rightarrow> DtrRasterGlyphV1" where
  "record_at p k = read_raster_glyph (drop (unat (ra_records_offset (read_raster_header p)) + k * 48) p)"

definition record_pixels :: "byte list \<Rightarrow> DtrRasterGlyphV1 \<Rightarrow> byte list" where
  "record_pixels p r = take (unat (rg_pixel_length r)) (drop (unat (rg_pixels_offset r)) p)"

lemma raster_packet_parts:
  fixes gs :: "DtrRasterizedGlyph list"
  assumes p: "p = raster_packet cg scale gs"
    and small: "64 + length gs * 48 + pixel_lengths gs \<le> 67108864"
  shows "read_raster_header p = raster_header cg scale (length gs) (pixel_lengths gs)"
    "length p = 64 + length gs * 48 + pixel_lengths gs"
    "k < length gs \<Longrightarrow> record_at p k = raster_record (64 + length gs * 48 + pixel_lengths (take k gs)) (gs ! k)"
    "k < length gs \<Longrightarrow> record_pixels p (record_at p k) = rz_pixels (gs ! k)"
proof -
  let ?h = "raster_header cg scale (length gs) (pixel_lengths gs)"
  have "length (ra_reserved ?h) = 5" by (simp add: raster_header_def Let_def)
  note head = raster_header_packs [OF this]
  show read: "read_raster_header p = ?h" unfolding p raster_packet_def by (rule head(2))
  have records: "length (concat (map write_raster_glyph (raster_records gs))) = length gs * 48"
    using raster_glyphs.array_length [of "raster_records gs"] by (simp add: raster_records_def list_all_iff)
  moreover have pixels: "length (concat (map rz_pixels gs)) = pixel_lengths gs" by (simp add: pixel_lengths_def)
  ultimately show size: "length p = 64 + length gs * 48 + pixel_lengths gs"
    using pixels by (simp add: p raster_packet_def head(1))
  have offset: "unat (ra_records_offset ?h) = 64" by (simp add: raster_header_def Let_def)
  have front: "drop (64 + m) p =
      drop m (concat (map write_raster_glyph (raster_records gs)) @ concat (map rz_pixels gs))" for m
    by (simp add: p raster_packet_def head(1))
  have at: "record_at p k = raster_record (64 + length gs * 48 + pixel_lengths (take k gs)) (gs ! k)"
    if "k < length gs" for k
  proof -
    have "record_at p k = read_raster_glyph (drop (k * 48) (concat (map write_raster_glyph (raster_records gs)) @
        concat (map rz_pixels gs)))"
      unfolding record_at_def read by (simp only: offset front)
    also have "\<dots> = raster_records gs ! k"
      using that by (intro raster_glyphs.read_element) (simp_all add: raster_records_def list_all_iff)
    finally show ?thesis using that by (simp add: raster_records_def)
  qed
  then show "k < length gs \<Longrightarrow> record_at p k = raster_record (64 + length gs * 48 + pixel_lengths (take k gs)) (gs ! k)" .
  assume k: "k < length gs"
  have "length (rz_pixels (gs ! k)) + pixel_lengths (take k gs) \<le> pixel_lengths gs"
    using pixel_lengths_Suc [OF k] pixel_lengths_take [of "Suc k" gs] by simp
  then have u: "unat (of_nat (64 + length gs * 48 + pixel_lengths (take k gs)) :: u32) =
      64 + length gs * 48 + pixel_lengths (take k gs)"
    "unat (of_nat (length (rz_pixels (gs ! k))) :: u32) = length (rz_pixels (gs ! k))"
    using small by (intro unat_small; simp)+
  have "drop (64 + length gs * 48 + m) p = drop m (concat (map rz_pixels gs))" for m
    using front [of "length gs * 48 + m"] records by (simp add: add.assoc)
  then show "record_pixels p (record_at p k) = rz_pixels (gs ! k)"
    unfolding record_pixels_def at [OF k]
    using slice_concat [of k "map rz_pixels gs"] k
    by (simp only: raster_record_def DtrRasterGlyphV1.select_convs u) (simp add: pixel_lengths_def take_map)
qed

lemma pixel_lengths_sum: "k \<le> length gs \<Longrightarrow> pixel_lengths (take k gs) = (\<Sum>j<k. length (rz_pixels (gs ! j)))"
  by (induction k) (simp add: pixel_lengths_def, simp add: pixel_lengths_Suc)

text \<open>
  C32. A packet of rasterized glyphs holds exactly what was rasterized: it has the size that was
  reported and that its header names; the record of the k-th request is that of its glyph, drawn in
  the font that the face identifier names at the requested scale; the pixels that the record names
  are that glyph's, and the pixels of the glyphs lie one behind the other without a gap.
\<close>

theorem raster_packet_round_trip:
  assumes call: "dtr_font_catalog_rasterize ct memory h scale (Some requests) n out capacity True fc =
      \<lparr>pk_status = DTR_STATUS_OK, pk_required = required, pk_bytes = Some p\<rparr>"
    and array: "unat n \<le> length requests" and k: "k < unat n"
  shows "\<exists>cg font g. FontCatalogForHandle h fc = Some cg \<and> fontForFaceId (rq_face_id (requests ! k)) cg = Some font \<and>
     RasterizeGlyph ct memory font (rq_face_id (requests ! k)) (rq_glyph_id (requests ! k))
       (of_nat (unat scale) / 65536) = Inr g \<and>
     (let head = read_raster_header p; r = record_at p k in
      required = Some (length p) \<and> length p \<le> unat capacity \<and> unat (ra_total_size head) = length p \<and>
      ra_glyph_count head = n \<and> ra_scale_16_16 head = scale \<and> ra_catalog_generation head = cg_generation cg \<and>
      r = raster_record (unat (rg_pixels_offset r)) g \<and> record_pixels p r = rz_pixels g \<and>
      unat (rg_pixels_offset r) =
        unat (ra_pixels_offset head) + (\<Sum>j<k. unat (rg_pixel_length (record_at p j))) \<and>
      unat (rg_pixel_length r) = unat (rg_row_stride r) * unat (rg_height r))"
proof -
  obtain cg gs where cg: "FontCatalogForHandle h fc = Some cg"
      and gs: "rasterize_requests ct memory cg (of_nat (unat scale) / 65536) [] 0 (take (unat n) requests) = Inr gs"
      and packs: "pack_raster memory out capacity cg scale gs =
        \<lparr>pk_status = DTR_STATUS_OK, pk_required = required, pk_bytes = Some p\<rparr>"
    using call by (auto simp: dtr_font_catalog_rasterize_def refused_def array_of_def split: if_splits option.splits sum.splits)
  note sound = rasterize_requests_sound [OF gs]
  have len: "length gs = unat n" using list_all2_lengthD [OF sound] array by simp
  from list_all2_nthD2 [OF sound, of k] k len
  obtain font where font: "fontForFaceId (rq_face_id (requests ! k)) cg = Some font"
      and g: "RasterizeGlyph ct memory font (rq_face_id (requests ! k)) (rq_glyph_id (requests ! k))
        (of_nat (unat scale) / 65536) = Inr (gs ! k)" by auto
  note ok = pack_raster_ok [OF packs]
  have p: "p = raster_packet cg scale gs" using ok(2) by simp
  note parts = raster_packet_parts [OF p ok(3)]
  have small: "64 + length gs * 48 + pixel_lengths (take j gs) \<le> 67108864" for j
    using ok(3) pixel_lengths_take [of j gs] by simp
  have lengths: "unat (rg_pixel_length (record_at p j)) = length (rz_pixels (gs ! j))" if "j < length gs" for j
  proof -
    have "length (rz_pixels (gs ! j)) \<le> 67108864"
      using pixel_lengths_Suc [OF that] pixel_lengths_take [of "Suc j" gs] ok(3) by simp
    then show ?thesis by (simp add: parts(3) [OF that] raster_record_def unat_small)
  qed
  have at: "record_at p k = raster_record (64 + length gs * 48 + pixel_lengths (take k gs)) (gs ! k)"
    and kl: "k < length gs" using parts(3) k len by simp_all
  have offset: "unat (rg_pixels_offset (record_at p k)) = 64 + length gs * 48 + pixel_lengths (take k gs)"
    unfolding at using unat_small [OF small [of k]] by (simp add: raster_record_def)
  have head: "unat (ra_pixels_offset (read_raster_header p)) = 64 + length gs * 48"
    "unat (ra_total_size (read_raster_header p)) = length p"
    unfolding parts(1,2) using unat_small [OF small [of 0]] unat_small [OF ok(3)]
    by (simp_all add: raster_header_def Let_def pixel_lengths_def)
  have "(\<Sum>j<k. unat (rg_pixel_length (record_at p j))) = pixel_lengths (take k gs)"
    using kl by (simp add: pixel_lengths_sum lengths)
  moreover have "unat (rg_pixel_length (record_at p k)) = unat (rz_rowStride (gs ! k)) * unat (rz_height (gs ! k))"
    using lengths [OF kl] rasterized_pixels [OF g] by simp
  ultimately have "let head = read_raster_header p; r = record_at p k in
      required = Some (length p) \<and> length p \<le> unat capacity \<and> unat (ra_total_size head) = length p \<and>
      ra_glyph_count head = n \<and> ra_scale_16_16 head = scale \<and> ra_catalog_generation head = cg_generation cg \<and>
      r = raster_record (unat (rg_pixels_offset r)) (gs ! k) \<and> record_pixels p r = rz_pixels (gs ! k) \<and>
      unat (rg_pixels_offset r) =
        unat (ra_pixels_offset head) + (\<Sum>j<k. unat (rg_pixel_length (record_at p j))) \<and>
      unat (rg_pixel_length r) = unat (rg_row_stride r) * unat (rg_height r)"
    using ok(1,4) parts(2) parts(4) [OF kl] head offset at
    by (simp add: Let_def parts(1) raster_header_def len raster_record_def)
  with cg font g show ?thesis by blast
qed

lemma raster_packet_round_trip_witness:
  "\<exists>required p. dtr_font_catalog_rasterize sample_services True 1 65536
       (Some [\<lparr>rq_face_id = 1, rq_glyph_id = 5\<rparr>]) 1 True 1000 True sample_catalogs =
     \<lparr>pk_status = DTR_STATUS_OK, pk_required = required, pk_bytes = Some p\<rparr> \<and>
     unat (ra_total_size (read_raster_header p)) = length p"
proof -
  have "\<exists>required p. dtr_font_catalog_rasterize sample_services True 1 65536
       (Some [\<lparr>rq_face_id = 1, rq_glyph_id = 5\<rparr>]) 1 True 1000 True sample_catalogs =
     \<lparr>pk_status = DTR_STATUS_OK, pk_required = required, pk_bytes = Some p\<rparr>"
    by (simp add: sample_rasterized)
  then obtain required p where call: "dtr_font_catalog_rasterize sample_services True 1 65536
       (Some [\<lparr>rq_face_id = 1, rq_glyph_id = 5\<rparr>]) 1 True 1000 True sample_catalogs =
     \<lparr>pk_status = DTR_STATUS_OK, pk_required = required, pk_bytes = Some p\<rparr>" by blast
  from raster_packet_round_trip [OF this, of 0]
  show ?thesis using call by (auto simp: Let_def)
qed

end
