(* ===== verification/Dtr_Fonts_Inv.thy ===== *)
theory Dtr_Fonts_Inv
  imports Dtr_Font_Sample
begin

text \<open>
  The invariant of a font catalog: its two tables of faces are inverse to each other, and they only
  grow. The exported functions are the steps of a history of catalogs.

  Identifiers of faces have 32 bits and are counted up without a test. \<open>few_faces\<close> says of a
  catalog that the counter has not come around: that no more different faces were registered in it
  than there are identifiers other than 0. The invariant holds without it, and what depends on it
  says so; \<open>face_ids_run_out\<close> is what happens beyond it. What it counts only grows, so that a catalog
  that has few faces had few at all times before.
\<close>

section \<open>The tables of faces\<close>

definition few_faces :: "'f catalog \<Rightarrow> bool" where
  "few_faces cg \<longleftrightarrow> card (dom (cg_faceIds cg)) < 2 ^ 32"

definition faces_ok :: "('f, 'm) coretext_scheme \<Rightarrow> 'f catalog \<Rightarrow> bool" where
  "faces_ok ct cg \<longleftrightarrow> finite (dom (cg_faceIds cg)) \<and>
     cg_nextFaceId cg = of_nat (Suc (card (dom (cg_faceIds cg)))) \<and>
     (few_faces cg \<longrightarrow>
        (\<forall>key i. cg_faceIds cg key = Some i \<longrightarrow> i \<noteq> 0 \<and> unat i \<le> card (dom (cg_faceIds cg)) \<and>
           (\<exists>font. cg_fontsByFaceId cg i = Some font \<and> FontIdentityKey ct font = key)) \<and>
        (\<forall>i font. cg_fontsByFaceId cg i = Some font \<longrightarrow> cg_faceIds cg (FontIdentityKey ct font) = Some i))"

definition grown :: "'f catalog \<Rightarrow> 'f catalog \<Rightarrow> bool" where
  "grown cg cg' \<longleftrightarrow> cg_faceIds cg \<subseteq>\<^sub>m cg_faceIds cg' \<and>
     (few_faces cg' \<longrightarrow> few_faces cg \<and> cg_fontsByFaceId cg \<subseteq>\<^sub>m cg_fontsByFaceId cg')"

lemma faces_okD:
  assumes "faces_ok ct cg" "few_faces cg"
  shows "cg_faceIds cg key = Some i \<Longrightarrow> i \<noteq> 0 \<and> unat i \<le> card (dom (cg_faceIds cg)) \<and>
      (\<exists>font. cg_fontsByFaceId cg i = Some font \<and> FontIdentityKey ct font = key)"
    "cg_fontsByFaceId cg i = Some font \<Longrightarrow> cg_faceIds cg (FontIdentityKey ct font) = Some i"
  using assms unfolding faces_ok_def by blast+

text \<open>What is chosen once, when the catalog is made.\<close>

definition setup_of :: "'f catalog \<Rightarrow> u64 \<times> rat \<times> 'f option list \<times> u32 \<times> 'f DtrFontOverride list" where
  "setup_of cg = (cg_generation cg, cg_pointSize cg, cg_fonts cg, cg_syntheticStyleBits cg, cg_overrides cg)"

lemma grown_refl [simp]: "grown cg cg"
  by (simp add: grown_def)

lemma grown_trans: "grown a b \<Longrightarrow> grown b c \<Longrightarrow> grown a c"
  by (auto simp: grown_def intro: map_le_trans)

text \<open>What the operations on a catalog do: they keep its invariant, and its tables only grow.\<close>

definition advances :: "('f, 'm) coretext_scheme \<Rightarrow> 'f catalog \<Rightarrow> 'f catalog \<Rightarrow> bool" where
  "advances ct cg cg' \<longleftrightarrow> (faces_ok ct cg \<longrightarrow> faces_ok ct cg' \<and> grown cg cg' \<and> setup_of cg' = setup_of cg)"

lemma advancesD:
  assumes "advances ct cg cg'" "faces_ok ct cg"
  shows "faces_ok ct cg'" "grown cg cg'" "setup_of cg' = setup_of cg"
  using assms by (auto simp: advances_def)

lemma advances_refl [simp]: "advances ct cg cg"
  by (simp add: advances_def)

lemma advances_trans [trans]: "advances ct a b \<Longrightarrow> advances ct b c \<Longrightarrow> advances ct a c"
  unfolding advances_def using grown_trans by metis

lemma advances_fold: "(\<And>x cg. advances ct cg (f x cg)) \<Longrightarrow> advances ct cg (fold f xs cg)"
proof (induction xs arbitrary: cg)
  case (Cons x xs)
  show ?case using advances_trans [OF Cons.prems Cons.IH [OF Cons.prems]] by simp
qed simp

text \<open>An operation that leaves the tables and the choices alone.\<close>

lemma advances_rest:
  assumes "cg_faceIds cg' = cg_faceIds cg" "cg_fontsByFaceId cg' = cg_fontsByFaceId cg"
    "cg_nextFaceId cg' = cg_nextFaceId cg" "setup_of cg' = setup_of cg"
  shows "advances ct cg cg'"
  using assms by (simp add: advances_def faces_ok_def grown_def few_faces_def)

lemma faceIdForFont_sound:
  assumes ok: "faces_ok ct cg" and call: "faceIdForFont ct font cg = (i, cg')"
  shows "faces_ok ct cg' \<and> grown cg cg' \<and> setup_of cg' = setup_of cg"
proof (cases "cg_faceIds cg (FontIdentityKey ct font)")
  case (Some existing)
  with call ok show ?thesis by (auto simp: faceIdForFont_def)
next
  case None
  let ?key = "FontIdentityKey ct font" and ?i = "cg_nextFaceId cg" and ?n = "card (dom (cg_faceIds cg))"
  have cg': "cg' = cg\<lparr>cg_nextFaceId := ?i + 1, cg_faceIds := (cg_faceIds cg)(?key \<mapsto> ?i),
      cg_fontsByFaceId := (cg_fontsByFaceId cg)(?i \<mapsto> font)\<rparr>"
    using call None by (auto simp: faceIdForFont_def Let_def)
  have fin: "finite (dom (cg_faceIds cg))" and next_id: "?i = of_nat (Suc ?n)" using ok by (simp_all add: faces_ok_def)
  have count: "card (dom (cg_faceIds cg')) = Suc ?n" using None fin by (simp add: cg' domIff)
  have few: "few_faces cg" and i: "unat ?i = Suc ?n" if "few_faces cg'"
  proof -
    have "Suc ?n < 2 ^ LENGTH(32)" using that by (simp add: few_faces_def count)
    then show "unat ?i = Suc ?n" unfolding next_id by (rule of_nat_inverse [OF refl])
    show "few_faces cg" using that by (simp add: few_faces_def count)
  qed
  have fresh: "cg_fontsByFaceId cg ?i = None" if "few_faces cg'"
  proof (rule ccontr)
    assume "cg_fontsByFaceId cg ?i \<noteq> None"
    then obtain f where "cg_fontsByFaceId cg ?i = Some f" by blast
    from faces_okD(2) [OF ok few [OF that] this] have "unat ?i \<le> ?n" using faces_okD(1) [OF ok few [OF that]] by blast
    with i [OF that] show False by simp
  qed
  have "cg_faceIds cg' k = Some j \<longrightarrow> j \<noteq> 0 \<and> unat j \<le> card (dom (cg_faceIds cg')) \<and>
      (\<exists>f. cg_fontsByFaceId cg' j = Some f \<and> FontIdentityKey ct f = k)" if small: "few_faces cg'" for k j
  proof (cases "k = ?key")
    case True
    have "?i \<noteq> 0" using i [OF small] by (metis Zero_not_Suc unsigned_0)
    then show ?thesis unfolding count using True i [OF small] by (auto simp: cg')
  next
    case False
    show ?thesis
      unfolding count using faces_okD(1) [OF ok few [OF small], of k j] i [OF small] False by (auto simp: cg')
  qed
  moreover have "cg_fontsByFaceId cg' j = Some f \<longrightarrow> cg_faceIds cg' (FontIdentityKey ct f) = Some j"
    if small: "few_faces cg'" for j f
    using faces_okD(2) [OF ok few [OF small], of j f] None by (auto simp: cg')
  ultimately have "faces_ok ct cg'"
    unfolding faces_ok_def count using fin by (simp add: cg' next_id)
  moreover have "grown cg cg'"
    using None fresh few by (auto simp: cg' grown_def map_le_def)
  moreover have "setup_of cg' = setup_of cg" by (simp add: cg' setup_of_def)
  ultimately show ?thesis by blast
qed

text \<open>
  The identifiers after the last one: a new font gets 0, which stands for no face, and then 1, under
  which the first font is no longer found.
\<close>

lemma face_ids_run_out:
  assumes "faces_ok ct cg" "cg_faceIds cg (FontIdentityKey ct font) = None"
  shows "card (dom (cg_faceIds cg)) = 2 ^ 32 - 1 \<Longrightarrow> fst (faceIdForFont ct font cg) = 0"
    "card (dom (cg_faceIds cg)) = 2 ^ 32 \<Longrightarrow> fst (faceIdForFont ct font cg) = 1 \<and>
       fontForFaceId 1 (snd (faceIdForFont ct font cg)) = Some font"
  using assms by (simp_all add: faceIdForFont_def faces_ok_def fontForFaceId_def Let_def)

lemma faceIdForFont_advances: "advances ct cg (snd (faceIdForFont ct font cg))"
  unfolding advances_def using faceIdForFont_sound [of ct cg font] by (metis prod.collapse)

lemma register_faces_advances:
  shows "advances ct cg (register_faces ct fonts cg)"
  unfolding register_faces_def
  by (rule advances_fold) (simp split: option.split add: faceIdForFont_advances)

lemma faceIdForStyle_advances: "advances ct cg (snd (faceIdForStyle ct style cg))"
  by (simp add: faceIdForStyle_def faceIdForFont_advances split: option.split)

lemma fillSummary_advances:
  shows "advances ct cg (snd (fillSummary ct handle cg))"
proof -
  note style = faceIdForStyle_advances
  let ?four = "snd (faceIdForStyle ct 3 (snd (faceIdForStyle ct 2 (snd (faceIdForStyle ct 1 (snd (faceIdForStyle ct 0 cg)))))))"
  have "advances ct cg ?four" using advances_trans style by metis
  moreover have "snd (fillSummary ct handle cg) = cg \<or> snd (fillSummary ct handle cg) = ?four"
    by (simp add: fillSummary_def Let_def split: option.splits prod.splits if_splits)
  ultimately show ?thesis by auto
qed

lemma attributedStringForText_advances:
  "advances ct cg (snd (attributedStringForText ct units style features record_them cg))"
  by (rule advances_rest)
    (simp_all add: attributedStringForText_def setup_of_def Let_def split: option.split prod.split)

lemma record_run_advances:
  shows "advances ct cg (record_run ct requested run cg)"
proof (cases "rn_font run")
  case (Some font)
  have "advances ct (snd (faceIdForFont ct font cg)) (record_run ct requested run cg)"
    by (rule advances_rest) (simp_all add: record_run_def Some setup_of_def Let_def split: prod.split)
  then show ?thesis by (rule advances_trans [OF faceIdForFont_advances])
qed (simp add: record_run_def)

lemma recordLine_advances: "advances ct cg (recordLine ct requested runs cg)"
  unfolding recordLine_def by (rule advances_fold) (rule record_run_advances)

lemma resolve_runs_advances:
  shows "advances ct cg (snd (resolve_runs ct units style requested runs cg))"
proof -
  have "snd (resolve_runs ct units style requested runs cg) = cg \<or>
    (\<exists>font. snd (resolve_runs ct units style requested runs cg) =
       recordLine ct requested runs (snd (faceIdForFont ct font cg)))"
    by (auto simp: resolve_runs_def Let_def case_prod_beta split: list.splits option.splits if_splits)
  then show ?thesis
    using advances_trans [OF faceIdForFont_advances recordLine_advances] by auto
qed

lemma survey_runs_advances:
  shows "advances ct cg (snd (survey_runs ct n requested runs glyphs faces cg))"
proof (induction runs arbitrary: glyphs faces cg)
  case (Cons run runs)
  show ?case
  proof (cases "check_run ct n glyphs run")
    case (Inr resolved_name)
    obtain resolved name where r: "resolved_name = (resolved, name)" by (cases resolved_name)
    have "advances ct (snd (faceIdForFont ct resolved cg)) (snd (survey_runs ct n requested (run # runs) glyphs faces cg))"
      using Cons by (simp add: Inr r split: prod.split option.split)
    then show ?thesis by (rule advances_trans [OF faceIdForFont_advances])
  qed simp
qed simp

lemma shape_runs_advances:
  shows "advances ct cg (snd (shape_runs ct memory style features len units out capacity requested runs cg))"
proof -
  let ?surveyed = "snd (survey_runs ct (length units) requested runs 0 [] cg)"
  let ?after = "snd (shape_runs ct memory style features len units out capacity requested runs cg)"
  have "?after = cg \<or> ?after = ?surveyed \<or> ?after = recordLine ct requested runs ?surveyed"
    unfolding shape_runs_def Let_def by (simp split: prod.splits sum.splits option.splits)
  then show ?thesis
    using survey_runs_advances advances_trans [OF survey_runs_advances recordLine_advances]
    by auto
qed

section \<open>Histories\<close>

text \<open>
  The calls that change the catalogs. \<open>dtr_font_catalog_create\<close> is one with the plain
  configuration, and the finalizer is a release; the other exported functions change nothing.
\<close>

datatype font_call =
  Create_catalog cstring u32 double u32 "DtrFontCatalogConfigV1 option" "(nat \<times> u32) option"
| Release_catalog u64
| Resolve_font u64 u32 cstring u32 "(nat \<times> u32) option"
| Shape_text bool u64 u32 u32 cstring u32 bool u32 bool

fun font_step :: "('f, 'm) line_services_scheme \<Rightarrow> font_call \<Rightarrow> 'f catalogs \<Rightarrow> 'f catalogs" where
  "font_step ct (Create_catalog family len point_size policy config out) fc =
     snd (dtr_font_catalog_create_configured ct family len point_size policy config out fc)"
| "font_step ct (Release_catalog h) fc = snd (dtr_font_catalog_release h fc)"
| "font_step ct (Resolve_font h style chars len out) fc = snd (dtr_font_catalog_resolve ct h style chars len out fc)"
| "font_step ct (Shape_text memory h style features chars len out capacity required) fc =
     snd (dtr_font_catalog_shape ct memory h style features chars len out capacity required fc)"

definition font_history :: "('f, 'm) line_services_scheme \<Rightarrow> font_call list \<Rightarrow> 'f catalogs \<Rightarrow> 'f catalogs" where
  "font_history ct calls fc = fold (font_step ct) calls fc"

definition catalogs_ok :: "('f, 'm) coretext_scheme \<Rightarrow> 'f catalogs \<Rightarrow> bool" where
  "catalogs_ok ct fc \<longleftrightarrow> 0 < fc_next_handle fc \<and>
     (\<forall>h cg. fc_registry fc h = Some cg \<longrightarrow> 0 < h \<and> h < fc_next_handle fc \<and> faces_ok ct cg \<and> cg_generation cg = h)"

text \<open>One state of the catalogs is later than another: what was registered is released or has grown.\<close>

definition later :: "'f catalogs \<Rightarrow> 'f catalogs \<Rightarrow> bool" where
  "later fc fc' \<longleftrightarrow> fc_next_handle fc \<le> fc_next_handle fc' \<and>
     (\<forall>h cg'. h < fc_next_handle fc \<longrightarrow> fc_registry fc' h = Some cg' \<longrightarrow>
        (\<exists>cg. fc_registry fc h = Some cg \<and> grown cg cg' \<and> setup_of cg' = setup_of cg))"

lemma later_refl [simp]: "later fc fc"
  by (auto simp: later_def)

lemma later_trans:
  assumes "later a b" "later b c"
  shows "later a c"
  unfolding later_def
proof (intro conjI allI impI)
  show "fc_next_handle a \<le> fc_next_handle c" using assms by (auto simp: later_def)
  fix h cg'' assume h: "h < fc_next_handle a" and reg: "fc_registry c h = Some cg''"
  have "h < fc_next_handle b" using h assms(1) by (auto simp: later_def)
  with reg assms(2) obtain cg' where b: "fc_registry b h = Some cg'" "grown cg' cg''" "setup_of cg'' = setup_of cg'"
    unfolding later_def by blast
  with h assms(1) obtain cg where a: "fc_registry a h = Some cg" "grown cg cg'" "setup_of cg' = setup_of cg"
    unfolding later_def by blast
  show "\<exists>cg. fc_registry a h = Some cg \<and> grown cg cg'' \<and> setup_of cg'' = setup_of cg"
    using a b grown_trans by (intro exI [of _ cg]) auto
qed

lemma first_handle [simp]: "fc_next_handle initial_catalogs = 1"
  by (simp add: initial_catalogs_def)

lemma initial_catalogs_ok: "catalogs_ok ct initial_catalogs"
  by (simp add: catalogs_ok_def initial_catalogs_def)

lemma put_later:
  assumes "catalogs_ok ct fc" "FontCatalogForHandle h fc = Some cg" "advances ct cg cg'"
  shows "catalogs_ok ct (put_catalog h cg' fc) \<and> later fc (put_catalog h cg' fc)"
proof -
  have reg: "fc_registry fc h = Some cg" using assms(2) by (simp add: FontCatalogForHandle_def split: if_splits)
  with assms(1) have cg: "faces_ok ct cg" "cg_generation cg = h" "0 < h" "h < fc_next_handle fc"
    by (auto simp: catalogs_ok_def)
  note new = advancesD [OF assms(3) cg(1)]
  have gen: "cg_generation cg' = h" using new(3) cg(2) by (simp add: setup_of_def)
  have "catalogs_ok ct (put_catalog h cg' fc)"
    using assms(1) cg(3,4) new(1) gen unfolding catalogs_ok_def put_catalog_def by simp
  moreover have "later fc (put_catalog h cg' fc)"
    using reg new unfolding later_def put_catalog_def by simp
  ultimately show ?thesis ..
qed

lemma initWithFamily_ok:
  fixes ct :: "('f, 'm) coretext_scheme"
  assumes cg: "initWithFamily ct family points generation policy variations requests = Some cg"
  shows "faces_ok ct cg \<and> cg_generation cg = generation"
proof -
  have add: "faces_ok ct (add_override ct points policy variations request c) \<and>
      cg_generation (add_override ct points policy variations request c) = generation"
    if "faces_ok ct c \<and> cg_generation c = generation" for request and c :: "'f catalog"
  proof -
    define w where "w n m ovs = c\<lparr>cg_availableOverrideCount := n, cg_unavailableOverrideCount := m, cg_overrides := ovs\<rparr>"
      for n m ovs
    have base: "faces_ok ct (w n m ovs)" "cg_generation (w n m ovs) = generation" for n m ovs
      using that by (simp_all add: faces_ok_def few_faces_def w_def)
    have regs: "faces_ok ct (register_faces ct fonts (w n m ovs)) \<and>
        cg_generation (register_faces ct fonts (w n m ovs)) = generation" for fonts n m ovs
      using advancesD [OF register_faces_advances base(1)] base(2) by (simp add: setup_of_def)
    have "\<exists>n m ovs. add_override ct points policy variations request c = w n m ovs \<or>
        (\<exists>fonts. add_override ct points policy variations request c = register_faces ct fonts (w n m ovs))"
    proof (cases "CreateRequestedFont ct (or_family request) points")
      case None
      have "add_override ct points policy variations request c =
          w (cg_availableOverrideCount c) (cg_unavailableOverrideCount c + 1)
            (cg_overrides (add_override ct points policy variations request c))"
        by (simp add: add_override_def None w_def)
      then show ?thesis by blast
    next
      case (Some regular)
      let ?sf = "CreateStyleFonts ct regular policy variations"
      let ?ov = "\<lparr>ov_firstScalar = or_first request, ov_lastScalar = or_last request, ov_family = or_family request,
          ov_fonts = sf_fonts ?sf, ov_syntheticStyleBits = sf_synthetic ?sf, ov_available = True\<rparr>"
      have "add_override ct points policy variations request c = register_faces ct (sf_fonts ?sf)
          (w (cg_availableOverrideCount c + 1) (cg_unavailableOverrideCount c) (cg_overrides c @ [?ov]))"
        by (simp add: add_override_def Some w_def Let_def)
      then show ?thesis by blast
    qed
    then show ?thesis using base regs by metis
  qed
  have adds: "faces_ok ct (fold (add_override ct points policy variations) rs c) \<and>
      cg_generation (fold (add_override ct points policy variations) rs c) = generation"
    if "faces_ok ct c \<and> cg_generation c = generation" for rs and c :: "'f catalog"
    using that by (induction rs arbitrary: c) (simp_all add: add)
  obtain fonts c where c: "cg = fold (add_override ct points policy variations) requests (register_faces ct fonts c)"
      "cg_faceIds c = Map.empty" "cg_fontsByFaceId c = Map.empty" "cg_nextFaceId c = 1" "cg_generation c = generation"
    using cg by (auto simp: initWithFamily_def Let_def split: option.splits)
  have "faces_ok ct c" using c by (simp add: faces_ok_def)
  then show ?thesis
    unfolding c(1) using advancesD [OF register_faces_advances [of ct c fonts]] c(5)
    by (intro adds) (simp add: setup_of_def)
qed

lemma largest_u64: "unat UINT64_MAX = 18446744073709551615"
  by (simp add: unsigned_minus_1_eq_mask mask_eq_exp_minus_1)

text \<open>A new catalog has the next handle, which no catalog has had.\<close>

lemma create_later:
  assumes ok: "catalogs_ok ct fc" and room: "fc_next_handle fc < UINT64_MAX"
    and after: "after = snd (dtr_font_catalog_create_configured ct family len points policy config out fc)"
  shows "catalogs_ok ct after \<and> later fc after \<and>
    (fc_next_handle after = fc_next_handle fc \<or> fc_next_handle after = fc_next_handle fc + 1)"
proof -
  let ?h = "fc_next_handle fc"
  let ?counted = "fc\<lparr>fc_next_handle := ?h + 1\<rparr>"
  have "unat (?h + 1) = unat ?h + unat (1 :: u64)"
    by (rule unat_add_lem [THEN iffD1]) (use room in \<open>simp add: word_less_nat_alt largest_u64\<close>)
  then have lt: "?h < ?h + 1" by (simp add: word_less_nat_alt)
  have up: "h < ?h + 1" if "h < ?h" for h using that lt by (rule less_trans)
  have counted: "catalogs_ok ct ?counted" "later fc ?counted"
    using ok lt up unfolding catalogs_ok_def later_def by auto
  have new: "catalogs_ok ct (put_catalog ?h cg ?counted) \<and> later fc (put_catalog ?h cg ?counted)"
    if "faces_ok ct cg" "cg_generation cg = ?h" for cg
    using ok that lt up unfolding catalogs_ok_def later_def put_catalog_def by auto
  have "after = fc \<or> after = ?counted \<or> (\<exists>name variations requests cg.
      initWithFamily ct name (the points) ?h policy variations requests = Some cg \<and>
      after = put_catalog ?h (snd (fillSummary ct ?h cg)) ?counted)"
    unfolding after dtr_font_catalog_create_configured_def Let_def case_prod_beta
    by (auto split: option.splits sum.splits if_splits)
  moreover have ?thesis
    if cg: "initWithFamily ct name (the points) ?h policy variations requests = Some cg"
      and put: "after = put_catalog ?h (snd (fillSummary ct ?h cg)) ?counted" for name variations requests cg
  proof -
    note made = initWithFamily_ok [OF cg]
    note named = advancesD [OF fillSummary_advances [of ct cg ?h]]
    have "faces_ok ct (snd (fillSummary ct ?h cg))" "cg_generation (snd (fillSummary ct ?h cg)) = ?h"
      using named made by (auto simp: setup_of_def)
    from new [OF this] put show ?thesis by (simp add: put_catalog_def)
  qed
  ultimately show ?thesis using ok counted by auto
qed

lemma release_later:
  "catalogs_ok ct fc \<Longrightarrow> catalogs_ok ct (snd (dtr_font_catalog_release h fc)) \<and> later fc (snd (dtr_font_catalog_release h fc))"
  by (auto simp: dtr_font_catalog_release_def catalogs_ok_def later_def split: option.split if_splits)

lemma resolve_later:
  assumes ok: "catalogs_ok ct fc"
  shows "catalogs_ok ct (snd (dtr_font_catalog_resolve ct h style chars len out fc)) \<and>
    later fc (snd (dtr_font_catalog_resolve ct h style chars len out fc))"
proof -
  let ?after = "snd (dtr_font_catalog_resolve ct h style chars len out fc)"
  have "?after = fc \<or> (\<exists>cg units requested runs. FontCatalogForHandle h fc = Some cg \<and>
      (let counted = snd (attributedStringForText ct units style DTR_SHAPE_FEATURE_LIGATURES True cg)
       in ?after = put_catalog h counted fc \<or>
          ?after = put_catalog h (snd (resolve_runs ct units style requested runs counted)) fc))"
    unfolding dtr_font_catalog_resolve_def case_prod_beta Let_def
    by (auto split: option.split)
  then show ?thesis
    using put_later [OF ok] ok attributedStringForText_advances [of ct]
      advances_trans [OF attributedStringForText_advances resolve_runs_advances [of ct]]
    by (auto simp: Let_def)
qed

lemma shape_later:
  assumes ok: "catalogs_ok ct fc"
  shows "catalogs_ok ct (snd (dtr_font_catalog_shape ct memory h style features chars len out capacity required fc)) \<and>
    later fc (snd (dtr_font_catalog_shape ct memory h style features chars len out capacity required fc))"
proof -
  let ?after = "snd (dtr_font_catalog_shape ct memory h style features chars len out capacity required fc)"
  have "?after = fc \<or> (\<exists>cg units requested runs. FontCatalogForHandle h fc = Some cg \<and>
      (let counted = snd (attributedStringForText ct units style features out cg)
       in ?after = put_catalog h counted fc \<or>
          ?after = put_catalog h
            (snd (shape_runs ct memory style features len units out capacity requested runs counted)) fc))"
    unfolding dtr_font_catalog_shape_def case_prod_beta Let_def
    by (auto split: option.split)
  then show ?thesis
    using put_later [OF ok] ok attributedStringForText_advances [of ct]
      advances_trans [OF attributedStringForText_advances shape_runs_advances [of ct]]
    by (auto simp: Let_def)
qed

text \<open>How many calls of a history make a catalog: what counts against the 64 bits of the handles.\<close>

fun creates :: "font_call \<Rightarrow> bool" where
  "creates (Create_catalog family len points policy config out) \<longleftrightarrow> True"
| "creates _ \<longleftrightarrow> False"

definition creations :: "font_call list \<Rightarrow> nat" where
  "creations calls = length (filter creates calls)"

lemma creations_simps [simp]:
  "creations [] = 0"
  "creations (call # calls) = (if creates call then Suc (creations calls) else creations calls)"
  "creations (calls @ later_calls) = creations calls + creations later_calls"
  by (simp_all add: creations_def)

lemma step_later:
  assumes ok: "catalogs_ok ct fc" and room: "creates call \<Longrightarrow> fc_next_handle fc < UINT64_MAX"
  shows "catalogs_ok ct (font_step ct call fc) \<and> later fc (font_step ct call fc)"
    "fc_next_handle (font_step ct call fc) = fc_next_handle fc \<or>
       creates call \<and> fc_next_handle (font_step ct call fc) = fc_next_handle fc + 1"
proof -
  have made: "catalogs_ok ct (font_step ct call fc) \<and> later fc (font_step ct call fc) \<and>
      (fc_next_handle (font_step ct call fc) = fc_next_handle fc \<or>
       fc_next_handle (font_step ct call fc) = fc_next_handle fc + 1)" if "creates call"
    using create_later [OF ok room [OF that] refl] that by (cases call) simp_all
  show "catalogs_ok ct (font_step ct call fc) \<and> later fc (font_step ct call fc)"
    using made release_later [OF ok] resolve_later [OF ok] shape_later [OF ok] by (cases call) simp_all
  show "fc_next_handle (font_step ct call fc) = fc_next_handle fc \<or>
      creates call \<and> fc_next_handle (font_step ct call fc) = fc_next_handle fc + 1"
    using made by (cases call) (simp_all add: dtr_font_catalog_release_def dtr_font_catalog_resolve_def
        dtr_font_catalog_shape_def case_prod_beta put_catalog_def split: option.split)
qed

lemma history_later:
  "catalogs_ok ct fc \<Longrightarrow> unat (fc_next_handle fc) + creations calls < 2 ^ 64 \<Longrightarrow>
    catalogs_ok ct (font_history ct calls fc) \<and> later fc (font_history ct calls fc) \<and>
    unat (fc_next_handle (font_history ct calls fc)) \<le> unat (fc_next_handle fc) + creations calls"
proof (induction calls arbitrary: fc)
  case Nil
  then show ?case by (simp add: font_history_def)
next
  case (Cons call calls)
  let ?mid = "font_step ct call fc"
  have room: "fc_next_handle fc < UINT64_MAX" if "creates call"
    using Cons.prems(2) that by (simp add: word_less_nat_alt largest_u64)
  note mid = step_later(1) [of ct fc call, OF Cons.prems(1) room]
  have "unat (h + 1) \<le> unat h + 1" for h :: u64 by (simp add: unat_word_ariths)
  then have "unat (fc_next_handle ?mid) \<le> unat (fc_next_handle fc) + creations [call]"
    using step_later(2) [of ct fc call, OF Cons.prems(1) room] by auto
  with Cons.IH [of ?mid] mid Cons.prems(2) later_trans [of fc ?mid]
  show ?case by (auto simp: font_history_def split: if_splits)
qed

section \<open>Identifiers\<close>

lemma histories:
  assumes len: "creations calls + creations later_calls < 2 ^ 64 - 1"
    and before: "FontCatalogForHandle h (font_history ct calls initial_catalogs) = Some cg"
    and after: "FontCatalogForHandle h (font_history ct (calls @ later_calls) initial_catalogs) = Some cg'"
  shows "faces_ok ct cg" "faces_ok ct cg'" "grown cg cg'" "setup_of cg' = setup_of cg" "cg_generation cg' = h"
proof -
  let ?mid = "font_history ct calls initial_catalogs"
  from history_later [OF initial_catalogs_ok, of calls ct] len
  have mid: "catalogs_ok ct ?mid" "unat (fc_next_handle ?mid) \<le> 1 + creations calls" by simp_all
  have split: "font_history ct (calls @ later_calls) initial_catalogs = font_history ct later_calls ?mid"
    by (simp add: font_history_def)
  from history_later [OF mid(1), of later_calls] mid(2) len
  have last: "catalogs_ok ct (font_history ct later_calls ?mid)" "later ?mid (font_history ct later_calls ?mid)" by simp_all
  have reg: "fc_registry ?mid h = Some cg" "fc_registry (font_history ct later_calls ?mid) h = Some cg'"
    using before after unfolding split by (simp_all add: FontCatalogForHandle_def split: if_splits)
  show "faces_ok ct cg" using mid(1) reg(1) by (simp add: catalogs_ok_def)
  show "faces_ok ct cg'" "cg_generation cg' = h" using last(1) reg(2) by (simp_all add: catalogs_ok_def)
  have "h < fc_next_handle ?mid" using mid(1) reg(1) by (simp add: catalogs_ok_def)
  with last(2) reg show "grown cg cg'" "setup_of cg' = setup_of cg" unfolding later_def by fastforce+
qed

text \<open>
  C27. The identifiers of faces are stable, as long as there are enough of them. Whatever calls are
  made, fewer than \<open>2 ^ 64 - 1\<close> of which create a catalog: the handle of a catalog is its generation
  as long as it is registered, and an identity once known keeps its identifier. If at the later time
  the catalog has no more than \<open>2 ^ 32 - 1\<close> different faces registered in it, then an identifier
  that named a font at some time names the same font at the later time, and that font still gets the
  same identifier; no identifier is 0, and two identifiers name fonts that differ in their PostScript
  names or variations.
\<close>

theorem face_ids_stable:
  assumes "creations calls + creations later_calls < 2 ^ 64 - 1"
    and "FontCatalogForHandle h (font_history ct calls initial_catalogs) = Some cg"
    and "FontCatalogForHandle h (font_history ct (calls @ later_calls) initial_catalogs) = Some cg'"
  shows "cg_generation cg' = h \<and> cg_faceIds cg \<subseteq>\<^sub>m cg_faceIds cg' \<and>
    (card (dom (cg_faceIds cg')) \<le> 2 ^ 32 - 1 \<longrightarrow>
       (\<forall>i font. fontForFaceId i cg = Some font \<longrightarrow>
          i \<noteq> 0 \<and> fontForFaceId i cg' = Some font \<and> faceIdForFont ct font cg' = (i, cg')) \<and>
       (\<forall>i j f g. fontForFaceId i cg' = Some f \<and> fontForFaceId j cg' = Some g \<and>
          FontIdentityKey ct f = FontIdentityKey ct g \<longrightarrow> i = j))"
proof (intro conjI impI allI)
  note h = histories [OF assms]
  show "cg_generation cg' = h" by (rule h(5))
  show "cg_faceIds cg \<subseteq>\<^sub>m cg_faceIds cg'" using h(3) by (simp add: grown_def)
  assume "card (dom (cg_faceIds cg')) \<le> 2 ^ 32 - 1"
  then have few': "few_faces cg'" by (simp add: few_faces_def)
  with h(3) have few: "few_faces cg" and fonts: "cg_fontsByFaceId cg \<subseteq>\<^sub>m cg_fontsByFaceId cg'"
    by (simp_all add: grown_def)
  {
    fix i font assume "fontForFaceId i cg = Some font"
    then have i: "cg_fontsByFaceId cg i = Some font" by (simp add: fontForFaceId_def)
    then show "i \<noteq> 0" using faces_okD [OF h(1) few] by blast
    have font: "cg_fontsByFaceId cg' i = Some font" using fonts i by (auto simp: map_le_def dom_def)
    then show "fontForFaceId i cg' = Some font" by (simp add: fontForFaceId_def)
    show "faceIdForFont ct font cg' = (i, cg')"
      using faces_okD(2) [OF h(2) few' font] by (simp add: faceIdForFont_def)
  }
  fix i j f g
  assume "fontForFaceId i cg' = Some f \<and> fontForFaceId j cg' = Some g \<and> FontIdentityKey ct f = FontIdentityKey ct g"
  then show "i = j" using faces_okD(2) [OF h(2) few'] unfolding fontForFaceId_def by (metis option.inject)
qed

definition sample_calls :: "font_call list" where
  "sample_calls = [Create_catalog None 0 (Some 12) 0 (Some plain_config) (Some (152, 1))]"

lemma sample_history: "font_history sample_services sample_calls initial_catalogs = sample_catalogs"
  by (simp add: font_history_def sample_calls_def sample_catalogs_def dtr_font_catalog_create_def)

definition sample_attributes :: "bool attributes" where
  "sample_attributes = \<lparr>at_font = False, at_source = 0, at_requested_name = [77], at_synthetic = False\<rparr>"

lemma sample_line: "ct_line sample_services a = Some [sample_font_run a]"
  by (simp add: sample_services_def)

lemma sample_decoded: "DecodeUtf8 (ct_decode sample_services) (Some [65]) 1 False = Some [65]"
proof -
  have "of_ascii [65] = Some [65]" by (simp add: of_ascii_def)
  then show ?thesis by (simp add: DecodeUtf8_def sample_services_def)
qed

lemma sample_style: "fontForStyle 0 sample_catalog = Some (False, False)"
  by (simp add: fontForStyle_def font_for_style_def sample_catalog_facts style_bit_def)

lemma sample_attributed:
  "fst (attributedStringForText sample_services [65] 0 features out sample_catalog) =
     Some \<lparr>as_text = [65], as_ligatures = features AND DTR_SHAPE_FEATURE_LIGATURES \<noteq> 0,
       as_attributes = [sample_attributes]\<rparr>"
  "cg_faceIds (snd (attributedStringForText sample_services [65] 0 features out sample_catalog)) = [[77] \<mapsto> 1]"
  by (simp_all add: attributedStringForText_def sample_style attribute_scalar_def select_override_def sample_catalog_facts
      sample_attributes_def sample_key Let_def split: option.split prod.split)

lemma sample_resolved:
  "\<exists>cg'. FontCatalogForHandle 1 (font_history sample_services (sample_calls @ [Resolve_font 1 0 (Some [65]) 1 (Some (192, 1))])
     initial_catalogs) = Some cg' \<and> cg_faceIds cg' = [[77] \<mapsto> 1]"
proof -
  let ?call = "Resolve_font 1 0 (Some [65]) 1 (Some (192, 1))"
  have history: "font_history sample_services (sample_calls @ [?call]) initial_catalogs =
      font_step sample_services ?call sample_catalogs"
    using sample_history by (simp add: font_history_def)
  have answer: "cg_faceIds (snd (resolve_runs sample_services units 0 False
      [sample_font_run \<lparr>as_text = [65], as_ligatures = l, as_attributes = [sample_attributes]\<rparr>] cg)) = [[77] \<mapsto> 1]"
    if "cg_faceIds cg = [[77] \<mapsto> 1]" for units l cg
    using that by (simp add: resolve_runs_def recordLine_def record_run_def faceIdForFont_def sample_font_run_def
        sample_attributes_def Let_def sample_key split: option.split prod.split)
  show ?thesis
    unfolding history
    by (simp add: dtr_font_catalog_resolve_def case_prod_beta FontCatalogForHandle_def sample_catalog_facts
        put_catalog_def sample_attributed answer sample_line sample_style sample_decoded split: option.split)
qed

lemma face_ids_stable_witness:
  "\<exists>cg'. FontCatalogForHandle 1 (font_history sample_services (sample_calls @ [Resolve_font 1 0 (Some [65]) 1 (Some (192, 1))])
       initial_catalogs) = Some cg' \<and> fontForFaceId 1 cg' = Some False"
proof -
  obtain cg' where cg': "FontCatalogForHandle 1 (font_history sample_services
      (sample_calls @ [Resolve_font 1 0 (Some [65]) 1 (Some (192, 1))]) initial_catalogs) = Some cg'" "cg_faceIds cg' = [[77] \<mapsto> 1]"
    using sample_resolved by blast
  have "FontCatalogForHandle 1 (font_history sample_services sample_calls initial_catalogs) = Some sample_catalog"
    by (simp add: sample_history sample_catalog_facts)
  from face_ids_stable [OF _ this cg'(1)] cg'
  show ?thesis by (simp add: sample_calls_def fontForFaceId_def sample_catalog_facts)
qed

end
