(* ===== verification/Dtr_Glyphs_Inv.thy ===== *)
theory Dtr_Glyphs_Inv
  imports Dtr_Raster_Spec Dtr_Fonts_Inv
begin

text \<open>
  The two passes that make a packet of a shaped text: where the clusters of the text end, what the
  first pass finds out of runs and faces, and that the second pass then cannot fail, so that the
  sizes alone decide the answer.
\<close>

section \<open>Clusters\<close>

definition marks :: "'f run \<Rightarrow> nat \<Rightarrow> bool" where
  "marks run j \<longleftrightarrow> j = nat (rn_location run) \<or> j = nat (rn_location run + rn_length run) \<or>
     (\<exists>g \<in> set (rn_glyphs run). j = nat (gl_index g))"

definition boundary :: "nat \<Rightarrow> 'f run list \<Rightarrow> nat \<Rightarrow> bool" where
  "boundary n runs j \<longleftrightarrow> j = n \<or> (\<exists>run \<in> set runs. marks run j)"

lemma nth_mark: "j < length c \<Longrightarrow> c[i := True] ! j \<longleftrightarrow> c ! j \<or> j = i"
  by (cases "i = j") auto

lemma fold_marks:
  "length (fold (\<lambda>g c. c[f g := True]) gs c) = length c"
  "j < length c \<Longrightarrow> fold (\<lambda>g c. c[f g := True]) gs c ! j \<longleftrightarrow> c ! j \<or> (\<exists>g \<in> set gs. j = f g)"
  by (induction gs arbitrary: c) (auto simp: nth_mark)

lemma mark_run_nth:
  "length (mark_run run c) = length c" "j < length c \<Longrightarrow> mark_run run c ! j \<longleftrightarrow> c ! j \<or> marks run j"
  by (auto simp: mark_run_def fold_marks [where f = "\<lambda>g. nat (gl_index g)"] marks_def nth_mark)

lemma cluster_boundaries_nth:
  "length (cluster_boundaries n runs) = n + 1" "j \<le> n \<Longrightarrow> cluster_boundaries n runs ! j \<longleftrightarrow> boundary n runs j"
proof -
  have "length (fold mark_run runs c) = length c \<and>
      (j < length c \<longrightarrow> (fold mark_run runs c ! j \<longleftrightarrow> c ! j \<or> (\<exists>run \<in> set runs. marks run j)))" for c
    by (induction runs arbitrary: c) (auto simp: mark_run_nth)
  from this [of "(replicate (n + 1) False)[n := True]"]
  show "length (cluster_boundaries n runs) = n + 1" "j \<le> n \<Longrightarrow> cluster_boundaries n runs ! j \<longleftrightarrow> boundary n runs j"
    by (auto simp: cluster_boundaries_def boundary_def nth_mark simp del: replicate.simps replicate_Suc)
qed

text \<open>The first boundary from an index on.\<close>

definition first_from :: "nat \<Rightarrow> bool list \<Rightarrow> nat \<Rightarrow> nat \<Rightarrow> bool" where
  "first_from n cluster i j \<longleftrightarrow> i \<le> j \<and> j \<le> n \<and> (j = n \<or> cluster ! j) \<and> (\<forall>m. i \<le> m \<and> m < j \<longrightarrow> \<not> cluster ! m)"

lemma first_from_step:
  "first_from n cluster (Suc i) j \<Longrightarrow> i \<le> n \<Longrightarrow> first_from n cluster i (if cluster ! i then i else j)"
  by (auto simp: first_from_def not_less_eq_eq [symmetric] dest: le_neq_implies_less)

lemma fill_next_nth:
  "idx \<le> n \<Longrightarrow> first_from n cluster idx nb \<Longrightarrow>
   (\<And>i. idx \<le> i \<Longrightarrow> i < n \<Longrightarrow> first_from n cluster (Suc i) (filled ! (i - idx))) \<Longrightarrow>
   i < n \<Longrightarrow> first_from n cluster (Suc i) (fill_next idx nb cluster filled ! i)"
proof (induction idx arbitrary: nb filled)
  case (Suc idx)
  have "first_from n cluster (Suc i) ((nb # filled) ! (i - idx))" if "idx \<le> i" "i < n" for i
    using that Suc.prems(2,3) by (cases "i = idx") (auto simp: nth_Cons' Suc_diff_Suc)
  with Suc.IH [OF _ first_from_step [OF Suc.prems(2)]] Suc.prems(1,4) show ?case by simp
qed simp

lemma next_boundaries_nth:
  assumes "i < n"
  shows "first_from n (cluster_boundaries n runs) (Suc i) (next_boundaries n (cluster_boundaries n runs) ! i)"
  unfolding next_boundaries_def
  by (rule fill_next_nth) (use assms in \<open>auto simp: first_from_def\<close>)

section \<open>The first pass\<close>

text \<open>What a run fulfils that has passed the checks, with its font and the encoded name of it.\<close>

definition run_checked :: "('f, 'm) coretext_scheme \<Rightarrow> nat \<Rightarrow> 'f run \<Rightarrow> bool" where
  "run_checked ct n run \<longleftrightarrow> rn_glyphs run \<noteq> [] \<and> 0 \<le> rn_location run \<and> 0 < rn_length run \<and>
     rn_location run + rn_length run \<le> int n \<and>
     (\<forall>g \<in> set (rn_glyphs run). rn_location run \<le> gl_index g \<and> gl_index g < rn_location run + rn_length run) \<and>
     (\<exists>font name. rn_font run = Some font \<and> ct_encode ct (PostScriptName ct font) = Some name \<and>
        name \<noteq> [] \<and> length name \<le> DTR_MAX_POSTSCRIPT_NAME_BYTES)"

lemma check_run_ok:
  "check_run ct n glyphs run = Inr (font, name) \<Longrightarrow>
   run_checked ct n run \<and> rn_font run = Some font \<and> ct_encode ct (PostScriptName ct font) = Some name"
  by (auto simp: check_run_def run_checked_def run_out_of_bounds_def run_glyph_invalid_def list_ex_iff
      split: if_splits option.splits)

lemma fill_glyph_at:
  assumes run: "run \<in> set runs" "run_checked ct n run" and g: "g \<in> set (rn_glyphs run)"
  defines "boundaries \<equiv> next_boundaries n (cluster_boundaries n runs)"
  shows "fill_glyph boundaries (nat (rn_location run + rn_length run)) face k g =
      Some \<lparr>sg_glyph_id = ucast (gl_glyph g), sg_face_id = face, sg_run_index = of_nat k,
        sg_flags = (if gl_glyph g = 0 then DTR_SHAPED_GLYPH_MISSING else 0), sg_utf16_start = of_nat (nat (gl_index g)),
        sg_utf16_length = of_nat (boundaries ! nat (gl_index g) - nat (gl_index g)),
        sg_position_x = gl_x g, sg_position_y = gl_y g, sg_advance = gl_advance g\<rparr>"
    and "nat (gl_index g) < n"
    and "boundaries ! nat (gl_index g) \<le> nat (rn_location run + rn_length run)"
proof -
  let ?stop = "nat (rn_location run + rn_length run)" and ?i = "nat (gl_index g)"
  have i: "?i < ?stop" "?stop \<le> n" using run(2) g by (auto simp: run_checked_def)
  then show n: "?i < n" by (rule less_le_trans)
  have first: "first_from n (cluster_boundaries n runs) (Suc ?i) (boundaries ! ?i)"
    unfolding boundaries_def by (rule next_boundaries_nth [OF n])
  have "cluster_boundaries n runs ! ?stop"
    using run(1) i by (auto simp: cluster_boundaries_nth boundary_def marks_def)
  with first i show le: "boundaries ! ?i \<le> ?stop" unfolding first_from_def by (meson Suc_leI not_le)
  moreover have "?i < boundaries ! ?i" using first by (simp add: first_from_def)
  ultimately show "fill_glyph boundaries ?stop face k g =
      Some \<lparr>sg_glyph_id = ucast (gl_glyph g), sg_face_id = face, sg_run_index = of_nat k,
        sg_flags = (if gl_glyph g = 0 then DTR_SHAPED_GLYPH_MISSING else 0), sg_utf16_start = of_nat ?i,
        sg_utf16_length = of_nat (boundaries ! ?i - ?i),
        sg_position_x = gl_x g, sg_position_y = gl_y g, sg_advance = gl_advance g\<rparr>"
    by (simp add: fill_glyph_def Let_def)
qed

text \<open>Looking an identifier up only adds to the table, and the same look-up later finds it.\<close>

lemma faceIdForFont_adds:
  "cg_faceIds cg \<subseteq>\<^sub>m cg_faceIds (snd (faceIdForFont ct font cg))"
  "cg_faceIds (snd (faceIdForFont ct font cg)) (FontIdentityKey ct font) = Some (fst (faceIdForFont ct font cg))"
  "setup_of (snd (faceIdForFont ct font cg)) = setup_of cg"
  by (auto simp: faceIdForFont_def Let_def map_le_def setup_of_def split: option.split)

lemma faceIdForFont_known:
  "cg_faceIds cg (FontIdentityKey ct font) = Some i \<Longrightarrow> faceIdForFont ct font cg = (i, cg)"
  by (simp add: faceIdForFont_def)

lemma map_le_Some: "m \<subseteq>\<^sub>m m' \<Longrightarrow> m k = Some v \<Longrightarrow> m' k = Some v"
  by (auto simp: map_le_def dom_def)

text \<open>What is noted of a run: the identifier of its face, the flags, and the name.\<close>

definition run_face :: "('f, 'm) coretext_scheme \<Rightarrow> 'f catalog \<Rightarrow> 'f run \<Rightarrow> u32" where
  "run_face ct cg run = fst (faceIdForFont ct (the (rn_font run)) cg)"

definition noted :: "('f, 'm) coretext_scheme \<Rightarrow> 'f \<Rightarrow> 'f catalog \<Rightarrow> 'f run \<Rightarrow> u32 \<times> u32 \<times> byte list" where
  "noted ct requested cg run = (run_face ct cg run, run_flags ct requested (the (rn_font run)) run,
     the (ct_encode ct (PostScriptName ct (the (rn_font run)))))"

fun note_all :: "(u32 \<times> u32 \<times> byte list) list \<Rightarrow> DtrShapeFaceV1 list \<Rightarrow> DtrShapeFaceV1 list option" where
  "note_all [] faces = Some faces"
| "note_all ((face, flags, name) # rest) faces =
     (case note_face face flags name faces of None \<Rightarrow> None | Some faces' \<Rightarrow> note_all rest faces')"

definition run_registered :: "('f, 'm) coretext_scheme \<Rightarrow> 'f catalog \<Rightarrow> 'f run \<Rightarrow> bool" where
  "run_registered ct cg run \<longleftrightarrow>
     (\<exists>i. i \<noteq> 0 \<and> cg_faceIds cg (FontIdentityKey ct (the (rn_font run))) = Some i \<and> run_face ct cg run = i)"

lemma survey_sound:
  "survey_runs ct n requested runs glyphs faces cg = (Inr (glyphs', faces'), cg') \<Longrightarrow>
   glyphs' = glyphs + sum_list (map (\<lambda>run. length (rn_glyphs run)) runs) \<and> list_all (run_checked ct n) runs \<and>
   list_all (run_registered ct cg') runs \<and> note_all (map (noted ct requested cg') runs) faces = Some faces' \<and>
   cg_faceIds cg \<subseteq>\<^sub>m cg_faceIds cg' \<and> setup_of cg' = setup_of cg"
proof (induction runs arbitrary: glyphs faces cg)
  case (Cons run runs)
  from Cons.prems obtain font name where check: "check_run ct n glyphs run = Inr (font, name)"
    by (auto split: sum.splits)
  define named where "named = snd (faceIdForFont ct font cg)"
  define face where "face = fst (faceIdForFont ct font cg)"
  have call: "faceIdForFont ct font cg = (face, named)" by (simp add: face_def named_def)
  have step: "survey_runs ct n requested (run # runs) glyphs faces cg =
      (if face = 0 then (Inl DTR_STATUS_RESOURCE_EXHAUSTED, named)
       else case note_face face (run_flags ct requested font run) name faces of
         None \<Rightarrow> (Inl DTR_STATUS_RESOURCE_EXHAUSTED, named)
       | Some mid \<Rightarrow> survey_runs ct n requested runs (glyphs + length (rn_glyphs run)) mid named)"
    by (simp add: check call)
  from Cons.prems have face: "face \<noteq> 0" unfolding step by (cases "face = 0") simp_all
  obtain mid where mid: "note_face face (run_flags ct requested font run) name faces = Some mid"
    using Cons.prems unfolding step by (cases "note_face face (run_flags ct requested font run) name faces") (simp_all add: face)
  have rest: "survey_runs ct n requested runs (glyphs + length (rn_glyphs run)) mid named = (Inr (glyphs', faces'), cg')"
    using Cons.prems unfolding step by (simp add: face mid)
  note IH = Cons.IH [OF rest]
  note run = check_run_ok [OF check]
  note adds = faceIdForFont_adds [where cg = cg and ct = ct and font = font, folded named_def face_def]
  have key: "cg_faceIds cg' (FontIdentityKey ct font) = Some face"
    by (rule map_le_Some [where m = "cg_faceIds named"]) (use IH adds(2) in simp_all)
  then have found: "run_face ct cg' run = face" using run by (simp add: run_face_def faceIdForFont_known)
  have seen: "noted ct requested cg' run = (face, run_flags ct requested font run, name)"
    using run found by (simp add: noted_def)
  have registered: "run_registered ct cg' run" using key found face run by (simp add: run_registered_def)
  have le: "cg_faceIds cg \<subseteq>\<^sub>m cg_faceIds cg'"
    by (rule map_le_trans [OF adds(1)]) (simp add: IH)
  have same: "setup_of cg' = setup_of cg" using IH adds(3) by simp
  have all: "note_all (map (noted ct requested cg') (run # runs)) faces = Some faces'"
    using IH by (simp add: seen mid)
  show ?case
    using all IH run registered le same by (simp del: note_all.simps)
qed simp

section \<open>The faces\<close>

definition flags_of :: "u32 \<Rightarrow> (u32 \<times> u32 \<times> byte list) list \<Rightarrow> u32" where
  "flags_of face seen = fold (\<lambda>(i, flags, _) acc. if i = face then acc OR flags else acc) seen 0"

text \<open>The faces are those of the runs seen so far.\<close>

definition faces_of :: "(u32 \<times> u32 \<times> byte list) list \<Rightarrow> DtrShapeFaceV1 list \<Rightarrow> bool" where
  "faces_of seen faces \<longleftrightarrow> distinct (map sa_face_id faces) \<and> set (map sa_face_id faces) = fst ` set seen \<and>
     length faces \<le> DTR_MAX_SHAPE_FACES \<and>
     (\<forall>f \<in> set faces. sa_flags f = flags_of (sa_face_id f) seen \<and>
        (\<exists>flags. (sa_face_id f, flags, sa_postscript_name f) \<in> set seen))"

lemma note_face_faces_of:
  assumes "faces_of seen faces" "note_face face flags name faces = Some faces'"
  shows "faces_of (seen @ [(face, flags, name)]) faces'"
proof (cases "list_ex (has_face face) faces")
  case True
  then have known: "face \<in> set (map sa_face_id faces)" by (auto simp: list_ex_iff has_face_def)
  have faces': "faces' = map (\<lambda>f. if has_face face f then f\<lparr>sa_flags := sa_flags f OR flags\<rparr> else f) faces"
    using assms(2) True by (simp add: note_face_def)
  have ids: "map sa_face_id faces' = map sa_face_id faces" by (simp add: faces')
  have each: "sa_flags f' = flags_of (sa_face_id f') (seen @ [(face, flags, name)]) \<and>
      (\<exists>fl. (sa_face_id f', fl, sa_postscript_name f') \<in> set (seen @ [(face, flags, name)]))" if f': "f' \<in> set faces'" for f'
  proof -
    obtain f where f: "f \<in> set faces" "f' = (if has_face face f then f\<lparr>sa_flags := sa_flags f OR flags\<rparr> else f)"
      using f' by (auto simp: faces')
    with assms(1) have "sa_flags f = flags_of (sa_face_id f) seen"
      "\<exists>fl. (sa_face_id f, fl, sa_postscript_name f) \<in> set seen" unfolding faces_of_def by blast+
    with f(2) show ?thesis by (cases "has_face face f") (auto simp: flags_of_def has_face_def)
  qed
  have "set (map sa_face_id faces) = fst ` set (seen @ [(face, flags, name)])"
    using assms(1) known unfolding faces_of_def by auto
  moreover have "length faces' = length faces" by (simp add: faces')
  moreover have "distinct (map sa_face_id faces)" "length faces \<le> DTR_MAX_SHAPE_FACES"
    using assms(1) by (simp_all add: faces_of_def)
  ultimately show ?thesis unfolding faces_of_def ids using each by auto
next
  case False
  then have new: "face \<notin> set (map sa_face_id faces)" by (auto simp: list_ex_iff has_face_def)
  have faces': "faces' = faces @ [\<lparr>sa_face_id = face, sa_flags = flags, sa_postscript_name = name\<rparr>]"
      "length faces < DTR_MAX_SHAPE_FACES"
    using assms(2) False by (auto simp: note_face_def split: if_splits)
  have none: "fold (\<lambda>(i, flags, _) acc. if i = face then acc OR flags else acc) xs acc = acc"
    if "face \<notin> fst ` set xs" for xs :: "(u32 \<times> u32 \<times> byte list) list" and acc
    using that by (induction xs arbitrary: acc) auto
  then have "flags_of face seen = 0" using new assms(1) by (simp add: flags_of_def faces_of_def)
  then show ?thesis
    using assms(1) new faces'(2) by (auto simp: faces_of_def faces'(1) flags_of_def)
qed

lemma note_all_faces_of:
  "note_all rest faces = Some faces' \<Longrightarrow> faces_of seen faces \<Longrightarrow> faces_of (seen @ rest) faces'"
proof (induction rest faces arbitrary: seen rule: note_all.induct)
  case (2 face flags name rest faces)
  from "2.prems"(1) obtain mid where mid: "note_face face flags name faces = Some mid" "note_all rest mid = Some faces'"
    by (auto split: option.splits)
  from "2.IH" [OF mid note_face_faces_of [OF "2.prems"(2) mid(1)]] show ?case by simp
qed simp

section \<open>The second pass\<close>

definition glyphs_before :: "'f run list \<Rightarrow> nat \<Rightarrow> nat" where
  "glyphs_before runs k = sum_list (map (\<lambda>run. length (rn_glyphs run)) (take k runs))"

definition shaped_glyph :: "nat list \<Rightarrow> u32 \<Rightarrow> nat \<Rightarrow> glyph \<Rightarrow> DtrShapeGlyphV1" where
  "shaped_glyph boundaries face k g = \<lparr>sg_glyph_id = ucast (gl_glyph g), sg_face_id = face, sg_run_index = of_nat k,
     sg_flags = (if gl_glyph g = 0 then DTR_SHAPED_GLYPH_MISSING else 0), sg_utf16_start = of_nat (nat (gl_index g)),
     sg_utf16_length = of_nat (boundaries ! nat (gl_index g) - nat (gl_index g)),
     sg_position_x = gl_x g, sg_position_y = gl_y g, sg_advance = gl_advance g\<rparr>"

definition run_records :: "('f, 'm) coretext_scheme \<Rightarrow> 'f \<Rightarrow> 'f catalog \<Rightarrow> nat \<Rightarrow> 'f run list \<Rightarrow> DtrShapeRunV1 list" where
  "run_records ct requested cg start runs =
     map (\<lambda>k. fill_run ct requested cg (start + glyphs_before runs k) (runs ! k)) [0..<length runs]"

definition glyph_records ::
  "('f, 'm) coretext_scheme \<Rightarrow> 'f catalog \<Rightarrow> nat list \<Rightarrow> nat \<Rightarrow> 'f run list \<Rightarrow> DtrShapeGlyphV1 list list" where
  "glyph_records ct cg boundaries index runs =
     map (\<lambda>k. map (shaped_glyph boundaries (run_face ct cg (runs ! k)) (index + k)) (rn_glyphs (runs ! k))) [0..<length runs]"

lemma fill_glyphs_eq:
  "\<forall>g \<in> set gs. fill_glyph boundaries run_end face k g = Some (shaped_glyph boundaries face k g) \<Longrightarrow>
   fill_glyphs boundaries run_end face k gs = Some (map (shaped_glyph boundaries face k) gs)"
  by (induction gs) auto

lemma upt_0_Suc: "[0..<Suc n] = 0 # map Suc [0..<n]"
  by (simp add: map_Suc_upt upt_conv_Cons del: upt_Suc)

lemma fill_runs_eq:
  "\<forall>run \<in> set runs. \<forall>g \<in> set (rn_glyphs run). \<forall>face k.
     fill_glyph boundaries (nat (rn_location run + rn_length run)) face k g = Some (shaped_glyph boundaries face k g) \<Longrightarrow>
   fill_runs ct requested cg boundaries index start runs =
     Some (run_records ct requested cg start runs, concat (glyph_records ct cg boundaries index runs))"
proof (induction runs arbitrary: index start)
  case Nil
  show ?case by (simp add: run_records_def glyph_records_def)
next
  case (Cons run runs)
  have "fill_glyphs boundaries (nat (rn_location run + rn_length run)) (run_face ct cg run) index (rn_glyphs run) =
      Some (map (shaped_glyph boundaries (run_face ct cg run) index) (rn_glyphs run))"
    using Cons.prems by (intro fill_glyphs_eq) simp
  then show ?case
    using Cons.IH [of "index + 1" "start + length (rn_glyphs run)"] Cons.prems
    by (simp add: run_records_def glyph_records_def upt_0_Suc comp_def glyphs_before_def add.assoc run_face_def
        del: upt_Suc)
qed

definition shape_packet ::
  "('f, 'm) coretext_scheme \<Rightarrow> 'f \<Rightarrow> 'f catalog \<Rightarrow> u32 \<Rightarrow> u32 \<Rightarrow> u32 \<Rightarrow> nsstring \<Rightarrow> 'f run list \<Rightarrow>
    DtrShapeFaceV1 list \<Rightarrow> byte list" where
  "shape_packet ct requested cg style features len units runs faces =
     write_shape_header (shape_header cg style features len units (length runs) (length faces)
       (glyphs_before runs (length runs))) @
     concat (map write_shape_run (run_records ct requested cg 0 runs)) @ concat (map write_shape_face faces) @
     concat (map write_shape_glyph (concat (glyph_records ct cg
       (next_boundaries (length units) (cluster_boundaries (length units) runs)) 0 runs)))"

text \<open>After a first pass that succeeds, the sizes alone decide the answer.\<close>

definition shape_answer :: "bool \<Rightarrow> bool \<Rightarrow> u32 \<Rightarrow> nat \<Rightarrow> byte list \<Rightarrow> packed" where
  "shape_answer memory out capacity required packet =
     (if DTR_MAX_SHAPE_OUTPUT_BYTES < required then refused DTR_STATUS_RESOURCE_EXHAUSTED
      else if \<not> out \<or> unat capacity < required
      then \<lparr>pk_status = DTR_STATUS_BUFFER_TOO_SMALL, pk_required = Some required, pk_bytes = None\<rparr>
      else if \<not> memory
      then \<lparr>pk_status = DTR_STATUS_RESOURCE_EXHAUSTED, pk_required = Some required, pk_bytes = None\<rparr>
      else \<lparr>pk_status = DTR_STATUS_OK, pk_required = Some required, pk_bytes = Some packet\<rparr>)"

lemma glyph_count: "length (concat (glyph_records ct cg boundaries index runs)) = glyphs_before runs (length runs)"
proof -
  have "map (\<lambda>k. length (rn_glyphs (runs ! k))) [0..<length runs] = map (\<lambda>run. length (rn_glyphs run)) runs"
    by (rule nth_equalityI) simp_all
  then show ?thesis by (simp add: glyph_records_def glyphs_before_def length_concat comp_def)
qed

lemma shape_runs_answer:
  assumes runs: "runs \<noteq> []" "length runs \<le> DTR_MAX_SHAPE_RUNS"
    and survey: "survey_runs ct (length units) requested runs 0 [] cg = (Inr (glyphs, faces), named)"
  shows "fst (shape_runs ct memory style features len units out capacity requested runs cg) =
      shape_answer memory out capacity (shape_size (length runs) (length faces) glyphs)
        (shape_packet ct requested named style features len units runs faces)"
    and "glyphs = glyphs_before runs (length runs)"
proof -
  note sound = survey_sound [OF survey]
  let ?b = "next_boundaries (length units) (cluster_boundaries (length units) runs)"
  show glyphs: "glyphs = glyphs_before runs (length runs)" using sound by (simp add: glyphs_before_def)
  have "rn_glyphs (hd runs) \<noteq> []" using sound runs(1) by (cases runs) (simp_all add: run_checked_def)
  then have pos: "glyphs \<noteq> 0" using sound runs(1) by (cases runs) auto
  have "fill_glyph ?b (nat (rn_location run + rn_length run)) face k g = Some (shaped_glyph ?b face k g)"
    if "run \<in> set runs" "g \<in> set (rn_glyphs run)" for run g face k
    unfolding shaped_glyph_def using that sound by (intro fill_glyph_at) (auto simp: list_all_iff)
  then have fill: "fill_runs ct requested named ?b 0 0 runs =
      Some (run_records ct requested named 0 runs, concat (glyph_records ct named ?b 0 runs))"
    by (intro fill_runs_eq) blast
  show "fst (shape_runs ct memory style features len units out capacity requested runs cg) =
      shape_answer memory out capacity (shape_size (length runs) (length faces) glyphs)
        (shape_packet ct requested named style features len units runs faces)"
    using runs pos
    by (simp add: shape_runs_def survey fill Let_def shape_answer_def shape_packet_def glyph_count glyphs [symmetric]
        largest_u32)
qed

end
