(* ===== verification/Dtr_Glyphs_Spec.thy ===== *)
theory Dtr_Glyphs_Spec
  imports Dtr_Glyphs_Inv
begin

text \<open>
  What a packet of a shaped text holds: the runs and glyphs that CoreText made, the cluster of the
  text that each glyph stands for, and the faces that the runs use. A call with the size that an
  earlier call reported does not fail.
\<close>

section \<open>A call\<close>

text \<open>How a call gets to the runs of a line.\<close>

definition laid_out ::
  "('f, 'm) line_services_scheme \<Rightarrow> u64 \<Rightarrow> u32 \<Rightarrow> u32 \<Rightarrow> cstring \<Rightarrow> u32 \<Rightarrow> bool \<Rightarrow> 'f catalogs \<Rightarrow> nsstring \<Rightarrow>
    'f catalog \<Rightarrow> 'f \<Rightarrow> 'f run list \<Rightarrow> 'f catalog \<Rightarrow> bool" where
  "laid_out ct h style features chars len out fc units cg requested runs counted \<longleftrightarrow>
     \<not> shape_arguments_rejected style features len \<and> DecodeUtf8 (ct_decode ct) chars len False = Some units \<and>
     units \<noteq> [] \<and> length units \<le> unat UINT32_MAX \<and> FontCatalogForHandle h fc = Some cg \<and>
     (\<exists>synthetic. fontForStyle style cg = Some (requested, synthetic)) \<and>
     (\<exists>attributed. attributedStringForText ct units style features out cg = (Some attributed, counted) \<and>
        ct_line ct attributed = Some runs)"

definition answered :: "packed \<Rightarrow> bool" where
  "answered answer \<longleftrightarrow> pk_status answer = DTR_STATUS_OK \<or> pk_status answer = DTR_STATUS_BUFFER_TOO_SMALL"

lemma shape_laid_out:
  "laid_out ct h style features chars len out fc units cg requested runs counted \<Longrightarrow> required \<Longrightarrow> out \<or> capacity = 0 \<Longrightarrow>
   dtr_font_catalog_shape ct memory h style features chars len out capacity required fc =
     map_prod id (\<lambda>shaped. put_catalog h shaped fc)
       (shape_runs ct memory style features len units out capacity requested runs counted)"
  by (auto simp: laid_out_def dtr_font_catalog_shape_def case_prod_beta map_prod_def)

lemma laid_out_exists:
  assumes "answered (fst (dtr_font_catalog_shape ct memory h style features chars len out capacity required fc))"
  shows "required \<and> (out \<or> capacity = 0) \<and>
    (\<exists>units cg requested runs counted. laid_out ct h style features chars len out fc units cg requested runs counted)"
  using assms
  by (auto simp: answered_def dtr_font_catalog_shape_def refused_def laid_out_def split: if_splits option.splits prod.splits)

lemma survey_fails:
  "fst (survey_runs ct n requested runs glyphs faces cg) = Inl status \<Longrightarrow>
   status = DTR_STATUS_RESOURCE_EXHAUSTED \<or> status = DTR_STATUS_INTERNAL"
proof (induction runs arbitrary: glyphs faces cg)
  case (Cons run runs)
  have check: "status = DTR_STATUS_RESOURCE_EXHAUSTED \<or> status = DTR_STATUS_INTERNAL"
    if "check_run ct n glyphs run = Inl status" for status
    using that by (auto simp: check_run_def split: if_splits option.splits)
  from Cons show ?case by (auto dest: check split: sum.splits prod.splits if_splits option.splits)
qed simp

lemma survey_exists:
  assumes "answered (fst (shape_runs ct memory style features len units out capacity requested runs cg))"
  shows "runs \<noteq> [] \<and> length runs \<le> DTR_MAX_SHAPE_RUNS \<and>
    (\<exists>glyphs faces named. survey_runs ct (length units) requested runs 0 [] cg = (Inr (glyphs, faces), named))"
  using assms survey_fails [of ct "length units" requested runs 0 "[]" cg]
  by (auto simp: answered_def shape_runs_def refused_def split: if_splits sum.splits prod.splits)

lemma shape_answered:
  assumes "answered (fst (dtr_font_catalog_shape ct memory h style features chars len out capacity True fc))"
  obtains units cg requested runs counted faces named where
    "out \<or> capacity = 0" "laid_out ct h style features chars len out fc units cg requested runs counted"
    "runs \<noteq> []" "length runs \<le> DTR_MAX_SHAPE_RUNS"
    "survey_runs ct (length units) requested runs 0 [] counted = (Inr (glyphs_before runs (length runs), faces), named)"
    "fst (dtr_font_catalog_shape ct memory h style features chars len out capacity True fc) =
       shape_answer memory out capacity (shape_size (length runs) (length faces) (glyphs_before runs (length runs)))
         (shape_packet ct requested named style features len units runs faces)"
proof -
  from laid_out_exists [OF assms] obtain units cg requested runs counted where out: "out \<or> capacity = 0"
    and laid: "laid_out ct h style features chars len out fc units cg requested runs counted" by blast
  note call = shape_laid_out [OF laid TrueI out, of memory]
  from survey_exists [of ct memory style features len units out capacity requested runs counted] assms
  obtain glyphs faces named where runs: "runs \<noteq> []" "length runs \<le> DTR_MAX_SHAPE_RUNS"
    and survey: "survey_runs ct (length units) requested runs 0 [] counted = (Inr (glyphs, faces), named)"
    unfolding call by auto
  note shape = shape_runs_answer [OF runs survey]
  show thesis
    by (rule that [OF out laid runs]) (use survey shape in \<open>simp_all add: call\<close>)
qed

section \<open>Reading a packet\<close>

definition run_at :: "byte list \<Rightarrow> nat \<Rightarrow> DtrShapeRunV1" where
  "run_at p k = read_shape_run (drop (unat (sh_runs_offset (read_shape_header p)) + k * 40) p)"

definition face_at :: "byte list \<Rightarrow> nat \<Rightarrow> DtrShapeFaceV1" where
  "face_at p k = read_shape_face (drop (unat (sh_faces_offset (read_shape_header p)) + k * 144) p)"

definition glyph_at :: "byte list \<Rightarrow> nat \<Rightarrow> DtrShapeGlyphV1" where
  "glyph_at p k = read_shape_glyph (drop (unat (sh_glyphs_offset (read_shape_header p)) + k * 48) p)"

lemma shape_packet_parts:
  fixes runs :: "'f run list"
  assumes p: "p = shape_packet ct requested cg style features len units runs faces"
    and fits: "list_all face_fits faces"
    and small: "shape_size (length runs) (length faces) (glyphs_before runs (length runs)) \<le> DTR_MAX_SHAPE_OUTPUT_BYTES"
  defines "boundaries \<equiv> next_boundaries (length units) (cluster_boundaries (length units) runs)"
  shows "read_shape_header p = shape_header cg style features len units (length runs) (length faces)
      (glyphs_before runs (length runs))"
    "length p = shape_size (length runs) (length faces) (glyphs_before runs (length runs))"
    "k < length runs \<Longrightarrow> run_at p k = fill_run ct requested cg (glyphs_before runs k) (runs ! k)"
    "k < length faces \<Longrightarrow> face_at p k = faces ! k"
    "k < glyphs_before runs (length runs) \<Longrightarrow> glyph_at p k = concat (glyph_records ct cg boundaries 0 runs) ! k"
proof -
  let ?n = "glyphs_before runs (length runs)"
  let ?h = "shape_header cg style features len units (length runs) (length faces) ?n"
  let ?gs = "concat (glyph_records ct cg boundaries 0 runs)"
  let ?rs = "run_records ct requested cg 0 runs"
  let ?R = "concat (map write_shape_run ?rs)" and ?F = "concat (map write_shape_face faces)"
    and ?G = "concat (map write_shape_glyph ?gs)"
  have p': "p = write_shape_header ?h @ ?R @ ?F @ ?G" by (simp add: p shape_packet_def boundaries_def)
  have "length (sh_reserved ?h) = 3" by (simp add: shape_header_def Let_def)
  note head = shape_header_packs [OF this]
  show read: "read_shape_header p = ?h" unfolding p' by (rule head(2))
  have rs: "length ?rs = length runs" by (simp add: run_records_def)
  have lens: "length ?R = length runs * 40" "length ?F = length faces * 144" "length ?G = ?n * 48"
    using shaped_runs.array_length [of ?rs] shaped_faces.array_length [OF fits] shaped_glyphs.array_length [of ?gs]
    by (simp_all add: list_all_iff rs glyph_count)
  show "length p = shape_size (length runs) (length faces) ?n"
    by (simp add: p' lens head(1) shape_size_def)
  have "80 + length runs * 40 + length faces * 144 \<le> 67108864" using small by (simp add: shape_size_def)
  then have offsets: "unat (sh_runs_offset ?h) = 80" "unat (sh_faces_offset ?h) = 80 + length runs * 40"
    "unat (sh_glyphs_offset ?h) = 80 + length runs * 40 + length faces * 144"
    using unat_small [of "80 + length runs * 40"] unat_small [of "80 + length runs * 40 + length faces * 144"]
    by (simp_all add: shape_header_def Let_def)
  have front: "drop (80 + m) p = drop m (?R @ ?F @ ?G)" for m by (simp add: p' head(1))
  have front_F: "drop (80 + length runs * 40 + m) p = drop m (?F @ ?G)" for m
    using front [of "length runs * 40 + m"] lens by (simp add: add.assoc)
  have front_G: "drop (80 + length runs * 40 + length faces * 144 + m) p = drop m ?G" for m
    using front_F [of "length faces * 144 + m"] lens by (simp add: add.assoc)
  show "run_at p k = fill_run ct requested cg (glyphs_before runs k) (runs ! k)" if "k < length runs"
  proof -
    have "run_at p k = read_shape_run (drop (k * 40) (?R @ ?F @ ?G))"
      unfolding run_at_def read by (simp only: offsets front)
    also have "\<dots> = ?rs ! k" using that by (intro shaped_runs.read_element) (simp_all add: list_all_iff rs)
    finally show ?thesis using that by (simp add: run_records_def)
  qed
  show "face_at p k = faces ! k" if "k < length faces"
    unfolding face_at_def read offsets front_F using that by (intro shaped_faces.read_element fits)
  show "glyph_at p k = ?gs ! k" if "k < ?n"
    unfolding glyph_at_def read offsets front_G
    using shaped_glyphs.read_element [of ?gs k "[]"] that by (simp add: list_all_iff glyph_count)
qed

lemma nth_concat_at:
  "k < length xss \<Longrightarrow> i < length (xss ! k) \<Longrightarrow> concat xss ! (sum_list (map length (take k xss)) + i) = xss ! k ! i"
proof (induction xss arbitrary: k)
  case (Cons xs xss)
  then show ?case by (cases k) (simp_all add: nth_append add.assoc)
qed simp

lemma concat_index:
  "j < length (concat xss) \<Longrightarrow>
   \<exists>k i. k < length xss \<and> i < length (xss ! k) \<and> j = sum_list (map length (take k xss)) + i"
proof (induction xss arbitrary: j)
  case (Cons xs xss)
  show ?case
  proof (cases "j < length xs")
    case True
    then have "0 < length (xs # xss) \<and> j < length ((xs # xss) ! 0) \<and> j = sum_list (map length (take 0 (xs # xss))) + j"
      by simp
    then show ?thesis by blast
  next
    case False
    then have "j - length xs < length (concat xss)" using Cons.prems by (simp add: less_diff_conv2)
    with Cons.IH obtain k i where "k < length xss" "i < length (xss ! k)"
        "j - length xs = sum_list (map length (take k xss)) + i"
      by blast
    with False have "Suc k < length (xs # xss) \<and> i < length ((xs # xss) ! Suc k) \<and>
        j = sum_list (map length (take (Suc k) (xs # xss))) + i" by simp
    then show ?thesis by blast
  qed
qed simp

lemma glyphs_before_records:
  "k \<le> length runs \<Longrightarrow>
   sum_list (map length (take k (glyph_records ct cg boundaries index runs))) = glyphs_before runs k"
proof (induction k)
  case (Suc k)
  then show ?case
    by (simp add: glyphs_before_def glyph_records_def take_Suc_conv_app_nth take_map [symmetric])
qed (simp add: glyphs_before_def)

lemma glyph_record_at:
  assumes "k < length runs" "i < length (rn_glyphs (runs ! k))"
  shows "concat (glyph_records ct cg boundaries 0 runs) ! (glyphs_before runs k + i) =
      shaped_glyph boundaries (run_face ct cg (runs ! k)) k (rn_glyphs (runs ! k) ! i)"
    and "glyphs_before runs k + i < glyphs_before runs (length runs)"
proof -
  let ?xss = "glyph_records ct cg boundaries 0 runs"
  have k: "k < length ?xss" "i < length (?xss ! k)" "?xss ! k ! i = shaped_glyph boundaries (run_face ct cg (runs ! k)) k
      (rn_glyphs (runs ! k) ! i)"
    using assms by (simp_all add: glyph_records_def)
  show "concat ?xss ! (glyphs_before runs k + i) = shaped_glyph boundaries (run_face ct cg (runs ! k)) k
      (rn_glyphs (runs ! k) ! i)"
    using nth_concat_at [OF k(1,2)] k(3) assms(1) by (simp add: glyphs_before_records)
  have "glyphs_before runs (length runs) = glyphs_before runs k + sum_list (map (\<lambda>run. length (rn_glyphs run)) (drop k runs))"
    unfolding glyphs_before_def by (metis append_take_drop_id map_append sum_list_append take_all_iff order_refl)
  also have "drop k runs = runs ! k # drop (Suc k) runs" using assms(1) by (simp add: Cons_nth_drop_Suc)
  finally show "glyphs_before runs k + i < glyphs_before runs (length runs)" using assms(2) by simp
qed

lemma unat_u32: "n \<le> unat UINT32_MAX \<Longrightarrow> unat (of_nat n :: u32) = n"
  by (simp add: unat_of_nat largest_u32)

lemma unat_of_int_u32: "0 \<le> x \<Longrightarrow> nat x \<le> unat UINT32_MAX \<Longrightarrow> unat (of_int x :: u32) = nat x"
  using unat_u32 [of "nat x"] by simp

text \<open>What is known of the packet of a call that succeeds.\<close>

definition holds_line ::
  "('f, 'm) coretext_scheme \<Rightarrow> 'f \<Rightarrow> 'f catalog \<Rightarrow> u32 \<Rightarrow> u32 \<Rightarrow> u32 \<Rightarrow> nsstring \<Rightarrow> 'f run list \<Rightarrow>
    DtrShapeFaceV1 list \<Rightarrow> byte list \<Rightarrow> bool" where
  "holds_line ct requested cg style features len units runs faces p \<longleftrightarrow>
     p = shape_packet ct requested cg style features len units runs faces \<and>
     length p = shape_size (length runs) (length faces) (glyphs_before runs (length runs)) \<and>
     length p \<le> DTR_MAX_SHAPE_OUTPUT_BYTES \<and> length units \<le> unat UINT32_MAX \<and> list_all face_fits faces \<and>
     list_all (run_checked ct (length units)) runs \<and> list_all (run_registered ct cg) runs \<and>
     faces_of (map (noted ct requested cg) runs) faces"

lemma shape_ok:
  assumes "fst (dtr_font_catalog_shape ct memory h style features chars len out capacity True fc) =
     \<lparr>pk_status = DTR_STATUS_OK, pk_required = required, pk_bytes = Some p\<rparr>"
  obtains units cg requested runs counted faces named where
    "laid_out ct h style features chars len out fc units cg requested runs counted"
    "survey_runs ct (length units) requested runs 0 [] counted = (Inr (glyphs_before runs (length runs), faces), named)"
    "holds_line ct requested named style features len units runs faces p"
    "required = Some (length p)" "length p \<le> unat capacity" "setup_of named = setup_of cg"
    "runs \<noteq> []" "length runs \<le> DTR_MAX_SHAPE_RUNS"
proof -
  have "answered (fst (dtr_font_catalog_shape ct memory h style features chars len out capacity True fc))"
    by (simp add: assms answered_def)
  then obtain units cg requested runs counted faces named where
    laid: "laid_out ct h style features chars len out fc units cg requested runs counted" and
    runs: "runs \<noteq> []" "length runs \<le> DTR_MAX_SHAPE_RUNS" and
    survey: "survey_runs ct (length units) requested runs 0 [] counted =
      (Inr (glyphs_before runs (length runs), faces), named)" and
    answer: "fst (dtr_font_catalog_shape ct memory h style features chars len out capacity True fc) =
       shape_answer memory out capacity (shape_size (length runs) (length faces) (glyphs_before runs (length runs)))
         (shape_packet ct requested named style features len units runs faces)"
    by (rule shape_answered)
  note sound = survey_sound [OF survey]
  have "faces_of ([] @ map (noted ct requested named) runs) faces"
    by (rule note_all_faces_of) (use sound in \<open>auto simp: faces_of_def\<close>)
  then have faces: "faces_of (map (noted ct requested named) runs) faces" by simp
  have fits: "list_all face_fits faces"
  proof (unfold list_all_iff, intro ballI)
    fix f assume "f \<in> set faces"
    then obtain run where "run \<in> set runs"
        "sa_postscript_name f = the (ct_encode ct (PostScriptName ct (the (rn_font run))))"
      using faces by (fastforce simp: faces_of_def noted_def)
    moreover then have "run_checked ct (length units) run" using sound by (auto simp: list_all_iff)
    ultimately show "face_fits f" by (auto simp: run_checked_def face_fits_def)
  qed
  let ?size = "shape_size (length runs) (length faces) (glyphs_before runs (length runs))"
  have size: "?size \<le> DTR_MAX_SHAPE_OUTPUT_BYTES" "?size \<le> unat capacity" "required = Some ?size"
    and p: "p = shape_packet ct requested named style features len units runs faces"
    using answer assms by (auto simp: shape_answer_def refused_def split: if_splits)
  have len: "length p = ?size" by (rule shape_packet_parts(2) [OF p fits size(1)])
  have "setup_of counted = setup_of cg"
    using laid by (auto simp: laid_out_def attributedStringForText_def setup_of_def Let_def
        split: option.splits prod.splits)
  then have same: "setup_of named = setup_of cg" using sound by simp
  have "holds_line ct requested named style features len units runs faces p"
    unfolding holds_line_def using laid size(1) len fits sound faces p by (simp add: laid_out_def)
  then show thesis
    by (rule that [OF laid survey]) (use size len same runs in simp_all)
qed

lemma line_parts:
  assumes "holds_line ct requested cg style features len units runs faces p"
  shows "read_shape_header p = shape_header cg style features len units (length runs) (length faces)
      (glyphs_before runs (length runs))"
    "k < length runs \<Longrightarrow> run_at p k = fill_run ct requested cg (glyphs_before runs k) (runs ! k)"
    "k < length faces \<Longrightarrow> face_at p k = faces ! k"
    "k < length runs \<Longrightarrow> i < length (rn_glyphs (runs ! k)) \<Longrightarrow> glyph_at p (glyphs_before runs k + i) =
      shaped_glyph (next_boundaries (length units) (cluster_boundaries (length units) runs))
        (run_face ct cg (runs ! k)) k (rn_glyphs (runs ! k) ! i)"
proof -
  have line: "p = shape_packet ct requested cg style features len units runs faces" "list_all face_fits faces"
    "shape_size (length runs) (length faces) (glyphs_before runs (length runs)) \<le> DTR_MAX_SHAPE_OUTPUT_BYTES"
    using assms by (auto simp: holds_line_def)
  note parts = shape_packet_parts [OF line]
  show "read_shape_header p = shape_header cg style features len units (length runs) (length faces)
      (glyphs_before runs (length runs))"
    "k < length runs \<Longrightarrow> run_at p k = fill_run ct requested cg (glyphs_before runs k) (runs ! k)"
    "k < length faces \<Longrightarrow> face_at p k = faces ! k" using parts(1,3,4) by blast+
  show "k < length runs \<Longrightarrow> i < length (rn_glyphs (runs ! k)) \<Longrightarrow> glyph_at p (glyphs_before runs k + i) =
      shaped_glyph (next_boundaries (length units) (cluster_boundaries (length units) runs))
        (run_face ct cg (runs ! k)) k (rn_glyphs (runs ! k) ! i)"
    using parts(5) [OF glyph_record_at(2)] by (simp add: glyph_record_at(1))
qed

lemma line_head:
  assumes line: "holds_line ct requested cg style features len units runs faces p"
  shows "let head = read_shape_header p in unat (sh_total_size head) = length p \<and>
     sh_catalog_generation head = cg_generation cg \<and> unat (sh_utf16_length head) = length units \<and>
     unat (sh_run_count head) = length runs \<and> unat (sh_face_count head) = length faces \<and>
     unat (sh_glyph_count head) = glyphs_before runs (length runs)"
    "k < length runs \<Longrightarrow> unat (of_nat k :: u32) = k"
    "k \<le> length units \<Longrightarrow> unat (of_nat k :: u32) = k"
proof -
  have len: "length p = shape_size (length runs) (length faces) (glyphs_before runs (length runs))"
    and small: "shape_size (length runs) (length faces) (glyphs_before runs (length runs)) \<le> 67108864"
    and units: "length units \<le> unat UINT32_MAX" using line unfolding holds_line_def by auto
  then have bound: "length runs \<le> 67108864" "length faces \<le> 67108864" "glyphs_before runs (length runs) \<le> 67108864"
    by (simp_all add: shape_size_def)
  show "let head = read_shape_header p in unat (sh_total_size head) = length p \<and>
     sh_catalog_generation head = cg_generation cg \<and> unat (sh_utf16_length head) = length units \<and>
     unat (sh_run_count head) = length runs \<and> unat (sh_face_count head) = length faces \<and>
     unat (sh_glyph_count head) = glyphs_before runs (length runs)"
    using unat_small [OF bound(1)] unat_small [OF bound(2)] unat_small [OF bound(3)] unat_u32 [OF units]
      unat_small [OF small]
    by (simp add: line_parts(1) [OF line] shape_header_def Let_def len shape_size_def)
  show "k < length runs \<Longrightarrow> unat (of_nat k :: u32) = k" using bound by (simp add: unat_small)
  show "k \<le> length units \<Longrightarrow> unat (of_nat k :: u32) = k" using units by (simp add: unat_u32)
qed

text \<open>The places of a run and of a glyph, read as numbers.\<close>

lemma line_places:
  assumes line: "holds_line ct requested cg style features len units runs faces p" and k: "k < length runs"
  shows "unat (sr_first_glyph (run_at p k)) = glyphs_before runs k"
    "unat (sr_glyph_count (run_at p k)) = length (rn_glyphs (runs ! k))"
    "int (unat (sr_utf16_start (run_at p k))) = rn_location (runs ! k)"
    "int (unat (sr_utf16_length (run_at p k))) = rn_length (runs ! k)"
    "g \<in> set (rn_glyphs (runs ! k)) \<Longrightarrow>
       int (unat (sg_utf16_start (shaped_glyph boundaries face k g))) = gl_index g"
proof -
  let ?run = "runs ! k"
  have run: "run_checked ct (length units) ?run" and units: "length units \<le> unat UINT32_MAX"
    and small: "shape_size (length runs) (length faces) (glyphs_before runs (length runs)) \<le> 67108864"
    using line k by (auto simp: holds_line_def list_all_iff)
  have "0 < length (rn_glyphs ?run)" using run by (simp add: run_checked_def)
  then have "glyphs_before runs k < glyphs_before runs (length runs)"
    "glyphs_before runs k + (length (rn_glyphs ?run) - 1) < glyphs_before runs (length runs)"
    using glyph_record_at(2) [OF k, of 0] glyph_record_at(2) [OF k, of "length (rn_glyphs ?run) - 1"] by simp_all
  with small have "glyphs_before runs k \<le> 67108864" "length (rn_glyphs ?run) \<le> 67108864" by (simp_all add: shape_size_def)
  then have "unat (of_nat (glyphs_before runs k) :: u32) = glyphs_before runs k"
    "unat (of_nat (length (rn_glyphs ?run)) :: u32) = length (rn_glyphs ?run)" by (simp_all add: unat_small)
  then show "unat (sr_first_glyph (run_at p k)) = glyphs_before runs k"
    "unat (sr_glyph_count (run_at p k)) = length (rn_glyphs ?run)"
    by (simp_all add: line_parts(2) [OF line k] fill_run_def)
  have "nat (rn_location ?run) \<le> unat UINT32_MAX" "nat (rn_length ?run) \<le> unat UINT32_MAX"
    using run units by (auto simp: run_checked_def)
  then show "int (unat (sr_utf16_start (run_at p k))) = rn_location ?run"
    "int (unat (sr_utf16_length (run_at p k))) = rn_length ?run"
    using run by (simp_all add: line_parts(2) [OF line k] fill_run_def unat_of_int_u32 run_checked_def)
  assume "g \<in> set (rn_glyphs ?run)"
  with run have "0 \<le> gl_index g" "nat (gl_index g) \<le> length units" by (auto simp: run_checked_def)
  moreover from this(2) have "unat (of_nat (nat (gl_index g)) :: u32) = nat (gl_index g)" by (rule line_head(3) [OF line])
  ultimately show "int (unat (sg_utf16_start (shaped_glyph boundaries face k g))) = gl_index g"
    by (simp only: shaped_glyph_def DtrShapeGlyphV1.select_convs nat_0_le)
qed

text \<open>What a packet shows of a glyph, and of the k-th run.\<close>

definition shows_glyph :: "DtrShapeGlyphV1 \<Rightarrow> glyph \<Rightarrow> bool" where
  "shows_glyph g drawn \<longleftrightarrow> sg_glyph_id g = ucast (gl_glyph drawn) \<and> int (unat (sg_utf16_start g)) = gl_index drawn \<and>
     sg_position_x g = gl_x drawn \<and> sg_position_y g = gl_y drawn \<and> sg_advance g = gl_advance drawn"

definition shows_run :: "byte list \<Rightarrow> 'f run list \<Rightarrow> nat \<Rightarrow> bool" where
  "shows_run p runs k \<longleftrightarrow> (let r = run_at p k; run = runs ! k in
     unat (sr_first_glyph r) = glyphs_before runs k \<and> unat (sr_glyph_count r) = length (rn_glyphs run) \<and>
     int (unat (sr_utf16_start r)) = rn_location run \<and> int (unat (sr_utf16_length r)) = rn_length run \<and>
     sr_typographic_width r = rn_width run \<and>
     (\<forall>i < length (rn_glyphs run). let g = glyph_at p (unat (sr_first_glyph r) + i) in
        shows_glyph g (rn_glyphs run ! i) \<and> unat (sg_run_index g) = k \<and> sg_face_id g = sr_face_id r))"

text \<open>
  C28. A packet of a shaped text holds what CoreText laid out, in its order: the size is the one
  reported and named in the header; the k-th run has its run's place in the text, its width, and
  the glyphs that follow those of the runs before; and each of these has the identifier, the
  position and the advance that CoreText gave it, stands for the unit of the text that CoreText
  named, and refers back to its run and the face of it.
\<close>

theorem shape_packet_glyphs:
  assumes "fst (dtr_font_catalog_shape ct memory h style features chars len out capacity True fc) =
     \<lparr>pk_status = DTR_STATUS_OK, pk_required = required, pk_bytes = Some p\<rparr>"
  shows "\<exists>units cg requested runs counted.
     laid_out ct h style features chars len out fc units cg requested runs counted \<and>
     (let head = read_shape_header p in
      required = Some (length p) \<and> length p \<le> unat capacity \<and> unat (sh_total_size head) = length p \<and>
      sh_catalog_generation head = cg_generation cg \<and> unat (sh_utf16_length head) = length units \<and>
      unat (sh_run_count head) = length runs \<and> unat (sh_glyph_count head) = glyphs_before runs (length runs)) \<and>
     (\<forall>k < length runs. shows_run p runs k)"
proof -
  obtain units cg requested runs counted faces named where
    laid: "laid_out ct h style features chars len out fc units cg requested runs counted"
    and line: "holds_line ct requested named style features len units runs faces p"
    and size: "required = Some (length p)" "length p \<le> unat capacity" "setup_of named = setup_of cg"
    using shape_ok [OF assms] by metis
  have "\<forall>k < length runs. shows_run p runs k"
  proof (intro allI impI)
    fix k assume k: "k < length runs"
    note places = line_places [OF line k] and glyph = line_parts(4) [OF line k]
    have r: "run_at p k = fill_run ct requested named (glyphs_before runs k) (runs ! k)" by (rule line_parts(2) [OF line k])
    have "unat (sg_run_index (shaped_glyph b face k g)) = k" for b face g
      using line_head(2) [OF line k] by (simp add: shaped_glyph_def)
    moreover have "sr_face_id (run_at p k) = run_face ct named (runs ! k)" "sr_typographic_width (run_at p k) = rn_width (runs ! k)"
      by (simp_all add: r fill_run_def run_face_def)
    moreover have "sg_glyph_id (shaped_glyph b face k g) = ucast (gl_glyph g)" "sg_position_x (shaped_glyph b face k g) = gl_x g"
      "sg_position_y (shaped_glyph b face k g) = gl_y g" "sg_advance (shaped_glyph b face k g) = gl_advance g"
      "sg_face_id (shaped_glyph b face k g) = face" for b face g by (simp_all add: shaped_glyph_def)
    ultimately show "shows_run p runs k" using places by (simp add: shows_run_def shows_glyph_def Let_def glyph)
  qed
  with laid line_head(1) [OF line] size show ?thesis
    by (intro exI [of _ units] exI [of _ cg] exI [of _ requested] exI [of _ runs] exI [of _ counted])
      (simp add: Let_def setup_of_def)
qed

section \<open>Clusters in a packet\<close>

definition glyph_span :: "DtrShapeGlyphV1 \<Rightarrow> nat \<times> nat" where
  "glyph_span g = (unat (sg_utf16_start g), unat (sg_utf16_start g) + unat (sg_utf16_length g))"

definition run_span :: "DtrShapeRunV1 \<Rightarrow> nat \<times> nat" where
  "run_span r = (unat (sr_utf16_start r), unat (sr_utf16_start r) + unat (sr_utf16_length r))"

definition packet_marks :: "byte list \<Rightarrow> nat \<Rightarrow> bool" where
  "packet_marks p j \<longleftrightarrow> j = unat (sh_utf16_length (read_shape_header p)) \<or>
     (\<exists>i < unat (sh_glyph_count (read_shape_header p)). j = fst (glyph_span (glyph_at p i))) \<or>
     (\<exists>k < unat (sh_run_count (read_shape_header p)). j = fst (run_span (run_at p k)) \<or> j = snd (run_span (run_at p k)))"

lemma line_glyph:
  assumes "j < glyphs_before runs (length runs)"
  obtains k i where "k < length runs" "i < length (rn_glyphs (runs ! k))" "j = glyphs_before runs k + i"
proof -
  let ?xss = "map rn_glyphs runs"
  have n: "glyphs_before runs m = sum_list (map length (take m ?xss))" for m
    by (simp add: glyphs_before_def take_map comp_def)
  have "j < length (concat ?xss)" using assms by (simp add: n length_concat comp_def)
  from concat_index [OF this] obtain k i where "k < length runs" "i < length (rn_glyphs (runs ! k))"
      "j = sum_list (map length (take k ?xss)) + i" by auto
  then show thesis by (intro that) (simp_all add: n)
qed

lemma line_spans:
  assumes line: "holds_line ct requested cg style features len units runs faces p" and k: "k < length runs"
    and i: "i < length (rn_glyphs (runs ! k))"
  defines "boundaries \<equiv> next_boundaries (length units) (cluster_boundaries (length units) runs)"
    and "g \<equiv> rn_glyphs (runs ! k) ! i"
  shows "run_span (run_at p k) = (nat (rn_location (runs ! k)), nat (rn_location (runs ! k) + rn_length (runs ! k)))"
    "glyph_span (glyph_at p (glyphs_before runs k + i)) = (nat (gl_index g), boundaries ! nat (gl_index g))"
    "first_from (length units) (cluster_boundaries (length units) runs) (Suc (nat (gl_index g))) (boundaries ! nat (gl_index g))"
    "nat (rn_location (runs ! k)) \<le> nat (gl_index g)"
    "boundaries ! nat (gl_index g) \<le> nat (rn_location (runs ! k) + rn_length (runs ! k))"
    "unat (sg_run_index (glyph_at p (glyphs_before runs k + i))) = k"
proof -
  let ?run = "runs ! k" and ?i = "nat (gl_index g)"
  have run: "run_checked ct (length units) ?run" "?run \<in> set runs" and g: "g \<in> set (rn_glyphs ?run)"
    using line k i by (auto simp: holds_line_def list_all_iff g_def)
  note places = line_places [OF line k]
  have "unat (sr_utf16_start (run_at p k)) = nat (rn_location ?run)"
    "unat (sr_utf16_length (run_at p k)) = nat (rn_length ?run)" using places(3,4) by (metis nat_int)+
  then show "run_span (run_at p k) = (nat (rn_location ?run), nat (rn_location ?run + rn_length ?run))"
    using run(1) by (simp add: run_span_def run_checked_def nat_add_distrib)
  note filled = fill_glyph_at [OF run(2,1) g, folded boundaries_def]
  show first: "first_from (length units) (cluster_boundaries (length units) runs) (Suc ?i) (boundaries ! ?i)"
    unfolding boundaries_def by (rule next_boundaries_nth [OF filled(2)])
  show "boundaries ! ?i \<le> nat (rn_location ?run + rn_length ?run)" by (rule filled(3))
  show "nat (rn_location ?run) \<le> ?i" using run(1) g by (auto simp: run_checked_def)
  have at: "glyph_at p (glyphs_before runs k + i) = shaped_glyph boundaries (run_face ct cg ?run) k g"
    unfolding boundaries_def g_def by (rule line_parts(4) [OF line k i])
  show "unat (sg_run_index (glyph_at p (glyphs_before runs k + i))) = k"
    using line_head(2) [OF line k] by (simp add: at shaped_glyph_def)
  have "?i < boundaries ! ?i" "boundaries ! ?i \<le> length units" using first by (simp_all add: first_from_def)
  then have "unat (of_nat (boundaries ! ?i - ?i) :: u32) = boundaries ! ?i - ?i" by (intro line_head(3) [OF line]) simp
  moreover have "unat (sg_utf16_start (shaped_glyph boundaries (run_face ct cg ?run) k g)) = ?i"
    using places(5) [OF g] by (metis nat_int)
  ultimately show "glyph_span (glyph_at p (glyphs_before runs k + i)) = (?i, boundaries ! ?i)"
    using \<open>?i < boundaries ! ?i\<close> by (simp add: at glyph_span_def) (simp add: shaped_glyph_def)
qed

lemma packet_marks_boundary:
  assumes line: "holds_line ct requested cg style features len units runs faces p"
  shows "packet_marks p j \<longleftrightarrow> boundary (length units) runs j"
proof -
  note head = line_head(1) [OF line, unfolded Let_def]
  note spans = line_spans [OF line]
  have glyphs: "rn_glyphs (runs ! k) \<noteq> []" if "k < length runs" for k
    using line that by (auto simp: holds_line_def list_all_iff run_checked_def)
  have run: "run_span (run_at p k) = (nat (rn_location (runs ! k)), nat (rn_location (runs ! k) + rn_length (runs ! k)))"
    if "k < length runs" for k using spans(1) [OF that, of 0] glyphs [OF that] by simp
  have "(\<exists>i < glyphs_before runs (length runs). j = fst (glyph_span (glyph_at p i))) \<longleftrightarrow>
      (\<exists>k < length runs. \<exists>i < length (rn_glyphs (runs ! k)). j = nat (gl_index (rn_glyphs (runs ! k) ! i)))"
    by (metis fst_conv glyph_record_at(2) line_glyph spans(2))
  then show ?thesis
    using head run by (auto simp: packet_marks_def boundary_def marks_def in_set_conv_nth Bex_def)
qed

text \<open>
  C29. The clusters of a packet. Each glyph stands for a part of the text that is not empty and
  lies within its run, which is one of the packet; that part reaches to the next place where any
  glyph or run of the packet starts, or a run or the text ends. So no glyph starts within the
  cluster of another, and two clusters are the same or do not overlap.
\<close>

theorem shape_clusters:
  assumes "fst (dtr_font_catalog_shape ct memory h style features chars len out capacity True fc) =
     \<lparr>pk_status = DTR_STATUS_OK, pk_required = required, pk_bytes = Some p\<rparr>"
    and i: "i < unat (sh_glyph_count (read_shape_header p))"
  shows "let (start, stop) = glyph_span (glyph_at p i); k = unat (sg_run_index (glyph_at p i));
           (run_start, run_stop) = run_span (run_at p k)
     in k < unat (sh_run_count (read_shape_header p)) \<and> run_start \<le> start \<and> start < stop \<and> stop \<le> run_stop \<and>
        packet_marks p stop \<and> (\<forall>j. start < j \<and> j < stop \<longrightarrow> \<not> packet_marks p j)"
proof -
  obtain units cg requested runs counted faces named where
    line: "holds_line ct requested named style features len units runs faces p"
    using shape_ok [OF assms(1)] by metis
  note head = line_head(1) [OF line, unfolded Let_def]
  obtain k g where k: "k < length runs" and g: "g < length (rn_glyphs (runs ! k))" and at: "i = glyphs_before runs k + g"
    using line_glyph [of i runs] i head by auto
  note spans = line_spans [OF line k g]
  have "cluster_boundaries (length units) runs ! j \<longleftrightarrow> packet_marks p j" if "j \<le> length units" for j
    using cluster_boundaries_nth(2) [OF that] packet_marks_boundary [OF line] by simp
  moreover have "packet_marks p (length units)" using head by (simp add: packet_marks_def)
  ultimately show ?thesis
    using spans(3,4,5) k head by (auto simp: at spans(1,2,6) first_from_def Suc_le_eq)
qed

section \<open>A call after a query for the size\<close>

text \<open>A first pass that succeeded succeeds again, and changes nothing, where its faces are known.\<close>

lemma faceIdForFont_later:
  assumes "faceIdForFont ct font cg = (face, named)" "cg_faceIds named \<subseteq>\<^sub>m cg_faceIds cg2"
  shows "faceIdForFont ct font cg2 = (face, cg2)"
proof (rule faceIdForFont_known, rule map_le_Some [OF assms(2)])
  show "cg_faceIds named (FontIdentityKey ct font) = Some face"
    using faceIdForFont_adds(2) [of ct font cg] assms(1) by simp
qed

lemma survey_again:
  "survey_runs ct n requested runs glyphs faces cg = (Inr r, named) \<Longrightarrow> cg_faceIds named \<subseteq>\<^sub>m cg_faceIds cg2 \<Longrightarrow>
   survey_runs ct n requested runs glyphs faces cg2 = (Inr r, cg2)"
proof (induction runs arbitrary: glyphs faces cg)
  case (Cons run runs)
  from Cons.prems(1) obtain font name where check: "check_run ct n glyphs run = Inr (font, name)"
    by (auto split: sum.splits)
  obtain face mid_cg where call: "faceIdForFont ct font cg = (face, mid_cg)" by (cases "faceIdForFont ct font cg")
  from Cons.prems(1) have face: "face \<noteq> 0" by (cases "face = 0") (simp_all add: check call)
  with Cons.prems(1) obtain mid where mid: "note_face face (run_flags ct requested font run) name faces = Some mid"
    by (cases "note_face face (run_flags ct requested font run) name faces") (simp_all add: check call)
  have rest: "survey_runs ct n requested runs (glyphs + length (rn_glyphs run)) mid mid_cg = (Inr r, named)"
    using Cons.prems(1) by (simp add: check call face mid)
  obtain gs fs where "r = (gs, fs)" by (cases r)
  with survey_sound [of ct n requested runs _ mid mid_cg gs fs named] rest
  have "cg_faceIds mid_cg \<subseteq>\<^sub>m cg_faceIds named" by blast
  then have "faceIdForFont ct font cg2 = (face, cg2)"
    using call Cons.prems(2) by (intro faceIdForFont_later [OF call]) (blast intro: map_le_trans)
  then show ?case using Cons.IH [OF rest Cons.prems(2)] by (simp add: check face mid)
qed simp

text \<open>What a text asks for depends only on what was chosen when the catalog was made.\<close>

lemma attributed_again:
  assumes "attributedStringForText ct units style features out cg = (Some attributed, counted)"
    and "setup_of cg2 = setup_of cg"
  shows "\<exists>counted2. attributedStringForText ct units style features out2 cg2 = (Some attributed, counted2) \<and>
    cg_faceIds counted2 = cg_faceIds cg2"
  using assms by (auto simp: attributedStringForText_def setup_of_def fontForStyle_def Let_def
      split: option.splits prod.splits)

lemma laid_out_again:
  assumes "laid_out ct h style features chars len out fc units cg requested runs counted"
    and "FontCatalogForHandle h fc2 = Some cg2" "setup_of cg2 = setup_of cg"
  obtains counted2 where "laid_out ct h style features chars len out2 fc2 units cg2 requested runs counted2"
    "cg_faceIds counted2 = cg_faceIds cg2"
proof -
  obtain attributed where a: "attributedStringForText ct units style features out cg = (Some attributed, counted)"
    "ct_line ct attributed = Some runs" using assms(1) by (auto simp: laid_out_def)
  obtain counted2 where c: "attributedStringForText ct units style features out2 cg2 = (Some attributed, counted2)"
    "cg_faceIds counted2 = cg_faceIds cg2" using attributed_again [OF a(1) assms(3)] by blast
  have "fontForStyle style cg2 = fontForStyle style cg" using assms(3) by (simp add: fontForStyle_def setup_of_def)
  with assms(1,2) a(2) c(1) have "laid_out ct h style features chars len out2 fc2 units cg2 requested runs counted2"
    by (auto simp: laid_out_def)
  then show thesis using c(2) by (rule that)
qed

text \<open>The catalog after a call.\<close>

lemma shaped_catalog:
  assumes "laid_out ct h style features chars len out fc units cg requested runs counted" "out \<or> capacity = 0"
  shows "FontCatalogForHandle h (font_step ct (Shape_text memory h style features chars len out capacity True) fc) =
    Some (snd (shape_runs ct memory style features len units out capacity requested runs counted))"
proof -
  have "h \<noteq> 0" using assms(1) by (auto simp: laid_out_def FontCatalogForHandle_def)
  then show ?thesis using shape_laid_out [OF assms(1) TrueI assms(2)] by (simp add: FontCatalogForHandle_def put_catalog_def)
qed

text \<open>
  C31. The size that a call without a buffer reports is the size that is needed: whatever calls are
  made before and in between, fewer than \<open>2 ^ 64 - 1\<close> of which create a catalog, as long as the
  catalog is registered, a call with a buffer of at least that size, and with memory, succeeds and
  writes a packet of exactly that size. The identifiers of faces may even come around.
\<close>

theorem size_query_then_call:
  assumes len: "creations calls + creations between < 2 ^ 64 - 1"
    and query: "fst (dtr_font_catalog_shape ct m h style features chars n False 0 True
      (font_history ct calls initial_catalogs)) =
        \<lparr>pk_status = DTR_STATUS_BUFFER_TOO_SMALL, pk_required = Some needed, pk_bytes = None\<rparr>"
    and after: "fc = font_history ct (calls @ Shape_text m h style features chars n False 0 True # between) initial_catalogs"
    and registered: "FontCatalogForHandle h fc \<noteq> None" and room: "needed \<le> unat capacity"
  shows "\<exists>p. fst (dtr_font_catalog_shape ct True h style features chars n True capacity True fc) =
      \<lparr>pk_status = DTR_STATUS_OK, pk_required = Some needed, pk_bytes = Some p\<rparr> \<and> length p = needed"
proof -
  let ?before = "font_history ct calls initial_catalogs" and ?call = "Shape_text m h style features chars n False 0 True"
  have "answered (fst (dtr_font_catalog_shape ct m h style features chars n False 0 True ?before))"
    by (simp add: query answered_def)
  then obtain units cg requested runs counted faces named where
    laid: "laid_out ct h style features chars n False ?before units cg requested runs counted"
    and runs: "runs \<noteq> []" "length runs \<le> DTR_MAX_SHAPE_RUNS"
    and survey: "survey_runs ct (length units) requested runs 0 [] counted =
      (Inr (glyphs_before runs (length runs), faces), named)"
    and answer: "fst (dtr_font_catalog_shape ct m h style features chars n False 0 True ?before) =
       shape_answer m False 0 (shape_size (length runs) (length faces) (glyphs_before runs (length runs)))
         (shape_packet ct requested named style features n units runs faces)"
    by (rule shape_answered)
  let ?size = "shape_size (length runs) (length faces) (glyphs_before runs (length runs))"
  have needed: "needed = ?size" "?size \<le> DTR_MAX_SHAPE_OUTPUT_BYTES"
    using answer query by (auto simp: shape_answer_def refused_def split: if_splits)
  obtain cg2 where cg2: "FontCatalogForHandle h fc = Some cg2" using registered by blast
  have mid: "FontCatalogForHandle h (font_history ct (calls @ [?call]) initial_catalogs) = Some named"
    using shaped_catalog [OF laid, of 0 m] survey runs needed(2)
    by (simp add: font_history_def shape_runs_def Let_def largest_u32)
  have "creations (calls @ [?call]) + creations between < 2 ^ 64 - 1" using len by simp
  from histories [OF this mid, of cg2] cg2 after
  have grown: "grown named cg2" and same: "setup_of cg2 = setup_of named" by simp_all
  have "setup_of named = setup_of counted" using survey_sound [OF survey] by simp
  also have "\<dots> = setup_of cg"
    using laid by (auto simp: laid_out_def attributedStringForText_def setup_of_def Let_def
        split: option.splits prod.splits)
  finally obtain counted2 where
    laid2: "laid_out ct h style features chars n True fc units cg2 requested runs counted2"
    and ids: "cg_faceIds counted2 = cg_faceIds cg2"
    using laid_out_again [OF laid cg2] same by metis
  have "survey_runs ct (length units) requested runs 0 [] counted2 =
      (Inr (glyphs_before runs (length runs), faces), counted2)"
    by (rule survey_again [OF survey]) (use grown ids in \<open>simp add: grown_def\<close>)
  note call = shape_runs_answer(1) [OF runs this, of True style features n True capacity]
  let ?p = "shape_packet ct requested counted2 style features n units runs faces"
  have ok: "fst (dtr_font_catalog_shape ct True h style features chars n True capacity True fc) =
      \<lparr>pk_status = DTR_STATUS_OK, pk_required = Some needed, pk_bytes = Some ?p\<rparr>"
    using call needed room shape_laid_out [OF laid2 TrueI, of capacity True] by (simp add: shape_answer_def)
  from shape_ok [OF this] have "length ?p = needed" by (metis option.inject)
  with ok show ?thesis by blast
qed

section \<open>The faces of a packet\<close>

lemma shaped_catalog_grows:
  assumes ok: "faces_ok ct cg"
    and laid: "laid_out ct h style features chars len out fc units cg requested runs counted"
    and survey: "survey_runs ct (length units) requested runs 0 [] counted = (Inr (glyphs, faces), named)"
    and runs: "runs \<noteq> []" "length runs \<le> DTR_MAX_SHAPE_RUNS"
  shows "faces_ok ct named"
    "grown named (snd (shape_runs ct memory style features len units out capacity requested runs counted))"
proof -
  have "advances ct cg counted"
    using laid attributedStringForText_advances [of ct cg units style features out] by (auto simp: laid_out_def)
  then have "faces_ok ct counted" using ok by (rule advancesD)
  from advancesD(1) [OF survey_runs_advances this, of "length units" requested runs 0 "[]"] survey
  show named: "faces_ok ct named" by simp
  let ?shaped = "snd (shape_runs ct memory style features len units out capacity requested runs counted)"
  have "?shaped = named \<or> ?shaped = recordLine ct requested runs named"
    using runs by (simp add: shape_runs_def survey Let_def split: option.split prod.split)
  then show "grown named ?shaped" using advancesD(2) [OF recordLine_advances named] by auto
qed

lemma line_faces:
  assumes line: "holds_line ct requested cg style features len units runs faces p"
  shows "distinct (map (\<lambda>i. sa_face_id (face_at p i)) [0..<unat (sh_face_count (read_shape_header p))])"
    "k < length runs \<Longrightarrow> \<exists>i < unat (sh_face_count (read_shape_header p)).
       sa_face_id (face_at p i) = sr_face_id (run_at p k)"
    "k < length runs \<Longrightarrow> sr_face_id (run_at p k) = run_face ct cg (runs ! k)"
proof -
  have count: "unat (sh_face_count (read_shape_header p)) = length faces"
    using line_head(1) [OF line] by (simp add: Let_def)
  have faces: "faces_of (map (noted ct requested cg) runs) faces" using line by (simp add: holds_line_def)
  have "map (\<lambda>i. sa_face_id (face_at p i)) [0..<length faces] = map sa_face_id faces"
    by (rule nth_equalityI) (simp_all add: line_parts(3) [OF line])
  then show "distinct (map (\<lambda>i. sa_face_id (face_at p i)) [0..<unat (sh_face_count (read_shape_header p))])"
    using faces by (simp add: count faces_of_def)
  show face: "sr_face_id (run_at p k) = run_face ct cg (runs ! k)" if "k < length runs"
    using line_parts(2) [OF line that] by (simp add: fill_run_def run_face_def)
  show "\<exists>i < unat (sh_face_count (read_shape_header p)). sa_face_id (face_at p i) = sr_face_id (run_at p k)"
    if k: "k < length runs"
  proof -
    have "noted ct requested cg (runs ! k) \<in> set (map (noted ct requested cg) runs)" using k by simp
    then have "fst (noted ct requested cg (runs ! k)) \<in> fst ` set (map (noted ct requested cg) runs)" by (rule imageI)
    then have "run_face ct cg (runs ! k) \<in> set (map sa_face_id faces)" using faces by (simp add: faces_of_def noted_def)
    then obtain i where "i < length faces" "sa_face_id (faces ! i) = run_face ct cg (runs ! k)"
      by (auto simp: in_set_conv_nth)
    then show ?thesis using face [OF k] by (auto simp: count line_parts(3) [OF line])
  qed
qed

text \<open>
  C30. What a packet names can be drawn. The faces of a packet are different; every run has its
  face among them; and whatever calls are made before and after, fewer than \<open>2 ^ 64 - 1\<close> of which
  create a catalog, as long as the catalog is registered, the identifier of that face is the one of
  the PostScript name and the variations of the font in which CoreText set the run. As long as the
  catalog has no more than \<open>2 ^ 32 - 1\<close> different faces registered in it, a font with these is what
  the identifier names, so that the glyphs of the run can be rasterized.
\<close>

theorem shaped_faces_can_be_drawn:
  assumes len: "creations calls + creations later_calls < 2 ^ 64 - 1"
    and call: "fst (dtr_font_catalog_shape ct memory h style features chars n True capacity True
      (font_history ct calls initial_catalogs)) =
        \<lparr>pk_status = DTR_STATUS_OK, pk_required = required, pk_bytes = Some p\<rparr>"
    and after: "FontCatalogForHandle h (font_history ct
      (calls @ Shape_text memory h style features chars n True capacity True # later_calls) initial_catalogs) = Some cg'"
  shows "\<exists>units cg requested runs counted.
     laid_out ct h style features chars n True (font_history ct calls initial_catalogs) units cg requested runs counted \<and>
     distinct (map (\<lambda>i. sa_face_id (face_at p i)) [0..<unat (sh_face_count (read_shape_header p))]) \<and>
     (\<forall>k < length runs. let face = sr_face_id (run_at p k) in
        (\<exists>i < unat (sh_face_count (read_shape_header p)). sa_face_id (face_at p i) = face) \<and>
        (\<exists>drawn. rn_font (runs ! k) = Some drawn \<and> cg_faceIds cg' (FontIdentityKey ct drawn) = Some face \<and>
           (card (dom (cg_faceIds cg')) \<le> 2 ^ 32 - 1 \<longrightarrow>
             (\<exists>font. fontForFaceId face cg' = Some font \<and> FontIdentityKey ct font = FontIdentityKey ct drawn))))"
proof -
  let ?before = "font_history ct calls initial_catalogs"
  let ?call = "Shape_text memory h style features chars n True capacity True"
  obtain units cg requested runs counted faces named where
    laid: "laid_out ct h style features chars n True ?before units cg requested runs counted"
    and survey: "survey_runs ct (length units) requested runs 0 [] counted =
      (Inr (glyphs_before runs (length runs), faces), named)"
    and line: "holds_line ct requested named style features n units runs faces p"
    and runs: "runs \<noteq> []" "length runs \<le> DTR_MAX_SHAPE_RUNS"
    using shape_ok [OF call] by metis
  have cg: "FontCatalogForHandle h ?before = Some cg" using laid by (simp add: laid_out_def)
  define shaped where "shaped = snd (shape_runs ct memory style features n units True capacity requested runs counted)"
  have mid: "FontCatalogForHandle h (font_history ct (calls @ [?call]) initial_catalogs) = Some shaped"
    using shaped_catalog [OF laid, of capacity memory] by (simp add: font_history_def shaped_def)
  have "faces_ok ct cg" using histories(1) [OF _ cg, of "[]" cg] cg len by simp
  note grows = shaped_catalog_grows(2) [OF this laid survey runs, where memory = memory and capacity = capacity,
      folded shaped_def]
  have "creations (calls @ [?call]) + creations later_calls < 2 ^ 64 - 1" using len by simp
  note hist = histories [OF this mid, of cg']
  have grown: "grown named cg'" and ok: "faces_ok ct cg'"
    using hist after grown_trans [OF grows] by simp_all
  have "\<exists>drawn. rn_font (runs ! k) = Some drawn \<and> cg_faceIds cg' (FontIdentityKey ct drawn) = Some (sr_face_id (run_at p k)) \<and>
      (card (dom (cg_faceIds cg')) \<le> 2 ^ 32 - 1 \<longrightarrow> (\<exists>font. fontForFaceId (sr_face_id (run_at p k)) cg' = Some font \<and>
        FontIdentityKey ct font = FontIdentityKey ct drawn))" if k: "k < length runs" for k
  proof -
    have "run_checked ct (length units) (runs ! k)" "run_registered ct named (runs ! k)"
      using line k by (auto simp: holds_line_def list_all_iff)
    then obtain drawn where drawn: "rn_font (runs ! k) = Some drawn"
      "cg_faceIds named (FontIdentityKey ct drawn) = Some (run_face ct named (runs ! k))"
      by (auto simp: run_checked_def run_registered_def)
    have known: "cg_faceIds cg' (FontIdentityKey ct drawn) = Some (sr_face_id (run_at p k))"
      unfolding line_faces(3) [OF line k]
      by (rule map_le_Some [where m = "cg_faceIds named"]) (use grown drawn(2) in \<open>simp_all add: grown_def\<close>)
    have "\<exists>font. fontForFaceId (sr_face_id (run_at p k)) cg' = Some font \<and> FontIdentityKey ct font = FontIdentityKey ct drawn"
      if "card (dom (cg_faceIds cg')) \<le> 2 ^ 32 - 1"
    proof -
      from that have "few_faces cg'" by (simp add: few_faces_def)
      from faces_okD(1) [OF ok this known] show ?thesis by (simp add: fontForFaceId_def)
    qed
    with drawn(1) known show ?thesis by blast
  qed
  with laid line_faces(1,2) [OF line] show ?thesis
    by (intro exI [of _ units] exI [of _ cg] exI [of _ requested] exI [of _ runs] exI [of _ counted])
      (simp add: Let_def)
qed

section \<open>Examples\<close>

lemma sample_laid_out:
  "laid_out sample_services 1 0 0 (Some [65]) 1 out sample_catalogs [65] sample_catalog False
     [sample_font_run \<lparr>as_text = [65], as_ligatures = False, as_attributes = [sample_attributes]\<rparr>]
     (snd (attributedStringForText sample_services [65] 0 0 out sample_catalog))"
proof -
  have "attributedStringForText sample_services [65] 0 0 out sample_catalog =
      (Some \<lparr>as_text = [65], as_ligatures = False, as_attributes = [sample_attributes]\<rparr>,
       snd (attributedStringForText sample_services [65] 0 0 out sample_catalog))"
    using sample_attributed(1) [of 0 out] by (simp add: prod_eq_iff)
  then have "\<exists>attributed. attributedStringForText sample_services [65] 0 0 out sample_catalog =
        (Some attributed, snd (attributedStringForText sample_services [65] 0 0 out sample_catalog)) \<and>
      ct_line sample_services attributed =
        Some [sample_font_run \<lparr>as_text = [65], as_ligatures = False, as_attributes = [sample_attributes]\<rparr>]"
    by (intro exI conjI) (assumption, rule sample_line)
  then show ?thesis
    using sample_decoded sample_style
    by (auto simp: laid_out_def shape_arguments_rejected_def sample_catalog_facts largest_u32)
qed

abbreviation "sample_line_run \<equiv> sample_font_run \<lparr>as_text = [65], as_ligatures = False, as_attributes = [sample_attributes]\<rparr>"

lemma sample_survey:
  assumes "cg_faceIds cg = [[77] \<mapsto> 1]"
  shows "survey_runs sample_services 1 False [sample_line_run] 0 [] cg =
    (Inr (1, [\<lparr>sa_face_id = 1, sa_flags = run_flags sample_services False False sample_line_run,
       sa_postscript_name = [77]\<rparr>]), cg)"
proof -
  have "double_of 0 \<noteq> None" by (simp add: double_of_def Let_def)
  then have "finite_bits 0" by (simp add: finite_bits_def)
  then have "check_run sample_services 1 0 sample_line_run = Inr (False, [77])"
    by (simp add: check_run_def sample_font_run_def sample_attributes_def run_out_of_bounds_def run_glyph_invalid_def
        PostScriptName_def sample_services_def ascii_def)
  moreover have "faceIdForFont sample_services False cg = (1, cg)"
    by (rule faceIdForFont_known) (simp add: sample_key assms)
  moreover have "length (rn_glyphs sample_line_run) = 1" by (simp add: sample_font_run_def)
  ultimately show ?thesis by (simp add: note_face_def)
qed

lemma sample_shaped:
  assumes "out \<or> capacity = 0"
  shows "\<exists>p. fst (dtr_font_catalog_shape sample_services True 1 0 0 (Some [65]) 1 out capacity True sample_catalogs) =
    shape_answer True out capacity 312 p"
proof -
  let ?counted = "snd (attributedStringForText sample_services [65] 0 0 out sample_catalog)"
  have "survey_runs sample_services (length [65 :: u16]) False [sample_line_run] 0 [] ?counted =
      (Inr (1, [\<lparr>sa_face_id = 1, sa_flags = run_flags sample_services False False sample_line_run,
         sa_postscript_name = [77]\<rparr>]), ?counted)"
    using sample_survey by (simp add: sample_attributed(2))
  from shape_runs_answer(1) [OF _ _ this] show ?thesis
    using shape_laid_out [OF sample_laid_out TrueI assms, of True] by (auto simp: shape_size_def)
qed

lemma sample_ok:
  "\<exists>p. fst (dtr_font_catalog_shape sample_services True 1 0 0 (Some [65]) 1 True 1000 True sample_catalogs) =
     \<lparr>pk_status = DTR_STATUS_OK, pk_required = Some 312, pk_bytes = Some p\<rparr>"
  using sample_shaped [of True 1000] by (simp add: shape_answer_def)

lemma sample_query:
  "fst (dtr_font_catalog_shape sample_services True 1 0 0 (Some [65]) 1 False 0 True sample_catalogs) =
     \<lparr>pk_status = DTR_STATUS_BUFFER_TOO_SMALL, pk_required = Some 312, pk_bytes = None\<rparr>"
  using sample_shaped [of False 0] by (simp add: shape_answer_def)

lemma sample_recorded:
  "cg_faceIds cg = [[77] \<mapsto> 1] \<Longrightarrow> cg_faceIds (recordLine sample_services False [sample_line_run] cg) = [[77] \<mapsto> 1]"
  by (simp add: recordLine_def record_run_def faceIdForFont_def sample_font_run_def sample_attributes_def Let_def sample_key
      split: prod.split)

lemma sample_shaped_faces:
  assumes "cg_faceIds cg = [[77] \<mapsto> 1]"
  shows "cg_faceIds (snd (shape_runs sample_services True 0 0 1 [65] out capacity False [sample_line_run] cg)) = [[77] \<mapsto> 1]"
  using sample_survey [OF assms] sample_recorded [OF assms] assms
  by (simp add: shape_runs_def Let_def split: option.split prod.split)

lemma sample_registered:
  assumes "out \<or> capacity = 0"
  shows "\<exists>cg. FontCatalogForHandle 1 (font_history sample_services
    (sample_calls @ [Shape_text True 1 0 0 (Some [65]) 1 out capacity True]) initial_catalogs) = Some cg \<and>
    cg_faceIds cg = [[77] \<mapsto> 1]"
proof -
  have "font_history sample_services (sample_calls @ [Shape_text True 1 0 0 (Some [65]) 1 out capacity True]) initial_catalogs =
      font_step sample_services (Shape_text True 1 0 0 (Some [65]) 1 out capacity True) sample_catalogs"
    using sample_history by (simp add: font_history_def)
  then show ?thesis
    using shaped_catalog [OF sample_laid_out assms, of True] sample_shaped_faces [OF sample_attributed(2)] by simp
qed

lemma shape_packet_glyphs_witness:
  "\<exists>p. fst (dtr_font_catalog_shape sample_services True 1 0 0 (Some [65]) 1 True 1000 True sample_catalogs) =
     \<lparr>pk_status = DTR_STATUS_OK, pk_required = Some 312, pk_bytes = Some p\<rparr> \<and>
     unat (sh_total_size (read_shape_header p)) = 312"
proof -
  obtain p where p: "fst (dtr_font_catalog_shape sample_services True 1 0 0 (Some [65]) 1 True 1000 True sample_catalogs) =
     \<lparr>pk_status = DTR_STATUS_OK, pk_required = Some 312, pk_bytes = Some p\<rparr>" using sample_ok by blast
  from shape_packet_glyphs [OF this] p show ?thesis by (auto simp: Let_def)
qed

lemma shape_clusters_witness:
  "\<exists>p. fst (dtr_font_catalog_shape sample_services True 1 0 0 (Some [65]) 1 True 1000 True sample_catalogs) =
     \<lparr>pk_status = DTR_STATUS_OK, pk_required = Some 312, pk_bytes = Some p\<rparr> \<and>
     fst (glyph_span (glyph_at p 0)) < snd (glyph_span (glyph_at p 0))"
proof -
  obtain p where p: "fst (dtr_font_catalog_shape sample_services True 1 0 0 (Some [65]) 1 True 1000 True sample_catalogs) =
     \<lparr>pk_status = DTR_STATUS_OK, pk_required = Some 312, pk_bytes = Some p\<rparr>" using sample_ok by blast
  obtain requested named units runs faces where
    line: "holds_line sample_services requested named 0 0 1 units runs faces p" and runs: "runs \<noteq> []"
    using shape_ok [OF p] by metis
  have "rn_glyphs (hd runs) \<noteq> []" using line runs by (cases runs) (auto simp: holds_line_def run_checked_def)
  then have "0 < glyphs_before runs (length runs)" using runs by (cases runs) (simp_all add: glyphs_before_def)
  then have "0 < unat (sh_glyph_count (read_shape_header p))" using line_head(1) [OF line] by (simp add: Let_def)
  from shape_clusters [OF p this] p show ?thesis by (auto simp: Let_def split: prod.splits)
qed

lemma shaped_faces_can_be_drawn_witness:
  "\<exists>p cg font. fst (dtr_font_catalog_shape sample_services True 1 0 0 (Some [65]) 1 True 1000 True sample_catalogs) =
     \<lparr>pk_status = DTR_STATUS_OK, pk_required = Some 312, pk_bytes = Some p\<rparr> \<and>
     FontCatalogForHandle 1 (font_history sample_services
      (sample_calls @ [Shape_text True 1 0 0 (Some [65]) 1 True 1000 True]) initial_catalogs) = Some cg \<and>
     fontForFaceId (sr_face_id (run_at p 0)) cg = Some font"
proof -
  obtain p where p: "fst (dtr_font_catalog_shape sample_services True 1 0 0 (Some [65]) 1 True 1000 True sample_catalogs) =
     \<lparr>pk_status = DTR_STATUS_OK, pk_required = Some 312, pk_bytes = Some p\<rparr>" using sample_ok by blast
  obtain cg where cg: "FontCatalogForHandle 1 (font_history sample_services
      (sample_calls @ [Shape_text True 1 0 0 (Some [65]) 1 True 1000 True]) initial_catalogs) = Some cg"
    "cg_faceIds cg = [[77] \<mapsto> 1]"
    using sample_registered [of True 1000] by blast
  have "creations sample_calls + creations [] < 2 ^ 64 - 1" by (simp add: sample_calls_def)
  from shaped_faces_can_be_drawn [OF this p [folded sample_history] cg(1)]
  obtain units c requested runs counted where
    laid: "laid_out sample_services 1 0 0 (Some [65]) 1 True sample_catalogs units c requested runs counted"
    and drawn: "\<And>k. k < length runs \<Longrightarrow> \<exists>font. fontForFaceId (sr_face_id (run_at p k)) cg = Some font"
    unfolding sample_history by (elim exE conjE) (force simp: cg(2) Let_def)
  have "runs \<noteq> []" using laid by (auto simp: laid_out_def sample_line)
  with drawn [of 0] obtain font where "fontForFaceId (sr_face_id (run_at p 0)) cg = Some font" by auto
  with p cg(1) show ?thesis by blast
qed

lemma size_query_then_call_witness:
  "\<exists>p. fst (dtr_font_catalog_shape sample_services True 1 0 0 (Some [65]) 1 True 312 True
       (font_history sample_services (sample_calls @ [Shape_text True 1 0 0 (Some [65]) 1 False 0 True]) initial_catalogs)) =
     \<lparr>pk_status = DTR_STATUS_OK, pk_required = Some 312, pk_bytes = Some p\<rparr> \<and> length p = 312"
proof -
  have few: "creations sample_calls + creations [] < 2 ^ 64 - 1" by (simp add: sample_calls_def)
  have "FontCatalogForHandle 1 (font_history sample_services (sample_calls @ [Shape_text True 1 0 0 (Some [65]) 1 False 0 True])
      initial_catalogs) \<noteq> None" using sample_registered [of False 0] by auto
  from size_query_then_call [OF few sample_query [folded sample_history] refl this] show ?thesis by simp
qed

end
