(* ===== verification/Das_Abi.thy ===== *)
theory Das_Abi
  imports Pty_Abi
begin

text \<open>
  The C interface of the AppleScript package,
  \<^verbatim>\<open>packages/dart_terminal_applescript_macos/native/TerminalAppleScriptPlugin.h\<close>, and the
  Foundation values its Objective-C side works on: strings as UTF-16 units, and what
  \<open>NSJSONSerialization\<close> decodes. The decoder and the encoder themselves are parameters.
\<close>

section \<open>Status codes and limits\<close>

datatype DtasStatus =
  DTAS_STATUS_OK | DTAS_STATUS_INVALID_ARGUMENT | DTAS_STATUS_UNSUPPORTED_VERSION
| DTAS_STATUS_NOT_INITIALIZED | DTAS_STATUS_ALREADY_STARTED | DTAS_STATUS_NOT_FOUND
| DTAS_STATUS_RESOURCE_EXHAUSTED | DTAS_STATUS_BUFFER_TOO_SMALL | DTAS_STATUS_WRONG_THREAD
| DTAS_STATUS_DISABLED | DTAS_STATUS_INTERNAL

datatype DtasCommandDisposition =
  DTAS_COMMAND_COMPLETED | DTAS_COMMAND_CONFIRMATION_REQUIRED | DTAS_COMMAND_DISABLED
| DTAS_COMMAND_NOT_FOUND | DTAS_COMMAND_BUSY | DTAS_COMMAND_REJECTED | DTAS_COMMAND_FAILED
| DTAS_COMMAND_TIMED_OUT | DTAS_COMMAND_DISPOSED

definition disposition_of :: "u32 \<Rightarrow> DtasCommandDisposition option" where
  "disposition_of n =
     (if n = 0 then Some DTAS_COMMAND_COMPLETED
      else if n = 1 then Some DTAS_COMMAND_CONFIRMATION_REQUIRED
      else if n = 2 then Some DTAS_COMMAND_DISABLED
      else if n = 3 then Some DTAS_COMMAND_NOT_FOUND
      else if n = 4 then Some DTAS_COMMAND_BUSY
      else if n = 5 then Some DTAS_COMMAND_REJECTED
      else if n = 6 then Some DTAS_COMMAND_FAILED
      else if n = 7 then Some DTAS_COMMAND_TIMED_OUT
      else if n = 8 then Some DTAS_COMMAND_DISPOSED else None)"

abbreviation "DTAS_MAX_WINDOWS \<equiv> (32 :: nat)"
abbreviation "DTAS_MAX_TABS_PER_WINDOW \<equiv> (64 :: nat)"
abbreviation "DTAS_MAX_TERMINALS \<equiv> (64 :: nat)"
abbreviation "DTAS_MAX_PENDING_COMMANDS \<equiv> (16 :: u32)"
abbreviation "DTAS_MAX_SNAPSHOT_BYTES \<equiv> (4194304 :: nat)"
abbreviation "DTAS_MAX_COMMAND_BYTES \<equiv> (67112960 :: nat)"
abbreviation "DTAS_MAX_OBJECT_ID_BYTES \<equiv> (63 :: nat)"
abbreviation "DTAS_DEFAULT_TIMEOUT_MICROS \<equiv> (30000000 :: u64)"
abbreviation "DTAS_MAX_TIMEOUT_MICROS \<equiv> (300000000 :: u64)"
abbreviation "kMaximumTitleBytes \<equiv> (1024 :: nat)"
abbreviation "kMaximumWorkingDirectoryBytes \<equiv> (4096 :: nat)"
abbreviation "maximum_identity \<equiv> (9223372036854775807 :: nat)"

section \<open>Strings\<close>

type_synonym ustring = "u16 list"

text \<open>A literal of the source, which is ASCII.\<close>

definition lit :: "string \<Rightarrow> ustring" where
  "lit s = map of_char s"

text \<open>
  The length in UTF-8, which Foundation reports as zero for a string with a lone surrogate.
\<close>

fun utf8_units :: "ustring \<Rightarrow> nat option" where
  "utf8_units [] = Some 0"
| "utf8_units (c # cs) =
     (if c < 0x80 then map_option ((+) 1) (utf8_units cs)
      else if c < 0x800 then map_option ((+) 2) (utf8_units cs)
      else if 0xD800 \<le> c \<and> c \<le> 0xDBFF then
        (case cs of [] \<Rightarrow> None
         | d # ds \<Rightarrow> if 0xDC00 \<le> d \<and> d \<le> 0xDFFF then map_option ((+) 4) (utf8_units ds) else None)
      else if 0xDC00 \<le> c \<and> c \<le> 0xDFFF then None
      else map_option ((+) 3) (utf8_units cs))"

definition utf8_length :: "ustring \<Rightarrow> nat" where
  "utf8_length s = (case utf8_units s of None \<Rightarrow> 0 | Some n \<Rightarrow> n)"

definition hasPrefix :: "ustring \<Rightarrow> ustring \<Rightarrow> bool" where
  "hasPrefix s p \<longleftrightarrow> take (length p) s = p"

section \<open>Decoded JSON\<close>

text \<open>
  A number is integral or not. The code compares a number's double with the double of its integer
  part; this is taken as exact, which it is up to \<open>2 ^ 53\<close> (beyond it a fraction may pass for its
  integer part). A dictionary holds each key once.
\<close>

datatype json =
  JNull
| JBool bool
| JNumber int
| JFraction
| JString ustring
| JArray "json list"
| JObject "(ustring \<times> json) list"

definition field :: "string \<Rightarrow> (ustring \<times> json) list \<Rightarrow> json option" where
  "field k d = map_of d (lit k)"

definition DtasExactKeys :: "(ustring \<times> json) list \<Rightarrow> string list \<Rightarrow> bool" where
  "DtasExactKeys d keys \<longleftrightarrow> length d = length keys \<and> (\<forall>k \<in> set keys. field k d \<noteq> None)"

definition json_bool :: "json option \<Rightarrow> bool option" where
  "json_bool v = (case v of Some (JBool b) \<Rightarrow> Some b | _ \<Rightarrow> None)"

definition json_string :: "json option \<Rightarrow> ustring option" where
  "json_string v = (case v of Some (JString s) \<Rightarrow> Some s | _ \<Rightarrow> None)"

definition json_array :: "json option \<Rightarrow> json list option" where
  "json_array v = (case v of Some (JArray xs) \<Rightarrow> Some xs | _ \<Rightarrow> None)"

definition json_object :: "json option \<Rightarrow> (ustring \<times> json) list option" where
  "json_object v = (case v of Some (JObject d) \<Rightarrow> Some d | _ \<Rightarrow> None)"

definition DtasUnsignedInteger :: "json option \<Rightarrow> nat \<Rightarrow> nat option" where
  "DtasUnsignedInteger v maximum = (case v of
     Some (JNumber n) \<Rightarrow> if 0 \<le> n \<and> nat n \<le> maximum then Some (nat n) else None
   | _ \<Rightarrow> None)"

section \<open>Safe texts and identifiers\<close>

definition unsafe_unit :: "u16 \<Rightarrow> bool" where
  "unsafe_unit c \<longleftrightarrow> c \<le> 0x1F \<or> (0x7F \<le> c \<and> c \<le> 0x9F) \<or> c = 0x061C \<or> c = 0x200E \<or> c = 0x200F \<or>
     c = 0x2028 \<or> c = 0x2029 \<or> (0x202A \<le> c \<and> c \<le> 0x202E) \<or> (0x2066 \<le> c \<and> c \<le> 0x2069) \<or>
     (0xD800 \<le> c \<and> c \<le> 0xDFFF)"

definition DtasSafeText :: "json option \<Rightarrow> nat \<Rightarrow> bool" where
  "DtasSafeText v maximum = (case json_string v of None \<Rightarrow> False
   | Some s \<Rightarrow> utf8_length s \<le> maximum \<and> (\<forall>c \<in> set s. \<not> unsafe_unit c))"

definition digit :: "u16 \<Rightarrow> bool" where
  "digit c \<longleftrightarrow> 0x30 \<le> c \<and> c \<le> 0x39"

definition scanUnsignedLongLong :: "ustring \<Rightarrow> nat" where
  "scanUnsignedLongLong ds = foldl (\<lambda>n c. n * 10 + (unat c - 48)) 0 ds"

definition DtasValidIdentifier :: "json option \<Rightarrow> string \<Rightarrow> bool" where
  "DtasValidIdentifier v prefix = (case json_string v of None \<Rightarrow> False
   | Some s \<Rightarrow>
     utf8_length s \<le> DTAS_MAX_OBJECT_ID_BYTES \<and> hasPrefix s (lit (prefix @ '':'')) \<and>
     (let digits = drop (length prefix + 1) s
      in digits \<noteq> [] \<and> \<not> (1 < length digits \<and> hasPrefix digits (lit ''0'')) \<and> length digits \<le> 19 \<and>
        (\<forall>c \<in> set digits. digit c) \<and>
        0 < scanUnsignedLongLong digits \<and> scanUnsignedLongLong digits \<le> maximum_identity))"

end
