(* ===== verification/Das_Snapshot.thy ===== *)
theory Das_Snapshot
  imports Das_Abi
begin

text \<open>
  \<open>DtasBuildSnapshot\<close> of
  \<^verbatim>\<open>packages/dart_terminal_applescript_macos/native/TerminalAppleScriptPlugin.m\<close>: the tree of
  windows, tabs and terminals that scripts see is built from a decoded snapshot, which is
  refused as a whole when anything in it is out of line.
\<close>

section \<open>The scriptable objects\<close>

record DTASScriptTerminal =
  term_uniqueID :: ustring
  term_title :: ustring
  term_workingDirectory :: ustring

record DTASScriptTab =
  tab_uniqueID :: ustring
  tab_title :: ustring
  tab_index :: nat
  tab_selected :: bool
  tab_terminals :: "DTASScriptTerminal list"
  tab_focusedTerminal :: DTASScriptTerminal

record DTASScriptWindow =
  win_uniqueID :: ustring
  win_title :: ustring
  win_orderedIndex :: nat
  win_frontmost :: bool
  win_tabs :: "DTASScriptTab list"
  win_selectedTab :: DTASScriptTab

text \<open>The dictionary of objects by identifier is used for its keys only: their list.\<close>

type_synonym objects = "ustring list"

text \<open>The identifier that was checked before; its string.\<close>

definition text_of :: "json option \<Rightarrow> ustring" where
  "text_of v = (case json_string v of None \<Rightarrow> [] | Some s \<Rightarrow> s)"

definition flag_of :: "json option \<Rightarrow> bool" where
  "flag_of v = (json_bool v = Some True)"

section \<open>Terminals\<close>

definition cwd_of :: "json option \<Rightarrow> ustring option" where
  "cwd_of v =
     (if v = Some JNull then Some []
      else if DtasSafeText v kMaximumWorkingDirectoryBytes \<and> hasPrefix (text_of v) (lit ''/'')
      then Some (text_of v) else None)"

definition build_terminal :: "objects \<Rightarrow> json \<Rightarrow> DTASScriptTerminal option" where
  "build_terminal objects raw = (case json_object (Some raw) of None \<Rightarrow> None
   | Some d \<Rightarrow>
     if \<not> DtasExactKeys d [''id'', ''title'', ''workingDirectory''] \<or>
        \<not> DtasValidIdentifier (field ''id'' d) ''terminal'' \<or>
        \<not> DtasSafeText (field ''title'' d) kMaximumTitleBytes \<or>
        text_of (field ''id'' d) \<in> set objects
     then None
     else map_option (\<lambda>cwd. \<lparr>term_uniqueID = text_of (field ''id'' d),
         term_title = text_of (field ''title'' d), term_workingDirectory = cwd\<rparr>)
       (cwd_of (field ''workingDirectory'' d)))"

fun build_terminals :: "objects \<Rightarrow> json list \<Rightarrow> (DTASScriptTerminal list \<times> objects) option" where
  "build_terminals objects [] = Some ([], objects)"
| "build_terminals objects (raw # raws) = (case build_terminal objects raw of None \<Rightarrow> None
   | Some t \<Rightarrow> (case build_terminals (term_uniqueID t # objects) raws of None \<Rightarrow> None
     | Some (ts, objects') \<Rightarrow> Some (t # ts, objects')))"

section \<open>Tabs\<close>

text \<open>One tab at a position, after \<open>shown\<close> terminals.\<close>

definition build_tab :: "objects \<Rightarrow> nat \<Rightarrow> nat \<Rightarrow> json \<Rightarrow> (DTASScriptTab \<times> objects) option" where
  "build_tab objects shown position raw = (case json_object (Some raw) of None \<Rightarrow> None
   | Some d \<Rightarrow>
     if \<not> DtasExactKeys d [''id'', ''title'', ''index'', ''selected'', ''focusedTerminal'', ''terminals''] \<or>
        \<not> DtasValidIdentifier (field ''id'' d) ''tab'' \<or>
        \<not> DtasSafeText (field ''title'' d) kMaximumTitleBytes \<or>
        json_bool (field ''selected'' d) = None \<or>
        \<not> DtasValidIdentifier (field ''focusedTerminal'' d) ''terminal'' \<or>
        json_array (field ''terminals'' d) = None \<or>
        DtasUnsignedInteger (field ''index'' d) DTAS_MAX_TABS_PER_WINDOW \<noteq> Some (position + 1) \<or>
        text_of (field ''id'' d) \<in> set objects
     then None
     else let raws = the (json_array (field ''terminals'' d)) in
       if raws = [] \<or> DTAS_MAX_TERMINALS < shown + length raws then None
       else (case build_terminals objects raws of None \<Rightarrow> None
         | Some (ts, objects') \<Rightarrow>
           (let focused = filter (\<lambda>t. term_uniqueID t = text_of (field ''focusedTerminal'' d)) ts
            in if focused = [] then None
               else Some (\<lparr>tab_uniqueID = text_of (field ''id'' d),
                tab_title = text_of (field ''title'' d), tab_index = position + 1,
                tab_selected = flag_of (field ''selected'' d), tab_terminals = ts,
                tab_focusedTerminal = last focused\<rparr>, text_of (field ''id'' d) # objects'))))"

text \<open>
  The loop over a window's tabs: \<open>selected\<close> is the selected tab so far, \<open>wanted\<close> the identifier
  the window names.
\<close>

fun build_tabs ::
  "ustring \<Rightarrow> objects \<Rightarrow> nat \<Rightarrow> nat \<Rightarrow> DTASScriptTab option \<Rightarrow> json list \<Rightarrow>
    (DTASScriptTab list \<times> DTASScriptTab option \<times> objects \<times> nat) option" where
  "build_tabs wanted objects shown position selected [] = Some ([], selected, objects, shown)"
| "build_tabs wanted objects shown position selected (raw # raws) =
     (case build_tab objects shown position raw of None \<Rightarrow> None
      | Some (t, objects') \<Rightarrow>
        if (tab_uniqueID t = wanted \<and> (\<not> tab_selected t \<or> selected \<noteq> None)) \<or>
           (tab_uniqueID t \<noteq> wanted \<and> tab_selected t)
        then None
        else (case build_tabs wanted objects' (shown + length (tab_terminals t)) (position + 1)
            (if tab_uniqueID t = wanted then Some t else selected) raws of None \<Rightarrow> None
          | Some (ts, rest) \<Rightarrow> Some (t # ts, rest)))"

section \<open>Windows\<close>

definition build_window ::
  "objects \<Rightarrow> nat \<Rightarrow> nat \<Rightarrow> nat \<Rightarrow> json \<Rightarrow> (DTASScriptWindow \<times> objects \<times> nat \<times> nat) option" where
  "build_window objects shown frontmost position raw = (case json_object (Some raw) of None \<Rightarrow> None
   | Some d \<Rightarrow>
     if \<not> DtasExactKeys d [''id'', ''title'', ''index'', ''frontmost'', ''selectedTab'', ''tabs''] \<or>
        \<not> DtasValidIdentifier (field ''id'' d) ''window'' \<or>
        \<not> DtasSafeText (field ''title'' d) kMaximumTitleBytes \<or>
        json_bool (field ''frontmost'' d) = None \<or>
        \<not> DtasValidIdentifier (field ''selectedTab'' d) ''tab'' \<or>
        json_array (field ''tabs'' d) = None \<or>
        DtasUnsignedInteger (field ''index'' d) DTAS_MAX_WINDOWS \<noteq> Some (position + 1) \<or>
        text_of (field ''id'' d) \<in> set objects
     then None
     else let front = (if flag_of (field ''frontmost'' d) then frontmost + 1 else frontmost);
         raws = the (json_array (field ''tabs'' d)) in
       if 1 < front \<or> raws = [] \<or> DTAS_MAX_TABS_PER_WINDOW < length raws then None
       else (case build_tabs (text_of (field ''selectedTab'' d)) objects shown 0 None raws of
           Some (ts, Some selected, objects', shown') \<Rightarrow>
             Some (\<lparr>win_uniqueID = text_of (field ''id'' d), win_title = text_of (field ''title'' d),
               win_orderedIndex = position + 1, win_frontmost = flag_of (field ''frontmost'' d),
               win_tabs = ts, win_selectedTab = selected\<rparr>,
               text_of (field ''id'' d) # objects', shown', front)
         | _ \<Rightarrow> None))"

fun build_windows ::
  "objects \<Rightarrow> nat \<Rightarrow> nat \<Rightarrow> nat \<Rightarrow> json list \<Rightarrow> (DTASScriptWindow list \<times> objects) option" where
  "build_windows objects shown frontmost position [] = Some ([], objects)"
| "build_windows objects shown frontmost position (raw # raws) =
     (case build_window objects shown frontmost position raw of None \<Rightarrow> None
      | Some (w, objects', shown', front') \<Rightarrow>
        (case build_windows objects' shown' front' (position + 1) raws of None \<Rightarrow> None
         | Some (ws, objects'') \<Rightarrow> Some (w # ws, objects'')))"

text \<open>The snapshot: windows, identifiers, generation, whether scripting is enabled.\<close>

definition DtasBuildSnapshot ::
  "(ustring \<times> json) list \<Rightarrow> (DTASScriptWindow list \<times> objects \<times> nat \<times> bool) option" where
  "DtasBuildSnapshot root =
     (case (json_bool (field ''enabled'' root), json_array (field ''windows'' root),
        DtasUnsignedInteger (field ''version'' root) 1,
        DtasUnsignedInteger (field ''generation'' root) maximum_identity) of
        (Some enabled, Some raws, Some version, Some generation) \<Rightarrow>
          if \<not> DtasExactKeys root [''version'', ''generation'', ''enabled'', ''windows''] \<or> version \<noteq> 1 \<or>
             DTAS_MAX_WINDOWS < length raws \<or> (\<not> enabled \<and> raws \<noteq> []) then None
          else map_option (\<lambda>(ws, objects). (ws, objects, generation, enabled)) (build_windows [] 0 0 0 raws)
      | _ \<Rightarrow> None)"

end
