(* ===== verification/Das_Session.thy ===== *)
theory Das_Session
  imports Das_Snapshot
begin

text \<open>
  The session of the AppleScript bridge,
  \<^verbatim>\<open>packages/dart_terminal_applescript_macos/native/TerminalAppleScriptPlugin.m\<close>: scripts submit
  commands, each of which is suspended until the application completes it, its time is up,
  scripting is disabled or the session ends; the application takes the commands in order. All
  of it runs on the main thread; a timeout is a block on its queue.

  The static variables are one record. A pending command is an object, told from others by
  its address. The bytes of a packet are decoded and made by \<open>NSJSONSerialization\<close>, which are
  the parameters \<open>decode\<close> and \<open>encode\<close>. \<open>das_log\<close> records what happens to the script commands.
\<close>

section \<open>State\<close>

record DTASPendingCommand =
  pc_address :: nat
  pc_operationID :: nat
  pc_packet :: "byte list"
  pc_command :: "nat option"

datatype command_result =
  Succeeded "ustring option"
| Errored DtasCommandDisposition
| ObjectUnavailable

datatype script_event =
  Suspended nat
| Resumed nat command_result
| Rejected nat DtasStatus

record das =
  g_services :: "nat option"
  g_started :: bool
  g_enabled :: bool
  g_generation :: nat
  g_next_operation_id :: nat
  g_timeout_micros :: u64
  g_maximum_pending :: nat
  g_windows :: "DTASScriptWindow list"
  g_objects_by_id :: objects
  g_command_queue :: "DTASPendingCommand list"
  g_pending :: "DTASPendingCommand list"
  g_resumed_count :: nat
  g_rejected_count :: nat
  das_timers :: "DTASPendingCommand list"
  das_allocated :: nat
  das_log :: "script_event list"

definition das_initial :: das where
  "das_initial = \<lparr>g_services = None, g_started = False, g_enabled = False, g_generation = 0,
     g_next_operation_id = 1, g_timeout_micros = DTAS_DEFAULT_TIMEOUT_MICROS,
     g_maximum_pending = unat DTAS_MAX_PENDING_COMMANDS, g_windows = [], g_objects_by_id = [],
     g_command_queue = [], g_pending = [], g_resumed_count = 0, g_rejected_count = 0,
     das_timers = [], das_allocated = 0, das_log = []\<rparr>"

definition pending_of :: "nat \<Rightarrow> das \<Rightarrow> DTASPendingCommand option" where
  "pending_of op s = find (\<lambda>p. pc_operationID p = op) (g_pending s)"

section \<open>Completing a command\<close>

definition completion_result :: "DtasCommandDisposition \<Rightarrow> ustring option \<Rightarrow> das \<Rightarrow> command_result" where
  "completion_result disposition object_id s =
     (if disposition \<noteq> DTAS_COMMAND_COMPLETED then Errored disposition
      else case object_id of None \<Rightarrow> Succeeded None
      | Some i \<Rightarrow> if i \<in> set (g_objects_by_id s) then Succeeded (Some i) else ObjectUnavailable)"

definition DtasCompletePending ::
  "DTASPendingCommand \<Rightarrow> DtasCommandDisposition \<Rightarrow> ustring option \<Rightarrow> das \<Rightarrow> das" where
  "DtasCompletePending p disposition object_id s =
     (if pending_of (pc_operationID p) s \<noteq> Some p then s
      else s\<lparr>g_pending := filter (\<lambda>q. pc_operationID q \<noteq> pc_operationID p) (g_pending s),
             g_command_queue := filter (\<lambda>q. q \<noteq> p) (g_command_queue s),
             das_log := das_log s @ (case pc_command p of None \<Rightarrow> []
               | Some c \<Rightarrow> [Resumed c (completion_result disposition object_id s)]),
             g_resumed_count := g_resumed_count s + 1\<rparr>)"

section \<open>Command packets\<close>

definition null_field :: "string \<Rightarrow> (ustring \<times> json) list \<Rightarrow> bool" where
  "null_field k d \<longleftrightarrow> field k d = Some JNull"

definition packet_shape :: "(ustring \<times> json) list \<Rightarrow> bool" where
  "packet_shape d =
     (let kind = text_of (field ''kind'' d); target = field ''target'' d; direction = text_of (field ''direction'' d);
          null_target = null_field ''target'' d; null_direction = null_field ''direction'' d;
          null_text = null_field ''text'' d
      in if kind = lit ''newWindow'' then null_target \<and> null_direction \<and> null_text
         else if kind = lit ''newTab'' \<or> kind = lit ''closeWindow'' then
           DtasValidIdentifier target ''window'' \<and> null_direction \<and> null_text
         else if kind = lit ''closeTab'' then DtasValidIdentifier target ''tab'' \<and> null_direction \<and> null_text
         else if kind = lit ''focus'' \<or> kind = lit ''closeTerminal'' then
           DtasValidIdentifier target ''terminal'' \<and> null_direction \<and> null_text
         else if kind = lit ''split'' then
           DtasValidIdentifier target ''terminal'' \<and> json_string (field ''direction'' d) \<noteq> None \<and>
           direction \<in> {lit ''right'', lit ''left'', lit ''down'', lit ''up''} \<and> null_text
         else if kind = lit ''inputText'' then
           DtasValidIdentifier target ''terminal'' \<and> null_direction \<and>
           json_string (field ''text'' d) \<noteq> None \<and> 0 < utf8_length (text_of (field ''text'' d)) \<and>
           utf8_length (text_of (field ''text'' d)) \<le> 67108864
         else False)"

definition DtasCommandPacket :: "(ustring \<times> json) list \<Rightarrow> nat option" where
  "DtasCommandPacket d =
     (if \<not> DtasExactKeys d [''version'', ''operationId'', ''kind'', ''target'', ''direction'', ''text''] \<or>
         json_string (field ''kind'' d) = None
      then None
      else case (DtasUnsignedInteger (field ''version'' d) 1,
          DtasUnsignedInteger (field ''operationId'' d) maximum_identity) of
        (Some version, Some operation) \<Rightarrow>
          if version = 1 \<and> operation \<noteq> 0 \<and> packet_shape d then Some operation else None
      | _ \<Rightarrow> None)"

section \<open>Submitting\<close>

definition DtasEnqueuePacket ::
  "(byte list \<Rightarrow> json option) \<Rightarrow> byte list \<Rightarrow> nat option \<Rightarrow> das \<Rightarrow> DtasStatus \<times> das" where
  "DtasEnqueuePacket decode packet command s =
     (if \<not> g_started s then (DTAS_STATUS_NOT_INITIALIZED, s)
      else if \<not> g_enabled s then (DTAS_STATUS_DISABLED, s)
      else if g_maximum_pending s \<le> length (g_pending s) then (DTAS_STATUS_RESOURCE_EXHAUSTED, s)
      else case Option.bind (json_object (decode packet)) DtasCommandPacket of
        None \<Rightarrow> (DTAS_STATUS_INVALID_ARGUMENT, s)
      | Some operation \<Rightarrow>
        if pending_of operation s \<noteq> None then (DTAS_STATUS_INVALID_ARGUMENT, s)
        else let p = \<lparr>pc_address = das_allocated s, pc_operationID = operation, pc_packet = packet,
              pc_command = command\<rparr>
          in (DTAS_STATUS_OK, s\<lparr>das_allocated := das_allocated s + 1,
            das_log := das_log s @ (case command of None \<Rightarrow> [] | Some c \<Rightarrow> [Suspended c]),
            g_pending := g_pending s @ [p], g_command_queue := g_command_queue s @ [p],
            das_timers := das_timers s @ [p]\<rparr>))"

definition or_null :: "ustring option \<Rightarrow> json" where
  "or_null v = (case v of None \<Rightarrow> JNull | Some s \<Rightarrow> JString s)"

text \<open>The identifier is assigned even when the packet cannot be made.\<close>

definition DtasCreateCommandPacket ::
  "(json \<Rightarrow> byte list option) \<Rightarrow> string \<Rightarrow> ustring option \<Rightarrow> ustring option \<Rightarrow> ustring option \<Rightarrow> das \<Rightarrow>
    byte list option \<times> das" where
  "DtasCreateCommandPacket encode kind target direction txt s =
     (if g_next_operation_id s = 0 \<or> maximum_identity < g_next_operation_id s then (None, s)
      else let object = JObject [(lit ''version'', JNumber 1),
          (lit ''operationId'', JNumber (int (g_next_operation_id s))), (lit ''kind'', JString (lit kind)),
          (lit ''target'', or_null target), (lit ''direction'', or_null direction),
          (lit ''text'', or_null txt)];
        s1 = s\<lparr>g_next_operation_id := g_next_operation_id s + 1\<rparr>
      in case encode object of
          None \<Rightarrow> (None, s1)
        | Some data \<Rightarrow> if data = [] \<or> DTAS_MAX_COMMAND_BYTES < length data then (None, s1) else (Some data, s1))"

definition DtasRejectCommand :: "nat \<Rightarrow> DtasStatus \<Rightarrow> das \<Rightarrow> das" where
  "DtasRejectCommand command status s =
     s\<lparr>g_rejected_count := g_rejected_count s + 1, das_log := das_log s @ [Rejected command status]\<rparr>"

definition DtasSubmitCommand ::
  "(json \<Rightarrow> byte list option) \<Rightarrow> (byte list \<Rightarrow> json option) \<Rightarrow> nat \<Rightarrow> string \<Rightarrow> ustring option \<Rightarrow>
    ustring option \<Rightarrow> ustring option \<Rightarrow> das \<Rightarrow> das" where
  "DtasSubmitCommand encode decode command kind target direction txt s =
     (case DtasCreateCommandPacket encode kind target direction txt s of
        (None, s1) \<Rightarrow> DtasRejectCommand command DTAS_STATUS_INTERNAL s1
      | (Some packet, s1) \<Rightarrow>
        (case DtasEnqueuePacket decode packet (Some command) s1 of
          (status, s2) \<Rightarrow> if status = DTAS_STATUS_OK then s2 else DtasRejectCommand command status s2))"

section \<open>The exported functions\<close>

definition dtas_initialize :: "bool \<Rightarrow> bool \<Rightarrow> nat option \<Rightarrow> das \<Rightarrow> DtasStatus \<times> das" where
  "dtas_initialize main compatible services s =
     (if \<not> main then (DTAS_STATUS_WRONG_THREAD, s)
      else case services of None \<Rightarrow> (DTAS_STATUS_UNSUPPORTED_VERSION, s)
      | Some p \<Rightarrow>
        if \<not> compatible then (DTAS_STATUS_UNSUPPORTED_VERSION, s)
        else case g_services s of
          Some q \<Rightarrow> (if q = p then DTAS_STATUS_OK else DTAS_STATUS_INVALID_ARGUMENT, s)
        | None \<Rightarrow> (DTAS_STATUS_OK, s\<lparr>g_services := Some p\<rparr>))"

definition dtas_session_start :: "bool \<Rightarrow> u32 \<Rightarrow> u64 \<Rightarrow> das \<Rightarrow> DtasStatus \<times> das" where
  "dtas_session_start main maximum_pending_commands timeout_micros s =
     (if \<not> main then (DTAS_STATUS_WRONG_THREAD, s)
      else if g_services s = None then (DTAS_STATUS_NOT_INITIALIZED, s)
      else if g_started s then (DTAS_STATUS_ALREADY_STARTED, s)
      else if maximum_pending_commands = 0 \<or> DTAS_MAX_PENDING_COMMANDS < maximum_pending_commands \<or>
        timeout_micros = 0 \<or> DTAS_MAX_TIMEOUT_MICROS < timeout_micros
      then (DTAS_STATUS_INVALID_ARGUMENT, s)
      else (DTAS_STATUS_OK, s\<lparr>g_started := True, g_enabled := False, g_generation := 0,
        g_next_operation_id := 1, g_timeout_micros := timeout_micros,
        g_maximum_pending := unat maximum_pending_commands, g_windows := [], g_objects_by_id := [],
        g_command_queue := [], g_pending := [], g_resumed_count := 0, g_rejected_count := 0\<rparr>))"

text \<open>The loop over \<open>g_pending.allValues\<close>. A dictionary's values have no order; here they are taken
  in the order of their arrival.\<close>

definition complete_all :: "DtasCommandDisposition \<Rightarrow> das \<Rightarrow> das" where
  "complete_all disposition s = fold (\<lambda>p. DtasCompletePending p disposition None) (g_pending s) s"

definition dtas_publish_snapshot ::
  "(byte list \<Rightarrow> json option) \<Rightarrow> bool \<Rightarrow> byte list option \<Rightarrow> das \<Rightarrow> DtasStatus \<times> das" where
  "dtas_publish_snapshot decode main bytes s =
     (if \<not> main then (DTAS_STATUS_WRONG_THREAD, s)
      else if \<not> g_started s then (DTAS_STATUS_NOT_INITIALIZED, s)
      else case bytes of None \<Rightarrow> (DTAS_STATUS_INVALID_ARGUMENT, s)
      | Some data \<Rightarrow>
        if data = [] \<or> DTAS_MAX_SNAPSHOT_BYTES < length data then (DTAS_STATUS_INVALID_ARGUMENT, s)
        else case Option.bind (json_object (decode data)) DtasBuildSnapshot of
          None \<Rightarrow> (DTAS_STATUS_INVALID_ARGUMENT, s)
        | Some (windows, objects, generation, enabled) \<Rightarrow>
            let s1 = s\<lparr>g_windows := windows, g_objects_by_id := objects, g_generation := generation,
              g_enabled := enabled\<rparr>
            in (DTAS_STATUS_OK,
              if \<not> enabled \<and> g_pending s1 \<noteq> [] then complete_all DTAS_COMMAND_DISABLED s1 else s1))"

text \<open>
  \<open>dtas_take_command\<close>: the output buffer's capacity or \<open>None\<close> for the null pointer. The length
  and the packet that are written to the caller are part of the answer.
\<close>

definition dtas_take_command ::
  "bool \<Rightarrow> nat option \<Rightarrow> bool \<Rightarrow> das \<Rightarrow> (DtasStatus \<times> nat option \<times> byte list option) \<times> das" where
  "dtas_take_command main output has_length s =
     (if \<not> main then ((DTAS_STATUS_WRONG_THREAD, None, None), s)
      else if \<not> g_started s then ((DTAS_STATUS_NOT_INITIALIZED, None, None), s)
      else if \<not> has_length then ((DTAS_STATUS_INVALID_ARGUMENT, None, None), s)
      else case g_command_queue s of
        [] \<Rightarrow> ((DTAS_STATUS_NOT_FOUND, Some 0, None), s)
      | p # ps \<Rightarrow>
        if output = None \<or> the output < length (pc_packet p)
        then ((DTAS_STATUS_BUFFER_TOO_SMALL, Some (length (pc_packet p)), None), s)
        else ((DTAS_STATUS_OK, Some (length (pc_packet p)), Some (pc_packet p)), s\<lparr>g_command_queue := ps\<rparr>))"

definition DtasPendingCommandKind :: "(byte list \<Rightarrow> json option) \<Rightarrow> DTASPendingCommand \<Rightarrow> ustring option" where
  "DtasPendingCommandKind decode p =
     Option.bind (json_object (decode (pc_packet p))) (\<lambda>d. json_string (field ''kind'' d))"

definition DtasCompletedObjectPrefix :: "ustring \<Rightarrow> string option" where
  "DtasCompletedObjectPrefix kind =
     (if kind = lit ''newWindow'' then Some ''window''
      else if kind = lit ''newTab'' then Some ''tab''
      else if kind = lit ''split'' then Some ''terminal'' else None)"

text \<open>
  The object identifier is \<open>None\<close> for the null pointer; its bytes are read as ASCII, which
  fails on others.
\<close>

definition ascii_string :: "byte list \<Rightarrow> ustring option" where
  "ascii_string bs = (if \<forall>b \<in> set bs. b < 128 then Some (map ucast bs) else None)"

definition dtas_complete_command ::
  "(byte list \<Rightarrow> json option) \<Rightarrow> bool \<Rightarrow> nat \<Rightarrow> u32 \<Rightarrow> byte list option \<Rightarrow> das \<Rightarrow> DtasStatus \<times> das" where
  "dtas_complete_command decode main operation disposition object_id s =
     (if \<not> main then (DTAS_STATUS_WRONG_THREAD, s)
      else if \<not> g_started s then (DTAS_STATUS_NOT_INITIALIZED, s)
      else case disposition_of disposition of None \<Rightarrow> (DTAS_STATUS_INVALID_ARGUMENT, s)
      | Some d \<Rightarrow>
        if operation = 0 \<or> object_id = Some [] \<or>
           (object_id \<noteq> None \<and> (DTAS_MAX_OBJECT_ID_BYTES < length (the object_id) \<or> d \<noteq> DTAS_COMMAND_COMPLETED))
        then (DTAS_STATUS_INVALID_ARGUMENT, s)
        else case pending_of operation s of None \<Rightarrow> (DTAS_STATUS_NOT_FOUND, s)
        | Some p \<Rightarrow>
          (case DtasPendingCommandKind decode p of None \<Rightarrow> (DTAS_STATUS_INTERNAL, s)
           | Some kind \<Rightarrow>
             let expected = DtasCompletedObjectPrefix kind in
             if d = DTAS_COMMAND_COMPLETED \<and> (expected \<noteq> None) \<noteq> (object_id \<noteq> None)
             then (DTAS_STATUS_INVALID_ARGUMENT, s)
             else (case object_id of
                 None \<Rightarrow> (DTAS_STATUS_OK, DtasCompletePending p d None s)
               | Some bytes \<Rightarrow>
                 (case ascii_string bytes of None \<Rightarrow> (DTAS_STATUS_INVALID_ARGUMENT, s)
                  | Some identifier \<Rightarrow>
                    if \<not> DtasValidIdentifier (Some (JString identifier)) (the expected)
                    then (DTAS_STATUS_INVALID_ARGUMENT, s)
                    else if identifier \<notin> set (g_objects_by_id s) then (DTAS_STATUS_NOT_FOUND, s)
                    else (DTAS_STATUS_OK, DtasCompletePending p d (Some identifier) s)))))"

definition dtas_session_shutdown :: "bool \<Rightarrow> das \<Rightarrow> DtasStatus \<times> das" where
  "dtas_session_shutdown main s =
     (if \<not> main then (DTAS_STATUS_WRONG_THREAD, s)
      else if \<not> g_started s then (DTAS_STATUS_NOT_INITIALIZED, s)
      else (DTAS_STATUS_OK, (complete_all DTAS_COMMAND_DISPOSED s)\<lparr>g_started := False, g_enabled := False,
        g_generation := 0, g_windows := [], g_objects_by_id := [], g_command_queue := [], g_pending := []\<rparr>))"

definition dtas_enqueue_self_automation_command ::
  "(byte list \<Rightarrow> json option) \<Rightarrow> bool \<Rightarrow> byte list option \<Rightarrow> das \<Rightarrow> DtasStatus \<times> das" where
  "dtas_enqueue_self_automation_command decode main bytes s =
     (if \<not> main then (DTAS_STATUS_WRONG_THREAD, s)
      else case bytes of None \<Rightarrow> (DTAS_STATUS_INVALID_ARGUMENT, s)
      | Some data \<Rightarrow>
        if data = [] \<or> DTAS_MAX_COMMAND_BYTES < length data then (DTAS_STATUS_INVALID_ARGUMENT, s)
        else (case DtasEnqueuePacket decode data None s of
          (status, s1) \<Rightarrow> (status, if status = DTAS_STATUS_OK then s1
            else s1\<lparr>g_rejected_count := g_rejected_count s1 + 1\<rparr>)))"

text \<open>The block of a timeout: it completes the command if that very object is still pending.\<close>

definition timeout_fires :: "DTASPendingCommand \<Rightarrow> das \<Rightarrow> das" where
  "timeout_fires p s =
     (let s1 = s\<lparr>das_timers := remove1 p (das_timers s)\<rparr>
      in if pending_of (pc_operationID p) s1 = Some p
         then DtasCompletePending p DTAS_COMMAND_TIMED_OUT None s1 else s1)"

section \<open>The summary\<close>

record DtasSummaryV1 =
  sum_generation :: nat
  sum_window_count :: nat
  sum_tab_count :: nat
  sum_terminal_count :: nat
  sum_queued_command_count :: nat
  sum_pending_command_count :: nat
  sum_resumed_command_count :: nat
  sum_rejected_command_count :: nat
  sum_started :: bool
  sum_enabled :: bool

definition das_summary_layout :: "nat list" where
  "das_summary_layout = [4, 4, 8, 8, 8, 8, 8, 8, 8, 8, 4, 4, 4, 4, 4, 4]"

definition dtas_debug_summary :: "bool \<Rightarrow> (nat \<times> u32) option \<Rightarrow> das \<Rightarrow> DtasStatus + DtasSummaryV1" where
  "dtas_debug_summary main summary s =
     (if \<not> main then Inl DTAS_STATUS_WRONG_THREAD
      else case summary of None \<Rightarrow> Inl DTAS_STATUS_INVALID_ARGUMENT
      | Some (struct_size, version) \<Rightarrow>
        if struct_size < struct_sizeof das_summary_layout \<or> version \<noteq> 1 then Inl DTAS_STATUS_INVALID_ARGUMENT
        else Inr \<lparr>sum_generation = g_generation s, sum_window_count = length (g_windows s),
          sum_tab_count = sum_list (map (length \<circ> win_tabs) (g_windows s)),
          sum_terminal_count =
            sum_list (map (\<lambda>w. sum_list (map (length \<circ> tab_terminals) (win_tabs w))) (g_windows s)),
          sum_queued_command_count = length (g_command_queue s),
          sum_pending_command_count = length (g_pending s),
          sum_resumed_command_count = g_resumed_count s,
          sum_rejected_command_count = g_rejected_count s,
          sum_started = g_started s, sum_enabled = g_enabled s\<rparr>)"

end
