(* ===== verification/Das_Inv.thy ===== *)
theory Das_Inv
  imports Das_Session "HOL-Library.Sublist" "HOL-Library.Multiset"
begin

text \<open>
  The session of the AppleScript bridge as a state machine, and its invariant: what is queued is
  pending, what is pending has its timeout, and every script command that was suspended is
  either pending or was resumed once. The parameters \<open>decode\<close> and \<open>encode\<close> stand for
  \<open>NSJSONSerialization\<close> and nothing is assumed of them here.
\<close>

section \<open>The steps\<close>

definition suspended :: "das \<Rightarrow> nat list" where
  "suspended s = List.map_filter (\<lambda>e. case e of Suspended c \<Rightarrow> Some c | _ \<Rightarrow> None) (das_log s)"

definition resumed :: "das \<Rightarrow> nat list" where
  "resumed s = List.map_filter (\<lambda>e. case e of Resumed c r \<Rightarrow> Some c | _ \<Rightarrow> None) (das_log s)"

definition pending_commands :: "das \<Rightarrow> nat list" where
  "pending_commands s = List.map_filter pc_command (g_pending s)"

text \<open>
  One call or one timeout. A script command runs its implementation once, so the command that is
  submitted was not suspended before.
\<close>

inductive das_step :: "(json \<Rightarrow> byte list option) \<Rightarrow> (byte list \<Rightarrow> json option) \<Rightarrow> das \<Rightarrow> das \<Rightarrow> bool"
  for encode :: "json \<Rightarrow> byte list option" and decode :: "byte list \<Rightarrow> json option" where
  initialize: "das_step encode decode s (snd (dtas_initialize main compatible services s))"
| start: "das_step encode decode s (snd (dtas_session_start main maximum timeout s))"
| publish: "das_step encode decode s (snd (dtas_publish_snapshot decode main bytes s))"
| submit: "c \<notin> set (suspended s) \<Longrightarrow>
    das_step encode decode s (DtasSubmitCommand encode decode c kind target direction txt s)"
| automate: "das_step encode decode s (snd (dtas_enqueue_self_automation_command decode main bytes s))"
| take: "das_step encode decode s (snd (dtas_take_command main output has_length s))"
| complete: "das_step encode decode s (snd (dtas_complete_command decode main op disposition object_id s))"
| shutdown: "das_step encode decode s (snd (dtas_session_shutdown main s))"
| timeout: "p \<in> set (das_timers s) \<Longrightarrow> das_step encode decode s (timeout_fires p s)"

inductive_cases das_stepE: "das_step encode decode s s'"

abbreviation das_reachable where
  "das_reachable encode decode s \<equiv> (das_step encode decode)\<^sup>*\<^sup>* das_initial s"

section \<open>The invariant\<close>

definition packet_ok :: "(byte list \<Rightarrow> json option) \<Rightarrow> DTASPendingCommand \<Rightarrow> bool" where
  "packet_ok decode p \<longleftrightarrow>
     Option.bind (json_object (decode (pc_packet p))) DtasCommandPacket = Some (pc_operationID p)"

text \<open>What holds between the parts of a call as well.\<close>

definition das_core :: "(byte list \<Rightarrow> json option) \<Rightarrow> das \<Rightarrow> bool" where
  "das_core decode s \<longleftrightarrow>
     distinct (map pc_operationID (g_pending s)) \<and>
     subseq (g_command_queue s) (g_pending s) \<and>
     length (g_pending s) \<le> g_maximum_pending s \<and> g_maximum_pending s \<le> unat DTAS_MAX_PENDING_COMMANDS \<and>
     (\<forall>p \<in> set (g_pending s). packet_ok decode p) \<and>
     mset (suspended s) = mset (resumed s) + mset (pending_commands s) \<and> distinct (suspended s)"

definition das_timed :: "das \<Rightarrow> bool" where
  "das_timed s \<longleftrightarrow> set (g_pending s) \<subseteq> set (das_timers s) \<and> distinct (map pc_address (das_timers s)) \<and>
     (\<forall>p \<in> set (das_timers s). pc_address p < das_allocated s)"

definition das_inv :: "(byte list \<Rightarrow> json option) \<Rightarrow> das \<Rightarrow> bool" where
  "das_inv decode s \<longleftrightarrow> das_core decode s \<and> das_timed s \<and>
     (g_pending s \<noteq> [] \<longrightarrow> g_started s \<and> g_enabled s)"

lemma das_inv_initial: "das_inv decode das_initial"
  by (simp add: das_inv_def das_core_def das_timed_def das_initial_def suspended_def resumed_def
      pending_commands_def map_filter_simps)

section \<open>Completing\<close>

lemma find_distinct_key:
  assumes "distinct (map f xs)"
  shows "find (\<lambda>q. f q = f p) xs = Some p \<longleftrightarrow> p \<in> set xs"
proof
  assume "p \<in> set xs"
  with assms show "find (\<lambda>q. f q = f p) xs = Some p"
  proof (induction xs)
    case (Cons x xs)
    then show ?case by (cases "x = p") (auto simp: rev_image_eqI)
  qed simp
qed (auto simp: find_Some_iff)

lemma pending_of_iff:
  "distinct (map pc_operationID (g_pending s)) \<Longrightarrow>
     pending_of (pc_operationID p) s = Some p \<longleftrightarrow> p \<in> set (g_pending s)"
  unfolding pending_of_def by (rule find_distinct_key)

lemma pending_of_member: "pending_of op s = Some p \<Longrightarrow> p \<in> set (g_pending s) \<and> pc_operationID p = op"
  by (auto simp: pending_of_def find_Some_iff)

lemma filter_key:
  assumes "distinct (map f xs)" "p \<in> set xs"
  shows "filter (\<lambda>q. f q \<noteq> f p) xs = filter (\<lambda>q. q \<noteq> p) xs"
  using assms by (auto intro!: filter_cong simp: distinct_map inj_on_def)

definition completed :: "DTASPendingCommand \<Rightarrow> DtasCommandDisposition \<Rightarrow> ustring option \<Rightarrow> das \<Rightarrow> script_event list" where
  "completed p disposition object_id s = (case pc_command p of None \<Rightarrow> []
     | Some c \<Rightarrow> [Resumed c (completion_result disposition object_id s)])"

lemma complete_pending:
  assumes "das_core decode s" "p \<in> set (g_pending s)"
  shows "DtasCompletePending p d oid s = s\<lparr>g_pending := filter (\<lambda>q. q \<noteq> p) (g_pending s),
      g_command_queue := filter (\<lambda>q. q \<noteq> p) (g_command_queue s),
      das_log := das_log s @ completed p d oid s, g_resumed_count := g_resumed_count s + 1\<rparr>"
  using assms by (simp add: DtasCompletePending_def das_core_def pending_of_iff filter_key completed_def)

lemma complete_absent:
  "das_core decode s \<Longrightarrow> p \<notin> set (g_pending s) \<Longrightarrow> DtasCompletePending p d oid s = s"
  by (simp add: DtasCompletePending_def das_core_def pending_of_iff)

lemma complete_fields [simp]:
  "das_timers (DtasCompletePending p d oid s) = das_timers s"
  "das_allocated (DtasCompletePending p d oid s) = das_allocated s"
  "g_started (DtasCompletePending p d oid s) = g_started s"
  "g_enabled (DtasCompletePending p d oid s) = g_enabled s"
  "g_maximum_pending (DtasCompletePending p d oid s) = g_maximum_pending s"
  by (simp_all add: DtasCompletePending_def)

lemma complete_g_pending:
  assumes "das_core decode s"
  shows "g_pending (DtasCompletePending p d oid s) = filter (\<lambda>q. q \<noteq> p) (g_pending s)"
proof (cases "p \<in> set (g_pending s)")
  case True
  then show ?thesis by (simp add: complete_pending [OF assms])
next
  case False
  then have "filter (\<lambda>q. q \<noteq> p) (g_pending s) = g_pending s" by (auto intro: filter_True)
  then show ?thesis by (simp add: complete_absent [OF assms False])
qed

lemma map_filter_append [simp]: "List.map_filter f (xs @ ys) = List.map_filter f xs @ List.map_filter f ys"
  by (simp add: List.map_filter_def)

lemma mset_map_filter_remove:
  assumes "distinct xs" "p \<in> set xs"
  shows "mset (List.map_filter f xs) =
    mset (case f p of None \<Rightarrow> [] | Some c \<Rightarrow> [c]) + mset (List.map_filter f (filter (\<lambda>q. q \<noteq> p) xs))"
  using assms
proof (induction xs)
  case (Cons x xs)
  show ?case
  proof (cases "x = p")
    case True
    then have "filter (\<lambda>q. q \<noteq> p) xs = xs" using Cons.prems by (auto intro: filter_True)
    then show ?thesis using True by (simp add: map_filter_simps split: option.splits)
  next
    case False
    then show ?thesis using Cons by (auto simp: map_filter_simps split: option.splits)
  qed
qed simp

lemma complete_core:
  assumes core: "das_core decode s"
  shows "das_core decode (DtasCompletePending p d oid s)"
proof (cases "p \<in> set (g_pending s)")
  case True
  note eq = complete_pending [OF core True]
  have ops: "distinct (map pc_operationID (g_pending s))" using core by (simp add: das_core_def)
  then have "mset (pending_commands s) = mset (case pc_command p of None \<Rightarrow> [] | Some c \<Rightarrow> [c]) +
      mset (List.map_filter pc_command (filter (\<lambda>q. q \<noteq> p) (g_pending s)))"
    unfolding pending_commands_def using True by (intro mset_map_filter_remove) (auto simp: distinct_map)
  moreover have "length (filter (\<lambda>q. q \<noteq> p) (g_pending s)) \<le> g_maximum_pending s"
    using core by (auto simp: das_core_def intro: le_trans [OF length_filter_le])
  ultimately show ?thesis using core True unfolding eq
    by (auto simp: das_core_def completed_def suspended_def resumed_def pending_commands_def
        map_filter_simps distinct_map_filter split: option.splits)
next
  case False
  then show ?thesis using core by (simp add: complete_absent [OF core])
qed

lemma complete_timed:
  "das_core decode s \<Longrightarrow> das_timed s \<Longrightarrow> das_timed (DtasCompletePending p d oid s)"
  by (auto simp: das_timed_def complete_g_pending)

lemma das_complete_inv: "das_inv decode s \<Longrightarrow> das_inv decode (DtasCompletePending p d oid s)"
  by (auto simp: das_inv_def complete_core complete_timed complete_g_pending)

text \<open>Completing one after another.\<close>

lemma complete_fold:
  assumes "das_core decode s"
  shows "let t = fold (\<lambda>p. DtasCompletePending p d None) ps s in das_core decode t \<and> g_pending t = filter (\<lambda>q. q \<notin> set ps) (g_pending s) \<and>
    das_timers t = das_timers s \<and> das_allocated t = das_allocated s \<and>
    g_started t = g_started s \<and> g_enabled t = g_enabled s"
  using assms
proof (induction ps arbitrary: s)
  case (Cons p ps)
  note core = complete_core [OF Cons.prems, of p d None]
  show ?case using Cons.IH [OF core]
    by (simp add: complete_g_pending [OF Cons.prems] Let_def conj_commute)
qed simp

lemma complete_all_pending:
  assumes "das_core decode s"
  shows "das_core decode (complete_all d s)" "g_pending (complete_all d s) = []"
    "das_timers (complete_all d s) = das_timers s" "das_allocated (complete_all d s) = das_allocated s"
    "g_command_queue (complete_all d s) = []"
proof -
  note f = complete_fold [OF assms, of d "g_pending s", folded complete_all_def, unfolded Let_def]
  show "das_core decode (complete_all d s)" "das_timers (complete_all d s) = das_timers s"
    "das_allocated (complete_all d s) = das_allocated s" using f by simp_all
  show e: "g_pending (complete_all d s) = []" using f by simp
  show "g_command_queue (complete_all d s) = []" using f e by (auto simp: das_core_def dest: list_emb_Nil2)
qed

section \<open>Every step keeps the invariant\<close>

lemma enqueue_inv:
  assumes inv: "das_inv decode s" and c: "\<forall>c. command = Some c \<longrightarrow> c \<notin> set (suspended s)"
  shows "das_inv decode (snd (DtasEnqueuePacket decode packet command s))"
proof (cases "\<exists>operation. g_started s \<and> g_enabled s \<and> length (g_pending s) < g_maximum_pending s \<and>
    Option.bind (json_object (decode packet)) DtasCommandPacket = Some operation \<and> pending_of operation s = None")
  case True
  then obtain operation where ok: "g_started s" "g_enabled s" "length (g_pending s) < g_maximum_pending s"
    "Option.bind (json_object (decode packet)) DtasCommandPacket = Some operation" "pending_of operation s = None"
    by blast
  let ?p = "\<lparr>pc_address = das_allocated s, pc_operationID = operation, pc_packet = packet, pc_command = command\<rparr>"
  have new: "operation \<notin> pc_operationID ` set (g_pending s)"
    using ok(5) by (auto simp: pending_of_def find_None_iff)
  have old: "das_core decode s" "das_timed s" using inv by (simp_all add: das_inv_def)
  have "das_core decode (snd (DtasEnqueuePacket decode packet command s))"
    using old(1) ok new c
    by (auto simp: DtasEnqueuePacket_def das_core_def packet_ok_def suspended_def resumed_def
        pending_commands_def map_filter_simps Let_def split: option.splits)
  moreover have "das_timed (snd (DtasEnqueuePacket decode packet command s))"
    using old(2) ok by (auto simp: DtasEnqueuePacket_def das_timed_def Let_def less_Suc_eq)
  ultimately show ?thesis using ok by (simp add: das_inv_def DtasEnqueuePacket_def Let_def)
next
  case False
  then have "snd (DtasEnqueuePacket decode packet command s) = s"
    by (auto simp: DtasEnqueuePacket_def split: option.splits)
  then show ?thesis using inv by simp
qed

text \<open>An update of the other components leaves the invariant as it is.\<close>

lemma das_inv_cong:
  assumes "das_inv decode s" "g_pending t = g_pending s" "g_command_queue t = g_command_queue s"
    "g_maximum_pending t = g_maximum_pending s" "das_log t = das_log s" "das_timers t = das_timers s"
    "das_allocated t = das_allocated s" "g_started t = g_started s" "g_enabled t = g_enabled s"
  shows "das_inv decode t"
  using assms
  by (simp add: das_inv_def das_core_def das_timed_def suspended_def resumed_def pending_commands_def)

lemma reject_inv: "das_inv decode s \<Longrightarrow> das_inv decode (DtasRejectCommand c status s)"
  by (simp add: das_inv_def das_core_def das_timed_def DtasRejectCommand_def suspended_def resumed_def
      pending_commands_def map_filter_simps)

lemma create_inv:
  assumes "das_inv decode s"
  shows "das_inv decode (snd (DtasCreateCommandPacket encode kind target direction txt s))"
  by (rule das_inv_cong [OF assms]) (simp_all add: DtasCreateCommandPacket_def Let_def split: option.splits)

lemma create_suspended [simp]:
  "suspended (snd (DtasCreateCommandPacket encode kind target direction txt s)) = suspended s"
  by (simp add: suspended_def DtasCreateCommandPacket_def Let_def split: option.splits)

lemma submit_inv:
  assumes "das_inv decode s" "c \<notin> set (suspended s)"
  shows "das_inv decode (DtasSubmitCommand encode decode c kind target direction txt s)"
proof -
  obtain packet t where t: "DtasCreateCommandPacket encode kind target direction txt s = (packet, t)"
    by fastforce
  then have inv: "das_inv decode t" and c: "c \<notin> set (suspended t)"
    using create_inv [OF assms(1), of encode kind target direction "txt"] assms(2)
      create_suspended [of encode kind target direction "txt" s] by simp_all
  have "das_inv decode (snd (DtasEnqueuePacket decode p (Some c) t))" for p
    by (rule enqueue_inv [OF inv]) (simp add: c)
  from this [of "the packet"] show ?thesis using inv t
    by (cases packet; cases "DtasEnqueuePacket decode (the packet) (Some c) t")
       (simp_all add: DtasSubmitCommand_def reject_inv)
qed

lemma das_shutdown_inv: "das_inv decode s \<Longrightarrow> das_inv decode (snd (dtas_session_shutdown main s))"
  using complete_all_pending [of decode s DTAS_COMMAND_DISPOSED]
  by (auto simp: das_inv_def das_core_def das_timed_def dtas_session_shutdown_def suspended_def resumed_def
      pending_commands_def)

lemma start_inv: "das_inv decode s \<Longrightarrow> das_inv decode (snd (dtas_session_start main maximum timeout s))"
  by (auto simp: das_inv_def das_core_def das_timed_def dtas_session_start_def suspended_def resumed_def
      pending_commands_def map_filter_simps word_le_nat_alt not_less)

lemma publish_inv:
  assumes inv: "das_inv decode s"
  shows "das_inv decode (snd (dtas_publish_snapshot decode main bytes s))"
proof -
  have "das_inv decode (if \<not> enabled \<and> g_pending t \<noteq> [] then complete_all d t else t)"
    if t: "t = s\<lparr>g_windows := windows, g_objects_by_id := objects, g_generation := generation, g_enabled := enabled\<rparr>"
      and "main" "g_started s" for t windows objects generation enabled d
  proof -
    have core: "das_core decode t"
      using inv by (simp add: das_inv_def das_core_def t suspended_def resumed_def pending_commands_def)
    show ?thesis using inv that complete_all_pending [OF core, of d] core by (auto simp: das_inv_def das_timed_def)
  qed
  then show ?thesis using inv
    by (simp add: dtas_publish_snapshot_def Let_def split: option.split prod.split)
qed

lemma take_inv: "das_inv decode s \<Longrightarrow> das_inv decode (snd (dtas_take_command main output has_length s))"
  by (auto simp: das_inv_def das_core_def das_timed_def dtas_take_command_def suspended_def resumed_def
      pending_commands_def split: list.splits dest: subseq_Cons')

lemma finish_inv:
  "das_inv decode s \<Longrightarrow> das_inv decode (snd (dtas_complete_command decode main op disposition object_id s))"
  by (auto simp: dtas_complete_command_def Let_def das_complete_inv split: option.splits)

lemma automate_inv:
  assumes "das_inv decode s"
  shows "das_inv decode (snd (dtas_enqueue_self_automation_command decode main bytes s))"
proof -
  have rejected: "das_inv decode (t\<lparr>g_rejected_count := n\<rparr>)" if "das_inv decode t" for t n
    by (rule das_inv_cong [OF that]) simp_all
  have "das_inv decode (snd (DtasEnqueuePacket decode data None s))" for data
    by (rule enqueue_inv [OF assms]) simp
  from this [of "the bytes"] show ?thesis using assms
    by (cases "DtasEnqueuePacket decode (the bytes) None s")
       (auto simp: dtas_enqueue_self_automation_command_def rejected split: option.splits)
qed

lemma timeout_g_pending:
  assumes "das_core decode s"
  shows "g_pending (timeout_fires p s) = filter (\<lambda>q. q \<noteq> p) (g_pending s)"
    "das_timers (timeout_fires p s) = remove1 p (das_timers s)"
    "das_core decode (timeout_fires p s)" "das_allocated (timeout_fires p s) = das_allocated s"
    "g_started (timeout_fires p s) = g_started s" "g_enabled (timeout_fires p s) = g_enabled s"
proof -
  let ?t = "s\<lparr>das_timers := remove1 p (das_timers s)\<rparr>"
  have core: "das_core decode ?t"
    using assms by (simp add: das_core_def suspended_def resumed_def pending_commands_def)
  have fires: "timeout_fires p s = DtasCompletePending p DTAS_COMMAND_TIMED_OUT None ?t"
    by (simp add: timeout_fires_def Let_def DtasCompletePending_def)
  show "g_pending (timeout_fires p s) = filter (\<lambda>q. q \<noteq> p) (g_pending s)"
    "das_timers (timeout_fires p s) = remove1 p (das_timers s)"
    "das_core decode (timeout_fires p s)" "das_allocated (timeout_fires p s) = das_allocated s"
    "g_started (timeout_fires p s) = g_started s" "g_enabled (timeout_fires p s) = g_enabled s"
    by (simp_all add: fires complete_g_pending [OF core] complete_core [OF core])
qed

lemma timeout_inv:
  assumes "das_inv decode s"
  shows "das_inv decode (timeout_fires p s)"
proof -
  have core: "das_core decode s" and timed: "das_timed s" using assms by (simp_all add: das_inv_def)
  have "das_timed (timeout_fires p s)" using timed
    by (auto simp: das_timed_def timeout_g_pending [OF core] distinct_map distinct_remove1
        intro: inj_on_subset dest: notin_set_remove1)
  then show ?thesis using assms by (auto simp: das_inv_def timeout_g_pending [OF core])
qed

theorem das_step_inv: "das_step encode decode s s' \<Longrightarrow> das_inv decode s \<Longrightarrow> das_inv decode s'"
  by (induction rule: das_step.induct)
     (auto simp: start_inv publish_inv submit_inv automate_inv take_inv finish_inv das_shutdown_inv timeout_inv
       dtas_initialize_def split: option.splits intro: das_inv_cong)

theorem das_reachable_inv: "das_reachable encode decode s \<Longrightarrow> das_inv decode s"
  by (induction rule: rtranclp_induct) (auto simp: das_inv_initial intro: das_step_inv)

end
