(* ===== verification/Das_Tree.thy ===== *)
theory Das_Tree
  imports Das_Snapshot "HOL-Library.Multiset"
begin

text \<open>
  What a snapshot promises to scripts, stated of the tree itself, and the document that
  describes a tree. \<open>DtasBuildSnapshot\<close> accepts well-formed trees only, and all of them.
\<close>

section \<open>Well-formed trees\<close>

abbreviation valid_id :: "string \<Rightarrow> ustring \<Rightarrow> bool" where
  "valid_id prefix s \<equiv> DtasValidIdentifier (Some (JString s)) prefix"

abbreviation safe_text :: "nat \<Rightarrow> ustring \<Rightarrow> bool" where
  "safe_text maximum s \<equiv> DtasSafeText (Some (JString s)) maximum"

fun numbered :: "(nat \<Rightarrow> 'a \<Rightarrow> bool) \<Rightarrow> nat \<Rightarrow> 'a list \<Rightarrow> bool" where
  "numbered P n [] = True"
| "numbered P n (x # xs) = (P n x \<and> numbered P (n + 1) xs)"

lemma numbered_nth: "numbered P n xs \<longleftrightarrow> (\<forall>i < length xs. P (n + i) (xs ! i))"
proof (induction xs arbitrary: n)
  case (Cons x xs)
  show ?case by (simp add: Cons.IH All_less_Suc2)
qed simp

definition terminal_ok :: "DTASScriptTerminal \<Rightarrow> bool" where
  "terminal_ok t \<longleftrightarrow> valid_id ''terminal'' (term_uniqueID t) \<and> safe_text kMaximumTitleBytes (term_title t) \<and>
     (term_workingDirectory t = [] \<or> safe_text kMaximumWorkingDirectoryBytes (term_workingDirectory t) \<and>
        hasPrefix (term_workingDirectory t) (lit ''/''))"

definition tab_ok :: "nat \<Rightarrow> DTASScriptTab \<Rightarrow> bool" where
  "tab_ok position t \<longleftrightarrow> valid_id ''tab'' (tab_uniqueID t) \<and> safe_text kMaximumTitleBytes (tab_title t) \<and>
     tab_index t = position + 1 \<and> tab_index t \<le> DTAS_MAX_TABS_PER_WINDOW \<and>
     list_all terminal_ok (tab_terminals t) \<and> tab_focusedTerminal t \<in> set (tab_terminals t)"

definition window_ok :: "nat \<Rightarrow> DTASScriptWindow \<Rightarrow> bool" where
  "window_ok position w \<longleftrightarrow> valid_id ''window'' (win_uniqueID w) \<and> safe_text kMaximumTitleBytes (win_title w) \<and>
     win_orderedIndex w = position + 1 \<and> win_orderedIndex w \<le> DTAS_MAX_WINDOWS \<and>
     numbered tab_ok 0 (win_tabs w) \<and> win_selectedTab w \<in> set (win_tabs w) \<and>
     (\<forall>t \<in> set (win_tabs w). tab_selected t \<longleftrightarrow> tab_uniqueID t = tab_uniqueID (win_selectedTab w))"

definition tab_ids :: "DTASScriptTab \<Rightarrow> ustring list" where
  "tab_ids t = tab_uniqueID t # map term_uniqueID (tab_terminals t)"

definition window_ids :: "DTASScriptWindow \<Rightarrow> ustring list" where
  "window_ids w = win_uniqueID w # concat (map tab_ids (win_tabs w))"

definition tab_terminal_count :: "DTASScriptTab list \<Rightarrow> nat" where
  "tab_terminal_count ts = sum_list (map (length \<circ> tab_terminals) ts)"

definition terminal_count :: "DTASScriptWindow list \<Rightarrow> nat" where
  "terminal_count ws = sum_list (map (tab_terminal_count \<circ> win_tabs) ws)"

definition tree_ok :: "DTASScriptWindow list \<Rightarrow> nat \<Rightarrow> bool \<Rightarrow> bool" where
  "tree_ok ws generation enabled \<longleftrightarrow> generation \<le> maximum_identity \<and> (enabled \<or> ws = []) \<and>
     numbered window_ok 0 ws \<and> distinct (concat (map window_ids ws)) \<and>
     terminal_count ws \<le> DTAS_MAX_TERMINALS \<and> length (filter win_frontmost ws) \<le> 1"

text \<open>The identifiers as the loops collect them.\<close>

definition add_tab :: "DTASScriptTab \<Rightarrow> objects \<Rightarrow> objects" where
  "add_tab t objects = tab_uniqueID t # rev (map term_uniqueID (tab_terminals t)) @ objects"

definition add_window :: "DTASScriptWindow \<Rightarrow> objects \<Rightarrow> objects" where
  "add_window w objects = win_uniqueID w # fold add_tab (win_tabs w) objects"

definition objects_of :: "DTASScriptWindow list \<Rightarrow> objects" where
  "objects_of ws = fold add_window ws []"

lemma mset_add_tab [simp]: "mset (add_tab t objects) = mset (tab_ids t) + mset objects"
  by (simp add: add_tab_def tab_ids_def)

lemma mset_fold_add_tab [simp]:
  "mset (fold add_tab ts objects) = mset (concat (map tab_ids ts)) + mset objects"
  by (induction ts arbitrary: objects) auto

lemma mset_add_window [simp]: "mset (add_window w objects) = mset (window_ids w) + mset objects"
  by (simp add: add_window_def window_ids_def)

lemma mset_fold_add_window [simp]:
  "mset (fold add_window ws objects) = mset (concat (map window_ids ws)) + mset objects"
  by (induction ws arbitrary: objects) auto

lemma distinct_mset_part: "mset xs = mset ys + mset zs \<Longrightarrow> distinct xs \<Longrightarrow> distinct zs"
  by (metis distinct_append mset_append mset_eq_imp_distinct_iff)

lemma distinct_objects_of: "distinct (objects_of ws) \<longleftrightarrow> distinct (concat (map window_ids ws))"
  by (rule mset_eq_imp_distinct_iff) (simp add: objects_of_def)

lemma set_objects_of: "set (objects_of ws) = set (concat (map window_ids ws))"
  by (rule mset_eq_setD) (simp add: objects_of_def)

section \<open>The document of a tree\<close>

definition terminal_json :: "DTASScriptTerminal \<Rightarrow> json" where
  "terminal_json t = JObject [(lit ''id'', JString (term_uniqueID t)), (lit ''title'', JString (term_title t)),
     (lit ''workingDirectory'',
       if term_workingDirectory t = [] then JNull else JString (term_workingDirectory t))]"

definition tab_json :: "DTASScriptTab \<Rightarrow> json" where
  "tab_json t = JObject [(lit ''id'', JString (tab_uniqueID t)), (lit ''title'', JString (tab_title t)),
     (lit ''index'', JNumber (int (tab_index t))), (lit ''selected'', JBool (tab_selected t)),
     (lit ''focusedTerminal'', JString (term_uniqueID (tab_focusedTerminal t))),
     (lit ''terminals'', JArray (map terminal_json (tab_terminals t)))]"

definition window_json :: "DTASScriptWindow \<Rightarrow> json" where
  "window_json w = JObject [(lit ''id'', JString (win_uniqueID w)), (lit ''title'', JString (win_title w)),
     (lit ''index'', JNumber (int (win_orderedIndex w))), (lit ''frontmost'', JBool (win_frontmost w)),
     (lit ''selectedTab'', JString (tab_uniqueID (win_selectedTab w))),
     (lit ''tabs'', JArray (map tab_json (win_tabs w)))]"

definition snapshot_fields :: "DTASScriptWindow list \<Rightarrow> nat \<Rightarrow> bool \<Rightarrow> (ustring \<times> json) list" where
  "snapshot_fields ws generation enabled = [(lit ''version'', JNumber 1),
     (lit ''generation'', JNumber (int generation)), (lit ''enabled'', JBool enabled),
     (lit ''windows'', JArray (map window_json ws))]"

section \<open>Fields\<close>

lemma of_char_eq_u16 [simp]: "(of_char c :: u16) = of_char d \<longleftrightarrow> c = d"
proof
  assume eq: "(of_char c :: u16) = of_char d"
  have "unat (of_char x :: u16) = of_char x" for x
  proof -
    have "(of_char x :: nat) mod 256 < 256" by (rule mod_less_divisor) simp
    then have "(of_char x :: nat) < 256" by (simp only: of_char_mod_256)
    then have "(of_char x :: nat) mod 65536 = of_char x" by (intro mod_less) linarith
    moreover have "unat (of_nat (of_char x) :: u16) = of_char x mod 65536" by (simp add: unat_of_nat)
    ultimately show ?thesis by (simp only: of_nat_of_char)
  qed
  then show "c = d" using arg_cong [OF eq, of unat] by simp
qed simp

lemma lit_eq [simp]: "lit s = lit t \<longleftrightarrow> s = t"
  by (simp add: lit_def inj_map_eq_map inj_def)

lemma field_simps [simp]:
  "field k [] = None"
  "field k ((lit k', v) # d) = (if k = k' then Some v else field k d)"
  by (simp_all add: field_def)

lemma json_simps [simp]:
  "json_bool (Some (JBool b)) = Some b" "json_string (Some (JString s)) = Some s"
  "json_array (Some (JArray xs)) = Some xs" "json_object (Some (JObject d)) = Some d"
  "text_of (Some (JString s)) = s" "flag_of (Some (JBool b)) = b"
  by (simp_all add: json_bool_def json_string_def json_array_def json_object_def text_of_def flag_of_def)

lemma unsigned_simps [simp]:
  "DtasUnsignedInteger (Some (JNumber (int n))) m = (if n \<le> m then Some n else None)"
  "DtasUnsignedInteger (Some (JNumber (1 + int n))) m = (if Suc n \<le> m then Some (Suc n) else None)"
  "DtasUnsignedInteger (Some (JNumber 1)) m = (if 1 \<le> m then Some 1 else None)"
  by (auto simp: DtasUnsignedInteger_def nat_add_distrib)

lemma unsigned_le: "DtasUnsignedInteger v m = Some n \<Longrightarrow> n \<le> m"
  by (auto simp: DtasUnsignedInteger_def split: option.splits json.splits if_splits)

text \<open>What was checked was a string.\<close>

lemma checked_id: "DtasValidIdentifier v prefix \<Longrightarrow> valid_id prefix (text_of v)"
  by (auto simp: DtasValidIdentifier_def text_of_def json_string_def split: option.splits json.splits)

lemma checked_text: "DtasSafeText v maximum \<Longrightarrow> safe_text maximum (text_of v)"
  by (auto simp: DtasSafeText_def text_of_def json_string_def split: option.splits json.splits)

lemma valid_prefix: "valid_id prefix s \<Longrightarrow> take (length prefix + 1) s = lit (prefix @ '':'')"
  by (simp add: DtasValidIdentifier_def hasPrefix_def lit_def)

lemma kinds_differ:
  assumes "valid_id p s" "valid_id q s" "hd p \<noteq> hd q \<or> take 2 p \<noteq> take 2 q" "2 \<le> length p" "2 \<le> length q"
  shows False
proof -
  have "take 2 s = lit (take 2 p)" "take 2 s = lit (take 2 q)"
    using arg_cong [OF valid_prefix [OF assms(1)], of "take 2"]
      arg_cong [OF valid_prefix [OF assms(2)], of "take 2"] assms(4,5)
    by (simp_all add: lit_def take_map min_def)
  then have "take 2 p = take 2 q" by simp
  moreover from this assms(4,5) have "hd p = hd q" by (cases p; cases q) auto
  ultimately show False using assms(3) by simp
qed

lemma tab_not_terminal: "valid_id ''tab'' s \<Longrightarrow> \<not> valid_id ''terminal'' s"
  using kinds_differ [where p = "''tab''" and q = "''terminal''" and s = s] by auto

lemma window_not_tab: "valid_id ''window'' s \<Longrightarrow> \<not> valid_id ''tab'' s"
  using kinds_differ [where p = "''window''" and q = "''tab''" and s = s] by auto

lemma window_not_terminal: "valid_id ''window'' s \<Longrightarrow> \<not> valid_id ''terminal'' s"
  using kinds_differ [where p = "''window''" and q = "''terminal''" and s = s] by auto

section \<open>Only well-formed trees are accepted\<close>

lemma build_terminal_sound:
  assumes "build_terminal objects raw = Some t"
  shows "terminal_ok t \<and> term_uniqueID t \<notin> set objects"
  using assms
  by (auto simp: build_terminal_def terminal_ok_def cwd_of_def checked_id checked_text
      split: option.splits if_splits)

lemma build_terminals_sound:
  assumes "build_terminals objects raws = Some (ts, objects')" "distinct objects"
  shows "list_all terminal_ok ts \<and> objects' = rev (map term_uniqueID ts) @ objects \<and> distinct objects' \<and>
    length ts = length raws"
  using assms
proof (induction raws arbitrary: objects ts)
  case (Cons raw raws)
  then obtain t ts' where t: "build_terminal objects raw = Some t"
    "build_terminals (term_uniqueID t # objects) raws = Some (ts', objects')" "ts = t # ts'"
    by (auto split: option.splits)
  show ?case using Cons.IH [OF t(2)] build_terminal_sound [OF t(1)] Cons.prems(2) t(3) by auto (auto simp: disjoint_iff)
qed simp

lemma build_tab_sound:
  assumes "build_tab objects shown position raw = Some (t, objects')" "distinct objects"
  shows "tab_ok position t \<and> objects' = add_tab t objects \<and> distinct objects' \<and>
    shown + length (tab_terminals t) \<le> DTAS_MAX_TERMINALS"
proof -
  obtain d where obj: "json_object (Some raw) = Some d"
    using assms(1) by (auto simp: build_tab_def split: option.splits)
  obtain raws where raws: "json_array (field ''terminals'' d) = Some raws"
    using assms(1) by (auto simp: build_tab_def obj Let_def split: if_splits)
  note eq = assms(1) [unfolded build_tab_def obj option.case Let_def raws option.sel]
  let ?focused = "\<lambda>ts. filter (\<lambda>t. term_uniqueID t = text_of (field ''focusedTerminal'' d)) ts"
  obtain ts objs where ts: "build_terminals objects raws = Some (ts, objs)"
    using eq by (auto split: option.splits if_splits)
  have d: "DtasValidIdentifier (field ''id'' d) ''tab''" "DtasSafeText (field ''title'' d) kMaximumTitleBytes"
    "DtasUnsignedInteger (field ''index'' d) DTAS_MAX_TABS_PER_WINDOW = Some (position + 1)"
    "text_of (field ''id'' d) \<notin> set objects" "shown + length raws \<le> DTAS_MAX_TERMINALS"
    and focused: "?focused ts \<noteq> []"
    using eq by (simp_all add: ts split: if_splits)
  have t: "t = \<lparr>tab_uniqueID = text_of (field ''id'' d), tab_title = text_of (field ''title'' d),
        tab_index = position + 1, tab_selected = flag_of (field ''selected'' d), tab_terminals = ts,
        tab_focusedTerminal = last (?focused ts)\<rparr>"
      "objects' = text_of (field ''id'' d) # objs"
    using eq by (simp_all add: ts split: if_splits)
  note terms = build_terminals_sound [OF ts assms(2)]
  have "tab_focusedTerminal t \<in> set ts" using last_in_set [OF focused] t by simp
  moreover have "tab_uniqueID t \<notin> set (map term_uniqueID ts)"
    using terms checked_id [OF d(1)] t by (auto simp: list_all_iff terminal_ok_def dest: tab_not_terminal)
  moreover have "set objs = set (map term_uniqueID ts) \<union> set objects" "distinct objs"
    using terms by (simp, blast)
  moreover from calculation have "distinct objects'" using d(4) t by auto
  ultimately show ?thesis
    using terms d t(1) unsigned_le [OF d(3)] by (simp add: t(2) tab_ok_def checked_id checked_text add_tab_def)
qed

lemma build_tabs_sound:
  assumes "build_tabs wanted objects shown position selected raws = Some (ts, selected', objects', shown')"
    "distinct objects" "shown \<le> DTAS_MAX_TERMINALS"
  shows "numbered tab_ok position ts \<and> objects' = fold add_tab ts objects \<and> distinct objects' \<and>
    shown' = shown + tab_terminal_count ts \<and> shown' \<le> DTAS_MAX_TERMINALS \<and> length ts = length raws \<and>
    (\<forall>t \<in> set ts. tab_selected t \<longleftrightarrow> tab_uniqueID t = wanted) \<and>
    (case selected of None \<Rightarrow> \<forall>t. selected' = Some t \<longrightarrow> t \<in> set ts \<and> tab_uniqueID t = wanted
     | Some t \<Rightarrow> selected' = Some t)"
  using assms
proof (induction raws arbitrary: objects shown position selected ts)
  case Nil
  then show ?case by (auto simp: tab_terminal_count_def split: option.splits)
next
  case (Cons raw raws)
  let ?selected = "\<lambda>t. if tab_uniqueID t = wanted then Some t else selected"
  obtain t objs where b: "build_tab objects shown position raw = Some (t, objs)"
    using Cons.prems(1) by (auto split: option.splits)
  note eq = Cons.prems(1) [unfolded build_tabs.simps b option.case prod.case]
  obtain ts' where t: "build_tab objects shown position raw = Some (t, objs)" "ts = t # ts'"
    "build_tabs wanted objs (shown + length (tab_terminals t)) (position + 1) (?selected t) raws =
       Some (ts', selected', objects', shown')"
    using eq b by (auto split: option.splits if_splits)
  have sel: "\<not> (tab_uniqueID t = wanted \<and> (\<not> tab_selected t \<or> selected \<noteq> None))"
    "\<not> (tab_uniqueID t \<noteq> wanted \<and> tab_selected t)"
    using eq by (auto split: if_splits)
  have tab: "tab_ok position t" "objs = add_tab t objects" "distinct objs"
    "shown + length (tab_terminals t) \<le> DTAS_MAX_TERMINALS"
    using build_tab_sound [OF t(1) Cons.prems(2)] by blast+
  note rest = Cons.IH [OF t(3) tab(3,4)]
  have last: "case selected of None \<Rightarrow> \<forall>t. selected' = Some t \<longrightarrow> t \<in> set ts \<and> tab_uniqueID t = wanted
     | Some t \<Rightarrow> selected' = Some t"
    using rest t(2) sel by (cases "tab_uniqueID t = wanted") (auto split: option.splits)
  show ?case using rest last t(2) sel tab by (simp add: tab_terminal_count_def) blast
qed

lemma build_window_sound:
  assumes "build_window objects shown frontmost position raw = Some (w, objects', shown', frontmost')"
    "distinct objects" "shown \<le> DTAS_MAX_TERMINALS"
  shows "window_ok position w \<and> objects' = add_window w objects \<and> distinct objects' \<and>
    shown' = shown + tab_terminal_count (win_tabs w) \<and> shown' \<le> DTAS_MAX_TERMINALS \<and>
    frontmost' = (if win_frontmost w then frontmost + 1 else frontmost) \<and> frontmost' \<le> 1"
proof -
  obtain d where obj: "json_object (Some raw) = Some d"
    using assms(1) by (auto simp: build_window_def split: option.splits)
  obtain raws where raws: "json_array (field ''tabs'' d) = Some raws"
    using assms(1) by (auto simp: build_window_def obj Let_def split: if_splits)
  note eq = assms(1) [unfolded build_window_def obj option.case Let_def raws option.sel]
  let ?wanted = "text_of (field ''selectedTab'' d)"
  obtain ts selected objs where ts: "build_tabs ?wanted objects shown 0 None raws = Some (ts, Some selected, objs, shown')"
    using eq by (auto split: option.splits if_splits)
  have d: "DtasValidIdentifier (field ''id'' d) ''window''" "DtasSafeText (field ''title'' d) kMaximumTitleBytes"
    "DtasUnsignedInteger (field ''index'' d) DTAS_MAX_WINDOWS = Some (position + 1)"
    "text_of (field ''id'' d) \<notin> set objects"
    using eq by (simp_all add: ts split: if_splits)
  have w: "w = \<lparr>win_uniqueID = text_of (field ''id'' d), win_title = text_of (field ''title'' d),
        win_orderedIndex = position + 1, win_frontmost = flag_of (field ''frontmost'' d), win_tabs = ts,
        win_selectedTab = selected\<rparr>"
      "objects' = text_of (field ''id'' d) # objs"
      "frontmost' = (if flag_of (field ''frontmost'' d) then frontmost + 1 else frontmost)" "frontmost' \<le> 1"
    using eq by (simp_all add: ts split: if_splits)
  note tabs = build_tabs_sound [OF ts assms(2,3), unfolded option.case]
  have "tab_ok i t \<Longrightarrow> t' \<in> set (tab_ids t) \<Longrightarrow> \<not> valid_id ''window'' t'" for i t t'
    by (auto simp: tab_ids_def tab_ok_def list_all_iff terminal_ok_def
        dest: window_not_tab window_not_terminal)
  moreover have "\<exists>i. tab_ok i t" if "t \<in> set ts" for t
    using tabs that by (auto simp: numbered_nth in_set_conv_nth)
  ultimately have "win_uniqueID w \<notin> set (concat (map tab_ids ts))"
    using checked_id [OF d(1)] w(1) by (auto; blast)
  moreover have "set objs = set (concat (map tab_ids ts)) \<union> set objects"
    using tabs mset_fold_add_tab [of ts objects] by (metis mset_append set_append set_mset_mset)
  ultimately show ?thesis
    using tabs d w unsigned_le [OF d(3)]
    by (auto simp: window_ok_def checked_id checked_text add_window_def)
qed

lemma build_windows_sound:
  assumes "build_windows objects shown frontmost position raws = Some (ws, objects')"
    "distinct objects" "shown \<le> DTAS_MAX_TERMINALS" "frontmost \<le> 1"
  shows "numbered window_ok position ws \<and> objects' = fold add_window ws objects \<and> distinct objects' \<and>
    shown + terminal_count ws \<le> DTAS_MAX_TERMINALS \<and>
    frontmost + length (filter win_frontmost ws) \<le> 1 \<and> length ws = length raws"
  using assms
proof (induction raws arbitrary: objects shown frontmost position ws)
  case Nil
  then show ?case by (simp add: terminal_count_def)
next
  case (Cons raw raws)
  obtain w objs shown' frontmost' ws' where w:
    "build_window objects shown frontmost position raw = Some (w, objs, shown', frontmost')"
    "build_windows objs shown' frontmost' (position + 1) raws = Some (ws', objects')" "ws = w # ws'"
    using Cons.prems(1) by (auto split: option.splits)
  note window = build_window_sound [OF w(1) Cons.prems(2,3)]
  have "numbered window_ok (position + 1) ws' \<and> objects' = fold add_window ws' objs \<and> distinct objects' \<and>
    shown' + terminal_count ws' \<le> DTAS_MAX_TERMINALS \<and>
    frontmost' + length (filter win_frontmost ws') \<le> 1 \<and> length ws' = length raws"
    by (rule Cons.IH [OF w(2)]) (use window in blast)+
  then show ?case using window w(3) by (auto simp: terminal_count_def split: if_splits)
qed

theorem snapshot_sound:
  assumes "DtasBuildSnapshot root = Some (ws, objects, generation, enabled)"
  shows "tree_ok ws generation enabled \<and> objects = objects_of ws"
proof -
  obtain raws where r: "json_array (field ''windows'' root) = Some raws"
    "DtasUnsignedInteger (field ''generation'' root) maximum_identity = Some generation"
    "enabled \<or> raws = []" "build_windows [] 0 0 0 raws = Some (ws, objects)"
    using assms by (auto simp: DtasBuildSnapshot_def split: option.splits if_splits)
  note w = build_windows_sound [OF r(4)]
  then have "distinct (objects_of ws)" by (auto simp: objects_of_def)
  then have "distinct (concat (map window_ids ws))" by (simp only: distinct_objects_of)
  then show ?thesis using w r(3) unsigned_le [OF r(2)] by (auto simp: tree_ok_def objects_of_def)
qed

section \<open>All well-formed trees are accepted\<close>

lemma keys_simps [simp]: "DtasExactKeys d ks \<longleftrightarrow> length d = length ks \<and> list_all (\<lambda>k. field k d \<noteq> None) ks"
  by (simp add: DtasExactKeys_def list_all_iff)

lemma build_terminal_complete:
  "terminal_ok t \<Longrightarrow> term_uniqueID t \<notin> set objects \<Longrightarrow> build_terminal objects (terminal_json t) = Some t"
  by (auto simp: build_terminal_def terminal_json_def terminal_ok_def cwd_of_def)

lemma build_terminals_complete:
  "list_all terminal_ok ts \<Longrightarrow> distinct (rev (map term_uniqueID ts) @ objects) \<Longrightarrow>
     build_terminals objects (map terminal_json ts) = Some (ts, rev (map term_uniqueID ts) @ objects)"
proof (induction ts arbitrary: objects)
  case (Cons t ts)
  then show ?case by (simp add: build_terminal_complete)
qed simp

lemma filter_distinct_key: "distinct (map f xs) \<Longrightarrow> x \<in> set xs \<Longrightarrow> filter (\<lambda>y. f y = f x) xs = [x]"
  by (induction xs) (auto simp: filter_empty_conv rev_image_eqI)

lemma build_tab_complete:
  assumes "tab_ok position t" "distinct (add_tab t objects)" "shown + length (tab_terminals t) \<le> DTAS_MAX_TERMINALS"
  shows "build_tab objects shown position (tab_json t) = Some (t, add_tab t objects)"
proof -
  have d: "distinct (rev (map term_uniqueID (tab_terminals t)) @ objects)"
    using assms(2) by (simp add: add_tab_def)
  have "filter (\<lambda>s. term_uniqueID s = term_uniqueID (tab_focusedTerminal t)) (tab_terminals t) = [tab_focusedTerminal t]"
    using assms(1) d by (intro filter_distinct_key) (auto simp: tab_ok_def)
  moreover have "valid_id ''terminal'' (term_uniqueID (tab_focusedTerminal t))" "tab_terminals t \<noteq> []"
    using assms(1) by (auto simp: tab_ok_def list_all_iff terminal_ok_def)
  moreover have "tab_uniqueID t \<notin> set objects" using assms(2) by (simp add: add_tab_def)
  ultimately show ?thesis
    using assms(1,3) build_terminals_complete [OF _ d]
    by (simp add: build_tab_def tab_json_def tab_ok_def add_tab_def)
qed

lemma distinct_fold_add_tab: "distinct (fold add_tab ts objects) \<Longrightarrow> distinct objects"
  by (rule distinct_mset_part [where ys = "concat (map tab_ids ts)"]) simp_all

lemma distinct_fold_add_window: "distinct (fold add_window ws objects) \<Longrightarrow> distinct objects"
  by (rule distinct_mset_part [where ys = "concat (map window_ids ws)"]) simp_all

lemma build_tabs_complete:
  assumes "numbered tab_ok position ts" "distinct (fold add_tab ts objects)"
    "shown + tab_terminal_count ts \<le> DTAS_MAX_TERMINALS"
    "\<forall>t \<in> set ts. tab_selected t \<longleftrightarrow> tab_uniqueID t = wanted"
    "distinct (map tab_uniqueID ts)" "selected \<noteq> None \<longrightarrow> wanted \<notin> set (map tab_uniqueID ts)"
  shows "build_tabs wanted objects shown position selected (map tab_json ts) =
    Some (ts, case find (\<lambda>t. tab_uniqueID t = wanted) ts of None \<Rightarrow> selected | Some t \<Rightarrow> Some t,
      fold add_tab ts objects, shown + tab_terminal_count ts)"
  using assms
proof (induction ts arbitrary: objects shown position selected)
  case (Cons t ts)
  have tab: "build_tab objects shown position (tab_json t) = Some (t, add_tab t objects)"
    using Cons.prems distinct_fold_add_tab [of ts "add_tab t objects"]
    by (intro build_tab_complete) (simp_all add: tab_terminal_count_def)
  let ?selected = "if tab_uniqueID t = wanted then Some t else selected"
  have "build_tabs wanted (add_tab t objects) (shown + length (tab_terminals t)) (position + 1) ?selected (map tab_json ts) =
    Some (ts, case find (\<lambda>t. tab_uniqueID t = wanted) ts of None \<Rightarrow> ?selected | Some t \<Rightarrow> Some t,
      fold add_tab ts (add_tab t objects), shown + length (tab_terminals t) + tab_terminal_count ts)"
    using Cons.prems by (intro Cons.IH) (auto simp: tab_terminal_count_def)
  moreover have "tab_uniqueID t = wanted \<Longrightarrow> find (\<lambda>t. tab_uniqueID t = wanted) ts = None"
    using Cons.prems(5) by (auto simp: find_None_iff) (metis imageI)
  ultimately show ?case using Cons.prems(4,6) tab by (auto simp: tab_terminal_count_def)
qed (simp add: tab_terminal_count_def)

lemma distinct_tab_ids: "distinct (concat (map tab_ids ts)) \<Longrightarrow> distinct (map tab_uniqueID ts)"
  by (induction ts) (auto simp: tab_ids_def)

lemma find_key: "distinct (map f xs) \<Longrightarrow> x \<in> set xs \<Longrightarrow> find (\<lambda>y. f y = f x) xs = Some x"
  by (induction xs) (auto simp: rev_image_eqI)

lemma build_window_complete:
  assumes w: "window_ok position w" and d: "distinct (add_window w objects)"
    and n: "shown + tab_terminal_count (win_tabs w) \<le> DTAS_MAX_TERMINALS"
    and f: "(if win_frontmost w then frontmost + 1 else frontmost) \<le> 1"
  shows "build_window objects shown frontmost position (window_json w) = Some (w, add_window w objects,
    shown + tab_terminal_count (win_tabs w), if win_frontmost w then frontmost + 1 else frontmost)"
proof -
  let ?wanted = "tab_uniqueID (win_selectedTab w)"
  have d': "distinct (fold add_tab (win_tabs w) objects)" using d by (simp add: add_window_def)
  have "mset (fold add_tab (win_tabs w) objects) = mset objects + mset (concat (map tab_ids (win_tabs w)))"
    by simp
  from distinct_mset_part [OF this d'] have ids: "distinct (map tab_uniqueID (win_tabs w))"
    by (rule distinct_tab_ids)
  have sel: "win_selectedTab w \<in> set (win_tabs w)" using w by (simp add: window_ok_def)
  have tabs: "build_tabs ?wanted objects shown 0 None (map tab_json (win_tabs w)) =
    Some (win_tabs w, Some (win_selectedTab w), fold add_tab (win_tabs w) objects, shown + tab_terminal_count (win_tabs w))"
    using build_tabs_complete [OF _ d' n _ ids, of 0 ?wanted None] find_key [OF ids sel] w
    by (simp add: window_ok_def)
  have "i < length (win_tabs w) \<Longrightarrow> i + 1 \<le> DTAS_MAX_TABS_PER_WINDOW" for i
    using w by (auto simp: window_ok_def numbered_nth tab_ok_def) 
  from this [of "DTAS_MAX_TABS_PER_WINDOW"] have "length (win_tabs w) \<le> DTAS_MAX_TABS_PER_WINDOW"
    by (cases "DTAS_MAX_TABS_PER_WINDOW < length (win_tabs w)") simp_all
  moreover have "valid_id ''tab'' ?wanted" using w sel by (auto simp: window_ok_def numbered_nth tab_ok_def in_set_conv_nth)
  moreover have "win_uniqueID w \<notin> set objects"
    using d mset_fold_add_tab [of "win_tabs w" objects]
    by (auto simp: add_window_def simp flip: set_mset_mset)
  ultimately show ?thesis using w f sel tabs
    by (auto simp: build_window_def window_json_def window_ok_def add_window_def Let_def)
qed

lemma build_windows_complete:
  assumes "numbered window_ok position ws" "distinct (fold add_window ws objects)"
    "shown + terminal_count ws \<le> DTAS_MAX_TERMINALS" "frontmost + length (filter win_frontmost ws) \<le> 1"
  shows "build_windows objects shown frontmost position (map window_json ws) = Some (ws, fold add_window ws objects)"
  using assms
proof (induction ws arbitrary: objects shown frontmost position)
  case (Cons w ws)
  have "build_window objects shown frontmost position (window_json w) = Some (w, add_window w objects,
    shown + tab_terminal_count (win_tabs w), if win_frontmost w then frontmost + 1 else frontmost)"
    using Cons.prems distinct_fold_add_window [of ws "add_window w objects"]
    by (intro build_window_complete) (auto simp: terminal_count_def split: if_splits)
  moreover have "build_windows (add_window w objects) (shown + tab_terminal_count (win_tabs w))
    (if win_frontmost w then frontmost + 1 else frontmost) (position + 1) (map window_json ws) =
      Some (ws, fold add_window ws (add_window w objects))"
    using Cons.prems by (intro Cons.IH) (auto simp: terminal_count_def split: if_splits)
  ultimately show ?case by simp
qed simp

theorem snapshot_complete:
  assumes "tree_ok ws generation enabled"
  shows "DtasBuildSnapshot (snapshot_fields ws generation enabled) =
    Some (ws, objects_of ws, generation, enabled)"
proof -
  have "distinct (fold add_window ws [])"
    using assms distinct_objects_of [of ws] by (simp add: tree_ok_def objects_of_def)
  then have "build_windows [] 0 0 0 (map window_json ws) = Some (ws, objects_of ws)"
    using assms unfolding objects_of_def by (intro build_windows_complete) (simp_all add: tree_ok_def)
  moreover have "length ws \<le> DTAS_MAX_WINDOWS"
  proof (cases "DTAS_MAX_WINDOWS < length ws")
    case True
    then show ?thesis using assms by (auto simp: tree_ok_def numbered_nth window_ok_def)
  qed simp
  ultimately show ?thesis using assms
    by (auto simp: DtasBuildSnapshot_def snapshot_fields_def tree_ok_def)
qed

end
