(* ===== verification/Das_Spec.thy ===== *)
theory Das_Spec
  imports Das_Inv Das_Tree
begin

text \<open>
  What the AppleScript bridge promises: scripts see well-formed trees, every script command is
  resumed once and never left behind; and one thing it refuses that the application sends.
\<close>

section \<open>The tree in the state\<close>

definition tree_inv :: "das \<Rightarrow> bool" where
  "tree_inv s \<longleftrightarrow> tree_ok (g_windows s) (g_generation s) (g_enabled s) \<and>
     g_objects_by_id s = objects_of (g_windows s)"

lemma tree_inv_cong:
  "tree_inv s \<Longrightarrow> g_windows t = g_windows s \<Longrightarrow> g_generation t = g_generation s \<Longrightarrow>
     g_enabled t = g_enabled s \<Longrightarrow> g_objects_by_id t = g_objects_by_id s \<Longrightarrow> tree_inv t"
  by (simp add: tree_inv_def)

lemma tree_ok_empty [simp]: "tree_ok [] 0 enabled" "objects_of [] = []"
  by (simp_all add: tree_ok_def terminal_count_def objects_of_def)

lemma complete_tree [simp]:
  "g_windows (DtasCompletePending p d oid s) = g_windows s"
  "g_generation (DtasCompletePending p d oid s) = g_generation s"
  "g_objects_by_id (DtasCompletePending p d oid s) = g_objects_by_id s"
  by (simp_all add: DtasCompletePending_def)

lemma complete_all_tree [simp]:
  "g_windows (complete_all d s) = g_windows s" "g_generation (complete_all d s) = g_generation s"
  "g_objects_by_id (complete_all d s) = g_objects_by_id s" "g_enabled (complete_all d s) = g_enabled s"
proof -
  have "g_windows (fold (\<lambda>p. DtasCompletePending p d None) ps s) = g_windows s \<and>
    g_generation (fold (\<lambda>p. DtasCompletePending p d None) ps s) = g_generation s \<and>
    g_objects_by_id (fold (\<lambda>p. DtasCompletePending p d None) ps s) = g_objects_by_id s \<and>
    g_enabled (fold (\<lambda>p. DtasCompletePending p d None) ps s) = g_enabled s" for ps
    by (induction ps arbitrary: s) simp_all
  then show "g_windows (complete_all d s) = g_windows s" "g_generation (complete_all d s) = g_generation s"
    "g_objects_by_id (complete_all d s) = g_objects_by_id s" "g_enabled (complete_all d s) = g_enabled s"
    by (simp_all add: complete_all_def)
qed

lemma submit_tree:
  "tree_inv s \<Longrightarrow> tree_inv (DtasSubmitCommand encode decode c kind target direction txt s)"
  by (erule tree_inv_cong)
     (simp_all add: DtasSubmitCommand_def DtasCreateCommandPacket_def DtasEnqueuePacket_def DtasRejectCommand_def
       Let_def split: option.splits)

lemma automate_tree:
  "tree_inv s \<Longrightarrow> tree_inv (snd (dtas_enqueue_self_automation_command decode main bytes s))"
  by (erule tree_inv_cong)
     (simp_all add: dtas_enqueue_self_automation_command_def DtasEnqueuePacket_def Let_def split: option.splits)

lemma publish_tree:
  assumes "tree_inv s"
  shows "tree_inv (snd (dtas_publish_snapshot decode main bytes s))"
proof -
  have "tree_inv (if \<not> enabled \<and> g_pending t \<noteq> [] then complete_all d t else t)"
    if "Option.bind x DtasBuildSnapshot = Some (windows, objects, generation, enabled)"
      "t = s\<lparr>g_windows := windows, g_objects_by_id := objects, g_generation := generation, g_enabled := enabled\<rparr>"
    for x windows objects generation enabled d t
    using that snapshot_sound [of _ windows objects generation enabled]
    by (auto simp: tree_inv_def split: bind_splits)
  then show ?thesis using assms
    by (simp add: dtas_publish_snapshot_def Let_def split: option.split prod.split)
qed

lemma das_step_tree: "das_step encode decode s s' \<Longrightarrow> tree_inv s \<Longrightarrow> tree_inv s'"
proof (induction rule: das_step.induct)
  case (complete s main op disposition object_id)
  then show ?case
    by (auto simp: dtas_complete_command_def Let_def split: option.splits intro: tree_inv_cong)
next
  case (timeout p s)
  then show ?case by (auto simp: timeout_fires_def Let_def intro!: tree_inv_cong [OF timeout.prems])
next
  case (submit c s kind target direction "txt")
  then show ?case by (simp add: submit_tree)
next
  case (automate s main bytes)
  then show ?case by (simp add: automate_tree)
next
  case (publish s main bytes)
  then show ?case by (simp add: publish_tree)
qed (auto simp: dtas_initialize_def dtas_session_start_def
  dtas_take_command_def dtas_session_shutdown_def tree_inv_def split: option.splits list.splits)

section \<open>A run\<close>

definition sample_terminal :: DTASScriptTerminal where
  "sample_terminal = \<lparr>term_uniqueID = lit ''terminal:1'', term_title = lit ''zsh'', term_workingDirectory = lit ''/tmp''\<rparr>"

definition sample_tab :: DTASScriptTab where
  "sample_tab = \<lparr>tab_uniqueID = lit ''tab:1'', tab_title = lit ''zsh'', tab_index = 1, tab_selected = True,
     tab_terminals = [sample_terminal], tab_focusedTerminal = sample_terminal\<rparr>"

definition sample_window :: DTASScriptWindow where
  "sample_window = \<lparr>win_uniqueID = lit ''window:1'', win_title = lit ''zsh'', win_orderedIndex = 1,
     win_frontmost = True, win_tabs = [sample_tab], win_selectedTab = sample_tab\<rparr>"

definition sample_packet :: "nat \<Rightarrow> json" where
  "sample_packet n = JObject [(lit ''version'', JNumber 1), (lit ''operationId'', JNumber (int n)),
     (lit ''kind'', JString (lit ''newWindow'')), (lit ''target'', JNull), (lit ''direction'', JNull),
     (lit ''text'', JNull)]"

text \<open>A decoder and an encoder for the three documents of the run.\<close>

definition sample_decode :: "byte list \<Rightarrow> json option" where
  "sample_decode bs = (if bs = [1] then Some (JObject (snapshot_fields [sample_window] 1 True))
     else if bs = [2] then Some (sample_packet 1) else if bs = [3] then Some (sample_packet 2) else None)"

definition sample_encode :: "json \<Rightarrow> byte list option" where
  "sample_encode j = (if j = sample_packet 1 then Some [2] else if j = sample_packet 2 then Some [3] else None)"

definition sample_open :: das where
  "sample_open = snd (dtas_publish_snapshot sample_decode True (Some [1])
     (snd (dtas_session_start True 4 1000000 (snd (dtas_initialize True True (Some 7) das_initial)))))"

definition sample_two :: das where
  "sample_two = DtasSubmitCommand sample_encode sample_decode 11 ''newWindow'' None None None
     (snd (dtas_take_command True (Some 8) True
       (DtasSubmitCommand sample_encode sample_decode 10 ''newWindow'' None None None sample_open)))"

definition sample_object :: "byte list" where
  "sample_object = map of_char ''window:1''"

definition sample_completed :: das where
  "sample_completed = snd (dtas_complete_command sample_decode True 1 0 (Some sample_object) sample_two)"

lemma sample_ids: "valid_id ''window'' (lit ''window:1'')" "valid_id ''tab'' (lit ''tab:1'')"
  "valid_id ''terminal'' (lit ''terminal:1'')"
  by (simp_all add: DtasValidIdentifier_def json_string_def lit_def hasPrefix_def utf8_length_def digit_def
      scanUnsignedLongLong_def word_le_nat_alt word_less_nat_alt)

lemma sample_texts: "safe_text kMaximumTitleBytes (lit ''zsh'')" "safe_text kMaximumWorkingDirectoryBytes (lit ''/tmp'')"
  "hasPrefix (lit ''/tmp'') (lit ''/'')"
  by (simp_all add: DtasSafeText_def json_string_def lit_def hasPrefix_def utf8_length_def unsafe_unit_def
      word_le_nat_alt word_less_nat_alt)

lemma sample_window_ok: "tree_ok [sample_window] 1 True"
  by (simp add: tree_ok_def window_ok_def tab_ok_def terminal_ok_def terminal_count_def tab_terminal_count_def
      window_ids_def tab_ids_def sample_window_def sample_tab_def sample_terminal_def sample_ids sample_texts)

lemma sample_open_eq: "sample_open = \<lparr>g_services = Some 7, g_started = True, g_enabled = True, g_generation = 1,
     g_next_operation_id = 1, g_timeout_micros = 1000000, g_maximum_pending = 4, g_windows = [sample_window],
     g_objects_by_id = objects_of [sample_window], g_command_queue = [], g_pending = [], g_resumed_count = 0,
     g_rejected_count = 0, das_timers = [], das_allocated = 0, das_log = []\<rparr>"
  using snapshot_complete [OF sample_window_ok]
  by (simp add: sample_open_def dtas_initialize_def dtas_session_start_def dtas_publish_snapshot_def
      das_initial_def sample_decode_def Let_def)

lemma sample_packet_accepted:
  "0 < n \<Longrightarrow> n \<le> maximum_identity \<Longrightarrow>
     Option.bind (json_object (Some (sample_packet n))) DtasCommandPacket = Some n"
  by (simp add: sample_packet_def DtasCommandPacket_def packet_shape_def null_field_def)

lemma sample_packet_eq [simp]: "sample_packet m = sample_packet n \<longleftrightarrow> m = n"
  by (simp add: sample_packet_def)

text \<open>A script command that asks for a window, with the next identifier free.\<close>

definition sample_pending :: "nat \<Rightarrow> nat \<Rightarrow> nat \<Rightarrow> DTASPendingCommand" where
  "sample_pending a n c =
     \<lparr>pc_address = a, pc_operationID = n, pc_packet = [of_nat n + 1], pc_command = Some c\<rparr>"

lemma sample_pending_simps [simp]:
  "pc_operationID (sample_pending a n c) = n" "pc_packet (sample_pending a n c) = [of_nat n + 1]"
  "pc_command (sample_pending a n c) = Some c"
  "sample_pending a n c = sample_pending a' n' c' \<longleftrightarrow> a = a' \<and> n = n' \<and> c = c'"
  by (auto simp: sample_pending_def)

lemma sample_submit:
  assumes "g_started s" "g_enabled s" "length (g_pending s) < g_maximum_pending s"
    "g_next_operation_id s = n" "n \<in> {1, 2}" "pending_of n s = None"
  shows "let p = sample_pending (das_allocated s) n c in DtasSubmitCommand sample_encode sample_decode c ''newWindow'' None None None s =
    s\<lparr>g_next_operation_id := n + 1, das_allocated := das_allocated s + 1, das_log := das_log s @ [Suspended c],
      g_pending := g_pending s @ [p], g_command_queue := g_command_queue s @ [p], das_timers := das_timers s @ [p]\<rparr>"
proof -
  have create: "DtasCreateCommandPacket sample_encode ''newWindow'' None None None s =
      (Some [of_nat n + 1], s\<lparr>g_next_operation_id := n + 1\<rparr>)"
    using assms(4,5) by (auto simp: DtasCreateCommandPacket_def sample_encode_def or_null_def Let_def
        simp flip: sample_packet_def)
  have decode: "Option.bind (json_object (sample_decode [of_nat n + 1])) DtasCommandPacket = Some n"
    using assms(5) sample_packet_accepted [of n] by (auto simp: sample_decode_def)
  have "pending_of n (s\<lparr>g_next_operation_id := n + 1\<rparr>) = None" using assms(6) by (simp add: pending_of_def)
  then show ?thesis using assms(1-3)
    by (simp add: DtasSubmitCommand_def create DtasEnqueuePacket_def decode sample_pending_def Let_def)
qed

lemma sample_two_eq: "sample_two = sample_open\<lparr>g_next_operation_id := 3, das_allocated := 2,
     g_command_queue := [sample_pending 1 2 11],
     g_pending := [sample_pending 0 1 10, sample_pending 1 2 11],
     das_timers := [sample_pending 0 1 10, sample_pending 1 2 11], das_log := [Suspended 10, Suspended 11]\<rparr>"
proof -
  have one: "DtasSubmitCommand sample_encode sample_decode 10 ''newWindow'' None None None sample_open =
      sample_open\<lparr>g_next_operation_id := 2, das_allocated := 1, das_log := [Suspended 10],
        g_pending := [sample_pending 0 1 10], g_command_queue := [sample_pending 0 1 10],
        das_timers := [sample_pending 0 1 10]\<rparr>"
    using sample_submit [of sample_open 1 10] by (simp add: sample_open_eq pending_of_def Let_def)
  let ?s = "sample_open\<lparr>g_next_operation_id := 2, das_allocated := 1, das_log := [Suspended 10],
      g_pending := [sample_pending 0 1 10], g_command_queue := [], das_timers := [sample_pending 0 1 10]\<rparr>"
  have take: "snd (dtas_take_command True (Some 8) True (sample_open\<lparr>g_next_operation_id := 2, das_allocated := 1,
      das_log := [Suspended 10], g_pending := [sample_pending 0 1 10], g_command_queue := [sample_pending 0 1 10],
      das_timers := [sample_pending 0 1 10]\<rparr>)) = ?s"
    by (simp add: dtas_take_command_def sample_open_eq sample_pending_def)
  have "DtasSubmitCommand sample_encode sample_decode 11 ''newWindow'' None None None ?s =
      ?s\<lparr>g_next_operation_id := 3, das_allocated := 2, das_log := [Suspended 10, Suspended 11],
        g_pending := [sample_pending 0 1 10, sample_pending 1 2 11], g_command_queue := [sample_pending 1 2 11],
        das_timers := [sample_pending 0 1 10, sample_pending 1 2 11]\<rparr>"
    using sample_submit [of ?s 2 11] by (simp add: sample_open_eq pending_of_def Let_def sample_pending_def)
  then show ?thesis unfolding sample_two_def one take by simp
qed

lemma sample_completed_eq: "sample_completed = sample_two\<lparr>g_pending := [sample_pending 1 2 11],
     das_log := [Suspended 10, Suspended 11, Resumed 10 (Succeeded (Some (lit ''window:1'')))], g_resumed_count := 1\<rparr>"
proof -
  have kind: "DtasPendingCommandKind sample_decode (sample_pending 0 1 10) = Some (lit ''newWindow'')"
    by (simp add: DtasPendingCommandKind_def sample_decode_def sample_packet_def)
  have id: "ascii_string sample_object = Some (lit ''window:1'')" "length sample_object = 8" "sample_object \<noteq> []"
    by (simp_all add: ascii_string_def lit_def sample_object_def)
  have known: "lit ''window:1'' \<in> set (objects_of [sample_window])"
    by (simp add: set_objects_of window_ids_def sample_window_def)
  show ?thesis using known kind
    by (simp add: sample_completed_def dtas_complete_command_def disposition_of_def sample_two_eq sample_open_eq
        pending_of_def id DtasCompletedObjectPrefix_def sample_ids DtasCompletePending_def completion_result_def
        Let_def)
qed

lemma das_reachable_step:
  "das_reachable encode decode s \<Longrightarrow> das_step encode decode s s' \<Longrightarrow> das_reachable encode decode s'"
  by (rule rtranclp.rtrancl_into_rtrancl)

lemma das_sample_reachable: "das_reachable sample_encode sample_decode sample_completed"
proof -
  let ?take = "snd (dtas_take_command True (Some 8) True
       (DtasSubmitCommand sample_encode sample_decode 10 ''newWindow'' None None None sample_open))"
  have "das_reachable sample_encode sample_decode sample_open" unfolding sample_open_def
    by (rule das_reachable_step, rule das_reachable_step, rule das_reachable_step, rule rtranclp.rtrancl_refl,
        rule das_step.initialize, rule das_step.start, rule das_step.publish)
  moreover have "10 \<notin> set (suspended sample_open)" by (simp add: suspended_def sample_open_eq map_filter_simps)
  ultimately have "das_reachable sample_encode sample_decode ?take"
    by (meson das_reachable_step das_step.submit das_step.take)
  moreover have "11 \<notin> set (suspended ?take)"
    using sample_submit [of sample_open 1 10]
    by (simp add: suspended_def sample_open_eq map_filter_simps dtas_take_command_def pending_of_def Let_def)
  ultimately have "das_reachable sample_encode sample_decode sample_two" unfolding sample_two_def
    by (rule das_reachable_step [OF _ das_step.submit])
  then show ?thesis unfolding sample_completed_def
    by (rule das_reachable_step [OF _ das_step.complete])
qed

section \<open>Timeouts in turn, and the titles of a document\<close>

lemma timeouts_steps:
  assumes "das_inv decode s" "distinct ps" "set ps \<subseteq> set (das_timers s)"
  shows "let t = fold timeout_fires ps s in (das_step encode decode)\<^sup>*\<^sup>* s t \<and> das_inv decode t \<and>
    g_pending t = filter (\<lambda>q. q \<notin> set ps) (g_pending s) \<and> suspended t = suspended s"
  using assms
proof (induction ps arbitrary: s)
  case (Cons p ps)
  have core: "das_core decode s" using Cons.prems(1) by (simp add: das_inv_def)
  have step: "das_step encode decode s (timeout_fires p s)"
    using Cons.prems(3) by (intro das_step.timeout) simp
  have "suspended (timeout_fires p s) = suspended s"
    by (simp add: timeout_fires_def DtasCompletePending_def suspended_def Let_def map_filter_simps split: option.splits)
  moreover have "set ps \<subseteq> set (das_timers (timeout_fires p s))"
  proof
    fix x assume "x \<in> set ps"
    then have "x \<noteq> p" "x \<in> set (das_timers s)" using Cons.prems(2,3) by auto
    then show "x \<in> set (das_timers (timeout_fires p s))" by (simp add: timeout_g_pending [OF core])
  qed
  ultimately show ?case
    using Cons.IH [of "timeout_fires p s"] timeout_inv [OF Cons.prems(1), of p] Cons.prems(2) step
    by (auto simp: Let_def timeout_g_pending [OF core] conj_commute intro: converse_rtranclp_into_rtranclp)
qed simp

lemma surrogate_unsafe: "c \<in> set s \<Longrightarrow> 0xD800 \<le> c \<Longrightarrow> c \<le> 0xDFFF \<Longrightarrow> \<not> safe_text maximum s"
  by (auto simp: DtasSafeText_def json_string_def unsafe_unit_def)

lemma build_windows_titles:
  "build_windows objects shown frontmost position (map window_json ws) = Some r \<Longrightarrow> w \<in> set ws \<Longrightarrow>
     safe_text kMaximumTitleBytes (win_title w)"
proof (induction ws arbitrary: objects shown frontmost position r)
  case (Cons v ws)
  have "build_window objects shown frontmost position (window_json v) = Some x \<Longrightarrow>
      safe_text kMaximumTitleBytes (win_title v)" for x
    by (auto simp: build_window_def window_json_def split: if_splits)
  then show ?case using Cons by (auto split: option.splits prod.splits)
qed simp

section \<open>Properties\<close>

text \<open>
  C36. At every moment the windows, tabs and terminals that scripts see form a well-formed tree:
  identifiers are valid and occur once, indices count from one, each window has one selected tab
  and each tab a focused terminal of its own, at most one window is frontmost, there are at most
  32 windows with 64 tabs each and 64 terminals, and the identifiers that can be looked up are
  those of the tree. Whatever is published, and whatever \<open>NSJSONSerialization\<close> makes of it.
\<close>

theorem scripts_see_well_formed_tree:
  assumes "das_reachable encode decode s"
  shows "tree_ok (g_windows s) (g_generation s) (g_enabled s) \<and>
    set (g_objects_by_id s) = set (concat (map window_ids (g_windows s)))"
proof -
  have "tree_inv das_initial" by (simp add: tree_inv_def das_initial_def)
  with assms have "tree_inv s" by (induction rule: rtranclp_induct) (auto intro: das_step_tree)
  then show ?thesis by (simp add: tree_inv_def set_objects_of)
qed

theorem scripts_see_well_formed_tree_witness:
  "tree_ok (g_windows sample_completed) (g_generation sample_completed) (g_enabled sample_completed) \<and>
   set (g_objects_by_id sample_completed) = set (concat (map window_ids (g_windows sample_completed))) \<and>
   g_windows sample_completed = [sample_window]"
  using scripts_see_well_formed_tree [OF das_sample_reachable]
  by (simp add: sample_completed_eq sample_two_eq sample_open_eq)

text \<open>
  C37. The snapshots that are accepted are those of well-formed trees, and a tree that is
  published is the tree that scripts see: building it from its document gives it back, with its
  generation and its identifiers, exactly when it is well-formed.
\<close>

theorem snapshot_round_trip:
  "DtasBuildSnapshot (snapshot_fields ws generation enabled) = Some (ws, objects_of ws, generation, enabled)
     \<longleftrightarrow> tree_ok ws generation enabled"
  using snapshot_complete snapshot_sound by blast

text \<open>
  C35. Every script command that was suspended is either still pending or was resumed, once;
  none is resumed that was not suspended, whatever the order of calls and timeouts, also when a
  timeout fires after its command, or its session, has ended. No command is pending while
  scripting is disabled or no session runs, and at most sixteen are pending.
\<close>

theorem script_commands_resumed_once:
  assumes "das_reachable encode decode s"
  shows "distinct (suspended s) \<and> distinct (resumed s) \<and> distinct (pending_commands s) \<and>
    set (suspended s) = set (resumed s) \<union> set (pending_commands s) \<and>
    set (resumed s) \<inter> set (pending_commands s) = {} \<and>
    (\<not> (g_started s \<and> g_enabled s) \<longrightarrow> pending_commands s = []) \<and>
    length (g_pending s) \<le> 16"
proof -
  have inv: "das_inv decode s" by (rule das_reachable_inv [OF assms])
  then have m: "mset (suspended s) = mset (resumed s @ pending_commands s)" and d: "distinct (suspended s)"
    by (simp_all add: das_inv_def das_core_def)
  have "distinct (resumed s @ pending_commands s)" using d mset_eq_imp_distinct_iff [OF m] by simp
  moreover have "set (suspended s) = set (resumed s @ pending_commands s)" by (rule mset_eq_setD [OF m])
  moreover have "\<not> (g_started s \<and> g_enabled s) \<longrightarrow> pending_commands s = []"
    using inv by (auto simp: das_inv_def pending_commands_def map_filter_simps)
  ultimately show ?thesis using d inv by (simp add: das_inv_def das_core_def)
qed

theorem script_commands_resumed_once_witness:
  "suspended sample_completed = [10, 11] \<and> resumed sample_completed = [10] \<and>
   pending_commands sample_completed = [11] \<and> distinct (suspended sample_completed) \<and>
   set (suspended sample_completed) = set (resumed sample_completed) \<union> set (pending_commands sample_completed) \<and>
   length (g_pending sample_completed) \<le> 16"
  using script_commands_resumed_once [OF das_sample_reachable]
  by (simp add: suspended_def resumed_def pending_commands_def sample_completed_eq sample_two_eq sample_open_eq
      sample_pending_def map_filter_simps)

text \<open>
  Nothing stays suspended: from any moment on, when the timeouts that are scheduled have
  fired, every command that was suspended has been resumed, without any help of the application.
\<close>

theorem timeouts_settle_commands:
  assumes "das_reachable encode decode s"
  shows "\<exists>t. (das_step encode decode)\<^sup>*\<^sup>* s t \<and> t = fold timeout_fires (das_timers s) s \<and>
    g_pending t = [] \<and> g_command_queue t = [] \<and> set (suspended s) = set (resumed t)"
proof -
  have inv: "das_inv decode s" by (rule das_reachable_inv [OF assms])
  let ?t = "fold timeout_fires (das_timers s) s"
  have "distinct (das_timers s)" using inv by (simp add: das_inv_def das_timed_def distinct_map)
  from timeouts_steps [OF inv this, of encode] have t: "(das_step encode decode)\<^sup>*\<^sup>* s ?t" "das_inv decode ?t"
    "g_pending ?t = filter (\<lambda>q. q \<notin> set (das_timers s)) (g_pending s)" "suspended ?t = suspended s"
    by (simp_all add: Let_def)
  have none: "g_pending ?t = []" using t(3) inv by (auto simp: das_inv_def das_timed_def filter_empty_conv)
  then have "g_command_queue ?t = []" "mset (suspended ?t) = mset (resumed ?t)"
    using t(2) by (auto simp: das_inv_def das_core_def pending_commands_def map_filter_simps dest: list_emb_Nil2)
  then show ?thesis using t none by (metis mset_eq_setD)
qed

theorem timeouts_settle_commands_witness:
  "\<exists>t. (das_step sample_encode sample_decode)\<^sup>*\<^sup>* sample_completed t \<and>
     t = fold timeout_fires (das_timers sample_completed) sample_completed \<and> g_pending t = [] \<and>
     g_command_queue t = [] \<and> set (resumed t) = {10, 11}"
  using timeouts_settle_commands [OF das_sample_reachable]
  by (simp add: suspended_def sample_completed_eq sample_two_eq map_filter_simps)

text \<open>
  A title or a working directory with a character outside the basic plane, an emoji for
  one, is never safe: the code tests UTF-16 units and refuses surrogates. So no document of a
  tree with such a window title is accepted, although the application, which tests code points,
  sends it.
\<close>

theorem emoji_title_refuses_snapshot:
  assumes "w \<in> set ws" "c \<in> set (win_title w)" "0xD800 \<le> c" "c \<le> 0xDFFF"
  shows "DtasBuildSnapshot (snapshot_fields ws generation enabled) = None"
proof (cases "DtasBuildSnapshot (snapshot_fields ws generation enabled)")
  case (Some r)
  then obtain x where "build_windows [] 0 0 0 (map window_json ws) = Some x"
    by (auto simp: DtasBuildSnapshot_def snapshot_fields_def split: option.splits if_splits)
  then show ?thesis using build_windows_titles assms surrogate_unsafe by blast
qed

theorem emoji_title_refuses_snapshot_witness:
  "DtasBuildSnapshot (snapshot_fields [sample_window\<lparr>win_title := [0xD83D, 0xDE00]\<rparr>] 1 True) = None \<and>
   DtasBuildSnapshot (snapshot_fields [sample_window] 1 True) \<noteq> None"
  using emoji_title_refuses_snapshot [of "sample_window\<lparr>win_title := [0xD83D, 0xDE00]\<rparr>" _ "0xD83D"]
    snapshot_complete [OF sample_window_ok] by simp

end
