(* ===== verification/Dai_Intents.thy ===== *)
theory Dai_Intents
  imports Dtr_Abi "HOL-Library.AList"
begin

text \<open>
  The App Intents bridge, from \<^verbatim>\<open>packages/dart_terminal_app_intents_macos/native/TerminalAppIntents.swift\<close>
  and \<^verbatim>\<open>.h\<close>: intents of Siri and Shortcuts (a new window, a new tab, the quick terminal) wait in a
  bounded queue until the application takes and completes them, or they time out.

  An intent waits for a continuation, which is a number here; resuming one a second time would be
  a fatal error of the Swift runtime. \<open>main_thread\<close> tells whether a call comes from the main thread.
\<close>

section \<open>Status codes, actions and outcomes\<close>

abbreviation "DTAI_ABI_VERSION \<equiv> (1 :: u32)"
abbreviation "DTAI_MAX_PENDING_COMMANDS \<equiv> (16 :: u32)"
abbreviation "DTAI_DEFAULT_TIMEOUT_MICROS \<equiv> (30000000 :: u64)"
abbreviation "DTAI_MAX_TIMEOUT_MICROS \<equiv> (300000000 :: u64)"

datatype DtaiStatus =
  DTAI_STATUS_OK | DTAI_STATUS_INVALID_ARGUMENT | DTAI_STATUS_UNSUPPORTED_VERSION | DTAI_STATUS_NOT_INITIALIZED
| DTAI_STATUS_ALREADY_STARTED | DTAI_STATUS_NOT_FOUND | DTAI_STATUS_RESOURCE_EXHAUSTED | DTAI_STATUS_WRONG_THREAD
| DTAI_STATUS_DISABLED | DTAI_STATUS_STALE_GENERATION | DTAI_STATUS_INTERNAL

fun dtai_status_code :: "DtaiStatus \<Rightarrow> u32" where
  "dtai_status_code DTAI_STATUS_OK = 0"
| "dtai_status_code DTAI_STATUS_INVALID_ARGUMENT = 1"
| "dtai_status_code DTAI_STATUS_UNSUPPORTED_VERSION = 2"
| "dtai_status_code DTAI_STATUS_NOT_INITIALIZED = 3"
| "dtai_status_code DTAI_STATUS_ALREADY_STARTED = 4"
| "dtai_status_code DTAI_STATUS_NOT_FOUND = 5"
| "dtai_status_code DTAI_STATUS_RESOURCE_EXHAUSTED = 6"
| "dtai_status_code DTAI_STATUS_WRONG_THREAD = 7"
| "dtai_status_code DTAI_STATUS_DISABLED = 8"
| "dtai_status_code DTAI_STATUS_STALE_GENERATION = 9"
| "dtai_status_code DTAI_STATUS_INTERNAL = 10"

datatype TerminalIntentAction = newWindow | newTab | toggleQuickTerminal

fun action_code :: "TerminalIntentAction \<Rightarrow> u32" where
  "action_code newWindow = 1"
| "action_code newTab = 2"
| "action_code toggleQuickTerminal = 3"

definition action_of :: "u32 \<Rightarrow> TerminalIntentAction option" where
  "action_of code = find (\<lambda>a. action_code a = code) [newWindow, newTab, toggleQuickTerminal]"

datatype TerminalIntentOutcome =
  intent_completed | intent_rejected | intent_failed | intent_disabled | intent_timedOut | intent_disposed

definition completionOutcome :: "u32 \<Rightarrow> TerminalIntentOutcome option" where
  "completionOutcome v = (if v = 0 then Some intent_completed else if v = 1 then Some intent_rejected
     else if v = 2 then Some intent_failed else None)"

datatype DtaiCommandDisposition = DTAI_COMMAND_COMPLETED | DTAI_COMMAND_REJECTED | DTAI_COMMAND_FAILED

fun dtai_disposition_code :: "DtaiCommandDisposition \<Rightarrow> u32" where
  "dtai_disposition_code DTAI_COMMAND_COMPLETED = 0"
| "dtai_disposition_code DTAI_COMMAND_REJECTED = 1"
| "dtai_disposition_code DTAI_COMMAND_FAILED = 2"

lemma completionOutcome_dispositions:
  "completionOutcome v \<noteq> None \<longleftrightarrow> (\<exists>d. v = dtai_disposition_code d)"
  by (metis (full_types) completionOutcome_def dtai_disposition_code.elims dtai_disposition_code.simps option.distinct(1))

datatype TerminalIntentError = error_disabled | error_unavailable | error_busy | error_timedOut | error_failed

text \<open>What \<open>perform\<close> throws, or \<open>None\<close> when it returns.\<close>

fun performTerminalAction :: "TerminalIntentOutcome \<Rightarrow> TerminalIntentError option" where
  "performTerminalAction intent_completed = None"
| "performTerminalAction intent_disabled = Some error_disabled"
| "performTerminalAction intent_rejected = Some error_busy"
| "performTerminalAction intent_timedOut = Some error_timedOut"
| "performTerminalAction intent_disposed = Some error_unavailable"
| "performTerminalAction intent_failed = Some error_failed"

section \<open>The queue\<close>

record PendingCommand =
  ic_operationID :: u64
  ic_generation :: u64
  ic_action :: TerminalIntentAction
  ic_continuation :: "nat option"
  ic_taken :: bool

text \<open>The dictionary of pending commands is an association list; nothing depends on its order.\<close>

record TerminalIntentCommandQueue =
  iq_generation :: u64
  iq_nextOperationID :: u64
  iq_timeoutMicros :: u64
  iq_pendingLimit :: u32
  iq_queuedOperationIDs :: "u64 list"
  iq_pending :: "(u64 \<times> PendingCommand) list"
  iq_acceptedCount :: u64
  iq_resolvedCount :: u64
  iq_rejectedCount :: u64
  iq_timedOutCount :: u64
  iq_started :: bool
  iq_enabled :: bool

definition new_intent_queue :: TerminalIntentCommandQueue where
  "new_intent_queue = \<lparr>iq_generation = 0, iq_nextOperationID = 1, iq_timeoutMicros = DTAI_DEFAULT_TIMEOUT_MICROS,
     iq_pendingLimit = DTAI_MAX_PENDING_COMMANDS, iq_queuedOperationIDs = [], iq_pending = [], iq_acceptedCount = 0,
     iq_resolvedCount = 0, iq_rejectedCount = 0, iq_timedOutCount = 0, iq_started = False, iq_enabled = False\<rparr>"

definition bumpGenerationLocked :: "TerminalIntentCommandQueue \<Rightarrow> TerminalIntentCommandQueue option" where
  "bumpGenerationLocked q = (if iq_generation q < UINT64_MAX then Some (q\<lparr>iq_generation := iq_generation q + 1\<rparr>) else None)"

definition drainLocked :: "TerminalIntentCommandQueue \<Rightarrow> PendingCommand list \<times> TerminalIntentCommandQueue" where
  "drainLocked q = (map snd (iq_pending q), q\<lparr>iq_pending := [], iq_queuedOperationIDs := [],
     iq_resolvedCount := iq_resolvedCount q + of_nat (length (iq_pending q))\<rparr>)"

definition start_intents ::
  "bool \<Rightarrow> u32 \<Rightarrow> u64 \<Rightarrow> TerminalIntentCommandQueue \<Rightarrow> DtaiStatus \<times> TerminalIntentCommandQueue" where
  "start_intents main_thread maximumPending timeout q =
     (if \<not> main_thread then (DTAI_STATUS_WRONG_THREAD, q)
      else if \<not> (0 < maximumPending \<and> maximumPending \<le> DTAI_MAX_PENDING_COMMANDS \<and> 0 < timeout \<and>
        timeout \<le> DTAI_MAX_TIMEOUT_MICROS) then (DTAI_STATUS_INVALID_ARGUMENT, q)
      else if iq_started q then (DTAI_STATUS_ALREADY_STARTED, q)
      else case bumpGenerationLocked q of None \<Rightarrow> (DTAI_STATUS_INTERNAL, q)
      | Some bumped \<Rightarrow> (DTAI_STATUS_OK, bumped\<lparr>iq_pendingLimit := maximumPending, iq_timeoutMicros := timeout,
          iq_queuedOperationIDs := [], iq_pending := [], iq_acceptedCount := 0, iq_resolvedCount := 0,
          iq_rejectedCount := 0, iq_timedOutCount := 0, iq_started := True, iq_enabled := False\<rparr>))"

text \<open>The commands whose continuations are resumed after the lock is released, with one outcome.\<close>

definition setEnabled :: "bool \<Rightarrow> bool \<Rightarrow> TerminalIntentCommandQueue \<Rightarrow>
    (DtaiStatus \<times> PendingCommand list) \<times> TerminalIntentCommandQueue" where
  "setEnabled main_thread value q =
     (if \<not> main_thread then ((DTAI_STATUS_WRONG_THREAD, []), q)
      else if \<not> iq_started q then ((DTAI_STATUS_NOT_INITIALIZED, []), q)
      else if iq_enabled q = value then ((DTAI_STATUS_OK, []), q)
      else case bumpGenerationLocked q of None \<Rightarrow> ((DTAI_STATUS_INTERNAL, []), q)
      | Some bumped \<Rightarrow>
        let changed = bumped\<lparr>iq_enabled := value\<rparr>;
            (resumptions, drained) = (if \<not> value then drainLocked changed else ([], changed))
        in ((DTAI_STATUS_OK, resumptions), drained))"

record Admission =
  ad_status :: DtaiStatus
  ad_command :: "PendingCommand option"
  ad_immediateOutcome :: "TerminalIntentOutcome option"

definition refuse_intent :: "DtaiStatus \<Rightarrow> TerminalIntentOutcome \<Rightarrow> TerminalIntentCommandQueue \<Rightarrow>
    Admission \<times> TerminalIntentCommandQueue" where
  "refuse_intent status outcome q = (\<lparr>ad_status = status, ad_command = None, ad_immediateOutcome = Some outcome\<rparr>,
     q\<lparr>iq_rejectedCount := iq_rejectedCount q + 1\<rparr>)"

definition admit :: "TerminalIntentAction \<Rightarrow> nat option \<Rightarrow> TerminalIntentCommandQueue \<Rightarrow>
    Admission \<times> TerminalIntentCommandQueue" where
  "admit action continuation q =
     (if \<not> iq_started q then refuse_intent DTAI_STATUS_NOT_INITIALIZED intent_disposed q
      else if \<not> iq_enabled q then refuse_intent DTAI_STATUS_DISABLED intent_disabled q
      else if \<not> length (iq_pending q) < unat (iq_pendingLimit q)
      then refuse_intent DTAI_STATUS_RESOURCE_EXHAUSTED intent_rejected q
      else if \<not> iq_nextOperationID q < UINT64_MAX then refuse_intent DTAI_STATUS_INTERNAL intent_failed q
      else let operationID = iq_nextOperationID q;
               command = \<lparr>ic_operationID = operationID, ic_generation = iq_generation q, ic_action = action,
                 ic_continuation = continuation, ic_taken = False\<rparr>
        in (\<lparr>ad_status = DTAI_STATUS_OK, ad_command = Some command, ad_immediateOutcome = None\<rparr>,
            q\<lparr>iq_nextOperationID := operationID + 1, iq_pending := AList.update operationID command (iq_pending q),
              iq_queuedOperationIDs := iq_queuedOperationIDs q @ [operationID],
              iq_acceptedCount := iq_acceptedCount q + 1\<rparr>))"

text \<open>The command that is expired, if it is still pending.\<close>

definition expire :: "u64 \<Rightarrow> u64 \<Rightarrow> TerminalIntentCommandQueue \<Rightarrow> PendingCommand option \<times> TerminalIntentCommandQueue" where
  "expire operationID generation q = (case map_of (iq_pending q) operationID of
     None \<Rightarrow> (None, q)
   | Some command \<Rightarrow>
     if ic_generation command = generation
     then (Some command, q\<lparr>iq_pending := AList.delete operationID (iq_pending q),
       iq_queuedOperationIDs := filter (\<lambda>i. i \<noteq> operationID) (iq_queuedOperationIDs q),
       iq_resolvedCount := iq_resolvedCount q + 1, iq_timedOutCount := iq_timedOutCount q + 1\<rparr>)
     else (None, q))"

text \<open>The loop of \<open>take\<close>: the first queued command that is pending, and the rest of the queue.\<close>

fun next_queued :: "(u64 \<times> PendingCommand) list \<Rightarrow> u64 list \<Rightarrow> PendingCommand option \<times> u64 list" where
  "next_queued pending [] = (None, [])"
| "next_queued pending (candidate # queue) = (case map_of pending candidate of
     None \<Rightarrow> next_queued pending queue
   | Some command \<Rightarrow> (Some command, queue))"

text \<open>\<open>out\<close> tells whether all of the pointers are there; the answer has what is written to them.\<close>

definition take_intent :: "bool \<Rightarrow> bool \<Rightarrow> TerminalIntentCommandQueue \<Rightarrow>
    (DtaiStatus \<times> (u64 \<times> u64 \<times> u32) option) \<times> TerminalIntentCommandQueue" where
  "take_intent main_thread out q =
     (if \<not> main_thread then ((DTAI_STATUS_WRONG_THREAD, None), q)
      else if \<not> out then ((DTAI_STATUS_INVALID_ARGUMENT, None), q)
      else if \<not> iq_started q then ((DTAI_STATUS_NOT_INITIALIZED, None), q)
      else case next_queued (iq_pending q) (iq_queuedOperationIDs q) of (found, queue) \<Rightarrow>
        let rest = q\<lparr>iq_queuedOperationIDs := queue\<rparr> in
        (case found of None \<Rightarrow> ((DTAI_STATUS_NOT_FOUND, None), rest)
         | Some command \<Rightarrow>
           ((DTAI_STATUS_OK, Some (ic_operationID command, ic_generation command, action_code (ic_action command))),
            rest\<lparr>iq_pending := AList.update (ic_operationID command) (command\<lparr>ic_taken := True\<rparr>) (iq_pending q)\<rparr>)))"

definition complete_intent :: "bool \<Rightarrow> u64 \<Rightarrow> u64 \<Rightarrow> u32 \<Rightarrow> TerminalIntentCommandQueue \<Rightarrow>
    (DtaiStatus \<times> (PendingCommand \<times> TerminalIntentOutcome) option) \<times> TerminalIntentCommandQueue" where
  "complete_intent main_thread operationID commandGeneration disposition q =
     (if \<not> main_thread then ((DTAI_STATUS_WRONG_THREAD, None), q)
      else if operationID = 0 \<or> commandGeneration = 0 then ((DTAI_STATUS_INVALID_ARGUMENT, None), q)
      else case completionOutcome disposition of None \<Rightarrow> ((DTAI_STATUS_INVALID_ARGUMENT, None), q)
      | Some outcome \<Rightarrow>
        if \<not> iq_started q then ((DTAI_STATUS_NOT_INITIALIZED, None), q)
        else if commandGeneration \<noteq> iq_generation q then ((DTAI_STATUS_STALE_GENERATION, None), q)
        else case map_of (iq_pending q) operationID of None \<Rightarrow> ((DTAI_STATUS_NOT_FOUND, None), q)
        | Some candidate \<Rightarrow>
          if \<not> (ic_generation candidate = commandGeneration \<and> ic_taken candidate)
          then ((if ic_generation candidate = commandGeneration then DTAI_STATUS_INVALID_ARGUMENT
                 else DTAI_STATUS_STALE_GENERATION, None), q)
          else ((DTAI_STATUS_OK, Some (candidate, outcome)),
            q\<lparr>iq_pending := AList.delete operationID (iq_pending q), iq_resolvedCount := iq_resolvedCount q + 1\<rparr>))"

definition shutdown_intents :: "bool \<Rightarrow> TerminalIntentCommandQueue \<Rightarrow>
    (DtaiStatus \<times> PendingCommand list) \<times> TerminalIntentCommandQueue" where
  "shutdown_intents main_thread q =
     (if \<not> main_thread then ((DTAI_STATUS_WRONG_THREAD, []), q)
      else if \<not> iq_started q then ((DTAI_STATUS_OK, []), q)
      else case bumpGenerationLocked q of None \<Rightarrow> ((DTAI_STATUS_INTERNAL, []), q)
      | Some bumped \<Rightarrow>
        (case drainLocked (bumped\<lparr>iq_started := False, iq_enabled := False\<rparr>) of
           (resumptions, drained) \<Rightarrow> ((DTAI_STATUS_OK, resumptions), drained)))"

record intent_summary =
  su_generation :: u64
  su_queuedCount :: u64
  su_pendingCount :: u64
  su_acceptedCount :: u64
  su_resolvedCount :: u64
  su_rejectedCount :: u64
  su_timedOutCount :: u64
  su_started :: u32
  su_enabled :: u32

definition intent_summary_of :: "bool \<Rightarrow> bool \<Rightarrow> TerminalIntentCommandQueue \<Rightarrow> DtaiStatus \<times> intent_summary option" where
  "intent_summary_of main_thread out q =
     (if \<not> main_thread then (DTAI_STATUS_WRONG_THREAD, None)
      else if \<not> out then (DTAI_STATUS_INVALID_ARGUMENT, None)
      else (DTAI_STATUS_OK, Some \<lparr>su_generation = iq_generation q,
        su_queuedCount = of_nat (length (iq_queuedOperationIDs q)), su_pendingCount = of_nat (length (iq_pending q)),
        su_acceptedCount = iq_acceptedCount q, su_resolvedCount = iq_resolvedCount q,
        su_rejectedCount = iq_rejectedCount q, su_timedOutCount = iq_timedOutCount q,
        su_started = (if iq_started q then 1 else 0), su_enabled = (if iq_enabled q then 1 else 0)\<rparr>))"

section \<open>The exported functions\<close>

text \<open>
  Around the queue: how many continuations there are; the commands whose timeout is still to be
  scheduled and the timeouts that are scheduled, as operation and generation; the continuations
  that a call has decided to resume after releasing the lock, and those that were resumed, each
  with its outcome; and the operations that the application has taken, in order.
\<close>

record intents_world =
  wd_queue :: TerminalIntentCommandQueue
  wd_continuations :: nat
  wd_scheduling :: "(u64 \<times> u64) list"
  wd_timers :: "(u64 \<times> u64) list"
  wd_resuming :: "(nat \<times> TerminalIntentOutcome) list"
  wd_resumed :: "(nat \<times> TerminalIntentOutcome) list"
  wd_taken :: "u64 list"

definition new_intents :: intents_world where
  "new_intents = \<lparr>wd_queue = new_intent_queue, wd_continuations = 0, wd_scheduling = [], wd_timers = [],
     wd_resuming = [], wd_resumed = [], wd_taken = []\<rparr>"

definition continuations_of :: "PendingCommand list \<Rightarrow> nat list" where
  "continuations_of commands = concat (map (\<lambda>c. case ic_continuation c of None \<Rightarrow> [] | Some k \<Rightarrow> [k]) commands)"

definition resume_intents :: "PendingCommand list \<Rightarrow> TerminalIntentOutcome \<Rightarrow> intents_world \<Rightarrow> intents_world" where
  "resume_intents commands outcome w =
     w\<lparr>wd_resuming := wd_resuming w @ map (\<lambda>k. (k, outcome)) (continuations_of commands)\<rparr>"

definition schedule_command :: "PendingCommand option \<Rightarrow> intents_world \<Rightarrow> intents_world" where
  "schedule_command command w = (case command of None \<Rightarrow> w
     | Some c \<Rightarrow> w\<lparr>wd_scheduling := wd_scheduling w @ [(ic_operationID c, ic_generation c)]\<rparr>)"

definition dtai_abi_version :: u32 where "dtai_abi_version = DTAI_ABI_VERSION"

definition dtai_session_start :: "bool \<Rightarrow> u32 \<Rightarrow> u64 \<Rightarrow> intents_world \<Rightarrow> DtaiStatus \<times> intents_world" where
  "dtai_session_start main_thread maximumPending timeoutMicros w =
     (case start_intents main_thread maximumPending timeoutMicros (wd_queue w) of
        (status, q) \<Rightarrow> (status, w\<lparr>wd_queue := q\<rparr>))"

definition dtai_session_set_enabled :: "bool \<Rightarrow> u32 \<Rightarrow> intents_world \<Rightarrow> DtaiStatus \<times> intents_world" where
  "dtai_session_set_enabled main_thread enabled w =
     (if \<not> enabled \<le> 1 then (DTAI_STATUS_INVALID_ARGUMENT, w)
      else case setEnabled main_thread (enabled = 1) (wd_queue w) of
        ((status, resumptions), q) \<Rightarrow> (status, resume_intents resumptions intent_disabled (w\<lparr>wd_queue := q\<rparr>)))"

text \<open>What \<open>perform\<close> of an intent does: it waits for a new continuation.\<close>

definition submit_intent :: "TerminalIntentAction \<Rightarrow> intents_world \<Rightarrow> intents_world" where
  "submit_intent action w = (let continuation = wd_continuations w in
     case admit action (Some continuation) (wd_queue w) of (admission, q) \<Rightarrow>
       let admitted = w\<lparr>wd_queue := q, wd_continuations := continuation + 1\<rparr> in
       (case ad_immediateOutcome admission of
          Some outcome \<Rightarrow> admitted\<lparr>wd_resuming := wd_resuming admitted @ [(continuation, outcome)]\<rparr>
        | None \<Rightarrow>
          if ad_command admission \<noteq> None then schedule_command (ad_command admission) admitted
          else admitted\<lparr>wd_resuming := wd_resuming admitted @ [(continuation, intent_failed)]\<rparr>))"

definition dtai_debug_enqueue_action :: "u32 \<Rightarrow> intents_world \<Rightarrow> DtaiStatus \<times> intents_world" where
  "dtai_debug_enqueue_action action w = (case action_of action of
     None \<Rightarrow> (DTAI_STATUS_INVALID_ARGUMENT, w)
   | Some value \<Rightarrow>
     (case admit value None (wd_queue w) of (admission, q) \<Rightarrow>
        (ad_status admission, schedule_command (ad_command admission) (w\<lparr>wd_queue := q\<rparr>))))"

definition dtai_take_command :: "bool \<Rightarrow> bool \<Rightarrow> intents_world \<Rightarrow>
    (DtaiStatus \<times> (u64 \<times> u64 \<times> u32) option) \<times> intents_world" where
  "dtai_take_command main_thread out w = (case take_intent main_thread out (wd_queue w) of
     ((status, written), q) \<Rightarrow>
       ((status, written), w\<lparr>wd_queue := q,
          wd_taken := wd_taken w @ (case written of None \<Rightarrow> [] | Some (operationID, _) \<Rightarrow> [operationID])\<rparr>))"

definition dtai_complete_command :: "bool \<Rightarrow> u64 \<Rightarrow> u64 \<Rightarrow> u32 \<Rightarrow> intents_world \<Rightarrow> DtaiStatus \<times> intents_world" where
  "dtai_complete_command main_thread operationID generation disposition w =
     (case complete_intent main_thread operationID generation disposition (wd_queue w) of
        ((status, completed), q) \<Rightarrow> (status, case completed of None \<Rightarrow> w\<lparr>wd_queue := q\<rparr>
          | Some (command, outcome) \<Rightarrow> resume_intents [command] outcome (w\<lparr>wd_queue := q\<rparr>)))"

definition dtai_session_shutdown :: "bool \<Rightarrow> intents_world \<Rightarrow> DtaiStatus \<times> intents_world" where
  "dtai_session_shutdown main_thread w = (case shutdown_intents main_thread (wd_queue w) of
     ((status, resumptions), q) \<Rightarrow> (status, resume_intents resumptions intent_disposed (w\<lparr>wd_queue := q\<rparr>)))"

definition dtai_debug_summary :: "bool \<Rightarrow> bool \<Rightarrow> intents_world \<Rightarrow> DtaiStatus \<times> intent_summary option" where
  "dtai_debug_summary main_thread out w = intent_summary_of main_thread out (wd_queue w)"

text \<open>A timeout that fires.\<close>

definition expire_intent :: "u64 \<times> u64 \<Rightarrow> intents_world \<Rightarrow> intents_world" where
  "expire_intent timer w = (case expire (fst timer) (snd timer) (wd_queue w) of (expired, q) \<Rightarrow>
     (case expired of None \<Rightarrow> w\<lparr>wd_queue := q\<rparr>
      | Some command \<Rightarrow> resume_intents [command] intent_timedOut (w\<lparr>wd_queue := q\<rparr>)))"

section \<open>Steps\<close>

text \<open>
  Calls come from any thread, in any order. What follows a call outside its lock is a step of its
  own: scheduling a timeout, firing one, and resuming a continuation; so every interleaving of
  these with the calls of other threads is among the histories.
\<close>

inductive caller_step :: "intents_world \<Rightarrow> intents_world \<Rightarrow> bool" where
  start: "caller_step w (snd (dtai_session_start main_thread maximumPending timeoutMicros w))"
| set_enabled: "caller_step w (snd (dtai_session_set_enabled main_thread enabled w))"
| submit: "caller_step w (submit_intent action w)"
| enqueue: "caller_step w (snd (dtai_debug_enqueue_action code w))"
| taking: "caller_step w (snd (dtai_take_command main_thread out w))"
| complete: "caller_step w (snd (dtai_complete_command main_thread operationID generation disposition w))"
| shutdown: "caller_step w (snd (dtai_session_shutdown main_thread w))"

inductive system_step :: "intents_world \<Rightarrow> intents_world \<Rightarrow> bool" where
  schedule: "wd_scheduling w = front @ timer # rest \<Longrightarrow>
    system_step w (w\<lparr>wd_scheduling := front @ rest, wd_timers := wd_timers w @ [timer]\<rparr>)"
| fire: "wd_timers w = front @ timer # rest \<Longrightarrow> system_step w (expire_intent timer (w\<lparr>wd_timers := front @ rest\<rparr>))"
| resume: "wd_resuming w = front @ resumption # rest \<Longrightarrow>
    system_step w (w\<lparr>wd_resuming := front @ rest, wd_resumed := wd_resumed w @ [resumption]\<rparr>)"

inductive intents_reachable :: "intents_world \<Rightarrow> bool" where
  initial: "intents_reachable new_intents"
| caller: "intents_reachable w \<Longrightarrow> caller_step w w' \<Longrightarrow> intents_reachable w'"
| system: "intents_reachable w \<Longrightarrow> system_step w w' \<Longrightarrow> intents_reachable w'"

end
