(* ===== verification/Dai_Spec.thy ===== *)
theory Dai_Spec
  imports Dai_Intents "HOL-Library.Multiset"
begin

text \<open>
  The invariant of the App Intents bridge and its properties: the queue is bounded and in order,
  every waiting intent is resumed exactly once, and none waits for ever.
\<close>

section \<open>Dictionaries of commands\<close>

abbreviation waiting :: "(u64 \<times> PendingCommand) list \<Rightarrow> nat list" where
  "waiting pending \<equiv> continuations_of (map snd pending)"

lemma continuations_of_simps [simp]:
  "continuations_of [] = []" "continuations_of (xs @ ys) = continuations_of xs @ continuations_of ys"
  by (simp_all add: continuations_of_def)

lemma continuations_of_Cons: "continuations_of (c # cs) = continuations_of [c] @ continuations_of cs"
  by (simp add: continuations_of_def)

lemma map_of_split:
  assumes "distinct (map fst al)" "map_of al k = Some v"
  obtains front rest where "al = front @ (k, v) # rest" "k \<notin> set (map fst front)" "k \<notin> set (map fst rest)"
proof -
  have "(k, v) \<in> set al" using assms(2) by (rule map_of_SomeD)
  then obtain front rest where "al = front @ (k, v) # rest" by (auto simp: in_set_conv_decomp)
  then show thesis using assms(1) that by auto
qed

lemma update_new: "k \<notin> set (map fst al) \<Longrightarrow> AList.update k v al = al @ [(k, v)]"
  by (induction al) auto

lemma update_known:
  "k \<notin> set (map fst front) \<Longrightarrow> AList.update k v (front @ (k, u) # rest) = front @ (k, v) # rest"
  by (induction front) auto

lemma filter_other: "k \<notin> set (map fst xs) \<Longrightarrow> filter (\<lambda>(k', _). k \<noteq> k') xs = xs"
  by (induction xs) auto

lemma delete_known:
  "k \<notin> set (map fst front) \<Longrightarrow> k \<notin> set (map fst rest) \<Longrightarrow> AList.delete k (front @ (k, v) # rest) = front @ rest"
  using filter_other [of k front] filter_other [of k rest] by (simp add: AList.delete_eq)

section \<open>The queue\<close>

definition untaken :: "(u64 \<times> PendingCommand) list \<Rightarrow> u64 list" where
  "untaken pending = map fst (filter (\<lambda>(_, c). \<not> ic_taken c) pending)"

definition queue_ok :: "TerminalIntentCommandQueue \<Rightarrow> bool" where
  "queue_ok q \<longleftrightarrow>
     sorted_wrt (<) (map fst (iq_pending q)) \<and>
     (\<forall>(i, c) \<in> set (iq_pending q). ic_operationID c = i \<and> 0 < i \<and> i < iq_nextOperationID q \<and>
        ic_generation c = iq_generation q) \<and>
     iq_queuedOperationIDs q = untaken (iq_pending q) \<and>
     length (iq_pending q) \<le> unat (iq_pendingLimit q) \<and> iq_pendingLimit q \<le> DTAI_MAX_PENDING_COMMANDS \<and>
     iq_timeoutMicros q \<le> DTAI_MAX_TIMEOUT_MICROS \<and>
     (iq_pending q \<noteq> [] \<longrightarrow> iq_enabled q) \<and> (iq_enabled q \<longrightarrow> iq_started q) \<and> (iq_started q \<longrightarrow> 0 < iq_generation q) \<and>
     0 < iq_nextOperationID q \<and>
     iq_acceptedCount q = iq_resolvedCount q + of_nat (length (iq_pending q))"

lemma queue_ok_new: "queue_ok new_intent_queue"
  by (simp add: queue_ok_def new_intent_queue_def untaken_def)

lemma below_maximum:
  assumes "(x :: u64) < UINT64_MAX"
  shows "x < x + 1" "0 < x + 1"
proof -
  have "unat x < unat UINT64_MAX" using assms by (simp only: word_less_nat_alt)
  then have "unat x < 18446744073709551615" by (simp add: unsigned_minus_1_eq_mask mask_eq_exp_minus_1)
  then have "unat (x + 1) = unat x + unat (1 :: u64)" by (intro unat_add_lem [THEN iffD1]) simp
  then show "x < x + 1" "0 < x + 1" by (simp_all add: word_less_nat_alt)
qed

lemma bump_up:
  "bumpGenerationLocked q = Some q' \<Longrightarrow> q' = q\<lparr>iq_generation := iq_generation q + 1\<rparr> \<and>
     iq_generation q \<le> iq_generation q + 1 \<and> 0 < iq_generation q + 1"
  by (auto simp: bumpGenerationLocked_def below_maximum less_imp_le split: if_splits)

text \<open>What a call hands over for resumption, and what stays.\<close>

lemma drained:
  "fst (drainLocked q) = map snd (iq_pending q)"
  "queue_ok q' \<Longrightarrow> iq_pending q' = iq_pending q \<Longrightarrow> iq_pending (snd (drainLocked q)) = []"
  by (simp_all add: drainLocked_def)

lemma set_enabled_queue:
  assumes "queue_ok q" "setEnabled main_thread v q = ((status, cs), q')"
  shows "queue_ok q' \<and> iq_generation q \<le> iq_generation q' \<and> iq_nextOperationID q' = iq_nextOperationID q \<and>
    (q' = q \<and> cs = [] \<or> iq_pending q' = [] \<and> cs = map snd (iq_pending q))"
proof (cases "main_thread \<and> iq_started q \<and> iq_enabled q \<noteq> v")
  case True
  show ?thesis
  proof (cases "bumpGenerationLocked q")
    case None
    with True assms show ?thesis by (simp add: setEnabled_def)
  next
    case (Some bumped)
    note b = bump_up [OF Some]
    show ?thesis
    proof (cases v)
      case True
      with \<open>main_thread \<and> iq_started q \<and> iq_enabled q \<noteq> v\<close> assms Some b
      have "cs = []" "q' = bumped\<lparr>iq_enabled := True\<rparr>" "iq_pending q = []" "iq_started q"
        by (auto simp: setEnabled_def queue_ok_def)
      then show ?thesis using assms(1) b by (simp add: queue_ok_def untaken_def)
    next
      case False
      with \<open>main_thread \<and> iq_started q \<and> iq_enabled q \<noteq> v\<close> assms(2) Some b
      have "cs = map snd (iq_pending q)" "q' = bumped\<lparr>iq_enabled := False, iq_pending := [],
          iq_queuedOperationIDs := [], iq_resolvedCount := iq_resolvedCount q + of_nat (length (iq_pending q))\<rparr>"
        by (auto simp: setEnabled_def drainLocked_def)
      then show ?thesis using assms(1) b by (simp add: queue_ok_def untaken_def)
    qed
  qed
next
  case False
  with assms(2) have "q' = q \<and> cs = []" by (auto simp: setEnabled_def split: if_splits)
  with assms(1) show ?thesis by simp
qed

lemma shutdown_queue:
  assumes "queue_ok q" "shutdown_intents main_thread q = ((status, cs), q')"
  shows "queue_ok q' \<and> iq_generation q \<le> iq_generation q' \<and> iq_nextOperationID q' = iq_nextOperationID q \<and>
    (q' = q \<and> cs = [] \<or> iq_pending q' = [] \<and> cs = map snd (iq_pending q))"
proof (cases "main_thread \<and> iq_started q \<and> bumpGenerationLocked q \<noteq> None")
  case True
  then obtain bumped where bumped: "bumpGenerationLocked q = Some bumped" by blast
  note b = bump_up [OF this]
  have "cs = map snd (iq_pending q)" "q' = bumped\<lparr>iq_started := False, iq_enabled := False, iq_pending := [],
      iq_queuedOperationIDs := [], iq_resolvedCount := iq_resolvedCount q + of_nat (length (iq_pending q))\<rparr>"
    using assms(2) True b by (auto simp: shutdown_intents_def bumped drainLocked_def)
  then show ?thesis using assms(1) b by (simp add: queue_ok_def untaken_def)
next
  case False
  with assms(2) have "q' = q \<and> cs = []" by (auto simp: shutdown_intents_def split: if_splits)
  with assms(1) show ?thesis by simp
qed

lemma start_queue:
  assumes ok: "queue_ok q" and call: "start_intents main_thread n t q = (status, q')"
  shows "queue_ok q' \<and> iq_generation q \<le> iq_generation q' \<and> iq_nextOperationID q' = iq_nextOperationID q \<and>
    iq_pending q' = iq_pending q"
proof (cases "q' = q")
  case False
  with call have "\<not> iq_started q" "0 < n" "n \<le> DTAI_MAX_PENDING_COMMANDS" "t \<le> DTAI_MAX_TIMEOUT_MICROS"
    by (auto simp: start_intents_def split: if_splits)
  moreover from False call obtain bumped where "bumpGenerationLocked q = Some bumped"
    by (auto simp: start_intents_def split: if_splits option.splits)
  note bumped = this bump_up [OF this]
  have "iq_pending q = []" using ok \<open>\<not> iq_started q\<close> by (auto simp: queue_ok_def)
  moreover have "q' = bumped\<lparr>iq_pendingLimit := n, iq_timeoutMicros := t,
          iq_queuedOperationIDs := [], iq_pending := [], iq_acceptedCount := 0, iq_resolvedCount := 0,
          iq_rejectedCount := 0, iq_timedOutCount := 0, iq_started := True, iq_enabled := False\<rparr>"
    using False call bumped(1) by (auto simp: start_intents_def split: if_splits)
  ultimately show ?thesis using ok bumped(2) by (simp add: queue_ok_def untaken_def)
qed (use ok in simp)

text \<open>The pending commands are told apart by their identifiers.\<close>

lemma queue_okD:
  assumes "queue_ok q"
  shows "distinct (map fst (iq_pending q))" "map_of (iq_pending q) i = Some c \<Longrightarrow> ic_operationID c = i"
    "map_of (iq_pending q) i = Some c \<Longrightarrow> ic_generation c = iq_generation q"
    "iq_nextOperationID q \<notin> set (map fst (iq_pending q))"
proof -
  show "distinct (map fst (iq_pending q))"
    using assms by (simp add: queue_ok_def strict_sorted_iff)
  show "map_of (iq_pending q) i = Some c \<Longrightarrow> ic_operationID c = i"
    "map_of (iq_pending q) i = Some c \<Longrightarrow> ic_generation c = iq_generation q"
    using assms by (auto simp: queue_ok_def dest!: map_of_SomeD)
  show "iq_nextOperationID q \<notin> set (map fst (iq_pending q))"
    using assms by (auto simp: queue_ok_def)
qed

lemma admit_queue:
  assumes ok: "queue_ok q" and call: "admit action k q = (admission, q')"
  shows "queue_ok q' \<and> iq_generation q' = iq_generation q \<and> iq_nextOperationID q \<le> iq_nextOperationID q'"
    "ad_command admission = None \<Longrightarrow> iq_pending q' = iq_pending q \<and> ad_immediateOutcome admission \<noteq> None"
    "ad_command admission = Some c \<Longrightarrow> iq_pending q' = iq_pending q @ [(iq_nextOperationID q, c)] \<and>
       ad_immediateOutcome admission = None \<and> ic_operationID c = iq_nextOperationID q \<and>
       ic_generation c = iq_generation q \<and> ic_continuation c = k \<and> \<not> ic_taken c"
proof -
  let ?op = "iq_nextOperationID q"
  let ?c = "\<lparr>ic_operationID = ?op, ic_generation = iq_generation q, ic_action = action, ic_continuation = k, ic_taken = False\<rparr>"
  let ?accepts = "iq_started q \<and> iq_enabled q \<and> length (iq_pending q) < unat (iq_pendingLimit q) \<and> ?op < UINT64_MAX"
  have "(queue_ok q' \<and> iq_generation q' = iq_generation q \<and> ?op \<le> iq_nextOperationID q') \<and>
    (ad_command admission = None \<longrightarrow> iq_pending q' = iq_pending q \<and> ad_immediateOutcome admission \<noteq> None) \<and>
    (\<forall>c. ad_command admission = Some c \<longrightarrow> iq_pending q' = iq_pending q @ [(?op, c)] \<and>
       ad_immediateOutcome admission = None \<and> ic_operationID c = ?op \<and>
       ic_generation c = iq_generation q \<and> ic_continuation c = k \<and> \<not> ic_taken c)"
  proof (cases ?accepts)
    case False
    then have "\<exists>status outcome. (admission, q') = refuse_intent status outcome q"
      using call unfolding admit_def by (metis (full_types))
    then show ?thesis using ok by (auto simp: refuse_intent_def queue_ok_def)
  next
    case True
    note up = below_maximum [of ?op]
    have new: "admission = \<lparr>ad_status = DTAI_STATUS_OK, ad_command = Some ?c, ad_immediateOutcome = None\<rparr>"
      "q' = q\<lparr>iq_nextOperationID := ?op + 1, iq_pending := iq_pending q @ [(?op, ?c)],
         iq_queuedOperationIDs := iq_queuedOperationIDs q @ [?op], iq_acceptedCount := iq_acceptedCount q + 1\<rparr>"
      using call True update_new [OF queue_okD(4) [OF ok]] by (simp_all add: admit_def Let_def)
    have members: "\<forall>(i, c) \<in> set (iq_pending q). ic_operationID c = i \<and> 0 < i \<and> i < ?op \<and> ic_generation c = iq_generation q"
      and sorted: "sorted_wrt (<) (map fst (iq_pending q))" and pos: "0 < ?op" using ok by (simp_all add: queue_ok_def)
    have "sorted_wrt (<) (map fst (iq_pending q @ [(?op, ?c)]))"
      using sorted members by (auto simp: sorted_wrt_append)
    moreover have "\<forall>(i, c) \<in> set (iq_pending q @ [(?op, ?c)]). ic_operationID c = i \<and> 0 < i \<and> i < ?op + 1 \<and>
        ic_generation c = iq_generation q"
      using members pos up True less_trans by fastforce
    moreover have "iq_queuedOperationIDs q @ [?op] = untaken (iq_pending q @ [(?op, ?c)])"
      using ok by (simp add: queue_ok_def untaken_def)
    ultimately have "queue_ok q'" using ok True up by (simp add: queue_ok_def new(2))
    then show ?thesis using True up by (simp add: new)
  qed
  then show "queue_ok q' \<and> iq_generation q' = iq_generation q \<and> iq_nextOperationID q \<le> iq_nextOperationID q'"
    "ad_command admission = None \<Longrightarrow> iq_pending q' = iq_pending q \<and> ad_immediateOutcome admission \<noteq> None"
    "ad_command admission = Some c \<Longrightarrow> iq_pending q' = iq_pending q @ [(iq_nextOperationID q, c)] \<and>
       ad_immediateOutcome admission = None \<and> ic_operationID c = iq_nextOperationID q \<and>
       ic_generation c = iq_generation q \<and> ic_continuation c = k \<and> \<not> ic_taken c" by blast+
qed

text \<open>Taking one command out of the dictionary.\<close>

definition removes :: "u64 \<Rightarrow> PendingCommand \<Rightarrow> TerminalIntentCommandQueue \<Rightarrow> TerminalIntentCommandQueue \<Rightarrow> bool" where
  "removes i c q q' \<longleftrightarrow> iq_generation q' = iq_generation q \<and> iq_nextOperationID q' = iq_nextOperationID q \<and>
     (\<exists>front rest. iq_pending q = front @ (i, c) # rest \<and> iq_pending q' = front @ rest)"

lemma queue_ok_remove:
  assumes ok: "queue_ok q" and at: "iq_pending q = front @ (i, c) # rest"
  shows "queue_ok (q\<lparr>iq_pending := front @ rest, iq_queuedOperationIDs := untaken (front @ rest),
    iq_resolvedCount := iq_resolvedCount q + 1, iq_timedOutCount := n\<rparr>)"
  using ok unfolding queue_ok_def at by (simp add: sorted_wrt_append)

lemma expire_queue:
  assumes ok: "queue_ok q" and call: "expire i g q = (found, q')"
  shows "found = None \<Longrightarrow> q' = q \<and> (\<forall>c. map_of (iq_pending q) i = Some c \<longrightarrow> iq_generation q \<noteq> g)"
    "found = Some c \<Longrightarrow> queue_ok q' \<and> removes i c q q' \<and> iq_queuedOperationIDs q' = filter (\<lambda>j. j \<noteq> i) (iq_queuedOperationIDs q)"
proof -
  show "found = None \<Longrightarrow> q' = q \<and> (\<forall>c. map_of (iq_pending q) i = Some c \<longrightarrow> iq_generation q \<noteq> g)"
    using call queue_okD(3) [OF ok] by (auto simp: expire_def split: option.splits if_splits)
  assume "found = Some c"
  with call have c: "map_of (iq_pending q) i = Some c"
    and q': "q' = q\<lparr>iq_pending := AList.delete i (iq_pending q),
       iq_queuedOperationIDs := filter (\<lambda>j. j \<noteq> i) (iq_queuedOperationIDs q),
       iq_resolvedCount := iq_resolvedCount q + 1, iq_timedOutCount := iq_timedOutCount q + 1\<rparr>"
    by (auto simp: expire_def split: option.splits if_splits)
  obtain front rest where at: "iq_pending q = front @ (i, c) # rest" "i \<notin> set (map fst front)" "i \<notin> set (map fst rest)"
    using map_of_split [OF queue_okD(1) [OF ok] c] by blast
  have other: "i \<notin> set (map fst xs) \<Longrightarrow> filter (\<lambda>j. j \<noteq> i) (untaken xs) = untaken xs" for xs
    by (induction xs) (auto simp: untaken_def)
  have "iq_queuedOperationIDs q = untaken (iq_pending q)" using ok by (simp add: queue_ok_def)
  then have left: "filter (\<lambda>j. j \<noteq> i) (iq_queuedOperationIDs q) = untaken (front @ rest)"
    using other [OF at(2)] other [OF at(3)] by (simp add: at(1)) (simp add: untaken_def)
  then have "q' = q\<lparr>iq_pending := front @ rest, iq_queuedOperationIDs := untaken (front @ rest),
    iq_resolvedCount := iq_resolvedCount q + 1, iq_timedOutCount := iq_timedOutCount q + 1\<rparr>"
    unfolding q' at(1) delete_known [OF at(2,3)] by simp
  with queue_ok_remove [OF ok at(1)] at(1) show "queue_ok q' \<and> removes i c q q' \<and>
      iq_queuedOperationIDs q' = filter (\<lambda>j. j \<noteq> i) (iq_queuedOperationIDs q)"
    by (auto simp: removes_def q' left)
qed

lemma complete_queue:
  assumes ok: "queue_ok q" and call: "complete_intent main_thread i g d q = ((status, found), q')"
  shows "found = None \<Longrightarrow> q' = q"
    "found = Some (c, outcome) \<Longrightarrow> queue_ok q' \<and> removes i c q q' \<and> iq_queuedOperationIDs q' = iq_queuedOperationIDs q \<and>
       ic_taken c \<and> ic_generation c = g \<and> completionOutcome d = Some outcome"
proof -
  show "found = None \<Longrightarrow> q' = q"
    using call by (auto simp: complete_intent_def split: option.splits if_splits)
  assume "found = Some (c, outcome)"
  with call have c: "map_of (iq_pending q) i = Some c" "ic_taken c" "ic_generation c = g" "completionOutcome d = Some outcome"
    and q': "q' = q\<lparr>iq_pending := AList.delete i (iq_pending q), iq_resolvedCount := iq_resolvedCount q + 1\<rparr>"
    by (auto simp: complete_intent_def split: option.splits if_splits)
  obtain front rest where at: "iq_pending q = front @ (i, c) # rest" "i \<notin> set (map fst front)" "i \<notin> set (map fst rest)"
    using map_of_split [OF queue_okD(1) [OF ok] c(1)] by blast
  have left: "iq_queuedOperationIDs q = untaken (front @ rest)" using ok c(2) by (simp add: queue_ok_def at(1) untaken_def)
  then have "q' = q\<lparr>iq_pending := front @ rest, iq_queuedOperationIDs := untaken (front @ rest),
    iq_resolvedCount := iq_resolvedCount q + 1, iq_timedOutCount := iq_timedOutCount q\<rparr>"
    unfolding q' at(1) delete_known [OF at(2,3)] by simp
  with queue_ok_remove [OF ok at(1), of "iq_timedOutCount q"] at(1) c(2-4) show "queue_ok q' \<and> removes i c q q' \<and>
      iq_queuedOperationIDs q' = iq_queuedOperationIDs q \<and> ic_taken c \<and> ic_generation c = g \<and>
      completionOutcome d = Some outcome"
    by (auto simp: removes_def q' left)
qed

text \<open>Taking the next command marks it and drops it from the queue; the loop never goes round.\<close>

lemma take_queue:
  assumes ok: "queue_ok q" and call: "take_intent main_thread out q = ((status, written), q')"
  shows "written = None \<Longrightarrow> q' = q"
    "written = Some (i, g, a) \<Longrightarrow> queue_ok q' \<and> iq_queuedOperationIDs q = i # iq_queuedOperationIDs q' \<and>
       iq_generation q' = iq_generation q \<and> iq_nextOperationID q' = iq_nextOperationID q \<and> g = iq_generation q \<and>
       (\<exists>front c rest. iq_pending q = front @ (i, c) # rest \<and> iq_pending q' = front @ (i, c\<lparr>ic_taken := True\<rparr>) # rest)"
proof -
  have queued: "iq_queuedOperationIDs q = untaken (iq_pending q)" using ok by (simp add: queue_ok_def)
  show "q' = q" if "written = None"
  proof (cases "iq_queuedOperationIDs q")
    case Nil
    with call that show ?thesis by (auto simp: take_intent_def split: if_splits)
  next
    case (Cons i ids)
    then have "i \<in> set (untaken (iq_pending q))" using queued by simp
    then obtain c where "map_of (iq_pending q) i = Some c"
      using queue_okD(1) [OF ok] by (auto simp: untaken_def)
    with call that Cons show ?thesis by (auto simp: take_intent_def Let_def split: if_splits)
  qed
  assume w: "written = Some (i, g, a)"
  show "queue_ok q' \<and> iq_queuedOperationIDs q = i # iq_queuedOperationIDs q' \<and>
       iq_generation q' = iq_generation q \<and> iq_nextOperationID q' = iq_nextOperationID q \<and> g = iq_generation q \<and>
       (\<exists>front c rest. iq_pending q = front @ (i, c) # rest \<and> iq_pending q' = front @ (i, c\<lparr>ic_taken := True\<rparr>) # rest)"
  proof (cases "iq_queuedOperationIDs q")
    case Nil
    with call w show ?thesis by (auto simp: take_intent_def split: if_splits)
  next
    case (Cons j ids)
    then have "j \<in> set (untaken (iq_pending q))" using queued by simp
    then obtain c where c: "map_of (iq_pending q) j = Some c" "\<not> ic_taken c"
      using queue_okD(1) [OF ok] by (auto simp: untaken_def)
    note key = queue_okD(2,3) [OF ok c(1)]
    have i: "i = j" "g = iq_generation q" and q': "q' = q\<lparr>iq_queuedOperationIDs := ids,
        iq_pending := AList.update j (c\<lparr>ic_taken := True\<rparr>) (iq_pending q)\<rparr>"
      using call w Cons c key by (auto simp: take_intent_def Let_def split: if_splits)
    obtain front rest where at: "iq_pending q = front @ (j, c) # rest" "j \<notin> set (map fst front)"
      using map_of_split [OF queue_okD(1) [OF ok] c(1)] by metis
    have new: "iq_pending q' = front @ (j, c\<lparr>ic_taken := True\<rparr>) # rest" by (simp add: q' at(1) update_known [OF at(2)])
    have "j # ids = untaken front @ j # untaken rest" using queued Cons c(2) by (simp add: at(1) untaken_def)
    moreover have "j \<notin> set (untaken front)" using at(2) by (auto simp: untaken_def)
    ultimately have "untaken front = []" "ids = untaken rest" by (cases "untaken front"; simp)+
    then have "ids = untaken (front @ (j, c\<lparr>ic_taken := True\<rparr>) # rest)" by (simp add: untaken_def)
    then have "queue_ok q'" unfolding queue_ok_def new using ok unfolding queue_ok_def at(1) by (simp add: q')
    then show ?thesis using Cons i at(1) new by (auto simp: q')
  qed
qed

section \<open>The invariant\<close>

text \<open>
  Every continuation is waiting in the dictionary, about to be resumed, or resumed; and a command
  that is pending has a timeout that is scheduled or about to be.
\<close>

definition intents_inv :: "intents_world \<Rightarrow> bool" where
  "intents_inv w \<longleftrightarrow> queue_ok (wd_queue w) \<and>
     mset (waiting (iq_pending (wd_queue w))) + mset (map fst (wd_resuming w)) + mset (map fst (wd_resumed w)) =
       mset [0..<wd_continuations w] \<and>
     (\<forall>(i, c) \<in> set (iq_pending (wd_queue w)). (i, ic_generation c) \<in> set (wd_scheduling w) \<union> set (wd_timers w)) \<and>
     sorted_wrt (<) (wd_taken w @ iq_queuedOperationIDs (wd_queue w)) \<and>
     (\<forall>i \<in> set (wd_taken w). i < iq_nextOperationID (wd_queue w))"

lemma intents_inv_new: "intents_inv new_intents"
  by (simp add: intents_inv_def new_intents_def queue_ok_new) (simp add: new_intent_queue_def)

lemma resume_fields [simp]:
  "wd_queue (resume_intents cs outcome w) = wd_queue w" "wd_continuations (resume_intents cs outcome w) = wd_continuations w"
  "wd_scheduling (resume_intents cs outcome w) = wd_scheduling w" "wd_timers (resume_intents cs outcome w) = wd_timers w"
  "wd_resumed (resume_intents cs outcome w) = wd_resumed w" "wd_taken (resume_intents cs outcome w) = wd_taken w"
  "map fst (wd_resuming (resume_intents cs outcome w)) = map fst (wd_resuming w) @ continuations_of cs"
  by (simp_all add: resume_intents_def comp_def)

text \<open>A call that hands all pending commands over, or none.\<close>

lemma intents_inv_drain:
  assumes inv: "intents_inv w" and q': "queue_ok q'" "iq_nextOperationID q' = iq_nextOperationID (wd_queue w)"
    and all: "q' = wd_queue w \<and> cs = [] \<or> iq_pending q' = [] \<and> cs = map snd (iq_pending (wd_queue w))"
  shows "intents_inv (resume_intents cs outcome (w\<lparr>wd_queue := q'\<rparr>))"
proof -
  have "iq_queuedOperationIDs q' = []" if "iq_pending q' = []" using q'(1) that by (simp add: queue_ok_def untaken_def)
  then show ?thesis
    using inv q' all unfolding intents_inv_def
    by (auto simp: sorted_wrt_append ac_simps)
qed

text \<open>A call that removes one command and resumes its continuation.\<close>

lemma intents_inv_remove:
  assumes inv: "intents_inv w" and ok: "queue_ok q'" and rem: "removes i c (wd_queue w) q'"
    and ids: "iq_queuedOperationIDs q' = filter P (iq_queuedOperationIDs (wd_queue w))"
    and timers: "\<And>j d. (j, d) \<in> set (iq_pending q') \<Longrightarrow> (j, ic_generation d) \<in> set (wd_scheduling w) \<union> set timers"
  shows "intents_inv (resume_intents [c] outcome (w\<lparr>wd_queue := q', wd_timers := timers\<rparr>))"
proof -
  obtain front rest where at: "iq_pending (wd_queue w) = front @ (i, c) # rest" "iq_pending q' = front @ rest"
    using rem by (auto simp: removes_def)
  have "sorted_wrt (<) (wd_taken w @ filter P (iq_queuedOperationIDs (wd_queue w)))"
    using inv by (auto simp: intents_inv_def sorted_wrt_append sorted_wrt_filter)
  moreover have "waiting (iq_pending (wd_queue w)) = waiting front @ continuations_of [c] @ waiting rest"
    by (simp add: at(1) continuations_of_def)
  moreover have "waiting (iq_pending q') = waiting front @ waiting rest" by (simp add: at(2))
  moreover have "iq_nextOperationID q' = iq_nextOperationID (wd_queue w)" using rem by (simp add: removes_def)
  ultimately show ?thesis
    using inv ok timers ids unfolding intents_inv_def
    by (auto simp: ac_simps)
qed

lemma multiset_shift:
  fixes a :: "'a multiset"
  assumes "a + r + s = u" "a' + u = a + n"
  shows "a' + r + s = n"
proof -
  have "a + (a' + r + s) = a' + (a + r + s)" by (simp add: ac_simps)
  also have "\<dots> = a + n" using assms by simp
  finally show ?thesis by simp
qed

text \<open>A command that is admitted, for a new continuation or for none.\<close>

lemma intents_inv_admit:
  assumes inv: "intents_inv w" and call: "admit action k (wd_queue w) = (admission, q')"
    and command: "ad_command admission = Some c" and k: "k = None \<and> n = wd_continuations w \<or>
      k = Some (wd_continuations w) \<and> n = wd_continuations w + 1"
  shows "intents_inv (schedule_command (Some c) (w\<lparr>wd_queue := q', wd_continuations := n\<rparr>))"
proof -
  let ?q = "wd_queue w"
  have ok: "queue_ok ?q" using inv by (simp add: intents_inv_def)
  note q = admit_queue(1) [OF ok call] admit_queue(3) [OF ok call command]
  have ids: "iq_queuedOperationIDs q' = iq_queuedOperationIDs ?q @ [iq_nextOperationID ?q]"
  proof -
    have "iq_queuedOperationIDs q' = untaken (iq_pending q')" "iq_queuedOperationIDs ?q = untaken (iq_pending ?q)"
      using q(1) ok by (simp_all add: queue_ok_def)
    then show ?thesis using q(2) by (simp add: untaken_def)
  qed
  have below: "\<forall>i \<in> set (iq_queuedOperationIDs ?q). i < iq_nextOperationID ?q"
    using ok by (auto simp: queue_ok_def untaken_def)
  have "iq_pending q' = iq_pending ?q @ [(iq_nextOperationID ?q, c)]" using q by simp
  then have "iq_nextOperationID ?q < iq_nextOperationID q'" using q(1) by (auto simp: queue_ok_def)
  then have "\<forall>i \<in> set (wd_taken w). i < iq_nextOperationID ?q \<and> i < iq_nextOperationID q'"
    using inv by (auto simp: intents_inv_def intro: less_trans)
  moreover have "mset (waiting (iq_pending q')) + mset [0..<wd_continuations w] =
      mset (waiting (iq_pending ?q)) + mset [0..<n]"
    using q(2) k by (auto simp: continuations_of_def simp del: mset_upt)
  moreover have "sorted_wrt (<) (wd_taken w @ iq_queuedOperationIDs ?q)" using inv by (simp add: intents_inv_def)
  ultimately have "sorted_wrt (<) (wd_taken w @ iq_queuedOperationIDs q')" "\<forall>i \<in> set (wd_taken w). i < iq_nextOperationID q'"
    and waits: "mset (waiting (iq_pending q')) + mset [0..<wd_continuations w] = mset (waiting (iq_pending ?q)) + mset [0..<n]"
    using below by (auto simp: ids sorted_wrt_append)
  moreover have "mset (waiting (iq_pending q')) + mset (map fst (wd_resuming w)) + mset (map fst (wd_resumed w)) = mset [0..<n]"
  proof -
    have "mset (waiting (iq_pending ?q)) + mset (map fst (wd_resuming w)) + mset (map fst (wd_resumed w)) =
        mset [0..<wd_continuations w]" using inv by (simp add: intents_inv_def)
    then show ?thesis using waits by (rule multiset_shift)
  qed
  moreover have "\<forall>(i, d) \<in> set (iq_pending q'). (i, ic_generation d) \<in>
      set (wd_scheduling w @ [(ic_operationID c, ic_generation c)]) \<union> set (wd_timers w)"
    using q inv by (auto simp: intents_inv_def)
  ultimately show ?thesis using q(1) by (simp add: intents_inv_def schedule_command_def)
qed

lemma intents_inv_refuse:
  assumes inv: "intents_inv w" and call: "admit action k (wd_queue w) = (admission, q')"
    and command: "ad_command admission = None"
  shows "intents_inv (w\<lparr>wd_queue := q'\<rparr>)"
    "intents_inv (w\<lparr>wd_queue := q', wd_continuations := wd_continuations w + 1,
       wd_resuming := wd_resuming w @ [(wd_continuations w, outcome)]\<rparr>)"
proof -
  have ok: "queue_ok (wd_queue w)" using inv by (simp add: intents_inv_def)
  note q = admit_queue(1) [OF ok call] admit_queue(2) [OF ok call command]
  have "iq_queuedOperationIDs q' = iq_queuedOperationIDs (wd_queue w)" using q ok by (simp add: queue_ok_def)
  moreover have "\<forall>i \<in> set (wd_taken w). i < iq_nextOperationID q'"
    using inv q(1) by (auto simp: intents_inv_def intro: less_le_trans)
  ultimately show "intents_inv (w\<lparr>wd_queue := q'\<rparr>)"
    "intents_inv (w\<lparr>wd_queue := q', wd_continuations := wd_continuations w + 1,
       wd_resuming := wd_resuming w @ [(wd_continuations w, outcome)]\<rparr>)"
    using inv q by (simp_all add: intents_inv_def)
qed

lemma caller_step_inv:
  assumes step: "caller_step w w'" and inv: "intents_inv w"
  shows "intents_inv w'"
  using step
proof cases
  case (start main_thread n t)
  obtain status q' where call: "start_intents main_thread n t (wd_queue w) = (status, q')" by fastforce
  have "queue_ok (wd_queue w)" using inv by (simp add: intents_inv_def)
  note q = start_queue [OF this call]
  have w': "w' = w\<lparr>wd_queue := q'\<rparr>" using start call by (simp add: dtai_session_start_def)
  have "iq_queuedOperationIDs q' = iq_queuedOperationIDs (wd_queue w)" using q inv by (simp add: intents_inv_def queue_ok_def)
  then show ?thesis using inv q by (simp add: w' intents_inv_def)
next
  case (set_enabled main_thread enabled)
  obtain status cs q' where call: "setEnabled main_thread (enabled = 1) (wd_queue w) = ((status, cs), q')"
    by (metis prod.exhaust)
  have "queue_ok (wd_queue w)" using inv by (simp add: intents_inv_def)
  note q = set_enabled_queue [OF this call]
  have "intents_inv (resume_intents cs intent_disabled (w\<lparr>wd_queue := q'\<rparr>))"
    by (rule intents_inv_drain [OF inv]) (use q in auto)
  then show ?thesis using set_enabled inv by (auto simp: dtai_session_set_enabled_def call)
next
  case (shutdown main_thread)
  obtain status cs q' where call: "shutdown_intents main_thread (wd_queue w) = ((status, cs), q')"
    by (metis prod.exhaust)
  have "queue_ok (wd_queue w)" using inv by (simp add: intents_inv_def)
  note q = shutdown_queue [OF this call]
  have "intents_inv (resume_intents cs intent_disposed (w\<lparr>wd_queue := q'\<rparr>))"
    by (rule intents_inv_drain [OF inv]) (use q in auto)
  then show ?thesis using shutdown by (simp add: dtai_session_shutdown_def call)
next
  case (complete main_thread i g d)
  obtain status found q' where call: "complete_intent main_thread i g d (wd_queue w) = ((status, found), q')"
    by (metis prod.exhaust)
  have ok: "queue_ok (wd_queue w)" using inv by (simp add: intents_inv_def)
  show ?thesis
  proof (cases found)
    case None
    with complete_queue(1) [OF ok call] complete inv show ?thesis by (simp add: dtai_complete_command_def call)
  next
    case (Some found')
    then obtain c outcome where c: "found = Some (c, outcome)" by (cases found') auto
    note q = complete_queue(2) [OF ok call c]
    have "intents_inv (resume_intents [c] outcome (w\<lparr>wd_queue := q', wd_timers := wd_timers w\<rparr>))"
    proof (rule intents_inv_remove [OF inv, where i = i])
      show "queue_ok q'" "removes i c (wd_queue w) q'" using q by blast+
      show "iq_queuedOperationIDs q' = filter (\<lambda>_. True) (iq_queuedOperationIDs (wd_queue w))" using q by simp
      fix j d assume "(j, d) \<in> set (iq_pending q')"
      then have "(j, d) \<in> set (iq_pending (wd_queue w))" using q by (auto simp: removes_def)
      then show "(j, ic_generation d) \<in> set (wd_scheduling w) \<union> set (wd_timers w)" using inv by (auto simp: intents_inv_def)
    qed
    then show ?thesis using complete by (simp add: dtai_complete_command_def call c)
  qed
next
  case (taking main_thread out)
  obtain status written q' where call: "take_intent main_thread out (wd_queue w) = ((status, written), q')"
    by (metis prod.exhaust)
  have ok: "queue_ok (wd_queue w)" using inv by (simp add: intents_inv_def)
  show ?thesis
  proof (cases written)
    case None
    with take_queue(1) [OF ok call] taking inv show ?thesis by (simp add: dtai_take_command_def call)
  next
    case (Some written')
    then obtain i g a where i: "written = Some (i, g, a)" by (cases written') auto
    note q = take_queue(2) [OF ok call i]
    then obtain front c rest where at: "iq_pending (wd_queue w) = front @ (i, c) # rest"
      "iq_pending q' = front @ (i, c\<lparr>ic_taken := True\<rparr>) # rest" by blast
    have w': "w' = w\<lparr>wd_queue := q', wd_taken := wd_taken w @ [i]\<rparr>" using taking by (simp add: dtai_take_command_def call i)
    have "waiting (iq_pending q') = waiting (iq_pending (wd_queue w))" by (simp add: at continuations_of_def)
    moreover have "i < iq_nextOperationID (wd_queue w)" using ok at(1) by (auto simp: queue_ok_def)
    ultimately show ?thesis using inv q at by (auto simp: intents_inv_def w')
  qed
next
  case (submit action)
  let ?k = "wd_continuations w"
  obtain admission q' where call: "admit action (Some ?k) (wd_queue w) = (admission, q')" by fastforce
  show ?thesis
  proof (cases "ad_command admission")
    case None
    have "ad_immediateOutcome admission \<noteq> None"
      using admit_queue(2) [OF _ call None] inv by (simp add: intents_inv_def)
    then show ?thesis using intents_inv_refuse(2) [OF inv call None] submit by (auto simp: submit_intent_def call Let_def)
  next
    case (Some c)
    have "ad_immediateOutcome admission = None"
      using admit_queue(3) [OF _ call Some] inv by (simp add: intents_inv_def)
    then show ?thesis using intents_inv_admit [OF inv call Some] submit by (simp add: submit_intent_def call Some)
  qed
next
  case (enqueue code)
  show ?thesis
  proof (cases "action_of code")
    case None
    with enqueue inv show ?thesis by (simp add: dtai_debug_enqueue_action_def)
  next
    case (Some chosen)
    obtain admission q' where call: "admit chosen None (wd_queue w) = (admission, q')" by fastforce
    show ?thesis
    proof (cases "ad_command admission")
      case None
      with intents_inv_refuse(1) [OF inv call None] enqueue Some show ?thesis
        by (simp add: dtai_debug_enqueue_action_def call schedule_command_def)
    next
      case (Some c)
      with intents_inv_admit [OF inv call Some, of "wd_continuations w"] enqueue \<open>action_of code = Some chosen\<close>
      show ?thesis by (simp add: dtai_debug_enqueue_action_def call)
    qed
  qed
qed

lemma expire_inv:
  assumes inv: "intents_inv w" and timers: "wd_timers w = front @ timer # rest"
  shows "intents_inv (expire_intent timer (w\<lparr>wd_timers := front @ rest\<rparr>))"
proof -
  obtain i g where timer: "timer = (i, g)" by (cases timer)
  obtain found q' where call: "expire i g (wd_queue w) = (found, q')" by fastforce
  have ok: "queue_ok (wd_queue w)" using inv by (simp add: intents_inv_def)
  have cover: "(j, ic_generation d) \<in> set (wd_scheduling w) \<union> set (front @ rest)"
    if "(j, d) \<in> set (iq_pending (wd_queue w))" "(j, ic_generation d) \<noteq> (i, g)" for j d
    using inv that by (fastforce simp: intents_inv_def timers timer)
  show ?thesis
  proof (cases found)
    case None
    note q = expire_queue(1) [OF ok call None]
    have "(j, ic_generation d) \<noteq> (i, g)" if "(j, d) \<in> set (iq_pending (wd_queue w))" for j d
      using q ok that map_of_is_SomeI [OF queue_okD(1) [OF ok] that] by (auto simp: queue_ok_def)
    then have "\<forall>(j, d) \<in> set (iq_pending (wd_queue w)). (j, ic_generation d) \<in> set (wd_scheduling w) \<union> set (front @ rest)"
      using cover by auto
    then show ?thesis using inv q by (simp add: intents_inv_def expire_intent_def timer call None)
  next
    case (Some c)
    note q = expire_queue(2) [OF ok call Some]
    have "intents_inv (resume_intents [c] intent_timedOut (w\<lparr>wd_queue := q', wd_timers := front @ rest\<rparr>))"
    proof (rule intents_inv_remove [OF inv, where i = i])
      show "queue_ok q'" "removes i c (wd_queue w) q'" using q by blast+
      show "iq_queuedOperationIDs q' = filter (\<lambda>j. j \<noteq> i) (iq_queuedOperationIDs (wd_queue w))" using q by blast
      fix j d assume jd: "(j, d) \<in> set (iq_pending q')"
      obtain before after where at: "iq_pending (wd_queue w) = before @ (i, c) # after" "iq_pending q' = before @ after"
        using q by (auto simp: removes_def)
      then have "(j, d) \<in> set (iq_pending (wd_queue w))" "j \<noteq> i" using jd queue_okD(1) [OF ok] by (auto simp: rev_image_eqI)
      then show "(j, ic_generation d) \<in> set (wd_scheduling w) \<union> set (front @ rest)" using cover by blast
    qed
    moreover have swap: "w\<lparr>wd_timers := front @ rest, wd_queue := q'\<rparr> = w\<lparr>wd_queue := q', wd_timers := front @ rest\<rparr>"
      by simp
    have "expire_intent timer (w\<lparr>wd_timers := front @ rest\<rparr>) =
        resume_intents [c] intent_timedOut (w\<lparr>wd_timers := front @ rest, wd_queue := q'\<rparr>)"
      by (simp add: expire_intent_def timer call Some)
    ultimately show ?thesis by (simp only: swap)
  qed
qed

lemma system_step_inv:
  assumes step: "system_step w w'" and inv: "intents_inv w"
  shows "intents_inv w'"
  using step
proof cases
  case (schedule front timer rest)
  with inv show ?thesis by (fastforce simp: intents_inv_def)
next
  case (fire front timer rest)
  with expire_inv [OF inv] show ?thesis by simp
next
  case (resume front resumption rest)
  with inv show ?thesis by (simp add: intents_inv_def)
qed

lemma intents_reachable_inv: "intents_reachable w \<Longrightarrow> intents_inv w"
  by (induction rule: intents_reachable.induct) (auto intro: intents_inv_new caller_step_inv system_step_inv)

section \<open>Properties\<close>

text \<open>
  C38. Whatever the order of calls, timeouts and resumptions, an intent is answered at most once,
  and none is forgotten: every continuation that an intent waits for is exactly one of waiting for
  a pending command, about to be resumed, or resumed.
\<close>

theorem intents_answered_once:
  assumes "intents_reachable w"
  shows "let places = waiting (iq_pending (wd_queue w)) @ map fst (wd_resuming w) @ map fst (wd_resumed w) in
    distinct places \<and> set places = {k. k < wd_continuations w}"
proof -
  let ?places = "waiting (iq_pending (wd_queue w)) @ map fst (wd_resuming w) @ map fst (wd_resumed w)"
  have all: "mset ?places = mset [0..<wd_continuations w]"
    using intents_reachable_inv [OF assms] by (simp only: intents_inv_def mset_append add.assoc)
  from mset_eq_imp_distinct_iff [OF all] mset_eq_setD [OF all] show ?thesis by (auto simp: Let_def)
qed

text \<open>
  C39. The queue is bounded and in order, in every reachable state: at most 16 commands are
  pending, and none unless the session is started and enabled; each has the generation of the
  session; the queue holds those not taken, in the order in which they were admitted; the
  application takes commands in that order and none twice; and the counts of the commands accepted
  and resolved differ by those pending.
\<close>

theorem intent_queue_in_order:
  assumes "intents_reachable w"
  shows "let q = wd_queue w; pending = iq_pending q in
    length pending \<le> unat (iq_pendingLimit q) \<and> unat (iq_pendingLimit q) \<le> 16 \<and>
    (pending \<noteq> [] \<longrightarrow> iq_started q \<and> iq_enabled q) \<and>
    (\<forall>(i, c) \<in> set pending. ic_operationID c = i \<and> ic_generation c = iq_generation q) \<and>
    iq_queuedOperationIDs q = untaken pending \<and> sorted_wrt (<) (map fst pending) \<and>
    sorted_wrt (<) (wd_taken w @ iq_queuedOperationIDs q) \<and>
    iq_acceptedCount q = iq_resolvedCount q + of_nat (length pending)"
proof -
  have inv: "queue_ok (wd_queue w)" "sorted_wrt (<) (wd_taken w @ iq_queuedOperationIDs (wd_queue w))"
    using intents_reachable_inv [OF assms] by (simp_all add: intents_inv_def)
  then have "unat (iq_pendingLimit (wd_queue w)) \<le> 16" by (simp add: queue_ok_def word_le_nat_alt)
  with inv show ?thesis by (auto simp: queue_ok_def Let_def)
qed

definition system_work :: "intents_world \<Rightarrow> nat" where
  "system_work w = 3 * length (wd_scheduling w) + 2 * length (wd_timers w) + length (wd_resuming w)"

lemma system_step_work: "system_step w w' \<Longrightarrow> system_work w' < system_work w"
proof (induction rule: system_step.induct)
  case (fire w front timer rest)
  have "length (continuations_of [c]) \<le> 1" for c by (simp add: continuations_of_def split: option.split)
  then have "length (wd_resuming (expire_intent timer (w\<lparr>wd_timers := front @ rest\<rparr>))) \<le> length (wd_resuming w) + 1"
    by (auto simp: expire_intent_def resume_intents_def split: prod.split option.split)
  moreover have "wd_timers (expire_intent timer (w\<lparr>wd_timers := front @ rest\<rparr>)) = front @ rest"
    "wd_scheduling (expire_intent timer (w\<lparr>wd_timers := front @ rest\<rparr>)) = wd_scheduling w"
    by (auto simp: expire_intent_def split: prod.split option.split)
  ultimately show ?case using fire by (simp add: system_work_def)
qed (simp_all add: system_work_def)

text \<open>
  C40. No intent waits for ever. Without further calls, scheduling the timeouts, firing them and
  resuming comes to an end in every order; and where it has ended, in a reachable state, nothing is
  pending and every intent has been answered.
\<close>

theorem intents_settle:
  "wfP (\<lambda>w' w. system_step w w') \<and>
   (intents_reachable w \<and> (\<nexists>w'. system_step w w') \<longrightarrow>
      iq_pending (wd_queue w) = [] \<and> mset (map fst (wd_resumed w)) = mset [0..<wd_continuations w])"
proof (intro conjI impI)
  have "{(w', w). system_step w w'} \<subseteq> measure system_work" using system_step_work by auto
  then show "wfP (\<lambda>w' w. system_step w w')" unfolding wfp_def by (rule wf_subset [OF wf_measure])
next
  assume w: "intents_reachable w \<and> (\<nexists>w'. system_step w w')"
  have "wd_scheduling w = []" "wd_timers w = []" "wd_resuming w = []"
    using w system_step.intros [of w "[]"] by (metis append_Nil neq_Nil_conv)+
  moreover note intents_reachable_inv [of w]
  ultimately have "iq_pending (wd_queue w) = []" using w by (cases "iq_pending (wd_queue w)") (auto simp: intents_inv_def)
  then show "iq_pending (wd_queue w) = []" "mset (map fst (wd_resumed w)) = mset [0..<wd_continuations w]"
    using w \<open>wd_resuming w = []\<close> intents_reachable_inv [of w] by (auto simp: intents_inv_def simp del: mset_upt)
qed

section \<open>Examples\<close>

text \<open>An intent that is admitted and taken, and one whose time then is up.\<close>

definition enabled_intents :: intents_world where
  "enabled_intents = snd (dtai_session_set_enabled True 1 (snd (dtai_session_start True 4 1000 new_intents)))"

definition taken_intents :: intents_world where
  "taken_intents = snd (dtai_take_command True True (submit_intent newTab enabled_intents))"

lemma enabled_intents_eq:
  "enabled_intents = new_intents\<lparr>wd_queue := new_intent_queue\<lparr>iq_generation := 2, iq_pendingLimit := 4,
     iq_timeoutMicros := 1000, iq_started := True, iq_enabled := True\<rparr>\<rparr>"
  by (simp add: enabled_intents_def dtai_session_set_enabled_def dtai_session_start_def start_intents_def setEnabled_def
      new_intents_def new_intent_queue_def bumpGenerationLocked_def resume_intents_def Let_def word_less_nat_alt
      unsigned_minus_1_eq_mask mask_eq_exp_minus_1)

abbreviation "sample_command \<equiv> \<lparr>ic_operationID = 1, ic_generation = 2, ic_action = newTab, ic_continuation = Some 0,
  ic_taken = True\<rparr>"

lemma taken_intents_eq:
  "taken_intents = enabled_intents\<lparr>wd_queue := (wd_queue enabled_intents)\<lparr>iq_nextOperationID := 2,
     iq_pending := [(1, sample_command)], iq_acceptedCount := 1\<rparr>,
     wd_continuations := 1, wd_scheduling := [(1, 2)], wd_taken := [1]\<rparr>"
  by (simp add: taken_intents_def dtai_take_command_def take_intent_def submit_intent_def admit_def enabled_intents_eq
      new_intents_def new_intent_queue_def schedule_command_def Let_def word_less_nat_alt
      unsigned_minus_1_eq_mask mask_eq_exp_minus_1)

lemma taken_intents_reachable: "intents_reachable taken_intents"
  unfolding taken_intents_def enabled_intents_def
  by (intro caller [OF _ taking] caller [OF _ submit] caller [OF _ set_enabled] caller [OF _ start] initial)

lemma intents_answered_once_witness:
  "distinct (waiting (iq_pending (wd_queue taken_intents)) @ map fst (wd_resuming taken_intents) @
     map fst (wd_resumed taken_intents)) \<and> waiting (iq_pending (wd_queue taken_intents)) = [0]"
  using intents_answered_once [OF taken_intents_reachable] by (simp add: Let_def taken_intents_eq continuations_of_def)

lemma intent_queue_in_order_witness:
  "sorted_wrt (<) (wd_taken taken_intents @ iq_queuedOperationIDs (wd_queue taken_intents)) \<and> wd_taken taken_intents = [1]"
  using intent_queue_in_order [OF taken_intents_reachable] by (simp add: Let_def taken_intents_eq untaken_def)

text \<open>The timeout is scheduled, fires, and the continuation is resumed.\<close>

definition settled_intents :: intents_world where
  "settled_intents = taken_intents\<lparr>wd_queue := (wd_queue taken_intents)\<lparr>iq_pending := [], iq_resolvedCount := 1,
     iq_timedOutCount := 1\<rparr>, wd_scheduling := [], wd_resumed := [(0, intent_timedOut)]\<rparr>"

lemma settled_intents_reachable: "intents_reachable settled_intents"
proof -
  let ?scheduled = "taken_intents\<lparr>wd_scheduling := [], wd_timers := [(1, 2)]\<rparr>"
  let ?fired = "expire_intent (1, 2) (?scheduled\<lparr>wd_timers := []\<rparr>)"
  have "system_step taken_intents ?scheduled"
    using schedule [of taken_intents "[]" "(1, 2)" "[]"] by (simp add: taken_intents_eq enabled_intents_eq new_intents_def)
  moreover have "system_step ?scheduled ?fired" using fire [of ?scheduled "[]" "(1, 2)" "[]"] by simp
  moreover have "?fired = settled_intents\<lparr>wd_resuming := [(0, intent_timedOut)], wd_resumed := []\<rparr>"
    by (simp add: expire_intent_def expire_def settled_intents_def taken_intents_eq enabled_intents_eq new_intents_def
        new_intent_queue_def resume_intents_def continuations_of_def)
  moreover have "system_step (settled_intents\<lparr>wd_resuming := [(0, intent_timedOut)], wd_resumed := []\<rparr>) settled_intents"
    using resume [of "settled_intents\<lparr>wd_resuming := [(0, intent_timedOut)], wd_resumed := []\<rparr>" "[]" "(0, intent_timedOut)" "[]"]
    by (simp add: settled_intents_def taken_intents_eq enabled_intents_eq new_intents_def)
  ultimately show ?thesis using taken_intents_reachable system by metis
qed

lemma settled_intents_idle: "\<not> system_step settled_intents w"
  by (auto simp: settled_intents_def taken_intents_eq enabled_intents_eq new_intents_def elim: system_step.cases)

lemma intents_settle_witness:
  "mset (map fst (wd_resumed settled_intents)) = {#0#} \<and> wd_continuations settled_intents = 1"
  using intents_settle settled_intents_reachable settled_intents_idle
  by (simp add: settled_intents_def taken_intents_eq)

end
