(* ===== verification/Spec2Isabelle.thy ===== *)
theory Spec2Isabelle
  imports Pty_Sample_Probe Pty_Observe Dtr_Renderer_Spec Dtr_Views_Spec Dtr_Font_Config_Spec Dtr_Overrides Dtr_Glyphs_Spec
    Das_Spec Dai_Spec
begin

text \<open>
  A verification library for the native code of a terminal emulator for macOS.
  The application is written in Dart; what it cannot do itself (running a program on a
  pseudo-terminal, drawing, receiving keys, answering Apple events) is done by native
  packages under \<^verbatim>\<open>packages/\<close>, each with a C interface that the Dart side calls:

  \<^item> \<^verbatim>\<open>dart_pty_macos/native\<close>: \<^verbatim>\<open>PtySession.cc\<close> runs a child on a pseudo-terminal, \<^verbatim>\<open>PtySpawn.c\<close>
    and \<^verbatim>\<open>PtyExecChild.c\<close> start it, \<^verbatim>\<open>dart_pty_macos.h\<close> and \<^verbatim>\<open>PtySpawnInternal.h\<close> are the interfaces;
  \<^item> \<^verbatim>\<open>dart_terminal_renderer_macos/native\<close>: \<^verbatim>\<open>TerminalRendererPlugin.m\<close> and \<^verbatim>\<open>.h\<close>, the Metal
    renderer, the views with their text input and accessibility documents, and the fonts;
  \<^item> \<^verbatim>\<open>dart_terminal_applescript_macos/native\<close>: \<^verbatim>\<open>TerminalAppleScriptPlugin.m\<close> and \<^verbatim>\<open>.h\<close>, the tree
    and the commands that scripts see;
  \<^item> \<^verbatim>\<open>dart_terminal_app_intents_macos/native\<close>: \<^verbatim>\<open>TerminalAppIntents.swift\<close> and \<^verbatim>\<open>.h\<close>, the
    actions that Siri and Shortcuts ask for.

  The four do not call each other; each talks to the application alone. Theories are named
  \<open>Pty_\<close>, \<open>Dtr_\<close>, \<open>Das_\<close> and \<open>Dai_\<close> after the prefixes of the C functions, and definitions keep the
  source's names. A \<open>w\<close>-bit integer is a word of its width where wrap-around can be seen, and
  a \<open>nat\<close> where a bound is proved that excludes it. Errors are values: an error record, a
  status, or \<open>None\<close>.

  \<^bold>\<open>The PTY package.\<close> A caller holds a handle, which the registry resolves to a session.
  Callers run the session's operations on their own threads under its mutex; one reactor
  thread per session does the input and output, and tells the caller what happened by a
  callback. The parts are:

  \<^item> \<open>Pty_Prelude\<close>: machine types, C strings, shared lemmas, and the locales \<open>byte_queue\<close>,
    \<open>bounded_queue\<close> and \<open>shared_state\<close>. \<open>Pty_Abi\<close>: enumerations, limits, layouts, errors, events.
  \<^item> \<open>Pty_Config\<close>: \<open>CopyConfig\<close>, with an exact account of what it accepts.
  \<^item> \<open>Pty_Session\<close>: the class \<open>Session\<close> as a record (\<open>x_\<close> is \<open>s_x\<close>) and the callers' operations,
    which return their result, the new state and their effects. \<open>Pty_Session_Inv\<close>: its invariant
    \<open>session_inv\<close>, what callers may change between two critical sections of the reactor (\<open>rely\<close>), and
    the interpretations of the queue and of the shared state.
  \<^item> \<open>Pty_Os\<close>: the reactor's thread as a state monad over a record of system calls, which are
    parameters, with a small Hoare logic. \<open>Pty_Reactor\<close> and \<open>Pty_Spawn\<close>: the reactor's methods, the
    spawn, the child's side and \<open>Run\<close>, statement by statement. At each acquisition of the mutex
    the field \<open>os_others\<close> inserts any calls of other threads, so a theorem for every \<open>os\<close> holds
    for every interleaving.
  \<^item> \<open>Pty_Reactor_Inv\<close>, \<open>Pty_Reactor_Keeps\<close>, \<open>Pty_Lifecycle\<close>: the invariant that ties a session to
    the trace of what its thread did, kept by every method from the spawn to the end (C1 to C6).
    \<open>Pty_Fuel\<close>: the inner loops end (C7). \<open>Pty_Descriptors\<close>: every descriptor is closed once (C8).
    \<open>Pty_Script\<close>: a scripted system that satisfies the hypotheses and runs the model.
  \<^item> \<open>Pty_Registry\<close>: handles with generations and the locale \<open>handle_table\<close>; \<open>Pty_Api\<close>: the \<open>dpty_\<close>
    functions and their refinement of a table of sessions.
  \<^item> \<open>Pty_Snapshot\<close>, \<open>Pty_Arguments\<close>, \<open>Pty_Foreground\<close>: what a caller can observe (statistics,
    processes, working directory, foreground job). \<open>Pty_Observe\<close>: the functions that hand them out.
    \<open>Pty_Sample_Probe\<close>: a kernel for the examples.

  \<^bold>\<open>The renderer.\<close> The application's thread uploads glyph pages and submits frames; the view
  draws the newest frame; a command buffer of the GPU completes later, on another thread.
  \<open>Dtr_Abi\<close> has the structures and their layout; \<open>Dtr_Renderer\<close> the class \<open>DtrMetalRenderer\<close> as a
  record (\<open>_x\<close> is \<open>r_x\<close>), its methods, and their interleaving as the step relation \<open>metal_step\<close>;
  \<open>Dtr_Frame\<close> the specification of valid frames and an encoder; \<open>Dtr_Renderer_Inv\<close> and \<open>Dtr_Metal\<close>
  the invariant of every reachable state; \<open>Dtr_Renderer_Spec\<close> the properties. \<open>Dtr_Text_Input\<close> has
  the packets of keys and compositions, their bounded queue and the view's side of it;
  \<open>Dtr_Text_Input_Inv\<close> interprets \<open>byte_queue\<close> on that queue and has its properties.
  \<open>Dtr_Accessibility\<close> has the document that assistive technology reads (a snapshot of the screen's
  text with its lines, the boundaries of its columns, a selection and a cursor): its validation and
  the queries; \<open>Dtr_Document\<close> says what a well-formed document is and that exactly these are
  accepted, \<open>Dtr_Accessibility_Spec\<close> has the properties. \<open>Dtr_Views\<close> composes the rest: the state
  \<open>plugin\<close> holds the table of renderers, the views, the input queues and the counters; the operations
  on views and the exported functions act on it as they do in the code, and \<open>plugin_step\<close> makes them
  and the callbacks of AppKit and of the GPU one history. \<open>Dtr_Views_Inv\<close> has its invariant,
  \<open>Dtr_Views_Spec\<close> the properties.

  \<^bold>\<open>Fonts.\<close> The same package turns text into glyphs and glyphs into pixels. \<open>Dtr_Font_Config\<close>
  decodes the configuration of a catalog, and \<open>Dtr_Font_Config_Spec\<close> says which are accepted.
  \<open>Dtr_Fonts\<close> has the class \<open>DtrFontCatalog\<close> as a record (\<open>_x\<close> is \<open>cg_x\<close>): the fonts of the styles,
  the identifiers of faces, the overrides of code points, the recorded resolutions, and the
  exported functions on the table of catalogs. \<open>Dtr_Glyphs\<close> shapes a text and \<open>Dtr_Raster\<close> draws
  glyphs; both answer with a packet, after a call that only asks for its size. \<open>Dtr_Packed\<close> reads
  arrays of structures back (the locale \<open>packed_array\<close>); \<open>Dtr_Raster_Spec\<close>, \<open>Dtr_Glyphs_Inv\<close> and
  \<open>Dtr_Glyphs_Spec\<close> say what the packets hold, \<open>Dtr_Overrides\<close> which font a character gets,
  \<open>Dtr_Fonts_Inv\<close> has the invariant of a history of catalogs. \<open>Dtr_Font_Sample\<close> is a small font
  system for the examples.

  \<^bold>\<open>The AppleScript bridge.\<close> The application publishes a JSON document; scripts see the tree
  built from it and submit commands, which are suspended until the application completes them
  or their time is up. \<open>Das_Abi\<close> and \<open>Das_Snapshot\<close> build the tree, \<open>Das_Tree\<close> says what a
  well-formed one is and that these are accepted and no others; \<open>Das_Session\<close> has the pending
  commands and the \<open>dtas_\<close> functions, \<open>Das_Inv\<close> their invariant as a state machine, \<open>Das_Spec\<close> the
  properties. The loop over a dictionary's values is taken in the order of arrival, and
  the test that a number is integral, which goes by way of a double, as exact.

  \<^bold>\<open>The App Intents bridge.\<close> An intent waits, on any thread, until the application has taken and
  completed its command, its time is up, or the session is disabled or ends. \<open>Dai_Intents\<close> has the
  queue, the \<open>dtai_\<close> functions, and two step relations, of the callers and of the system (timeouts
  scheduled and fired, continuations resumed), so that what Swift does after releasing the lock is
  interleaved with everything else; \<open>Dai_Spec\<close> has the invariant and the properties.

  \<^bold>\<open>What is assumed.\<close> System calls, the kernel's answers, the GPU's outcomes, Foundation's
  encoders and the clock are parameters. \<open>os_bounded\<close> says that a read returns at most what was
  asked for, and a write writes at most what it was given; \<open>os_patient\<close> that calls are
  interrupted by signals only finitely often; \<open>os_descriptors\<close> that descriptors are not negative
  and that duplicating one respects the lower bound. What CoreText, AppKit and CoreGraphics compute
  of fonts is a record of functions, so asking again gives the same answer; nothing is assumed of how
  many fonts there are. A double is an exact number or not finite, and \<open>ct_round\<close> rounds. Nothing
  is assumed of the order of calls.

  \<^bold>\<open>Bounds.\<close> The inner loops of the reactor take \<open>fuel\<close>. A loop goes round again after moving
  bytes, at most eight times, or after an interrupted call; so fuel above the number of
  interruptions plus eight is never used up, which is C7. The event loop takes \<open>turns\<close>: it may
  run for ever, and a number of turns gives a prefix of its run, after which the model closes
  the descriptors; so C8 holds of each prefix that is followed by an end. Handles have 64 bits and
  the identifiers of faces 32; what a wrapped counter would break is stated for histories that
  create fewer than \<open>2 ^ 64 - 1\<close> renderers (C24) or font catalogs (C27, C30, C31), and for catalogs
  with no more than \<open>2 ^ 32 - 1\<close> different faces (parts of C27 and C30). A counter of handles
  that comes round skips 0 and the largest number and gives the others again; \<open>face_ids_run_out\<close> is
  what becomes of the identifiers of faces.

  \<^bold>\<open>Not modelled, and why.\<close> Of the renderer package: the conversion of cells to points on the
  screen. Of the AppleScript bridge: object specifiers, the evaluation of a command's arguments and
  the error texts (Cocoa's side). Of the App Intents bridge: titles and phrases, which are data for
  the system, and the length of a timeout, which may fire at any time. Faults that test builds
  inject. The Dart code (terminal core, application, bindings) is another language than the native
  code these theories cover.

  The properties carry the identifiers C1 to C40; some of them state defects of the code.
\<close>

section \<open>The reactor's thread, from the spawn on\<close>

text \<open>
  C1. Whatever the callers do and however the system answers, the bytes written to the
  terminal are the accepted writes in order, without a gap: what is accepted is what was
  sent, followed by what is queued, followed by what was dropped when the child exited.
\<close>

theorem run_writes_in_order:
  assumes "os_bounded os" "CopyConfig source = Inr c"
  shows "let r = run_thread os fuel turns w (started h c); s = r_session r; tr = r_trace r in
    \<exists>dropped. accepted tr = sent tr @ concat (pending_chunks s) @ dropped \<and>
      (s_child_completed s \<or> dropped = [])"
proof -
  have "run_post (run_thread os fuel turns w (started h c))"
    by (rule run_thread_post [OF assms(1) CopyConfig_wf [OF assms(2)]])
  from run_post_parts(2) [OF this] show ?thesis by (auto simp: fifo_def Let_def)
qed

lemma run_writes_in_order_witness:
  "accepted (r_trace sample_run) = [1, 2, 3, 4, 5] \<and>
   (\<exists>dropped. [1, 2, 3, 4, 5] = sent (r_trace sample_run) @ dropped)"
  using run_writes_in_order [OF script_bounded sample_accepted, of 10 1 sample_world 9]
  unfolding sample_run_def [symmetric] Let_def
  by (simp add: sample_run_facts trace_Cons pending_chunks_def)

text \<open>
  C2. The output events carry exactly the bytes read from the terminal, in order, none
  lost and none repeated, under consecutive sequence numbers from zero.
\<close>

theorem run_outputs_in_order:
  assumes "os_bounded os" "CopyConfig source = Inr c"
  shows "let tr = r_trace (run_thread os fuel turns w (started h c)) in
    concat (map batch_bytes (outputs tr)) = reads tr \<and>
    map sequence (outputs tr) = map (\<lambda>i. of_nat i) [0..<length (outputs tr)]"
proof -
  have "run_post (run_thread os fuel turns w (started h c))"
    by (rule run_thread_post [OF assms(1) CopyConfig_wf [OF assms(2)]])
  from run_post_parts(3) [OF this] show ?thesis by (auto simp: window_def run_of_def Let_def)
qed

lemma run_outputs_in_order_witness:
  "concat (map batch_bytes (outputs (r_trace sample_run))) = [104, 105] \<and>
   map sequence (outputs (r_trace sample_run)) = [0]"
  using run_outputs_in_order [OF script_bounded sample_accepted, of 10 1 sample_world 9]
  unfolding sample_run_def [symmetric] Let_def
  by (simp add: sample_run_facts trace_Cons event_output_def)

text \<open>
  C3. Acknowledgements retire the output events first in, first out: the accepted
  acknowledgements name, with number and length, a prefix of the events, and the rest is
  what the session still counts as outstanding.
\<close>

theorem run_acknowledgements_in_order:
  assumes "os_bounded os" "CopyConfig source = Inr c"
  shows "let r = run_thread os fuel turns w (started h c); tr = r_trace r in
    \<exists>retired. outputs tr = retired @ s_outstanding (r_session r) \<and>
      acks tr = map (\<lambda>b. (sequence b, length (batch_bytes b))) retired"
proof -
  have "run_post (run_thread os fuel turns w (started h c))"
    by (rule run_thread_post [OF assms(1) CopyConfig_wf [OF assms(2)]])
  from run_post_parts(3) [OF this] show ?thesis
    by (auto simp: window_def batch_key_def [abs_def] Let_def)
qed

lemma run_acknowledgements_in_order_witness:
  "\<exists>retired. outputs (r_trace sample_run) = retired \<and> length retired = 1 \<and>
     acks (r_trace sample_run) = map (\<lambda>b. (sequence b, length (batch_bytes b))) retired"
  using run_acknowledgements_in_order [OF script_bounded sample_accepted, of 10 1 sample_world 9]
  unfolding sample_run_def [symmetric] Let_def
  by (auto simp: sample_run_facts trace_Cons event_output_def)

text \<open>
  C4. The queues are bounded: the unacknowledged output and its recorded maximum never
  exceed the high-water mark, the queued writes and their maximum never exceed the
  capacity, both are at most 64 MiB, and the counters are the true sums.
\<close>

theorem run_queues_bounded:
  assumes "os_bounded os" "CopyConfig source = Inr c"
  shows "let s = r_session (run_thread os fuel turns w (started h c)) in
    s_read_in_flight_bytes s = sum_list (map (length \<circ> batch_bytes) (s_outstanding s)) \<and>
    s_read_in_flight_bytes s \<le> s_max_read_in_flight_bytes s \<and>
    s_max_read_in_flight_bytes s \<le> read_high_water (s_config s) \<and>
    read_high_water (s_config s) \<le> 64 * 1024 * 1024 \<and>
    s_write_queued_bytes s = sum_list (map length (pending_chunks s)) \<and>
    s_write_queued_bytes s \<le> s_max_write_queued_bytes s \<and>
    s_max_write_queued_bytes s \<le> write_capacity (s_config s) \<and>
    write_capacity (s_config s) \<le> 64 * 1024 * 1024"
proof -
  have "run_post (run_thread os fuel turns w (started h c))"
    by (rule run_thread_post [OF assms(1) CopyConfig_wf [OF assms(2)]])
  from run_post_parts(1) [OF this] show ?thesis
    using pending_chunks_sum
    by (simp add: session_inv_def output_inv_def write_inv_def config_wf_def sum_len_def comp_def
        Let_def)
qed

lemma run_queues_bounded_witness:
  "s_read_in_flight_bytes (r_session sample_run) = 0 \<and>
   s_write_queued_bytes (r_session sample_run) = 0"
  using run_queues_bounded [OF script_bounded sample_accepted, of 10 1 sample_world 9]
  unfolding sample_run_def [symmetric] Let_def
  by (simp add: sample_run_facts pending_chunks_def)

text \<open>
  C5. A session reports its end once: the thread emits one EXIT or ERROR event when the
  session is finished, and none before.
\<close>

theorem run_ends_once:
  assumes "os_bounded os" "CopyConfig source = Inr c"
  shows "let r = run_thread os fuel turns w (started h c) in
    terminals (r_trace r) = (if s_state (r_session r) = kFinished then 1 else 0)"
  using run_post_parts(4) [OF run_thread_post [OF assms(1) CopyConfig_wf [OF assms(2)]]]
  by (simp add: Let_def)

lemma run_ends_once_witness: "terminals (r_trace sample_run) = 1"
  using run_ends_once [OF script_bounded sample_accepted, of 10 1 sample_world 9]
  unfolding sample_run_def [symmetric] Let_def by (simp add: sample_run_facts)

text \<open>
  C6. The exit is published only when nothing is left to do: the child is reaped, the
  terminal's output was read to its end and acknowledged, no write is queued, and the
  session can be destroyed.
\<close>

theorem run_exit_after_drain:
  assumes "os_bounded os" "CopyConfig source = Inr c"
    "s_finished_reaping (r_session (run_thread os fuel turns w (started h c)))"
  shows "let s = r_session (run_thread os fuel turns w (started h c)) in
    s_child_completed s \<and> s_master_eof s \<and> s_writes s = [] \<and> CanDestroy s"
proof -
  have p: "run_post (run_thread os fuel turns w (started h c))"
    by (rule run_thread_post [OF assms(1) CopyConfig_wf [OF assms(2)]])
  show ?thesis
    using run_post_parts(5) [OF p assms(3)] run_post_parts(1) [OF p] assms(3)
    by (simp add: exit_ready_def session_inv_def life_inv_def CanDestroy_def Let_def)
qed

lemma run_exit_after_drain_witness: "CanDestroy (r_session sample_run)"
  using run_exit_after_drain [OF script_bounded sample_accepted, of 10 1 sample_world 9]
  unfolding sample_run_def [symmetric] Let_def by (simp add: sample_run_facts)

text \<open>
  C7. On a system that interrupts calls a bounded number of times, no loop of the thread
  runs on without end: fuel a little above that number is never used up.
\<close>

theorem run_never_hangs:
  assumes "os_patient budget os" "budget w + 8 < fuel"
  shows "\<not> r_hung (run_thread os fuel turns w (started h c))"
proof -
  have "ample (budget w) fuel" using assms(2) by (simp add: ample_def)
  from validD [OF Run_calm [OF assms(1) this, of turns] _ surjective_pairing] show ?thesis
    by (simp add: run_thread_def calm_thread_def)
qed

lemma run_never_hangs_witness: "\<not> r_hung sample_run"
proof -
  have "script_budget sample_world + 8 < 10"
    by (simp add: script_budget_def interrupts_def sample_world_def script_world_def)
  from run_never_hangs [OF script_patient this] show ?thesis by (simp add: sample_run_def)
qed

text \<open>
  C8. The thread closes every descriptor it opened, once each, on every path: failed pipe,
  fork or exec, failed kqueue, or a session that ran.
\<close>

theorem run_closes_descriptors:
  assumes "os_descriptors os"
  shows "let r = run_thread os fuel turns w (started h c) in
    opened (r_trace r) = closed_fds (r_trace r) \<and>
    s_kqueue_fd (r_session r) = - 1 \<and> s_master_fd (r_session r) = - 1 \<and>
    s_exec_error_fd (r_session r) = - 1"
  using validD [OF Run_fd [OF assms], of
    "\<lparr>r_session = started h c, r_world = w, r_errno = 0, r_trace = [], r_hung = False\<rparr>",
    OF _ surjective_pairing]
  by (simp add: run_thread_def holding_def fds_def started_eq SetHandle_def new_session_def Let_def)

lemma run_closes_descriptors_witness:
  "opened (r_trace sample_run) = {#4, 5, 6, 7#} \<and> closed_fds (r_trace sample_run) = {#4, 5, 6, 7#}"
  using run_closes_descriptors [OF script_descriptors, of 10 1 sample_world 9 sample_config]
  unfolding sample_run_def [symmetric] Let_def
  by (simp add: sample_run_facts add_mset_commute)

section \<open>The C interface\<close>

text \<open>
  C9. To its callers the interface is a map from handles to sessions. Every request does to
  that map what the specification \<open>table_step\<close> says: a creation adds a fresh nonzero handle
  with a new session or changes nothing, a call changes only the session its handle names
  and answers what the session's own operation answers, a destruction removes a session
  exactly when it has finished and its output is acknowledged.
\<close>

theorem api_refines_table:
  assumes "api_inv a" "api_step q a = (st, a', es)"
  shows "table_step q (session_at a) st (session_at a') es"
  using api_step_refines [OF assms] by simp

lemma sample_creation:
  "api_step (Create (Some sample_source) True True) initial_api =
     (DPTY_STATUS_OK,
      initial_api\<lparr>a_registry := \<lparr>slots = [\<lparr>generation = 1, slot_session = Some 0\<rparr>],
          free_indices = [], live_count = 1\<rparr>,
        a_sessions := [0 \<mapsto> SetHandle (Encode 0 1) (new_session sample_config)],
        a_next_address := 1\<rparr>, [])"
proof -
  have "Insert 0 (empty_registry :: nat registry) =
      (Encode 0 1, \<lparr>slots = [\<lparr>generation = 1, slot_session = Some 0\<rparr>], free_indices = [],
         live_count = 1\<rparr>)"
    by (simp add: Insert_def occupy_def empty_registry_def Let_def)
  moreover have "Encode 0 1 \<noteq> 0" by (rule Encode_nonzero) simp_all
  ultimately show ?thesis
    by (simp add: dpty_session_create_def sample_accepted initial_api_def)
qed

lemma api_refines_table_witness:
  "\<exists>h. h \<noteq> 0 \<and> session_at (fst (snd (api_step (Create (Some sample_source) True True) initial_api))) =
     (session_at initial_api)(h \<mapsto> SetHandle h (new_session sample_config))"
  using api_refines_table [OF api_inv_initial sample_creation]
  unfolding sample_creation by (auto simp: sample_accepted)

text \<open>
  C10. Over every history of requests, every handle that still resolves names a session in a
  good state that carries that handle, and the registry's books are in order: the free list
  holds exactly the empty slots, and the live count is the number of occupied ones.
\<close>

theorem api_history_good:
  "let a = api_history qs initial_api in
   reg_inv (a_registry a) \<and>
   (\<forall>h. pred_option (\<lambda>s. session_inv s \<and> s_handle s = h) (session_at a h))"
proof -
  have inv: "api_inv (api_history qs initial_api)"
    by (rule api_history_inv [OF api_inv_initial])
  have "pred_option (\<lambda>s. session_inv s \<and> s_handle s = h)
      (session_at (api_history qs initial_api) h)" for h
    using session_at_inv [OF inv, of h] by (cases "session_at (api_history qs initial_api) h") auto
  with inv show ?thesis by (simp add: api_inv_def Let_def)
qed

text \<open>
  The status a function returns is the status of the calling thread's last error, and
  \<open>dpty_get_last_error\<close> then hands out that error.
\<close>

theorem last_error_agrees:
  "let (st, a', es) = api_step q a in
   \<exists>e. dpty_get_last_error True a' = (DPTY_STATUS_OK, Some e) \<and> e_status e = st"
  using api_step_agrees [of q a]
  by (cases "api_step q a") (simp add: error_agrees_def dpty_get_last_error_def Let_def)

section \<open>Handles and the registry\<close>

text \<open>Encoding a slot's index and generation as a handle and decoding it are inverse.\<close>

theorem handle_round_trip:
  "(index \<noteq> - 1 \<and> gen \<noteq> 0 \<and> handle = Encode index gen) = (Decode handle = Some (index, gen))"
  using Decode_Encode [of index gen] Decode_SomeD [of handle index gen] by blast

text \<open>
  Looked at through its handles the registry is a map: \<open>Insert\<close> either is full and
  changes nothing, or returns a fresh nonzero handle and adds the binding; it is never full
  below \<open>2 ^ 32 - 1\<close> slots; \<open>Remove\<close> returns what the handle resolved to and deletes that
  binding, and only that.
\<close>

theorem registry_is_map:
  assumes "reg_inv r"
  shows "(let (h, r') = Insert s r in
      (if h = 0 then r' = r \<and> 2 ^ 32 - 1 \<le> length (slots r)
       else Lookup r h = None \<and> Lookup r' = (Lookup r)(h \<mapsto> s))) \<and>
    (let (x, r') = Remove k r in x = Lookup r k \<and> Lookup r' = (Lookup r)(k := None))"
proof
  obtain h r' where i: "Insert s r = (h, r')" by (cases "Insert s r")
  have "h = 0 \<Longrightarrow> 2 ^ 32 - 1 \<le> length (slots r)"
    using Insert_succeeds [OF assms, of s] i by (metis fst_conv not_le)
  then show "let (h, r') = Insert s r in
      (if h = 0 then r' = r \<and> 2 ^ 32 - 1 \<le> length (slots r)
       else Lookup r h = None \<and> Lookup r' = (Lookup r)(h \<mapsto> s))"
    using reg.ins_full [OF assms, of s r'] reg.ins_fresh [OF assms i] reg.ins_lookup [OF assms i]
    by (simp add: i)
  show "let (x, r') = Remove k r in x = Lookup r k \<and> Lookup r' = (Lookup r)(k := None)"
    using reg.rem_value [OF assms, of k] reg.rem_lookup [OF assms, of k]
    by (simp add: split_beta)
qed

lemma registry_is_map_witness:
  "\<exists>h r'. Insert (7::nat) empty_registry = (h, r') \<and> h \<noteq> 0 \<and> Lookup r' = [h \<mapsto> 7]"
proof -
  obtain h r' where i: "Insert (7::nat) empty_registry = (h, r')" by fastforce
  have "Lookup empty_registry = (\<lambda>_. None :: nat option)"
    by (rule ext) (simp add: Lookup_def empty_registry_def split: option.split)
  moreover have "slots (empty_registry :: nat registry) = []" by (simp add: empty_registry_def)
  ultimately show ?thesis
    using registry_is_map [OF reg_inv_empty, of "7::nat" 0] i by (auto split: if_splits)
qed

text \<open>
  C11. A handle whose session was removed never resolves again while fewer than
  \<open>2 ^ 32 - 2\<close> further removals happen, whatever is inserted and removed in between: the
  slot's generation has to go all the way round first.
\<close>

theorem stale_handle_never_resolves:
  assumes "reg_inv r" "Lookup r h = Some s" "removals ops < 2 ^ 32 - 2"
  shows "Lookup (fold apply_op ops (snd (Remove h r))) h = None"
proof -
  have inv: "reg_inv (snd (Remove h r))" using reg.rem_good [OF assms(1)] .
  have "retired (fold apply_op ops (snd (Remove h r))) h (2 ^ 32 - 2 - removals ops)"
    by (rule retired_history [OF inv retired_Remove [OF assms(2)]]) (use assms(3) in simp)
  then show ?thesis by (rule retired_Lookup) (use assms(3) in simp)
qed

lemma stale_handle_never_resolves_witness:
  "\<exists>h r. Insert (7::nat) empty_registry = (h, r) \<and> Lookup r h = Some 7 \<and>
     Lookup (fold apply_op [OpInsert 8, OpRemove 5] (snd (Remove h r))) h = None"
proof -
  obtain h r where i: "Insert (7::nat) empty_registry = (h, r)" by fastforce
  have inv: "reg_inv r" using reg.ins_good [OF reg_inv_empty, of "7::nat"] i by simp
  have "h \<noteq> 0" using Insert_succeeds [OF reg_inv_empty, of "7::nat"] i
    by (simp add: empty_registry_def)
  then have l: "Lookup r h = Some 7" using reg.ins_lookup [OF reg_inv_empty i] by simp
  from stale_handle_never_resolves [OF inv l, of "[OpInsert 8, OpRemove 5]"] i l show ?thesis
    by auto
qed

section \<open>The configuration\<close>

text \<open>
  C12. What \<open>CopyConfig\<close> accepts is safe to run: the executable and the directory are
  absolute paths, no string holds a NUL or exceeds its limit, every environment entry has a
  nonempty key before its first equals sign, the size is nonzero, and every limit is in
  range, with the low-water mark below the high-water mark.
\<close>

theorem config_sound:
  assumes "CopyConfig source = Inr c"
  shows "config_wf c"
  by (rule CopyConfig_wf [OF assms])

lemma config_sound_witness: "config_wf sample_config \<and> write_capacity sample_config = 16"
  using config_sound [OF sample_accepted] by (simp add: sample_config_def)

text \<open>
  \<open>CopyConfig\<close> accepts every configuration whose numbers pass the checks and whose
  strings are well formed, and the copy holds exactly these strings and numbers, with the
  defaults for the fields that an older caller's structure does not have.
\<close>

theorem config_complete:
  assumes "\<not> config_rejected cf" "cf_executable cf = Some exe" "absolute_path exe"
    "cf_arguments cf = Some (map Some args)" "cf_argument_count cf = length args"
    "list_all owned_string args"
    "cf_environment cf = Some (map Some env)" "cf_environment_count cf = length env"
    "list_all environment_entry env" "pred_option absolute_path (cf_working_directory cf)"
  shows "\<exists>c. CopyConfig (Some cf) = Inr c \<and> executable c = exe \<and> arguments c = args \<and>
    environment c = env \<and> working_directory c = cf_working_directory cf \<and>
    rows c = cf_initial_rows cf \<and> columns c = cf_initial_columns cf \<and>
    read_high_water c = cf_read_high_water_bytes cf \<and>
    read_low_water c = cf_read_low_water_bytes cf \<and>
    write_capacity c = cf_write_capacity_bytes cf \<and>
    read_batch c = (if has_read_batch cf \<and> cf_read_batch_bytes cf \<noteq> 0
      then cf_read_batch_bytes cf else kDefaultReadBatchBytes) \<and>
    read_batches_per_event_loop_turn c =
      (if has_read_turn_limit cf then cf_read_batches_per_event_loop_turn cf else 0)"
  unfolding CopyConfig_Some [OF assms] by simp

lemma config_complete_witness:
  "\<exists>c. CopyConfig (Some sample_source) = Inr c \<and> arguments c = [[115]] \<and> read_batch c = 4"
proof -
  have env: "environment_entry [65, EQUALS]"
    unfolding environment_entry_def
    by (rule conjI, simp add: owned_string_def, rule exI [of _ "[65]"], simp)
  have ok: "\<not> config_rejected sample_source"
    by (simp add: config_rejected_def sample_source_def has_read_batch_def has_read_turn_limit_def)
  show ?thesis
    using config_complete [OF ok, of "[SLASH]" "[[115]]" "[[65, EQUALS]]"] env
    by (auto simp: sample_source_def absolute_path_def owned_string_def has_read_batch_def)
qed

section \<open>The callers' operations\<close>

text \<open>
  No call takes the session out of its invariant: the queue and window counters, the
  order of the sequence numbers, the write offset, the request identifiers, the lifecycle
  flags and the pending requests stay consistent; and the lifecycle never moves backwards.
\<close>

theorem calls_keep_session_good:
  assumes "session_inv s"
  shows "session_inv (fold call_state calls s) \<and> s_state s \<le> s_state (fold call_state calls s)"
  using assms
proof (induction calls arbitrary: s)
  case (Cons c calls)
  from Cons.IH [OF call_keeps_inv [OF Cons.prems]] show ?case
    using call_state_mono [of s c] by (auto intro: order_trans)
qed simp

lemma sample_session_inv: "session_inv (started 9 sample_config)"
  using started_TI [OF CopyConfig_wf [OF sample_accepted]] by (simp add: TI_def)

lemma calls_keep_session_good_witness:
  "session_inv (fold call_state [CallWrite (Some [1, 2]), CallClose 5, CallForceClose]
     (started 9 sample_config))"
  using calls_keep_session_good [OF sample_session_inv] by blast

text \<open>
  Between two critical sections of the reactor, the other threads can only append to
  the write queue (nothing once the child is gone), retire output from the front, raise the
  close requests, and set the pending resize and signals: everything the reactor keeps
  between the sections, and the bytes it is in the middle of writing, stay as they were.
\<close>

theorem callers_interfere_little:
  assumes "session_inv s" "s_state s \<noteq> kCreated"
  shows "let t = fold call_state calls s in
    (\<exists>ws. s_writes t = s_writes s @ ws \<and> (\<not> s_child_completed s \<or> ws = [])) \<and>
    s_write_offset t = s_write_offset s \<and>
    (\<exists>retired. s_outstanding s = retired @ s_outstanding t) \<and>
    s_next_sequence t = s_next_sequence s \<and> s_state t = s_state s \<and>
    s_child_pid t = s_child_pid s \<and> s_child_completed t = s_child_completed s \<and>
    s_master_fd t = s_master_fd s \<and> s_kqueue_fd t = s_kqueue_fd s \<and>
    s_master_eof t = s_master_eof s \<and> s_close_started t = s_close_started s"
proof -
  have r: "rely s (fold call_state calls s)"
    by (rule sess.fold_rely) (use assms in \<open>simp add: live_inv_def\<close>)
  show ?thesis using r by (simp add: rely_eq [OF r] rely_def Let_def)
qed

lemma callers_interfere_little_witness:
  "\<exists>ws. s_writes (fold call_state [CallWrite (Some [1, 2])] (started 9 sample_config)) =
     s_writes (started 9 sample_config) @ ws"
proof -
  have "s_state (started 9 sample_config) \<noteq> kCreated" by (simp add: started_eq)
  from callers_interfere_little [OF sample_session_inv this] show ?thesis
    unfolding Let_def by blast
qed

text \<open>
  A write is refused only for a reason: while the session accepts writes, any sequence
  of nonempty writes that fits the capacity is accepted, and the queue then holds them in
  order behind what was there; the next one that does not fit the rest is refused.
\<close>

theorem writes_queue_in_order:
  assumes "accepting s" "[] \<notin> set bs"
    "s_write_queued_bytes s + sum_len bs \<le> write_capacity (s_config s)"
  shows "\<exists>s'. wq.push_all bs s = Some s' \<and> pending_chunks s' = pending_chunks s @ bs \<and>
    s_write_queued_bytes s' = s_write_queued_bytes s + sum_len bs \<and>
    (\<forall>b. write_capacity (s_config s') - s_write_queued_bytes s' < length b \<longrightarrow>
       offer_write b s' = None)"
proof -
  obtain s' where s': "wq.push_all bs s = Some s'" using wq.push_all_fits [OF assms] by blast
  have good: "accepting s'" by (rule wq.push_all_good [OF assms(1) s'])
  have items: "pending_chunks s' = pending_chunks s @ bs" by (rule wq.push_all_items [OF assms(1) s'])
  have used: "s_write_queued_bytes s' = s_write_queued_bytes s + sum_len bs"
    using wq.good_used [OF good] wq.good_used [OF assms(1)] items by simp
  have "offer_write b s' = None"
    if "write_capacity (s_config s') - s_write_queued_bytes s' < length b" for b
    by (rule wq.push_too_big [OF good]) (use that wq.good_limit [OF good] in linarith)
  with s' items used show ?thesis by blast
qed

lemma writes_queue_in_order_witness:
  "\<exists>s'. wq.push_all [[1, 2], [3]] (started 9 sample_config) = Some s' \<and>
     pending_chunks s' = [[1, 2], [3]] \<and> s_write_queued_bytes s' = 3"
proof -
  have "accepting (started 9 sample_config)"
    using sample_session_inv by (simp add: accepting_def started_eq SetHandle_def new_session_def)
  from writes_queue_in_order [OF this, of "[[1, 2], [3]]"] show ?thesis
    by (auto simp: started_eq SetHandle_def new_session_def sample_config_def pending_chunks_def)
qed

section \<open>Starting and ending a child\<close>

text \<open>
  When the child cannot change directory or execute the program, the error number it
  writes to the pipe is the one \<open>CheckExec\<close> returns in the parent.
\<close>

theorem exec_failure_reported:
  assumes "dpty_exec_child chdir execve exe argv envp directory = ChildExit bs code"
    and "\<And>d e. chdir d = Fail e \<Longrightarrow> - (2 ^ 31) \<le> e \<and> e < 2 ^ 31"
    and "\<And>e. execve exe argv envp = Some e \<Longrightarrow> - (2 ^ 31) \<le> e \<and> e < 2 ^ 31"
    and "\<And>w. fst (os_poll os (s_exec_error_fd (r_session r)) 5000 w) = Ok 1"
    and "\<And>w. fst (os_read os (s_exec_error_fd (r_session r)) 4 w) = Ok bs"
  shows "\<exists>e. fst (run_state (CheckExec os (Suc fuel)) r) = Some e \<and>
    (if code = 126 then \<exists>d. directory = Some d \<and> chdir d = Fail e
     else code = 127 \<and> execve exe argv envp = Some e)"
proof -
  obtain e where e: "bs = int_bytes e" "- (2 ^ 31) \<le> e" "e < 2 ^ 31"
    "if code = 126 then \<exists>d. directory = Some d \<and> chdir d = Fail e
     else code = 127 \<and> execve exe argv envp = Some e"
    using assms(1-3)
    by (fastforce simp: dpty_exec_child_def split: option.splits sysret.splits)
  have "fst (run_state (CheckExec os (Suc fuel)) r) = Some (bytes_int bs)"
    using assms(4,5) e(1)
    by (simp add: CheckExec_def run_primitives split_beta)
  with e bytes_int_int_bytes [OF e(2,3)] show ?thesis by auto
qed

definition failing_os :: "script os" where
  "failing_os = script_os\<lparr>os_read := (\<lambda>d n w. (Ok (int_bytes 2), w))\<rparr>"

lemma exec_failure_reported_witness:
  "fst (run_state (CheckExec failing_os 1)
     \<lparr>r_session = started 9 sample_config, r_world = script_world, r_errno = 0, r_trace = [],
      r_hung = False\<rparr>) = Some 2"
  using exec_failure_reported [of "\<lambda>_. Ok ()" "\<lambda>_ _ _. Some 2" "[SLASH]" "[[115]]" "[]" None
      "int_bytes 2" 127 failing_os
      "\<lparr>r_session = started 9 sample_config, r_world = script_world, r_errno = 0, r_trace = [],
        r_hung = False\<rparr>" 0]
  by (simp add: dpty_exec_child_def failing_os_def script_os_def)

text \<open>
  The exit event reports a normal exit with the program's exit code, and a death by
  signal \<open>n\<close>, with or without a core dump, with code \<open>128 + n\<close> and the signal.
\<close>

theorem exit_report_decodes:
  assumes "0 \<le> code" "code < 256" "0 < sig" "sig < 127"
  shows "exit_report (256 * code) = (code, 0) \<and> exit_report sig = (128 + sig, sig) \<and>
    exit_report (128 + sig) = (128 + sig, sig)"
proof -
  have low: "st AND 127 = st mod 128" and high: "st AND 255 = st mod 256" for st :: int
    using take_bit_eq_mask [of 7 st] take_bit_eq_mask [of 8 st]
    by (simp_all add: mask_eq_exp_minus_1 take_bit_eq_mod)
  have "exit_report (256 * code) = (code, 0)"
    using assms by (simp add: exit_report_def WIFEXITED_def WEXITSTATUS_def wstatus_def low high
        drop_bit_eq_div)
  moreover have "exit_report sig = (128 + sig, sig)" "exit_report (128 + sig) = (128 + sig, sig)"
    using assms by (simp_all add: exit_report_def WIFEXITED_def WIFSIGNALED_def WTERMSIG_def
        wstatus_def low)
  ultimately show ?thesis by simp
qed

lemma exit_report_decodes_witness:
  "exit_report 768 = (3, 0) \<and> exit_report 9 = (137, 9) \<and> exit_report 137 = (137, 9)"
  using exit_report_decodes [of 3 9] by simp

section \<open>Observations\<close>

text \<open>
  In every process snapshot a process group is either reported or has a nonzero error,
  never both and never neither, an echo that is on was really read, and the session is
  reported as exited exactly when it has finished.
\<close>

theorem process_snapshot_consistent:
  assumes "run_state (GetProcessSnapshot pr buffer s) w = (Inr p, w')"
  shows "((0 < ps_child_process_group p) \<noteq> (ps_child_process_group_error p \<noteq> 0)) \<and>
    ((0 < ps_foreground_process_group p) \<noteq> (ps_foreground_process_group_error p \<noteq> 0)) \<and>
    (ps_terminal_echo_enabled p = 0 \<or> ps_terminal_attributes_error p = 0) \<and>
    (ps_has_exited p = 1) = (s_state s = kFinished)"
  using process_snapshot_fields [OF assms] by (simp add: process_fields_ok_def) blast

lemma process_snapshot_consistent_witness:
  "\<exists>p. run_state (GetProcessSnapshot sample_probe
      (Some (struct_sizeof process_layout, DPTY_ABI_VERSION)) sample_session) () = (Inr p, ()) \<and>
    ps_foreground_process_group p = 200 \<and> ps_foreground_process_group_error p = 0"
proof -
  obtain p where p: "run_state (GetProcessSnapshot sample_probe
      (Some (struct_sizeof process_layout, DPTY_ABI_VERSION)) sample_session) () = (Inr p, ())"
    "ps_foreground_process_group p = 200"
    using sample_processes by blast
  from process_snapshot_consistent [OF p(1)] p show ?thesis by auto
qed

text \<open>
  The working directory's snapshot carries a path exactly when it carries no error;
  the path has no NUL and fits the kernel's limit.
\<close>

theorem working_directory_consistent:
  assumes "run_state (GetWorkingDirectorySnapshot pr buffer s) w = (Inr p, w')"
  shows "(wd_path p = []) = (wd_system_error p \<noteq> 0) \<and> 0 \<notin> set (wd_path p) \<and>
    length (wd_path p) < MAXPATHLEN"
  using working_directory_fields [OF assms] by (simp add: cwd_ok_def)

lemma working_directory_consistent_witness:
  "\<exists>p. run_state (GetWorkingDirectorySnapshot sample_probe
      (Some (struct_sizeof cwd_layout, DPTY_ABI_VERSION)) sample_session) () = (Inr p, ()) \<and>
    wd_path p = [SLASH, 116] \<and> wd_system_error p = 0"
proof -
  obtain p where p: "run_state (GetWorkingDirectorySnapshot sample_probe
      (Some (struct_sizeof cwd_layout, DPTY_ABI_VERSION)) sample_session) () = (Inr p, ())"
    "wd_path p = [SLASH, 116]"
    using sample_directory by blast
  from working_directory_consistent [OF p(1)] p show ?thesis by auto
qed

text \<open>
  On the time bases of the Mac, one nanosecond a tick or 125/3 of one, a span that is
  reported is exact: the true number of nanoseconds, in microseconds.
\<close>

theorem elapsed_time_exact:
  assumes "(numer, denom) = (1, 1) \<or> (numer, denom) = (125, 3)"
    "AbsoluteDeltaMicroseconds (Some (numer, denom)) a b = Some r"
  shows "unat r = (unat b - unat a) * unat numer div unat denom div 1000"
proof -
  have "a \<le> b" using assms(2) by (auto simp: AbsoluteDeltaMicroseconds_def split: if_splits)
  then have "unat (b - a) = unat b - unat a" by (simp add: word_le_nat_alt unat_sub)
  then show ?thesis using delta_exact [OF _ assms(2)] assms(1) by auto
qed

lemma elapsed_time_exact_witness:
  "AbsoluteDeltaMicroseconds (Some (125, 3)) 1000 49000 = Some 2000 \<and> unat (2000 :: u64) = 2000"
proof -
  have r: "AbsoluteDeltaMicroseconds (Some (125, 3)) 1000 49000 = Some 2000"
    by (simp add: AbsoluteDeltaMicroseconds_def)
  with elapsed_time_exact [OF _ this] show ?thesis by simp
qed

text \<open>
  On other time bases the guard of \<open>AbsoluteDeltaMicroseconds\<close> is not enough: here it
  lets a span through whose last sum wraps, and reports 0.29 seconds for 584 years.
\<close>

theorem elapsed_time_can_wrap:
  "AbsoluteDeltaMicroseconds (Some (1000000000, 33333335)) 1 614891499877906790 = Some 290448 \<and>
   (614891499877906789 * 1000000000 div 33333335 div 1000 :: nat) = 18446744073999999"
  using delta_wraps by simp

text \<open>
  Whatever block the kernel hands out, the parsed arguments stay within the snapshot's
  limits: at most the announced count and 128 of them, each terminated by its only NUL and
  at most 16384 bytes long, in at most 262144 bytes.
\<close>

theorem arguments_bounded:
  "let out = parse_arguments block in
   (\<exists>as. ar_bytes out = concat (map (\<lambda>a. a @ [0]) as) \<and> length as = ar_count out \<and>
      list_all (\<lambda>a. 0 \<notin> set a \<and> length a \<le> DPTY_FOREGROUND_SINGLE_ARGUMENT_LIMIT) as) \<and>
   ar_count out \<le> ar_total out \<and> ar_count out \<le> DPTY_FOREGROUND_ARGUMENT_LIMIT \<and>
   length (ar_bytes out) \<le> DPTY_FOREGROUND_ARGUMENT_BYTES_CAPACITY"
  using parse_arguments_ok [of block]
  by (simp add: arguments_ok_def terminated_def argument_ok_def [abs_def] Let_def)

text \<open>
  C13. A block that encodes an executable and arguments within the limits, the first of them
  not empty, is parsed back exactly.
\<close>

theorem arguments_round_trip:
  assumes "0 \<notin> set exe" "list_all argument_ok as" "length as \<le> DPTY_FOREGROUND_ARGUMENT_LIMIT"
    "length (terminated as) \<le> DPTY_FOREGROUND_ARGUMENT_BYTES_CAPACITY"
    "as \<noteq> [] \<longrightarrow> hd as \<noteq> []"
  shows "let out = parse_arguments (encode_block exe padding as env) in
    ar_bytes out = terminated as \<and> ar_count out = length as \<and> ar_total out = length as \<and>
    ar_omitted out = 0 \<and> \<not> ar_truncated out \<and> ar_error out = 0"
  using parse_encoded [OF assms] by (simp add: Let_def)

lemma arguments_round_trip_witness:
  "ar_bytes (parse_arguments (encode_block [47, 98] 3 [[98], [], [45, 120]] [65, 61, 0])) =
     [98, 0, 0, 45, 120, 0]"
  using arguments_round_trip [of "[47, 98]" "[[98], [], [45, 120]]" 3 "[65, 61, 0]"]
  by (simp add: argument_ok_def terminated_def Let_def)

text \<open>
  When the first argument is empty, it is skipped as padding and the block is read one
  string too far: the first string of the environment is reported as an argument.
\<close>

theorem arguments_leak_environment:
  assumes "0 \<notin> set exe" "list_all argument_ok (as @ [e])"
    "length as < DPTY_FOREGROUND_ARGUMENT_LIMIT"
    "length (terminated (as @ [e])) \<le> DPTY_FOREGROUND_ARGUMENT_BYTES_CAPACITY"
    "hd (as @ [e]) \<noteq> []"
  shows "ar_bytes (parse_arguments (encode_block exe padding ([] # as) (terminated [e] @ rest))) =
    terminated (as @ [e])"
  by (rule parse_leaks_environment [OF assms])

lemma arguments_leak_environment_witness:
  "ar_bytes (parse_arguments
     (encode_block [47, 98] 3 [[], [45, 120]] (terminated [[75, 61, 49]] @ []))) =
   [45, 120, 0, 75, 61, 49, 0]"
  using arguments_leak_environment [of "[47, 98]" "[[45, 120]]" "[75, 61, 49]" 3 "[]"]
  by (simp add: argument_ok_def terminated_def)

text \<open>
  The members of a foreground job are reordered, none lost: the group's leader comes
  first where it is a member, otherwise the earliest started process, and the rest follow
  by start time, those of unknown start last, and by process identifier.
\<close>

theorem members_arranged:
  assumes "ms \<noteq> []"
  shows "mset (arrange g ms) = mset ms \<and> sorted (map process_key (tl (arrange g ms))) \<and>
    (if g \<in> m_pid ` set ms then m_pid (hd (arrange g ms)) = g
     else \<forall>m \<in> set ms. process_key (hd (arrange g ms)) \<le> process_key m)"
  using arrange_ok [OF assms] by blast

lemma members_arranged_witness:
  "\<exists>m. m_pid m = 200 \<and> hd (arrange 200 [m\<lparr>m_pid := 201\<rparr>, m]) = m \<and>
     mset (arrange 200 [m\<lparr>m_pid := 201\<rparr>, m]) = {#m\<lparr>m_pid := 201\<rparr>, m#}"
proof -
  let ?m = "\<lparr>m_pid = 200, m_start_time_seconds = 7, m_start_time_microseconds = 5,
    m_start_absolute_time = 9, m_elapsed_microseconds = 0, m_information_error = 0,
    m_resource_usage_error = 0, m_name = [98]\<rparr>"
  have "mset (arrange 200 [?m\<lparr>m_pid := 201\<rparr>, ?m]) = {#?m\<lparr>m_pid := 201\<rparr>, ?m#}"
    using members_arranged [of "[?m\<lparr>m_pid := 201\<rparr>, ?m]" 200] by simp
  moreover have "hd (arrange 200 [?m\<lparr>m_pid := 201\<rparr>, ?m]) = ?m"
    by (simp add: arrange_def swap_first_def)
  ultimately show ?thesis by (intro exI [of _ ?m]) simp
qed

text \<open>
  A foreground job's snapshot promises, whatever the kernel answers and however the
  session changes meanwhile: only an available one has content, and then the session still
  runs the same child, the job's group is another than the session's own, the members are at
  most the limit and distinct processes, the counts add up, and the strings end where they
  say; every other disposition carries none, and a session is reported as exited exactly
  under that disposition.
\<close>

theorem foreground_job_promise:
  assumes "run_state (GetForegroundJobSnapshot pr buffer s s') w = (Inr out, w')"
  shows "(if fj_disposition out = DPTY_FOREGROUND_JOB_AVAILABLE
      then job_ok out \<and> fj_members out \<noteq> [] \<and>
        fj_foreground_process_group out \<noteq> fj_owning_process_group out \<and>
        s_state s' = kRunning \<and> s_child_pid s' = s_child_pid s
      else content_free out) \<and>
    (fj_disposition out = DPTY_FOREGROUND_JOB_EXITED) = (fj_has_exited out = 1)"
  using validD [OF GetForegroundJobSnapshot_yields [of pr buffer s s'] TrueI assms]
  by (simp add: snapshot_ok_def split: if_splits)

lemma foreground_job_promise_witness:
  "\<exists>out. run_state (GetForegroundJobSnapshot sample_probe
        (Some (struct_sizeof foreground_job_layout, DPTY_ABI_VERSION)) sample_session sample_session) ()
      = (Inr out, ()) \<and>
     fj_disposition out = DPTY_FOREGROUND_JOB_AVAILABLE \<and> map m_pid (fj_members out) = [200, 201] \<and>
     job_ok out"
proof -
  obtain out where out: "run_state (GetForegroundJobSnapshot sample_probe
        (Some (struct_sizeof foreground_job_layout, DPTY_ABI_VERSION)) sample_session sample_session) ()
      = (Inr out, ())"
    "fj_disposition out = DPTY_FOREGROUND_JOB_AVAILABLE" "map m_pid (fj_members out) = [200, 201]"
    by (rule exE [OF sample_job], elim conjE) (rule that)
  have "job_ok out" using foreground_job_promise [OF out(1)] by (simp only: out(2) if_True simp_thms)
  with out show ?thesis by (intro exI [of _ out] conjI)
qed

section \<open>Two defects\<close>

text \<open>
  A close that arrives after the child was reaped, while its output is unacknowledged,
  still signals the child's process group: here the hang-up goes to a group that another
  process may have by then.
\<close>

theorem close_signals_reaped_child:
  "\<exists>i j. i < j \<and> j < length (r_trace late_close_run) \<and>
     r_trace late_close_run ! i = SysReap 100 \<and>
     r_trace late_close_run ! j = SysKill (- 100) SIGHUP True"
proof (intro exI conjI)
  show "(11 :: nat) < 15" by simp
  show "15 < length (r_trace late_close_run)" by (simp add: late_close_run_facts)
  show "r_trace late_close_run ! 11 = SysReap 100" by (simp add: late_close_run_facts)
  show "r_trace late_close_run ! 15 = SysKill (- 100) SIGHUP True" by (simp add: late_close_run_facts)
qed

text \<open>
  When waiting for events fails, the error event does not carry the error: the number
  is read after the child was signalled, which resets it, so \<open>ENOMEM\<close> is reported as zero.
\<close>

theorem wait_error_lost:
  "os_kevent_wait script_os 7 lost_errno_world =
     (Fail ENOMEM, lost_errno_world\<lparr>sc_events := []\<rparr>) \<and>
   Callback \<lparr>ev_session = 9, ev_type = DPTY_EVENT_ERROR, ev_sequence = 0, ev_data = None,
     ev_length = 0, ev_value1 = status_code DPTY_STATUS_SYSTEM_ERROR, ev_value2 = 0,
     ev_system_error = 0\<rparr> \<in> set (r_trace lost_errno_run)"
  by (simp add: lost_errno_run_facts script_answers lost_errno_world_def)

end
